(* ===== verification/Prelude.thy ===== *)
theory Prelude
  imports Complex_Main
begin

text \<open>
  Shared vocabulary of the development: the pieces of the JavaScript runtime that the
  TypeScript sources use everywhere.

  \<^item> Strings. A JavaScript string is a \<open>string\<close> whose characters are its UTF-16 code units;
    the model covers code units below 256 (Latin-1), which is what a \<open>char\<close> holds. \<open>trim\<close>,
    \<open>toLowerCase\<close>, \<open>startsWith\<close>, \<open>split\<close>, \<open>join\<close>, \<open>Buffer.byteLength\<close> and
    \<open>encodeURIComponent\<close> are the runtime's functions on that range.
  \<^item> Maps. A JavaScript \<open>Map\<close> iterates in insertion order, and \<open>set\<close> on a present key keeps the
    key's position: it is an association list with distinct keys (\<open>js_map\<close>), never a plain
    function, because the sources evict \<open>keys().next()\<close>, the oldest insertion.
  \<^item> The two eviction loops of the sources, with the lemmas that say which entries they keep.
\<close>

named_theorems js_map_simps \<open>rewrite rules for the insertion-ordered maps\<close>
named_theorems js_map_intros \<open>well-formedness rules for the insertion-ordered maps\<close>

section \<open>Strings\<close>

text \<open>\<open>String.prototype.trim\<close>: the white space and line terminators below code unit 256.\<close>

definition js_space :: "char \<Rightarrow> bool" where
  "js_space c \<longleftrightarrow>
     c \<in> {CHR 0x09, CHR 0x0A, CHR 0x0B, CHR 0x0C, CHR 0x0D, CHR '' '', CHR 0xA0}"

definition trim :: "string \<Rightarrow> string" where
  "trim s = rev (dropWhile js_space (rev (dropWhile js_space s)))"

definition startsWith :: "string \<Rightarrow> string \<Rightarrow> bool" where
  "startsWith s p \<longleftrightarrow> take (length p) s = p"

definition endsWith :: "string \<Rightarrow> string \<Rightarrow> bool" where
  "endsWith s p \<longleftrightarrow> length p \<le> length s \<and> drop (length s - length p) s = p"

fun str_includes :: "string \<Rightarrow> string \<Rightarrow> bool" where
  "str_includes [] p \<longleftrightarrow> p = []"
| "str_includes (c # s) p \<longleftrightarrow> startsWith (c # s) p \<or> str_includes s p"

definition char_lower :: "char \<Rightarrow> char" where
  "char_lower c =
     (let n = of_char c :: nat in
      if 65 \<le> n \<and> n \<le> 90 then char_of (n + 32)
      else if 192 \<le> n \<and> n \<le> 222 \<and> n \<noteq> 215 then char_of (n + 32)
      else c)"

definition toLowerCase :: "string \<Rightarrow> string" where
  "toLowerCase s = map char_lower s"

text \<open>\<open>Buffer.byteLength(text)\<close>: the UTF-8 length, one byte below 128 and two up to 255.\<close>

definition byteLength :: "string \<Rightarrow> nat" where
  "byteLength s = sum_list (map (\<lambda>c. if (of_char c :: nat) < 128 then 1 else 2) s)"

text \<open>\<open>s.split(c)\<close> on a one-character separator, and \<open>parts.join(sep)\<close>.\<close>

fun splitOn :: "char \<Rightarrow> string \<Rightarrow> string list" where
  "splitOn c [] = [[]]"
| "splitOn c (x # s) =
     (if x = c then [] # splitOn c s
      else (case splitOn c s of [] \<Rightarrow> [[x]] | w # ws \<Rightarrow> (x # w) # ws))"

fun join :: "string \<Rightarrow> string list \<Rightarrow> string" where
  "join sep [] = []"
| "join sep [w] = w"
| "join sep (w # v # ws) = w @ sep @ join sep (v # ws)"

text \<open>A falsy string is the empty one: \<open>value || undefined\<close>.\<close>

definition non_empty :: "string \<Rightarrow> string option" where
  "non_empty s = (if s = [] then None else Some s)"

text \<open>Truthiness of an optional string: present and not empty.\<close>

definition truthy :: "string option \<Rightarrow> bool" where
  "truthy v \<longleftrightarrow> (case v of None \<Rightarrow> False | Some s \<Rightarrow> s \<noteq> [])"

text \<open>\<open>String(n)\<close> on integers: decimal digits.\<close>

definition digit_char :: "nat \<Rightarrow> char" where
  "digit_char d = char_of (48 + d)"

fun nat_string :: "nat \<Rightarrow> string" where
  "nat_string n = (if n < 10 then [digit_char n] else nat_string (n div 10) @ [digit_char (n mod 10)])"

declare nat_string.simps [simp del]

definition int_string :: "int \<Rightarrow> string" where
  "int_string i = (if i < 0 then CHR ''-'' # nat_string (nat (- i)) else nat_string (nat i))"

text \<open>\<open>encodeURIComponent\<close>: unreserved characters stay, every other code unit is its UTF-8
  bytes as upper-case percent escapes.\<close>

definition zero_pad :: "nat \<Rightarrow> string \<Rightarrow> string" where
  "zero_pad k s = replicate (k - length s) (CHR ''0'') @ s"

definition hex_char :: "nat \<Rightarrow> char" where
  "hex_char d = (if d < 10 then char_of (48 + d) else char_of (55 + d))"

definition percent :: "nat \<Rightarrow> string" where
  "percent b = [CHR ''%'', hex_char (b div 16), hex_char (b mod 16)]"

definition uri_unreserved :: "char \<Rightarrow> bool" where
  "uri_unreserved c \<longleftrightarrow>
     (let n = of_char c :: nat in
      (48 \<le> n \<and> n \<le> 57) \<or> (65 \<le> n \<and> n \<le> 90) \<or> (97 \<le> n \<and> n \<le> 122)) \<or>
     c \<in> set ''-_.!~*()'' \<or> c = CHR 0x27"

definition encode_char :: "char \<Rightarrow> string" where
  "encode_char c =
     (let n = of_char c :: nat in
      if uri_unreserved c then [c]
      else if n < 128 then percent n
      else percent (192 + n div 64) @ percent (128 + n mod 64))"

definition encodeURIComponent :: "string \<Rightarrow> string" where
  "encodeURIComponent s = concat (map encode_char s)"

text \<open>\<open>Buffer.from(s, 'utf8')\<close>, and copying it into a zero-filled buffer of length \<open>n\<close>.\<close>

definition utf8_char :: "char \<Rightarrow> nat list" where
  "utf8_char c = (let n = of_char c in if n < 128 then [n] else [192 + n div 64, 128 + n mod 64])"

definition utf8 :: "string \<Rightarrow> nat list" where
  "utf8 s = concat (map utf8_char s)"

definition padded :: "nat \<Rightarrow> nat list \<Rightarrow> nat list" where
  "padded n bs = take n (bs @ replicate n 0)"

subsection \<open>Facts about strings\<close>

lemma trim_Nil [simp]: "trim [] = []"
  by (simp add: trim_def)

lemma dropWhile_idem: "dropWhile P (dropWhile P xs) = dropWhile P xs"
  by (induction xs) auto

lemma dropWhile_hd: "dropWhile P xs = x # ys \<Longrightarrow> \<not> P x"
  by (induction xs) (auto split: if_splits)

lemma trim_ends:
  assumes "trim s \<noteq> []"
  shows "\<not> js_space (hd (trim s)) \<and> \<not> js_space (last (trim s))"
proof -
  define u where "u = dropWhile js_space s"
  define v where "v = dropWhile js_space (rev u)"
  have t: "trim s = rev v" by (simp add: trim_def u_def v_def)
  have v: "v \<noteq> []" using assms t by simp
  have l: "\<not> js_space (hd v)" using v unfolding v_def by (rule hd_dropWhile)
  obtain w where w: "rev u = w @ v" unfolding v_def
    by (metis takeWhile_dropWhile_id)
  have u: "u = rev v @ rev w" using w by (metis rev_append rev_rev_ident)
  have "\<not> js_space (hd u)" using u v unfolding u_def by (metis hd_dropWhile Nil_is_append_conv rev_is_Nil_conv)
  then have "\<not> js_space (hd (rev v))" using u v by simp
  then show ?thesis using t v l by (simp add: last_rev)
qed

lemma dropWhile_id: "xs = [] \<or> \<not> P (hd xs) \<Longrightarrow> dropWhile P xs = xs"
  by (cases xs) auto

lemma trim_idem [simp]: "trim (trim s) = trim s"
proof (cases "trim s = []")
  case False
  with trim_ends have "\<not> js_space (hd (trim s))" "\<not> js_space (last (trim s))" by blast+
  then have "dropWhile js_space (trim s) = trim s" "dropWhile js_space (rev (trim s)) = rev (trim s)"
    using False by (auto intro!: dropWhile_id simp: hd_rev)
  then show ?thesis by (metis trim_def rev_rev_ident)
qed simp

lemma startsWith_append [simp]: "startsWith (p @ s) p"
  by (simp add: startsWith_def)

lemma startsWith_iff: "startsWith s p \<longleftrightarrow> (\<exists>t. s = p @ t)"
  by (metis append_eq_conv_conj append_take_drop_id startsWith_def)

lemma join_Cons: "join sep (w # ws) = w @ (if ws = [] then [] else sep @ join sep ws)"
  by (cases ws) auto

text \<open>Splitting at the first separator: the step behind every injectivity proof of joined keys.\<close>

lemma append_sep_eqD:
  assumes "xs @ c # ys = xs' @ c # ys'" and "c \<notin> set xs" and "c \<notin> set xs'"
  shows "xs = xs' \<and> ys = ys'"
  using assms
proof (induction xs arbitrary: xs')
  case Nil
  then show ?case by (cases xs') auto
next
  case (Cons x xs)
  then show ?case by (cases xs') auto
qed

lemma nat_string_nonempty [simp]: "nat_string n \<noteq> []" "[] \<noteq> nat_string n"
  by (subst nat_string.simps, simp)+

lemma digit_char_inj: "a < 10 \<Longrightarrow> b < 10 \<Longrightarrow> digit_char a = digit_char b \<longleftrightarrow> a = b"
proof
  assume "a < 10" "b < 10" "digit_char a = digit_char b"
  then have "(of_char (digit_char a) :: nat) = of_char (digit_char b)" by simp
  then have "(48 + a) mod 256 = (48 + b) mod 256" by (simp add: digit_char_def of_char_of)
  with \<open>a < 10\<close> \<open>b < 10\<close> show "a = b" by simp
qed simp

lemma nat_string_inj: "nat_string m = nat_string n \<Longrightarrow> m = n"
proof (induction m arbitrary: n rule: nat_string.induct)
  case (1 m)
  have eq: "nat_string m = nat_string n" by (rule "1.prems")
  show ?case
  proof (cases "m < 10 \<or> n < 10")
    case True
    then show ?thesis using eq
      by (subst (asm) (1 2) nat_string.simps) (auto split: if_splits simp: digit_char_inj)
  next
    case False
    then have "nat_string (m div 10) = nat_string (n div 10)" "m mod 10 = n mod 10"
      using eq by (subst (asm) (1 2) nat_string.simps, simp add: digit_char_inj)+
    with "1.IH" False have "m div 10 = n div 10" by simp
    with \<open>m mod 10 = n mod 10\<close> show ?thesis by (metis div_mult_mod_eq)
  qed
qed

text \<open>Every character of a printed number is a digit or the sign.\<close>

lemma digit_char_range: "d < 10 \<Longrightarrow> 48 \<le> (of_char (digit_char d) :: nat) \<and> (of_char (digit_char d) :: nat) \<le> 57"
  by (simp add: digit_char_def of_char_of)

lemma nat_string_digits:
  "c \<in> set (nat_string n) \<Longrightarrow> 48 \<le> (of_char c :: nat) \<and> (of_char c :: nat) \<le> 57"
proof (induction n rule: nat_string.induct)
  case (1 n)
  then show ?case
    by (subst (asm) (2) nat_string.simps) (auto split: if_splits simp: digit_char_range)
qed

lemma newline_notin_int_string: "CHR 0x0A \<notin> set (int_string i)"
  using nat_string_digits [of "CHR 0x0A"] by (auto simp: int_string_def)

lemma minus_notin_nat_string: "CHR ''-'' \<notin> set (nat_string n)"
  using nat_string_digits [of "CHR ''-''"] by auto

lemma int_string_inj: "int_string i = int_string j \<Longrightarrow> i = j"
proof -
  assume eq: "int_string i = int_string j"
  have "hd (nat_string n) \<noteq> CHR ''-''" for n
    using minus_notin_nat_string [of n] hd_in_set [of "nat_string n"] by (metis nat_string_nonempty(1))
  then have "(i < 0) = (j < 0)" using eq
    by (auto simp: int_string_def split: if_splits dest: arg_cong [where f = hd] sym [THEN arg_cong [where f = hd]])
  with eq have "nat_string (nat \<bar>i\<bar>) = nat_string (nat \<bar>j\<bar>)"
    by (auto simp: int_string_def split: if_splits)
  then have "nat \<bar>i\<bar> = nat \<bar>j\<bar>" by (rule nat_string_inj)
  with \<open>(i < 0) = (j < 0)\<close> show "i = j" by linarith
qed

section \<open>The last elements of a list\<close>

lemma utf8_char_nonempty: "utf8_char c \<noteq> []"
  by (simp add: utf8_char_def Let_def)

lemma utf8_char_prefix:
  assumes "utf8_char c @ xs = utf8_char d @ ys"
  shows "c = d \<and> xs = ys"
proof -
  let ?n = "of_char c :: nat" and ?m = "of_char d :: nat"
  have less: "?n < 256" "?m < 256" by simp_all
  have join64: "?n div 64 = ?m div 64 \<Longrightarrow> ?n mod 64 = ?m mod 64 \<Longrightarrow> c = d" by (metis div_mult_mod_eq of_char_eq_iff)
  show ?thesis using assms less join64 by (auto simp: utf8_char_def Let_def split: if_splits)
qed

lemma utf8_inj: "utf8 s = utf8 t \<Longrightarrow> s = t"
proof (induction s arbitrary: t)
  case Nil
  then show ?case by (cases t) (auto simp: utf8_def utf8_char_nonempty)
next
  case (Cons c s)
  then obtain d t' where t: "t = d # t'" by (cases t) (auto simp: utf8_def utf8_char_nonempty)
  with Cons.prems have "utf8_char c @ utf8 s = utf8_char d @ utf8 t'" by (simp add: utf8_def)
  from utf8_char_prefix [OF this] Cons.IH t show ?case by simp
qed

lemma padded_take: "length bs \<le> n \<Longrightarrow> take (length bs) (padded n bs) = bs"
  by (simp add: padded_def min_def)

lemma padded_eq: "length bs \<le> n \<Longrightarrow> length cs = length bs \<Longrightarrow> padded n bs = padded n cs \<Longrightarrow> bs = cs"
  by (metis padded_take)

lemma padded_same: "length bs \<le> n \<Longrightarrow> padded n bs = padded n cs \<and> length bs = length cs \<longleftrightarrow> bs = cs"
  using padded_eq by metis

text \<open>\<open>xs.slice(-k)\<close> for a positive \<open>k\<close>.\<close>

definition last_n :: "nat \<Rightarrow> 'a list \<Rightarrow> 'a list" where
  "last_n k xs = drop (length xs - k) xs"

lemma last_n_all: "length xs \<le> k \<Longrightarrow> last_n k xs = xs"
  by (simp add: last_n_def)

lemma length_last_n [simp]: "length (last_n k xs) = min (length xs) k"
  by (auto simp: last_n_def)

lemma last_n_last_n_append: "last_n k (last_n k xs @ ys) = last_n k (xs @ ys)"
proof (cases "length xs \<le> k")
  case False
  then show ?thesis by (simp add: last_n_def add.commute)
qed (simp add: last_n_all)

lemma last_n_suffix: "\<exists>p. xs = p @ last_n k xs"
  by (metis append_take_drop_id last_n_def)

lemma last_n_snoc: "0 < k \<Longrightarrow> last_n k (xs @ [x]) = (if length xs < k then xs @ [x] else drop (Suc (length xs) - k) xs @ [x])"
  by (auto simp: last_n_def)

section \<open>Insertion-ordered maps\<close>

type_synonym ('k, 'v) js_map = "('k \<times> 'v) list"

text \<open>\<open>m.get(k)\<close>, \<open>m.set(k, v)\<close>, \<open>m.delete(k)\<close>, \<open>m.size\<close> and \<open>m.keys()\<close> of a JavaScript \<open>Map\<close>.\<close>

definition jm_get :: "('k, 'v) js_map \<Rightarrow> 'k \<Rightarrow> 'v option" where
  "jm_get m k = map_of m k"

fun jm_set :: "'k \<Rightarrow> 'v \<Rightarrow> ('k, 'v) js_map \<Rightarrow> ('k, 'v) js_map" where
  "jm_set k v [] = [(k, v)]"
| "jm_set k v ((k', v') # m) = (if k = k' then (k, v) # m else (k', v') # jm_set k v m)"

definition jm_delete :: "'k \<Rightarrow> ('k, 'v) js_map \<Rightarrow> ('k, 'v) js_map" where
  "jm_delete k m = filter (\<lambda>p. fst p \<noteq> k) m"

abbreviation jm_size :: "('k, 'v) js_map \<Rightarrow> nat" where
  "jm_size m \<equiv> length m"

definition jm_keys :: "('k, 'v) js_map \<Rightarrow> 'k list" where
  "jm_keys m = map fst m"

definition jm_wf :: "('k, 'v) js_map \<Rightarrow> bool" where
  "jm_wf m \<longleftrightarrow> distinct (jm_keys m)"

text \<open>The idiom \<open>m.delete(k); m.set(k, v)\<close>, which moves a key to the youngest end.\<close>

definition jm_touch :: "'k \<Rightarrow> 'v \<Rightarrow> ('k, 'v) js_map \<Rightarrow> ('k, 'v) js_map" where
  "jm_touch k v m = jm_set k v (jm_delete k m)"

text \<open>A loop over \<open>m.entries()\<close> that deletes the entries it rejects.\<close>

definition jm_filter :: "('k \<Rightarrow> 'v \<Rightarrow> bool) \<Rightarrow> ('k, 'v) js_map \<Rightarrow> ('k, 'v) js_map" where
  "jm_filter P m = filter (\<lambda>(k, v). P k v) m"

lemma jm_delete_hd [simp]: "jm_delete k ((k, v) # m) = jm_delete k m"
  by (simp add: jm_delete_def)

lemma jm_delete_Nil [simp]: "jm_delete k [] = []"
  by (simp add: jm_delete_def)

lemma jm_delete_length: "length (jm_delete k m) \<le> length m"
  by (simp add: jm_delete_def)

text \<open>
  The eviction loops: \<open>while (m.size > cap)\<close> (limiters and caches) and
  \<open>while (m.size >= cap)\<close> (request tables) delete \<open>keys().next()\<close> until the size is right or the
  map is empty.
\<close>

function evict_gt :: "nat \<Rightarrow> ('k, 'v) js_map \<Rightarrow> ('k, 'v) js_map" where
  "evict_gt cap m =
     (if jm_size m > cap
      then (case m of [] \<Rightarrow> m | (k, v) # _ \<Rightarrow> evict_gt cap (jm_delete k m))
      else m)"
  by pat_completeness auto
termination
  by (relation "measure (\<lambda>(cap, m). length m)")
     (auto simp: jm_delete_def less_Suc_eq_le)

function evict_ge :: "nat \<Rightarrow> ('k, 'v) js_map \<Rightarrow> ('k, 'v) js_map" where
  "evict_ge cap m =
     (if jm_size m \<ge> cap
      then (case m of [] \<Rightarrow> m | (k, v) # _ \<Rightarrow> evict_ge cap (jm_delete k m))
      else m)"
  by pat_completeness auto
termination
  by (relation "measure (\<lambda>(cap, m). length m)")
     (auto simp: jm_delete_def less_Suc_eq_le)

declare evict_gt.simps [simp del] evict_ge.simps [simp del]

subsection \<open>Facts about insertion-ordered maps\<close>

lemma jm_get_Nil [simp, js_map_simps]: "jm_get [] k = None"
  by (simp add: jm_get_def)

lemma jm_get_Cons [js_map_simps]: "jm_get ((k', v) # m) k = (if k' = k then Some v else jm_get m k)"
  by (simp add: jm_get_def)

lemma jm_get_set [simp, js_map_simps]: "jm_get (jm_set k v m) k' = (if k' = k then Some v else jm_get m k')"
  by (induction m) (auto simp: jm_get_def)

lemma jm_get_delete [simp, js_map_simps]: "jm_get (jm_delete k m) k' = (if k' = k then None else jm_get m k')"
  by (induction m) (auto simp: jm_get_def jm_delete_def)

lemma jm_get_touch [simp, js_map_simps]: "jm_get (jm_touch k v m) k' = (if k' = k then Some v else jm_get m k')"
  by (simp add: jm_touch_def)

lemma set_jm_keys: "set (jm_keys m) = {k. jm_get m k \<noteq> None}"
  by (induction m) (auto simp: jm_keys_def jm_get_def)

lemma jm_get_None_iff: "jm_get m k = None \<longleftrightarrow> k \<notin> fst ` set m"
  by (simp add: jm_get_def map_of_eq_None_iff)

lemma jm_get_mem: "jm_get m k = Some v \<Longrightarrow> (k, v) \<in> set m"
  by (simp add: jm_get_def map_of_SomeD)

lemma jm_get_wf: "jm_wf m \<Longrightarrow> (k, v) \<in> set m \<longleftrightarrow> jm_get m k = Some v"
  by (auto simp: jm_wf_def jm_keys_def jm_get_def intro: map_of_is_SomeI map_of_SomeD)

lemma jm_keys_set: "jm_keys (jm_set k v m) = (if jm_get m k = None then jm_keys m @ [k] else jm_keys m)"
  by (induction m) (auto simp: jm_keys_def jm_get_def)

lemma jm_keys_delete: "jm_keys (jm_delete k m) = filter (\<lambda>j. j \<noteq> k) (jm_keys m)"
  by (simp add: jm_keys_def jm_delete_def filter_map comp_def)

lemma jm_wf_Nil [simp, js_map_intros]: "jm_wf []"
  by (simp add: jm_wf_def jm_keys_def)

lemma jm_wf_set [simp, js_map_intros]: "jm_wf m \<Longrightarrow> jm_wf (jm_set k v m)"
  using set_jm_keys [of m] by (auto simp: jm_wf_def jm_keys_set)

lemma jm_wf_delete [simp, js_map_intros]: "jm_wf m \<Longrightarrow> jm_wf (jm_delete k m)"
  by (simp add: jm_wf_def jm_keys_delete)

lemma jm_wf_touch [simp, js_map_intros]: "jm_wf m \<Longrightarrow> jm_wf (jm_touch k v m)"
  by (simp add: jm_touch_def)

lemma jm_wf_filter [simp, js_map_intros]: "jm_wf m \<Longrightarrow> jm_wf (jm_filter P m)"
  by (auto simp: jm_wf_def jm_keys_def jm_filter_def distinct_map intro: inj_on_subset)

lemma set_jm_set: "set (jm_set k v m) \<subseteq> insert (k, v) (set m)"
  by (induction m) (auto split: if_splits)

lemma set_jm_filter [simp]: "set (jm_filter P m) = {(k, v) \<in> set m. P k v}"
  by (auto simp: jm_filter_def)

lemma set_jm_delete [simp]: "set (jm_delete k m) = {p \<in> set m. fst p \<noteq> k}"
  by (auto simp: jm_delete_def)

lemma set_jm_touch: "set (jm_touch k v m) \<subseteq> insert (k, v) (set m)"
  using set_jm_set [of k v "jm_delete k m"] by (auto simp: jm_touch_def)

lemma jm_get_filter:
  assumes "jm_wf m"
  shows "jm_get (jm_filter P m) k = (case jm_get m k of Some v \<Rightarrow> if P k v then Some v else None | None \<Rightarrow> None)"
proof (cases "jm_get m k")
  case None
  then have "jm_get (jm_filter P m) k = None" by (auto simp: jm_get_None_iff)
  with None show ?thesis by simp
next
  case (Some v)
  have wf: "jm_wf (jm_filter P m)" using assms by simp
  have "(k, v) \<in> set m" using Some by (rule jm_get_mem)
  moreover have "(k, v') \<notin> set m" if "v' \<noteq> v" for v'
    using that Some jm_get_wf [OF assms] by auto
  ultimately have mem: "(k, w) \<in> set (jm_filter P m) \<longleftrightarrow> w = v \<and> P k v" for w
    by (cases "w = v") auto
  show ?thesis
  proof (cases "P k v")
    case True
    with mem [of v] jm_get_wf [OF wf, of k v] Some show ?thesis by simp
  next
    case False
    with mem jm_get_wf [OF wf, of k] Some show ?thesis by (cases "jm_get (jm_filter P m) k") auto
  qed
qed

lemma jm_size_set: "jm_size (jm_set k v m) = (if jm_get m k = None then Suc (jm_size m) else jm_size m)"
  by (induction m) (auto simp: jm_get_def)

lemma jm_size_delete_wf:
  "jm_wf m \<Longrightarrow> jm_size (jm_delete k m) = (if jm_get m k = None then jm_size m else jm_size m - 1)"
proof (induction m)
  case (Cons p m)
  obtain k' v where p: "p = (k', v)" by force
  have wf: "jm_wf m" and new: "k' \<notin> fst ` set m"
    using Cons.prems by (auto simp: p jm_wf_def jm_keys_def)
  show ?case
  proof (cases "k' = k")
    case True
    then have "jm_delete k m = m" using new by (auto simp: jm_delete_def filter_id_conv)
    then show ?thesis by (simp add: p True jm_get_Cons)
  next
    case False
    then have "m \<noteq> []" if "jm_get m k \<noteq> None" using that by auto
    with False Cons.IH [OF wf] show ?thesis
      by (cases m) (auto simp: p jm_get_Cons jm_delete_def)
  qed
qed simp

lemma jm_size_touch:
  "jm_wf m \<Longrightarrow> jm_size (jm_touch k v m) = (if jm_get m k = None then Suc (jm_size m) else jm_size m)"
  by (cases m) (auto simp: jm_touch_def jm_size_set jm_size_delete_wf)

text \<open>The eviction loops remove a prefix: exactly the oldest entries go, and no more than needed.\<close>

lemma jm_delete_head_wf: "jm_wf ((k, v) # m) \<Longrightarrow> jm_delete k m = m"
  by (auto simp: jm_wf_def jm_keys_def jm_delete_def filter_id_conv)

lemma jm_wf_tl: "jm_wf (p # m) \<Longrightarrow> jm_wf m"
  by (simp add: jm_wf_def jm_keys_def)

lemma evict_gt_eq: "jm_wf m \<Longrightarrow> evict_gt cap m = drop (jm_size m - cap) m"
proof (induction m)
  case Nil
  then show ?case by (simp add: evict_gt.simps)
next
  case (Cons p m)
  obtain k v where p: "p = (k, v)" by force
  have "evict_gt cap (p # m) = (if length m \<ge> cap then evict_gt cap m else p # m)"
    using Cons.prems by (subst evict_gt.simps) (auto simp: p jm_delete_head_wf)
  also have "\<dots> = drop (length (p # m) - cap) (p # m)"
    using Cons.IH [OF jm_wf_tl [OF Cons.prems]] by (auto simp: Suc_diff_le)
  finally show ?case .
qed

lemma evict_ge_eq: "jm_wf m \<Longrightarrow> 0 < cap \<Longrightarrow> evict_ge cap m = drop (Suc (jm_size m) - cap) m"
proof (induction m)
  case Nil
  then show ?case by (simp add: evict_ge.simps)
next
  case (Cons p m)
  obtain k v where p: "p = (k, v)" by force
  have "evict_ge cap (p # m) = (if Suc (length m) \<ge> cap then evict_ge cap m else p # m)"
    using Cons.prems(1) by (subst evict_ge.simps) (auto simp: p jm_delete_head_wf)
  also have "\<dots> = drop (Suc (length (p # m)) - cap) (p # m)"
    using Cons.IH [OF jm_wf_tl [OF Cons.prems(1)] Cons.prems(2)] by (auto simp: Suc_diff_le)
  finally show ?case .
qed

lemma evict_gt_size [simp]: "jm_size (evict_gt cap m) \<le> cap"
proof (induction cap m rule: evict_gt.induct)
  case (1 cap m)
  then show ?case by (subst evict_gt.simps) (auto split: list.splits prod.splits)
qed

lemma evict_ge_size: "0 < cap \<Longrightarrow> jm_size (evict_ge cap m) < cap"
proof (induction cap m rule: evict_ge.induct)
  case (1 cap m)
  then show ?case by (subst evict_ge.simps) (auto split: list.splits prod.splits)
qed

text \<open>Whatever single deletions keep, the eviction loops keep.\<close>

lemma evict_gt_keeps:
  assumes "P m" and "\<And>k m. P m \<Longrightarrow> P (jm_delete k m)"
  shows "P (evict_gt cap m)"
  using assms(1)
proof (induction "length m" arbitrary: m rule: less_induct)
  case less
  show ?case
  proof (cases m)
    case Nil
    then show ?thesis using less.prems by (simp add: evict_gt.simps)
  next
    case (Cons p m')
    obtain k v where p: "p = (k, v)" by force
    have "length (jm_delete k m) < length m"
      using jm_delete_length [of k m'] by (simp add: Cons p)
    then have "P (evict_gt cap (jm_delete k m))" using assms(2) less by blast
    then show ?thesis using less.prems
      by (subst evict_gt.simps) (simp add: Cons p)
  qed
qed

lemma evict_ge_keeps:
  assumes "P m" and "\<And>k m. P m \<Longrightarrow> P (jm_delete k m)"
  shows "P (evict_ge cap m)"
  using assms(1)
proof (induction "length m" arbitrary: m rule: less_induct)
  case less
  show ?case
  proof (cases m)
    case Nil
    then show ?thesis using less.prems by (simp add: evict_ge.simps)
  next
    case (Cons p m')
    obtain k v where p: "p = (k, v)" by force
    have "length (jm_delete k m) < length m"
      using jm_delete_length [of k m'] by (simp add: Cons p)
    then have "P (evict_ge cap (jm_delete k m))" using assms(2) less by blast
    then show ?thesis using less.prems
      by (subst evict_ge.simps) (simp add: Cons p)
  qed
qed

lemma evict_gt_subset: "set (evict_gt cap m) \<subseteq> set m"
  by (rule evict_gt_keeps [where P = "\<lambda>n. set n \<subseteq> set m"]) auto

lemma evict_ge_subset: "set (evict_ge cap m) \<subseteq> set m"
  by (rule evict_ge_keeps [where P = "\<lambda>n. set n \<subseteq> set m"]) auto

lemma evict_gt_wf [simp, js_map_intros]: "jm_wf m \<Longrightarrow> jm_wf (evict_gt cap m)"
  by (rule evict_gt_keeps) auto

lemma evict_ge_wf [simp, js_map_intros]: "jm_wf m \<Longrightarrow> jm_wf (evict_ge cap m)"
  by (rule evict_ge_keeps) auto

section \<open>Invariants of step relations\<close>

text \<open>The contract between a step relation and an invariant, and what it gives for every state a run
  reaches.\<close>

locale invariant_system =
  fixes initial :: "'s \<Rightarrow> bool" and step :: "'s \<Rightarrow> 's \<Rightarrow> bool" and inv :: "'s \<Rightarrow> bool"
  assumes initial_inv: "initial s \<Longrightarrow> inv s"
    and step_inv: "inv s \<Longrightarrow> step s t \<Longrightarrow> inv t"
begin

lemma run_inv: "step\<^sup>*\<^sup>* s t \<Longrightarrow> inv s \<Longrightarrow> inv t"
  by (induction rule: rtranclp_induct) (auto intro: step_inv)

lemma reachable_inv: "initial s \<Longrightarrow> step\<^sup>*\<^sup>* s t \<Longrightarrow> inv t"
  using run_inv initial_inv by blast

end

end
