(* ===== verification/Json.thy ===== *)
theory Json
  imports Prelude
begin

text \<open>
  JSON values and \<open>JSON.parse\<close>, the part of the JavaScript runtime through which every frame enters
  the relay, and property access on parsed objects.

  Numbers are exact rationals: the rounding of a literal to a double, and its overflow to infinity,
  are not modelled. Strings are Latin-1 (see \<open>Prelude\<close>): an escape above code unit 255 lies outside
  the model, and the parser refuses it. Duplicate members of an object follow the runtime: the last
  value wins and keeps the first one's place.

  The parser's recursion goes through the text its sub-parsers leave over, so it carries the guard
  that this rest is shorter; \<open>parser_length\<close> shows that the guard never fails.
\<close>

datatype json =
    JNull
  | JBool bool
  | JNum rat
  | JStr string
  | JArr "json list"
  | JObj "(string \<times> json) list"

section \<open>Lexical elements\<close>

definition json_ws :: "char \<Rightarrow> bool" where
  "json_ws c \<longleftrightarrow> c = CHR '' '' \<or> c = CHR 0x09 \<or> c = CHR 0x0A \<or> c = CHR 0x0D"

definition skip :: "string \<Rightarrow> string" where
  "skip s = dropWhile json_ws s"

definition digit_of :: "char \<Rightarrow> nat option" where
  "digit_of c = (let n = of_char c :: nat in if 48 \<le> n \<and> n \<le> 57 then Some (n - 48) else None)"

definition hex_of :: "char \<Rightarrow> nat option" where
  "hex_of c =
     (let n = of_char c :: nat in
      if 48 \<le> n \<and> n \<le> 57 then Some (n - 48)
      else if 65 \<le> n \<and> n \<le> 70 then Some (n - 55)
      else if 97 \<le> n \<and> n \<le> 102 then Some (n - 87)
      else None)"

text \<open>A run of digits: its value, its length and the rest.\<close>

fun digits :: "nat \<Rightarrow> nat \<Rightarrow> string \<Rightarrow> nat \<times> nat \<times> string" where
  "digits acc k [] = (acc, k, [])"
| "digits acc k (c # s) =
     (case digit_of c of None \<Rightarrow> (acc, k, c # s) | Some d \<Rightarrow> digits (10 * acc + d) (Suc k) s)"

definition hex4 :: "char \<Rightarrow> char \<Rightarrow> char \<Rightarrow> char \<Rightarrow> nat option" where
  "hex4 a b c d =
     (case (hex_of a, hex_of b, hex_of c, hex_of d) of
        (Some w, Some x, Some y, Some z) \<Rightarrow> Some (((w * 16 + x) * 16 + y) * 16 + z)
      | _ \<Rightarrow> None)"

definition unescape :: "char \<Rightarrow> char option" where
  "unescape e =
     (if e = CHR 0x22 \<or> e = CHR 0x5C \<or> e = CHR ''/'' then Some e
      else if e = CHR ''b'' then Some (CHR 0x08)
      else if e = CHR ''f'' then Some (CHR 0x0C)
      else if e = CHR ''n'' then Some (CHR 0x0A)
      else if e = CHR ''r'' then Some (CHR 0x0D)
      else if e = CHR ''t'' then Some (CHR 0x09)
      else None)"

text \<open>The characters of a string literal after its opening quote.\<close>

fun pstring :: "string \<Rightarrow> (string \<times> string) option" where
  "pstring [] = None"
| "pstring (c # r) =
     (if c = CHR 0x22 then Some ([], r)
      else if (of_char c :: nat) < 32 then None
      else if c = CHR 0x5C then
        (case r of
           [] \<Rightarrow> None
         | e # q \<Rightarrow>
             if e = CHR ''u'' then
               (case q of
                  h1 # h2 # h3 # h4 # q' \<Rightarrow>
                    (case hex4 h1 h2 h3 h4 of
                       None \<Rightarrow> None
                     | Some n \<Rightarrow>
                         if n < 256 then map_option (apfst (Cons (char_of n))) (pstring q') else None)
                | _ \<Rightarrow> None)
             else
               (case unescape e of
                  None \<Rightarrow> None
                | Some x \<Rightarrow> map_option (apfst (Cons x)) (pstring q)))
      else map_option (apfst (Cons c)) (pstring r))"

text \<open>A number literal: sign, integer part without leading zeros, fraction, exponent.\<close>

definition pexponent :: "string \<Rightarrow> (int \<times> string) option" where
  "pexponent s =
     (let (neg, r) = (case s of
                        c # r \<Rightarrow> if c = CHR ''-'' then (True, r) else if c = CHR ''+'' then (False, r) else (False, s)
                      | [] \<Rightarrow> (False, s));
          (e, k, r') = digits 0 0 r
      in if k = 0 then None else Some (if neg then - int e else int e, r'))"

definition ten_power :: "int \<Rightarrow> rat" where
  "ten_power e = (if 0 \<le> e then 10 ^ nat e else 1 / 10 ^ nat (- e))"

definition pnumber :: "string \<Rightarrow> (rat \<times> string) option" where
  "pnumber s =
     (let (neg, r) = (case s of c # r \<Rightarrow> if c = CHR ''-'' then (True, r) else (False, s) | [] \<Rightarrow> (False, s));
          (m, k, r1) = digits 0 0 r
      in if k = 0 \<or> (1 < k \<and> hd r = CHR ''0'') then None
         else
           let (m2, k2, r2, ok) =
                 (case r1 of
                    c # q \<Rightarrow> if c = CHR ''.'' then (let (f, j, q') = digits m 0 q in (f, j, q', 0 < j))
                             else (m, 0, r1, True)
                  | [] \<Rightarrow> (m, 0, r1, True))
           in if \<not> ok then None
              else
                (case (case r2 of c # q \<Rightarrow> if c = CHR ''e'' \<or> c = CHR ''E'' then pexponent q else Some (0, r2)
                       | [] \<Rightarrow> Some (0, r2)) of
                   None \<Rightarrow> None
                 | Some (e, r3) \<Rightarrow>
                     Some ((if neg then -1 else 1) * of_nat m2 * ten_power (e - int k2), r3)))"

section \<open>Values\<close>

definition literal :: "string \<Rightarrow> json \<Rightarrow> string \<Rightarrow> (json \<times> string) option" where
  "literal w v s = (if startsWith s w then Some (v, drop (length w) s) else None)"

lemma map_apfst_Some [simp]:
  "map_option (apfst f) m = Some (x, r) \<longleftrightarrow> (\<exists>y. m = Some (y, r) \<and> x = f y)"
  by (cases m) auto

lemma skip_length: "length (skip s) \<le> length s"
  by (simp add: skip_def length_dropWhile_le)

lemma skip_less [simp]: "length s < n \<Longrightarrow> length (skip s) < n"
  using skip_length [of s] by linarith

lemma skip_double:
  "length s < n \<Longrightarrow> Suc (2 * length (skip s)) \<le> 2 * n"
  "length s \<le> n \<Longrightarrow> 2 * length (skip s) \<le> Suc (2 * n)"
  using skip_length [of s] by linarith+

lemma pstring_length: "pstring s = Some (x, r) \<Longrightarrow> length r < length s"
  by (induction s arbitrary: x r rule: pstring.induct)
     (fastforce split: if_splits list.splits option.splits)+

function (sequential) pvalue :: "string \<Rightarrow> (json \<times> string) option"
  and pitems :: "json list \<Rightarrow> string \<Rightarrow> (json \<times> string) option"
  and pmembers :: "(string \<times> json) list \<Rightarrow> string \<Rightarrow> (json \<times> string) option" where
  "pvalue [] = None"
| "pvalue (c # r) =
     (if c = CHR 0x22 then map_option (apfst JStr) (pstring r)
      else if c = CHR 0x7B then
        (if skip r \<noteq> [] \<and> hd (skip r) = CHR 0x7D then Some (JObj [], tl (skip r))
         else pmembers [] (skip r))
      else if c = CHR 0x5B then
        (if skip r \<noteq> [] \<and> hd (skip r) = CHR 0x5D then Some (JArr [], tl (skip r))
         else pitems [] (skip r))
      else if c = CHR ''t'' then literal ''true'' (JBool True) (c # r)
      else if c = CHR ''f'' then literal ''false'' (JBool False) (c # r)
      else if c = CHR ''n'' then literal ''null'' JNull (c # r)
      else map_option (apfst JNum) (pnumber (c # r)))"
| "pitems acc s =
     (case pvalue s of
        None \<Rightarrow> None
      | Some (v, r) \<Rightarrow>
          (case skip r of
             [] \<Rightarrow> None
           | c # q \<Rightarrow>
               if c = CHR '','' then (if length q < length s then pitems (acc @ [v]) (skip q) else None)
               else if c = CHR 0x5D then Some (JArr (acc @ [v]), q)
               else None))"
| "pmembers acc [] = None"
| "pmembers acc (c # r) =
     (if c \<noteq> CHR 0x22 then None
      else
        (case pstring r of
           None \<Rightarrow> None
         | Some (k, r1) \<Rightarrow>
             if skip r1 = [] \<or> hd (skip r1) \<noteq> CHR '':'' then None
             else
               (case pvalue (skip (tl (skip r1))) of
                  None \<Rightarrow> None
                | Some (v, r2) \<Rightarrow>
                    (case skip r2 of
                       [] \<Rightarrow> None
                     | d # q \<Rightarrow>
                         if d = CHR '','' then
                           (if length q < length (c # r) then pmembers (jm_set k v acc) (skip q) else None)
                         else if d = CHR 0x7D then Some (JObj (jm_set k v acc), q)
                         else None))))"
  by pat_completeness auto
termination
proof (relation "measure (\<lambda>x. case x of Inl s \<Rightarrow> 2 * length s
        | Inr (Inl (acc, s)) \<Rightarrow> 2 * length s + 1 | Inr (Inr (acc, s)) \<Rightarrow> 2 * length s + 1)", goal_cases)
  case (6 acc c r p k r1)
  then have "length r1 < length r" using pstring_length by fastforce
  then have "length (skip (tl (skip r1))) < length r"
    using skip_length [of r1] skip_length [of "tl (skip r1)"] by simp
  then show ?case by simp
qed (auto simp: less_Suc_eq_le skip_length skip_double)

declare pitems.simps [simp del]

text \<open>Every sub-parser leaves a text that is no longer than the one it was given, so the two length
  guards above always hold.\<close>

lemma digits_length: "digits acc k s = (a, j, r) \<Longrightarrow> length r \<le> length s"
  by (induction acc k s rule: digits.induct) (auto split: option.splits)

lemma pexponent_length: "pexponent s = Some (e, r) \<Longrightarrow> length r \<le> length s"
  by (auto simp: pexponent_def simp del: digits.simps dest!: digits_length split: if_splits list.splits prod.splits)

lemma pnumber_length: "pnumber s = Some (q, r) \<Longrightarrow> length r \<le> length s"
  by (auto simp: pnumber_def Let_def simp del: digits.simps dest!: digits_length pexponent_length
      split: if_splits list.splits prod.splits option.splits)

lemma literal_length: "literal w v s = Some (x, r) \<Longrightarrow> length r \<le> length s"
  by (auto simp: literal_def split: if_splits)

lemma skip_Cons_length: "skip s = c # q \<Longrightarrow> length q < length s"
  using skip_length [of s] by simp

lemma parser_length:
  "pvalue s = Some (v, r) \<Longrightarrow> length r \<le> length s"
  "pitems acc s = Some (v, r) \<Longrightarrow> length r \<le> length s"
  "pmembers mem s = Some (v, r) \<Longrightarrow> length r \<le> length s"
proof (induction s and acc s and mem s arbitrary: v r and v r and v r
    rule: pvalue_pitems_pmembers.induct)
  case (2 c q)
  have tl: "length (tl (skip q)) \<le> Suc (length q)" using skip_length [of q] by simp
  have sk: "length t \<le> Suc (length q)" if "length t \<le> length (skip q)" for t :: string
    using that skip_length [of q] by simp
  show ?case using "2.prems" "2.IH" tl
    by (auto split: if_splits dest!: pstring_length pnumber_length literal_length intro: sk)
next
  case (3 acc s)
  show ?case
  proof (cases "pvalue s")
    case (Some p)
    obtain w t where p: "p = (w, t)" by force
    have "length t \<le> length s" using "3.IH"(1) Some p by simp
    moreover have "length r \<le> length s" if "skip t = CHR '','' # q" for q
    proof -
      have "length q < length s" using skip_Cons_length [OF that] \<open>length t \<le> length s\<close> by simp
      moreover have "length r \<le> length (skip q)"
        using "3.IH"(2) [OF Some p [symmetric] that refl] "3.prems" that calculation
        by (auto simp: pitems.simps [of acc s] Some p)
      ultimately show ?thesis using skip_length [of q] by simp
    qed
    ultimately show ?thesis using "3.prems"
      by (auto simp: pitems.simps [of acc s] Some p dest!: skip_Cons_length
          split: list.splits if_splits)
  qed (use "3.prems" in \<open>simp add: pitems.simps\<close>)
next
  case (5 mem c q)
  from "5.prems" obtain k r1 w t d u where
    k: "c = CHR 0x22" "pstring q = Some (k, r1)" "\<not> (skip r1 = [] \<or> hd (skip r1) \<noteq> CHR '':'')"
      "pvalue (skip (tl (skip r1))) = Some (w, t)" "skip t = d # u"
    by (auto split: if_splits option.splits list.splits)
  have "length t \<le> length (skip (tl (skip r1)))" using "5.IH"(1) k by auto
  moreover have "length (skip (tl (skip r1))) \<le> length q"
    using pstring_length [OF k(2)] skip_length [of r1] skip_length [of "tl (skip r1)"] by simp
  ultimately have u: "length u \<le> length q" using skip_Cons_length [OF k(5)] by simp
  show ?case
  proof (cases "d = CHR '',''")
    case True
    then have "length r \<le> length (skip u)" using "5.IH"(2) k u "5.prems" by auto
    then show ?thesis using skip_length [of u] u by simp
  next
    case False
    then show ?thesis using "5.prems" k u by (auto split: if_splits)
  qed
qed auto

definition JSON_parse :: "string \<Rightarrow> json option" where
  "JSON_parse s =
     (case pvalue (skip s) of
        None \<Rightarrow> None
      | Some (v, r) \<Rightarrow> if skip r = [] then Some v else None)"

section \<open>Property access and dynamic type tests\<close>

text \<open>A parsed object; \<open>None\<close> is \<open>undefined\<close>, the value of an absent property.\<close>

type_synonym obj = "(string \<times> json) list"

definition field :: "obj \<Rightarrow> string \<Rightarrow> json option" where
  "field ob k = map_of ob k"

text \<open>\<open>typeof v === 'string' ? v : undefined\<close>.\<close>

definition as_str :: "json option \<Rightarrow> string option" where
  "as_str v = (case v of Some (JStr s) \<Rightarrow> Some s | _ \<Rightarrow> None)"

definition is_str :: "json option \<Rightarrow> bool" where
  "is_str v \<longleftrightarrow> as_str v \<noteq> None"

text \<open>\<open>typeof v === 'string' && v.trim().length > 0\<close>.\<close>

definition is_nonblank :: "json option \<Rightarrow> bool" where
  "is_nonblank v \<longleftrightarrow> (case as_str v of Some s \<Rightarrow> trim s \<noteq> [] | None \<Rightarrow> False)"

definition is_num :: "json option \<Rightarrow> bool" where
  "is_num v \<longleftrightarrow> (case v of Some (JNum _) \<Rightarrow> True | _ \<Rightarrow> False)"

text \<open>\<open>typeof v === 'number' && Number.isInteger(v)\<close>, with its value.\<close>

definition as_int :: "json option \<Rightarrow> int option" where
  "as_int v = (case v of Some (JNum q) \<Rightarrow> if snd (quotient_of q) = 1 then Some (fst (quotient_of q)) else None
               | _ \<Rightarrow> None)"

definition is_int_from :: "int \<Rightarrow> json option \<Rightarrow> bool" where
  "is_int_from lo v \<longleftrightarrow> (case as_int v of Some i \<Rightarrow> lo \<le> i | None \<Rightarrow> False)"

text \<open>\<open>v === 'literal'\<close>.\<close>

definition eq_str :: "json option \<Rightarrow> string \<Rightarrow> bool" where
  "eq_str v s \<longleftrightarrow> v = Some (JStr s)"

end
