(* ===== verification/Relay_Registry.thy ===== *)
theory Relay_Registry
  imports Json
begin

text \<open>
  The relay's connection registry (services/relay/src/registry.ts and types.ts), the scope keys and
  status payloads (relay-status-payloads.ts), and the three owner tables that relay-routing.ts keeps
  in each workspace state: pairing requests, key-exchange requests and session owners.

  A socket is its identity, a natural number. The registry is the insertion-ordered map from scope
  key to workspace state; \<open>Date.now()\<close> is the argument \<open>now\<close>. The source writes the three owner
  tables' prune and track functions out three times; the locale \<open>owner_table\<close> holds what they
  share, and each table interprets it.
\<close>

type_synonym ws = nat

section \<open>Workspace state\<close>

record owner =
  clientWs :: "ws option"
  sourceRelayId :: "string option"
  createdAt :: int

record client_meta =
  clientId :: string
  connectedAt :: int

type_synonym owner_map = "(string, owner) js_map"

record workspace_state =
  workspaceId :: string
  runtimeTargetId :: "string option"
  daemon :: "ws option"
  daemonIssueGeneration :: "int option"
  clients :: "(ws, client_meta) js_map"
  sessionEventSubscribers :: "(string, ws list) js_map"
  keyExchangeRequests :: owner_map
  sessionOwners :: owner_map
  pairingRequests :: owner_map
  lastActivityAt :: int

type_synonym registry = "(string, workspace_state) js_map"

text \<open>\<open>Set.add\<close> and \<open>Set.delete\<close> on an insertion-ordered set.\<close>

definition set_add :: "'a \<Rightarrow> 'a list \<Rightarrow> 'a list" where
  "set_add x xs = (if x \<in> set xs then xs else xs @ [x])"

definition set_delete :: "'a \<Rightarrow> 'a list \<Rightarrow> 'a list" where
  "set_delete x xs = filter (\<lambda>y. y \<noteq> x) xs"

section \<open>Registry operations\<close>

record metadata =
  md_workspaceId :: "string option"
  md_runtimeTargetId :: "string option"

definition new_state :: "string \<Rightarrow> metadata option \<Rightarrow> int \<Rightarrow> workspace_state" where
  "new_state key md now =
     \<lparr>workspaceId = (case Option.bind md md_workspaceId of Some w \<Rightarrow> w | None \<Rightarrow> key),
      runtimeTargetId = Option.bind md md_runtimeTargetId,
      daemon = None,
      daemonIssueGeneration = None,
      clients = [],
      sessionEventSubscribers = [],
      keyExchangeRequests = [],
      sessionOwners = [],
      pairingRequests = [],
      lastActivityAt = now\<rparr>"

definition getOrCreate :: "string \<Rightarrow> metadata option \<Rightarrow> int \<Rightarrow> registry \<Rightarrow> workspace_state \<times> registry" where
  "getOrCreate key md now reg =
     (case jm_get reg key of
        None \<Rightarrow> let state = new_state key md now in (state, jm_set key state reg)
      | Some state \<Rightarrow>
          (case md of
             Some m \<Rightarrow>
               if truthy (md_workspaceId m)
               then let state' = state\<lparr>workspaceId := the (md_workspaceId m),
                                       runtimeTargetId := md_runtimeTargetId m\<rparr>
                    in (state', jm_set key state' reg)
               else (state, reg)
           | None \<Rightarrow> (state, reg)))"

text \<open>Mutation of the state object stored under a key.\<close>

definition reg_update :: "string \<Rightarrow> (workspace_state \<Rightarrow> workspace_state) \<Rightarrow> registry \<Rightarrow> registry" where
  "reg_update key f reg = (case jm_get reg key of None \<Rightarrow> reg | Some st \<Rightarrow> jm_set key (f st) reg)"

definition reg_touch :: "string \<Rightarrow> int \<Rightarrow> registry \<Rightarrow> registry" where
  "reg_touch key now reg = reg_update key (\<lambda>st. st\<lparr>lastActivityAt := now\<rparr>) reg"

definition totalConnectionCount :: "registry \<Rightarrow> nat" where
  "totalConnectionCount reg =
     sum_list (map (\<lambda>(_, st). (if daemon st \<noteq> None then 1 else 0) + jm_size (clients st)) reg)"

definition prunable :: "int \<Rightarrow> int \<Rightarrow> workspace_state \<Rightarrow> bool" where
  "prunable ttlMs now st \<longleftrightarrow>
     \<not> (daemon st \<noteq> None \<or> jm_size (clients st) > 0) \<and> \<not> now - lastActivityAt st < ttlMs"

definition pruneEmpty :: "int \<Rightarrow> int \<Rightarrow> registry \<Rightarrow> string list \<times> registry" where
  "pruneEmpty ttlMs now reg =
     (map fst (filter (\<lambda>(_, st). prunable ttlMs now st) reg),
      jm_filter (\<lambda>_ st. \<not> prunable ttlMs now st) reg)"

text \<open>The loops of \<open>removeClient\<close>: drop the owners that are this socket, and the socket from every
  subscriber set, a set that becomes empty going with it.\<close>

definition drop_owner :: "ws \<Rightarrow> owner_map \<Rightarrow> owner_map" where
  "drop_owner s m = jm_filter (\<lambda>_ ow. clientWs ow \<noteq> Some s) m"

definition drop_subscriber :: "ws \<Rightarrow> (string, ws list) js_map \<Rightarrow> (string, ws list) js_map" where
  "drop_subscriber s m = jm_filter (\<lambda>_ subs. subs \<noteq> []) (map (\<lambda>(c, subs). (c, set_delete s subs)) m)"

definition removeClient :: "string \<Rightarrow> ws \<Rightarrow> int \<Rightarrow> registry \<Rightarrow> registry" where
  "removeClient key s now reg =
     reg_update key
       (\<lambda>st. st\<lparr>clients := jm_delete s (clients st),
                pairingRequests := drop_owner s (pairingRequests st),
                keyExchangeRequests := drop_owner s (keyExchangeRequests st),
                sessionOwners := drop_owner s (sessionOwners st),
                sessionEventSubscribers := drop_subscriber s (sessionEventSubscribers st),
                lastActivityAt := now\<rparr>) reg"

definition clearDaemon :: "string \<Rightarrow> ws \<Rightarrow> int \<Rightarrow> registry \<Rightarrow> bool \<times> registry" where
  "clearDaemon key s now reg =
     (case jm_get reg key of
        None \<Rightarrow> (False, reg)
      | Some st \<Rightarrow>
          if daemon st = Some s
          then (True, jm_set key (st\<lparr>daemon := None, keyExchangeRequests := [], sessionOwners := [],
                                     pairingRequests := [], lastActivityAt := now\<rparr>) reg)
          else (False, jm_set key (st\<lparr>lastActivityAt := now\<rparr>) reg))"

section \<open>Scope keys and status payloads\<close>

definition runtimeScopeKey :: "string \<Rightarrow> string option \<Rightarrow> string" where
  "runtimeScopeKey wid target = (if truthy target then wid @ '':'' @ the target else wid)"

definition opt_field :: "string \<Rightarrow> string option \<Rightarrow> obj" where
  "opt_field k v = (case v of None \<Rightarrow> [] | Some s \<Rightarrow> [(k, JStr s)])"

definition relayStatusPayload :: "string \<Rightarrow> string option \<Rightarrow> string option \<Rightarrow> json" where
  "relayStatusPayload wid target machine =
     JObj ([(''type'', JStr ''relay_status''), (''code'', JStr ''DAEMON_UNAVAILABLE''),
            (''message'', JStr ''No machine runtime is connected for this runtime target''),
            (''workspaceId'', JStr wid), (''retryable'', JBool True)]
           @ (if truthy target then opt_field ''runtimeTargetId'' target else [])
           @ (if truthy machine then opt_field ''machineId'' machine else []))"

definition missingRuntimeTargetPayload :: "string \<Rightarrow> json" where
  "missingRuntimeTargetPayload wid =
     JObj [(''type'', JStr ''relay_status''), (''code'', JStr ''RUNTIME_TARGET_REQUIRED''),
           (''message'', JStr ''Runtime client must specify a runtime target''),
           (''workspaceId'', JStr wid), (''retryable'', JBool False)]"

definition relayRedirectPayload :: "string \<Rightarrow> string \<Rightarrow> string option \<Rightarrow> json" where
  "relayRedirectPayload wid url target =
     JObj ([(''type'', JStr ''relay_status''), (''code'', JStr ''RELAY_REDIRECT''),
            (''message'', JStr ''Workspace is assigned to a different relay instance''),
            (''workspaceId'', JStr wid)]
           @ opt_field ''runtimeTargetId'' target
           @ [(''relayWsBaseUrl'', JStr url)])"

section \<open>Owner tables\<close>

definition PAIRING_REQUEST_TTL_MS :: int where
  "PAIRING_REQUEST_TTL_MS = 2 * 60000"

definition KEY_EXCHANGE_REQUEST_TTL_MS :: int where
  "KEY_EXCHANGE_REQUEST_TTL_MS = 2 * 60000"

definition SESSION_OWNER_TTL_MS :: int where
  "SESSION_OWNER_TTL_MS = 30 * 60000"

definition pruneStalePairingRequests :: "int \<Rightarrow> workspace_state \<Rightarrow> workspace_state" where
  "pruneStalePairingRequests now st =
     st\<lparr>pairingRequests :=
          jm_filter (\<lambda>_ ow. \<not> now - createdAt ow > PAIRING_REQUEST_TTL_MS) (pairingRequests st)\<rparr>"

definition trackPairingRequest :: "workspace_state \<Rightarrow> string \<Rightarrow> owner \<Rightarrow> nat \<Rightarrow> workspace_state" where
  "trackPairingRequest st requestId ow maxTracked =
     st\<lparr>pairingRequests := jm_set requestId ow (evict_ge maxTracked (pairingRequests st))\<rparr>"

definition pruneStaleKeyExchangeRequests :: "int \<Rightarrow> workspace_state \<Rightarrow> workspace_state" where
  "pruneStaleKeyExchangeRequests now st =
     st\<lparr>keyExchangeRequests :=
          jm_filter (\<lambda>_ ow. \<not> now - createdAt ow > KEY_EXCHANGE_REQUEST_TTL_MS) (keyExchangeRequests st)\<rparr>"

definition trackKeyExchangeRequest :: "workspace_state \<Rightarrow> string \<Rightarrow> owner \<Rightarrow> nat \<Rightarrow> workspace_state" where
  "trackKeyExchangeRequest st requestId ow maxTracked =
     st\<lparr>keyExchangeRequests := jm_set requestId ow (evict_ge maxTracked (keyExchangeRequests st))\<rparr>"

definition trackSessionOwner :: "workspace_state \<Rightarrow> string \<Rightarrow> owner \<Rightarrow> nat \<Rightarrow> workspace_state" where
  "trackSessionOwner st sessionId ow maxTracked =
     st\<lparr>sessionOwners := jm_set sessionId ow (evict_ge maxTracked (sessionOwners st))\<rparr>"

definition pruneStaleSessionOwners :: "int \<Rightarrow> workspace_state \<Rightarrow> workspace_state" where
  "pruneStaleSessionOwners now st =
     st\<lparr>sessionOwners :=
          jm_filter (\<lambda>_ ow. \<not> now - createdAt ow > SESSION_OWNER_TTL_MS) (sessionOwners st)\<rparr>"

text \<open>
  The contract of a table: \<open>prune\<close> keeps exactly the entries that are not older than \<open>ttl\<close>, and
  \<open>track\<close> stores an entry after evicting the oldest ones. Its clients never look inside.
\<close>

locale owner_table =
  fixes tbl :: "workspace_state \<Rightarrow> owner_map"
    and prune :: "int \<Rightarrow> workspace_state \<Rightarrow> workspace_state"
    and track :: "workspace_state \<Rightarrow> string \<Rightarrow> owner \<Rightarrow> nat \<Rightarrow> workspace_state"
    and ttl :: int
  assumes tbl_prune: "tbl (prune now st) = jm_filter (\<lambda>_ ow. \<not> now - createdAt ow > ttl) (tbl st)"
    and tbl_track: "tbl (track st k ow mx) = jm_set k ow (evict_ge mx (tbl st))"
    and prune_frame: "clients (prune now st) = clients st" "daemon (prune now st) = daemon st"
    and track_frame: "clients (track st k ow mx) = clients st" "daemon (track st k ow mx) = daemon st"
begin

lemma track_get: "jm_get (tbl (track st k ow mx)) k = Some ow"
  by (simp add: tbl_track)

lemma track_wf: "jm_wf (tbl st) \<Longrightarrow> jm_wf (tbl (track st k ow mx))"
  by (simp add: tbl_track)

lemma prune_wf: "jm_wf (tbl st) \<Longrightarrow> jm_wf (tbl (prune now st))"
  by (simp add: tbl_prune)

lemma track_bound: "0 < mx \<Longrightarrow> jm_size (tbl (track st k ow mx)) \<le> mx"
  using evict_ge_size [of mx "tbl st"] by (simp add: tbl_track jm_size_set)

lemma prune_bound: "jm_size (tbl (prune now st)) \<le> jm_size (tbl st)"
  by (simp add: tbl_prune jm_filter_def)

lemma prune_fresh: "jm_get (tbl (prune now st)) k = Some ow \<Longrightarrow> now - createdAt ow \<le> ttl"
  by (auto simp: tbl_prune dest!: jm_get_mem)

lemma prune_get:
  "jm_wf (tbl st) \<Longrightarrow>
   jm_get (tbl (prune now st)) k =
     (case jm_get (tbl st) k of
        Some ow \<Rightarrow> if now - createdAt ow > ttl then None else Some ow | None \<Rightarrow> None)"
  by (simp add: tbl_prune jm_get_filter split: option.splits)

lemma track_set: "set (tbl (track st k ow mx)) \<subseteq> insert (k, ow) (set (tbl st))"
  using set_jm_set [of k ow "evict_ge mx (tbl st)"] evict_ge_subset [of mx "tbl st"]
  by (auto simp: tbl_track)

lemma prune_set: "set (tbl (prune now st)) \<subseteq> set (tbl st)"
  by (auto simp: tbl_prune)

end

interpretation pairing: owner_table pairingRequests pruneStalePairingRequests trackPairingRequest
    PAIRING_REQUEST_TTL_MS
  by unfold_locales (simp_all add: pruneStalePairingRequests_def trackPairingRequest_def)

interpretation kex: owner_table keyExchangeRequests pruneStaleKeyExchangeRequests trackKeyExchangeRequest
    KEY_EXCHANGE_REQUEST_TTL_MS
  by unfold_locales (simp_all add: pruneStaleKeyExchangeRequests_def trackKeyExchangeRequest_def)

interpretation session: owner_table sessionOwners pruneStaleSessionOwners trackSessionOwner
    SESSION_OWNER_TTL_MS
  by unfold_locales (simp_all add: pruneStaleSessionOwners_def trackSessionOwner_def)

section \<open>The references of a state to sockets\<close>

text \<open>The client sockets an owner table or the subscriber map of a state mentions.\<close>

definition owner_sockets :: "owner_map \<Rightarrow> ws set" where
  "owner_sockets m = {s. \<exists>k ow. (k, ow) \<in> set m \<and> clientWs ow = Some s}"

definition subscriber_sockets :: "(string, ws list) js_map \<Rightarrow> ws set" where
  "subscriber_sockets m = {s. \<exists>c subs. (c, subs) \<in> set m \<and> s \<in> set subs}"

definition referenced_sockets :: "workspace_state \<Rightarrow> ws set" where
  "referenced_sockets st =
     owner_sockets (pairingRequests st) \<union> owner_sockets (keyExchangeRequests st) \<union>
     owner_sockets (sessionOwners st) \<union> subscriber_sockets (sessionEventSubscribers st)"

definition client_sockets :: "workspace_state \<Rightarrow> ws set" where
  "client_sockets st = set (jm_keys (clients st))"

text \<open>The state invariant: every map has distinct keys, and every reference to a socket is to a
  client that is connected in this very state.\<close>

definition state_wf :: "workspace_state \<Rightarrow> bool" where
  "state_wf st \<longleftrightarrow>
     jm_wf (clients st) \<and> jm_wf (sessionEventSubscribers st) \<and> jm_wf (keyExchangeRequests st) \<and>
     jm_wf (sessionOwners st) \<and> jm_wf (pairingRequests st) \<and>
     referenced_sockets st \<subseteq> client_sockets st"

lemma owner_sockets_mono: "set m \<subseteq> set n \<Longrightarrow> owner_sockets m \<subseteq> owner_sockets n"
  by (auto simp: owner_sockets_def)

lemma owner_sockets_filter: "owner_sockets (jm_filter P m) \<subseteq> owner_sockets m"
  by (rule owner_sockets_mono) auto

lemma owner_sockets_Nil [simp]: "owner_sockets [] = {}" "subscriber_sockets [] = {}"
  by (simp_all add: owner_sockets_def subscriber_sockets_def)

lemma owner_sockets_insert:
  "set m \<subseteq> insert (k, ow) (set n) \<Longrightarrow> owner_sockets m \<subseteq> owner_sockets n \<union> set_option (clientWs ow)"
  by (fastforce simp: owner_sockets_def)

lemma owner_sockets_drop: "owner_sockets (drop_owner s m) \<subseteq> owner_sockets m - {s}"
  by (auto simp: owner_sockets_def drop_owner_def)

lemma subscriber_sockets_drop: "subscriber_sockets (drop_subscriber s m) \<subseteq> subscriber_sockets m - {s}"
  by (fastforce simp: subscriber_sockets_def drop_subscriber_def set_delete_def)

lemma drop_subscriber_wf: "jm_wf m \<Longrightarrow> jm_wf (drop_subscriber s m)"
  unfolding drop_subscriber_def
  by (rule jm_wf_filter) (simp add: jm_wf_def jm_keys_def case_prod_beta comp_def)

lemma client_sockets_delete: "clients st' = jm_delete s (clients st) \<Longrightarrow> client_sockets st' = client_sockets st - {s}"
  by (auto simp: client_sockets_def jm_keys_delete)

lemma reg_update_get:
  "jm_get (reg_update key f reg) k = (if k = key then map_option f (jm_get reg key) else jm_get reg k)"
  by (simp add: reg_update_def split: option.splits)

lemma removeClient_get:
  "jm_get (removeClient key s now reg) key =
     map_option (\<lambda>st. st\<lparr>clients := jm_delete s (clients st),
                pairingRequests := drop_owner s (pairingRequests st),
                keyExchangeRequests := drop_owner s (keyExchangeRequests st),
                sessionOwners := drop_owner s (sessionOwners st),
                sessionEventSubscribers := drop_subscriber s (sessionEventSubscribers st),
                lastActivityAt := now\<rparr>) (jm_get reg key)"
  by (simp add: removeClient_def reg_update_get)

lemma state_wf_removed:
  assumes "state_wf st"
  shows "state_wf (st\<lparr>clients := jm_delete s (clients st),
                pairingRequests := drop_owner s (pairingRequests st),
                keyExchangeRequests := drop_owner s (keyExchangeRequests st),
                sessionOwners := drop_owner s (sessionOwners st),
                sessionEventSubscribers := drop_subscriber s (sessionEventSubscribers st),
                lastActivityAt := now\<rparr>)" (is "state_wf ?st")
proof -
  have "referenced_sockets ?st \<subseteq> referenced_sockets st - {s}"
    using owner_sockets_drop [of s] subscriber_sockets_drop [of s]
    by (simp add: referenced_sockets_def) blast
  moreover have "client_sockets ?st = client_sockets st - {s}"
    by (rule client_sockets_delete) simp
  ultimately show ?thesis using assms
    by (auto simp: state_wf_def drop_subscriber_wf drop_owner_def)
qed

lemma state_wf_new [simp]: "state_wf (new_state key md now)"
  by (simp add: state_wf_def new_state_def referenced_sockets_def)

text \<open>The invariant is insensitive to the fields no table or socket lives in.\<close>

lemma state_wf_frame [simp]:
  "state_wf (st\<lparr>lastActivityAt := t\<rparr>) = state_wf st"
  "state_wf (st\<lparr>workspaceId := w\<rparr>) = state_wf st"
  "state_wf (st\<lparr>runtimeTargetId := r\<rparr>) = state_wf st"
  "state_wf (st\<lparr>daemon := d\<rparr>) = state_wf st"
  "state_wf (st\<lparr>daemonIssueGeneration := g\<rparr>) = state_wf st"
  by (simp_all add: state_wf_def referenced_sockets_def client_sockets_def)

lemma state_wf_prune [simp]:
  assumes "state_wf st"
  shows "state_wf (pruneStalePairingRequests now st)" "state_wf (pruneStaleKeyExchangeRequests now st)"
    "state_wf (pruneStaleSessionOwners now st)"
  using assms
  by (auto simp: state_wf_def referenced_sockets_def client_sockets_def pruneStalePairingRequests_def
      pruneStaleKeyExchangeRequests_def pruneStaleSessionOwners_def dest!: subsetD [OF owner_sockets_filter])

lemma evict_set_sockets:
  "owner_sockets (jm_set k ow (evict_ge mx m)) \<subseteq> owner_sockets m \<union> set_option (clientWs ow)"
proof (rule owner_sockets_insert)
  show "set (jm_set k ow (evict_ge mx m)) \<subseteq> insert (k, ow) (set m)"
    using set_jm_set [of k ow "evict_ge mx m"] evict_ge_subset [of mx m] by blast
qed

lemma state_wf_track:
  assumes "state_wf st" and "set_option (clientWs ow) \<subseteq> client_sockets st"
  shows "state_wf (trackPairingRequest st k ow mx)" "state_wf (trackKeyExchangeRequest st k ow mx)"
    "state_wf (trackSessionOwner st k ow mx)"
  using assms evict_set_sockets [of k ow mx "pairingRequests st"]
    evict_set_sockets [of k ow mx "keyExchangeRequests st"] evict_set_sockets [of k ow mx "sessionOwners st"]
  by (auto simp: state_wf_def referenced_sockets_def client_sockets_def trackPairingRequest_def
      trackKeyExchangeRequest_def trackSessionOwner_def)

lemma state_wf_clear [simp]:
  "state_wf st \<Longrightarrow> state_wf (st\<lparr>keyExchangeRequests := []\<rparr>)"
  "state_wf st \<Longrightarrow> state_wf (st\<lparr>sessionOwners := []\<rparr>)"
  "state_wf st \<Longrightarrow> state_wf (st\<lparr>pairingRequests := []\<rparr>)"
  by (auto simp: state_wf_def referenced_sockets_def client_sockets_def)

section \<open>Properties\<close>

text \<open>Closing a client connection leaves no trace of its socket. After \<open>removeClient\<close> the state of
  that scope mentions the socket neither among its clients nor in any owner table nor among the
  subscribers of any channel, so nothing can be routed to a socket that has gone; every other scope
  is unchanged.\<close>

theorem removeClient_forgets:
  assumes "jm_get (removeClient key s now reg) k = Some st"
  shows "if k = key then s \<notin> client_sockets st \<and> s \<notin> referenced_sockets st
         else jm_get reg k = Some st"
proof (cases "k = key")
  case True
  with assms obtain st0 where "jm_get reg key = Some st0"
    and st: "st = st0\<lparr>clients := jm_delete s (clients st0),
                pairingRequests := drop_owner s (pairingRequests st0),
                keyExchangeRequests := drop_owner s (keyExchangeRequests st0),
                sessionOwners := drop_owner s (sessionOwners st0),
                sessionEventSubscribers := drop_subscriber s (sessionEventSubscribers st0),
                lastActivityAt := now\<rparr>"
    by (auto simp: removeClient_get)
  have "s \<notin> client_sockets st \<and> s \<notin> referenced_sockets st"
    using owner_sockets_drop [of s] subscriber_sockets_drop [of s]
    by (fastforce simp: st client_sockets_def referenced_sockets_def jm_keys_delete)
  with True show ?thesis by simp
next
  case False
  with assms show ?thesis by (simp add: removeClient_def reg_update_get)
qed

theorem removeClient_forgets_witness:
  "let ow = \<lparr>clientWs = Some 7, sourceRelayId = None, createdAt = 5\<rparr>;
       st = (new_state ''w'' None 0)\<lparr>clients := [(7, \<lparr>clientId = ''c'', connectedAt = 1\<rparr>)],
              sessionOwners := [(''s'', ow)], sessionEventSubscribers := [(''agent-session:1'', [7])]\<rparr>
   in 7 \<in> referenced_sockets st \<and>
      7 \<notin> referenced_sockets (the (jm_get (removeClient ''w'' 7 9 [(''w'', st)]) ''w''))"
proof -
  let ?ow = "\<lparr>clientWs = Some 7, sourceRelayId = None, createdAt = 5\<rparr>"
  let ?st = "(new_state ''w'' None 0)\<lparr>clients := [(7, \<lparr>clientId = ''c'', connectedAt = 1\<rparr>)],
              sessionOwners := [(''s'', ?ow)], sessionEventSubscribers := [(''agent-session:1'', [7])]\<rparr>"
  let ?reg = "[(''w'', ?st)]"
  obtain st where st: "jm_get (removeClient ''w'' 7 9 ?reg) ''w'' = Some st"
    by (simp add: removeClient_get jm_get_Cons)
  have "7 \<in> referenced_sockets ?st"
    by (auto simp: referenced_sockets_def owner_sockets_def)
  then show ?thesis using removeClient_forgets [OF st] by (simp add: st)
qed

text \<open>Scope keys separate tenants whose workspace ids contain no colon. Two (workspace, runtime
  target) pairs with colon-free workspace ids share a registry entry only if they have the same
  workspace and the same (truthy) runtime target.\<close>

theorem runtimeScopeKey_injective:
  assumes "CHR '':'' \<notin> set w" and "CHR '':'' \<notin> set w'"
    and "runtimeScopeKey w t = runtimeScopeKey w' t'"
  shows "w = w' \<and> truthy t = truthy t' \<and> (truthy t \<longrightarrow> t = t')"
proof (cases "truthy t")
  case True
  then obtain u where u: "t = Some u" by (auto simp: truthy_def split: option.splits)
  show ?thesis
  proof (cases "truthy t'")
    case True
    then obtain u' where u': "t' = Some u'" by (auto simp: truthy_def split: option.splits)
    show ?thesis using assms \<open>truthy t\<close> True append_sep_eqD [of w "CHR '':''" u w' u']
      by (auto simp: runtimeScopeKey_def u u')
  next
    case False
    then have "w' = w @ '':'' @ u" using assms(3) \<open>truthy t\<close> by (simp add: runtimeScopeKey_def u)
    with assms(2) show ?thesis by simp
  qed
next
  case False
  show ?thesis
  proof (cases "truthy t'")
    case True
    then have "w = w' @ '':'' @ the t'" using assms(3) False by (simp add: runtimeScopeKey_def)
    with assms(1) show ?thesis by simp
  next
    case f: False
    with False assms(3) show ?thesis by (simp add: runtimeScopeKey_def)
  qed
qed

theorem runtimeScopeKey_injective_witness:
  "runtimeScopeKey ''acme'' (Some []) = runtimeScopeKey ''acme'' None \<and> truthy (Some []) = truthy None"
proof -
  have eq: "runtimeScopeKey ''acme'' (Some []) = runtimeScopeKey ''acme'' None"
    by (simp add: runtimeScopeKey_def truthy_def)
  from runtimeScopeKey_injective [OF _ _ this] eq show ?thesis by simp
qed

text \<open>Without the colon-free condition the separation fails. The upgrade handler admits ids made of
  letters, digits, dot, underscore, colon and dash, and under it workspace \<open>a\<close> with target \<open>b:c\<close> and
  workspace \<open>a:b\<close> with target \<open>c\<close> get one and the same registry entry.\<close>

theorem runtimeScopeKey_collision:
  "runtimeScopeKey ''a'' (Some ''b:c'') = runtimeScopeKey ''a:b'' (Some ''c'') \<and>
   runtimeScopeKey ''a'' (Some ''b'') = runtimeScopeKey ''a:b'' None"
  by (simp add: runtimeScopeKey_def truthy_def)

text \<open>An owner table never exceeds its configured size, and eviction is oldest-first. Tracking a
  request in a table with distinct keys keeps exactly the youngest entries that leave room for one,
  stores the new owner, and finds it again; entries it keeps are unchanged.\<close>

theorem trackKeyExchangeRequest_spec:
  assumes "jm_wf (keyExchangeRequests st)" and "0 < mx"
  shows "keyExchangeRequests (trackKeyExchangeRequest st k ow mx) =
           jm_set k ow (drop (Suc (jm_size (keyExchangeRequests st)) - mx) (keyExchangeRequests st)) \<and>
         jm_size (keyExchangeRequests (trackKeyExchangeRequest st k ow mx)) \<le> mx \<and>
         jm_get (keyExchangeRequests (trackKeyExchangeRequest st k ow mx)) k = Some ow"
  using kex.track_bound [OF assms(2), of st k ow] kex.track_get [of st k ow mx] kex.tbl_track [of st k ow mx]
    evict_ge_eq [OF assms]
  by simp

theorem trackKeyExchangeRequest_spec_witness:
  "let ow = (\<lambda>s. \<lparr>clientWs = Some s, sourceRelayId = None, createdAt = 0\<rparr>);
       st = (new_state ''w'' None 0)\<lparr>keyExchangeRequests := [(''r1'', ow 1), (''r2'', ow 2)]\<rparr>
   in keyExchangeRequests (trackKeyExchangeRequest st ''r3'' (ow 3) 2) = [(''r2'', ow 2), (''r3'', ow 3)]"
proof -
  let ?ow = "\<lambda>s. \<lparr>clientWs = Some s, sourceRelayId = None, createdAt = 0\<rparr>"
  let ?st = "(new_state ''w'' None 0)\<lparr>keyExchangeRequests := [(''r1'', ?ow 1), (''r2'', ?ow 2)]\<rparr>"
  have "jm_wf (keyExchangeRequests ?st)" by (simp add: jm_wf_def jm_keys_def)
  from trackKeyExchangeRequest_spec [OF this, of 2 "''r3''" "?ow 3"] show ?thesis by simp
qed

text \<open>Garbage collection removes exactly the dead scopes. \<open>pruneEmpty\<close> reports and deletes the states
  with no daemon, no client and no activity for the time to live, in registry order, and keeps every
  other state as it is; in particular it never drops a state that still has a connection.\<close>

theorem pruneEmpty_exact:
  assumes "jm_wf reg" and "pruneEmpty ttl now reg = (removed, reg')"
  shows "jm_get reg' k =
           (case jm_get reg k of None \<Rightarrow> None | Some st \<Rightarrow> if prunable ttl now st then None else Some st) \<and>
         (k \<in> set removed \<longleftrightarrow> (\<exists>st. jm_get reg k = Some st \<and> prunable ttl now st)) \<and>
         totalConnectionCount reg' = totalConnectionCount reg"
proof (intro conjI)
  have reg': "reg' = jm_filter (\<lambda>_ st. \<not> prunable ttl now st) reg"
    and removed: "removed = map fst (filter (\<lambda>(_, st). prunable ttl now st) reg)"
    using assms(2) by (auto simp: pruneEmpty_def)
  show "jm_get reg' k =
      (case jm_get reg k of None \<Rightarrow> None | Some st \<Rightarrow> if prunable ttl now st then None else Some st)"
    using jm_get_filter [OF assms(1), of "\<lambda>_ st. \<not> prunable ttl now st" k]
    by (simp add: reg' split: option.splits)
  show "k \<in> set removed \<longleftrightarrow> (\<exists>st. jm_get reg k = Some st \<and> prunable ttl now st)"
    using jm_get_wf [OF assms(1), of k] by (force simp: removed)
  show "totalConnectionCount reg' = totalConnectionCount reg"
    unfolding reg' totalConnectionCount_def
    by (induction reg) (auto simp: jm_filter_def prunable_def)
qed

theorem pruneEmpty_exact_witness:
  "let idle = new_state ''a'' None 0; busy = (new_state ''b'' None 0)\<lparr>daemon := Some 4\<rparr>
   in pruneEmpty 100 500 [(''a'', idle), (''b'', busy)] = ([''a''], [(''b'', busy)]) \<and>
      jm_get [(''b'', busy)] ''b'' = Some busy"
proof -
  let ?idle = "new_state ''a'' None 0" and ?busy = "(new_state ''b'' None 0)\<lparr>daemon := Some 4\<rparr>"
  let ?reg = "[(''a'', ?idle), (''b'', ?busy)]"
  have wf: "jm_wf ?reg" by (simp add: jm_wf_def jm_keys_def)
  have p: "pruneEmpty 100 500 ?reg = ([''a''], [(''b'', ?busy)])"
    by (simp add: pruneEmpty_def prunable_def jm_filter_def new_state_def)
  from pruneEmpty_exact [OF wf p, of "''b''"] p show ?thesis
    by (simp add: jm_get_def prunable_def)
qed

end
