(* ===== verification/Relay_Frames.thy ===== *)
theory Relay_Frames
  imports Json
begin

text \<open>
  Frame validation at the relay's edge (services/relay/src/relay-frame-validation.ts): which JSON
  objects a client, a daemon or a worker may send, one predicate per exported function, in the order
  of the source. A frame is a parsed object; an absent property is \<open>undefined\<close>.
\<close>

datatype e2ee_profile = Noise_ik | Noise_ikpsk2

definition parseFramePayload :: "string \<Rightarrow> obj option" where
  "parseFramePayload text = (case JSON_parse text of Some (JObj ob) \<Rightarrow> Some ob | _ \<Rightarrow> None)"

definition isNonEmptyString :: "json option \<Rightarrow> bool" where
  "isNonEmptyString v \<longleftrightarrow> is_nonblank v"

text \<open>\<open>profile === 'noise-ik' || profile === 'noise-ikpsk2'\<close>.\<close>

definition hasProfile :: "obj \<Rightarrow> bool" where
  "hasProfile fr \<longleftrightarrow> eq_str (field fr ''profile'') ''noise-ik'' \<or> eq_str (field fr ''profile'') ''noise-ikpsk2''"

definition isE2eeEnvelope :: "obj \<Rightarrow> bool" where
  "isE2eeEnvelope fr \<longleftrightarrow>
     eq_str (field fr ''type'') ''e2ee'' \<and>
     field fr ''version'' = Some (JNum 2) \<and>
     hasProfile fr \<and>
     isNonEmptyString (field fr ''sessionId'') \<and>
     is_int_from 1 (field fr ''epoch'') \<and>
     is_int_from 1 (field fr ''seq'') \<and>
     isNonEmptyString (field fr ''iv'') \<and>
     isNonEmptyString (field fr ''tag'') \<and>
     isNonEmptyString (field fr ''ciphertext'')"

definition isClientControlFrame :: "obj \<Rightarrow> bool" where
  "isClientControlFrame fr \<longleftrightarrow>
     (if eq_str (field fr ''type'') ''relay_key_exchange_init'' \<and>
         field fr ''version'' = Some (JNum 3) \<and>
         hasProfile fr \<and>
         is_str (field fr ''requestId'') \<and>
         is_str (field fr ''clientEphemeralPublicKey'') \<and>
         is_str (field fr ''encryptedClientStatic'')
      then \<not> (eq_str (field fr ''profile'') ''noise-ikpsk2'' \<and> \<not> is_nonblank (field fr ''pairingPeerId''))
      else if eq_str (field fr ''type'') ''relay_key_exchange_init'' \<and>
         field fr ''version'' = Some (JNum 2) \<and>
         hasProfile fr \<and>
         is_str (field fr ''requestId'') \<and>
         is_str (field fr ''clientPublicKey'') \<and>
         is_str (field fr ''clientNonce'') \<and>
         is_str (field fr ''clientProof'')
      then \<not> (eq_str (field fr ''profile'') ''noise-ikpsk2'' \<and> \<not> is_nonblank (field fr ''pairingPeerId''))
      else False)"

definition isDaemonControlFrame :: "obj \<Rightarrow> bool" where
  "isDaemonControlFrame fr \<longleftrightarrow>
     (if eq_str (field fr ''type'') ''relay_key_update_required'' \<and>
         is_str (field fr ''sessionId'') \<and>
         is_num (field fr ''nextEpoch'')
      then True
      else if eq_str (field fr ''type'') ''relay_key_exchange_response'' \<and>
         field fr ''version'' = Some (JNum 3) \<and>
         hasProfile fr \<and>
         is_str (field fr ''requestId'') \<and>
         is_str (field fr ''daemonPublicKey'') \<and>
         is_str (field fr ''daemonEphemeralPublicKey'') \<and>
         is_str (field fr ''encryptedMetadata'') \<and>
         is_str (field fr ''sessionId'') \<and>
         is_int_from 1 (field fr ''epoch'') \<and>
         is_str (field fr ''proof'')
      then True
      else
        eq_str (field fr ''type'') ''relay_key_exchange_response'' \<and>
        field fr ''version'' = Some (JNum 2) \<and>
        hasProfile fr \<and>
        is_str (field fr ''requestId'') \<and>
        is_str (field fr ''daemonNonce'') \<and>
        is_str (field fr ''sessionId'') \<and>
        is_num (field fr ''epoch'') \<and>
        is_str (field fr ''proof''))"

definition isPairingOfferRequestFrame :: "obj \<Rightarrow> bool" where
  "isPairingOfferRequestFrame fr \<longleftrightarrow>
     eq_str (field fr ''type'') ''relay_pairing_offer_request'' \<and>
     is_nonblank (field fr ''requestId'') \<and>
     is_nonblank (field fr ''clientChannelPublicKey'') \<and>
     (field fr ''ttlSeconds'' = None \<or>
      (case as_int (field fr ''ttlSeconds'') of Some n \<Rightarrow> 30 \<le> n \<and> n \<le> 3600 | None \<Rightarrow> False))"

definition isPairingRedeemRequestFrame :: "obj \<Rightarrow> bool" where
  "isPairingRedeemRequestFrame fr \<longleftrightarrow>
     eq_str (field fr ''type'') ''relay_pairing_redeem_request'' \<and>
     is_nonblank (field fr ''requestId'') \<and>
     is_nonblank (field fr ''offerId'') \<and>
     is_nonblank (field fr ''encIv'') \<and>
     is_nonblank (field fr ''encTag'') \<and>
     is_nonblank (field fr ''encCiphertext'')"

definition isPairingResponseFrame :: "obj \<Rightarrow> bool" where
  "isPairingResponseFrame fr \<longleftrightarrow>
     (let type = field fr ''type'' in
      if \<not> eq_str type ''relay_pairing_offer_response'' \<and> \<not> eq_str type ''relay_pairing_redeem_response''
      then False
      else if \<not> is_nonblank (field fr ''requestId'') then False
      else
        (case field fr ''ok'' of
           Some (JBool ok) \<Rightarrow>
             if \<not> ok then is_nonblank (field fr ''errorCode'')
             else if eq_str type ''relay_pairing_offer_response'' then
               is_nonblank (field fr ''daemonChannelPublicKey'') \<and>
               is_nonblank (field fr ''encIv'') \<and>
               is_nonblank (field fr ''encTag'') \<and>
               is_nonblank (field fr ''encCiphertext'')
             else True
         | _ \<Rightarrow> False))"

text \<open>\<open>(frame['requestId'] as string).trim()\<close>, reached only where the property is a string.\<close>

definition trimmedField :: "obj \<Rightarrow> string \<Rightarrow> string" where
  "trimmedField fr k = (case as_str (field fr k) of Some s \<Rightarrow> trim s | None \<Rightarrow> [])"

definition extractPairingRequestId :: "obj \<Rightarrow> string option" where
  "extractPairingRequestId fr =
     (if isPairingOfferRequestFrame fr \<or> isPairingRedeemRequestFrame fr
      then Some (trimmedField fr ''requestId'')
      else if isPairingResponseFrame fr then Some (trimmedField fr ''requestId'')
      else None)"

definition isPairingClientFrame :: "obj \<Rightarrow> bool" where
  "isPairingClientFrame fr \<longleftrightarrow> isPairingOfferRequestFrame fr \<or> isPairingRedeemRequestFrame fr"

definition isPairingDaemonFrame :: "obj \<Rightarrow> bool" where
  "isPairingDaemonFrame fr \<longleftrightarrow> isPairingResponseFrame fr"

definition isKeyExchangeInitFrame :: "obj \<Rightarrow> bool" where
  "isKeyExchangeInitFrame fr \<longleftrightarrow>
     isClientControlFrame fr \<and> eq_str (field fr ''type'') ''relay_key_exchange_init''"

definition isKeyExchangeResponseFrame :: "obj \<Rightarrow> bool" where
  "isKeyExchangeResponseFrame fr \<longleftrightarrow>
     isDaemonControlFrame fr \<and> eq_str (field fr ''type'') ''relay_key_exchange_response''"

definition isKeyUpdateRequiredFrame :: "obj \<Rightarrow> bool" where
  "isKeyUpdateRequiredFrame fr \<longleftrightarrow>
     isDaemonControlFrame fr \<and> eq_str (field fr ''type'') ''relay_key_update_required''"

text \<open>\<open>isNonEmptyString(channel) && channel.startsWith('agent-session:')\<close>.\<close>

definition hasSessionChannel :: "obj \<Rightarrow> bool" where
  "hasSessionChannel fr \<longleftrightarrow>
     isNonEmptyString (field fr ''channel'') \<and>
     (case as_str (field fr ''channel'') of Some c \<Rightarrow> startsWith c ''agent-session:'' | None \<Rightarrow> False)"

definition isSessionEventSubscribeFrame :: "obj \<Rightarrow> bool" where
  "isSessionEventSubscribeFrame fr \<longleftrightarrow>
     eq_str (field fr ''type'') ''viewport.session_events.subscribe/v1'' \<and>
     hasSessionChannel fr \<and>
     (field fr ''afterSequence'' = None \<or> is_int_from 0 (field fr ''afterSequence''))"

definition isSessionEventUnsubscribeFrame :: "obj \<Rightarrow> bool" where
  "isSessionEventUnsubscribeFrame fr \<longleftrightarrow>
     eq_str (field fr ''type'') ''viewport.session_events.unsubscribe/v1'' \<and>
     hasSessionChannel fr"

definition isSessionViewerPresenceFrame :: "obj \<Rightarrow> bool" where
  "isSessionViewerPresenceFrame fr \<longleftrightarrow>
     eq_str (field fr ''type'') ''viewport.session_viewer_presence/v1'' \<and>
     hasSessionChannel fr \<and>
     (eq_str (field fr ''action'') ''joined'' \<or> eq_str (field fr ''action'') ''left'' \<or>
      eq_str (field fr ''action'') ''heartbeat'') \<and>
     isNonEmptyString (field fr ''userId'') \<and>
     (case as_str (field fr ''userId'') of Some u \<Rightarrow> length u \<le> 128 | None \<Rightarrow> False) \<and>
     (field fr ''displayName'' = None \<or>
      (case as_str (field fr ''displayName'') of Some d \<Rightarrow> length d \<le> 255 | None \<Rightarrow> False)) \<and>
     (field fr ''sentAt'' = None \<or> is_str (field fr ''sentAt''))"

definition isSessionEventClientFrame :: "obj \<Rightarrow> bool" where
  "isSessionEventClientFrame fr \<longleftrightarrow>
     isSessionEventSubscribeFrame fr \<or> isSessionEventUnsubscribeFrame fr \<or> isSessionViewerPresenceFrame fr"

text \<open>\<open>typeof event === 'object'\<close> also holds of \<open>null\<close>.\<close>

definition isSessionEventRelayFrame :: "obj \<Rightarrow> bool" where
  "isSessionEventRelayFrame fr \<longleftrightarrow>
     eq_str (field fr ''schema'') ''viewport.session_event_relay_frame/v1'' \<and>
     hasSessionChannel fr \<and>
     (case field fr ''event'' of Some (JObj _) \<Rightarrow> True | Some JNull \<Rightarrow> True | _ \<Rightarrow> False)"

definition isAllowedClientFrame :: "string \<Rightarrow> bool" where
  "isAllowedClientFrame text =
     (case parseFramePayload text of
        None \<Rightarrow> False
      | Some fr \<Rightarrow> isE2eeEnvelope fr \<or> isClientControlFrame fr \<or> isPairingClientFrame fr \<or>
                   isSessionEventClientFrame fr)"

definition isAllowedDaemonFrame :: "string \<Rightarrow> bool" where
  "isAllowedDaemonFrame text =
     (case parseFramePayload text of
        None \<Rightarrow> False
      | Some fr \<Rightarrow> isE2eeEnvelope fr \<or> isDaemonControlFrame fr \<or> isPairingDaemonFrame fr \<or>
                   isSessionEventRelayFrame fr)"

definition isAllowedWorkerTransportRequestFrame :: "obj \<Rightarrow> bool" where
  "isAllowedWorkerTransportRequestFrame fr \<longleftrightarrow>
     (if \<not> eq_str (field fr ''type'') ''viewport.worker_transport.request/v1'' \<or>
         \<not> is_nonblank (field fr ''requestId'') \<or>
         (\<not> eq_str (field fr ''method'') ''GET'' \<and> \<not> eq_str (field fr ''method'') ''POST'' \<and>
          \<not> eq_str (field fr ''method'') ''PATCH'') \<or>
         (case as_str (field fr ''path'') of
            Some p \<Rightarrow> \<not> startsWith p ''/api/runtime/workspaces/'' | None \<Rightarrow> True)
      then False
      else if (case field fr ''headers'' of None \<Rightarrow> False | Some (JObj _) \<Rightarrow> False | Some _ \<Rightarrow> True) then False
      else if field fr ''body'' \<noteq> None \<and> \<not> is_str (field fr ''body'') then False
      else True)"

definition extractFrameProfile :: "obj \<Rightarrow> e2ee_profile option" where
  "extractFrameProfile fr =
     (if eq_str (field fr ''profile'') ''noise-ik'' then Some Noise_ik
      else if eq_str (field fr ''profile'') ''noise-ikpsk2'' then Some Noise_ikpsk2
      else None)"

section \<open>Facts about the classes\<close>

text \<open>Every class but the session-event relay frame pins the \<open>type\<close> property to one of a few strings;
  two classes with different strings cannot share a frame.\<close>

lemma eq_str_unique: "eq_str v s \<Longrightarrow> eq_str v t \<Longrightarrow> s = t"
  by (simp add: eq_str_def)

named_theorems frame_type \<open>the type property each frame class pins\<close>

lemma type_e2ee [frame_type]: "isE2eeEnvelope fr \<Longrightarrow> eq_str (field fr ''type'') ''e2ee''"
  by (simp add: isE2eeEnvelope_def)

lemma type_client_control [frame_type]:
  "isClientControlFrame fr \<Longrightarrow> eq_str (field fr ''type'') ''relay_key_exchange_init''"
  by (auto simp: isClientControlFrame_def split: if_splits)

lemma type_daemon_control [frame_type]:
  "isDaemonControlFrame fr \<Longrightarrow>
   eq_str (field fr ''type'') ''relay_key_update_required'' \<or>
   eq_str (field fr ''type'') ''relay_key_exchange_response''"
  by (auto simp: isDaemonControlFrame_def split: if_splits)

lemma type_pairing_client [frame_type]:
  "isPairingClientFrame fr \<Longrightarrow>
   eq_str (field fr ''type'') ''relay_pairing_offer_request'' \<or>
   eq_str (field fr ''type'') ''relay_pairing_redeem_request''"
  by (auto simp: isPairingClientFrame_def isPairingOfferRequestFrame_def isPairingRedeemRequestFrame_def)

lemma type_pairing_daemon [frame_type]:
  "isPairingDaemonFrame fr \<Longrightarrow>
   eq_str (field fr ''type'') ''relay_pairing_offer_response'' \<or>
   eq_str (field fr ''type'') ''relay_pairing_redeem_response''"
  by (auto simp: isPairingDaemonFrame_def isPairingResponseFrame_def Let_def split: if_splits)

lemma type_session_event [frame_type]:
  "isSessionEventClientFrame fr \<Longrightarrow>
   eq_str (field fr ''type'') ''viewport.session_events.subscribe/v1'' \<or>
   eq_str (field fr ''type'') ''viewport.session_events.unsubscribe/v1'' \<or>
   eq_str (field fr ''type'') ''viewport.session_viewer_presence/v1''"
  by (auto simp: isSessionEventClientFrame_def isSessionEventSubscribeFrame_def
      isSessionEventUnsubscribeFrame_def isSessionViewerPresenceFrame_def)

lemma client_classes_disjoint:
  "\<not> (isE2eeEnvelope fr \<and> isClientControlFrame fr)"
  "\<not> (isE2eeEnvelope fr \<and> isPairingClientFrame fr)"
  "\<not> (isE2eeEnvelope fr \<and> isSessionEventClientFrame fr)"
  "\<not> (isClientControlFrame fr \<and> isPairingClientFrame fr)"
  "\<not> (isClientControlFrame fr \<and> isSessionEventClientFrame fr)"
  "\<not> (isPairingClientFrame fr \<and> isSessionEventClientFrame fr)"
  by (auto dest!: frame_type simp: eq_str_def)

lemma daemon_classes_disjoint:
  "\<not> (isE2eeEnvelope fr \<and> isDaemonControlFrame fr)"
  "\<not> (isE2eeEnvelope fr \<and> isPairingDaemonFrame fr)"
  "\<not> (isDaemonControlFrame fr \<and> isPairingDaemonFrame fr)"
  by (auto dest!: frame_type simp: eq_str_def)

lemma directions_disjoint:
  "\<not> (isClientControlFrame fr \<and> isDaemonControlFrame fr)"
  "\<not> (isClientControlFrame fr \<and> isPairingDaemonFrame fr)"
  "\<not> (isPairingClientFrame fr \<and> isDaemonControlFrame fr)"
  "\<not> (isPairingClientFrame fr \<and> isPairingDaemonFrame fr)"
  "\<not> (isSessionEventClientFrame fr \<and> isDaemonControlFrame fr)"
  "\<not> (isSessionEventClientFrame fr \<and> isPairingDaemonFrame fr)"
  by (auto dest!: frame_type simp: eq_str_def)

lemma extractPairingRequestId_iff:
  "extractPairingRequestId fr \<noteq> None \<longleftrightarrow> isPairingClientFrame fr \<or> isPairingDaemonFrame fr"
  by (auto simp: extractPairingRequestId_def isPairingClientFrame_def isPairingDaemonFrame_def)

lemma pairing_requestId_nonblank:
  "isPairingClientFrame fr \<or> isPairingDaemonFrame fr \<Longrightarrow> is_nonblank (field fr ''requestId'')"
  unfolding isPairingClientFrame_def isPairingDaemonFrame_def
proof (elim disjE)
  show "isPairingOfferRequestFrame fr \<Longrightarrow> ?thesis" by (simp add: isPairingOfferRequestFrame_def)
  show "isPairingRedeemRequestFrame fr \<Longrightarrow> ?thesis" by (simp add: isPairingRedeemRequestFrame_def)
  show "is_nonblank (field fr ''requestId'')" if "isPairingResponseFrame fr"
  proof (rule ccontr)
    assume "\<not> ?thesis"
    with that show False unfolding isPairingResponseFrame_def Let_def by (simp split: if_splits)
  qed
qed

lemma trimmedField_nonblank:
  "is_nonblank (field fr k) \<Longrightarrow> trimmedField fr k \<noteq> [] \<and> trim (trimmedField fr k) = trimmedField fr k"
  by (simp add: trimmedField_def is_nonblank_def split: option.splits)

lemma extractPairingRequestId_nonblank:
  assumes "extractPairingRequestId fr = Some i"
  shows "i \<noteq> [] \<and> trim i = i"
proof -
  have "i = trimmedField fr ''requestId''"
    using assms by (simp add: extractPairingRequestId_def split: if_splits)
  moreover have "is_nonblank (field fr ''requestId'')"
    using assms extractPairingRequestId_iff [of fr] by (simp add: pairing_requestId_nonblank)
  ultimately show ?thesis using trimmedField_nonblank by simp
qed

section \<open>Properties\<close>

text \<open>The two directions of the relay accept different frames. A text that passes both the client
  and the daemon admission is an end-to-end encrypted envelope or carries the session-event relay
  schema: no control or pairing message of one direction can be replayed as one of the other.\<close>

theorem direction_separation:
  assumes "isAllowedClientFrame text" and "isAllowedDaemonFrame text"
  shows "\<exists>fr. parseFramePayload text = Some fr \<and> (isE2eeEnvelope fr \<or> isSessionEventRelayFrame fr)"
  using assms directions_disjoint
  by (auto simp: isAllowedClientFrame_def isAllowedDaemonFrame_def split: option.splits)

theorem direction_separation_witness:
  "isAllowedClientFrame
     ''{\"type\":\"e2ee\",\"version\":2,\"profile\":\"noise-ik\",\"sessionId\":\"s\",\"epoch\":1,\"seq\":7,\"iv\":\"i\",\"tag\":\"t\",\"ciphertext\":\"c\"}''
   \<and> (\<exists>fr. isE2eeEnvelope fr \<or> isSessionEventRelayFrame fr)"
proof -
  let ?text = "''{\"type\":\"e2ee\",\"version\":2,\"profile\":\"noise-ik\",\"sessionId\":\"s\",\"epoch\":1,\"seq\":7,\"iv\":\"i\",\"tag\":\"t\",\"ciphertext\":\"c\"}''"
  have p: "parseFramePayload ?text =
      Some [(''type'', JStr ''e2ee''), (''version'', JNum 2), (''profile'', JStr ''noise-ik''),
        (''sessionId'', JStr ''s''), (''epoch'', JNum 1), (''seq'', JNum 7), (''iv'', JStr ''i''),
        (''tag'', JStr ''t''), (''ciphertext'', JStr ''c'')]" by code_simp
  have e: "isE2eeEnvelope (the (parseFramePayload ?text))" unfolding p by code_simp
  have c: "isAllowedClientFrame ?text" and d: "isAllowedDaemonFrame ?text"
    using e unfolding isAllowedClientFrame_def isAllowedDaemonFrame_def p by simp_all
  show ?thesis using c direction_separation [OF c d] by blast
qed

end
