(* ===== verification/Relay_Admission.thy ===== *)
theory Relay_Admission
  imports Relay_Frames
begin

text \<open>
  Who may connect to the relay, in the order a connection meets the checks:

  \<^item> \<open>resolveUpgradeAuth\<close> (upgrade-auth.ts) finds the relay token in the upgrade request;
  \<^item> \<open>validateAdmission\<close> (admission.ts) reads the control plane's verdict on the token and validates
    the claims against \<open>AdmissionClaimsSchema\<close>; the HTTP exchange itself is an argument, the outcome
    of \<open>postJson\<close>;
  \<^item> \<open>resolveConnectionAdmission\<close> (relay-connection-admission.ts) compares the claims with what the
    connection asked for.

  The schema library zod is third-party; \<open>AdmissionClaimsSchema\<close> is modelled by the documented
  meaning of the combinators the schema uses (\<open>string().min().max()\<close>, \<open>enum\<close>, \<open>array\<close>, \<open>regex\<close>,
  \<open>number().int()\<close>, \<open>optional\<close>, \<open>nullable\<close>, \<open>strict\<close>).
\<close>

section \<open>Roles and claims\<close>

datatype role = Workspace_daemon | Client | Worker

datatype scope = Runtime | Pairing | Session_events

record claims =
  cl_clientId :: "string option"
  cl_userId :: "string option"
  cl_installId :: "string option"
  cl_managedExecutorId :: "string option"
  cl_runtimeTargetId :: "string option"
  cl_machineId :: "string option"
  cl_role :: "role option"
  cl_workspaceId :: "string option"
  cl_scope :: "scope option"
  cl_sessionIds :: "string list option"
  cl_sessionChannels :: "string list option"
  cl_e2eeProfile :: "e2ee_profile option"
  cl_daemonIssueGeneration :: "int option"

section \<open>The token of an upgrade request\<close>

datatype relay_mode = Dev | Staging | Prod

datatype token_source = Header | Protocol | Query

datatype upgrade_auth = Auth_ok string token_source | MISSING_AUTH_TOKEN | QUERY_TOKEN_NOT_ALLOWED

definition TokenSchema :: "string \<Rightarrow> bool" where
  "TokenSchema t \<longleftrightarrow> 10 \<le> length t \<and> length t \<le> 4096"

definition line_terminator :: "char \<Rightarrow> bool" where
  "line_terminator c \<longleftrightarrow> c = CHR 0x0A \<or> c = CHR 0x0D"

text \<open>\<open>/^Bearer\s+(.+)$/i\<close>: the scheme in any case, white space, then the rest of the line. Where only
  white space follows, the expression captures some of it and the trimmed capture is empty.\<close>

definition parseBearer :: "string option \<Rightarrow> string option" where
  "parseBearer header =
     (case header of
        None \<Rightarrow> None
      | Some h \<Rightarrow>
          let rest = drop 6 h; body = dropWhile js_space rest in
          if toLowerCase (take 6 h) = ''bearer'' \<and> rest \<noteq> [] \<and> js_space (hd rest) \<and>
             \<not> list_ex line_terminator body
          then let token = trim body in if token \<noteq> [] \<and> TokenSchema token then Some token else None
          else None)"

definition parseProtocolToken :: "string option \<Rightarrow> string option" where
  "parseProtocolToken header =
     (case header of
        None \<Rightarrow> None
      | Some h \<Rightarrow>
          let candidates = filter (\<lambda>e. e \<noteq> []) (map trim (splitOn CHR '','' h)) in
          map_option (drop 5)
            (find (\<lambda>c. startsWith c ''auth.'' \<and> TokenSchema (drop 5 c)) candidates))"

definition resolveUpgradeAuth ::
    "relay_mode \<Rightarrow> string option \<Rightarrow> string option \<Rightarrow> string option \<Rightarrow> upgrade_auth" where
  "resolveUpgradeAuth mode authorizationHeader protocolHeader queryToken =
     (case parseBearer authorizationHeader of
        Some t \<Rightarrow> Auth_ok t Header
      | None \<Rightarrow>
          (case parseProtocolToken protocolHeader of
             Some t \<Rightarrow> Auth_ok t Protocol
           | None \<Rightarrow>
               let fromQuery = trim (case queryToken of Some q \<Rightarrow> q | None \<Rightarrow> []) in
               if fromQuery = [] then MISSING_AUTH_TOKEN
               else if mode \<noteq> Dev then QUERY_TOKEN_NOT_ALLOWED
               else if \<not> TokenSchema fromQuery then MISSING_AUTH_TOKEN
               else Auth_ok fromQuery Query))"

section \<open>The control plane's verdict\<close>

text \<open>Validators of one property: \<open>None\<close> is a validation error, \<open>Some None\<close> an absent property.\<close>

definition opt_string :: "nat \<Rightarrow> nat \<Rightarrow> json option \<Rightarrow> string option option" where
  "opt_string lo hi v =
     (case v of None \<Rightarrow> Some None
      | Some (JStr s) \<Rightarrow> if lo \<le> length s \<and> length s \<le> hi then Some (Some s) else None
      | Some _ \<Rightarrow> None)"

definition opt_enum :: "(string \<times> 'a) list \<Rightarrow> json option \<Rightarrow> 'a option option" where
  "opt_enum tab v =
     (case v of None \<Rightarrow> Some None
      | Some (JStr s) \<Rightarrow> map_option Some (map_of tab s)
      | Some _ \<Rightarrow> None)"

definition opt_array :: "(string \<Rightarrow> bool) \<Rightarrow> nat option \<Rightarrow> json option \<Rightarrow> string list option option" where
  "opt_array ok cap v =
     (case v of None \<Rightarrow> Some None
      | Some (JArr xs) \<Rightarrow>
          let ss = List.map_filter (\<lambda>x. as_str (Some x)) xs in
          if length ss = length xs \<and> list_all ok ss \<and> (case cap of None \<Rightarrow> True | Some n \<Rightarrow> length xs \<le> n)
          then Some (Some ss) else None
      | Some _ \<Rightarrow> None)"

definition opt_int :: "int option \<Rightarrow> json option \<Rightarrow> int option option" where
  "opt_int lo v =
     (case v of None \<Rightarrow> Some None
      | Some x \<Rightarrow>
          (case as_int (Some x) of
             None \<Rightarrow> None
           | Some i \<Rightarrow> if (case lo of None \<Rightarrow> True | Some l \<Rightarrow> l \<le> i) then Some (Some i) else None))"

text \<open>\<open>nullable().optional()\<close> strings, and \<open>aud\<close>, a string or an array of strings: only their
  validity matters to the relay, which never reads them.\<close>

definition nullable_string_ok :: "nat \<Rightarrow> nat \<Rightarrow> json option \<Rightarrow> bool" where
  "nullable_string_ok lo hi v \<longleftrightarrow> v = Some JNull \<or> opt_string lo hi v \<noteq> None"

definition aud_ok :: "json option \<Rightarrow> bool" where
  "aud_ok v \<longleftrightarrow> opt_string 1 255 v \<noteq> None \<or> opt_array (\<lambda>s. 1 \<le> length s \<and> length s \<le> 255) None v \<noteq> None"

text \<open>\<open>/^agent-session:.+$/\<close>, with \<open>max(255)\<close>.\<close>

definition session_channel_ok :: "string \<Rightarrow> bool" where
  "session_channel_ok s \<longleftrightarrow>
     length s \<le> 255 \<and> startsWith s ''agent-session:'' \<and> 14 < length s \<and>
     \<not> list_ex line_terminator (drop 14 s)"

definition claim_keys :: "string list" where
  "claim_keys =
     [''clientId'', ''userId'', ''installId'', ''runtimeTargetId'', ''machineId'', ''role'', ''workspaceId'',
      ''managedExecutorId'', ''scope'', ''sessionIds'', ''sessionChannels'', ''e2eeProfile'', ''policyMode'',
      ''daemonPublicKey'', ''pairingSecret'', ''relayWsBaseUrl'', ''iss'', ''aud'', ''iat'', ''exp'', ''nbf'',
      ''ver'', ''jti'', ''daemonIssueGeneration'']"

definition AdmissionClaimsSchema :: "json option \<Rightarrow> claims option" where
  "AdmissionClaimsSchema v =
     (case v of
        Some (JObj ob) \<Rightarrow>
          if \<not> list_all (\<lambda>k. k \<in> set claim_keys) (jm_keys ob) \<or>
             opt_string 1 128 (field ob ''policyMode'') = None \<or>
             \<not> nullable_string_ok 1 512 (field ob ''daemonPublicKey'') \<or>
             \<not> nullable_string_ok 1 1024 (field ob ''pairingSecret'') \<or>
             \<not> nullable_string_ok 1 512 (field ob ''relayWsBaseUrl'') \<or>
             opt_string 1 255 (field ob ''iss'') = None \<or> \<not> aud_ok (field ob ''aud'') \<or>
             opt_int None (field ob ''iat'') = None \<or> opt_int None (field ob ''exp'') = None \<or>
             opt_int None (field ob ''nbf'') = None \<or> opt_int None (field ob ''ver'') = None \<or>
             opt_string 1 255 (field ob ''jti'') = None
          then None
          else
            Option.bind (opt_string 1 128 (field ob ''clientId'')) (\<lambda>clientId.
            Option.bind (opt_string 1 128 (field ob ''userId'')) (\<lambda>userId.
            Option.bind (opt_string 1 128 (field ob ''installId'')) (\<lambda>installId.
            Option.bind (opt_string 1 128 (field ob ''runtimeTargetId'')) (\<lambda>runtimeTargetId.
            Option.bind (opt_string 1 255 (field ob ''machineId'')) (\<lambda>machineId.
            Option.bind (opt_enum [(''workspace-daemon'', Workspace_daemon), (''client'', Client), (''worker'', Worker)]
                           (field ob ''role'')) (\<lambda>role.
            Option.bind (opt_string 1 128 (field ob ''workspaceId'')) (\<lambda>workspaceId.
            Option.bind (opt_string 1 128 (field ob ''managedExecutorId'')) (\<lambda>managedExecutorId.
            Option.bind (opt_enum [(''runtime'', Runtime), (''pairing'', Pairing), (''session-events'', Session_events)]
                           (field ob ''scope'')) (\<lambda>scope.
            Option.bind (opt_array (\<lambda>s. 1 \<le> length s \<and> length s \<le> 128) (Some 64) (field ob ''sessionIds'')) (\<lambda>sessionIds.
            Option.bind (opt_array session_channel_ok (Some 64) (field ob ''sessionChannels'')) (\<lambda>sessionChannels.
            Option.bind (opt_enum [(''noise-ik'', Noise_ik), (''noise-ikpsk2'', Noise_ikpsk2)]
                           (field ob ''e2eeProfile'')) (\<lambda>e2eeProfile.
            Option.bind (opt_int (Some 0) (field ob ''daemonIssueGeneration'')) (\<lambda>daemonIssueGeneration.
            Some \<lparr>cl_clientId = clientId, cl_userId = userId, cl_installId = installId,
                  cl_managedExecutorId = managedExecutorId, cl_runtimeTargetId = runtimeTargetId,
                  cl_machineId = machineId, cl_role = role, cl_workspaceId = workspaceId, cl_scope = scope,
                  cl_sessionIds = sessionIds, cl_sessionChannels = sessionChannels,
                  cl_e2eeProfile = e2eeProfile, cl_daemonIssueGeneration = daemonIssueGeneration\<rparr>)))))))))))))
      | _ \<Rightarrow> None)"

definition falsy :: "json option \<Rightarrow> bool" where
  "falsy v \<longleftrightarrow> v = None \<or> v = Some JNull \<or> v = Some (JBool False) \<or> v = Some (JNum 0) \<or> v = Some (JStr [])"

definition jfield :: "json \<Rightarrow> string \<Rightarrow> json option" where
  "jfield v k = (case v of JObj ob \<Rightarrow> field ob k | _ \<Rightarrow> None)"

text \<open>\<open>json.reason || json.error || 'VALIDATION_FAILED'\<close>.\<close>

definition verdict_reason :: "json \<Rightarrow> json" where
  "verdict_reason v =
     (if \<not> falsy (jfield v ''reason'') then the (jfield v ''reason'')
      else if \<not> falsy (jfield v ''error'') then the (jfield v ''error'')
      else JStr ''VALIDATION_FAILED'')"

record admission_result =
  ar_ok :: bool
  ar_status :: int
  ar_reason :: json
  ar_claims :: "claims option"

text \<open>The outcome of \<open>postJson\<close>: an error message, or a status and the parsed body.\<close>

type_synonym http_outcome = "string + int \<times> json option"

definition validateAdmission :: "http_outcome \<Rightarrow> admission_result" where
  "validateAdmission res =
     (case res of
        Inl message \<Rightarrow>
          if str_includes (toLowerCase message) ''response too large''
          then \<lparr>ar_ok = False, ar_status = 502, ar_reason = JStr ''ADMISSION_RESPONSE_TOO_LARGE'', ar_claims = None\<rparr>
          else \<lparr>ar_ok = False, ar_status = 504, ar_reason = JStr message, ar_claims = None\<rparr>
      | Inr (status, body) \<Rightarrow>
          if falsy body
          then \<lparr>ar_ok = False, ar_status = status, ar_reason = JStr ''INVALID_JSON'', ar_claims = None\<rparr>
          else
            let json = the body;
                admissionOk = status \<ge> 200 \<and> status < 300 \<and> jfield json ''ok'' = Some (JBool True)
            in if \<not> admissionOk
               then \<lparr>ar_ok = False, ar_status = status, ar_reason = verdict_reason json, ar_claims = None\<rparr>
               else
                 (case AdmissionClaimsSchema (jfield json ''claims'') of
                    None \<Rightarrow> \<lparr>ar_ok = False, ar_status = status, ar_reason = JStr ''INVALID_CLAIMS'', ar_claims = None\<rparr>
                  | Some cl \<Rightarrow> \<lparr>ar_ok = True, ar_status = status, ar_reason = verdict_reason json, ar_claims = Some cl\<rparr>))"

section \<open>Claims against the connection\<close>

datatype connection_admission =
    Admitted "scope option" "string option" "string option"
  | Rejected string string string obj bool
    \<comment> \<open>log event, reason, close reason, log details, whether to send the missing-target notice\<close>

definition role_name :: "role \<Rightarrow> string" where
  "role_name r = (case r of Workspace_daemon \<Rightarrow> ''workspace-daemon'' | Client \<Rightarrow> ''client'' | Worker \<Rightarrow> ''worker'')"

definition scope_name :: "scope \<Rightarrow> string" where
  "scope_name s = (case s of Runtime \<Rightarrow> ''runtime'' | Pairing \<Rightarrow> ''pairing'' | Session_events \<Rightarrow> ''session-events'')"

definition claimed :: "(claims \<Rightarrow> string option) \<Rightarrow> claims option \<Rightarrow> string" where
  "claimed sel cl = (case Option.bind cl sel of Some s \<Rightarrow> trim s | None \<Rightarrow> [])"

definition resolveConnectionAdmission ::
    "role \<Rightarrow> string \<Rightarrow> string option \<Rightarrow> string \<Rightarrow> claims option \<Rightarrow> connection_admission" where
  "resolveConnectionAdmission role wid requestedRuntimeTargetId ip cl =
     (let clientScopeClaim = Option.bind cl cl_scope;
          claimedWorkspaceId = claimed cl_workspaceId cl
      in if claimedWorkspaceId = [] then
           Rejected ''connection_rejected'' ''missing_workspace_claim'' ''missing workspace claim''
             [(''workspaceId'', JStr wid), (''role'', JStr (role_name role)), (''ip'', JStr ip),
              (''reason'', JStr ''missing_workspace_claim'')] False
         else if claimedWorkspaceId \<noteq> wid then
           Rejected ''connection_rejected'' ''workspace_claim_mismatch'' ''workspace claim mismatch''
             [(''workspaceId'', JStr wid), (''claimedWorkspaceId'', JStr claimedWorkspaceId),
              (''role'', JStr (role_name role)), (''ip'', JStr ip),
              (''reason'', JStr ''workspace_claim_mismatch'')] False
         else
           let claimedRuntimeTargetId = claimed cl_runtimeTargetId cl in
           if truthy requestedRuntimeTargetId \<and> Some claimedRuntimeTargetId \<noteq> requestedRuntimeTargetId then
             Rejected ''connection_rejected'' ''runtime_target_claim_mismatch'' ''runtime target claim mismatch''
               [(''workspaceId'', JStr wid), (''requestedRuntimeTargetId'', JStr (the requestedRuntimeTargetId)),
                (''claimedRuntimeTargetId'', JStr claimedRuntimeTargetId), (''role'', JStr (role_name role)),
                (''ip'', JStr ip), (''reason'', JStr ''runtime_target_claim_mismatch'')] False
           else
             let runtimeTargetId = (if claimedRuntimeTargetId \<noteq> [] then Some claimedRuntimeTargetId
                                    else requestedRuntimeTargetId);
                 machineId = map_option trim (Option.bind cl cl_machineId)
             in if role = Client \<and> clientScopeClaim = None then
                  Rejected ''client_connection_rejected'' ''invalid_scope_claim'' ''invalid scope claim''
                    [(''workspaceId'', JStr wid), (''ip'', JStr ip), (''reason'', JStr ''invalid_scope_claim'')] False
                else if (role = Workspace_daemon \<or>
                         (role = Client \<and> (clientScopeClaim = Some Runtime \<or> clientScopeClaim = Some Session_events)))
                        \<and> \<not> truthy runtimeTargetId then
                  Rejected ''connection_rejected'' ''missing_runtime_target_claim'' ''missing runtime target claim''
                    [(''workspaceId'', JStr wid), (''role'', JStr (role_name role)), (''ip'', JStr ip),
                     (''reason'', JStr ''missing_runtime_target_claim'')] True
                else Admitted clientScopeClaim runtimeTargetId machineId)"

section \<open>Facts\<close>

lemma truthy_Some [simp]: "truthy (Some s) \<longleftrightarrow> s \<noteq> []" "\<not> truthy None"
  by (simp_all add: truthy_def)

lemma opt_string_Some: "opt_string lo hi v = Some (Some s) \<Longrightarrow> lo \<le> length s \<and> length s \<le> hi"
  by (auto simp: opt_string_def split: option.splits json.splits if_splits)

lemma opt_array_Some:
  "opt_array ok cap v = Some (Some ss) \<Longrightarrow> list_all ok ss"
  by (auto simp: opt_array_def Let_def split: option.splits json.splits if_splits)

lemma opt_int_Some: "opt_int (Some lo) v = Some (Some i) \<Longrightarrow> lo \<le> i"
  by (auto simp: opt_int_def split: option.splits if_splits)

lemma AdmissionClaimsSchema_fields:
  assumes "AdmissionClaimsSchema v = Some cl"
  shows "\<exists>ob. v = Some (JObj ob) \<and> set (jm_keys ob) \<subseteq> set claim_keys \<and>
    opt_string 1 128 (field ob ''workspaceId'') = Some (cl_workspaceId cl) \<and>
    opt_string 1 128 (field ob ''runtimeTargetId'') = Some (cl_runtimeTargetId cl) \<and>
    opt_string 1 128 (field ob ''managedExecutorId'') = Some (cl_managedExecutorId cl) \<and>
    opt_array session_channel_ok (Some 64) (field ob ''sessionChannels'') = Some (cl_sessionChannels cl) \<and>
    opt_int (Some 0) (field ob ''daemonIssueGeneration'') = Some (cl_daemonIssueGeneration cl)"
proof -
  obtain ob where v: "v = Some (JObj ob)"
    using assms by (cases v) (auto simp: AdmissionClaimsSchema_def split: json.splits)
  have "list_all (\<lambda>k. k \<in> set claim_keys) (jm_keys ob)"
    using assms unfolding AdmissionClaimsSchema_def v by (simp split: if_splits)
  moreover have "opt_string 1 128 (field ob ''workspaceId'') = Some (cl_workspaceId cl) \<and>
    opt_string 1 128 (field ob ''runtimeTargetId'') = Some (cl_runtimeTargetId cl) \<and>
    opt_string 1 128 (field ob ''managedExecutorId'') = Some (cl_managedExecutorId cl) \<and>
    opt_array session_channel_ok (Some 64) (field ob ''sessionChannels'') = Some (cl_sessionChannels cl) \<and>
    opt_int (Some 0) (field ob ''daemonIssueGeneration'') = Some (cl_daemonIssueGeneration cl)"
    using assms unfolding AdmissionClaimsSchema_def v
    by (auto simp: bind_eq_Some_conv simp del: not_None_eq split: if_splits)
  ultimately show ?thesis using v by (auto simp: list_all_iff)
qed

lemma validateAdmission_ok:
  assumes "ar_ok (validateAdmission res)"
  shows "\<exists>status body cl. res = Inr (status, Some body) \<and> 200 \<le> status \<and> status < 300 \<and>
    jfield body ''ok'' = Some (JBool True) \<and> AdmissionClaimsSchema (jfield body ''claims'') = Some cl \<and>
    ar_claims (validateAdmission res) = Some cl"
  using assms
  by (auto simp: validateAdmission_def Let_def falsy_def split: sum.splits prod.splits if_splits option.splits)

lemma parseBearer_schema: "parseBearer h = Some t \<Longrightarrow> TokenSchema t"
  by (auto simp: parseBearer_def Let_def split: option.splits if_splits)

lemma parseProtocolToken_schema: "parseProtocolToken h = Some t \<Longrightarrow> TokenSchema t"
  by (auto simp: parseProtocolToken_def Let_def find_Some_iff split: option.splits)

lemma admittedD:
  "resolveConnectionAdmission role wid req ip cl = Admitted sc t m \<Longrightarrow>
   wid \<noteq> [] \<and> claimed cl_workspaceId cl = wid"
  unfolding resolveConnectionAdmission_def Let_def by (auto split: if_splits)

section \<open>Properties\<close>

text \<open>Admission decides exactly this. A connection is admitted if and only if its token claims the
  very workspace it asks for, agrees with the runtime target it asks for (if any), a client has a
  scope claim, and a daemon or a runtime or session-event client has a runtime target; the target
  used from then on is the claimed one, the requested one only if none is claimed.\<close>

theorem admission_exact:
  "resolveConnectionAdmission role wid req ip cl = Admitted sc t m \<longleftrightarrow>
     wid \<noteq> [] \<and> claimed cl_workspaceId cl = wid \<and>
     (truthy req \<longrightarrow> req = Some (claimed cl_runtimeTargetId cl)) \<and>
     sc = Option.bind cl cl_scope \<and>
     t = (if claimed cl_runtimeTargetId cl \<noteq> [] then Some (claimed cl_runtimeTargetId cl) else req) \<and>
     m = map_option trim (Option.bind cl cl_machineId) \<and>
     (role = Client \<longrightarrow> sc \<noteq> None) \<and>
     (role = Workspace_daemon \<or> (role = Client \<and> (sc = Some Runtime \<or> sc = Some Session_events)) \<longrightarrow> truthy t)"
  unfolding resolveConnectionAdmission_def Let_def by (auto split: if_splits)

definition sample_claims :: claims where
  "sample_claims =
     \<lparr>cl_clientId = Some ''c'', cl_userId = None, cl_installId = None, cl_managedExecutorId = None,
      cl_runtimeTargetId = Some ''t'', cl_machineId = None, cl_role = Some Client,
      cl_workspaceId = Some '' w '', cl_scope = Some Runtime, cl_sessionIds = None,
      cl_sessionChannels = None, cl_e2eeProfile = None, cl_daemonIssueGeneration = None\<rparr>"

theorem admission_exact_witness:
  "resolveConnectionAdmission Client ''w'' (Some ''t'') ''1.2.3.4'' (Some sample_claims) =
     Admitted (Some Runtime) (Some ''t'') None"
  unfolding admission_exact by (simp add: sample_claims_def claimed_def trim_def js_space_def)

text \<open>A token taken from an upgrade request is between 10 and 4096 characters long, and a token
  from the query string is accepted in dev mode only.\<close>

theorem upgrade_token_policy:
  assumes "resolveUpgradeAuth mode authorization protocol query = Auth_ok token source"
  shows "10 \<le> length token \<and> length token \<le> 4096 \<and> (source = Query \<longrightarrow> mode = Dev)"
  using assms
  by (auto simp: resolveUpgradeAuth_def Let_def TokenSchema_def split: option.splits if_splits
      dest!: parseBearer_schema parseProtocolToken_schema)

theorem upgrade_token_policy_witness:
  "resolveUpgradeAuth Prod (Some ''bearer  secret-token-1'') None (Some ''x'') = Auth_ok ''secret-token-1'' Header
   \<and> 10 \<le> length ''secret-token-1''"
proof -
  have "resolveUpgradeAuth Prod (Some ''bearer  secret-token-1'') None (Some ''x'') = Auth_ok ''secret-token-1'' Header"
    by code_simp
  from this upgrade_token_policy [OF this] show ?thesis by blast
qed



end
