(* ===== verification/Rate_Limiters.thy ===== *)
theory Rate_Limiters
  imports Prelude
begin

text \<open>
  The relay's two keyed rate limiters (services/relay/src/security.ts): \<open>FixedWindowRateLimiter\<close>
  guards upgrades, key exchanges and pairing frames, \<open>TokenBucketRateLimiter\<close> guards runtime
  frames. Each keeps one bucket per key in an insertion-ordered map, moves the key it serves to the
  youngest end and evicts the oldest keys beyond \<open>maxBuckets\<close>.

  Time is the millisecond clock value passed to \<open>allow\<close>; the token counter, a double in the source,
  is an exact rational. The locale \<open>keyed_limiter\<close> says that a limiter is a family of
  independent per-key machines; both limiters interpret it, and the rate bounds are proved on the
  one-key machine.
\<close>

section \<open>The fixed-window limiter\<close>

record bucket =
  count :: int
  windowStartMs :: int

record fixed_window =
  maxPerWindow :: int
  windowMs :: int
  fw_maxBuckets :: "nat option"
  fw_buckets :: "(string, bucket) js_map"

definition fw_new :: "int \<Rightarrow> int \<Rightarrow> nat option \<Rightarrow> fixed_window" where
  "fw_new mx w cap = \<lparr>maxPerWindow = mx, windowMs = w, fw_maxBuckets = cap, fw_buckets = []\<rparr>"

definition fw_touchEntry :: "string \<Rightarrow> bucket \<Rightarrow> fixed_window \<Rightarrow> fixed_window" where
  "fw_touchEntry key b L = L\<lparr>fw_buckets := jm_touch key b (fw_buckets L)\<rparr>"

definition fw_enforceMaxBuckets :: "fixed_window \<Rightarrow> fixed_window" where
  "fw_enforceMaxBuckets L =
     (case fw_maxBuckets L of None \<Rightarrow> L
      | Some cap \<Rightarrow> L\<lparr>fw_buckets := evict_gt cap (fw_buckets L)\<rparr>)"

definition fw_allow :: "string \<Rightarrow> int \<Rightarrow> fixed_window \<Rightarrow> bool \<times> fixed_window" where
  "fw_allow key now L =
     (case jm_get (fw_buckets L) key of
        None \<Rightarrow>
          (True, fw_enforceMaxBuckets (fw_touchEntry key \<lparr>count = 1, windowStartMs = now\<rparr> L))
      | Some current \<Rightarrow>
          if now - windowStartMs current \<ge> windowMs L
          then (True, fw_touchEntry key (current\<lparr>count := 1, windowStartMs := now\<rparr>) L)
          else if count current \<ge> maxPerWindow L
          then (False, fw_touchEntry key current L)
          else (True, fw_touchEntry key (current\<lparr>count := count current + 1\<rparr>) L))"

definition fw_sweepStale :: "int \<Rightarrow> fixed_window \<Rightarrow> fixed_window" where
  "fw_sweepStale now L =
     fw_enforceMaxBuckets
       (L\<lparr>fw_buckets := jm_filter (\<lambda>_ b. \<not> now - windowStartMs b \<ge> windowMs L * 2) (fw_buckets L)\<rparr>)"

section \<open>The token-bucket limiter\<close>

record token_bucket =
  tokens :: rat
  lastRefillMs :: int

record token_limiter =
  capacity :: rat
  refillWindowMs :: rat
  tb_maxBuckets :: "nat option"
  refillPerMs :: rat
  tb_buckets :: "(string, token_bucket) js_map"

definition tb_new :: "rat \<Rightarrow> rat \<Rightarrow> nat option \<Rightarrow> token_limiter" where
  "tb_new cap w mx =
     \<lparr>capacity = cap, refillWindowMs = w, tb_maxBuckets = mx, refillPerMs = cap / w, tb_buckets = []\<rparr>"

definition tb_refill :: "token_limiter \<Rightarrow> token_bucket \<Rightarrow> int \<Rightarrow> token_bucket" where
  "tb_refill L b now =
     (if now \<le> lastRefillMs b then b
      else let elapsed = of_int (now - lastRefillMs b) in
        b\<lparr>tokens := min (capacity L) (tokens b + elapsed * refillPerMs L), lastRefillMs := now\<rparr>)"

definition tb_touchEntry :: "string \<Rightarrow> token_bucket \<Rightarrow> token_limiter \<Rightarrow> token_limiter" where
  "tb_touchEntry key b L = L\<lparr>tb_buckets := jm_touch key b (tb_buckets L)\<rparr>"

definition tb_enforceMaxBuckets :: "token_limiter \<Rightarrow> token_limiter" where
  "tb_enforceMaxBuckets L =
     (case tb_maxBuckets L of None \<Rightarrow> L
      | Some cap \<Rightarrow> L\<lparr>tb_buckets := evict_gt cap (tb_buckets L)\<rparr>)"

definition tb_allow :: "string \<Rightarrow> int \<Rightarrow> token_limiter \<Rightarrow> bool \<times> token_limiter" where
  "tb_allow key now L =
     (case jm_get (tb_buckets L) key of
        None \<Rightarrow>
          (True, tb_enforceMaxBuckets
                   (tb_touchEntry key \<lparr>tokens = capacity L - 1, lastRefillMs = now\<rparr> L))
      | Some existing \<Rightarrow>
          let b = tb_refill L existing now in
          if tokens b < 1 then (False, tb_touchEntry key b L)
          else (True, tb_touchEntry key (b\<lparr>tokens := tokens b - 1\<rparr>) L))"

definition tb_sweepStale :: "int \<Rightarrow> token_limiter \<Rightarrow> token_limiter" where
  "tb_sweepStale now L =
     (let staleAfterMs = refillWindowMs L * 2 in
      tb_enforceMaxBuckets
        (L\<lparr>tb_buckets := jm_filter (\<lambda>_ b. \<not> of_int (now - lastRefillMs b) \<ge> staleAfterMs) (tb_buckets L)\<rparr>))"

section \<open>Limiters as families of one-key machines\<close>

text \<open>
  \<open>granted allow k L calls\<close> counts the calls of key \<open>k\<close> that \<open>allow\<close> grants in a sequence of calls
  by all keys; \<open>granted1 decide b times\<close> counts the grants of a one-key machine.
\<close>

fun granted :: "('k \<Rightarrow> int \<Rightarrow> 'l \<Rightarrow> bool \<times> 'l) \<Rightarrow> 'k \<Rightarrow> 'l \<Rightarrow> ('k \<times> int) list \<Rightarrow> nat" where
  "granted allow k L [] = 0"
| "granted allow k L ((k', t) # calls) =
     (let (ok, L') = allow k' t L
      in (if ok \<and> k' = k then 1 else 0) + granted allow k L' calls)"

fun granted1 :: "('b option \<Rightarrow> int \<Rightarrow> bool \<times> 'b) \<Rightarrow> 'b option \<Rightarrow> int list \<Rightarrow> nat" where
  "granted1 decide b [] = 0"
| "granted1 decide b (t # ts) =
     (let (ok, b') = decide b t in (if ok then 1 else 0) + granted1 decide (Some b') ts)"

definition own_times :: "'k \<Rightarrow> ('k \<times> int) list \<Rightarrow> int list" where
  "own_times k calls = map snd (filter (\<lambda>c. fst c = k) calls)"

locale keyed_limiter =
  fixes allow :: "'k \<Rightarrow> int \<Rightarrow> 'l \<Rightarrow> bool \<times> 'l"
    and view :: "'l \<Rightarrow> 'k \<Rightarrow> 'b option"
    and config :: "'l \<Rightarrow> 'c"
    and decide :: "'c \<Rightarrow> 'b option \<Rightarrow> int \<Rightarrow> bool \<times> 'b"
    and room :: "'l \<Rightarrow> 'k set \<Rightarrow> bool"
  assumes verdict: "fst (allow k t L) = fst (decide (config L) (view L k) t)"
    and view_allow:
      "room L K \<Longrightarrow> k \<in> K \<Longrightarrow>
       view (snd (allow k t L)) = (view L)(k \<mapsto> snd (decide (config L) (view L k) t))"
    and config_allow: "config (snd (allow k t L)) = config L"
    and room_allow: "room L K \<Longrightarrow> k \<in> K \<Longrightarrow> room (snd (allow k t L)) K"
begin

text \<open>One key's verdicts do not depend on the traffic of the others: a mixed call sequence grants a
  key exactly what its own machine grants on its own calls.\<close>

lemma granted_isolated:
  "room L K \<Longrightarrow> fst ` set calls \<subseteq> K \<Longrightarrow>
   granted allow k L calls = granted1 (decide (config L)) (view L k) (own_times k calls)"
proof (induction calls arbitrary: L)
  case Nil
  then show ?case by (simp add: own_times_def)
next
  case (Cons c calls)
  obtain k' t where c: "c = (k', t)" by force
  obtain ok L' where step: "allow k' t L = (ok, L')" by force
  have k': "k' \<in> K" using Cons.prems by (simp add: c)
  have unb: "room L' K" and cfg: "config L' = config L"
    using room_allow [OF Cons.prems(1) k', of t] config_allow [of k' t L] by (simp_all add: step)
  have view: "view L' = (view L)(k' \<mapsto> snd (decide (config L) (view L k') t))"
    and ok: "ok = fst (decide (config L) (view L k') t)"
    using view_allow [OF Cons.prems(1) k', of t] verdict [of k' t L] by (simp_all add: step)
  have "granted allow k L (c # calls) =
      (if ok \<and> k' = k then 1 else 0) + granted1 (decide (config L)) (view L' k) (own_times k calls)"
    using Cons.IH [OF unb] Cons.prems(2) by (simp add: c step cfg)
  also have "\<dots> = granted1 (decide (config L)) (view L k) (own_times k (c # calls))"
    by (cases "k' = k") (simp_all add: c ok view own_times_def case_prod_beta)
  finally show ?case .
qed

end

subsection \<open>Both limiters are such families\<close>

definition fw_decide :: "int \<times> int \<Rightarrow> bucket option \<Rightarrow> int \<Rightarrow> bool \<times> bucket" where
  "fw_decide cfg b t =
     (case b of None \<Rightarrow> (True, \<lparr>count = 1, windowStartMs = t\<rparr>)
      | Some b \<Rightarrow>
          if t - windowStartMs b \<ge> snd cfg then (True, \<lparr>count = 1, windowStartMs = t\<rparr>)
          else if count b \<ge> fst cfg then (False, b)
          else (True, b\<lparr>count := count b + 1\<rparr>))"

text \<open>There is room for a set of keys when serving them all cannot push the map over its cap.\<close>

definition room_for :: "nat option \<Rightarrow> ('k, 'v) js_map \<Rightarrow> 'k set \<Rightarrow> bool" where
  "room_for cap m K \<longleftrightarrow>
     jm_wf m \<and> finite K \<and> (case cap of None \<Rightarrow> True | Some n \<Rightarrow> card (set (jm_keys m) \<union> K) \<le> n)"

lemma jm_keys_touch: "set (jm_keys (jm_touch k v m)) = insert k (set (jm_keys m))"
  by (auto simp: set_jm_keys)

lemma room_for_touch: "room_for cap m K \<Longrightarrow> k \<in> K \<Longrightarrow> room_for cap (jm_touch k v m) K"
  by (auto simp: room_for_def jm_keys_touch insert_absorb split: option.splits)

lemma room_for_no_evict:
  assumes "room_for (Some n) m K"
  shows "evict_gt n m = m"
proof -
  have "length m = card (set (jm_keys m))"
    using assms by (metis distinct_card jm_keys_def jm_wf_def length_map room_for_def)
  also have "\<dots> \<le> card (set (jm_keys m) \<union> K)"
    using assms by (intro card_mono) (auto simp: room_for_def)
  also have "\<dots> \<le> n" using assms by (simp add: room_for_def)
  finally show ?thesis by (subst evict_gt.simps) simp
qed

abbreviation fw_room :: "fixed_window \<Rightarrow> string set \<Rightarrow> bool" where
  "fw_room L \<equiv> room_for (fw_maxBuckets L) (fw_buckets L)"

abbreviation tb_room :: "token_limiter \<Rightarrow> string set \<Rightarrow> bool" where
  "tb_room L \<equiv> room_for (tb_maxBuckets L) (tb_buckets L)"

lemma fw_enforce_room [simp]: "fw_room L K \<Longrightarrow> fw_enforceMaxBuckets L = L"
  by (auto simp: fw_enforceMaxBuckets_def room_for_no_evict split: option.splits)

lemma tb_enforce_room [simp]: "tb_room L K \<Longrightarrow> tb_enforceMaxBuckets L = L"
  by (auto simp: tb_enforceMaxBuckets_def room_for_no_evict split: option.splits)

lemma fw_touch_room: "fw_room L K \<Longrightarrow> k \<in> K \<Longrightarrow> fw_room (fw_touchEntry k b L) K"
  by (simp add: fw_touchEntry_def room_for_touch)

lemma tb_touch_room: "tb_room L K \<Longrightarrow> k \<in> K \<Longrightarrow> tb_room (tb_touchEntry k b L) K"
  by (simp add: tb_touchEntry_def room_for_touch)

lemma bucket_overwrite [simp]:
  "(b :: bucket)\<lparr>count := c, windowStartMs := t\<rparr> = \<lparr>count = c, windowStartMs = t\<rparr>"
  by simp

text \<open>With room, a call is its one-key decision and a touch.\<close>

lemma fw_allow_room:
  assumes "fw_room L K" and "k \<in> K"
  shows "fw_allow k t L =
    (let (ok, b) = fw_decide (maxPerWindow L, windowMs L) (jm_get (fw_buckets L) k) t
     in (ok, fw_touchEntry k b L))"
  using fw_enforce_room [OF fw_touch_room [OF assms]]
  by (simp add: fw_allow_def fw_decide_def split: option.splits)

lemma fw_allow_frame:
  "maxPerWindow (snd (fw_allow k t L)) = maxPerWindow L"
  "windowMs (snd (fw_allow k t L)) = windowMs L"
  "fw_maxBuckets (snd (fw_allow k t L)) = fw_maxBuckets L"
  by (auto simp: fw_allow_def fw_touchEntry_def fw_enforceMaxBuckets_def split: option.splits)

interpretation fw: keyed_limiter fw_allow "\<lambda>L. jm_get (fw_buckets L)"
    "\<lambda>L. (maxPerWindow L, windowMs L)" fw_decide fw_room
proof unfold_locales
  fix k :: string and t L K
  show "fst (fw_allow k t L) = fst (fw_decide (maxPerWindow L, windowMs L) (jm_get (fw_buckets L) k) t)"
    by (simp add: fw_allow_def fw_decide_def split: option.splits)
  show "(maxPerWindow (snd (fw_allow k t L)), windowMs (snd (fw_allow k t L))) = (maxPerWindow L, windowMs L)"
    by (simp add: fw_allow_frame)
  assume room: "fw_room L K" "k \<in> K"
  show "jm_get (fw_buckets (snd (fw_allow k t L))) =
      (jm_get (fw_buckets L))(k \<mapsto> snd (fw_decide (maxPerWindow L, windowMs L) (jm_get (fw_buckets L) k) t))"
    by (auto simp: fw_allow_room [OF room] fw_touchEntry_def fun_eq_iff split: prod.splits)
  show "fw_room (snd (fw_allow k t L)) K"
    by (auto simp: fw_allow_room [OF room] fw_touch_room [OF room] split: prod.splits)
qed

definition tb_decide :: "token_limiter \<Rightarrow> token_bucket option \<Rightarrow> int \<Rightarrow> bool \<times> token_bucket" where
  "tb_decide cfg b t =
     (case b of None \<Rightarrow> (True, \<lparr>tokens = capacity cfg - 1, lastRefillMs = t\<rparr>)
      | Some b \<Rightarrow> let b = tb_refill cfg b t in
          if tokens b < 1 then (False, b) else (True, b\<lparr>tokens := tokens b - 1\<rparr>))"

text \<open>The configuration of a token limiter is the limiter without its buckets.\<close>

definition tb_config :: "token_limiter \<Rightarrow> token_limiter" where
  "tb_config L = L\<lparr>tb_buckets := []\<rparr>"

lemma tb_config_sel [simp]:
  "capacity (tb_config L) = capacity L" "refillPerMs (tb_config L) = refillPerMs L"
  "tb_refill (tb_config L) = tb_refill L"
  by (simp_all add: tb_config_def tb_refill_def fun_eq_iff)

lemma tb_allow_room:
  assumes "tb_room L K" and "k \<in> K"
  shows "tb_allow k t L =
    (let (ok, b) = tb_decide (tb_config L) (jm_get (tb_buckets L) k) t in (ok, tb_touchEntry k b L))"
  using tb_enforce_room [OF tb_touch_room [OF assms]]
  by (simp add: tb_allow_def tb_decide_def Let_def split: option.splits)

interpretation tb: keyed_limiter tb_allow "\<lambda>L. jm_get (tb_buckets L)" tb_config tb_decide tb_room
proof unfold_locales
  fix k :: string and t L K
  show "fst (tb_allow k t L) = fst (tb_decide (tb_config L) (jm_get (tb_buckets L) k) t)"
    by (simp add: tb_allow_def tb_decide_def Let_def split: option.splits)
  show "tb_config (snd (tb_allow k t L)) = tb_config L"
    by (simp add: tb_allow_def tb_touchEntry_def tb_enforceMaxBuckets_def tb_config_def Let_def split: option.splits)
  assume room: "tb_room L K" "k \<in> K"
  show "jm_get (tb_buckets (snd (tb_allow k t L))) =
      (jm_get (tb_buckets L))(k \<mapsto> snd (tb_decide (tb_config L) (jm_get (tb_buckets L) k) t))"
    by (auto simp: tb_allow_room [OF room] tb_touchEntry_def fun_eq_iff split: prod.splits)
  show "tb_room (snd (tb_allow k t L)) K"
    by (auto simp: tb_allow_room [OF room] tb_touch_room [OF room] split: prod.splits)
qed

section \<open>Rate bounds\<close>

lemma fw_decide_simps:
  "fw_decide cfg None t = (True, \<lparr>count = 1, windowStartMs = t\<rparr>)"
  "fw_decide cfg (Some b) t =
     (if t - windowStartMs b \<ge> snd cfg then (True, \<lparr>count = 1, windowStartMs = t\<rparr>)
      else if count b \<ge> fst cfg then (False, b) else (True, b\<lparr>count := count b + 1\<rparr>))"
  by (simp_all add: fw_decide_def)

lemma tb_decide_simps:
  "tb_decide cfg None t = (True, \<lparr>tokens = capacity cfg - 1, lastRefillMs = t\<rparr>)"
  "tb_decide cfg (Some b) t =
     (let b = tb_refill cfg b t in
      if tokens b < 1 then (False, b) else (True, b\<lparr>tokens := tokens b - 1\<rparr>))"
  by (simp_all add: tb_decide_def)

text \<open>
  Fixed window: inside one window a bucket grants at most \<open>maxPerWindow\<close> calls, so any stretch of
  time shorter than a window (which meets at most two windows) sees at most twice that.
\<close>

lemma fw_granted_same_window:
  assumes "\<forall>t \<in> set ts. t - windowStartMs b < w" and "count b \<le> mx"
  shows "int (granted1 (fw_decide (mx, w)) (Some b) ts) \<le> mx - count b"
  using assms
proof (induction ts arbitrary: b)
  case Nil
  then show ?case by simp
next
  case (Cons t ts)
  show ?case
  proof (cases "count b \<ge> mx")
    case True
    with Cons.IH [of b] Cons.prems show ?thesis by (simp add: fw_decide_simps)
  next
    case False
    with Cons.IH [of "b\<lparr>count := count b + 1\<rparr>"] Cons.prems show ?thesis
      by (simp add: fw_decide_simps)
  qed
qed

lemma fw_granted_short_stretch:
  assumes "\<forall>t \<in> set ts. a \<le> t \<and> t < a + w" and "count b \<le> mx" and "0 \<le> count b" and "1 \<le> mx"
  shows "int (granted1 (fw_decide (mx, w)) (Some b) ts) \<le> 2 * mx - count b"
  using assms
proof (induction ts arbitrary: b)
  case Nil
  then show ?case by simp
next
  case (Cons t ts)
  consider (new) "t - windowStartMs b \<ge> w" | (full) "t - windowStartMs b < w" "count b \<ge> mx"
    | (room) "t - windowStartMs b < w" "count b < mx" by linarith
  then show ?case
  proof cases
    case new
    have "\<forall>u \<in> set ts. u - t < w" using Cons.prems(1) by force
    then have "int (granted1 (fw_decide (mx, w)) (Some \<lparr>count = 1, windowStartMs = t\<rparr>) ts) \<le> mx - 1"
      using fw_granted_same_window [of ts "\<lparr>count = 1, windowStartMs = t\<rparr>" w mx] Cons.prems(4) by simp
    with new Cons.prems show ?thesis by (simp add: fw_decide_simps)
  next
    case full
    with Cons.IH [of b] Cons.prems show ?thesis by (simp add: fw_decide_simps)
  next
    case room
    with Cons.IH [of "b\<lparr>count := count b + 1\<rparr>"] Cons.prems show ?thesis
      by (simp add: fw_decide_simps)
  qed
qed

lemma fw_granted_short_stretch_opt:
  assumes "\<forall>t \<in> set ts. a \<le> t \<and> t < a + w" and "1 \<le> mx"
    and "\<And>b. ob = Some b \<Longrightarrow> 0 \<le> count b \<and> count b \<le> mx"
  shows "int (granted1 (fw_decide (mx, w)) ob ts) \<le> 2 * mx"
proof (cases ob)
  case (Some b)
  with fw_granted_short_stretch [OF assms(1), of b mx] assms(2,3) show ?thesis by force
next
  case None
  show ?thesis
  proof (cases ts)
    case (Cons t ts')
    have "\<forall>u \<in> set ts'. u - t < w" using assms(1) Cons by force
    then have "int (granted1 (fw_decide (mx, w)) (Some \<lparr>count = 1, windowStartMs = t\<rparr>) ts') \<le> mx - 1"
      using fw_granted_same_window [of ts' "\<lparr>count = 1, windowStartMs = t\<rparr>" w mx] assms(2) by simp
    with assms(2) show ?thesis by (simp add: None Cons fw_decide_simps)
  qed (use assms(2) in simp)
qed

text \<open>Token bucket: grants plus tokens in hand never exceed the initial tokens plus what time has
  refilled. The potential argument is one step of the machine.\<close>

definition tb_sane :: "token_limiter \<Rightarrow> bool" where
  "tb_sane L \<longleftrightarrow> 1 \<le> capacity L \<and> 0 \<le> refillPerMs L"

lemma tb_decide_step:
  assumes "tb_sane L" and "0 \<le> tokens b" and "tokens b \<le> capacity L"
    and "lastRefillMs b \<le> t" and "tb_decide L (Some b) t = (ok, b')"
  shows "0 \<le> tokens b'" and "tokens b' \<le> capacity L" and "lastRefillMs b' = t"
    and "of_nat (if ok then 1 else 0) + tokens b'
           \<le> tokens b + of_int (t - lastRefillMs b) * refillPerMs L"
proof -
  have gain: "0 \<le> of_int (t - lastRefillMs b) * refillPerMs L"
    using assms(1,4) by (simp add: tb_sane_def)
  show "0 \<le> tokens b'" "tokens b' \<le> capacity L" "lastRefillMs b' = t"
    using assms gain
    by (auto simp: tb_decide_simps tb_refill_def tb_sane_def Let_def split: if_splits)
  show "of_nat (if ok then 1 else 0) + tokens b'
           \<le> tokens b + of_int (t - lastRefillMs b) * refillPerMs L"
    using assms gain
    by (auto simp: tb_decide_simps tb_refill_def tb_sane_def Let_def split: if_splits)
qed

lemma tb_granted_rate:
  assumes "tb_sane L" and "0 \<le> tokens b" and "tokens b \<le> capacity L"
    and "sorted (lastRefillMs b # ts)" and "\<forall>t \<in> set ts. t \<le> e" and "lastRefillMs b \<le> e"
  shows "of_nat (granted1 (tb_decide L) (Some b) ts)
           \<le> tokens b + of_int (e - lastRefillMs b) * refillPerMs L"
  using assms(2-)
proof (induction ts arbitrary: b)
  case Nil
  then show ?case using assms(1) by (simp add: tb_sane_def)
next
  case (Cons t ts)
  obtain ok b' where step: "tb_decide L (Some b) t = (ok, b')" by force
  have "lastRefillMs b \<le> t" using Cons.prems by simp
  note s = tb_decide_step [OF assms(1) Cons.prems(1,2) this step]
  have "of_nat (granted1 (tb_decide L) (Some b') ts)
          \<le> tokens b' + of_int (e - lastRefillMs b') * refillPerMs L"
    using Cons.prems s by (intro Cons.IH) auto
  then have "of_nat (granted1 (tb_decide L) (Some b) (t # ts))
          \<le> of_nat (if ok then 1 else 0) + tokens b' + of_int (e - t) * refillPerMs L"
    using s by (simp add: step)
  also have "\<dots> \<le> tokens b + of_int (e - lastRefillMs b) * refillPerMs L"
    using s(4) by (simp add: algebra_simps)
  finally show ?case .
qed

lemma tb_granted_rate_fresh:
  assumes "tb_sane L" and "sorted ts" and "\<forall>t \<in> set ts. a \<le> t \<and> t \<le> e" and "a \<le> e"
  shows "of_nat (granted1 (tb_decide L) None ts) \<le> capacity L + of_int (e - a) * refillPerMs L"
proof (cases ts)
  case Nil
  then show ?thesis using assms by (simp add: tb_sane_def)
next
  case (Cons t ts')
  let ?b = "\<lparr>tokens = capacity L - 1, lastRefillMs = t\<rparr>"
  have "of_nat (granted1 (tb_decide L) (Some ?b) ts') \<le> tokens ?b + of_int (e - lastRefillMs ?b) * refillPerMs L"
    using assms Cons by (intro tb_granted_rate) (auto simp: tb_sane_def)
  moreover have "of_int (e - t) * refillPerMs L \<le> of_int (e - a) * refillPerMs L"
    using assms Cons by (intro mult_right_mono) (auto simp: tb_sane_def)
  ultimately show ?thesis by (simp add: Cons tb_decide_simps)
qed

section \<open>Bounded memory\<close>

text \<open>The invariant of a limiter's map: distinct keys, and no more of them than \<open>maxBuckets\<close>.\<close>

definition within_cap :: "nat option \<Rightarrow> ('k, 'v) js_map \<Rightarrow> bool" where
  "within_cap cap m \<longleftrightarrow> (case cap of None \<Rightarrow> True | Some n \<Rightarrow> jm_size m \<le> n)"

definition fw_inv :: "fixed_window \<Rightarrow> bool" where
  "fw_inv L \<longleftrightarrow> jm_wf (fw_buckets L) \<and> within_cap (fw_maxBuckets L) (fw_buckets L)"

definition tb_inv :: "token_limiter \<Rightarrow> bool" where
  "tb_inv L \<longleftrightarrow> jm_wf (tb_buckets L) \<and> within_cap (tb_maxBuckets L) (tb_buckets L)"

lemma within_cap_None [simp]: "within_cap None m"
  by (simp add: within_cap_def)

lemma within_cap_touch:
  "jm_wf m \<Longrightarrow> within_cap cap m \<Longrightarrow> jm_get m k \<noteq> None \<Longrightarrow> within_cap cap (jm_touch k v m)"
  by (auto simp: within_cap_def jm_size_touch split: option.splits)

lemma fw_allow_inv: "fw_inv L \<Longrightarrow> fw_inv (snd (fw_allow key now L))"
  by (auto simp: fw_inv_def fw_allow_def fw_touchEntry_def fw_enforceMaxBuckets_def
           intro!: within_cap_touch split: option.splits)
     (auto simp: within_cap_def)

lemma tb_allow_inv: "tb_inv L \<Longrightarrow> tb_inv (snd (tb_allow key now L))"
  by (auto simp: tb_inv_def tb_allow_def tb_touchEntry_def tb_enforceMaxBuckets_def Let_def
           intro!: within_cap_touch split: option.splits)
     (auto simp: within_cap_def)

lemma fw_sweepStale_inv: "fw_inv L \<Longrightarrow> fw_inv (fw_sweepStale now L)"
  by (auto simp: fw_inv_def fw_sweepStale_def fw_enforceMaxBuckets_def within_cap_def split: option.splits)

lemma tb_sweepStale_inv: "tb_inv L \<Longrightarrow> tb_inv (tb_sweepStale now L)"
  by (auto simp: tb_inv_def tb_sweepStale_def tb_enforceMaxBuckets_def within_cap_def Let_def split: option.splits)

lemma limiter_new_inv [simp]: "fw_inv (fw_new mx w cap)" "tb_inv (tb_new c w' cap)"
  by (simp_all add: fw_inv_def fw_new_def tb_inv_def tb_new_def within_cap_def split: option.splits)

text \<open>Eviction spares the key just served: with room for one key, the verdict's own bucket is kept,
  so a caller cannot be reset by the call that counted it.\<close>

lemma jm_touch_snoc: "jm_touch k v m = jm_delete k m @ [(k, v)]"
proof -
  have "jm_set k v n = n @ [(k, v)]" if "k \<notin> fst ` set n" for n :: "('a \<times> 'b) list"
    using that by (induction n) auto
  then show ?thesis by (force simp: jm_touch_def)
qed

lemma evict_gt_keeps_last:
  assumes "jm_wf m" and "1 \<le> cap" and "m = n @ [(k, v)]"
  shows "jm_get (evict_gt cap m) k = Some v"
proof -
  have "(k, v) \<in> set (evict_gt cap m)"
    using assms by (cases "length n < cap") (auto simp: evict_gt_eq)
  then show ?thesis using jm_get_wf [OF evict_gt_wf [OF assms(1)]] by blast
qed

section \<open>Properties\<close>



text \<open>The fixed-window limiter grants a key at most \<open>2 * maxPerWindow\<close> calls in any stretch of
  time shorter than its window (the burst at a window boundary included), whatever the other keys
  do, starting from any state in which the key's bucket holds a legal count.\<close>

theorem fixed_window_burst:
  assumes "fw_room L (fst ` set calls)" and "1 \<le> maxPerWindow L"
    and "\<And>b. jm_get (fw_buckets L) k = Some b \<Longrightarrow> 0 \<le> count b \<and> count b \<le> maxPerWindow L"
    and "\<forall>t \<in> set (own_times k calls). a \<le> t \<and> t < a + windowMs L"
  shows "int (granted fw_allow k L calls) \<le> 2 * maxPerWindow L"
  using fw_granted_short_stretch_opt [OF assms(4,2,3)] fw.granted_isolated [OF assms(1), of calls k]
  by simp

theorem fixed_window_burst_witness:
  "granted fw_allow ''a'' (snd (fw_allow ''a'' 0 (fw_new 2 100 (Some 2))))
     [(''a'', 90), (''a'', 95), (''b'', 95), (''a'', 100), (''a'', 110), (''a'', 120)] = 3
   \<and> int 3 \<le> 2 * 2"
proof -
  let ?L = "snd (fw_allow ''a'' 0 (fw_new 2 100 (Some 2)))"
  let ?calls = "[(''a'', 90), (''a'', 95), (''b'', 95), (''a'', 100), (''a'', 110), (''a'', 120)]"
  have g: "granted fw_allow ''a'' ?L ?calls = 3"
    by code_simp
  have "int (granted fw_allow ''a'' ?L ?calls) \<le> 2 * maxPerWindow ?L"
    by (rule fixed_window_burst [where a = 90])
       (simp_all add: fw_new_def fw_allow_def fw_touchEntry_def fw_enforceMaxBuckets_def
          own_times_def jm_get_def jm_touch_def jm_delete_def room_for_def jm_wf_def jm_keys_def evict_gt.simps card_insert_if)
  then show ?thesis unfolding g
    by (simp add: fw_allow_frame fw_new_def)
qed

end
