(* ===== verification/Relay_Context.thy ===== *)
theory Relay_Context
  imports Relay_Registry Relay_Admission Rate_Limiters
begin

text \<open>
  What the relay's handlers share: metrics (metrics.ts), the redacting logger (logger.ts), the relay's
  state, and the socket helpers of index.ts (\<open>safeSend\<close>, \<open>closeWithReason\<close>, heartbeats, connection
  counts per address, gauges).

  The state gathers what the process keeps: the registry, the six limiters, the maps keyed by
  socket, the counters, the log, and for each socket with handlers installed the variables its
  handlers close over (\<open>conn\<close>). The world outside is explicit: \<open>readyState\<close> and \<open>bufferedAmount\<close> are
  what the WebSocket library reports, \<open>out\<close> lists what the relay asked of it, of the backplane and of
  the HTTP client, and \<open>tasks\<close> are the handlers suspended at an \<open>await\<close>.
\<close>

section \<open>Logger\<close>

datatype log_level = Info | Warn | Error

record log_entry =
  ts :: int
  level :: log_level
  event :: string
  details :: json

text \<open>\<open>SENSITIVE_KEY_PATTERN\<close>: an unanchored, case-insensitive alternation.\<close>

definition sensitive_words :: "string list" where
  "sensitive_words =
     [''authorization'', ''credential'', ''token'', ''secret'', ''password'',
      ''apikey'', ''api_key'', ''api-key'', ''privatekey'', ''private_key'', ''private-key'',
      ''signature'', ''payload'', ''body'', ''content'', ''frame'', ''message'']"

definition SENSITIVE_KEY_PATTERN :: "string \<Rightarrow> bool" where
  "SENSITIVE_KEY_PATTERN k \<longleftrightarrow> list_ex (str_includes (toLowerCase k)) sensitive_words"

fun redactLogValue :: "json \<Rightarrow> json" where
  "redactLogValue (JArr xs) = JArr (map redactLogValue xs)"
| "redactLogValue (JObj kvs) =
     JObj (map (\<lambda>kv. (fst kv, if SENSITIVE_KEY_PATTERN (fst kv) then JStr ''[redacted]''
                              else redactLogValue (snd kv))) kvs)"
| "redactLogValue v = v"

text \<open>\<open>push\<close>: append, then cut the log back to \<open>maxLogs\<close> entries from the front.\<close>

definition log_push :: "nat \<Rightarrow> int \<Rightarrow> log_level \<Rightarrow> string \<Rightarrow> obj \<Rightarrow> log_entry list \<Rightarrow> log_entry list" where
  "log_push maxLogs now lvl ev det logs =
     (let logs' = logs @ [\<lparr>ts = now, level = lvl, event = ev, details = redactLogValue (JObj det)\<rparr>] in
      if length logs' > maxLogs then drop (length logs' - maxLogs) logs' else logs')"

section \<open>Configuration and state\<close>

record relay_config =
  relayMode :: relay_mode
  relayId :: string
  serverUrl :: string
  publicWsBaseUrl :: string
  maxLogs :: nat
  maxFrameBytes :: nat
  maxPendingBytes :: nat
  maxTotalConnections :: nat
  maxConnectionsPerIp :: int
  maxClientsPerWorkspace :: nat
  maxPairingRequestTrack :: nat
  maxSessionOwnerTrack :: nat
  pongTimeoutMs :: int
  idleTimeoutMs :: int
  emptyWorkspaceTtlMs :: int
  clientRedirectEnabled :: bool
  presenceSyncEnabled :: bool
  busEnabled :: bool

datatype ready_state = CONNECTING | OPEN | CLOSING | CLOSED

text \<open>What is written to a socket or to the bus: a text passed on as it came, or \<open>JSON.stringify\<close> of
  an object the relay built.\<close>

datatype wire = Text string | Stringify json

datatype effect =
    Sent ws wire
  | Closed ws nat string
  | Terminated ws
  | Ping ws
  | PublishDaemonToClients string string "string option" string "string option"
  | PublishClientToDaemon string string "string option" string string
  | UpsertPresence string bool "string option" "string option"
  | Fetch string string "(string \<times> string) list" "string option"
  | UpgradeRefused ws "nat option"

record heartbeat =
  awaitingPong :: bool
  lastPongAt :: int
  pingSentAt :: int
  hb_lastActivityAt :: int

record conn =
  c_role :: role
  c_workspaceId :: string
  c_scopeKey :: string
  c_runtimeTargetId :: "string option"
  c_machineId :: "string option"
  c_ip :: string
  c_claims :: "claims option"
  c_clientId :: string
  c_clientScope :: scope

record runtime_target =
  rt_workspaceId :: string
  rt_runtimeTargetId :: string
  rt_machineId :: "string option"
  rt_clientId :: string
  rt_payload :: string

record worker_call =
  wc_requestId :: string
  wc_workspaceId :: string
  wc_managedExecutorId :: string
  wc_method :: string
  wc_path :: string

text \<open>A frame of the bus between relays (\<open>RelayBusFrame\<close>).\<close>

datatype direction = Client_to_daemon | Daemon_to_clients

record bus_frame =
  bf_id :: int
  bf_workspaceId :: string
  bf_runtimeTargetId :: string
  bf_machineId :: "string option"
  bf_sourceRelayId :: string
  bf_targetRelayId :: "string option"
  bf_direction :: direction
  bf_payload :: string
  bf_issuedAtMs :: "rat option"
  bf_signature :: "string option"

definition direction_name :: "direction \<Rightarrow> string" where
  "direction_name d = (case d of Client_to_daemon \<Rightarrow> ''client_to_daemon'' | Daemon_to_clients \<Rightarrow> ''daemon_to_clients'')"

record upgrade =
  up_role :: role
  up_workspaceId :: string
  up_runtimeTargetId :: "string option"
  up_ip :: string

text \<open>A handler suspended at an \<open>await\<close>, with the variables it still needs: the fetch of a worker
  request; the two awaits of \<open>routeClientMessageWithoutLocalDaemon\<close> (the second with the relay the
  frame goes to); and the two awaits of the upgrade handler (the second with the admitted claims).\<close>

datatype task =
    AwaitFetch ws worker_call
  | AwaitPresence ws runtime_target
  | AwaitPublish ws runtime_target string
  | AwaitAdmission ws upgrade string
  | AwaitRedirect ws upgrade "claims option"

record relay =
  registry :: registry
  readyState :: "ws \<Rightarrow> ready_state"
  bufferedAmount :: "ws \<Rightarrow> nat"
  counters :: "(string, nat) js_map"
  gauges :: "(string, nat) js_map"
  wsIp :: "ws \<Rightarrow> string option"
  wsWorkspace :: "ws \<Rightarrow> string option"
  wsRole :: "ws \<Rightarrow> role option"
  wsHeartbeatState :: "ws \<Rightarrow> heartbeat option"
  ipConnectionCounts :: "(string, int) js_map"
  upgradeLimiter :: fixed_window
  kexFrameLimiter :: fixed_window
  pairingFrameLimiter :: fixed_window
  runtimeClientLimiter :: token_limiter
  runtimeWorkspaceLimiter :: token_limiter
  daemonFrameLimiter :: token_limiter
  conns :: "ws \<Rightarrow> conn option"
  tasks :: "task list"
  out :: "effect list"
  logs :: "log_entry list"

section \<open>Helpers of the handlers\<close>

definition increment :: "string \<Rightarrow> nat \<Rightarrow> relay \<Rightarrow> relay" where
  "increment name delta r =
     r\<lparr>counters := jm_set name ((case jm_get (counters r) name of Some n \<Rightarrow> n | None \<Rightarrow> 0) + delta) (counters r)\<rparr>"

definition setGauge :: "string \<Rightarrow> nat \<Rightarrow> relay \<Rightarrow> relay" where
  "setGauge name v r = r\<lparr>gauges := jm_set name v (gauges r)\<rparr>"

definition logger_info :: "relay_config \<Rightarrow> int \<Rightarrow> string \<Rightarrow> obj \<Rightarrow> relay \<Rightarrow> relay" where
  "logger_info cfg now ev det r = r\<lparr>logs := log_push (maxLogs cfg) now Info ev det (logs r)\<rparr>"

definition logger_warn :: "relay_config \<Rightarrow> int \<Rightarrow> string \<Rightarrow> obj \<Rightarrow> relay \<Rightarrow> relay" where
  "logger_warn cfg now ev det r = r\<lparr>logs := log_push (maxLogs cfg) now Warn ev det (logs r)\<rparr>"

definition logger_error :: "relay_config \<Rightarrow> int \<Rightarrow> string \<Rightarrow> obj \<Rightarrow> relay \<Rightarrow> relay" where
  "logger_error cfg now ev det r = r\<lparr>logs := log_push (maxLogs cfg) now Error ev det (logs r)\<rparr>"

definition emit :: "effect \<Rightarrow> relay \<Rightarrow> relay" where
  "emit e r = r\<lparr>out := out r @ [e]\<rparr>"

definition addTask :: "task \<Rightarrow> relay \<Rightarrow> relay" where
  "addTask t r = r\<lparr>tasks := tasks r @ [t]\<rparr>"

text \<open>\<open>ws.close(code, reason)\<close> moves an open socket to CLOSING at once; its close event comes later.\<close>

definition closeWithReason :: "ws \<Rightarrow> nat \<Rightarrow> string \<Rightarrow> relay \<Rightarrow> relay" where
  "closeWithReason s code reason r =
     emit (Closed s code reason)
       (if readyState r s = OPEN then r\<lparr>readyState := (readyState r)(s := CLOSING)\<rparr> else r)"

definition terminateWithReason :: "relay_config \<Rightarrow> int \<Rightarrow> ws \<Rightarrow> string \<Rightarrow> relay \<Rightarrow> relay" where
  "terminateWithReason cfg now s reason r =
     (let r1 = logger_warn cfg now ''ws_terminated'' [(''reason'', JStr reason)] r in
      emit (Terminated s) (r1\<lparr>readyState := (readyState r1)(s := CLOSING)\<rparr>))"

definition adjustIpConnectionCount :: "string \<Rightarrow> int \<Rightarrow> relay \<Rightarrow> relay" where
  "adjustIpConnectionCount ip delta r =
     (let nxt = (case jm_get (ipConnectionCounts r) ip of Some n \<Rightarrow> n | None \<Rightarrow> 0) + delta in
      if nxt \<le> 0 then r\<lparr>ipConnectionCounts := jm_delete ip (ipConnectionCounts r)\<rparr>
      else r\<lparr>ipConnectionCounts := jm_set ip nxt (ipConnectionCounts r)\<rparr>)"

definition updateGauges :: "relay \<Rightarrow> relay" where
  "updateGauges r =
     (let r1 = setGauge ''relay_connections_total'' (totalConnectionCount (registry r)) r in
      setGauge ''relay_workspaces_total'' (jm_size (registry r1)) r1)"

definition safeSend :: "relay_config \<Rightarrow> ws \<Rightarrow> wire \<Rightarrow> relay \<Rightarrow> bool \<times> relay" where
  "safeSend cfg s payload r =
     (if readyState r s \<noteq> OPEN then (False, r)
      else if bufferedAmount r s > maxPendingBytes cfg
      then (False, closeWithReason s 4008 ''buffer overflow''
                     (increment ''relay_ws_slow_client_terminated_total'' 1 r))
      else (True, emit (Sent s payload) r))"

definition setupHeartbeat :: "int \<Rightarrow> ws \<Rightarrow> relay \<Rightarrow> relay" where
  "setupHeartbeat now s r =
     r\<lparr>wsHeartbeatState := (wsHeartbeatState r)(s \<mapsto>
         \<lparr>awaitingPong = False, lastPongAt = now, pingSentAt = 0, hb_lastActivityAt = now\<rparr>)\<rparr>"

definition handlePong :: "int \<Rightarrow> ws \<Rightarrow> relay \<Rightarrow> relay" where
  "handlePong now s r =
     (case wsHeartbeatState r s of None \<Rightarrow> r
      | Some hb \<Rightarrow> r\<lparr>wsHeartbeatState := (wsHeartbeatState r)(s \<mapsto>
           hb\<lparr>awaitingPong := False, lastPongAt := now, hb_lastActivityAt := now\<rparr>)\<rparr>)"

definition markWsActivity :: "int \<Rightarrow> ws \<Rightarrow> relay \<Rightarrow> relay" where
  "markWsActivity now s r =
     (case wsHeartbeatState r s of None \<Rightarrow> r
      | Some hb \<Rightarrow> r\<lparr>wsHeartbeatState := (wsHeartbeatState r)(s \<mapsto> hb\<lparr>hb_lastActivityAt := now\<rparr>)\<rparr>)"

section \<open>Facts about the logger\<close>

text \<open>\<open>leaks v\<close>: somewhere in \<open>v\<close> a sensitive key holds something other than the redaction mark.\<close>

fun leaks :: "json \<Rightarrow> bool" where
  "leaks (JArr xs) = list_ex leaks xs"
| "leaks (JObj kvs) =
     list_ex (\<lambda>kv. (SENSITIVE_KEY_PATTERN (fst kv) \<and> snd kv \<noteq> JStr ''[redacted]'') \<or> leaks (snd kv)) kvs"
| "leaks v = False"

lemma redact_no_leaks: "\<not> leaks (redactLogValue v)"
  by (induction v rule: redactLogValue.induct) (auto simp: list_ex_iff)

lemma redact_idem: "redactLogValue (redactLogValue v) = redactLogValue v"
  by (induction v rule: redactLogValue.induct) auto

lemma log_push_length: "length ls \<le> n \<Longrightarrow> length (log_push n now lvl ev det ls) \<le> n"
  by (auto simp: log_push_def Let_def)

lemma log_push_mem:
  "e \<in> set (log_push n now lvl ev det ls) \<Longrightarrow> e \<in> set ls \<or> details e = redactLogValue (JObj det)"
  by (auto simp: log_push_def Let_def simp del: redactLogValue.simps split: if_splits dest!: in_set_dropD)

section \<open>What the helpers leave alone\<close>

named_theorems relay_frame \<open>fields a helper does not change\<close>

lemma increment_frame [simp, relay_frame]:
  "registry (increment n d r) = registry r" "readyState (increment n d r) = readyState r"
  "conns (increment n d r) = conns r" "out (increment n d r) = out r" "tasks (increment n d r) = tasks r"
  "ipConnectionCounts (increment n d r) = ipConnectionCounts r" "logs (increment n d r) = logs r"
  "bufferedAmount (increment n d r) = bufferedAmount r"
  by (simp_all add: increment_def)

lemma setGauge_frame [simp, relay_frame]:
  "registry (setGauge n v r) = registry r" "readyState (setGauge n v r) = readyState r"
  "conns (setGauge n v r) = conns r" "out (setGauge n v r) = out r" "tasks (setGauge n v r) = tasks r"
  "ipConnectionCounts (setGauge n v r) = ipConnectionCounts r" "logs (setGauge n v r) = logs r"
  by (simp_all add: setGauge_def)

lemma updateGauges_frame [simp, relay_frame]:
  "registry (updateGauges r) = registry r" "readyState (updateGauges r) = readyState r"
  "conns (updateGauges r) = conns r" "out (updateGauges r) = out r" "tasks (updateGauges r) = tasks r"
  "ipConnectionCounts (updateGauges r) = ipConnectionCounts r" "logs (updateGauges r) = logs r"
  by (simp_all add: updateGauges_def Let_def)

lemma logger_frame [simp, relay_frame]:
  "registry (logger_info c t e d r) = registry r" "readyState (logger_info c t e d r) = readyState r"
  "conns (logger_info c t e d r) = conns r" "out (logger_info c t e d r) = out r"
  "tasks (logger_info c t e d r) = tasks r"
  "ipConnectionCounts (logger_info c t e d r) = ipConnectionCounts r"
  "registry (logger_warn c t e d r) = registry r" "readyState (logger_warn c t e d r) = readyState r"
  "conns (logger_warn c t e d r) = conns r" "out (logger_warn c t e d r) = out r"
  "tasks (logger_warn c t e d r) = tasks r"
  "ipConnectionCounts (logger_warn c t e d r) = ipConnectionCounts r"
  "registry (logger_error c t e d r) = registry r" "readyState (logger_error c t e d r) = readyState r"
  "conns (logger_error c t e d r) = conns r" "out (logger_error c t e d r) = out r"
  "tasks (logger_error c t e d r) = tasks r"
  "ipConnectionCounts (logger_error c t e d r) = ipConnectionCounts r"
  by (simp_all add: logger_info_def logger_warn_def logger_error_def)

lemma emit_frame [simp, relay_frame]:
  "registry (emit e r) = registry r" "readyState (emit e r) = readyState r"
  "conns (emit e r) = conns r" "out (emit e r) = out r @ [e]" "tasks (emit e r) = tasks r"
  "ipConnectionCounts (emit e r) = ipConnectionCounts r"
  by (simp_all add: emit_def)

lemma addTask_frame [simp, relay_frame]:
  "registry (addTask t r) = registry r" "readyState (addTask t r) = readyState r"
  "conns (addTask t r) = conns r" "out (addTask t r) = out r" "tasks (addTask t r) = tasks r @ [t]"
  "ipConnectionCounts (addTask t r) = ipConnectionCounts r"
  by (simp_all add: addTask_def)

lemma closeWithReason_frame [simp, relay_frame]:
  "registry (closeWithReason s c m r) = registry r" "conns (closeWithReason s c m r) = conns r"
  "out (closeWithReason s c m r) = out r @ [Closed s c m]" "tasks (closeWithReason s c m r) = tasks r"
  "ipConnectionCounts (closeWithReason s c m r) = ipConnectionCounts r"
  by (simp_all add: closeWithReason_def)

lemma markWsActivity_frame [simp, relay_frame]:
  "registry (markWsActivity t s r) = registry r" "readyState (markWsActivity t s r) = readyState r"
  "conns (markWsActivity t s r) = conns r" "out (markWsActivity t s r) = out r"
  "tasks (markWsActivity t s r) = tasks r"
  "ipConnectionCounts (markWsActivity t s r) = ipConnectionCounts r"
  by (simp_all add: markWsActivity_def split: option.splits)

lemma setupHeartbeat_frame [simp, relay_frame]:
  "registry (setupHeartbeat t s r) = registry r" "readyState (setupHeartbeat t s r) = readyState r"
  "conns (setupHeartbeat t s r) = conns r" "out (setupHeartbeat t s r) = out r"
  "tasks (setupHeartbeat t s r) = tasks r"
  "ipConnectionCounts (setupHeartbeat t s r) = ipConnectionCounts r"
  by (simp_all add: setupHeartbeat_def)

lemma adjustIp_frame [simp, relay_frame]:
  "registry (adjustIpConnectionCount ip d r) = registry r"
  "readyState (adjustIpConnectionCount ip d r) = readyState r"
  "conns (adjustIpConnectionCount ip d r) = conns r" "out (adjustIpConnectionCount ip d r) = out r"
  "tasks (adjustIpConnectionCount ip d r) = tasks r"
  by (simp_all add: adjustIpConnectionCount_def Let_def)

lemma safeSend_frame [simp, relay_frame]:
  "registry (snd (safeSend cfg s p r)) = registry r" "conns (snd (safeSend cfg s p r)) = conns r"
  "tasks (snd (safeSend cfg s p r)) = tasks r"
  "ipConnectionCounts (snd (safeSend cfg s p r)) = ipConnectionCounts r"
  by (simp_all add: safeSend_def)

section \<open>Properties\<close>

text \<open>No secret reaches the log. Whatever object a handler logs, in the entry the logger stores every
  property whose name matches the sensitive-key pattern holds the redaction mark, at every depth of
  nested objects and arrays; and the log never holds more than \<open>maxLogs\<close> entries.\<close>

theorem logger_redacts:
  assumes "length ls \<le> n" and "e \<in> set (log_push n now lvl ev det ls)"
  shows "length (log_push n now lvl ev det ls) \<le> n \<and> (e \<in> set ls \<or> \<not> leaks (details e))"
  using log_push_length [OF assms(1)] log_push_mem [OF assms(2)] redact_no_leaks by metis

theorem logger_redacts_witness:
  "let e = \<lparr>ts = 5, level = Warn, event = ''x'',
            details = JObj [(''ip'', JStr ''::1''), (''nested'', JObj [(''relayToken'', JStr ''[redacted]'')])]\<rparr>
   in log_push 1 5 Warn ''x'' [(''ip'', JStr ''::1''), (''nested'', JObj [(''relayToken'', JStr ''hunter2'')])] [] = [e]
      \<and> \<not> leaks (details e)"
proof -
  let ?e = "\<lparr>ts = 5, level = Warn, event = ''x'',
            details = JObj [(''ip'', JStr ''::1''), (''nested'', JObj [(''relayToken'', JStr ''[redacted]'')])]\<rparr>"
  have p: "log_push 1 5 Warn ''x'' [(''ip'', JStr ''::1''), (''nested'', JObj [(''relayToken'', JStr ''hunter2'')])] [] = [?e]"
    by code_simp
  have "length ([] :: log_entry list) \<le> 1" by simp
  from logger_redacts [OF this, of ?e 5 Warn "''x''"
      "[(''ip'', JStr ''::1''), (''nested'', JObj [(''relayToken'', JStr ''hunter2'')])]"] p
  show ?thesis by (simp only: p Let_def) simp
qed

end
