(* ===== verification/Relay_Routing.thy ===== *)
theory Relay_Routing
  imports Relay_Context
begin

text \<open>
  Routing (services/relay/src/relay-routing.ts and relay-runtime-routing.ts): what the relay does
  with each frame of a worker, a daemon, a client or the bus, with a new connection and with a
  closed one.

  Every function takes the configuration and \<open>now\<close> (one reading of \<open>Date.now()\<close> per event) and
  returns the relay after it. A handler's captured \<open>state\<close> object is the registry entry under its
  scope key: a state leaves the registry only when it has neither daemon nor clients, so a handler
  that still runs finds its own object there. The limiters are the ones index.ts always passes; the
  fallbacks of \<open>resolve...Limiters\<close> for contexts without limiters are not modelled. A chain of early
  returns is a chain of \<open>if\<close>.
\<close>

section \<open>State access\<close>

text \<open>\<open>registry.getOrCreate(scopeKey, { workspaceId, runtimeTargetId })\<close> followed by a mutation \<open>f\<close> of
  the state it returns.\<close>

definition open_state ::
    "string \<Rightarrow> string \<Rightarrow> string option \<Rightarrow> int \<Rightarrow> (workspace_state \<Rightarrow> workspace_state) \<Rightarrow> relay \<Rightarrow> workspace_state \<times> relay" where
  "open_state key wid target now f r =
     (let (st, reg) = getOrCreate key (Some \<lparr>md_workspaceId = Some wid, md_runtimeTargetId = target\<rparr>) now (registry r);
          st' = f st
      in (st', r\<lparr>registry := jm_set key st' reg\<rparr>))"

text \<open>A later mutation of that state.\<close>

definition upd_state :: "string \<Rightarrow> (workspace_state \<Rightarrow> workspace_state) \<Rightarrow> relay \<Rightarrow> relay" where
  "upd_state key f r = r\<lparr>registry := reg_update key f (registry r)\<rparr>"

definition is_open :: "relay \<Rightarrow> ws option \<Rightarrow> bool" where
  "is_open r s = (case s of Some x \<Rightarrow> readyState r x = OPEN | None \<Rightarrow> False)"

definition pruneStale :: "int \<Rightarrow> workspace_state \<Rightarrow> workspace_state" where
  "pruneStale now st =
     pruneStaleSessionOwners now (pruneStaleKeyExchangeRequests now (pruneStalePairingRequests now st))"

section \<open>Frames for an owner\<close>

text \<open>The tail that \<open>routeSessionOwnedFrame\<close>, \<open>routeKeyExchangeResponse\<close> and \<open>routePairingResponse\<close>
  share: to the owner's open socket, else over the bus, else dropped. The result says whether the
  frame was routed; the three metric names come from the caller.\<close>

definition deliverToOwner ::
    "relay_config \<Rightarrow> string \<Rightarrow> string option \<Rightarrow> owner \<Rightarrow> string \<Rightarrow> string \<Rightarrow> string \<Rightarrow> string \<Rightarrow> relay \<Rightarrow> bool \<times> relay" where
  "deliverToOwner cfg wid target ow text mLocal mBus mDropped r =
     (if is_open r (clientWs ow) then
        (True, increment mLocal 1 (snd (safeSend cfg (the (clientWs ow)) (Text text) r)))
      else if truthy (sourceRelayId ow) \<and> truthy target then
        (True, increment mBus 1
                 (emit (PublishDaemonToClients wid (the target) None text (sourceRelayId ow)) r))
      else (False, increment mDropped 1 r))"

definition routeSessionOwnedFrame ::
    "relay_config \<Rightarrow> int \<Rightarrow> string \<Rightarrow> string \<Rightarrow> string \<Rightarrow> string \<Rightarrow> relay \<Rightarrow> bool \<times> relay" where
  "routeSessionOwnedFrame cfg now wid scopeKey sessionId text r =
     (let (st, r1) = open_state scopeKey wid None now (pruneStaleSessionOwners now) r in
      case jm_get (sessionOwners st) sessionId of
        None \<Rightarrow> (False, increment ''relay_session_frame_dropped_total'' 1 r1)
      | Some ow \<Rightarrow>
          deliverToOwner cfg wid (runtimeTargetId st) ow text ''relay_session_frame_routed_local_total''
            ''relay_session_frame_routed_bus_total'' ''relay_session_frame_dropped_total'' r1)"

text \<open>The next two always return true, which no caller reads; here they return the relay alone.\<close>

definition routeKeyExchangeResponse ::
    "relay_config \<Rightarrow> int \<Rightarrow> string \<Rightarrow> string \<Rightarrow> string \<Rightarrow> obj \<Rightarrow> relay \<Rightarrow> relay" where
  "routeKeyExchangeResponse cfg now wid scopeKey text parsedFrame r =
     (let requestId = trimmedField parsedFrame ''requestId'';
          sessionId = trimmedField parsedFrame ''sessionId''
      in if requestId = [] \<or> sessionId = [] then increment ''relay_key_exchange_response_dropped_total'' 1 r
         else
           let (st, r1) = open_state scopeKey wid None now (pruneStaleKeyExchangeRequests now) r in
           case jm_get (keyExchangeRequests st) requestId of
             None \<Rightarrow>
               logger_warn cfg now ''key_exchange_response_owner_missing''
                 [(''workspaceId'', JStr wid), (''requestId'', JStr requestId), (''sessionId'', JStr sessionId)]
                 (increment ''relay_key_exchange_response_dropped_total'' 1 r1)
           | Some ow \<Rightarrow>
               let r2 = upd_state scopeKey
                     (\<lambda>s. trackSessionOwner
                            (s\<lparr>keyExchangeRequests := jm_delete requestId (keyExchangeRequests s)\<rparr>)
                            sessionId (ow\<lparr>createdAt := now\<rparr>) (maxSessionOwnerTrack cfg)) r1
               in snd (deliverToOwner cfg wid (runtimeTargetId st) ow text
                         ''relay_key_exchange_response_routed_local_total''
                         ''relay_key_exchange_response_routed_bus_total''
                         ''relay_key_exchange_response_dropped_total'' r2))"

definition routePairingResponse ::
    "relay_config \<Rightarrow> int \<Rightarrow> string \<Rightarrow> string \<Rightarrow> string \<Rightarrow> obj \<Rightarrow> relay \<Rightarrow> relay" where
  "routePairingResponse cfg now wid scopeKey text parsedFrame r =
     (let (st, r1) = open_state scopeKey wid None now (pruneStalePairingRequests now) r in
      if \<not> truthy (extractPairingRequestId parsedFrame)
      then increment ''relay_pairing_response_dropped_total'' 1 r1
      else
        let requestId = the (extractPairingRequestId parsedFrame) in
        case jm_get (pairingRequests st) requestId of
          None \<Rightarrow>
            logger_warn cfg now ''pairing_response_owner_missing''
              [(''workspaceId'', JStr wid), (''requestId'', JStr requestId)]
              (increment ''relay_pairing_response_dropped_total'' 1 r1)
        | Some ow \<Rightarrow>
            let r2 = upd_state scopeKey
                  (\<lambda>s. s\<lparr>pairingRequests := jm_delete requestId (pairingRequests s)\<rparr>) r1
            in snd (deliverToOwner cfg wid (runtimeTargetId st) ow text
                      ''relay_pairing_response_routed_local_total''
                      ''relay_pairing_response_routed_bus_total''
                      ''relay_pairing_response_dropped_total'' r2))"

section \<open>Session events\<close>

definition sessionEventChannels :: "claims option \<Rightarrow> string list" where
  "sessionEventChannels cl =
     filter (\<lambda>c. startsWith c ''agent-session:'')
       (map trim (case Option.bind cl cl_sessionChannels of Some cs \<Rightarrow> cs | None \<Rightarrow> []))"

text \<open>The loop over a channel's subscribers: how many sends succeeded.\<close>

fun fanOut :: "relay_config \<Rightarrow> string \<Rightarrow> ws list \<Rightarrow> relay \<Rightarrow> nat \<times> relay" where
  "fanOut cfg text [] r = (0, r)"
| "fanOut cfg text (client # subscribers) r =
     (if readyState r client \<noteq> OPEN then fanOut cfg text subscribers r
      else let (sent, r1) = safeSend cfg client (Text text) r;
               (n, r2) = fanOut cfg text subscribers r1
           in (if sent then n + 1 else n, r2))"

definition routeSessionEventRelayFrame ::
    "relay_config \<Rightarrow> int \<Rightarrow> string \<Rightarrow> string \<Rightarrow> string \<Rightarrow> obj \<Rightarrow> relay \<Rightarrow> bool \<times> relay" where
  "routeSessionEventRelayFrame cfg now wid scopeKey text parsedFrame r =
     (let channel = trimmedField parsedFrame ''channel'' in
      if channel = [] then (False, increment ''relay_session_event_frame_dropped_total'' 1 r)
      else
        let (st, r1) = open_state scopeKey wid None now id r in
        case jm_get (sessionEventSubscribers st) channel of
          None \<Rightarrow> (False, increment ''relay_session_event_frame_dropped_total'' 1 r1)
        | Some subscribers \<Rightarrow>
            if subscribers = [] then (False, increment ''relay_session_event_frame_dropped_total'' 1 r1)
            else
              let (delivered, r2) = fanOut cfg text subscribers r1 in
              if delivered = 0 then (False, increment ''relay_session_event_frame_dropped_total'' 1 r2)
              else (True, increment ''relay_session_event_frame_delivered_total'' delivered r2))"

text \<open>\<open>!limiters.byClient.allow(clientId) || !limiters.byWorkspace.allow(workspaceId)\<close>: the workspace's
  bucket is charged only when the client's was granted.\<close>

definition runtimeAllow :: "int \<Rightarrow> string \<Rightarrow> string \<Rightarrow> relay \<Rightarrow> bool \<times> relay" where
  "runtimeAllow now clId wid r =
     (let (ok1, l1) = tb_allow clId now (runtimeClientLimiter r);
          r1 = r\<lparr>runtimeClientLimiter := l1\<rparr>
      in if \<not> ok1 then (False, r1)
         else let (ok2, l2) = tb_allow wid now (runtimeWorkspaceLimiter r1)
              in (ok2, r1\<lparr>runtimeWorkspaceLimiter := l2\<rparr>))"

definition channelDenied :: "string \<Rightarrow> string \<Rightarrow> string \<Rightarrow> wire" where
  "channelDenied typ channel wid =
     Stringify (JObj [(''type'', JStr typ), (''channel'', JStr channel),
                      (''reason'', JStr ''CHANNEL_NOT_AUTHORIZED''), (''workspaceId'', JStr wid)])"

definition routeSessionViewerPresenceFrame ::
    "relay_config \<Rightarrow> int \<Rightarrow> ws \<Rightarrow> string \<Rightarrow> string \<Rightarrow> claims option \<Rightarrow> string \<Rightarrow> string \<Rightarrow> obj \<Rightarrow> relay \<Rightarrow> relay" where
  "routeSessionViewerPresenceFrame cfg now s wid scopeKey cl clId text parsedFrame r =
     (let channel = trimmedField parsedFrame ''channel'' in
      if channel = [] \<or> channel \<notin> set (sessionEventChannels cl) then
        snd (safeSend cfg s (channelDenied ''viewport.session_viewer_presence_denied/v1'' channel wid)
               (increment ''relay_session_viewer_presence_rejected_total'' 1 r))
      else
        let (allowed, r1) = runtimeAllow now clId wid r in
        if \<not> allowed then
          closeWithReason s 4008 ''presence rate limit exceeded''
            (increment ''relay_session_viewer_presence_rate_limited_total'' 1 r1)
        else
          let (st, r2) = open_state scopeKey wid None now id r1;
              subscribers = (case jm_get (sessionEventSubscribers st) channel of Some subs \<Rightarrow> subs | None \<Rightarrow> []);
              (delivered, r3) = fanOut cfg text (filter (\<lambda>x. x \<noteq> s) subscribers) r2
          in if delivered > 0 then increment ''relay_session_viewer_presence_fanned_total'' delivered r3
             else increment ''relay_session_viewer_presence_no_peers_total'' 1 r3)"

definition subscribe :: "string \<Rightarrow> ws \<Rightarrow> workspace_state \<Rightarrow> workspace_state" where
  "subscribe channel s st =
     st\<lparr>sessionEventSubscribers :=
          jm_set channel
            (set_add s (case jm_get (sessionEventSubscribers st) channel of Some subs \<Rightarrow> subs | None \<Rightarrow> []))
            (sessionEventSubscribers st)\<rparr>"

definition unsubscribe :: "string \<Rightarrow> ws \<Rightarrow> workspace_state \<Rightarrow> workspace_state" where
  "unsubscribe channel s st =
     (case jm_get (sessionEventSubscribers st) channel of
        None \<Rightarrow> st
      | Some subs \<Rightarrow>
          let subs' = set_delete s subs in
          st\<lparr>sessionEventSubscribers :=
               (if subs' = [] then jm_delete channel (sessionEventSubscribers st)
                else jm_set channel subs' (sessionEventSubscribers st))\<rparr>)"

definition handleSessionEventClientFrame ::
    "relay_config \<Rightarrow> int \<Rightarrow> ws \<Rightarrow> string \<Rightarrow> string \<Rightarrow> claims option \<Rightarrow> obj \<Rightarrow> relay \<Rightarrow> relay" where
  "handleSessionEventClientFrame cfg now s wid scopeKey cl parsedFrame r =
     (let channel = trimmedField parsedFrame ''channel'' in
      if channel = [] \<or> channel \<notin> set (sessionEventChannels cl) then
        snd (safeSend cfg s (channelDenied ''viewport.session_events.subscribe_denied/v1'' channel wid)
               (increment ''relay_session_event_subscribe_rejected_total'' 1 r))
      else if isSessionEventSubscribeFrame parsedFrame then
        let (st, r1) = open_state scopeKey wid None now (subscribe channel s) r in
        snd (safeSend cfg s
               (Stringify (JObj
                 [(''type'', JStr ''viewport.session_events.subscribed/v1''),
                  (''channel'', JStr channel),
                  (''afterSequence'',
                     JNum (case as_int (field parsedFrame ''afterSequence'') of Some i \<Rightarrow> of_int i | None \<Rightarrow> 0)),
                  (''authoritativeSource'', JStr ''session_events''),
                  (''websocketRequiredForBackfill'', JBool False)]))
               (increment ''relay_session_event_subscribed_total'' 1 r1))
      else if isSessionEventUnsubscribeFrame parsedFrame then
        let (st, r1) = open_state scopeKey wid None now (unsubscribe channel s) r in
        snd (safeSend cfg s
               (Stringify (JObj [(''type'', JStr ''viewport.session_events.unsubscribed/v1''),
                                 (''channel'', JStr channel)]))
               (increment ''relay_session_event_unsubscribed_total'' 1 r1))
      else snd (open_state scopeKey wid None now id r))"

section \<open>Worker requests\<close>

definition stringValue :: "string option \<Rightarrow> string option" where
  "stringValue v = (case v of Some s \<Rightarrow> if trim s \<noteq> [] then Some (trim s) else None | None \<Rightarrow> None)"

definition hidden_response_headers :: "string list" where
  "hidden_response_headers = [''authorization'', ''set-cookie'', ''cookie'']"

definition responseHeaders :: "(string \<times> string) list \<Rightarrow> (string, string) js_map" where
  "responseHeaders hs =
     fold (\<lambda>(key, v) result.
             let normalized = toLowerCase key in
             if normalized \<in> set hidden_response_headers then result else jm_set normalized v result) hs []"

definition forwarded_headers :: "string list" where
  "forwarded_headers =
     [''authorization'', ''accept'', ''content-type'', ''x-viewport-run-lease'', ''x-viewport-assignment-claim'',
      ''x-viewport-worker-fingerprint'', ''x-viewport-worker-timestamp'', ''x-viewport-worker-nonce'',
      ''x-viewport-worker-body-sha256'', ''x-viewport-worker-signature'', ''x-viewport-server-id'']"

definition filteredWorkerHeaders :: "json option \<Rightarrow> (string, string) js_map" where
  "filteredWorkerHeaders v =
     (case v of
        Some (JObj ob) \<Rightarrow>
          fold (\<lambda>(key, raw) result.
                  case raw of
                    JStr s \<Rightarrow> if toLowerCase key \<in> set forwarded_headers then jm_set key s result else result
                  | _ \<Rightarrow> result) ob []
      | _ \<Rightarrow> [])"

definition workerPathPrefix :: "string \<Rightarrow> string \<Rightarrow> string" where
  "workerPathPrefix wid managedExecutorId =
     ''/api/runtime/workspaces/'' @ encodeURIComponent wid @ ''/managed-executors/'' @
     encodeURIComponent managedExecutorId"

definition workerRequestPathAllowed :: "string \<Rightarrow> string \<Rightarrow> string \<Rightarrow> bool" where
  "workerRequestPathAllowed path wid managedExecutorId \<longleftrightarrow>
     path = workerPathPrefix wid managedExecutorId \<or>
     startsWith path (workerPathPrefix wid managedExecutorId @ ''/'')"

text \<open>
  What \<open>new URL(path, serverUrl).pathname\<close> makes of an absolute path (the path state of the WHATWG URL
  standard, which Node implements): query and fragment are cut off, a backslash counts as a slash,
  a single-dot segment disappears and a double-dot segment removes the one before it, also where the dots
  are percent-encoded. Percent-encoding of other characters is left out.
\<close>

definition single_dot :: "string \<Rightarrow> bool" where
  "single_dot seg \<longleftrightarrow> toLowerCase seg \<in> set [''.'', ''%2e'']"

definition double_dot :: "string \<Rightarrow> bool" where
  "double_dot seg \<longleftrightarrow> toLowerCase seg \<in> set [''..'', ''.%2e'', ''%2e.'', ''%2e%2e'']"

fun url_segments :: "string list \<Rightarrow> string list \<Rightarrow> string list" where
  "url_segments acc [] = rev acc"
| "url_segments acc (seg # rest) =
     (if double_dot seg then url_segments (if rest = [] then [] # tl acc else tl acc) rest
      else if single_dot seg then url_segments (if rest = [] then [] # acc else acc) rest
      else url_segments (seg # acc) rest)"

definition url_pathname :: "string \<Rightarrow> string" where
  "url_pathname path =
     (let p = takeWhile (\<lambda>c. c \<noteq> CHR ''?'' \<and> c \<noteq> CHR ''#'') path;
          segs = splitOn CHR ''/'' (map (\<lambda>c. if c = CHR 0x5C then CHR ''/'' else c) p)
      in ''/'' @ join ''/'' (url_segments [] (tl segs)))"

definition workerResponse :: "string \<Rightarrow> int \<Rightarrow> (string \<times> string) list \<Rightarrow> string \<Rightarrow> wire" where
  "workerResponse requestId status headers body =
     Stringify (JObj [(''type'', JStr ''viewport.worker_transport.response/v1''), (''requestId'', JStr requestId),
                      (''status'', JNum (of_int status)),
                      (''headers'', JObj (map (\<lambda>(k, v). (k, JStr v)) headers)), (''body'', JStr body)])"

text \<open>Up to the \<open>fetch\<close>; the URL is \<open>new URL(path, serverUrl)\<close>, the effect keeps its first argument. The
  frame has passed \<open>isAllowedWorkerTransportRequestFrame\<close>, so the three properties are strings.\<close>

definition forwardWorkerTransportRequest ::
    "relay_config \<Rightarrow> ws \<Rightarrow> string \<Rightarrow> claims option \<Rightarrow> obj \<Rightarrow> relay \<Rightarrow> relay" where
  "forwardWorkerTransportRequest cfg s wid cl frame r =
     (let str = (\<lambda>k. case as_str (field frame k) of Some v \<Rightarrow> v | None \<Rightarrow> []);
          requestId = str ''requestId''; meth = str ''method''; requestPath = str ''path''
      in case stringValue (Option.bind cl cl_managedExecutorId) of
           Some managedExecutorId \<Rightarrow>
             if workerRequestPathAllowed requestPath wid managedExecutorId then
               addTask (AwaitFetch s \<lparr>wc_requestId = requestId, wc_workspaceId = wid,
                                      wc_managedExecutorId = managedExecutorId, wc_method = meth,
                                      wc_path = requestPath\<rparr>)
                 (emit (Fetch meth requestPath (filteredWorkerHeaders (field frame ''headers''))
                         (if meth = ''GET'' then None else Some (str ''body''))) r)
             else
               snd (safeSend cfg s
                      (workerResponse requestId 403 [(''content-type'', ''application/json'')]
                         ''{\"ok\":false,\"reason\":\"WORKER_TRANSPORT_PATH_DENIED\"}'')
                      (increment ''relay_worker_transport_rejected_total'' 1 r))
         | None \<Rightarrow>
             snd (safeSend cfg s
                    (workerResponse requestId 403 [(''content-type'', ''application/json'')]
                       ''{\"ok\":false,\"reason\":\"WORKER_TRANSPORT_PATH_DENIED\"}'')
                    (increment ''relay_worker_transport_rejected_total'' 1 r)))"

text \<open>The rest of it: the fetch failed with a message, or answered with status, headers and body.\<close>

type_synonym fetch_outcome = "string + int \<times> (string \<times> string) list \<times> string"

definition finishWorkerTransportRequest ::
    "relay_config \<Rightarrow> int \<Rightarrow> ws \<Rightarrow> worker_call \<Rightarrow> fetch_outcome \<Rightarrow> relay \<Rightarrow> relay" where
  "finishWorkerTransportRequest cfg now s wc outcome r =
     (case outcome of
        Inr (status, headers, body) \<Rightarrow>
          snd (safeSend cfg s (workerResponse (wc_requestId wc) status (responseHeaders headers) body)
                 (increment ''relay_worker_transport_forwarded_total'' 1 r))
      | Inl message \<Rightarrow>
          snd (safeSend cfg s
                 (workerResponse (wc_requestId wc) 502 [(''content-type'', ''application/json'')]
                    ''{\"ok\":false,\"reason\":\"WORKER_TRANSPORT_FORWARD_FAILED\"}'')
                 (logger_warn cfg now ''worker_transport_forward_failed''
                    [(''workspaceId'', JStr (wc_workspaceId wc)),
                     (''managedExecutorId'', JStr (wc_managedExecutorId wc)),
                     (''method'', JStr (wc_method wc)), (''path'', JStr (wc_path wc)), (''error'', JStr message)]
                    (increment ''relay_worker_transport_forward_failed_total'' 1 r))))"

section \<open>Clients without a local daemon\<close>

text \<open>\<open>routeClientMessageWithoutLocalDaemon\<close>, cut at its two awaits. \<open>resolvePresence\<close> answers with the
  preferred relay's id, base URL and whether the daemon is connected there.\<close>

record presence =
  pr_relayId :: string
  pr_relayWsBaseUrl :: string
  pr_daemonConnected :: bool

definition routeClientMessageWithoutLocalDaemon ::
    "relay_config \<Rightarrow> int \<Rightarrow> ws \<Rightarrow> string \<Rightarrow> string option \<Rightarrow> string option \<Rightarrow> string \<Rightarrow> string \<Rightarrow> relay \<Rightarrow> relay" where
  "routeClientMessageWithoutLocalDaemon cfg now s wid target machine clId payload r =
     (if \<not> truthy target then
        logger_warn cfg now ''client_message_dropped''
          [(''workspaceId'', JStr wid), (''clientId'', JStr clId), (''reason'', JStr ''missing_runtime_target'')]
          (snd (safeSend cfg s (Stringify (missingRuntimeTargetPayload wid))
                  (increment ''relay_client_messages_dropped_total'' 1 r)))
      else addTask (AwaitPresence s \<lparr>rt_workspaceId = wid, rt_runtimeTargetId = the target, rt_machineId = machine,
                                     rt_clientId = clId, rt_payload = payload\<rparr>) r)"

definition daemonUnavailable :: "relay_config \<Rightarrow> int \<Rightarrow> ws \<Rightarrow> runtime_target \<Rightarrow> relay \<Rightarrow> relay" where
  "daemonUnavailable cfg now s t r =
     logger_warn cfg now ''client_message_dropped''
       ([(''workspaceId'', JStr (rt_workspaceId t)), (''clientId'', JStr (rt_clientId t)),
         (''runtimeTargetId'', JStr (rt_runtimeTargetId t))]
        @ opt_field ''machineId'' (rt_machineId t) @ [(''reason'', JStr ''daemon_unavailable'')])
       (snd (safeSend cfg s
               (Stringify (relayStatusPayload (rt_workspaceId t) (Some (rt_runtimeTargetId t)) (rt_machineId t)))
               (increment ''relay_client_messages_dropped_total'' 1 r)))"

definition presenceResolved ::
    "relay_config \<Rightarrow> int \<Rightarrow> ws \<Rightarrow> runtime_target \<Rightarrow> presence option \<Rightarrow> relay \<Rightarrow> relay" where
  "presenceResolved cfg now s t preferred r =
     (case preferred of
        Some p \<Rightarrow>
          if pr_daemonConnected p \<and> pr_relayId p \<noteq> relayId cfg then
            let r1 = (if clientRedirectEnabled cfg
                      then snd (safeSend cfg s
                             (Stringify (relayRedirectPayload (rt_workspaceId t) (pr_relayWsBaseUrl p)
                                           (Some (rt_runtimeTargetId t)))) r)
                      else r)
            in addTask (AwaitPublish s t (pr_relayId p))
                 (emit (PublishClientToDaemon (rt_workspaceId t) (rt_runtimeTargetId t) (rt_machineId t)
                          (rt_payload t) (pr_relayId p)) r1)
          else daemonUnavailable cfg now s t r
      | None \<Rightarrow> daemonUnavailable cfg now s t r)"

definition publishCompleted ::
    "relay_config \<Rightarrow> int \<Rightarrow> ws \<Rightarrow> runtime_target \<Rightarrow> string \<Rightarrow> bool \<Rightarrow> relay \<Rightarrow> relay" where
  "publishCompleted cfg now s t targetRelayId published r =
     (if published then
        logger_info cfg now ''client_message_routed_bus''
          [(''workspaceId'', JStr (rt_workspaceId t)), (''clientId'', JStr (rt_clientId t)),
           (''targetRelayId'', JStr targetRelayId)]
          (increment ''relay_client_messages_routed_bus_total'' 1 r)
      else daemonUnavailable cfg now s t r)"

section \<open>Frames from the bus\<close>

definition busRejected :: "relay_config \<Rightarrow> int \<Rightarrow> bus_frame \<Rightarrow> string \<Rightarrow> relay \<Rightarrow> relay" where
  "busRejected cfg now fr reason r =
     logger_warn cfg now ''bus_frame_rejected''
       [(''workspaceId'', JStr (bf_workspaceId fr)), (''direction'', JStr (direction_name (bf_direction fr))),
        (''reason'', JStr reason)] r"

text \<open>The requests a client frame of the bus registers with their source relay.\<close>

definition trackBusRequests :: "relay_config \<Rightarrow> int \<Rightarrow> bus_frame \<Rightarrow> obj \<Rightarrow> workspace_state \<Rightarrow> workspace_state" where
  "trackBusRequests cfg now fr parsed st =
     (let ow = \<lparr>clientWs = None, sourceRelayId = Some (bf_sourceRelayId fr), createdAt = now\<rparr>;
          kexId = trimmedField parsed ''requestId'';
          st1 = (if isKeyExchangeInitFrame parsed \<and> kexId \<noteq> []
                 then trackKeyExchangeRequest st kexId ow (maxPairingRequestTrack cfg) else st)
      in if isPairingClientFrame parsed \<and> truthy (extractPairingRequestId parsed)
         then trackPairingRequest st1 (the (extractPairingRequestId parsed)) ow (maxPairingRequestTrack cfg)
         else st1)"

definition routeBusClientFrame :: "relay_config \<Rightarrow> int \<Rightarrow> string \<Rightarrow> bus_frame \<Rightarrow> relay \<Rightarrow> relay" where
  "routeBusClientFrame cfg now scopeKey fr r =
     (if \<not> isAllowedClientFrame (bf_payload fr) then
        busRejected cfg now fr ''invalid_client_frame'' (increment ''relay_bus_frames_rejected_total'' 1 r)
      else
        let r1 = (case parseFramePayload (bf_payload fr) of
                    Some parsed \<Rightarrow> upd_state scopeKey (trackBusRequests cfg now fr parsed) r
                  | None \<Rightarrow> r);
            dm = Option.bind (jm_get (registry r1) scopeKey) daemon
        in if is_open r1 dm then
             increment ''relay_bus_frames_to_daemon_total'' 1
               (snd (safeSend cfg (the dm) (Text (bf_payload fr)) r1))
           else increment ''relay_bus_frames_dropped_total'' 1 r1)"

definition daemonAllow :: "int \<Rightarrow> string \<Rightarrow> relay \<Rightarrow> bool \<times> relay" where
  "daemonAllow now wid r =
     (let (ok, l) = tb_allow wid now (daemonFrameLimiter r) in (ok, r\<lparr>daemonFrameLimiter := l\<rparr>))"

definition countRouted :: "bool \<times> relay \<Rightarrow> relay" where
  "countRouted res = (if fst res then increment ''relay_bus_frames_to_clients_total'' 1 (snd res) else snd res)"

definition routeBusDaemonFrame :: "relay_config \<Rightarrow> int \<Rightarrow> string \<Rightarrow> bus_frame \<Rightarrow> relay \<Rightarrow> relay" where
  "routeBusDaemonFrame cfg now scopeKey fr r =
     (let wid = bf_workspaceId fr; text = bf_payload fr in
      if \<not> isAllowedDaemonFrame text then
        busRejected cfg now fr ''invalid_daemon_frame'' (increment ''relay_bus_frames_rejected_total'' 1 r)
      else
        let (allowed, r1) = daemonAllow now wid r in
        if \<not> allowed then
          busRejected cfg now fr ''daemon_rate_limit'' (increment ''relay_bus_frames_daemon_rate_limited_total'' 1 r1)
        else
          let unroutable = busRejected cfg now fr ''unroutable_daemon_frame''
                             (increment ''relay_bus_frames_rejected_total'' 1 r1)
          in case parseFramePayload text of
               None \<Rightarrow> unroutable
             | Some parsed \<Rightarrow>
                 if isKeyExchangeResponseFrame parsed then
                   increment ''relay_bus_frames_to_clients_total'' 1
                     (routeKeyExchangeResponse cfg now wid scopeKey text parsed r1)
                 else if isPairingDaemonFrame parsed then
                   increment ''relay_bus_frames_to_clients_total'' 1
                     (routePairingResponse cfg now wid scopeKey text parsed r1)
                 else if isSessionEventRelayFrame parsed then
                   countRouted (routeSessionEventRelayFrame cfg now wid scopeKey text parsed r1)
                 else
                   (case as_str (field parsed ''sessionId'') of
                      Some sid \<Rightarrow>
                        if isE2eeEnvelope parsed \<or> isKeyUpdateRequiredFrame parsed
                        then countRouted (routeSessionOwnedFrame cfg now wid scopeKey sid text r1)
                        else unroutable
                    | None \<Rightarrow> unroutable))"

definition routeBusFrame :: "relay_config \<Rightarrow> int \<Rightarrow> bus_frame \<Rightarrow> relay \<Rightarrow> relay" where
  "routeBusFrame cfg now fr r =
     (if bf_runtimeTargetId fr = [] then
        busRejected cfg now fr ''missing_runtime_target'' (increment ''relay_bus_frames_rejected_total'' 1 r)
      else
        let scopeKey = runtimeScopeKey (bf_workspaceId fr) (Some (bf_runtimeTargetId fr));
            (st, r1) = open_state scopeKey (bf_workspaceId fr) (Some (bf_runtimeTargetId fr)) now
                         (\<lambda>s. pruneStale now (s\<lparr>lastActivityAt := now\<rparr>)) r
        in (case bf_direction fr of
              Client_to_daemon \<Rightarrow> routeBusClientFrame cfg now scopeKey fr r1
            | Daemon_to_clients \<Rightarrow> routeBusDaemonFrame cfg now scopeKey fr r1))"

end
