(* ===== verification/Relay_Connections.thy ===== *)
theory Relay_Connections
  imports Relay_Routing
begin

text \<open>
  The life of a connection (\<open>registerConnection\<close> of relay-routing.ts): admission of a socket as worker,
  daemon or client, its \<open>message\<close>, \<open>close\<close> and \<open>error\<close> handlers. The variables that the handlers close
  over are the socket's \<open>conn\<close> record; installing the handlers stores it in \<open>conns\<close>.
\<close>

section \<open>Registration\<close>

definition profileStrength :: "e2ee_profile \<Rightarrow> nat" where
  "profileStrength p = (if p = Noise_ikpsk2 then 2 else 1)"

text \<open>The lines every accepted role runs: the three weak maps, the address count, the heartbeat and
  the metric, and then the installation of the handlers.\<close>

definition acceptConnection :: "int \<Rightarrow> ws \<Rightarrow> conn \<Rightarrow> relay \<Rightarrow> relay" where
  "acceptConnection now s c r =
     (let r1 = r\<lparr>wsIp := (wsIp r)(s \<mapsto> c_ip c), wsWorkspace := (wsWorkspace r)(s \<mapsto> c_workspaceId c),
                 wsRole := (wsRole r)(s \<mapsto> c_role c)\<rparr>;
          r2 = increment ''relay_ws_connections_opened_total'' 1
                 (setupHeartbeat now s (adjustIpConnectionCount (c_ip c) 1 r1))
      in r2\<lparr>conns := (conns r2)(s \<mapsto> c)\<rparr>)"

definition registerWorker :: "relay_config \<Rightarrow> int \<Rightarrow> ws \<Rightarrow> conn \<Rightarrow> relay \<Rightarrow> relay" where
  "registerWorker cfg now s c r =
     updateGauges
       (logger_info cfg now ''worker_connected''
          ([(''workspaceId'', JStr (c_workspaceId c))]
           @ opt_field ''managedExecutorId'' (Option.bind (c_claims c) cl_managedExecutorId)
           @ [(''ip'', JStr (c_ip c))])
          (acceptConnection now s c r))"

definition claimedGeneration :: "claims option \<Rightarrow> int option" where
  "claimedGeneration cl =
     (case Option.bind cl cl_daemonIssueGeneration of
        Some g \<Rightarrow> if g \<ge> 0 then Some g else None | None \<Rightarrow> None)"

definition becomeDaemon :: "ws \<Rightarrow> int option \<Rightarrow> workspace_state \<Rightarrow> workspace_state" where
  "becomeDaemon s gen st =
     st\<lparr>daemon := Some s,
        daemonIssueGeneration := (if gen \<noteq> None then gen else daemonIssueGeneration st),
        keyExchangeRequests := [], sessionOwners := []\<rparr>"

definition registerDaemon :: "relay_config \<Rightarrow> int \<Rightarrow> ws \<Rightarrow> conn \<Rightarrow> workspace_state \<Rightarrow> relay \<Rightarrow> relay" where
  "registerDaemon cfg now s c st r =
     (let gen = claimedGeneration (c_claims c); wid = c_workspaceId c; ip = c_ip c in
      if gen \<noteq> None \<and> daemonIssueGeneration st \<noteq> None \<and> the gen < the (daemonIssueGeneration st) then
        closeWithReason s 4008 ''stale daemon generation''
          (logger_warn cfg now ''daemon_connection_rejected''
             [(''workspaceId'', JStr wid), (''ip'', JStr ip), (''reason'', JStr ''stale_daemon_issue_generation''),
              (''claimGeneration'', JNum (of_int (the gen))),
              (''latestGeneration'', JNum (of_int (the (daemonIssueGeneration st))))]
             (increment ''relay_ws_connections_rejected_total'' 1 r))
      else if is_open r (daemon st) then
        closeWithReason s 4008 ''daemon already connected''
          (logger_warn cfg now ''daemon_connection_rejected''
             [(''workspaceId'', JStr wid), (''ip'', JStr ip), (''reason'', JStr ''daemon_already_connected'')]
             (increment ''relay_ws_connections_rejected_total'' 1 r))
      else
        updateGauges
          (logger_info cfg now ''daemon_connected''
             ([(''workspaceId'', JStr wid)] @ opt_field ''runtimeTargetId'' (c_runtimeTargetId c)
              @ opt_field ''machineId'' (c_machineId c) @ [(''ip'', JStr ip)])
             (emit (UpsertPresence wid True (c_runtimeTargetId c) (c_machineId c))
                (upd_state (c_scopeKey c) (becomeDaemon s gen) (acceptConnection now s c r)))))"

definition registerClient :: "relay_config \<Rightarrow> int \<Rightarrow> ws \<Rightarrow> conn \<Rightarrow> relay \<Rightarrow> relay" where
  "registerClient cfg now s c r =
     updateGauges
       (logger_info cfg now ''client_connected''
          [(''workspaceId'', JStr (c_workspaceId c)), (''clientId'', JStr (c_clientId c)), (''ip'', JStr (c_ip c))]
          (upd_state (c_scopeKey c)
             (\<lambda>st. st\<lparr>clients := jm_set s \<lparr>clientId = c_clientId c, connectedAt = now\<rparr> (clients st)\<rparr>)
             (acceptConnection now s c r)))"

definition registerConnection ::
    "relay_config \<Rightarrow> int \<Rightarrow> ws \<Rightarrow> role \<Rightarrow> string \<Rightarrow> string option \<Rightarrow> string \<Rightarrow> claims option \<Rightarrow> relay \<Rightarrow> relay" where
  "registerConnection cfg now s role wid requested ip cl r =
     (case resolveConnectionAdmission role wid requested ip cl of
        Rejected logEvent reason closeReason logDetails sendMissingRuntimeTarget \<Rightarrow>
          let r1 = logger_warn cfg now logEvent logDetails
                     (increment ''relay_ws_connections_rejected_total'' 1 r);
              r2 = (if sendMissingRuntimeTarget
                    then snd (safeSend cfg s (Stringify (missingRuntimeTargetPayload wid)) r1) else r1)
          in closeWithReason s 4008 closeReason r2
      | Admitted clientScopeClaim target machine \<Rightarrow>
          let scopeKey = runtimeScopeKey wid target;
              (st, r1) = open_state scopeKey wid target now
                           (\<lambda>x. pruneStale now (x\<lparr>lastActivityAt := now\<rparr>)) r;
              c = \<lparr>c_role = role, c_workspaceId = wid, c_scopeKey = scopeKey, c_runtimeTargetId = target,
                   c_machineId = machine, c_ip = ip, c_claims = cl,
                   c_clientId = (case Option.bind cl cl_clientId of Some i \<Rightarrow> i | None \<Rightarrow> ''client_unknown''),
                   c_clientScope = (case clientScopeClaim of
                                      Some Pairing \<Rightarrow> Pairing | Some Session_events \<Rightarrow> Session_events | _ \<Rightarrow> Runtime)\<rparr>
          in case role of
               Worker \<Rightarrow> registerWorker cfg now s c r1
             | Workspace_daemon \<Rightarrow> registerDaemon cfg now s c st r1
             | Client \<Rightarrow> registerClient cfg now s c r1)"

section \<open>Messages of workers and daemons\<close>

definition workerMessage :: "relay_config \<Rightarrow> int \<Rightarrow> ws \<Rightarrow> conn \<Rightarrow> string \<Rightarrow> relay \<Rightarrow> relay" where
  "workerMessage cfg now s c text r0 =
     (let wid = c_workspaceId c;
          (allowed, r) = daemonAllow now wid (markWsActivity now s r0);
          rejected = logger_warn cfg now ''worker_frame_rejected''
                       [(''workspaceId'', JStr wid), (''reason'', JStr ''invalid_worker_transport_frame'')]
                       (increment ''relay_frames_daemon_rejected_total'' 1 r)
      in if \<not> allowed then
           closeWithReason s 4008 ''worker rate limit exceeded''
             (logger_warn cfg now ''worker_frame_rate_limited''
                [(''workspaceId'', JStr wid), (''ip'', JStr (c_ip c))]
                (increment ''relay_frames_daemon_rate_limited_total'' 1 r))
         else if byteLength text > maxFrameBytes cfg then
           closeWithReason s 1009 ''frame too large'' (increment ''relay_ws_frame_too_large_total'' 1 r)
         else
           (case parseFramePayload text of
              None \<Rightarrow> rejected
            | Some parsed \<Rightarrow>
                if isAllowedWorkerTransportRequestFrame parsed
                then forwardWorkerTransportRequest cfg s wid (c_claims c) parsed r
                else rejected))"

definition profile_name :: "e2ee_profile \<Rightarrow> string" where
  "profile_name p = (case p of Noise_ik \<Rightarrow> ''noise-ik'' | Noise_ikpsk2 \<Rightarrow> ''noise-ikpsk2'')"

definition expectedProfile :: "conn \<Rightarrow> e2ee_profile option" where
  "expectedProfile c = Option.bind (c_claims c) cl_e2eeProfile"

definition profileTooWeak :: "e2ee_profile option \<Rightarrow> e2ee_profile option \<Rightarrow> bool" where
  "profileTooWeak expected got \<longleftrightarrow>
     expected \<noteq> None \<and> got \<noteq> None \<and> profileStrength (the got) < profileStrength (the expected)"

definition countToClients :: "nat \<Rightarrow> relay \<Rightarrow> relay" where
  "countToClients bytes r =
     increment ''relay_bytes_daemon_to_clients_total'' bytes (increment ''relay_frames_daemon_to_clients_total'' 1 r)"

definition routeDaemonFrame :: "relay_config \<Rightarrow> int \<Rightarrow> conn \<Rightarrow> string \<Rightarrow> obj \<Rightarrow> relay \<Rightarrow> relay" where
  "routeDaemonFrame cfg now c text parsed r =
     (let wid = c_workspaceId c; scopeKey = c_scopeKey c; bytes = byteLength text;
          unroutable = logger_warn cfg now ''daemon_frame_rejected''
                         [(''workspaceId'', JStr wid), (''reason'', JStr ''unroutable_daemon_frame'')]
                         (countToClients bytes r)
      in if isPairingDaemonFrame parsed then
           countToClients bytes (routePairingResponse cfg now wid scopeKey text parsed r)
         else if isKeyExchangeResponseFrame parsed then
           countToClients bytes (routeKeyExchangeResponse cfg now wid scopeKey text parsed r)
         else
           (case as_str (field parsed ''sessionId'') of
              Some sid \<Rightarrow>
                if isE2eeEnvelope parsed \<or> isKeyUpdateRequiredFrame parsed
                then countToClients bytes (snd (routeSessionOwnedFrame cfg now wid scopeKey sid text r))
                else unroutable
            | None \<Rightarrow> unroutable))"

definition daemonMessage :: "relay_config \<Rightarrow> int \<Rightarrow> ws \<Rightarrow> conn \<Rightarrow> string \<Rightarrow> relay \<Rightarrow> relay" where
  "daemonMessage cfg now s c text r0 =
     (let wid = c_workspaceId c;
          (allowed, r) = daemonAllow now wid (markWsActivity now s r0);
          invalid = logger_warn cfg now ''daemon_frame_rejected''
                      [(''workspaceId'', JStr wid), (''reason'', JStr ''invalid_daemon_frame'')]
                      (increment ''relay_frames_daemon_rejected_total'' 1 r)
      in if \<not> allowed then
           closeWithReason s 4008 ''daemon rate limit exceeded''
             (logger_warn cfg now ''daemon_frame_rate_limited''
                [(''workspaceId'', JStr wid), (''ip'', JStr (c_ip c))]
                (increment ''relay_frames_daemon_rate_limited_total'' 1 r))
         else if byteLength text > maxFrameBytes cfg then
           closeWithReason s 1009 ''frame too large'' (increment ''relay_ws_frame_too_large_total'' 1 r)
         else if \<not> isAllowedDaemonFrame text then invalid
         else
           (case parseFramePayload text of
              None \<Rightarrow>
                logger_warn cfg now ''daemon_frame_rejected''
                  [(''workspaceId'', JStr wid), (''reason'', JStr ''unroutable_daemon_frame'')]
                  (countToClients (byteLength text) r)
            | Some parsed \<Rightarrow>
                let frameProfile = extractFrameProfile parsed in
                if profileTooWeak (expectedProfile c) frameProfile then
                  closeWithReason s 4008 ''daemon frame profile mismatch''
                    (logger_warn cfg now ''daemon_frame_rejected''
                       [(''workspaceId'', JStr wid), (''reason'', JStr ''profile_mismatch''),
                        (''expectedProfile'', JStr (profile_name (the (expectedProfile c)))),
                        (''gotProfile'', JStr (profile_name (the frameProfile)))]
                       (increment ''relay_frames_daemon_rejected_profile_mismatch_total'' 1 r))
                else routeDaemonFrame cfg now c text parsed r))"

section \<open>Messages of clients\<close>

definition clientRejected :: "relay_config \<Rightarrow> int \<Rightarrow> conn \<Rightarrow> string \<Rightarrow> relay \<Rightarrow> relay" where
  "clientRejected cfg now c reason r =
     logger_warn cfg now ''client_frame_rejected''
       [(''workspaceId'', JStr (c_workspaceId c)), (''clientId'', JStr (c_clientId c)), (''reason'', JStr reason)] r"

definition statusNotice :: "string \<Rightarrow> string \<Rightarrow> string \<Rightarrow> wire" where
  "statusNotice code msg wid =
     Stringify (JObj [(''type'', JStr ''relay_status''), (''code'', JStr code), (''message'', JStr msg),
                      (''workspaceId'', JStr wid)])"

definition sessionEventsClientMessage ::
    "relay_config \<Rightarrow> int \<Rightarrow> ws \<Rightarrow> conn \<Rightarrow> string \<Rightarrow> obj \<Rightarrow> relay \<Rightarrow> relay" where
  "sessionEventsClientMessage cfg now s c text parsed r =
     (if \<not> isSessionEventClientFrame parsed then
        snd (safeSend cfg s
               (statusNotice ''SESSION_EVENTS_SCOPE_ONLY''
                  ''session-events scoped clients can only subscribe to authorized session event channels''
                  (c_workspaceId c))
               (clientRejected cfg now c ''scope_mismatch_session_events_only''
                  (increment ''relay_frames_client_rejected_scope_total'' 1 r)))
      else if isSessionViewerPresenceFrame parsed then
        routeSessionViewerPresenceFrame cfg now s (c_workspaceId c) (c_scopeKey c) (c_claims c) (c_clientId c)
          text parsed r
      else handleSessionEventClientFrame cfg now s (c_workspaceId c) (c_scopeKey c) (c_claims c) parsed r)"

text \<open>\<open>kexLimiterKey\<close> and \<open>pairingLimiterKey\<close>.\<close>

definition limiterKey :: "conn \<Rightarrow> string" where
  "limiterKey c = c_workspaceId c @ '':'' @ c_clientId c @ '':'' @ c_ip c"

definition localOwner :: "ws \<Rightarrow> int \<Rightarrow> owner" where
  "localOwner s now = \<lparr>clientWs = Some s, sourceRelayId = None, createdAt = now\<rparr>"

text \<open>The three rate-limited stages of a runtime or pairing frame: \<open>Inl\<close> has closed the socket and
  returned, \<open>Inr\<close> goes on.\<close>

definition kexStage :: "relay_config \<Rightarrow> int \<Rightarrow> ws \<Rightarrow> conn \<Rightarrow> obj \<Rightarrow> relay \<Rightarrow> relay + relay" where
  "kexStage cfg now s c parsed r =
     (if eq_str (field parsed ''type'') ''relay_key_exchange_init'' then
        let (allowed, l) = fw_allow (limiterKey c) now (kexFrameLimiter r);
            r1 = r\<lparr>kexFrameLimiter := l\<rparr>;
            requestId = trimmedField parsed ''requestId''
        in if \<not> allowed then
             Inl (closeWithReason s 4008 ''key exchange rate limit exceeded''
                    (logger_warn cfg now ''client_frame_rate_limited''
                       [(''workspaceId'', JStr (c_workspaceId c)), (''clientId'', JStr (c_clientId c)),
                        (''reason'', JStr ''kex_rate_limit'')]
                       (increment ''relay_frames_client_kex_rate_limited_total'' 1 r1)))
           else if requestId \<noteq> [] then
             Inr (upd_state (c_scopeKey c)
                    (\<lambda>st. trackKeyExchangeRequest st requestId (localOwner s now) (maxPairingRequestTrack cfg)) r1)
           else Inr r1
      else Inr r)"

definition envelopeStage :: "int \<Rightarrow> ws \<Rightarrow> conn \<Rightarrow> obj \<Rightarrow> relay \<Rightarrow> relay + relay" where
  "envelopeStage now s c parsed r =
     (if isE2eeEnvelope parsed then
        let (allowed, r1) = runtimeAllow now (c_clientId c) (c_workspaceId c) r in
        if \<not> allowed then
          Inl (closeWithReason s 4008 ''runtime rate limit exceeded''
                 (increment ''relay_frames_client_runtime_rate_limited_total'' 1 r1))
        else Inr r1
      else Inr r)"

definition pairingStage :: "relay_config \<Rightarrow> int \<Rightarrow> ws \<Rightarrow> conn \<Rightarrow> obj \<Rightarrow> relay \<Rightarrow> relay + relay" where
  "pairingStage cfg now s c parsed r =
     (if isPairingClientFrame parsed then
        let (allowed, l) = fw_allow (limiterKey c) now (pairingFrameLimiter r);
            r1 = r\<lparr>pairingFrameLimiter := l\<rparr>
        in if \<not> allowed then
             Inl (closeWithReason s 4008 ''pairing rate limit exceeded''
                    (increment ''relay_frames_client_pairing_rate_limited_total'' 1 r1))
           else if truthy (extractPairingRequestId parsed) then
             Inr (upd_state (c_scopeKey c)
                    (\<lambda>st. trackPairingRequest st (the (extractPairingRequestId parsed)) (localOwner s now)
                            (maxPairingRequestTrack cfg)) r1)
           else Inr r1
      else Inr r)"

definition continue :: "relay + relay \<Rightarrow> (relay \<Rightarrow> relay + relay) \<Rightarrow> relay + relay" where
  "continue x f = (case x of Inl r \<Rightarrow> Inl r | Inr r \<Rightarrow> f r)"

definition forwardToDaemon :: "relay_config \<Rightarrow> int \<Rightarrow> ws \<Rightarrow> conn \<Rightarrow> string \<Rightarrow> relay \<Rightarrow> relay" where
  "forwardToDaemon cfg now s c text r =
     (let dm = Option.bind (jm_get (registry r) (c_scopeKey c)) daemon in
      if \<not> is_open r dm then
        routeClientMessageWithoutLocalDaemon cfg now s (c_workspaceId c) (c_runtimeTargetId c) (c_machineId c)
          (c_clientId c) text r
      else
        snd (safeSend cfg (the dm) (Text text)
               (increment ''relay_bytes_client_to_daemon_total'' (byteLength text)
                  (increment ''relay_frames_client_to_daemon_total'' 1 r))))"

definition runtimeClientMessage :: "relay_config \<Rightarrow> int \<Rightarrow> ws \<Rightarrow> conn \<Rightarrow> string \<Rightarrow> obj \<Rightarrow> relay \<Rightarrow> relay" where
  "runtimeClientMessage cfg now s c text parsed r0 =
     (let r = upd_state (c_scopeKey c) (pruneStale now) r0;
          isPairingFrame = isPairingClientFrame parsed;
          frameProfile = extractFrameProfile parsed
      in if c_clientScope c = Pairing \<and> \<not> isPairingFrame then
           closeWithReason s 4008 ''pairing scope only''
             (clientRejected cfg now c ''scope_mismatch_pairing_only''
                (increment ''relay_frames_client_rejected_scope_total'' 1 r))
         else if c_clientScope c = Runtime \<and> isPairingFrame then
           closeWithReason s 4008 ''runtime scope only''
             (clientRejected cfg now c ''scope_mismatch_runtime_only''
                (increment ''relay_frames_client_rejected_scope_total'' 1 r))
         else if expectedProfile c \<noteq> None \<and> frameProfile \<noteq> None \<and> expectedProfile c \<noteq> frameProfile then
           closeWithReason s 4008 ''client frame profile mismatch''
             (logger_warn cfg now ''client_frame_rejected''
                [(''workspaceId'', JStr (c_workspaceId c)), (''clientId'', JStr (c_clientId c)),
                 (''reason'', JStr ''profile_mismatch''),
                 (''expectedProfile'', JStr (profile_name (the (expectedProfile c)))),
                 (''gotProfile'', JStr (profile_name (the frameProfile)))]
                (increment ''relay_frames_client_rejected_profile_mismatch_total'' 1 r))
         else
           (case continue (continue (kexStage cfg now s c parsed r) (envelopeStage now s c parsed))
                   (pairingStage cfg now s c parsed) of
              Inl r1 \<Rightarrow> r1
            | Inr r1 \<Rightarrow> forwardToDaemon cfg now s c text r1))"

definition clientMessage :: "relay_config \<Rightarrow> int \<Rightarrow> ws \<Rightarrow> conn \<Rightarrow> string \<Rightarrow> relay \<Rightarrow> relay" where
  "clientMessage cfg now s c text r0 =
     (let r = markWsActivity now s r0 in
      if byteLength text > maxFrameBytes cfg then
        closeWithReason s 1009 ''frame too large'' (increment ''relay_ws_frame_too_large_total'' 1 r)
      else if \<not> isAllowedClientFrame text then
        snd (safeSend cfg s
               (statusNotice ''INVALID_FRAME'' ''client frame must be a valid runtime or pairing control frame''
                  (c_workspaceId c))
               (clientRejected cfg now c ''invalid_client_frame''
                  (increment ''relay_frames_client_rejected_total'' 1 r)))
      else
        (case parseFramePayload text of
           None \<Rightarrow> increment ''relay_frames_client_rejected_total'' 1 r
         | Some parsed \<Rightarrow>
             if c_clientScope c = Session_events then sessionEventsClientMessage cfg now s c text parsed r
             else if isSessionEventClientFrame parsed then
               closeWithReason s 4008 ''session-events scope required''
                 (clientRejected cfg now c ''scope_mismatch_runtime_or_pairing_only''
                    (increment ''relay_frames_client_rejected_scope_total'' 1 r))
             else runtimeClientMessage cfg now s c text parsed r))"

section \<open>Close and error events\<close>

definition workerClose :: "relay_config \<Rightarrow> int \<Rightarrow> conn \<Rightarrow> relay \<Rightarrow> relay" where
  "workerClose cfg now c r =
     updateGauges
       (logger_info cfg now ''worker_disconnected''
          ([(''workspaceId'', JStr (c_workspaceId c))]
           @ opt_field ''managedExecutorId'' (Option.bind (c_claims c) cl_managedExecutorId)
           @ [(''ip'', JStr (c_ip c))])
          (increment ''relay_ws_connections_closed_total'' 1 (adjustIpConnectionCount (c_ip c) (-1) r)))"

definition daemonClose :: "relay_config \<Rightarrow> int \<Rightarrow> ws \<Rightarrow> conn \<Rightarrow> relay \<Rightarrow> relay" where
  "daemonClose cfg now s c r =
     (let (clearedCurrentDaemon, reg) = clearDaemon (c_scopeKey c) s now (registry r);
          r1 = r\<lparr>registry := reg\<rparr>;
          r2 = (if clearedCurrentDaemon
                then emit (UpsertPresence (c_workspaceId c) False (c_runtimeTargetId c) (c_machineId c)) r1 else r1)
      in updateGauges
           (logger_info cfg now ''daemon_disconnected''
              ([(''workspaceId'', JStr (c_workspaceId c))] @ opt_field ''runtimeTargetId'' (c_runtimeTargetId c)
               @ opt_field ''machineId'' (c_machineId c)
               @ [(''ip'', JStr (c_ip c)), (''clearedCurrentDaemon'', JBool clearedCurrentDaemon)])
              (increment ''relay_ws_connections_closed_total'' 1 (adjustIpConnectionCount (c_ip c) (-1) r2))))"

definition clientClose :: "relay_config \<Rightarrow> int \<Rightarrow> ws \<Rightarrow> conn \<Rightarrow> relay \<Rightarrow> relay" where
  "clientClose cfg now s c r =
     updateGauges
       (logger_info cfg now ''client_disconnected''
          [(''workspaceId'', JStr (c_workspaceId c)), (''clientId'', JStr (c_clientId c)), (''ip'', JStr (c_ip c))]
          (increment ''relay_ws_connections_closed_total'' 1
             (adjustIpConnectionCount (c_ip c) (-1)
                (r\<lparr>registry := removeClient (c_scopeKey c) s now (registry r)\<rparr>))))"

text \<open>Daemons and clients install an error handler, which logs. Workers install none, nor does a connection
  that was rejected: there the emitter throws, nothing catches it, and the process ends (None).\<close>

definition wsError :: "relay_config \<Rightarrow> int \<Rightarrow> conn \<Rightarrow> string \<Rightarrow> relay \<Rightarrow> relay option" where
  "wsError cfg now c err r =
     (case c_role c of
        Worker \<Rightarrow> None
      | Workspace_daemon \<Rightarrow>
          Some (logger_warn cfg now ''daemon_ws_error''
            [(''workspaceId'', JStr (c_workspaceId c)), (''ip'', JStr (c_ip c)), (''error'', JStr err)] r)
      | Client \<Rightarrow>
          Some (logger_warn cfg now ''client_ws_error''
            [(''workspaceId'', JStr (c_workspaceId c)), (''clientId'', JStr (c_clientId c)),
             (''ip'', JStr (c_ip c)), (''error'', JStr err)] r))"

text \<open>The events of a socket, sent to the handlers its role installed. The close event is the last: the
  socket is CLOSED and has no handlers after it.\<close>

definition onMessage :: "relay_config \<Rightarrow> int \<Rightarrow> ws \<Rightarrow> string \<Rightarrow> relay \<Rightarrow> relay" where
  "onMessage cfg now s text r =
     (case conns r s of
        None \<Rightarrow> r
      | Some c \<Rightarrow>
          (case c_role c of
             Worker \<Rightarrow> workerMessage cfg now s c text r
           | Workspace_daemon \<Rightarrow> daemonMessage cfg now s c text r
           | Client \<Rightarrow> clientMessage cfg now s c text r))"

definition onClose :: "relay_config \<Rightarrow> int \<Rightarrow> ws \<Rightarrow> relay \<Rightarrow> relay" where
  "onClose cfg now s r =
     (let r0 = r\<lparr>readyState := (readyState r)(s := CLOSED)\<rparr> in
      case conns r s of
        None \<Rightarrow> r0
      | Some c \<Rightarrow>
          let r1 = (case c_role c of
                      Worker \<Rightarrow> workerClose cfg now c r0
                    | Workspace_daemon \<Rightarrow> daemonClose cfg now s c r0
                    | Client \<Rightarrow> clientClose cfg now s c r0)
          in r1\<lparr>conns := (conns r1)(s := None)\<rparr>)"

definition onError :: "relay_config \<Rightarrow> int \<Rightarrow> ws \<Rightarrow> string \<Rightarrow> relay \<Rightarrow> relay option" where
  "onError cfg now s err r = (case conns r s of None \<Rightarrow> None | Some c \<Rightarrow> wsError cfg now c err r)"

end
