(* ===== verification/Relay_Footprint.thy ===== *)
theory Relay_Footprint
  imports Relay_Connections
begin

text \<open>
  What a handler may touch. \<open>footprint cfg auth key E r r'\<close> says of a run from \<open>r\<close> to \<open>r'\<close>: it changes
  no registry entry but the one under \<open>key\<close>; that entry keeps its clients, daemon and generation, and
  keeps the state invariant; everything it emitted satisfies the policy \<open>E\<close>, and every write went to a
  socket that was open and not over its buffer limit when the event began; it installs no handlers. The relation is
  transitive, every helper has an introduction rule for it, and so has every handler.
\<close>

section \<open>The invariant of one state\<close>

text \<open>\<open>auth ch s\<close>: socket \<open>s\<close> is authorised for channel \<open>ch\<close>.\<close>

definition st_inv :: "relay_config \<Rightarrow> (string \<Rightarrow> ws \<Rightarrow> bool) \<Rightarrow> workspace_state \<Rightarrow> bool" where
  "st_inv cfg auth st \<longleftrightarrow>
     state_wf st \<and>
     jm_size (pairingRequests st) \<le> max 1 (maxPairingRequestTrack cfg) \<and>
     jm_size (keyExchangeRequests st) \<le> max 1 (maxPairingRequestTrack cfg) \<and>
     jm_size (sessionOwners st) \<le> max 1 (maxSessionOwnerTrack cfg) \<and>
     (\<forall>(ch, subs) \<in> set (sessionEventSubscribers st). \<forall>s \<in> set subs. auth ch s)"

lemma evict_set_size: "jm_size (jm_set k v (evict_ge mx m)) \<le> max 1 mx"
proof (cases "mx = 0")
  case True
  have "evict_ge 0 m = []"
  proof (induction m rule: measure_induct_rule [where f = length])
    case (less m)
    show ?case
    proof (cases m)
      case (Cons p m')
      then show ?thesis
        using less [of "jm_delete (fst p) m"] jm_delete_length [of "fst p" m']
        by (subst evict_ge.simps) (cases p, auto)
    qed (simp add: evict_ge.simps)
  qed
  with True show ?thesis by (simp add: jm_size_set)
next
  case False
  then show ?thesis using evict_ge_size [of mx m] by (simp add: jm_size_set)
qed

lemmas evict_set_size' = evict_set_size [unfolded One_nat_def]

lemma st_inv_new [simp]: "st_inv cfg auth (new_state key md now)"
  by (simp add: st_inv_def) (simp add: new_state_def)

lemma st_inv_frame [simp]:
  "st_inv cfg auth (st\<lparr>lastActivityAt := t\<rparr>) = st_inv cfg auth st"
  "st_inv cfg auth (st\<lparr>workspaceId := w\<rparr>) = st_inv cfg auth st"
  "st_inv cfg auth (st\<lparr>runtimeTargetId := x\<rparr>) = st_inv cfg auth st"
  "st_inv cfg auth (st\<lparr>daemon := d\<rparr>) = st_inv cfg auth st"
  "st_inv cfg auth (st\<lparr>daemonIssueGeneration := g\<rparr>) = st_inv cfg auth st"
  by (simp_all add: st_inv_def)

lemma st_inv_prune:
  assumes "st_inv cfg auth st"
  shows "st_inv cfg auth (pruneStalePairingRequests now st)"
    and "st_inv cfg auth (pruneStaleKeyExchangeRequests now st)"
    and "st_inv cfg auth (pruneStaleSessionOwners now st)"
  using assms pairing.prune_bound [of now st] kex.prune_bound [of now st] session.prune_bound [of now st]
    state_wf_prune [of st now]
  unfolding st_inv_def
  by (auto simp: pruneStalePairingRequests_def pruneStaleKeyExchangeRequests_def pruneStaleSessionOwners_def)

lemma st_inv_track:
  assumes "st_inv cfg auth st" and "set_option (clientWs ow) \<subseteq> client_sockets st"
  shows "st_inv cfg auth (trackPairingRequest st k ow (maxPairingRequestTrack cfg))"
    and "st_inv cfg auth (trackKeyExchangeRequest st k ow (maxPairingRequestTrack cfg))"
    and "st_inv cfg auth (trackSessionOwner st k ow (maxSessionOwnerTrack cfg))"
  using assms state_wf_track [of st ow] unfolding st_inv_def
  by (auto simp: trackPairingRequest_def trackKeyExchangeRequest_def trackSessionOwner_def evict_set_size')

lemma state_wf_delete:
  assumes "state_wf st"
  shows "state_wf (st\<lparr>pairingRequests := jm_delete k (pairingRequests st)\<rparr>)"
    and "state_wf (st\<lparr>keyExchangeRequests := jm_delete k (keyExchangeRequests st)\<rparr>)"
  using assms owner_sockets_mono [of "jm_delete k (pairingRequests st)" "pairingRequests st"]
    owner_sockets_mono [of "jm_delete k (keyExchangeRequests st)" "keyExchangeRequests st"]
  by (auto simp: state_wf_def referenced_sockets_def client_sockets_def)

lemma st_inv_delete:
  assumes "st_inv cfg auth st"
  shows "st_inv cfg auth (st\<lparr>pairingRequests := jm_delete k (pairingRequests st)\<rparr>)"
    and "st_inv cfg auth (st\<lparr>keyExchangeRequests := jm_delete k (keyExchangeRequests st)\<rparr>)"
  using assms state_wf_delete [of st k] jm_delete_length [of k "pairingRequests st"]
    jm_delete_length [of k "keyExchangeRequests st"]
  by (auto simp: st_inv_def)

lemma st_inv_clear:
  assumes "st_inv cfg auth st"
  shows "st_inv cfg auth (st\<lparr>keyExchangeRequests := []\<rparr>)" and "st_inv cfg auth (st\<lparr>sessionOwners := []\<rparr>)"
    and "st_inv cfg auth (st\<lparr>pairingRequests := []\<rparr>)"
  using assms by (auto simp: st_inv_def)

text \<open>Subscriptions.\<close>

lemma subscribe_entries:
  assumes "(c, subs) \<in> set (sessionEventSubscribers (subscribe ch s st))" and "x \<in> set subs"
  shows "(c = ch \<and> x = s) \<or> (\<exists>subs'. (c, subs') \<in> set (sessionEventSubscribers st) \<and> x \<in> set subs')"
proof -
  let ?m = "sessionEventSubscribers st"
  define old where "old = (case jm_get ?m ch of Some subs \<Rightarrow> subs | None \<Rightarrow> [])"
  have old: "y \<in> set old \<Longrightarrow> \<exists>subs'. (ch, subs') \<in> set ?m \<and> y \<in> set subs'" for y
    by (cases "jm_get ?m ch") (auto simp: old_def dest: jm_get_mem)
  have "(c, subs) = (ch, set_add s old) \<or> (c, subs) \<in> set ?m"
    using assms(1) set_jm_set [of ch "set_add s old" ?m] by (auto simp: subscribe_def old_def)
  then show ?thesis using assms(2) old [of x] by (auto simp: set_add_def split: if_splits)
qed

lemma subscribe_sockets: "subscriber_sockets (sessionEventSubscribers (subscribe ch s st)) \<subseteq>
    insert s (subscriber_sockets (sessionEventSubscribers st))"
  using subscribe_entries [of _ _ ch s st] by (fastforce simp: subscriber_sockets_def)

lemma unsubscribe_entries:
  assumes "(c, subs) \<in> set (sessionEventSubscribers (unsubscribe ch s st))"
  shows "\<exists>subs'. (c, subs') \<in> set (sessionEventSubscribers st) \<and> set subs \<subseteq> set subs'"
proof (cases "jm_get (sessionEventSubscribers st) ch")
  case None
  then show ?thesis using assms by (auto simp: unsubscribe_def)
next
  case (Some old)
  have "(c, subs) = (ch, set_delete s old) \<or> (c, subs) \<in> set (sessionEventSubscribers st)"
    using assms set_jm_set [of ch "set_delete s old" "sessionEventSubscribers st"]
    by (auto simp: unsubscribe_def Some Let_def split: if_splits)
  then show ?thesis using jm_get_mem [OF Some] by (auto simp: set_delete_def)
qed

lemma st_inv_subscribe:
  assumes "st_inv cfg auth st" and "s \<in> client_sockets st" and "auth ch s"
  shows "st_inv cfg auth (subscribe ch s st)"
proof -
  have "state_wf (subscribe ch s st)"
    using assms(1,2) subscribe_sockets [of ch s st]
    by (auto simp: st_inv_def state_wf_def referenced_sockets_def client_sockets_def subscribe_def)
  moreover have "\<forall>(c, subs) \<in> set (sessionEventSubscribers (subscribe ch s st)). \<forall>x \<in> set subs. auth c x"
    using assms(1,3) subscribe_entries [of _ _ ch s st] by (fastforce simp: st_inv_def)
  ultimately show ?thesis using assms(1) by (simp add: st_inv_def subscribe_def)
qed

lemma st_inv_unsubscribe:
  assumes "st_inv cfg auth st"
  shows "st_inv cfg auth (unsubscribe ch s st)"
proof -
  have frame: "clients (unsubscribe ch s st) = clients st" "pairingRequests (unsubscribe ch s st) = pairingRequests st"
    "keyExchangeRequests (unsubscribe ch s st) = keyExchangeRequests st"
    "sessionOwners (unsubscribe ch s st) = sessionOwners st"
    by (simp_all add: unsubscribe_def Let_def split: option.splits)
  have "jm_wf (sessionEventSubscribers (unsubscribe ch s st))"
    using assms by (auto simp: unsubscribe_def st_inv_def state_wf_def Let_def split: option.splits)
  moreover have "subscriber_sockets (sessionEventSubscribers (unsubscribe ch s st)) \<subseteq>
      subscriber_sockets (sessionEventSubscribers st)"
    using unsubscribe_entries [of _ _ ch s st] by (fastforce simp: subscriber_sockets_def)
  ultimately have "state_wf (unsubscribe ch s st)"
    using assms by (auto simp: st_inv_def state_wf_def referenced_sockets_def client_sockets_def frame)
  then show ?thesis
    using assms unsubscribe_entries [of _ _ ch s st] by (fastforce simp: st_inv_def frame)
qed

section \<open>Footprints\<close>

definition state_at :: "string \<Rightarrow> relay \<Rightarrow> workspace_state" where
  "state_at key r = (case jm_get (registry r) key of Some st \<Rightarrow> st | None \<Rightarrow> new_state key None 0)"

definition writable :: "relay_config \<Rightarrow> relay \<Rightarrow> ws \<Rightarrow> bool" where
  "writable cfg r s \<longleftrightarrow> readyState r s = OPEN \<and> bufferedAmount r s \<le> maxPendingBytes cfg"

definition permitted :: "relay_config \<Rightarrow> (effect \<Rightarrow> bool) \<Rightarrow> relay \<Rightarrow> effect \<Rightarrow> bool" where
  "permitted cfg E r e = (case e of Closed _ _ _ \<Rightarrow> True | Sent s _ \<Rightarrow> writable cfg r s \<and> E e | _ \<Rightarrow> E e)"

definition st_step :: "relay_config \<Rightarrow> (string \<Rightarrow> ws \<Rightarrow> bool) \<Rightarrow> workspace_state \<Rightarrow> workspace_state \<Rightarrow> bool" where
  "st_step cfg auth st st' \<longleftrightarrow>
     clients st' = clients st \<and> daemon st' = daemon st \<and> daemonIssueGeneration st' = daemonIssueGeneration st \<and>
     (st_inv cfg auth st \<longrightarrow> st_inv cfg auth st')"

text \<open>The sockets with an upgrade in progress.\<close>

fun upgrading :: "task \<Rightarrow> ws option" where
  "upgrading (AwaitAdmission s _ _) = Some s"
| "upgrading (AwaitRedirect s _ _) = Some s"
| "upgrading _ = None"

definition pending :: "relay \<Rightarrow> ws list" where
  "pending r = List.map_filter upgrading (tasks r)"

definition footprint ::
    "relay_config \<Rightarrow> (string \<Rightarrow> ws \<Rightarrow> bool) \<Rightarrow> string \<Rightarrow> (effect \<Rightarrow> bool) \<Rightarrow> relay \<Rightarrow> relay \<Rightarrow> bool" where
  "footprint cfg auth key E r r' \<longleftrightarrow>
     (\<exists>new. out r' = out r @ new \<and> list_all (permitted cfg E r) new) \<and>
     (\<forall>s. readyState r' s = OPEN \<longrightarrow> readyState r s = OPEN) \<and> bufferedAmount r' = bufferedAmount r \<and>
     conns r' = conns r \<and> ipConnectionCounts r' = ipConnectionCounts r \<and> pending r' = pending r \<and>
     (\<forall>k. k \<noteq> key \<longrightarrow> jm_get (registry r') k = jm_get (registry r) k) \<and>
     (jm_wf (registry r) \<longrightarrow> jm_wf (registry r')) \<and>
     (jm_get (registry r) key \<noteq> None \<longrightarrow> jm_get (registry r') key \<noteq> None) \<and>
     st_step cfg auth (state_at key r) (state_at key r')"

text \<open>The fields of the relay a footprint does not look at.\<close>

definition same_core :: "relay \<Rightarrow> relay \<Rightarrow> bool" where
  "same_core r r' \<longleftrightarrow> out r' = out r \<and> readyState r' = readyState r \<and> bufferedAmount r' = bufferedAmount r \<and>
     conns r' = conns r \<and> ipConnectionCounts r' = ipConnectionCounts r \<and> registry r' = registry r \<and>
     pending r' = pending r"

lemma st_step_refl [simp]: "st_step cfg auth st st"
  by (simp add: st_step_def)

lemma st_step_trans: "st_step cfg auth a b \<Longrightarrow> st_step cfg auth b c \<Longrightarrow> st_step cfg auth a c"
  by (auto simp: st_step_def)

lemma footprint_refl [simp]: "footprint cfg auth key E r r"
  by (simp add: footprint_def)

lemma permitted_mono:
  "permitted cfg E r' e \<Longrightarrow> \<forall>s. readyState r' s = OPEN \<longrightarrow> readyState r s = OPEN \<Longrightarrow>
   bufferedAmount r' = bufferedAmount r \<Longrightarrow> permitted cfg E r e"
  by (auto simp: permitted_def writable_def split: effect.splits)

lemma footprint_trans:
  assumes "footprint cfg auth key E r r1" and "footprint cfg auth key E r1 r2"
  shows "footprint cfg auth key E r r2"
proof -
  obtain n1 n2 where out: "out r1 = out r @ n1" "out r2 = out r1 @ n2"
    and p: "list_all (permitted cfg E r) n1" "list_all (permitted cfg E r1) n2"
    using assms unfolding footprint_def by blast
  have "list_all (permitted cfg E r) n2"
    using p(2) assms(1) permitted_mono [of cfg E r1 _ r] unfolding footprint_def list_all_iff by blast
  with out p(1) have "\<exists>new. out r2 = out r @ new \<and> list_all (permitted cfg E r) new"
    by (intro exI [of _ "n1 @ n2"]) simp
  moreover have "st_step cfg auth (state_at key r) (state_at key r2)"
    using assms st_step_trans unfolding footprint_def by blast
  ultimately show ?thesis using assms unfolding footprint_def by (simp (no_asm_simp))
qed

lemma permitted_weaken: "permitted cfg E r e \<Longrightarrow> (\<And>e. E e \<Longrightarrow> E' e) \<Longrightarrow> permitted cfg E' r e"
  by (cases e) (simp_all add: permitted_def)

lemma footprint_mono: "footprint cfg auth key E r r' \<Longrightarrow> (\<And>e. E e \<Longrightarrow> E' e) \<Longrightarrow> footprint cfg auth key E' r r'"
  unfolding footprint_def using permitted_weaken [of cfg E r _ E'] list.pred_mono_strong by (metis (no_types, lifting))

lemma footprint_core:
  "footprint cfg auth key E r r0 \<Longrightarrow> same_core r0 r' \<Longrightarrow> footprint cfg auth key E r r'"
  by (simp add: footprint_def same_core_def state_at_def)

section \<open>Rules for the helpers\<close>

named_theorems fp_intros \<open>introduction rules for footprints\<close>

lemma same_core_helpers [simp]:
  "same_core r (increment n d r)" "same_core r (setGauge n v r)" "same_core r (logger_info cfg now ev det r)"
  "same_core r (logger_warn cfg now ev det r)" "same_core r (markWsActivity now s r)" "upgrading t = None \<Longrightarrow> same_core r (addTask t r)"
  "same_core r (snd (runtimeAllow now clId wid r))" "same_core r (snd (daemonAllow now wid r))"
  "same_core r (r\<lparr>kexFrameLimiter := l\<rparr>)" "same_core r (r\<lparr>pairingFrameLimiter := l\<rparr>)"
  by (simp_all add: same_core_def pending_def increment_def setGauge_def logger_info_def logger_warn_def markWsActivity_def
      addTask_def runtimeAllow_def daemonAllow_def Let_def List.map_filter_def
      split: option.splits prod.splits)

lemma footprint_helpers [fp_intros]:
  assumes "footprint cfg auth key E r r0"
  shows "footprint cfg auth key E r (increment n d r0)"
    and "footprint cfg auth key E r (logger_info cfg now ev det r0)"
    and "footprint cfg auth key E r (logger_warn cfg now ev det r0)"
    and "footprint cfg auth key E r (markWsActivity now s r0)"
    and "upgrading t = None \<Longrightarrow> footprint cfg auth key E r (addTask t r0)"
    and "footprint cfg auth key E r (snd (runtimeAllow now clId wid r0))"
    and "footprint cfg auth key E r (snd (daemonAllow now wid r0))"
    and "footprint cfg auth key E r (r0\<lparr>kexFrameLimiter := l\<rparr>)"
    and "footprint cfg auth key E r (r0\<lparr>pairingFrameLimiter := l\<rparr>)"
  by (rule footprint_core [OF assms]; simp)+

lemma footprint_closeWithReason [fp_intros]:
  assumes "footprint cfg auth key E r r0"
  shows "footprint cfg auth key E r (closeWithReason s c m r0)"
proof (rule footprint_trans [OF assms])
  show "footprint cfg auth key E r0 (closeWithReason s c m r0)"
    by (simp add: footprint_def permitted_def state_at_def pending_def) (simp add: closeWithReason_def emit_def)
qed

lemma footprint_emit [fp_intros]:
  assumes "footprint cfg auth key E r r0" and "E e" and "\<And>s w. e \<noteq> Sent s w"
  shows "footprint cfg auth key E r (emit e r0)"
proof (rule footprint_trans [OF assms(1)])
  show "footprint cfg auth key E r0 (emit e r0)"
  proof -
    have "permitted cfg E r0 e" using assms(2,3) by (cases e) (auto simp: permitted_def)
    then show ?thesis by (simp add: footprint_def state_at_def pending_def) (simp add: emit_def)
  qed
qed

lemma footprint_safeSend [fp_intros]:
  assumes "footprint cfg auth key E r r0" and "E (Sent s w)"
  shows "footprint cfg auth key E r (snd (safeSend cfg s w r0))"
proof (rule footprint_trans [OF assms(1)])
  show "footprint cfg auth key E r0 (snd (safeSend cfg s w r0))"
  proof (cases "readyState r0 s = OPEN \<and> \<not> bufferedAmount r0 s > maxPendingBytes cfg")
    case True
    then have "snd (safeSend cfg s w r0) = emit (Sent s w) r0" by (simp add: safeSend_def)
    moreover have "permitted cfg E r0 (Sent s w)" using True assms(2) by (simp add: permitted_def writable_def)
    ultimately show ?thesis by (simp add: footprint_def state_at_def pending_def) (simp add: emit_def)
  next
    case False
    then show ?thesis
      by (auto simp: safeSend_def intro!: footprint_closeWithReason footprint_helpers)
  qed
qed

text \<open>A mutation of the state under the key, by a function that keeps the state invariant for states
  with the clients this one has.\<close>

definition opened :: "string \<Rightarrow> string \<Rightarrow> string option \<Rightarrow> int \<Rightarrow> relay \<Rightarrow> workspace_state" where
  "opened key wid target now r =
     fst (getOrCreate key (Some \<lparr>md_workspaceId = Some wid, md_runtimeTargetId = target\<rparr>) now (registry r))"

lemma getOrCreate_other: "k \<noteq> key \<Longrightarrow> jm_get (snd (getOrCreate key md now reg)) k = jm_get reg k"
  by (auto simp: getOrCreate_def Let_def split: option.splits)

lemma getOrCreate_wf: "jm_wf reg \<Longrightarrow> jm_wf (snd (getOrCreate key md now reg))"
  by (auto simp: getOrCreate_def Let_def split: option.splits)

lemma opened_step: "st_step cfg auth (state_at key r) (opened key wid target now r)"
  by (auto simp: opened_def state_at_def getOrCreate_def Let_def st_step_def split: option.splits)
    (simp_all add: new_state_def)

lemma opened_target: "wid \<noteq> [] \<Longrightarrow> runtimeTargetId (opened key wid target now r) = target"
  by (auto simp: opened_def getOrCreate_def Let_def new_state_def split: option.splits)

lemma open_state_eq:
  "open_state key wid target now f r =
     (f (opened key wid target now r),
      r\<lparr>registry := jm_set key (f (opened key wid target now r))
          (snd (getOrCreate key (Some \<lparr>md_workspaceId = Some wid, md_runtimeTargetId = target\<rparr>) now (registry r)))\<rparr>)"
  by (simp add: open_state_def opened_def Let_def case_prod_beta)

lemma fst_open_state: "fst (open_state key wid target now f r) = f (opened key wid target now r)"
  by (simp add: open_state_eq)

lemma state_at_open_state [simp]:
  "state_at key (snd (open_state key wid target now f r)) = f (opened key wid target now r)"
  by (simp add: open_state_eq state_at_def)

lemma open_state_fields [simp]:
  "readyState (snd (open_state key wid target now f r)) = readyState r"
  "bufferedAmount (snd (open_state key wid target now f r)) = bufferedAmount r"
  "conns (snd (open_state key wid target now f r)) = conns r"
  "out (snd (open_state key wid target now f r)) = out r"
  by (simp_all add: open_state_eq)

lemma footprint_open_state [fp_intros]:
  assumes "footprint cfg auth key E r r0"
    and "\<And>x. clients x = clients (state_at key r) \<Longrightarrow> st_step cfg auth x (f x)"
  shows "footprint cfg auth key E r (snd (open_state key wid target now f r0))"
proof (rule footprint_trans [OF assms(1)])
  have "clients (opened key wid target now r0) = clients (state_at key r)"
    using assms(1) opened_step [of cfg auth key r0 wid target now] by (simp add: footprint_def st_step_def)
  then have "st_step cfg auth (state_at key r0) (f (opened key wid target now r0))"
    using st_step_trans [OF opened_step assms(2)] by blast
  then show "footprint cfg auth key E r0 (snd (open_state key wid target now f r0))"
    using getOrCreate_wf [of "registry r0"]
    by (simp add: open_state_eq footprint_def state_at_def pending_def getOrCreate_other)
qed

lemma footprint_upd_state [fp_intros]:
  assumes "footprint cfg auth key E r r0"
    and "\<And>x. clients x = clients (state_at key r) \<Longrightarrow> st_step cfg auth x (f x)"
  shows "footprint cfg auth key E r (upd_state key f r0)"
proof (cases "jm_get (registry r0) key")
  case None
  then show ?thesis using assms(1) by (simp add: upd_state_def reg_update_def)
next
  case (Some st)
  have "clients st = clients (state_at key r)"
    using assms(1) by (simp add: footprint_def st_step_def state_at_def Some split: option.splits)
  then have "st_step cfg auth st (f st)" by (rule assms(2))
  then have "footprint cfg auth key E r0 (upd_state key f r0)"
    by (simp add: footprint_def upd_state_def reg_update_def Some state_at_def pending_def)
  then show ?thesis by (rule footprint_trans [OF assms(1)])
qed

text \<open>The state functions the handlers pass.\<close>

lemma st_step_prune [fp_intros]:
  "st_step cfg auth x (pruneStalePairingRequests now x)" "st_step cfg auth x (pruneStaleKeyExchangeRequests now x)"
  "st_step cfg auth x (pruneStaleSessionOwners now x)" "st_step cfg auth x (id x)"
  using st_inv_prune [of cfg auth x now]
  by (auto simp: st_step_def pruneStalePairingRequests_def pruneStaleKeyExchangeRequests_def
      pruneStaleSessionOwners_def)

lemma st_step_pruneStale [fp_intros]:
  "st_step cfg auth x (pruneStale now x)" "st_step cfg auth x (pruneStale now (x\<lparr>lastActivityAt := t\<rparr>))"
proof -
  show p: "st_step cfg auth x (pruneStale now x)" for x
    unfolding pruneStale_def by (meson st_step_prune st_step_trans)
  have "st_step cfg auth x (x\<lparr>lastActivityAt := t\<rparr>)" by (simp add: st_step_def)
  then show "st_step cfg auth x (pruneStale now (x\<lparr>lastActivityAt := t\<rparr>))" using p st_step_trans by blast
qed

lemma st_step_track:
  assumes "set_option (clientWs ow) \<subseteq> client_sockets x"
  shows "st_step cfg auth x (trackPairingRequest x k ow (maxPairingRequestTrack cfg))"
    and "st_step cfg auth x (trackKeyExchangeRequest x k ow (maxPairingRequestTrack cfg))"
    and "st_step cfg auth x (trackSessionOwner x k ow (maxSessionOwnerTrack cfg))"
  using st_inv_track [OF _ assms, of cfg auth k]
  by (auto simp: st_step_def trackPairingRequest_def trackKeyExchangeRequest_def trackSessionOwner_def)

lemma st_step_delete:
  "st_step cfg auth x (x\<lparr>pairingRequests := jm_delete k (pairingRequests x)\<rparr>)"
  "st_step cfg auth x (x\<lparr>keyExchangeRequests := jm_delete k (keyExchangeRequests x)\<rparr>)"
  using st_inv_delete [of cfg auth x k] by (auto simp: st_step_def)

lemma st_step_subscribe:
  assumes "s \<in> client_sockets x" and "auth ch s"
  shows "st_step cfg auth x (subscribe ch s x)"
  using st_inv_subscribe [of cfg auth x s ch] assms by (simp add: st_step_def) (simp add: subscribe_def)

lemma st_step_unsubscribe: "st_step cfg auth x (unsubscribe ch s x)"
  using st_inv_unsubscribe [of cfg auth x ch s]
  by (simp add: st_step_def) (simp add: unsubscribe_def Let_def split: option.splits)

section \<open>Rules for routing\<close>

lemma client_sockets_cong: "clients st = clients st' \<Longrightarrow> client_sockets st = client_sockets st'"
  by (simp add: client_sockets_def)

lemma owner_sockets_get: "jm_get m k = Some ow \<Longrightarrow> set_option (clientWs ow) \<subseteq> owner_sockets m"
  by (auto simp: owner_sockets_def dest!: jm_get_mem)

lemma subscriber_sockets_get: "jm_get m k = Some subs \<Longrightarrow> set subs \<subseteq> subscriber_sockets m"
  by (auto simp: subscriber_sockets_def dest!: jm_get_mem)

lemma owner_is_client:
  assumes "st_inv cfg auth st"
  shows "jm_get (sessionOwners st) k = Some ow \<Longrightarrow> set_option (clientWs ow) \<subseteq> client_sockets st"
    and "jm_get (keyExchangeRequests st) k = Some ow \<Longrightarrow> set_option (clientWs ow) \<subseteq> client_sockets st"
    and "jm_get (pairingRequests st) k = Some ow \<Longrightarrow> set_option (clientWs ow) \<subseteq> client_sockets st"
    and "jm_get (sessionEventSubscribers st) k = Some subs \<Longrightarrow> set subs \<subseteq> client_sockets st"
proof -
  have "referenced_sockets st \<subseteq> client_sockets st" using assms by (simp add: st_inv_def state_wf_def)
  then show "jm_get (sessionOwners st) k = Some ow \<Longrightarrow> set_option (clientWs ow) \<subseteq> client_sockets st"
    and "jm_get (keyExchangeRequests st) k = Some ow \<Longrightarrow> set_option (clientWs ow) \<subseteq> client_sockets st"
    and "jm_get (pairingRequests st) k = Some ow \<Longrightarrow> set_option (clientWs ow) \<subseteq> client_sockets st"
    and "jm_get (sessionEventSubscribers st) k = Some subs \<Longrightarrow> set subs \<subseteq> client_sockets st"
    unfolding referenced_sockets_def using owner_sockets_get subscriber_sockets_get by blast+
qed

text \<open>What a state opened inside a handler still is: it has the clients the handler began with, and
  the invariant.\<close>

lemma open_stateD:
  assumes "open_state key wid target now f r0 = (st, r1)"
    and "footprint cfg auth key E r r0" and "st_inv cfg auth (state_at key r)"
    and "\<And>x. st_step cfg auth x (f x)"
  shows "footprint cfg auth key E r r1" and "st_inv cfg auth st" and "clients st = clients (state_at key r)"
    and "client_sockets st = client_sockets (state_at key r)" and "daemon st = daemon (state_at key r)"
    and "daemonIssueGeneration st = daemonIssueGeneration (state_at key r)"
    and "state_at key r1 = st" and "jm_get (registry r1) key = Some st"
proof -
  have st: "st = f (opened key wid target now r0)" and r1: "r1 = snd (open_state key wid target now f r0)"
    using assms(1) fst_open_state [of key wid target now f r0] by simp_all
  have step: "st_step cfg auth (state_at key r) st"
    unfolding st using assms(2,4) opened_step st_step_trans unfolding footprint_def by meson
  then show "st_inv cfg auth st" and c: "clients st = clients (state_at key r)"
    and "daemon st = daemon (state_at key r)"
    and "daemonIssueGeneration st = daemonIssueGeneration (state_at key r)"
    using assms(3) by (simp_all add: st_step_def)
  show "client_sockets st = client_sockets (state_at key r)" using c by (rule client_sockets_cong)
  show "footprint cfg auth key E r r1" unfolding r1 by (intro footprint_open_state assms(2,4))
  show "state_at key r1 = st" by (simp add: r1 st)
  show "jm_get (registry r1) key = Some st" by (simp add: r1 st open_state_eq)
qed

lemma open_state_target:
  assumes "open_state key wid target now f r0 = (st, r1)" and "wid \<noteq> []"
    and "\<And>x. runtimeTargetId (f x) = runtimeTargetId x"
  shows "runtimeTargetId st = target"
  using assms fst_open_state [of key wid target now f r0] opened_target by simp

lemma footprint_deliverToOwner [fp_intros]:
  assumes "footprint cfg auth key E r r0" and "\<And>x. clientWs ow = Some x \<Longrightarrow> E (Sent x (Text text))"
    and "truthy target \<Longrightarrow> E (PublishDaemonToClients wid (the target) None text (sourceRelayId ow))"
  shows "footprint cfg auth key E r (snd (deliverToOwner cfg wid target ow text m1 m2 m3 r0))"
  unfolding deliverToOwner_def is_open_def
  by (auto intro!: fp_intros assms split: option.splits)

lemma runtimeTargetId_prune [simp]:
  "runtimeTargetId (pruneStaleSessionOwners now st) = runtimeTargetId st"
  "runtimeTargetId (pruneStaleKeyExchangeRequests now st) = runtimeTargetId st"
  "runtimeTargetId (pruneStalePairingRequests now st) = runtimeTargetId st"
  by (simp_all add: pruneStaleSessionOwners_def pruneStaleKeyExchangeRequests_def pruneStalePairingRequests_def)

lemma footprint_routeSessionOwnedFrame [fp_intros]:
  assumes "footprint cfg auth key E r r0" and "st_inv cfg auth (state_at key r)"
    and "\<And>tg tx rl. wid = [] \<Longrightarrow> E (PublishDaemonToClients wid tg None tx rl)"
    and "\<And>x. x \<in> client_sockets (state_at key r) \<Longrightarrow> E (Sent x (Text text))"
  shows "footprint cfg auth key E r (snd (routeSessionOwnedFrame cfg now wid key sid text r0))"
proof -
  obtain st r1 where os: "open_state key wid None now (pruneStaleSessionOwners now) r0 = (st, r1)" by fastforce
  note D = open_stateD [OF os assms(1,2) st_step_prune(3)]
  have t: "truthy (runtimeTargetId st) \<Longrightarrow> wid = []"
    using open_state_target [OF os] by (cases "wid = []") simp_all
  show ?thesis
  proof (cases "jm_get (sessionOwners st) sid")
    case (Some ow)
    with owner_is_client(1) [OF D(2) Some] D(4) assms(4) show ?thesis
      by (auto simp: routeSessionOwnedFrame_def os intro!: footprint_deliverToOwner D(1) assms(3) dest: t)
  qed (simp add: routeSessionOwnedFrame_def os fp_intros D(1))
qed

lemma footprint_routeKeyExchangeResponse [fp_intros]:
  assumes "footprint cfg auth key E r r0" and "st_inv cfg auth (state_at key r)"
    and "\<And>tg tx rl. wid = [] \<Longrightarrow> E (PublishDaemonToClients wid tg None tx rl)"
    and "\<And>x. x \<in> client_sockets (state_at key r) \<Longrightarrow> E (Sent x (Text text))"
  shows "footprint cfg auth key E r (routeKeyExchangeResponse cfg now wid key text parsed r0)"
proof -
  obtain st r1 where os: "open_state key wid None now (pruneStaleKeyExchangeRequests now) r0 = (st, r1)" by fastforce
  note D = open_stateD [OF os assms(1,2) st_step_prune(2)]
  have t: "truthy (runtimeTargetId st) \<Longrightarrow> wid = []"
    using open_state_target [OF os] by (cases "wid = []") simp_all
  show ?thesis
  proof (cases "jm_get (keyExchangeRequests st) (trimmedField parsed ''requestId'')")
    case (Some ow)
    have own: "set_option (clientWs ow) \<subseteq> client_sockets (state_at key r)"
      using owner_is_client(2) [OF D(2) Some] D(4) by simp
    have step: "st_step cfg auth x (trackSessionOwner (x\<lparr>keyExchangeRequests := jm_delete k (keyExchangeRequests x)\<rparr>)
        sid (ow\<lparr>createdAt := now\<rparr>) (maxSessionOwnerTrack cfg))"
      if "clients x = clients (state_at key r)" for x k sid
      using own that
      by (intro st_step_trans [OF st_step_delete(2) st_step_track(3)]) (simp add: client_sockets_def)
    show ?thesis using own assms(4)
      by (auto simp: routeKeyExchangeResponse_def os Some Let_def
          intro!: footprint_deliverToOwner footprint_upd_state footprint_helpers D(1) step assms(1,3) dest: t)
  qed (simp add: routeKeyExchangeResponse_def os Let_def fp_intros D(1) assms(1))
qed

lemma footprint_routePairingResponse [fp_intros]:
  assumes "footprint cfg auth key E r r0" and "st_inv cfg auth (state_at key r)"
    and "\<And>tg tx rl. wid = [] \<Longrightarrow> E (PublishDaemonToClients wid tg None tx rl)"
    and "\<And>x. x \<in> client_sockets (state_at key r) \<Longrightarrow> E (Sent x (Text text))"
  shows "footprint cfg auth key E r (routePairingResponse cfg now wid key text parsed r0)"
proof -
  obtain st r1 where os: "open_state key wid None now (pruneStalePairingRequests now) r0 = (st, r1)" by fastforce
  note D = open_stateD [OF os assms(1,2) st_step_prune(1)]
  have t: "truthy (runtimeTargetId st) \<Longrightarrow> wid = []"
    using open_state_target [OF os] by (cases "wid = []") simp_all
  show ?thesis
  proof (cases "jm_get (pairingRequests st) (the (extractPairingRequestId parsed))")
    case (Some ow)
    have own: "set_option (clientWs ow) \<subseteq> client_sockets (state_at key r)"
      using owner_is_client(3) [OF D(2) Some] D(4) by simp
    show ?thesis using own assms(4)
      by (auto simp: routePairingResponse_def os Some Let_def
          intro!: footprint_deliverToOwner footprint_upd_state footprint_helpers D(1) st_step_delete assms(3) dest: t)
  qed (simp add: routePairingResponse_def os Let_def fp_intros D(1))
qed

lemma footprint_fanOut [fp_intros]:
  assumes "footprint cfg auth key E r r0" and "\<And>x. x \<in> set subs \<Longrightarrow> E (Sent x (Text text))"
  shows "footprint cfg auth key E r (snd (fanOut cfg text subs r0))"
  using assms
proof (induction subs arbitrary: r0)
  case (Cons c subs)
  then have "footprint cfg auth key E r (snd (fanOut cfg text subs (snd (safeSend cfg c (Text text) r0))))"
    by (intro Cons.IH fp_intros) simp_all
  then show ?case using Cons by (simp add: Let_def case_prod_beta)
qed simp

lemma footprint_routeSessionEventRelayFrame [fp_intros]:
  assumes "footprint cfg auth key E r r0" and "st_inv cfg auth (state_at key r)"
    and "\<And>x. x \<in> client_sockets (state_at key r) \<Longrightarrow> E (Sent x (Text text))"
  shows "footprint cfg auth key E r (snd (routeSessionEventRelayFrame cfg now wid key text parsed r0))"
proof -
  obtain st r1 where os: "open_state key wid None now id r0 = (st, r1)" by fastforce
  note D = open_stateD [OF os assms(1,2) st_step_prune(4)]
  show ?thesis
  proof (cases "jm_get (sessionEventSubscribers st) (trimmedField parsed ''channel'')")
    case (Some subs)
    obtain n r2 where fo: "fanOut cfg text subs r1 = (n, r2)" by fastforce
    have "footprint cfg auth key E r (snd (fanOut cfg text subs r1))"
      using owner_is_client(4) [OF D(2) Some] D(4) assms(3) by (intro footprint_fanOut D(1)) blast
    then show ?thesis
      by (simp add: routeSessionEventRelayFrame_def os Some fo Let_def fp_intros D(1) assms(1))
  qed (simp add: routeSessionEventRelayFrame_def os Let_def fp_intros D(1) assms(1))
qed

lemma footprint_routeSessionViewerPresenceFrame [fp_intros]:
  assumes "footprint cfg auth key E r r0" and "st_inv cfg auth (state_at key r)"
    and "\<And>x. x \<in> client_sockets (state_at key r) \<Longrightarrow> x \<noteq> s \<Longrightarrow> E (Sent x (Text text))"
    and "\<And>j. E (Sent s (Stringify j))"
  shows "footprint cfg auth key E r (routeSessionViewerPresenceFrame cfg now s wid key cl clId text parsed r0)"
proof -
  define ch where "ch = trimmedField parsed ''channel''"
  obtain ok ra where ra: "runtimeAllow now clId wid r0 = (ok, ra)" by fastforce
  have fa: "footprint cfg auth key E r ra"
    using footprint_helpers(6) [OF assms(1), of now clId wid] by (simp add: ra)
  obtain st r1 where os: "open_state key wid None now id ra = (st, r1)" by fastforce
  note D = open_stateD [OF os fa assms(2) st_step_prune(4)]
  define subs where "subs = (case jm_get (sessionEventSubscribers st) ch of Some subs \<Rightarrow> subs | None \<Rightarrow> [])"
  have "set subs \<subseteq> client_sockets (state_at key r)"
    using owner_is_client(4) [OF D(2), of ch] D(4)
    by (cases "jm_get (sessionEventSubscribers st) ch") (auto simp: subs_def)
  then have ff: "footprint cfg auth key E r (snd (fanOut cfg text (filter (\<lambda>x. x \<noteq> s) subs) r1))"
    using assms(3) by (intro footprint_fanOut D(1)) auto
  obtain n r2 where fo: "fanOut cfg text (filter (\<lambda>x. x \<noteq> s) subs) r1 = (n, r2)" by fastforce
  show ?thesis
    using ff
    by (simp add: routeSessionViewerPresenceFrame_def ra os subs_def [symmetric] ch_def [symmetric] fo Let_def
        channelDenied_def fp_intros fa assms(1,4))
qed

lemma footprint_handleSessionEventClientFrame [fp_intros]:
  assumes "footprint cfg auth key E r r0" and "s \<in> client_sockets (state_at key r)"
    and "\<And>ch. ch \<in> set (sessionEventChannels cl) \<Longrightarrow> auth ch s"
    and "\<And>j. E (Sent s (Stringify j))"
  shows "footprint cfg auth key E r (handleSessionEventClientFrame cfg now s wid key cl parsed r0)"
proof -
  define ch where "ch = trimmedField parsed ''channel''"
  have open_fp: "footprint cfg auth key E r (snd (open_state key wid None now f r0))"
    if "\<And>x. clients x = clients (state_at key r) \<Longrightarrow> st_step cfg auth x (f x)" for f
    using that by (rule footprint_open_state [OF assms(1)])
  have sub: "st_step cfg auth x (subscribe ch s x)"
    if "clients x = clients (state_at key r)" and "ch \<in> set (sessionEventChannels cl)" for x
    using st_step_subscribe [of s x auth ch cfg] assms(2,3) that client_sockets_cong [OF that(1)] by simp
  show ?thesis
    by (auto simp: handleSessionEventClientFrame_def channelDenied_def Let_def case_prod_beta ch_def [symmetric]
        intro!: footprint_safeSend footprint_helpers open_fp st_step_unsubscribe sub assms(1,4) st_step_prune(4))
qed

text \<open>Workers.\<close>

lemma footprint_forwardWorkerTransportRequest:
  assumes "footprint cfg auth key E r r0" and "\<And>j. E (Sent s (Stringify j))"
    and "\<And>m p h b ex. stringValue (Option.bind cl cl_managedExecutorId) = Some ex \<Longrightarrow>
           workerRequestPathAllowed p wid ex \<Longrightarrow> h = filteredWorkerHeaders (field parsed ''headers'') \<Longrightarrow>
           E (Fetch m p h b)"
  shows "footprint cfg auth key E r (forwardWorkerTransportRequest cfg s wid cl parsed r0)"
  unfolding forwardWorkerTransportRequest_def workerResponse_def Let_def
  by (auto intro!: footprint_helpers footprint_emit footprint_safeSend assms split: option.splits)

text \<open>Clients without a local daemon.\<close>

lemma footprint_routeClientMessageWithoutLocalDaemon [fp_intros]:
  assumes "footprint cfg auth key E r r0" and "\<And>j. E (Sent s (Stringify j))"
  shows "footprint cfg auth key E r (routeClientMessageWithoutLocalDaemon cfg now s wid tg mc clId text r0)"
  by (simp add: routeClientMessageWithoutLocalDaemon_def fp_intros assms)

lemma footprint_daemonUnavailable [fp_intros]:
  assumes "footprint cfg auth key E r r0" and "\<And>j. E (Sent s (Stringify j))"
  shows "footprint cfg auth key E r (daemonUnavailable cfg now s t r0)"
  by (simp add: daemonUnavailable_def fp_intros assms)

section \<open>Rules for the message handlers\<close>

lemma is_open_Some: "is_open r d \<longleftrightarrow> (\<exists>x. d = Some x \<and> readyState r x = OPEN)"
  by (auto simp: is_open_def split: option.splits)

lemma daemon_at: "Option.bind (jm_get (registry r) key) daemon = daemon (state_at key r)"
  by (simp add: state_at_def new_state_def split: option.splits)

lemma footprint_daemon: "footprint cfg auth key E r r0 \<Longrightarrow> daemon (state_at key r0) = daemon (state_at key r)"
  by (simp add: footprint_def st_step_def)

lemma footprint_forwardToDaemon:
  assumes "footprint cfg auth (c_scopeKey c) E r r0" and "\<And>j. E (Sent s (Stringify j))"
    and "\<And>d. daemon (state_at (c_scopeKey c) r) = Some d \<Longrightarrow> E (Sent d (Text text))"
  shows "footprint cfg auth (c_scopeKey c) E r (forwardToDaemon cfg now s c text r0)"
  using footprint_daemon [OF assms(1)]
  by (auto simp: forwardToDaemon_def daemon_at is_open_Some Let_def
      intro!: footprint_routeClientMessageWithoutLocalDaemon footprint_safeSend footprint_helpers assms)

lemma footprint_kexStage:
  assumes "footprint cfg auth (c_scopeKey c) E r r0" and "s \<in> client_sockets (state_at (c_scopeKey c) r)"
  shows "case_sum (footprint cfg auth (c_scopeKey c) E r) (footprint cfg auth (c_scopeKey c) E r)
           (kexStage cfg now s c parsed r0)"
proof -
  have st: "st_step cfg auth x (trackKeyExchangeRequest x k (localOwner s now) (maxPairingRequestTrack cfg))"
    if "clients x = clients (state_at (c_scopeKey c) r)" for x k
    using assms(2) client_sockets_cong [OF that] by (intro st_step_track(2)) (simp add: localOwner_def)
  show ?thesis
    by (auto simp: kexStage_def Let_def case_prod_beta
        intro!: footprint_closeWithReason footprint_helpers footprint_upd_state st assms(1))
qed

lemma footprint_envelopeStage:
  assumes "footprint cfg auth key E r r0"
  shows "case_sum (footprint cfg auth key E r) (footprint cfg auth key E r) (envelopeStage now s c parsed r0)"
  by (auto simp: envelopeStage_def Let_def case_prod_beta
      intro!: footprint_closeWithReason footprint_helpers assms)

lemma footprint_pairingStage:
  assumes "footprint cfg auth (c_scopeKey c) E r r0" and "s \<in> client_sockets (state_at (c_scopeKey c) r)"
  shows "case_sum (footprint cfg auth (c_scopeKey c) E r) (footprint cfg auth (c_scopeKey c) E r)
           (pairingStage cfg now s c parsed r0)"
proof -
  have st: "st_step cfg auth x (trackPairingRequest x k (localOwner s now) (maxPairingRequestTrack cfg))"
    if "clients x = clients (state_at (c_scopeKey c) r)" for x k
    using assms(2) client_sockets_cong [OF that] by (intro st_step_track(1)) (simp add: localOwner_def)
  show ?thesis
    by (auto simp: pairingStage_def Let_def case_prod_beta
        intro!: footprint_closeWithReason footprint_helpers footprint_upd_state st assms(1))
qed

lemma footprint_continue:
  assumes "case_sum F F x" and "\<And>r. F r \<Longrightarrow> case_sum F F (f r)"
  shows "case_sum F F (continue x f)"
  using assms by (cases x) (simp_all add: continue_def)

lemma footprint_runtimeClientMessage:
  assumes "footprint cfg auth (c_scopeKey c) E r r0" and "s \<in> client_sockets (state_at (c_scopeKey c) r)"
    and "\<And>j. E (Sent s (Stringify j))"
    and "\<And>d. daemon (state_at (c_scopeKey c) r) = Some d \<Longrightarrow> E (Sent d (Text text))"
  shows "footprint cfg auth (c_scopeKey c) E r (runtimeClientMessage cfg now s c text parsed r0)"
proof -
  let ?F = "footprint cfg auth (c_scopeKey c) E r"
  let ?r = "upd_state (c_scopeKey c) (pruneStale now) r0"
  have r: "?F ?r" by (intro footprint_upd_state assms(1) st_step_pruneStale)
  have "case_sum ?F ?F (continue (continue (kexStage cfg now s c parsed ?r) (envelopeStage now s c parsed))
                   (pairingStage cfg now s c parsed))"
    by (intro footprint_continue footprint_kexStage footprint_envelopeStage footprint_pairingStage r assms(2))
  then have stages: "case continue (continue (kexStage cfg now s c parsed ?r) (envelopeStage now s c parsed))
                   (pairingStage cfg now s c parsed) of Inl r1 \<Rightarrow> ?F r1 | Inr r1 \<Rightarrow> ?F (forwardToDaemon cfg now s c text r1)"
    by (auto split: sum.splits intro!: footprint_forwardToDaemon assms(3,4))
  show ?thesis using stages
    by (auto simp: runtimeClientMessage_def Let_def clientRejected_def split: sum.splits
        intro!: footprint_closeWithReason footprint_helpers r)
qed

lemma footprint_sessionEventsClientMessage:
  assumes "footprint cfg auth (c_scopeKey c) E r r0" and "st_inv cfg auth (state_at (c_scopeKey c) r)"
    and "s \<in> client_sockets (state_at (c_scopeKey c) r)"
    and "\<And>ch. ch \<in> set (sessionEventChannels (c_claims c)) \<Longrightarrow> auth ch s"
    and "\<And>j. E (Sent s (Stringify j))"
    and "\<And>x. x \<in> client_sockets (state_at (c_scopeKey c) r) \<Longrightarrow> x \<noteq> s \<Longrightarrow> E (Sent x (Text text))"
  shows "footprint cfg auth (c_scopeKey c) E r (sessionEventsClientMessage cfg now s c text parsed r0)"
  by (auto simp: sessionEventsClientMessage_def clientRejected_def statusNotice_def
      intro!: footprint_safeSend footprint_helpers footprint_routeSessionViewerPresenceFrame
        footprint_handleSessionEventClientFrame assms)

lemma footprint_clientMessage:
  assumes "st_inv cfg auth (state_at (c_scopeKey c) r)" and "s \<in> client_sockets (state_at (c_scopeKey c) r)"
    and "\<And>ch. ch \<in> set (sessionEventChannels (c_claims c)) \<Longrightarrow> auth ch s"
    and "\<And>j. E (Sent s (Stringify j))"
    and "\<And>d. c_clientScope c \<noteq> Session_events \<Longrightarrow> daemon (state_at (c_scopeKey c) r) = Some d \<Longrightarrow> E (Sent d (Text text))"
    and "\<And>x. c_clientScope c = Session_events \<Longrightarrow> x \<in> client_sockets (state_at (c_scopeKey c) r) \<Longrightarrow> x \<noteq> s \<Longrightarrow>
           E (Sent x (Text text))"
  shows "footprint cfg auth (c_scopeKey c) E r (clientMessage cfg now s c text r)"
  unfolding clientMessage_def Let_def clientRejected_def statusNotice_def
  by (auto intro!: footprint_closeWithReason footprint_safeSend footprint_helpers
      footprint_sessionEventsClientMessage footprint_runtimeClientMessage assms(1-4)
      intro: assms(5,6) split: option.splits)

lemma footprint_routeDaemonFrame:
  assumes "footprint cfg auth (c_scopeKey c) E r r0" and "st_inv cfg auth (state_at (c_scopeKey c) r)"
    and "\<And>tg tx rl. c_workspaceId c = [] \<Longrightarrow> E (PublishDaemonToClients (c_workspaceId c) tg None tx rl)"
    and "\<And>x. x \<in> client_sockets (state_at (c_scopeKey c) r) \<Longrightarrow> E (Sent x (Text text))"
  shows "footprint cfg auth (c_scopeKey c) E r (routeDaemonFrame cfg now c text parsed r0)"
  unfolding routeDaemonFrame_def countToClients_def Let_def
  by (auto intro!: footprint_helpers footprint_routePairingResponse footprint_routeKeyExchangeResponse
      footprint_routeSessionOwnedFrame assms split: option.splits)

lemma footprint_daemonMessage:
  assumes "st_inv cfg auth (state_at (c_scopeKey c) r)"
    and "\<And>tg tx rl. c_workspaceId c = [] \<Longrightarrow> E (PublishDaemonToClients (c_workspaceId c) tg None tx rl)"
    and "\<And>x. x \<in> client_sockets (state_at (c_scopeKey c) r) \<Longrightarrow> E (Sent x (Text text))"
  shows "footprint cfg auth (c_scopeKey c) E r (daemonMessage cfg now s c text r)"
proof -
  obtain ok r1 where da: "daemonAllow now (c_workspaceId c) (markWsActivity now s r) = (ok, r1)" by fastforce
  have "footprint cfg auth (c_scopeKey c) E r (snd (daemonAllow now (c_workspaceId c) (markWsActivity now s r)))"
    by (intro footprint_helpers) simp
  then have r1: "footprint cfg auth (c_scopeKey c) E r r1" by (simp add: da)
  show ?thesis
    unfolding daemonMessage_def da Let_def countToClients_def
    by (auto intro!: footprint_closeWithReason footprint_helpers footprint_routeDaemonFrame r1 assms
        split: option.splits)
qed

lemma footprint_workerMessage:
  assumes "\<And>j. E (Sent s (Stringify j))"
    and "\<And>m p h b ex fr. stringValue (Option.bind (c_claims c) cl_managedExecutorId) = Some ex \<Longrightarrow>
           workerRequestPathAllowed p (c_workspaceId c) ex \<Longrightarrow> h = filteredWorkerHeaders fr \<Longrightarrow> E (Fetch m p h b)"
  shows "footprint cfg auth key E r (workerMessage cfg now s c text r)"
proof -
  obtain ok r1 where da: "daemonAllow now (c_workspaceId c) (markWsActivity now s r) = (ok, r1)" by fastforce
  have "footprint cfg auth key E r (snd (daemonAllow now (c_workspaceId c) (markWsActivity now s r)))"
    by (intro footprint_helpers) simp
  then have r1: "footprint cfg auth key E r r1" by (simp add: da)
  show ?thesis
    unfolding workerMessage_def da Let_def
    by (auto intro!: footprint_closeWithReason footprint_helpers footprint_forwardWorkerTransportRequest r1 assms
        split: option.splits)
qed

lemma st_step_trackBusRequests: "st_step cfg auth x (trackBusRequests cfg now fr parsed x)"
proof -
  let ?ow = "\<lparr>clientWs = None, sourceRelayId = Some (bf_sourceRelayId fr), createdAt = now\<rparr>"
  have p: "st_step cfg auth y (trackPairingRequest y k ?ow (maxPairingRequestTrack cfg))"
    and q: "st_step cfg auth y (trackKeyExchangeRequest y k ?ow (maxPairingRequestTrack cfg))" for y k
    by (simp_all add: st_step_track)
  then show ?thesis unfolding trackBusRequests_def Let_def
    by (auto intro!: p q st_step_trans [OF q p])
qed

lemma footprint_routeBusClientFrame:
  assumes "footprint cfg auth key E r r0"
    and "\<And>d. daemon (state_at key r) = Some d \<Longrightarrow> E (Sent d (Text (bf_payload fr)))"
  shows "footprint cfg auth key E r (routeBusClientFrame cfg now key fr r0)"
proof -
  define r1 where "r1 = (case parseFramePayload (bf_payload fr) of
      Some parsed \<Rightarrow> upd_state key (trackBusRequests cfg now fr parsed) r0 | None \<Rightarrow> r0)"
  have r1: "footprint cfg auth key E r r1"
    by (auto simp: r1_def intro!: footprint_upd_state assms(1) st_step_trackBusRequests split: option.splits)
  show ?thesis
    using footprint_daemon [OF r1]
    by (auto simp: routeBusClientFrame_def busRejected_def r1_def [symmetric] daemon_at is_open_Some Let_def
        intro!: footprint_safeSend footprint_helpers r1 assms)
qed

lemma footprint_countRouted: "footprint cfg auth key E r (snd res) \<Longrightarrow> footprint cfg auth key E r (countRouted res)"
  by (simp add: countRouted_def fp_intros)

lemma footprint_routeBusDaemonFrame:
  assumes "footprint cfg auth key E r r0" and "st_inv cfg auth (state_at key r)"
    and "\<And>tg tx rl. bf_workspaceId fr = [] \<Longrightarrow> E (PublishDaemonToClients (bf_workspaceId fr) tg None tx rl)"
    and "\<And>x. x \<in> client_sockets (state_at key r) \<Longrightarrow> E (Sent x (Text (bf_payload fr)))"
  shows "footprint cfg auth key E r (routeBusDaemonFrame cfg now key fr r0)"
proof -
  obtain ok r1 where da: "daemonAllow now (bf_workspaceId fr) r0 = (ok, r1)" by fastforce
  have r1: "footprint cfg auth key E r r1"
    using footprint_helpers(7) [OF assms(1), of now "bf_workspaceId fr"] by (simp add: da)
  show ?thesis
    unfolding routeBusDaemonFrame_def da Let_def busRejected_def
    by (auto intro!: footprint_helpers footprint_countRouted footprint_routePairingResponse
        footprint_routeKeyExchangeResponse footprint_routeSessionEventRelayFrame footprint_routeSessionOwnedFrame
        r1 assms split: option.splits)
qed

lemma footprint_routeBusFrame:
  fixes fr :: bus_frame
  defines "key \<equiv> runtimeScopeKey (bf_workspaceId fr) (Some (bf_runtimeTargetId fr))"
  assumes "st_inv cfg auth (state_at key r)"
    and "\<And>tg tx rl. bf_workspaceId fr = [] \<Longrightarrow> E (PublishDaemonToClients (bf_workspaceId fr) tg None tx rl)"
    and "\<And>x. bf_direction fr = Daemon_to_clients \<Longrightarrow> x \<in> client_sockets (state_at key r) \<Longrightarrow> E (Sent x (Text (bf_payload fr)))"
    and "\<And>d. bf_direction fr = Client_to_daemon \<Longrightarrow> daemon (state_at key r) = Some d \<Longrightarrow> E (Sent d (Text (bf_payload fr)))"
  shows "footprint cfg auth key E r (routeBusFrame cfg now fr r)"
proof -
  let ?f = "\<lambda>s. pruneStale now (s\<lparr>lastActivityAt := now\<rparr>)"
  obtain st r1 where os: "open_state key (bf_workspaceId fr) (Some (bf_runtimeTargetId fr)) now ?f r = (st, r1)"
    by fastforce
  note r1 = open_stateD(1) [OF os footprint_refl assms(2) st_step_pruneStale(2)]
  show ?thesis
    by (auto simp: routeBusFrame_def key_def [symmetric] os busRejected_def Let_def split: direction.splits
        intro!: footprint_helpers footprint_routeBusClientFrame footprint_routeBusDaemonFrame r1 assms(2,3)
        intro: assms(4,5))
qed

end
