(* ===== verification/Relay_Server.thy ===== *)
theory Relay_Server
  imports Relay_Footprint
begin

text \<open>
  The relay process (services/relay/src/index.ts): the upgrade handler, cut at its two awaits, the
  heartbeat, cleanup and presence timers, the bus poll and the shutdown. The socket library's \<open>wss.clients\<close> is
  an argument. The URL parser's result is an argument of the upgrade handler: an error message, or the
  pathname and the query parameters.
\<close>

section \<open>The upgrade handler\<close>

record upgrade_url =
  pathname :: string
  q_role :: "string option"
  q_workspaceId :: "string option"
  q_runtimeTargetId :: "string option"
  q_token :: "string option"

definition id_char :: "char \<Rightarrow> bool" where
  "id_char c \<longleftrightarrow>
     (of_char c \<ge> (65 :: nat) \<and> of_char c \<le> (90 :: nat)) \<or> (of_char c \<ge> (97 :: nat) \<and> of_char c \<le> (122 :: nat)) \<or>
     (of_char c \<ge> (48 :: nat) \<and> of_char c \<le> (57 :: nat)) \<or> c \<in> set ''._:-''"

definition id_ok :: "string \<Rightarrow> bool" where
  "id_ok s \<longleftrightarrow> 1 \<le> length s \<and> length s \<le> 128 \<and> list_all id_char s"

definition UpgradeQuerySchema :: "upgrade_url \<Rightarrow> (role \<times> string \<times> string option) option" where
  "UpgradeQuerySchema u =
     (case map_of [(''workspace-daemon'', Workspace_daemon), (''client'', Client), (''worker'', Worker)]
             (case q_role u of Some x \<Rightarrow> x | None \<Rightarrow> []) of
        None \<Rightarrow> None
      | Some role \<Rightarrow>
          let wid = (case q_workspaceId u of Some x \<Rightarrow> x | None \<Rightarrow> []) in
          if id_ok wid \<and> (case q_runtimeTargetId u of Some t \<Rightarrow> id_ok t | None \<Rightarrow> True)
          then Some (role, wid, q_runtimeTargetId u) else None)"

text \<open>\<open>socket.write(status); socket.destroy()\<close> after a metric.\<close>

definition refuse :: "ws \<Rightarrow> string \<Rightarrow> nat \<Rightarrow> relay \<Rightarrow> relay" where
  "refuse s metric status r = emit (UpgradeRefused s (Some status)) (increment metric 1 r)"

definition upgradeFailed :: "relay_config \<Rightarrow> int \<Rightarrow> ws \<Rightarrow> string \<Rightarrow> string \<Rightarrow> relay \<Rightarrow> relay" where
  "upgradeFailed cfg now s ip message r =
     emit (UpgradeRefused s None)
       (logger_error cfg now ''upgrade_error'' [(''ip'', JStr ip), (''error'', JStr message)]
          (increment ''relay_upgrade_errors_total'' 1 r))"

definition ipConnections :: "relay \<Rightarrow> string \<Rightarrow> int" where
  "ipConnections r ip = (case jm_get (ipConnectionCounts r) ip of Some n \<Rightarrow> n | None \<Rightarrow> 0)"

text \<open>The part between the query validation and the first await.\<close>

definition beginAdmission ::
    "relay_config \<Rightarrow> int \<Rightarrow> ws \<Rightarrow> upgrade \<Rightarrow> string option \<Rightarrow> string option \<Rightarrow> string option \<Rightarrow> relay \<Rightarrow> relay" where
  "beginAdmission cfg now s up authorization protocol queryToken r =
     (case resolveUpgradeAuth (relayMode cfg) authorization protocol queryToken of
        Auth_ok token src \<Rightarrow>
          if up_role up = Client then
            let (st, reg) = getOrCreate (runtimeScopeKey (up_workspaceId up) (up_runtimeTargetId up)) None now (registry r);
                r1 = r\<lparr>registry := reg\<rparr>
            in if jm_size (clients st) \<ge> maxClientsPerWorkspace cfg
               then refuse s ''relay_upgrade_rejected_workspace_clients_total'' 429 r1
               else addTask (AwaitAdmission s up token) r1
          else addTask (AwaitAdmission s up token) r
      | _ \<Rightarrow> refuse s ''relay_upgrade_missing_auth_total'' 401 r)"

definition upgradeRequest ::
    "relay_config \<Rightarrow> int \<Rightarrow> ws \<Rightarrow> string \<Rightarrow> string + upgrade_url \<Rightarrow> string option \<Rightarrow> string option \<Rightarrow> relay \<Rightarrow> relay" where
  "upgradeRequest cfg now s ip parsed authorization protocol r0 =
     (let (allowed, l) = fw_allow ip now (upgradeLimiter r0); r = r0\<lparr>upgradeLimiter := l\<rparr> in
      if \<not> allowed then refuse s ''relay_upgrade_rate_limited_total'' 429 r
      else if totalConnectionCount (registry r) \<ge> maxTotalConnections cfg then
        refuse s ''relay_upgrade_rejected_total_connections_total'' 503 r
      else if ipConnections r ip \<ge> maxConnectionsPerIp cfg then
        refuse s ''relay_upgrade_rejected_ip_connections_total'' 429 r
      else
        (case parsed of
           Inl message \<Rightarrow> upgradeFailed cfg now s ip message r
         | Inr u \<Rightarrow>
             if pathname u \<noteq> ''/ws'' then emit (UpgradeRefused s None) r
             else
               (case UpgradeQuerySchema u of
                  None \<Rightarrow> refuse s ''relay_upgrade_invalid_query_total'' 400 r
                | Some (role, wid, target) \<Rightarrow>
                    beginAdmission cfg now s
                      \<lparr>up_role = role, up_workspaceId = wid, up_runtimeTargetId = target, up_ip = ip\<rparr>
                      authorization protocol (q_token u) r)))"

text \<open>\<open>wss.handleUpgrade\<close> and its callback: the socket is open from here on.\<close>

definition completeUpgrade ::
    "relay_config \<Rightarrow> int \<Rightarrow> ws \<Rightarrow> upgrade \<Rightarrow> claims option \<Rightarrow> string option \<Rightarrow> relay \<Rightarrow> relay" where
  "completeUpgrade cfg now s up cl redirectWsBaseUrl r =
     (let r1 = registerConnection cfg now s (up_role up) (up_workspaceId up) (up_runtimeTargetId up) (up_ip up) cl
                 (r\<lparr>readyState := (readyState r)(s := OPEN)\<rparr>)
      in if truthy redirectWsBaseUrl then
           snd (safeSend cfg s
                  (Stringify (relayRedirectPayload (up_workspaceId up) (the redirectWsBaseUrl) None))
                  (increment ''relay_client_redirect_total'' 1 r1))
         else r1)"

definition admissionResolved :: "relay_config \<Rightarrow> int \<Rightarrow> ws \<Rightarrow> upgrade \<Rightarrow> http_outcome \<Rightarrow> relay \<Rightarrow> relay" where
  "admissionResolved cfg now s up outcome r =
     (let admission = validateAdmission outcome in
      if \<not> ar_ok admission then
        emit (UpgradeRefused s (Some 401))
          (logger_warn cfg now ''admission_denied''
             [(''role'', JStr (role_name (up_role up))), (''workspaceId'', JStr (up_workspaceId up)),
              (''reason'', ar_reason admission), (''status'', JNum (of_int (ar_status admission))),
              (''ip'', JStr (up_ip up))]
             (increment ''relay_admission_denied_total'' 1 r))
      else
        let r1 = increment ''relay_admission_ok_total'' 1 r in
        if up_role up = Client \<and> clientRedirectEnabled cfg \<and> truthy (up_runtimeTargetId up)
        then addTask (AwaitRedirect s up (ar_claims admission)) r1
        else completeUpgrade cfg now s up (ar_claims admission) None r1)"

definition redirectResolved ::
    "relay_config \<Rightarrow> int \<Rightarrow> ws \<Rightarrow> upgrade \<Rightarrow> claims option \<Rightarrow> presence option \<Rightarrow> relay \<Rightarrow> relay" where
  "redirectResolved cfg now s up cl preferred r =
     completeUpgrade cfg now s up cl
       (case preferred of
          Some p \<Rightarrow> if pr_daemonConnected p \<and> pr_relayWsBaseUrl p \<noteq> publicWsBaseUrl cfg
                    then Some (pr_relayWsBaseUrl p) else None
        | None \<Rightarrow> None) r"

section \<open>Timers\<close>

definition heartbeatSocket :: "relay_config \<Rightarrow> int \<Rightarrow> ws \<Rightarrow> relay \<Rightarrow> relay" where
  "heartbeatSocket cfg now s r =
     (case wsHeartbeatState r s of
        None \<Rightarrow> r
      | Some hb \<Rightarrow>
          if now - hb_lastActivityAt hb > idleTimeoutMs cfg then
            terminateWithReason cfg now s ''idle timeout'' (increment ''relay_ws_idle_terminated_total'' 1 r)
          else if awaitingPong hb \<and> now - pingSentAt hb > pongTimeoutMs cfg then
            terminateWithReason cfg now s ''heartbeat timeout'' (increment ''relay_ws_stale_terminated_total'' 1 r)
          else
            let r1 = r\<lparr>wsHeartbeatState :=
                         (wsHeartbeatState r)(s \<mapsto> hb\<lparr>awaitingPong := True, pingSentAt := now\<rparr>)\<rparr>
            in if readyState r s = CONNECTING then terminateWithReason cfg now s ''ping failed'' r1
               else emit (Ping s) r1)"

definition heartbeatTick :: "relay_config \<Rightarrow> int \<Rightarrow> ws list \<Rightarrow> relay \<Rightarrow> relay" where
  "heartbeatTick cfg now wss r0 =
     (let r = fold (heartbeatSocket cfg now) wss r0 in
      r\<lparr>upgradeLimiter := fw_sweepStale now (upgradeLimiter r),
        kexFrameLimiter := fw_sweepStale now (kexFrameLimiter r),
        pairingFrameLimiter := fw_sweepStale now (pairingFrameLimiter r),
        runtimeClientLimiter := tb_sweepStale now (runtimeClientLimiter r),
        runtimeWorkspaceLimiter := tb_sweepStale now (runtimeWorkspaceLimiter r),
        daemonFrameLimiter := tb_sweepStale now (daemonFrameLimiter r)\<rparr>)"

definition cleanupTick :: "relay_config \<Rightarrow> int \<Rightarrow> relay \<Rightarrow> relay" where
  "cleanupTick cfg now r =
     (let (removed, reg) = pruneEmpty (emptyWorkspaceTtlMs cfg) now (registry r) in
      updateGauges
        (fold (\<lambda>wid x. increment ''relay_workspace_evictions_total'' 1
                         (logger_info cfg now ''workspace_evicted'' [(''workspaceId'', JStr wid)] x))
           removed (r\<lparr>registry := reg\<rparr>)))"

text \<open>The presence timer awaits between entries; its effects are listed here as if it did not.\<close>

definition presenceSyncTick :: "relay_config \<Rightarrow> relay \<Rightarrow> relay" where
  "presenceSyncTick cfg r =
     (if \<not> presenceSyncEnabled cfg then r
      else fold (\<lambda>(_, st) x. if is_open r (daemon st)
                             then emit (UpsertPresence (workspaceId st) True (runtimeTargetId st) None) x else x)
             (registry r) r)"

text \<open>The bus poll asks for frames only under this condition, and routes what it gets in order.\<close>

definition busPollDue :: "relay_config \<Rightarrow> bool \<Rightarrow> bool \<Rightarrow> relay \<Rightarrow> bool" where
  "busPollDue cfg crossRelayEnabled busPollInFlight r \<longleftrightarrow>
     \<not> (\<not> busEnabled cfg \<or> \<not> crossRelayEnabled \<or> busPollInFlight) \<and> totalConnectionCount (registry r) \<noteq> 0"

definition busPollFrames :: "relay_config \<Rightarrow> int \<Rightarrow> bus_frame list \<Rightarrow> relay \<Rightarrow> relay" where
  "busPollFrames cfg now frames r = fold (routeBusFrame cfg now) frames r"

definition shutdown :: "ws list \<Rightarrow> relay \<Rightarrow> relay" where
  "shutdown wss r = fold (\<lambda>s. closeWithReason s 1001 ''relay shutting down'') wss r"

end
