(* ===== verification/Relay_System.thy ===== *)
theory Relay_System
  imports Relay_Server
begin

text \<open>
  The relay as a state machine: one step per event the process handles (an upgrade request, the end of
  an awaited call, a message, close, error or pong of a socket, frames from the bus, a timer, and what the network
  does to sockets and buffers), in any order. \<open>relay_inv\<close> is the invariant of the reachable states; it ties the
  registry to the installed handlers, and the isolation of tenants follows from it.
\<close>

section \<open>Steps\<close>

definition finishTask :: "task \<Rightarrow> relay \<Rightarrow> relay" where
  "finishTask t r = r\<lparr>tasks := remove1 t (tasks r)\<rparr>"

definition initial :: "relay \<Rightarrow> bool" where
  "initial r \<longleftrightarrow> registry r = [] \<and> conns r = Map.empty \<and> tasks r = [] \<and> ipConnectionCounts r = [] \<and> out r = []"

inductive relay_step :: "relay_config \<Rightarrow> relay \<Rightarrow> relay \<Rightarrow> bool" for cfg :: relay_config where
  upgrade: "conns r s = None \<Longrightarrow> s \<notin> set (pending r) \<Longrightarrow>
    relay_step cfg r (upgradeRequest cfg now s ip parsed authorization protocol r)"
| admission: "AwaitAdmission s up token \<in> set (tasks r) \<Longrightarrow>
    relay_step cfg r (admissionResolved cfg now s up outcome (finishTask (AwaitAdmission s up token) r))"
| redirect: "AwaitRedirect s up cl \<in> set (tasks r) \<Longrightarrow>
    relay_step cfg r (redirectResolved cfg now s up cl preferred (finishTask (AwaitRedirect s up cl) r))"
| redirect_failed: "AwaitRedirect s up cl \<in> set (tasks r) \<Longrightarrow>
    relay_step cfg r (upgradeFailed cfg now s (up_ip up) message (finishTask (AwaitRedirect s up cl) r))"
| message: "relay_step cfg r (onMessage cfg now s text r)"
| close: "relay_step cfg r (onClose cfg now s r)"
| error: "onError cfg now s message r = Some r' \<Longrightarrow> relay_step cfg r r'"
| pong: "relay_step cfg r (handlePong now s r)"
| fetched: "AwaitFetch s wc \<in> set (tasks r) \<Longrightarrow>
    relay_step cfg r (finishWorkerTransportRequest cfg now s wc fetched (finishTask (AwaitFetch s wc) r))"
| presence: "AwaitPresence s t \<in> set (tasks r) \<Longrightarrow>
    relay_step cfg r (presenceResolved cfg now s t preferred (finishTask (AwaitPresence s t) r))"
| published: "AwaitPublish s t rid \<in> set (tasks r) \<Longrightarrow>
    relay_step cfg r (publishCompleted cfg now s t rid ok (finishTask (AwaitPublish s t rid) r))"
| bus: "relay_step cfg r (busPollFrames cfg now frames r)"
| heartbeat: "relay_step cfg r (heartbeatTick cfg now wss r)"
| cleanup: "relay_step cfg r (cleanupTick cfg now r)"
| presence_sync: "relay_step cfg r (presenceSyncTick cfg r)"
| stop: "relay_step cfg r (shutdown wss r)"
| network: "\<forall>s. rs s = OPEN \<longrightarrow> readyState r s = OPEN \<Longrightarrow>
    relay_step cfg r (r\<lparr>readyState := rs, bufferedAmount := ba\<rparr>)"

definition reachable :: "relay_config \<Rightarrow> relay \<Rightarrow> bool" where
  "reachable cfg r \<longleftrightarrow> (\<exists>r0. initial r0 \<and> (relay_step cfg)\<^sup>*\<^sup>* r0 r)"

section \<open>The invariant\<close>

definition authorised :: "relay \<Rightarrow> string \<Rightarrow> ws \<Rightarrow> bool" where
  "authorised r ch s \<longleftrightarrow> (\<exists>c. conns r s = Some c \<and> ch \<in> set (sessionEventChannels (c_claims c)))"

definition conn_ok :: "conn \<Rightarrow> bool" where
  "conn_ok c \<longleftrightarrow> c_workspaceId c \<noteq> [] \<and> claimed cl_workspaceId (c_claims c) = c_workspaceId c \<and>
     c_scopeKey c = runtimeScopeKey (c_workspaceId c) (c_runtimeTargetId c)"

definition has_conn :: "relay \<Rightarrow> ws \<Rightarrow> role \<Rightarrow> string \<Rightarrow> bool" where
  "has_conn r s role key \<longleftrightarrow> (\<exists>c. conns r s = Some c \<and> c_role c = role \<and> c_scopeKey c = key)"

definition ip_sockets :: "relay \<Rightarrow> string \<Rightarrow> ws set" where
  "ip_sockets r ip = {s. \<exists>c. conns r s = Some c \<and> c_ip c = ip}"

definition registry_inv :: "relay_config \<Rightarrow> relay \<Rightarrow> bool" where
  "registry_inv cfg r \<longleftrightarrow> jm_wf (registry r) \<and> (\<forall>key. st_inv cfg (authorised r) (state_at key r))"

definition sockets_inv :: "relay \<Rightarrow> bool" where
  "sockets_inv r \<longleftrightarrow>
     (\<forall>key s. s \<in> client_sockets (state_at key r) \<longleftrightarrow> has_conn r s Client key) \<and>
     (\<forall>key s. daemon (state_at key r) = Some s \<longrightarrow> has_conn r s Workspace_daemon key) \<and>
     (\<forall>s c. conns r s = Some c \<longrightarrow> conn_ok c)"

definition pending_inv :: "relay \<Rightarrow> bool" where
  "pending_inv r \<longleftrightarrow> distinct (pending r) \<and> (\<forall>s \<in> set (pending r). conns r s = None)"

definition counts_inv :: "relay \<Rightarrow> bool" where
  "counts_inv r \<longleftrightarrow> finite (dom (conns r)) \<and>
     (\<forall>ip. jm_get (ipConnectionCounts r) ip =
            (if ip_sockets r ip = {} then None else Some (int (card (ip_sockets r ip)))))"

definition relay_inv :: "relay_config \<Rightarrow> relay \<Rightarrow> bool" where
  "relay_inv cfg r \<longleftrightarrow> registry_inv cfg r \<and> sockets_inv r \<and> pending_inv r \<and> counts_inv r"

lemmas relay_inv_defs = relay_inv_def registry_inv_def sockets_inv_def pending_inv_def counts_inv_def

section \<open>Steps within a footprint keep it\<close>

lemma authorised_cong: "conns r' = conns r \<Longrightarrow> authorised r' = authorised r"
  by (simp add: authorised_def fun_eq_iff)

lemma footprint_state:
  assumes "footprint cfg auth key E r r'"
  shows "clients (state_at k r') = clients (state_at k r)" "daemon (state_at k r') = daemon (state_at k r)"
    "daemonIssueGeneration (state_at k r') = daemonIssueGeneration (state_at k r)"
    "st_inv cfg auth (state_at k r) \<Longrightarrow> st_inv cfg auth (state_at k r')"
  using assms by (cases "k = key"; simp add: footprint_def st_step_def state_at_def)+

lemma inv_footprint:
  assumes "relay_inv cfg r" and "footprint cfg (authorised r) key E r r'"
  shows "relay_inv cfg r'"
proof -
  note st = footprint_state [OF assms(2)]
  have same: "conns r' = conns r" "ipConnectionCounts r' = ipConnectionCounts r" "pending r' = pending r"
    and wf: "jm_wf (registry r) \<Longrightarrow> jm_wf (registry r')"
    using assms(2) by (simp_all add: footprint_def)
  show ?thesis using assms(1) wf st(4)
    by (simp add: relay_inv_defs authorised_cong [OF same(1)] has_conn_def ip_sockets_def client_sockets_def
        same st(1,2))
qed

lemma inv_cong:
  assumes "registry r' = registry r" "conns r' = conns r" "pending r' = pending r"
    "ipConnectionCounts r' = ipConnectionCounts r"
  shows "relay_inv cfg r' = relay_inv cfg r"
proof -
  have "state_at k r' = state_at k r" for k using assms(1) by (simp add: state_at_def)
  then show ?thesis
    using assms by (simp add: relay_inv_defs authorised_cong [OF assms(2)] has_conn_def ip_sockets_def)
qed

lemma inv_environment:
  "relay_inv cfg (r\<lparr>readyState := rs\<rparr>) = relay_inv cfg r"
  "relay_inv cfg (r\<lparr>bufferedAmount := ba\<rparr>) = relay_inv cfg r"
  "relay_inv cfg (r\<lparr>readyState := rs, bufferedAmount := ba\<rparr>) = relay_inv cfg r"
  by (intro inv_cong; simp add: pending_def)+

lemma inv_helpers [simp]:
  "relay_inv cfg (increment n d r) = relay_inv cfg r" "relay_inv cfg (updateGauges r) = relay_inv cfg r"
  "relay_inv cfg (logger_info c t e ds r) = relay_inv cfg r" "relay_inv cfg (logger_warn c t e ds r) = relay_inv cfg r"
  "relay_inv cfg (logger_error c t e ds r) = relay_inv cfg r" "relay_inv cfg (emit ef r) = relay_inv cfg r"
  "relay_inv cfg (closeWithReason s cd m r) = relay_inv cfg r"
  "relay_inv cfg (snd (safeSend c s w r)) = relay_inv cfg r"
  by (intro inv_cong; simp add: pending_def)+

lemma state_at_empty: "registry r = [] \<Longrightarrow> state_at key r = new_state key None 0"
  by (simp add: state_at_def)

lemma new_state_empty [simp]: "client_sockets (new_state key md now) = {}" "daemon (new_state key md now) = None"
  "daemonIssueGeneration (new_state key md now) = None" "clients (new_state key md now) = []"
  by (simp_all add: new_state_def client_sockets_def jm_keys_def)

lemma inv_initial: "initial r \<Longrightarrow> relay_inv cfg r"
  by (simp add: initial_def relay_inv_defs state_at_empty pending_def ip_sockets_def has_conn_def
      List.map_filter_def)

section \<open>Messages, bus frames and awaited calls\<close>

lemma client_message_footprint:
  assumes "relay_inv cfg r" and "conns r s = Some c" and "c_role c = Client"
    and "\<And>j. E (Sent s (Stringify j))"
    and "\<And>d. c_clientScope c \<noteq> Session_events \<Longrightarrow> has_conn r d Workspace_daemon (c_scopeKey c) \<Longrightarrow> E (Sent d (Text text))"
    and "\<And>x. c_clientScope c = Session_events \<Longrightarrow> has_conn r x Client (c_scopeKey c) \<Longrightarrow> x \<noteq> s \<Longrightarrow> E (Sent x (Text text))"
  shows "footprint cfg (authorised r) (c_scopeKey c) E r (clientMessage cfg now s c text r)"
proof (rule footprint_clientMessage)
  show "st_inv cfg (authorised r) (state_at (c_scopeKey c) r)"
    using assms(1) by (simp add: relay_inv_defs)
  show "s \<in> client_sockets (state_at (c_scopeKey c) r)"
    using assms(1-3) by (auto simp: relay_inv_defs has_conn_def)
  show "authorised r ch s" if "ch \<in> set (sessionEventChannels (c_claims c))" for ch
    using that assms(2) by (auto simp: authorised_def)
qed (use assms in \<open>auto simp: relay_inv_defs\<close>)

lemma daemon_message_footprint:
  assumes "relay_inv cfg r" and "conns r s = Some c"
    and "\<And>x. has_conn r x Client (c_scopeKey c) \<Longrightarrow> E (Sent x (Text text))"
  shows "footprint cfg (authorised r) (c_scopeKey c) E r (daemonMessage cfg now s c text r)"
proof (rule footprint_daemonMessage)
  show "st_inv cfg (authorised r) (state_at (c_scopeKey c) r)"
    using assms(1) by (simp add: relay_inv_defs)
qed (use assms in \<open>auto simp: relay_inv_defs conn_ok_def\<close>)

lemma bus_frame_footprint:
  fixes fr :: bus_frame
  defines "key \<equiv> runtimeScopeKey (bf_workspaceId fr) (Some (bf_runtimeTargetId fr))"
  assumes "relay_inv cfg r"
    and "\<And>tg tx rl. bf_workspaceId fr = [] \<Longrightarrow> E (PublishDaemonToClients (bf_workspaceId fr) tg None tx rl)"
    and "\<And>x. bf_direction fr = Daemon_to_clients \<Longrightarrow> has_conn r x Client key \<Longrightarrow> E (Sent x (Text (bf_payload fr)))"
    and "\<And>d. bf_direction fr = Client_to_daemon \<Longrightarrow> has_conn r d Workspace_daemon key \<Longrightarrow> E (Sent d (Text (bf_payload fr)))"
  shows "footprint cfg (authorised r) key E r (routeBusFrame cfg now fr r)"
  unfolding key_def
proof (rule footprint_routeBusFrame)
  show "st_inv cfg (authorised r) (state_at (runtimeScopeKey (bf_workspaceId fr) (Some (bf_runtimeTargetId fr))) r)"
    using assms(2) by (simp add: relay_inv_defs)
qed (use assms in \<open>auto simp: relay_inv_defs\<close>)

lemma inv_message: "relay_inv cfg r \<Longrightarrow> relay_inv cfg (onMessage cfg now s text r)"
proof (cases "conns r s")
  case (Some c)
  assume inv: "relay_inv cfg r"
  show ?thesis
  proof (cases "c_role c")
    case Workspace_daemon
    then show ?thesis
      using inv_footprint [OF inv daemon_message_footprint [OF inv Some, of "\<lambda>_. True"]] Some
      by (simp add: onMessage_def)
  next
    case Client
    then show ?thesis
      using inv_footprint [OF inv client_message_footprint [OF inv Some, of "\<lambda>_. True"]] Some
      by (simp add: onMessage_def)
  next
    case Worker
    then show ?thesis
      using inv_footprint [OF inv footprint_workerMessage [of "\<lambda>_. True"]] Some
      by (simp add: onMessage_def)
  qed
qed (simp add: onMessage_def)

lemma inv_busFrame: "relay_inv cfg r \<Longrightarrow> relay_inv cfg (routeBusFrame cfg now fr r)"
  using inv_footprint [OF _ bus_frame_footprint [of cfg r fr "\<lambda>_. True"]] by simp

lemma inv_fold: "(\<And>x r. relay_inv cfg r \<Longrightarrow> relay_inv cfg (f x r)) \<Longrightarrow> relay_inv cfg r \<Longrightarrow> relay_inv cfg (fold f xs r)"
  by (induction xs arbitrary: r) simp_all

lemma pending_finish: "upgrading t = None \<Longrightarrow> pending (finishTask t r) = pending r"
  unfolding pending_def finishTask_def
  by (simp add: List.map_filter_def filter_remove1 remove1_idem)

lemma inv_finish: "upgrading t = None \<Longrightarrow> relay_inv cfg (finishTask t r) = relay_inv cfg r"
  by (intro inv_cong) (simp_all add: pending_finish, simp_all add: finishTask_def)

lemma inv_fetched: "relay_inv cfg r \<Longrightarrow> relay_inv cfg (finishWorkerTransportRequest cfg now s wc oc r)"
  by (rule inv_footprint [where key = "[]" and E = "\<lambda>_. True"])
    (auto simp: finishWorkerTransportRequest_def workerResponse_def split: sum.splits
      intro!: footprint_safeSend footprint_helpers)

lemma inv_presence: "relay_inv cfg r \<Longrightarrow> relay_inv cfg (presenceResolved cfg now s t p r)"
  by (rule inv_footprint [where key = "[]" and E = "\<lambda>_. True"])
    (auto simp: presenceResolved_def Let_def split: option.splits
      intro!: footprint_safeSend footprint_helpers footprint_daemonUnavailable footprint_emit)

lemma inv_published: "relay_inv cfg r \<Longrightarrow> relay_inv cfg (publishCompleted cfg now s t rid ok r)"
  by (rule inv_footprint [where key = "[]" and E = "\<lambda>_. True"])
    (auto simp: publishCompleted_def intro!: footprint_helpers footprint_daemonUnavailable)

section \<open>Timers\<close>

lemma inv_heartbeatSocket: "relay_inv cfg r \<Longrightarrow> relay_inv cfg (heartbeatSocket cfg now s r)"
  by (subst inv_cong [of _ r])
    (simp_all add: heartbeatSocket_def terminateWithReason_def logger_warn_def emit_def increment_def pending_def
      Let_def split: option.splits)

lemma inv_heartbeat: "relay_inv cfg r \<Longrightarrow> relay_inv cfg (heartbeatTick cfg now wss r)"
  using inv_fold [of cfg "heartbeatSocket cfg now" r wss, OF inv_heartbeatSocket]
  by (subst inv_cong [of _ "fold (heartbeatSocket cfg now) wss r"])
    (simp_all add: heartbeatTick_def Let_def pending_def)

lemma inv_presenceSync: "relay_inv cfg r \<Longrightarrow> relay_inv cfg (presenceSyncTick cfg r)"
  unfolding presenceSyncTick_def by (auto intro!: inv_fold split: prod.splits)

lemma inv_shutdown: "relay_inv cfg r \<Longrightarrow> relay_inv cfg (shutdown wss r)"
  unfolding shutdown_def by (rule inv_fold) simp

lemma inv_pong: "relay_inv cfg r \<Longrightarrow> relay_inv cfg (handlePong now s r)"
  by (subst inv_cong [of _ r]) (simp_all add: handlePong_def pending_def split: option.splits)

lemma inv_error: "relay_inv cfg r \<Longrightarrow> onError cfg now s m r = Some r' \<Longrightarrow> relay_inv cfg r'"
  by (subst inv_cong [of _ r])
    (auto simp: onError_def wsError_def logger_warn_def pending_def split: option.splits role.splits)

text \<open>Eviction removes states without clients and daemon: reading such a state gives the empty one.\<close>

lemma prunable_empty: "prunable ttl now st \<Longrightarrow> clients st = [] \<and> daemon st = None"
  by (auto simp: prunable_def)

lemma state_at_prune:
  assumes "jm_wf (registry r)" and "registry r' = snd (pruneEmpty ttl now (registry r))"
  shows "state_at key r' = state_at key r \<or>
         (state_at key r' = new_state key None 0 \<and> clients (state_at key r) = [] \<and> daemon (state_at key r) = None)"
  using jm_get_filter [OF assms(1), of "\<lambda>_ st. \<not> prunable ttl now st" key]
  by (auto simp: state_at_def assms(2) pruneEmpty_def prunable_empty split: option.splits if_splits)

lemma inv_pruned:
  assumes "relay_inv cfg r" and "registry r' = snd (pruneEmpty ttl now (registry r))"
    and "conns r' = conns r" "pending r' = pending r" "ipConnectionCounts r' = ipConnectionCounts r"
  shows "relay_inv cfg r'"
proof -
  have wf: "jm_wf (registry r)" using assms(1) by (simp add: relay_inv_defs)
  have cl: "clients (state_at k r') = clients (state_at k r)" and dm: "daemon (state_at k r') = daemon (state_at k r)"
    and si: "st_inv cfg auth (state_at k r) \<Longrightarrow> st_inv cfg auth (state_at k r')" for k auth
    using state_at_prune [OF wf assms(2), of k] by auto
  have "jm_wf (registry r')" using wf by (simp add: assms(2) pruneEmpty_def)
  then show ?thesis using assms(1) si
    by (simp add: relay_inv_defs authorised_cong [OF assms(3)] has_conn_def ip_sockets_def client_sockets_def
        assms(3-5) cl dm)
qed

lemma inv_cleanup: "relay_inv cfg r \<Longrightarrow> relay_inv cfg (cleanupTick cfg now r)"
proof -
  assume inv: "relay_inv cfg r"
  obtain removed reg where pe: "pruneEmpty (emptyWorkspaceTtlMs cfg) now (registry r) = (removed, reg)" by fastforce
  let ?g = "\<lambda>wid x. increment ''relay_workspace_evictions_total'' 1
                         (logger_info cfg now ''workspace_evicted'' [(''workspaceId'', JStr wid)] x)"
  have "relay_inv cfg (r\<lparr>registry := reg\<rparr>)"
    by (rule inv_pruned [OF inv, of _ "emptyWorkspaceTtlMs cfg" now]) (simp_all add: pe pending_def)
  then have "relay_inv cfg (fold ?g removed (r\<lparr>registry := reg\<rparr>))"
    by (rule inv_fold [rotated]) simp
  then show ?thesis by (simp add: cleanupTick_def pe)
qed

section \<open>Connections that come and go\<close>

lemma st_inv_mono: "st_inv cfg auth st \<Longrightarrow> (\<And>ch x. auth ch x \<Longrightarrow> auth' ch x) \<Longrightarrow> st_inv cfg auth' st"
  by (fastforce simp: st_inv_def)

lemma st_inv_restrict:
  assumes "st_inv cfg auth st" and "s \<notin> client_sockets st" and "\<And>ch x. auth ch x \<Longrightarrow> x \<noteq> s \<Longrightarrow> auth' ch x"
  shows "st_inv cfg auth' st"
proof -
  have "x \<in> client_sockets st" if "(ch, subs) \<in> set (sessionEventSubscribers st)" "x \<in> set subs" for ch subs x
  proof -
    have "x \<in> subscriber_sockets (sessionEventSubscribers st)" using that by (auto simp: subscriber_sockets_def)
    then show ?thesis using assms(1) by (auto simp: st_inv_def state_wf_def referenced_sockets_def)
  qed
  with assms show ?thesis by (fastforce simp: st_inv_def)
qed

text \<open>The counts per address are the numbers of sockets with handlers.\<close>

lemma ip_sockets_finite: "finite (dom (conns r)) \<Longrightarrow> finite (ip_sockets r ip)"
  by (rule finite_subset [of _ "dom (conns r)"]) (auto simp: ip_sockets_def)

lemma counts_add:
  assumes "counts_inv r" and "conns r s = None" and "conns r' = (conns r)(s \<mapsto> c)"
    and "ipConnectionCounts r' = ipConnectionCounts (adjustIpConnectionCount (c_ip c) 1 r)"
  shows "counts_inv r'"
proof -
  have set: "ip_sockets r' ip = (if ip = c_ip c then insert s (ip_sockets r ip) else ip_sockets r ip)" for ip
    using assms(2,3) by (auto simp: ip_sockets_def)
  have "s \<notin> ip_sockets r ip" for ip using assms(2) by (simp add: ip_sockets_def)
  with assms(1,4) show ?thesis
    by (auto simp: counts_inv_def set adjustIpConnectionCount_def assms(3) ip_sockets_finite Let_def)
qed

lemma counts_remove:
  assumes "counts_inv r" and "conns r s = Some c" and "conns r' = (conns r)(s := None)"
    and "ipConnectionCounts r' = ipConnectionCounts (adjustIpConnectionCount (c_ip c) (-1) r)"
  shows "counts_inv r'"
proof -
  have set: "ip_sockets r' ip = ip_sockets r ip - {s}" for ip
    using assms(3) by (auto simp: ip_sockets_def split: if_splits)
  have mem: "s \<in> ip_sockets r ip \<longleftrightarrow> ip = c_ip c" for ip using assms(2) by (auto simp: ip_sockets_def)
  have fin: "finite (ip_sockets r ip)" for ip using assms(1) by (simp add: counts_inv_def ip_sockets_finite)
  have ne: "ip_sockets r (c_ip c) \<noteq> {}" using mem by blast
  have one: "ip_sockets r (c_ip c) - {s} = {} \<longleftrightarrow> card (ip_sockets r (c_ip c)) \<le> 1"
    using card_Diff_singleton [of s "ip_sockets r (c_ip c)"] card_0_eq [of "ip_sockets r (c_ip c) - {s}"] fin mem
    by simp
  have pos: "card (ip_sockets r (c_ip c)) \<ge> 1" using ne fin by (simp add: Suc_leI card_gt_0_iff)
  show ?thesis
    unfolding counts_inv_def
  proof (intro conjI allI)
    show "finite (dom (conns r'))" using assms(1,3) by (simp add: counts_inv_def)
    show "jm_get (ipConnectionCounts r') ip =
        (if ip_sockets r' ip = {} then None else Some (int (card (ip_sockets r' ip))))" for ip
    proof (cases "ip = c_ip c")
      case True
      then show ?thesis using assms(1,4) ne one pos mem fin
        by (auto simp: counts_inv_def set adjustIpConnectionCount_def card_Diff_singleton of_nat_diff Let_def)
    next
      case False
      with mem have "ip_sockets r ip - {s} = ip_sockets r ip" by blast
      with False assms(1,4) show ?thesis by (simp add: counts_inv_def set adjustIpConnectionCount_def Let_def)
    qed
  qed
qed

lemma inv_add_conn:
  assumes inv: "relay_inv cfg r" and fresh: "conns r s = None" "s \<notin> set (pending r)" and ok: "conn_ok c"
    and conns: "conns r' = (conns r)(s \<mapsto> c)" and pend: "pending r' = pending r"
    and ips: "ipConnectionCounts r' = ipConnectionCounts (adjustIpConnectionCount (c_ip c) 1 r)"
    and wf: "jm_wf (registry r) \<Longrightarrow> jm_wf (registry r')"
    and st: "\<And>k. client_sockets (state_at k r') =
        client_sockets (state_at k r) \<union> (if c_role c = Client \<and> k = c_scopeKey c then {s} else {})"
      "\<And>k. daemon (state_at k r') =
        (if c_role c = Workspace_daemon \<and> k = c_scopeKey c then Some s else daemon (state_at k r))"
      "\<And>k auth. st_inv cfg auth (state_at k r) \<Longrightarrow> st_inv cfg auth (state_at k r')"
  shows "relay_inv cfg r'"
proof -
  have auth: "authorised r ch x \<Longrightarrow> authorised r' ch x" for ch x
    using fresh(1) by (auto simp: authorised_def conns)
  have has: "has_conn r' x rl k \<longleftrightarrow> (if x = s then c_role c = rl \<and> c_scopeKey c = k else has_conn r x rl k)" for x rl k
    by (auto simp: has_conn_def conns)
  have s: "\<not> has_conn r s rl k" for rl k using fresh(1) by (simp add: has_conn_def)
  have nd: "daemon (state_at k r) \<noteq> Some s" for k
    using inv s unfolding relay_inv_def sockets_inv_def by blast
  have "registry_inv cfg r'"
    using inv wf st(3) st_inv_mono [of cfg "authorised r" _ "authorised r'"] auth
    by (simp add: relay_inv_def registry_inv_def)
  moreover have "sockets_inv r'"
    using inv st(1,2) ok s nd by (auto simp: relay_inv_def sockets_inv_def has conns split: if_splits)
  moreover have "pending_inv r'"
    using inv fresh(2) by (auto simp: relay_inv_def pending_inv_def pend conns)
  moreover have "counts_inv r'" using inv counts_add [OF _ fresh(1) conns ips] by (simp add: relay_inv_def)
  ultimately show ?thesis by (simp add: relay_inv_def)
qed

lemma inv_remove_conn:
  assumes inv: "relay_inv cfg r" and c: "conns r s = Some c"
    and conns: "conns r' = (conns r)(s := None)" and pend: "pending r' = pending r"
    and ips: "ipConnectionCounts r' = ipConnectionCounts (adjustIpConnectionCount (c_ip c) (-1) r)"
    and wf: "jm_wf (registry r) \<Longrightarrow> jm_wf (registry r')"
    and st: "\<And>k. client_sockets (state_at k r') = client_sockets (state_at k r) - {s}"
      "\<And>k x. daemon (state_at k r') = Some x \<Longrightarrow> daemon (state_at k r) = Some x \<and> x \<noteq> s"
      "\<And>k auth. st_inv cfg auth (state_at k r) \<Longrightarrow> st_inv cfg auth (state_at k r')"
  shows "relay_inv cfg r'"
proof -
  have auth: "authorised r ch x \<Longrightarrow> x \<noteq> s \<Longrightarrow> authorised r' ch x" for ch x
    by (auto simp: authorised_def conns)
  have has: "has_conn r' x rl k \<longleftrightarrow> x \<noteq> s \<and> has_conn r x rl k" for x rl k
    by (auto simp: has_conn_def conns)
  have "registry_inv cfg r'"
    using inv wf st(1,3) st_inv_restrict [of cfg "authorised r" _ s "authorised r'", OF _ _ auth]
    by (simp add: relay_inv_def registry_inv_def)
  moreover have "sockets_inv r'"
    using inv st(1,2) by (auto simp: relay_inv_def sockets_inv_def has conns split: if_splits)
  moreover have "pending_inv r'" using inv by (auto simp: relay_inv_def pending_inv_def pend conns)
  moreover have "counts_inv r'" using inv counts_remove [OF _ c conns ips] by (simp add: relay_inv_def)
  ultimately show ?thesis by (simp add: relay_inv_def)
qed

text \<open>Registration.\<close>

lemma accept_fields [simp]:
  "conns (acceptConnection now s c r) = (conns r)(s \<mapsto> c)"
  "registry (acceptConnection now s c r) = registry r"
  "pending (acceptConnection now s c r) = pending r"
  "ipConnectionCounts (acceptConnection now s c r) = ipConnectionCounts (adjustIpConnectionCount (c_ip c) 1 r)"
  "readyState (acceptConnection now s c r) = readyState r"
  "out (acceptConnection now s c r) = out r"
  by (simp_all add: acceptConnection_def Let_def pending_def) (simp add: adjustIpConnectionCount_def Let_def)

lemma upd_state_fields [simp]:
  "conns (upd_state k f r) = conns r" "pending (upd_state k f r) = pending r"
  "ipConnectionCounts (upd_state k f r) = ipConnectionCounts r"
  "readyState (upd_state k f r) = readyState r" "out (upd_state k f r) = out r"
  "registry (upd_state k f r) = reg_update k f (registry r)"
  by (simp_all add: upd_state_def pending_def)

lemma state_at_upd:
  "jm_get (registry r) key \<noteq> None \<Longrightarrow> registry r' = reg_update key f (registry r) \<Longrightarrow>
   state_at k r' = (if k = key then f (state_at key r) else state_at k r)"
  by (auto simp: state_at_def reg_update_get)

lemma reg_update_wf: "jm_wf reg \<Longrightarrow> jm_wf (reg_update k f reg)"
  by (simp add: reg_update_def split: option.splits)

lemma pending_simps [simp]:
  "pending (updateGauges r) = pending r" "pending (logger_info c t e d r) = pending r"
  "pending (emit ef r) = pending r" "pending (increment n dl r) = pending r"
  by (simp_all add: pending_def)

lemma state_at_cong: "registry r' = registry r \<Longrightarrow> state_at k r' = state_at k r"
  by (simp add: state_at_def)

lemma inv_registerWorker:
  assumes "relay_inv cfg r" "conns r s = None" "s \<notin> set (pending r)" "conn_ok c" "c_role c = Worker"
  shows "relay_inv cfg (registerWorker cfg now s c r)"
proof -
  have "relay_inv cfg (acceptConnection now s c r)"
    using assms(5) state_at_cong [of "acceptConnection now s c r" r]
    by (intro inv_add_conn [OF assms(1-4)]) simp_all
  then show ?thesis by (simp add: registerWorker_def)
qed

lemma st_inv_becomeDaemon: "st_inv cfg auth st \<Longrightarrow> st_inv cfg auth (becomeDaemon s g st)"
  unfolding becomeDaemon_def using st_inv_clear [of cfg auth] by simp

lemma inv_registerDaemon:
  assumes "relay_inv cfg r" "conns r s = None" "s \<notin> set (pending r)" "conn_ok c" "c_role c = Workspace_daemon"
    and "jm_get (registry r) (c_scopeKey c) \<noteq> None"
  shows "relay_inv cfg (registerDaemon cfg now s c st r)"
proof -
  let ?r = "upd_state (c_scopeKey c) (becomeDaemon s (claimedGeneration (c_claims c))) (acceptConnection now s c r)"
  have at: "state_at k ?r = (if k = c_scopeKey c then becomeDaemon s (claimedGeneration (c_claims c)) (state_at k r)
                             else state_at k r)" for k
    using state_at_upd [OF assms(6), of ?r] by simp
  have "relay_inv cfg ?r"
    using assms(5)
    by (intro inv_add_conn [OF assms(1-4)])
      (auto simp: reg_update_wf at st_inv_becomeDaemon, auto simp: becomeDaemon_def client_sockets_def)
  then show ?thesis using assms(1) by (auto simp: registerDaemon_def Let_def)
qed

lemma st_inv_add_client:
  assumes "st_inv cfg auth st"
  shows "st_inv cfg auth (st\<lparr>clients := jm_set s m (clients st)\<rparr>)"
proof -
  have "client_sockets st \<subseteq> client_sockets (st\<lparr>clients := jm_set s m (clients st)\<rparr>)"
    by (auto simp: client_sockets_def jm_keys_set)
  with assms show ?thesis by (auto simp: st_inv_def state_wf_def referenced_sockets_def)
qed

lemma client_sockets_add: "client_sockets (st\<lparr>clients := jm_set s m (clients st)\<rparr>) = insert s (client_sockets st)"
  by (auto simp: client_sockets_def set_jm_keys)

lemma inv_registerClient:
  assumes "relay_inv cfg r" "conns r s = None" "s \<notin> set (pending r)" "conn_ok c" "c_role c = Client"
    and "jm_get (registry r) (c_scopeKey c) \<noteq> None"
  shows "relay_inv cfg (registerClient cfg now s c r)"
proof -
  let ?f = "\<lambda>st. st\<lparr>clients := jm_set s \<lparr>clientId = c_clientId c, connectedAt = now\<rparr> (clients st)\<rparr>"
  let ?r = "upd_state (c_scopeKey c) ?f (acceptConnection now s c r)"
  have at: "state_at k ?r = (if k = c_scopeKey c then ?f (state_at k r) else state_at k r)" for k
    using state_at_upd [OF assms(6), of ?r] by simp
  have "relay_inv cfg ?r"
    using assms(5)
    by (intro inv_add_conn [OF assms(1-4)]) (auto simp: reg_update_wf at st_inv_add_client client_sockets_add)
  then show ?thesis by (simp add: registerClient_def)
qed

lemma inv_registerConnection:
  assumes "relay_inv cfg r" "conns r s = None" "s \<notin> set (pending r)"
  shows "relay_inv cfg (registerConnection cfg now s role wid requested ip cl r)"
proof (cases "resolveConnectionAdmission role wid requested ip cl")
  case (Rejected a b c d e)
  then show ?thesis using assms(1) by (simp add: registerConnection_def Let_def)
next
  case (Admitted sc target machine)
  let ?key = "runtimeScopeKey wid target" and ?f = "\<lambda>x. pruneStale now (x\<lparr>lastActivityAt := now\<rparr>)"
  obtain st r1 where os: "open_state ?key wid target now ?f r = (st, r1)" by fastforce
  have "st_inv cfg (authorised r) (state_at ?key r)" using assms(1) by (simp add: relay_inv_defs)
  note D = open_stateD [where E = "\<lambda>_. True", OF os footprint_refl this st_step_pruneStale(2)]
  have r1: "relay_inv cfg r1" "conns r1 s = None" "s \<notin> set (pending r1)"
    using inv_footprint [OF assms(1) D(1)] D(1) assms(2,3) by (simp_all add: footprint_def)
  have "conn_ok c" if "c_workspaceId c = wid" "c_claims c = cl" "c_scopeKey c = ?key" "c_runtimeTargetId c = target"
    for c using admittedD [OF Admitted] that by (auto simp: conn_ok_def)
  with r1 D(8) Admitted show ?thesis
    by (cases role) (simp_all add: registerConnection_def os Let_def inv_registerWorker
        inv_registerDaemon inv_registerClient)
qed

section \<open>Upgrades and closed sockets\<close>

lemma pending_addTask: "pending (addTask t r) = pending r @ (case upgrading t of Some s \<Rightarrow> [s] | None \<Rightarrow> [])"
  by (simp add: pending_def List.map_filter_def split: option.splits)

lemma addTask_upgrade_inv:
  assumes "relay_inv cfg r" and "upgrading t = Some s" and "conns r s = None" and "s \<notin> set (pending r)"
  shows "relay_inv cfg (addTask t r)"
proof -
  have "state_at k (addTask t r) = state_at k r" for k by (rule state_at_cong) simp
  moreover have "authorised (addTask t r) = authorised r" by (rule authorised_cong) simp
  ultimately show ?thesis using assms
    by (auto simp: relay_inv_defs pending_addTask has_conn_def ip_sockets_def)
qed

lemma inv_getOrCreate:
  assumes "relay_inv cfg r" and "registry r' = snd (getOrCreate key None now (registry r))"
    and "conns r' = conns r" "pending r' = pending r" "ipConnectionCounts r' = ipConnectionCounts r"
  shows "relay_inv cfg r'"
proof -
  have "clients (state_at k r') = clients (state_at k r) \<and> daemon (state_at k r') = daemon (state_at k r) \<and>
      (st_inv cfg auth (state_at k r) \<longrightarrow> st_inv cfg auth (state_at k r'))" for k auth
    by (auto simp: state_at_def assms(2) getOrCreate_def Let_def split: option.splits)
  then have st: "clients (state_at k r') = clients (state_at k r)" "daemon (state_at k r') = daemon (state_at k r)"
    "st_inv cfg auth (state_at k r) \<Longrightarrow> st_inv cfg auth (state_at k r')" for k auth
    by blast+
  have "jm_wf (registry r) \<Longrightarrow> jm_wf (registry r')" by (simp add: assms(2) getOrCreate_wf)
  then show ?thesis using assms(1) st(3)
    by (simp add: relay_inv_defs authorised_cong [OF assms(3)] has_conn_def ip_sockets_def client_sockets_def
        assms(3-5) st(1,2))
qed

lemma inv_beginAdmission:
  assumes "relay_inv cfg r" and "conns r s = None" and "s \<notin> set (pending r)"
  shows "relay_inv cfg (beginAdmission cfg now s up a p q r)"
proof -
  obtain st reg where gc: "getOrCreate (runtimeScopeKey (up_workspaceId up) (up_runtimeTargetId up)) None now (registry r)
      = (st, reg)" by fastforce
  have r1: "relay_inv cfg (r\<lparr>registry := reg\<rparr>)"
    by (rule inv_getOrCreate [OF assms(1), of _ "runtimeScopeKey (up_workspaceId up) (up_runtimeTargetId up)" now])
      (simp_all add: gc pending_def)
  show ?thesis
    using assms r1
    by (auto simp: beginAdmission_def refuse_def gc Let_def split: upgrade_auth.splits
        intro!: addTask_upgrade_inv [of _ _ _ s], simp_all add: pending_def)
qed

lemma inv_upgradeRequest:
  assumes "relay_inv cfg r" and "conns r s = None" and "s \<notin> set (pending r)"
  shows "relay_inv cfg (upgradeRequest cfg now s ip parsed a p r)"
proof -
  obtain ok l where fw: "fw_allow ip now (upgradeLimiter r) = (ok, l)" by fastforce
  let ?r = "r\<lparr>upgradeLimiter := l\<rparr>"
  have inv: "relay_inv cfg ?r" using assms(1) by (subst inv_cong [of _ r]) (simp_all add: pending_def)
  have adm: "relay_inv cfg (beginAdmission cfg now s up a p q ?r)" for up q
    using inv_beginAdmission [OF inv, of s] assms(2,3) by (simp add: pending_def)
  show ?thesis
    using inv adm
    by (auto simp: upgradeRequest_def fw refuse_def upgradeFailed_def Let_def split: sum.splits option.splits prod.splits)
qed

lemma inv_finish_upgrade:
  assumes "relay_inv cfg r" and "t \<in> set (tasks r)" and "upgrading t = Some s"
  shows "relay_inv cfg (finishTask t r)" and "conns (finishTask t r) s = None"
    and "s \<notin> set (pending (finishTask t r))"
proof -
  obtain xs ys where ts: "tasks r = xs @ t # ys" and nx: "t \<notin> set xs"
    using assms(2) by (meson split_list_first)
  have p: "pending r = List.map_filter upgrading xs @ s # List.map_filter upgrading ys"
    by (simp add: pending_def ts List.map_filter_def assms(3))
  have p': "pending (finishTask t r) = List.map_filter upgrading xs @ List.map_filter upgrading ys"
    by (simp add: pending_def finishTask_def ts remove1_append nx List.map_filter_def)
  have pi: "pending_inv r" using assms(1) by (simp add: relay_inv_def)
  show "conns (finishTask t r) s = None" using pi by (simp add: pending_inv_def p finishTask_def)
  show "s \<notin> set (pending (finishTask t r))" using pi by (simp add: pending_inv_def p p')
  have same: "registry (finishTask t r) = registry r" "conns (finishTask t r) = conns r"
    "ipConnectionCounts (finishTask t r) = ipConnectionCounts r"
    by (simp_all add: finishTask_def)
  have "pending_inv (finishTask t r)" using pi by (auto simp: pending_inv_def p p' same)
  then show "relay_inv cfg (finishTask t r)" using assms(1) state_at_cong [OF same(1)]
    by (simp add: relay_inv_def registry_inv_def sockets_inv_def counts_inv_def authorised_cong [OF same(2)]
        has_conn_def ip_sockets_def same)
qed

lemma inv_completeUpgrade:
  assumes "relay_inv cfg r" "conns r s = None" "s \<notin> set (pending r)"
  shows "relay_inv cfg (completeUpgrade cfg now s up cl url r)"
proof -
  let ?r = "r\<lparr>readyState := (readyState r)(s := OPEN)\<rparr>"
  have "relay_inv cfg ?r" "conns ?r s = None" "s \<notin> set (pending ?r)"
    using assms by (simp_all add: inv_environment pending_def)
  then have "relay_inv cfg (registerConnection cfg now s (up_role up) (up_workspaceId up) (up_runtimeTargetId up)
      (up_ip up) cl ?r)" by (rule inv_registerConnection)
  then show ?thesis by (simp add: completeUpgrade_def Let_def)
qed

lemma inv_admissionResolved:
  assumes "relay_inv cfg r" "conns r s = None" "s \<notin> set (pending r)"
  shows "relay_inv cfg (admissionResolved cfg now s up oc r)"
  using assms inv_completeUpgrade [of cfg "increment ''relay_admission_ok_total'' 1 r" s]
  by (auto simp: admissionResolved_def Let_def intro!: addTask_upgrade_inv [of _ _ _ s])

lemma inv_redirectResolved:
  assumes "relay_inv cfg r" "conns r s = None" "s \<notin> set (pending r)"
  shows "relay_inv cfg (redirectResolved cfg now s up cl p r)"
  using assms by (simp add: redirectResolved_def inv_completeUpgrade)

text \<open>The close event.\<close>

lemma st_inv_removed:
  assumes "st_inv cfg auth st"
  shows "st_inv cfg auth (st\<lparr>clients := jm_delete s (clients st),
                pairingRequests := drop_owner s (pairingRequests st),
                keyExchangeRequests := drop_owner s (keyExchangeRequests st),
                sessionOwners := drop_owner s (sessionOwners st),
                sessionEventSubscribers := drop_subscriber s (sessionEventSubscribers st),
                lastActivityAt := now\<rparr>)"
proof -
  have len: "length (drop_owner s m) \<le> length m" for m by (simp add: drop_owner_def jm_filter_def)
  have "(ch, subs') \<in> set (drop_subscriber s m) \<Longrightarrow> \<exists>subs. (ch, subs) \<in> set m \<and> set subs' \<subseteq> set subs" for ch subs' m
    by (auto simp: drop_subscriber_def set_delete_def)
  then have "\<forall>(ch, subs) \<in> set (drop_subscriber s (sessionEventSubscribers st)). \<forall>x \<in> set subs. auth ch x"
    using assms by (fastforce simp: st_inv_def)
  moreover have "state_wf st" using assms by (simp add: st_inv_def)
  ultimately show ?thesis
    using assms state_wf_removed [of st now s] len [of "pairingRequests st"] len [of "keyExchangeRequests st"]
      len [of "sessionOwners st"]
    by (auto simp: st_inv_def intro: order_trans)
qed

lemma not_client_elsewhere:
  assumes "relay_inv cfg r" and "conns r s = Some c"
  shows "s \<in> client_sockets (state_at k r) \<longleftrightarrow> c_role c = Client \<and> c_scopeKey c = k"
    and "daemon (state_at k r) = Some s \<Longrightarrow> c_role c = Workspace_daemon \<and> c_scopeKey c = k"
proof -
  have inv: "sockets_inv r" using assms(1) by (simp add: relay_inv_def)
  then show "s \<in> client_sockets (state_at k r) \<longleftrightarrow> c_role c = Client \<and> c_scopeKey c = k"
    by (simp add: sockets_inv_def has_conn_def assms(2))
  assume "daemon (state_at k r) = Some s"
  with inv have "has_conn r s Workspace_daemon k" by (simp add: sockets_inv_def)
  then show "c_role c = Workspace_daemon \<and> c_scopeKey c = k" by (simp add: has_conn_def assms(2))
qed

lemma adjustIp_cong: "ipConnectionCounts r' = ipConnectionCounts r \<Longrightarrow>
    ipConnectionCounts (adjustIpConnectionCount ip d r') = ipConnectionCounts (adjustIpConnectionCount ip d r)"
  by (simp add: adjustIpConnectionCount_def Let_def)

lemma adjustIp_pending [simp]: "pending (adjustIpConnectionCount ip d r) = pending r"
  by (simp add: pending_def)

lemma inv_close_worker:
  assumes "relay_inv cfg r" and "conns r s = Some c" and "c_role c = Worker"
  shows "relay_inv cfg ((workerClose cfg now c r)\<lparr>conns := (conns r)(s := None)\<rparr>)" (is "relay_inv cfg ?r")
proof -
  have "state_at k ?r = state_at k r" for k by (rule state_at_cong) (simp add: workerClose_def)
  then show ?thesis
    using not_client_elsewhere [OF assms(1,2)] assms(3)
    by (intro inv_remove_conn [OF assms(1,2)]) (auto simp: workerClose_def pending_def)
qed

lemma inv_close_daemon:
  assumes "relay_inv cfg r" and "conns r s = Some c" and "c_role c = Workspace_daemon"
  shows "relay_inv cfg ((daemonClose cfg now s c r)\<lparr>conns := (conns r)(s := None)\<rparr>)" (is "relay_inv cfg ?r")
proof -
  obtain b reg where cd: "clearDaemon (c_scopeKey c) s now (registry r) = (b, reg)" by fastforce
  have reg: "registry ?r = reg" by (auto simp: daemonClose_def cd Let_def)
  have at: "clients (state_at k ?r) = clients (state_at k r) \<and>
      daemon (state_at k ?r) = (if k = c_scopeKey c \<and> daemon (state_at k r) = Some s then None else daemon (state_at k r)) \<and>
      (st_inv cfg auth (state_at k r) \<longrightarrow> st_inv cfg auth (state_at k ?r))" for k auth
    using cd st_inv_clear [of cfg auth]
    by (auto simp: state_at_def reg clearDaemon_def split: option.splits if_splits)
  have wf: "jm_wf (registry r) \<Longrightarrow> jm_wf (registry ?r)"
    using cd by (auto simp: reg clearDaemon_def split: option.splits if_splits)
  have ips: "ipConnectionCounts ?r = ipConnectionCounts (adjustIpConnectionCount (c_ip c) (-1) r)"
    by (simp add: daemonClose_def cd Let_def) (auto intro!: adjustIp_cong)
  have pend: "pending ?r = pending r"
    by (auto simp: daemonClose_def cd Let_def pending_def)
  show ?thesis
  proof (rule inv_remove_conn [OF assms(1,2) _ pend ips wf])
    fix k x auth
    show "client_sockets (state_at k ?r) = client_sockets (state_at k r) - {s}"
      using at [of k] not_client_elsewhere(1) [OF assms(1,2), of k] assms(3) by (auto simp: client_sockets_def)
    show "daemon (state_at k ?r) = Some x \<Longrightarrow> daemon (state_at k r) = Some x \<and> x \<noteq> s"
      using at [of k] not_client_elsewhere(2) [OF assms(1,2), of k] by (auto split: if_splits)
    show "st_inv cfg auth (state_at k r) \<Longrightarrow> st_inv cfg auth (state_at k ?r)" using at [of k] by blast
  qed simp_all
qed

lemma inv_close_client:
  assumes "relay_inv cfg r" and "conns r s = Some c" and "c_role c = Client"
  shows "relay_inv cfg ((clientClose cfg now s c r)\<lparr>conns := (conns r)(s := None)\<rparr>)" (is "relay_inv cfg ?r")
proof -
  let ?f = "\<lambda>st. st\<lparr>clients := jm_delete s (clients st),
                pairingRequests := drop_owner s (pairingRequests st),
                keyExchangeRequests := drop_owner s (keyExchangeRequests st),
                sessionOwners := drop_owner s (sessionOwners st),
                sessionEventSubscribers := drop_subscriber s (sessionEventSubscribers st),
                lastActivityAt := now\<rparr>"
  have reg: "registry ?r = reg_update (c_scopeKey c) ?f (registry r)"
    by (simp add: clientClose_def removeClient_def)
  have present: "jm_get (registry r) (c_scopeKey c) \<noteq> None"
    using not_client_elsewhere(1) [OF assms(1,2), of "c_scopeKey c"] assms(3)
    by (auto simp: state_at_def split: option.splits)
  have at: "state_at k ?r = (if k = c_scopeKey c then ?f (state_at k r) else state_at k r)" for k
    using state_at_upd [OF present reg, of k] by simp
  have ips: "ipConnectionCounts ?r = ipConnectionCounts (adjustIpConnectionCount (c_ip c) (-1) r)"
    by (simp add: clientClose_def) (auto intro!: adjustIp_cong)
  have pend: "pending ?r = pending r" by (simp add: clientClose_def pending_def)
  show ?thesis
  proof (rule inv_remove_conn [OF assms(1,2) _ pend ips])
    fix k x auth
    show "client_sockets (state_at k ?r) = client_sockets (state_at k r) - {s}"
      using not_client_elsewhere(1) [OF assms(1,2), of k] assms(3)
      by (auto simp: at client_sockets_def jm_keys_delete)
    show "daemon (state_at k ?r) = Some x \<Longrightarrow> daemon (state_at k r) = Some x \<and> x \<noteq> s"
      using not_client_elsewhere(2) [OF assms(1,2), of k] assms(3) by (auto simp: at split: if_splits)
    show "st_inv cfg auth (state_at k r) \<Longrightarrow> st_inv cfg auth (state_at k ?r)"
      using st_inv_removed [of cfg auth "state_at k r" now s] by (auto simp: at)
  qed (simp_all add: reg reg_update_wf)
qed

lemma inv_close: "relay_inv cfg r \<Longrightarrow> relay_inv cfg (onClose cfg now s r)"
proof -
  assume "relay_inv cfg r"
  then have inv: "relay_inv cfg (r\<lparr>readyState := (readyState r)(s := CLOSED)\<rparr>)" by (simp add: inv_environment)
  have frame: "conns (workerClose cfg now c x) = conns x" "conns (daemonClose cfg now s c x) = conns x"
    "conns (clientClose cfg now s c x) = conns x" for c x
    by (simp_all add: workerClose_def daemonClose_def clientClose_def case_prod_beta Let_def)
  show ?thesis
    using inv inv_close_worker [OF inv, of s] inv_close_daemon [OF inv, of s] inv_close_client [OF inv, of s]
    by (auto simp: onClose_def Let_def frame split: option.splits role.splits)
qed

section \<open>The relay keeps its invariant\<close>

interpretation relay_machine: invariant_system initial "relay_step cfg" "relay_inv cfg" for cfg
proof
  show "initial r \<Longrightarrow> relay_inv cfg r" for r by (rule inv_initial)
  show "relay_inv cfg r \<Longrightarrow> relay_step cfg r r' \<Longrightarrow> relay_inv cfg r'" for r r'
  proof (erule relay_step.cases, goal_cases)
    case (2 s up token r now oc)
    then show ?case using inv_finish_upgrade [of cfg r "AwaitAdmission s up token" s] by (simp add: inv_admissionResolved)
  next
    case (3 s up cl r now preferred)
    then show ?case using inv_finish_upgrade [of cfg r "AwaitRedirect s up cl" s] by (simp add: inv_redirectResolved)
  next
    case (4 s up cl r now message)
    then show ?case using inv_finish_upgrade [of cfg r "AwaitRedirect s up cl" s] by (simp add: upgradeFailed_def)
  next
    case (7 now s message r r')
    then show ?case using inv_error by blast
  next
    case (12 r now frames)
    then show ?case by (simp add: busPollFrames_def inv_fold inv_busFrame)
  qed (simp_all add: inv_upgradeRequest inv_message inv_close inv_pong inv_fetched inv_presence
      inv_published inv_finish inv_heartbeat inv_cleanup inv_presenceSync inv_shutdown inv_environment)
qed

lemma reachable_relay_inv: "reachable cfg r \<Longrightarrow> relay_inv cfg r"
  unfolding reachable_def using relay_machine.reachable_inv by blast

end
