(* ===== verification/Relay_Safety.thy ===== *)
theory Relay_Safety
  imports Relay_System
begin

text \<open>
  The policy of each kind of sender, stated as what its messages may make the relay emit, and the
  proof that every message of a reachable relay stays within the policy of its sender and within its
  scope.
\<close>

section \<open>Reading a footprint\<close>

definition emitted :: "relay \<Rightarrow> relay \<Rightarrow> effect list" where
  "emitted r r' = drop (length (out r)) (out r')"

lemma footprint_emitted:
  assumes "footprint cfg auth key E r r'"
  shows "out r' = out r @ emitted r r'" and "e \<in> set (emitted r r') \<Longrightarrow> permitted cfg E r e"
  using assms unfolding footprint_def list_all_iff emitted_def by auto

lemma footprint_sent:
  assumes "footprint cfg auth key E r r'" and "Sent x w \<in> set (emitted r r')"
  shows "writable cfg r x \<and> E (Sent x w)"
  using footprint_emitted(2) [OF assms] by (simp add: permitted_def)

lemma footprint_other:
  "footprint cfg auth key E r r' \<Longrightarrow> k \<noteq> key \<Longrightarrow> jm_get (registry r') k = jm_get (registry r) k"
  by (simp add: footprint_def)

text \<open>The policies: what each kind of event may emit.\<close>

definition client_policy :: "relay \<Rightarrow> ws \<Rightarrow> conn \<Rightarrow> string \<Rightarrow> effect \<Rightarrow> bool" where
  "client_policy r s c text e =
     (case e of
        Sent x (Stringify _) \<Rightarrow> x = s
      | Sent x (Text t) \<Rightarrow>
          t = text \<and> (if c_clientScope c = Session_events then x \<noteq> s \<and> has_conn r x Client (c_scopeKey c)
                      else has_conn r x Workspace_daemon (c_scopeKey c))
      | _ \<Rightarrow> False)"

definition daemon_policy :: "relay \<Rightarrow> conn \<Rightarrow> string \<Rightarrow> effect \<Rightarrow> bool" where
  "daemon_policy r c text e =
     (case e of Sent x (Text t) \<Rightarrow> t = text \<and> has_conn r x Client (c_scopeKey c) | _ \<Rightarrow> False)"

definition worker_policy :: "ws \<Rightarrow> conn \<Rightarrow> effect \<Rightarrow> bool" where
  "worker_policy s c e =
     (case e of
        Sent x (Stringify _) \<Rightarrow> x = s
      | Fetch _ path headers _ \<Rightarrow>
          (case stringValue (Option.bind (c_claims c) cl_managedExecutorId) of
             Some ex \<Rightarrow> workerRequestPathAllowed path (c_workspaceId c) ex | None \<Rightarrow> False) \<and>
          (\<forall>(k, _) \<in> set headers. toLowerCase k \<in> set forwarded_headers)
      | _ \<Rightarrow> False)"

lemma filteredWorkerHeaders_allowed:
  "(k, v) \<in> set (filteredWorkerHeaders h) \<Longrightarrow> toLowerCase k \<in> set forwarded_headers"
proof -
  let ?g = "\<lambda>(key, raw) result. case raw of
      JStr s \<Rightarrow> if toLowerCase key \<in> set forwarded_headers then jm_set key s result else result | _ \<Rightarrow> result"
  have fold_ok: "\<forall>(k, v) \<in> set acc. toLowerCase k \<in> set forwarded_headers \<Longrightarrow>
      \<forall>(k, v) \<in> set (fold ?g ob acc). toLowerCase k \<in> set forwarded_headers" for ob acc
  proof (induction ob arbitrary: acc)
    case (Cons p ob)
    obtain key raw where p: "p = (key, raw)" by fastforce
    have "\<forall>(k, v) \<in> set (?g p acc). toLowerCase k \<in> set forwarded_headers"
      using Cons.prems set_jm_set [of key _ acc] by (auto simp: p split: json.splits)
    then have "\<forall>(k, v) \<in> set (fold ?g ob (?g p acc)). toLowerCase k \<in> set forwarded_headers" by (rule Cons.IH)
    then show ?case by simp
  qed simp
  assume "(k, v) \<in> set (filteredWorkerHeaders h)"
  then show ?thesis
    using fold_ok [of "[]"] by (auto simp: filteredWorkerHeaders_def split: option.splits json.splits)
qed

lemma client_footprint:
  assumes "relay_inv cfg r" and "conns r s = Some c" and "c_role c = Client"
  shows "footprint cfg (authorised r) (c_scopeKey c) (client_policy r s c text) r (onMessage cfg now s text r)"
  using client_message_footprint [OF assms, of "client_policy r s c text" "text" now] assms(2,3)
  by (auto simp: onMessage_def client_policy_def)

lemma daemon_footprint:
  assumes "relay_inv cfg r" and "conns r s = Some c" and "c_role c = Workspace_daemon"
  shows "footprint cfg (authorised r) (c_scopeKey c) (daemon_policy r c text) r (onMessage cfg now s text r)"
  using daemon_message_footprint [OF assms(1,2), of "daemon_policy r c text" "text" now] assms(2,3)
  by (auto simp: onMessage_def daemon_policy_def)

lemma worker_footprint:
  assumes "conns r s = Some c" and "c_role c = Worker"
  shows "footprint cfg (authorised r) k (worker_policy s c) r (onMessage cfg now s text r)"
proof -
  have "footprint cfg (authorised r) k (worker_policy s c) r (workerMessage cfg now s c text r)"
    by (rule footprint_workerMessage) (auto simp: worker_policy_def dest: filteredWorkerHeaders_allowed)
  then show ?thesis using assms by (simp add: onMessage_def)
qed

end
