(* ===== verification/Relay_Demo.thy ===== *)
theory Relay_Demo
  imports Relay_Safety
begin

text \<open>
  Concrete runs, for the witnesses of the properties of reachable states: a relay starts; a daemon
  (socket 1), a session-events client (socket 3) or a worker (socket 4) connects to workspace \<open>acme\<close>,
  target \<open>m1\<close>; a runtime client (socket 2) joins the daemon. Every step is a step of \<open>relay_step\<close>.
\<close>

definition demo_cfg :: relay_config where
  "demo_cfg =
     \<lparr>relayMode = Prod, relayId = ''relay-a'', serverUrl = ''https://cp'', publicWsBaseUrl = ''wss://a'',
      maxLogs = 100, maxFrameBytes = 1000, maxPendingBytes = 50, maxTotalConnections = 10,
      maxConnectionsPerIp = 5, maxClientsPerWorkspace = 5, maxPairingRequestTrack = 3, maxSessionOwnerTrack = 3,
      pongTimeoutMs = 10, idleTimeoutMs = 100, emptyWorkspaceTtlMs = 1000, clientRedirectEnabled = False,
      presenceSyncEnabled = False, busEnabled = True\<rparr>"

definition demo_start :: relay where
  "demo_start =
     \<lparr>registry = [], readyState = (\<lambda>_. CONNECTING), bufferedAmount = (\<lambda>_. 0), counters = [], gauges = [],
      wsIp = Map.empty, wsWorkspace = Map.empty, wsRole = Map.empty, wsHeartbeatState = Map.empty,
      ipConnectionCounts = [], upgradeLimiter = fw_new 10 60000 None, kexFrameLimiter = fw_new 10 60000 None,
      pairingFrameLimiter = fw_new 10 60000 None, runtimeClientLimiter = tb_new 10 60000 None,
      runtimeWorkspaceLimiter = tb_new 10 60000 None, daemonFrameLimiter = tb_new 10 60000 None,
      conns = Map.empty, tasks = [], out = [], logs = []\<rparr>"

definition demo_url :: "string \<Rightarrow> upgrade_url" where
  "demo_url rl = \<lparr>pathname = ''/ws'', q_role = Some rl, q_workspaceId = Some ''acme'',
                  q_runtimeTargetId = Some ''m1'', q_token = None\<rparr>"

definition demo_verdict :: "string \<Rightarrow> obj \<Rightarrow> http_outcome" where
  "demo_verdict clId extra =
     Inr (200, Some (JObj [(''ok'', JBool True),
        (''claims'', JObj ([(''workspaceId'', JStr ''acme''), (''runtimeTargetId'', JStr ''m1''),
                            (''clientId'', JStr clId)] @ extra))]))"

text \<open>One connection: the upgrade request, and the control plane's answer.\<close>

definition demo_join :: "ws \<Rightarrow> string \<Rightarrow> role \<Rightarrow> obj \<Rightarrow> relay \<Rightarrow> relay" where
  "demo_join s rl role extra r =
     (let up = \<lparr>up_role = role, up_workspaceId = ''acme'', up_runtimeTargetId = Some ''m1'', up_ip = ''::1''\<rparr>;
          r1 = upgradeRequest demo_cfg 1 s ''::1'' (Inr (demo_url rl)) (Some ''Bearer 0123456789'') None r
      in admissionResolved demo_cfg 1 s up (demo_verdict rl extra) (finishTask (AwaitAdmission s up ''0123456789'') r1))"

text \<open>Three states one step from the start, and the client of the first one's daemon.\<close>

definition demo_daemon :: relay where
  "demo_daemon = demo_join 1 ''workspace-daemon'' Workspace_daemon [(''daemonIssueGeneration'', JNum 4)] demo_start"

definition demo_viewer :: relay where
  "demo_viewer = demo_join 3 ''client'' Client
     [(''scope'', JStr ''session-events''), (''sessionChannels'', JArr [JStr ''agent-session:7''])] demo_start"

definition demo_worker :: relay where
  "demo_worker = demo_join 4 ''worker'' Worker [(''managedExecutorId'', JStr ''ex1'')] demo_start"

definition demo_pair :: relay where
  "demo_pair = demo_join 2 ''client'' Client [(''scope'', JStr ''runtime'')] demo_daemon"

lemma demo_join_reachable:
  assumes "reachable demo_cfg r" and "conns r s = None" and "s \<notin> set (pending r)"
    and "AwaitAdmission s \<lparr>up_role = role, up_workspaceId = ''acme'', up_runtimeTargetId = Some ''m1'', up_ip = ''::1''\<rparr>
           ''0123456789''
         \<in> set (tasks (upgradeRequest demo_cfg 1 s ''::1'' (Inr (demo_url rl)) (Some ''Bearer 0123456789'') None r))"
  shows "reachable demo_cfg (demo_join s rl role extra r)"
proof -
  from assms(1) obtain r0 where "initial r0" and run: "(relay_step demo_cfg)\<^sup>*\<^sup>* r0 r"
    unfolding reachable_def by blast
  note run
  also have "relay_step demo_cfg r
      (upgradeRequest demo_cfg 1 s ''::1'' (Inr (demo_url rl)) (Some ''Bearer 0123456789'') None r)" (is "relay_step _ _ ?r1")
    by (rule relay_step.upgrade [OF assms(2,3)])
  also have "relay_step demo_cfg ?r1 (demo_join s rl role extra r)"
    unfolding demo_join_def Let_def by (rule relay_step.admission [OF assms(4)])
  finally show ?thesis using \<open>initial r0\<close> unfolding reachable_def by blast
qed

lemma demo_start_reachable: "reachable demo_cfg demo_start"
  unfolding reachable_def by (intro exI [of _ demo_start]) (simp add: initial_def demo_start_def)

lemma demo_cfg_fields [simp]:
  "relayMode demo_cfg = Prod" "maxTotalConnections demo_cfg = 10" "maxConnectionsPerIp demo_cfg = 5"
  "maxClientsPerWorkspace demo_cfg = 5" "clientRedirectEnabled demo_cfg = False" "maxPendingBytes demo_cfg = 50"
  by (simp_all add: demo_cfg_def)

lemma demo_auth:
  "resolveUpgradeAuth Prod (Some ''Bearer 0123456789'') None None = Auth_ok ''0123456789'' Header"
  "runtimeScopeKey ''acme'' (Some ''m1'') = ''acme:m1''"
  by code_simp+

lemma demo_query:
  "UpgradeQuerySchema (demo_url ''client'') = Some (Client, ''acme'', Some ''m1'')"
  "UpgradeQuerySchema (demo_url ''worker'') = Some (Worker, ''acme'', Some ''m1'')"
  "UpgradeQuerySchema (demo_url ''workspace-daemon'') = Some (Workspace_daemon, ''acme'', Some ''m1'')"
  by code_simp+

lemma demo_url_fields [simp]: "pathname (demo_url rl) = ''/ws''" "q_token (demo_url rl) = None"
  by (simp_all add: demo_url_def)

text \<open>A relay with room for one more, and what an upgrade request leaves of it.\<close>

definition roomy :: "relay \<Rightarrow> role \<Rightarrow> bool" where
  "roomy r role \<longleftrightarrow>
     fst (fw_allow ''::1'' 1 (upgradeLimiter r)) \<and> totalConnectionCount (registry r) < 10 \<and>
     ipConnections r ''::1'' < 5 \<and> tasks r = [] \<and>
     (role = Client \<longrightarrow> jm_size (clients (fst (getOrCreate ''acme:m1'' None 1 (registry r)))) < 5)"

definition prepared :: "relay \<Rightarrow> role \<Rightarrow> relay" where
  "prepared r role =
     (let r1 = r\<lparr>upgradeLimiter := snd (fw_allow ''::1'' 1 (upgradeLimiter r))\<rparr>
      in if role = Client then r1\<lparr>registry := snd (getOrCreate ''acme:m1'' None 1 (registry r))\<rparr> else r1)"

lemma demo_upgrade:
  assumes "roomy r role" and "UpgradeQuerySchema (demo_url rl) = Some (role, ''acme'', Some ''m1'')"
  shows "upgradeRequest demo_cfg 1 s ''::1'' (Inr (demo_url rl)) (Some ''Bearer 0123456789'') None r =
     addTask (AwaitAdmission s \<lparr>up_role = role, up_workspaceId = ''acme'', up_runtimeTargetId = Some ''m1'', up_ip = ''::1''\<rparr>
       ''0123456789'') (prepared r role)"
proof -
  obtain L where fw: "fw_allow ''::1'' 1 (upgradeLimiter r) = (True, L)"
    using assms(1) unfolding roomy_def by (metis prod.collapse)
  have ip: "ipConnections (r\<lparr>upgradeLimiter := L\<rparr>) ''::1'' < 5"
    using assms(1) by (simp add: roomy_def ipConnections_def)
  obtain st reg where gc: "getOrCreate ''acme:m1'' None 1 (registry r) = (st, reg)" by fastforce
  show ?thesis
    using assms ip
    by (auto simp: upgradeRequest_def beginAdmission_def prepared_def roomy_def fw gc demo_auth Let_def)
qed

lemma finish_added: "tasks x = [] \<Longrightarrow> finishTask t (addTask t x) = x"
  by (cases x) (simp add: finishTask_def addTask_def)

lemma demo_joined:
  assumes "roomy r role" and "UpgradeQuerySchema (demo_url rl) = Some (role, ''acme'', Some ''m1'')"
    and "ar_ok (validateAdmission (demo_verdict rl extra))"
  shows "demo_join s rl role extra r =
     registerConnection demo_cfg 1 s role ''acme'' (Some ''m1'') ''::1''
       (ar_claims (validateAdmission (demo_verdict rl extra)))
       ((increment ''relay_admission_ok_total'' 1 (prepared r role))\<lparr>readyState := (readyState r)(s := OPEN)\<rparr>)"
proof -
  have "tasks (prepared r role) = []" using assms(1) by (simp add: roomy_def prepared_def Let_def)
  moreover have "readyState (prepared r role) = readyState r" by (simp add: prepared_def Let_def)
  ultimately show ?thesis
    using assms(3)
    by (simp add: demo_join_def demo_upgrade [OF assms(1,2)] admissionResolved_def completeUpgrade_def finish_added
        Let_def)
qed

lemma demo_reachable:
  assumes "reachable demo_cfg r" and "conns r s = None" and "roomy r role"
    and "UpgradeQuerySchema (demo_url rl) = Some (role, ''acme'', Some ''m1'')"
  shows "reachable demo_cfg (demo_join s rl role extra r)"
  using assms(3)
  by (intro demo_join_reachable [OF assms(1,2)])
    (simp_all add: demo_upgrade [OF assms(3,4)] roomy_def pending_def List.map_filter_def)

lemma demo_start_roomy: "roomy demo_start role"
  by (simp add: roomy_def demo_start_def fw_allow_def fw_new_def totalConnectionCount_def ipConnections_def
      getOrCreate_def Let_def new_state_def)

text \<open>The claims of the four tokens, and their admission.\<close>

lemma demo_ok:
  "ar_ok (validateAdmission (demo_verdict ''client'' [(''scope'', JStr ''runtime'')]))"
  "ar_ok (validateAdmission (demo_verdict ''client''
     [(''scope'', JStr ''session-events''), (''sessionChannels'', JArr [JStr ''agent-session:7''])]))"
  "ar_ok (validateAdmission (demo_verdict ''worker'' [(''managedExecutorId'', JStr ''ex1'')]))"
  "ar_ok (validateAdmission (demo_verdict ''workspace-daemon'' [(''daemonIssueGeneration'', JNum 4)]))"
  by code_simp+

lemma demo_admitted:
  "resolveConnectionAdmission Client ''acme'' (Some ''m1'') ''::1''
     (ar_claims (validateAdmission (demo_verdict ''client'' [(''scope'', JStr ''runtime'')]))) =
     Admitted (Some Runtime) (Some ''m1'') None"
  "resolveConnectionAdmission Client ''acme'' (Some ''m1'') ''::1''
     (ar_claims (validateAdmission (demo_verdict ''client''
       [(''scope'', JStr ''session-events''), (''sessionChannels'', JArr [JStr ''agent-session:7''])]))) =
     Admitted (Some Session_events) (Some ''m1'') None"
  "resolveConnectionAdmission Worker ''acme'' (Some ''m1'') ''::1''
     (ar_claims (validateAdmission (demo_verdict ''worker'' [(''managedExecutorId'', JStr ''ex1'')]))) =
     Admitted None (Some ''m1'') None"
  "resolveConnectionAdmission Workspace_daemon ''acme'' (Some ''m1'') ''::1''
     (ar_claims (validateAdmission (demo_verdict ''workspace-daemon'' [(''daemonIssueGeneration'', JNum 4)]))) =
     Admitted None (Some ''m1'') None"
  by code_simp+

lemma demo_register_worker:
  assumes "resolveConnectionAdmission Worker wid tg ip cl = Admitted sc t m"
  shows "\<exists>c. conns (registerConnection cfg now s Worker wid tg ip cl r) s = Some c \<and> c_role c = Worker"
  using assms by (simp add: registerConnection_def registerWorker_def case_prod_beta Let_def)

lemma demo_register_client:
  assumes "resolveConnectionAdmission Client wid tg ip cl = Admitted sc t m"
  shows "\<exists>c. conns (registerConnection cfg now s Client wid tg ip cl r) s = Some c \<and> c_role c = Client \<and>
     c_scopeKey c = runtimeScopeKey wid t \<and> c_claims c = cl \<and>
     c_clientScope c = (case sc of Some Pairing \<Rightarrow> Pairing | Some Session_events \<Rightarrow> Session_events | _ \<Rightarrow> Runtime)"
  using assms by (simp add: registerConnection_def registerClient_def case_prod_beta Let_def)

lemma demo_prepared [simp]:
  "conns (prepared r role) = conns r" "ipConnectionCounts (prepared r role) = ipConnectionCounts r"
  "tasks (prepared r role) = tasks r" "role \<noteq> Client \<Longrightarrow> registry (prepared r role) = registry r"
  by (simp_all add: prepared_def Let_def)

lemma demo_start_fields [simp]: "conns demo_start = Map.empty" "registry demo_start = []" "tasks demo_start = []"
  "ipConnectionCounts demo_start = []"
  by (simp_all add: demo_start_def)

lemma demo_channels:
  "sessionEventChannels (ar_claims (validateAdmission (demo_verdict ''client''
     [(''scope'', JStr ''session-events''), (''sessionChannels'', JArr [JStr ''agent-session:7''])]))) = [''agent-session:7'']"
  by code_simp

lemma demo_worker_conn: "\<exists>c. conns demo_worker 4 = Some c \<and> c_role c = Worker"
  unfolding demo_worker_def demo_joined [OF demo_start_roomy demo_query(2) demo_ok(3)]
  by (rule demo_register_worker [OF demo_admitted(3)])

lemma demo_viewer_conn: "\<exists>c. conns demo_viewer 3 = Some c \<and> c_role c = Client \<and> c_clientScope c = Session_events \<and>
    c_scopeKey c = ''acme:m1'' \<and> sessionEventChannels (c_claims c) = [''agent-session:7'']"
  unfolding demo_viewer_def demo_joined [OF demo_start_roomy demo_query(1) demo_ok(2)]
  using demo_register_client [OF demo_admitted(2)] by (simp add: demo_auth) (metis demo_channels)

lemma demo_daemon_eq:
  "demo_daemon =
     (let cl = ar_claims (validateAdmission (demo_verdict ''workspace-daemon'' [(''daemonIssueGeneration'', JNum 4)]))
      in registerConnection demo_cfg 1 1 Workspace_daemon ''acme'' (Some ''m1'') ''::1'' cl
           ((increment ''relay_admission_ok_total'' 1 (prepared demo_start Workspace_daemon))
              \<lparr>readyState := (readyState demo_start)(1 := OPEN)\<rparr>))"
  by (simp add: demo_daemon_def demo_joined [OF demo_start_roomy demo_query(3) demo_ok(4)] Let_def)

lemma demo_daemon_conn:
  "\<exists>c. conns demo_daemon 1 = Some c \<and> c_role c = Workspace_daemon \<and> c_scopeKey c = ''acme:m1''"
  unfolding demo_daemon_eq registerConnection_def
  by (simp add: demo_admitted demo_auth registerDaemon_def case_prod_beta open_state_def getOrCreate_def
      is_open_def new_state_def pruneStale_def pruneStalePairingRequests_def pruneStaleKeyExchangeRequests_def
      pruneStaleSessionOwners_def Let_def)

lemma limiter_frame [simp]:
  "upgradeLimiter (increment n d r) = upgradeLimiter r" "upgradeLimiter (updateGauges r) = upgradeLimiter r"
  "upgradeLimiter (logger_info cf t e ds r) = upgradeLimiter r" "upgradeLimiter (emit ef r) = upgradeLimiter r"
  "upgradeLimiter (setupHeartbeat t s r) = upgradeLimiter r"
  "bufferedAmount (updateGauges r) = bufferedAmount r" "bufferedAmount (logger_info cf t e ds r) = bufferedAmount r"
  "bufferedAmount (emit ef r) = bufferedAmount r" "bufferedAmount (setupHeartbeat t s r) = bufferedAmount r"
  by (simp_all add: increment_def updateGauges_def setGauge_def logger_info_def emit_def setupHeartbeat_def Let_def)

lemma demo_start_limiter [simp]:
  "upgradeLimiter (prepared demo_start Workspace_daemon) =
     \<lparr>maxPerWindow = 10, windowMs = 60000, fw_maxBuckets = None, fw_buckets = [(''::1'', \<lparr>count = 1, windowStartMs = 1\<rparr>)]\<rparr>"
  "bufferedAmount (prepared demo_start Workspace_daemon) = (\<lambda>_. 0)" "out (prepared demo_start Workspace_daemon) = []"
  by (simp_all add: prepared_def demo_start_def fw_allow_def fw_new_def fw_enforceMaxBuckets_def fw_touchEntry_def
      jm_touch_def Let_def)

lemmas demo_daemon_unfold = demo_daemon_eq registerConnection_def registerDaemon_def open_state_def upd_state_def
  getOrCreate_def reg_update_def is_open_def new_state_def pruneStale_def pruneStalePairingRequests_def
  pruneStaleKeyExchangeRequests_def pruneStaleSessionOwners_def becomeDaemon_def

lemma demo_daemon_fields:
  "tasks demo_daemon = []" "ipConnections demo_daemon ''::1'' = 1" "totalConnectionCount (registry demo_daemon) = 1"
  "fst (fw_allow ''::1'' 1 (upgradeLimiter demo_daemon))" "readyState demo_daemon 1 = OPEN"
  "bufferedAmount demo_daemon 1 = 0" "out demo_daemon = [UpsertPresence ''acme'' True (Some ''m1'') None]"
  "clients (fst (getOrCreate ''acme:m1'' None 1 (registry demo_daemon))) = []"
  unfolding demo_daemon_unfold
  by (simp_all add: demo_admitted demo_auth case_prod_beta ipConnections_def adjustIpConnectionCount_def
      acceptConnection_def totalConnectionCount_def fw_allow_def
      jm_get_Cons jm_filter_def Let_def)

lemma demo_daemon_other: "conns demo_daemon 2 = None"
  unfolding demo_daemon_unfold
  by (simp add: demo_admitted demo_auth case_prod_beta acceptConnection_def Let_def)

lemma demo_daemon_state: "daemon (state_at ''acme:m1'' demo_daemon) = Some 1"
  unfolding demo_daemon_unfold state_at_def
  by (simp add: demo_admitted demo_auth case_prod_beta acceptConnection_def jm_get_Cons Let_def)

lemma demo_daemon_roomy: "roomy demo_daemon Client"
  using demo_daemon_fields by (simp add: roomy_def)

lemma demo_reachables:
  "reachable demo_cfg demo_daemon" "reachable demo_cfg demo_viewer" "reachable demo_cfg demo_worker"
  unfolding demo_daemon_def demo_viewer_def demo_worker_def
  by (rule demo_reachable [OF demo_start_reachable _ demo_start_roomy]; simp add: demo_query)+

lemma demo_pair_reachable: "reachable demo_cfg demo_pair"
  unfolding demo_pair_def
  by (rule demo_reachable [OF demo_reachables(1) demo_daemon_other demo_daemon_roomy demo_query(1)])

lemma demo_pair_conn:
  "\<exists>c. conns demo_pair 2 = Some c \<and> c_role c = Client \<and> c_clientScope c = Runtime \<and> c_scopeKey c = ''acme:m1''"
  unfolding demo_pair_def demo_joined [OF demo_daemon_roomy demo_query(1) demo_ok(1)]
  using demo_register_client [OF demo_admitted(1)] by (simp add: demo_auth) blast

text \<open>The viewer subscribes to its channel.\<close>

definition demo_subscribe :: string where
  "demo_subscribe = ''{\"type\":\"viewport.session_events.subscribe/v1\",\"channel\":\"agent-session:7\"}''"

definition demo_subscribed :: relay where
  "demo_subscribed = onMessage demo_cfg 9 3 demo_subscribe demo_viewer"

lemma subscribe_takes_effect:
  assumes "isSessionEventSubscribeFrame fr" and "trimmedField fr ''channel'' = ch" and "ch \<noteq> []"
    and "ch \<in> set (sessionEventChannels cl)"
  shows "\<exists>st subs. jm_get (registry (handleSessionEventClientFrame cfg now s wid key cl fr r)) key = Some st \<and>
     jm_get (sessionEventSubscribers st) ch = Some subs \<and> s \<in> set subs"
  using assms
  by (auto simp: handleSessionEventClientFrame_def open_state_def subscribe_def set_add_def case_prod_beta Let_def)

lemma demo_subscribe_parse:
  "parseFramePayload demo_subscribe =
     Some [(''type'', JStr ''viewport.session_events.subscribe/v1''), (''channel'', JStr ''agent-session:7'')]"
  "isAllowedClientFrame demo_subscribe" "byteLength demo_subscribe \<le> 1000"
  by code_simp+

lemma demo_subscribe_frame:
  fixes fr :: obj
  defines "fr \<equiv> [(''type'', JStr ''viewport.session_events.subscribe/v1''), (''channel'', JStr ''agent-session:7'')]"
  shows "isSessionEventSubscribeFrame fr" "isSessionEventClientFrame fr" "\<not> isSessionViewerPresenceFrame fr"
    "trimmedField fr ''channel'' = ''agent-session:7''"
  unfolding fr_def by code_simp+

lemma demo_subscribed_reachable: "reachable demo_cfg demo_subscribed"
  using demo_reachables(2) relay_step.message unfolding reachable_def demo_subscribed_def
  by (meson rtranclp.rtrancl_into_rtrancl)

lemma demo_subscribed_state:
  "\<exists>st subs. jm_get (registry demo_subscribed) ''acme:m1'' = Some st \<and>
     jm_get (sessionEventSubscribers st) ''agent-session:7'' = Some subs \<and> 3 \<in> set subs"
proof -
  obtain c where c: "conns demo_viewer 3 = Some c" "c_role c = Client" "c_clientScope c = Session_events"
    "c_scopeKey c = ''acme:m1''" "sessionEventChannels (c_claims c) = [''agent-session:7'']"
    using demo_viewer_conn by blast
  have "maxFrameBytes demo_cfg = 1000" by (simp add: demo_cfg_def)
  then have eq: "demo_subscribed = handleSessionEventClientFrame demo_cfg 9 3 (c_workspaceId c) ''acme:m1'' (c_claims c)
      [(''type'', JStr ''viewport.session_events.subscribe/v1''), (''channel'', JStr ''agent-session:7'')]
      (markWsActivity 9 3 demo_viewer)"
    using demo_subscribe_parse demo_subscribe_frame(2,3) c(1-4)
    by (simp add: demo_subscribed_def onMessage_def clientMessage_def sessionEventsClientMessage_def Let_def not_less)
  show ?thesis unfolding eq by (rule subscribe_takes_effect [OF demo_subscribe_frame(1,4)]) (simp_all add: c(5))
qed

end
