(* ===== verification/Relay_Generations.thy ===== *)
theory Relay_Generations
  imports Relay_Safety
begin

text \<open>
  The issue generation of a scope's daemon under every step of the relay: a registration may raise
  it, the eviction of an empty state forgets it, and nothing else touches it.
\<close>

section \<open>Daemon generations\<close>

definition gen_le :: "int option \<Rightarrow> int option \<Rightarrow> bool" where
  "gen_le a b = (case a of None \<Rightarrow> True | Some x \<Rightarrow> (case b of Some y \<Rightarrow> x \<le> y | None \<Rightarrow> False))"

definition gen_at :: "string \<Rightarrow> relay \<Rightarrow> int option" where
  "gen_at key r = daemonIssueGeneration (state_at key r)"

lemma gen_le_refl [simp]: "gen_le a a"
  by (simp add: gen_le_def split: option.splits)

lemma gen_le_trans: "gen_le a b \<Longrightarrow> gen_le b c \<Longrightarrow> gen_le a c"
  by (auto simp: gen_le_def split: option.splits)

lemma gen_footprint: "footprint cfg auth key E r r' \<Longrightarrow> gen_at k r' = gen_at k r"
  by (simp add: gen_at_def footprint_state(3))

lemma gen_registry: "registry r' = registry r \<Longrightarrow> gen_at k r' = gen_at k r"
  by (simp add: gen_at_def state_at_def)

lemma gen_getOrCreate: "registry r' = snd (getOrCreate key None now (registry r)) \<Longrightarrow> gen_at k r' = gen_at k r"
  by (auto simp: gen_at_def state_at_def getOrCreate_def new_state_def Let_def split: option.splits)

lemma gen_upgradeRequest: "gen_at k (upgradeRequest cfg now s ip parsed a p r) = gen_at k r"
proof -
  obtain ok l where fw: "fw_allow ip now (upgradeLimiter r) = (ok, l)" by fastforce
  have "gen_at k (beginAdmission cfg now s up a p q x) = gen_at k x" for up q x
  proof (cases "up_role up = Client")
    case True
    have "registry (beginAdmission cfg now s up a p q x) = registry x \<or>
        registry (beginAdmission cfg now s up a p q x) =
          snd (getOrCreate (runtimeScopeKey (up_workspaceId up) (up_runtimeTargetId up)) None now (registry x))"
      using True by (auto simp: beginAdmission_def refuse_def case_prod_beta Let_def split: upgrade_auth.splits)
    then show ?thesis using gen_registry gen_getOrCreate by metis
  next
    case False
    then show ?thesis by (intro gen_registry) (auto simp: beginAdmission_def refuse_def split: upgrade_auth.splits)
  qed
  moreover have "gen_at k (refuse s m st x) = gen_at k x" "gen_at k (upgradeFailed cfg now s ip m x) = gen_at k x"
    "gen_at k (emit ef x) = gen_at k x" "gen_at k (x\<lparr>upgradeLimiter := l\<rparr>) = gen_at k x" for m st x ef
    by (intro gen_registry; simp add: refuse_def upgradeFailed_def)+
  ultimately show ?thesis
    by (auto simp: upgradeRequest_def fw Let_def split: sum.splits option.splits)
qed

text \<open>A registration raises the generation of its scope or leaves it.\<close>

lemma gen_upd: "jm_get (registry r) key \<noteq> None \<Longrightarrow> registry r' = reg_update key f (registry r) \<Longrightarrow>
    gen_at k r' = (if k = key then daemonIssueGeneration (f (state_at key r)) else gen_at k r)"
  by (simp add: gen_at_def state_at_upd)

lemma gen_registerDaemon:
  assumes "jm_get (registry r) (c_scopeKey c) = Some st"
  shows "gen_le (gen_at k r) (gen_at k (registerDaemon cfg now s c st r))"
proof -
  let ?g = "claimedGeneration (c_claims c)"
  let ?stale = "?g \<noteq> None \<and> daemonIssueGeneration st \<noteq> None \<and> the ?g < the (daemonIssueGeneration st)"
  have st: "state_at (c_scopeKey c) r = st" by (simp add: state_at_def assms)
  show ?thesis
  proof (cases "?stale \<or> is_open r (daemon st)")
    case True
    then have "registry (registerDaemon cfg now s c st r) = registry r" by (auto simp: registerDaemon_def Let_def)
    from gen_registry [OF this] show ?thesis by simp
  next
    case False
    then have "registry (registerDaemon cfg now s c st r) = reg_update (c_scopeKey c) (becomeDaemon s ?g) (registry r)"
      by (auto simp: registerDaemon_def Let_def)
    then have "gen_at k (registerDaemon cfg now s c st r) =
        (if k = c_scopeKey c then daemonIssueGeneration (becomeDaemon s ?g st) else gen_at k r)"
      using gen_upd [of r "c_scopeKey c"] assms st by simp
    then show ?thesis using False
      by (auto simp: gen_le_def becomeDaemon_def gen_at_def st split: option.splits)
  qed
qed

lemma gen_registerConnection:
  assumes "relay_inv cfg r"
  shows "gen_le (gen_at k r) (gen_at k (registerConnection cfg now s role wid rq ip cl r))"
proof (cases "resolveConnectionAdmission role wid rq ip cl")
  case (Rejected a b c d e)
  then have "registry (registerConnection cfg now s role wid rq ip cl r) = registry r"
    by (simp add: registerConnection_def Let_def)
  from gen_registry [OF this] show ?thesis by simp
next
  case (Admitted sc target machine)
  let ?key = "runtimeScopeKey wid target" and ?f = "\<lambda>x. pruneStale now (x\<lparr>lastActivityAt := now\<rparr>)"
  obtain st r1 where os: "open_state ?key wid target now ?f r = (st, r1)" by fastforce
  have "st_inv cfg (authorised r) (state_at ?key r)" using assms by (simp add: relay_inv_defs)
  note D = open_stateD [where E = "\<lambda>_. True", OF os footprint_refl this st_step_pruneStale(2)]
  have r1: "gen_at k r1 = gen_at k r" by (rule gen_footprint [OF D(1)])
  have "gen_le (gen_at k r1) (gen_at k (registerClient cfg now s c r1))" if "c_scopeKey c = ?key" for c
    using gen_upd [of r1 ?key "registerClient cfg now s c r1"] D(8) that
    by (auto simp: registerClient_def gen_at_def)
  moreover have "gen_le (gen_at k r1) (gen_at k (registerWorker cfg now s c r1))" for c
    by (subst gen_registry [of _ r1]) (simp_all add: registerWorker_def)
  ultimately show ?thesis
    using Admitted gen_registerDaemon [of r1 _ st k] D(8) r1
    by (cases role) (simp_all add: registerConnection_def os Let_def)
qed

lemma gen_completeUpgrade:
  "relay_inv cfg r \<Longrightarrow> gen_le (gen_at k r) (gen_at k (completeUpgrade cfg now s up cl url r))"
proof -
  assume inv: "relay_inv cfg r"
  let ?r = "r\<lparr>readyState := (readyState r)(s := OPEN)\<rparr>"
  let ?r1 = "registerConnection cfg now s (up_role up) (up_workspaceId up) (up_runtimeTargetId up) (up_ip up) cl ?r"
  have "relay_inv cfg ?r" using inv by (simp add: inv_environment)
  then have "gen_le (gen_at k ?r) (gen_at k ?r1)" by (rule gen_registerConnection)
  moreover have "gen_at k ?r = gen_at k r" by (rule gen_registry) simp
  moreover have "registry (completeUpgrade cfg now s up cl url r) = registry ?r1"
    by (simp add: completeUpgrade_def Let_def)
  ultimately show ?thesis using gen_registry by metis
qed

lemma gen_close: "gen_at k (onClose cfg now s r) = gen_at k r"
proof -
  have "gen_at k r' = gen_at k r" if "registry r' = snd (clearDaemon key s now (registry r))" for key r'
    using that by (auto simp: gen_at_def state_at_def clearDaemon_def split: option.splits)
  moreover have "gen_at k r' = gen_at k r" if "registry r' = removeClient key s now (registry r)" for key r'
    using that by (auto simp: gen_at_def state_at_def removeClient_def reg_update_get split: option.splits)
  moreover have "registry (onClose cfg now s r) = registry r \<or>
      (\<exists>key. registry (onClose cfg now s r) = snd (clearDaemon key s now (registry r))) \<or>
      (\<exists>key. registry (onClose cfg now s r) = removeClient key s now (registry r))"
    by (auto simp: onClose_def workerClose_def daemonClose_def clientClose_def case_prod_beta Let_def
        split: option.splits role.splits)
  ultimately show ?thesis using gen_registry by metis
qed

lemma gen_busFrames: "relay_inv cfg r \<Longrightarrow> gen_at k (busPollFrames cfg now frames r) = gen_at k r"
  unfolding busPollFrames_def
proof (induction frames arbitrary: r)
  case (Cons fr frames)
  have "gen_at k (routeBusFrame cfg now fr r) = gen_at k r"
    using gen_footprint [OF bus_frame_footprint [OF Cons.prems, of fr "\<lambda>_. True"]] by simp
  then show ?case using Cons inv_busFrame by simp
qed simp

lemma gen_message: "relay_inv cfg r \<Longrightarrow> gen_at k (onMessage cfg now s text r) = gen_at k r"
proof (cases "conns r s")
  case (Some c)
  assume inv: "relay_inv cfg r"
  show ?thesis
  proof (cases "c_role c")
    case Workspace_daemon
    show ?thesis by (rule gen_footprint [OF daemon_footprint [OF inv Some Workspace_daemon]])
  next
    case Client
    show ?thesis by (rule gen_footprint [OF client_footprint [OF inv Some Client]])
  next
    case Worker
    show ?thesis by (rule gen_footprint [OF worker_footprint [OF Some Worker]])
  qed
qed (simp add: onMessage_def)

lemma registry_heartbeat: "registry (heartbeatTick cfg now wss r) = registry r"
proof -
  have "registry (heartbeatSocket cfg now s x) = registry x" for s x
    by (simp add: heartbeatSocket_def terminateWithReason_def Let_def split: option.splits)
  then have "registry (fold (heartbeatSocket cfg now) wss r) = registry r"
    by (induction wss arbitrary: r) simp_all
  then show ?thesis by (simp add: heartbeatTick_def Let_def)
qed

lemma registry_quiet_steps:
  "registry (presenceSyncTick cfg r) = registry r" "registry (shutdown wss r) = registry r"
  "registry (handlePong now s r) = registry r"
  "registry (finishTask t r) = registry r" "registry (upgradeFailed cfg now s ip m r) = registry r"
  "registry (finishWorkerTransportRequest cfg now s wc oc r) = registry r"
  "registry (presenceResolved cfg now s tg p r) = registry r"
  "registry (publishCompleted cfg now s tg rid ok r) = registry r"
proof -
  have "registry (fold (\<lambda>(_, st) x. if is_open r (daemon st)
      then emit (UpsertPresence (workspaceId st) True (runtimeTargetId st) None) x else x) es y) = registry y" for es :: registry and y
    by (induction es arbitrary: y) (auto split: prod.splits)
  then show "registry (presenceSyncTick cfg r) = registry r" by (simp add: presenceSyncTick_def)
  show "registry (shutdown wss r) = registry r"
    unfolding shutdown_def by (induction wss arbitrary: r) simp_all
qed (simp_all add: handlePong_def finishTask_def upgradeFailed_def daemonUnavailable_def
    finishWorkerTransportRequest_def presenceResolved_def publishCompleted_def Let_def
    split: option.splits role.splits sum.splits prod.splits)

lemma registry_error: "onError cfg now s m r = Some r' \<Longrightarrow> registry r' = registry r"
  by (auto simp: onError_def wsError_def split: option.splits role.splits)

lemma gen_cleanup:
  assumes "relay_inv cfg r" and "jm_get (registry (cleanupTick cfg now r)) k = Some st'"
  shows "gen_at k r = daemonIssueGeneration st'"
proof -
  obtain removed reg where pe: "pruneEmpty (emptyWorkspaceTtlMs cfg) now (registry r) = (removed, reg)" by fastforce
  let ?g = "\<lambda>wid x. increment ''relay_workspace_evictions_total'' 1
                         (logger_info cfg now ''workspace_evicted'' [(''workspaceId'', JStr wid)] x)"
  have "registry (fold ?g xs y) = registry y" for xs y by (induction xs arbitrary: y) simp_all
  then have "registry (cleanupTick cfg now r) = reg" by (simp add: cleanupTick_def pe)
  moreover have "jm_wf (registry r)" using assms(1) by (simp add: relay_inv_defs)
  moreover have "reg = jm_filter (\<lambda>_ st. \<not> prunable (emptyWorkspaceTtlMs cfg) now st) (registry r)"
    using pe by (auto simp: pruneEmpty_def)
  ultimately have "jm_get (registry r) k = Some st'"
    using assms(2) jm_get_filter [of "registry r" "\<lambda>_ st. \<not> prunable (emptyWorkspaceTtlMs cfg) now st" k]
    by (auto split: option.splits if_splits)
  then show ?thesis by (simp add: gen_at_def state_at_def)
qed

lemma gen_step:
  assumes "relay_inv cfg r" and "relay_step cfg r r'" and "jm_get (registry r') k = Some st'"
  shows "gen_le (gen_at k r) (daemonIssueGeneration st')"
proof -
  have at: "gen_at k r' = daemonIssueGeneration st'" using assms(3) by (simp add: gen_at_def state_at_def)
  have fin: "gen_at k (finishTask t x) = gen_at k x" for t x by (rule gen_registry) (rule registry_quiet_steps)
  from assms(2) show ?thesis
  proof cases
    case (upgrade s now ip parsed authorization protocol)
    then show ?thesis using at gen_upgradeRequest by simp
  next
    case (admission s up token now oc)
    let ?r = "finishTask (AwaitAdmission s up token) r"
    have inv: "relay_inv cfg ?r" by (rule inv_finish_upgrade(1) [OF assms(1) admission(2)]) simp
    have inc: "gen_at k (increment n d x) = gen_at k x" for n d x by (rule gen_registry) simp
    have ad: "gen_at k (addTask t x) = gen_at k x" for t x by (rule gen_registry) simp
    have em: "gen_at k (emit ef (logger_warn cf tt ev ds x)) = gen_at k x" for ef cf tt ev ds x
      by (rule gen_registry) simp
    have "gen_le (gen_at k ?r) (gen_at k r')"
      using gen_completeUpgrade [of cfg "increment ''relay_admission_ok_total'' 1 ?r" k] inv
      by (auto simp: admission(1) admissionResolved_def Let_def em inc ad)
    then show ?thesis using at fin by simp
  next
    case (redirect s up cl now preferred)
    let ?r = "finishTask (AwaitRedirect s up cl) r"
    have inv: "relay_inv cfg ?r" by (rule inv_finish_upgrade(1) [OF assms(1) redirect(2)]) simp
    have "gen_le (gen_at k ?r) (gen_at k r')"
      using gen_completeUpgrade [OF inv] by (simp add: redirect(1) redirectResolved_def)
    then show ?thesis using at fin by simp
  next
    case (cleanup now)
    then show ?thesis using gen_cleanup [OF assms(1)] assms(3) by simp
  next
    case (message now s t)
    then show ?thesis using at gen_message [OF assms(1)] by simp
  next
    case (close now s)
    then show ?thesis using at gen_close by simp
  next
    case (error now s message)
    then show ?thesis using at registry_error [OF error] by (simp add: gen_at_def state_at_def)
  next
    case (bus now frames)
    then show ?thesis using at gen_busFrames [OF assms(1)] by simp
  qed (use at in \<open>simp_all add: gen_at_def state_at_def registry_quiet_steps registry_heartbeat\<close>)
qed

end
