(* ===== verification/Relay_Guarantees.thy ===== *)
theory Relay_Guarantees
  imports Relay_Demo Relay_Generations
begin

text \<open>
  What the relay promises in every state it can reach: frames stay inside the scope of their sender,
  subscriptions stay inside the claims of the subscriber, the tables stay bounded, the counts per
  address are right, a worker reaches only its own executor, and the generation of a scope's daemon
  never goes back.
\<close>

section \<open>Routing to a known owner\<close>

lemma open_known:
  assumes "wid \<noteq> []" and "jm_get (registry r) key = Some st"
  shows "\<exists>r1. open_state key wid None now f r = (f (st\<lparr>workspaceId := wid, runtimeTargetId := None\<rparr>), r1) \<and>
     jm_get (registry r1) key = Some (f (st\<lparr>workspaceId := wid, runtimeTargetId := None\<rparr>)) \<and>
     out r1 = out r \<and> readyState r1 = readyState r \<and> bufferedAmount r1 = bufferedAmount r"
  using assms by (simp add: open_state_def getOrCreate_def Let_def)

lemma safeSend_writable: "writable cfg r x \<Longrightarrow> safeSend cfg x w r = (True, emit (Sent x w) r)"
  by (simp add: safeSend_def writable_def)

lemma writable_cong: "readyState r' = readyState r \<Longrightarrow> bufferedAmount r' = bufferedAmount r \<Longrightarrow>
    writable cfg r' x = writable cfg r x"
  by (simp add: writable_def)

lemma deliver_local:
  assumes "clientWs ow = Some x" and "writable cfg r x"
  shows "deliverToOwner cfg wid tg ow text m1 m2 m3 r = (True, increment m1 1 (emit (Sent x (Text text)) r))"
  using assms safeSend_writable [OF assms(2)] by (simp add: deliverToOwner_def is_open_def writable_def)

lemma session_frame_delivered:
  assumes "wid \<noteq> []" and "jm_get (registry r) key = Some st" and "jm_wf (sessionOwners st)"
    and "jm_get (sessionOwners st) sid = Some ow" and "clientWs ow = Some x"
    and "now - createdAt ow \<le> SESSION_OWNER_TTL_MS" and "writable cfg r x"
  shows "\<exists>r'. routeSessionOwnedFrame cfg now wid key sid text r = (True, r') \<and> out r' = out r @ [Sent x (Text text)]"
proof -
  let ?st = "pruneStaleSessionOwners now (st\<lparr>workspaceId := wid, runtimeTargetId := None\<rparr>)"
  obtain r1 where r1: "open_state key wid None now (pruneStaleSessionOwners now) r = (?st, r1)" "out r1 = out r"
    "readyState r1 = readyState r" "bufferedAmount r1 = bufferedAmount r"
    using open_known [OF assms(1,2)] by metis
  have "jm_get (sessionOwners ?st) sid = Some ow"
    using assms(3,4,6) by (simp add: session.prune_get not_less)
  moreover have "writable cfg r1 x" using assms(7) writable_cong [OF r1(3,4)] by simp
  ultimately show ?thesis by (simp add: routeSessionOwnedFrame_def r1 deliver_local assms(5))
qed

lemma key_exchange_answered:
  assumes "wid \<noteq> []" and "jm_get (registry r) key = Some st" and "jm_wf (keyExchangeRequests st)"
    and "trimmedField fr ''requestId'' = rid" and "trimmedField fr ''sessionId'' = sid" and "rid \<noteq> []" and "sid \<noteq> []"
    and "jm_get (keyExchangeRequests st) rid = Some ow" and "clientWs ow = Some x"
    and "now - createdAt ow \<le> KEY_EXCHANGE_REQUEST_TTL_MS" and "writable cfg r x"
    and "r1 = routeKeyExchangeResponse cfg now wid key answer fr r"
  shows "out r1 = out r @ [Sent x (Text answer)]" and "writable cfg r1 x"
    and "\<exists>st1. jm_get (registry r1) key = Some st1 \<and> jm_get (keyExchangeRequests st1) rid = None \<and>
       jm_get (sessionOwners st1) sid = Some (ow\<lparr>createdAt := now\<rparr>) \<and>
       (jm_wf (sessionOwners st) \<longrightarrow> jm_wf (sessionOwners st1))"
proof -
  let ?st = "pruneStaleKeyExchangeRequests now (st\<lparr>workspaceId := wid, runtimeTargetId := None\<rparr>)"
  let ?f = "\<lambda>s. trackSessionOwner (s\<lparr>keyExchangeRequests := jm_delete rid (keyExchangeRequests s)\<rparr>)
              sid (ow\<lparr>createdAt := now\<rparr>) (maxSessionOwnerTrack cfg)"
  obtain ra where ra: "open_state key wid None now (pruneStaleKeyExchangeRequests now) r = (?st, ra)"
    "jm_get (registry ra) key = Some ?st" "out ra = out r" "readyState ra = readyState r"
    "bufferedAmount ra = bufferedAmount r"
    using open_known [OF assms(1,2)] by metis
  have own: "jm_get (keyExchangeRequests ?st) rid = Some ow"
    using assms(3,8,10) by (simp add: kex.prune_get not_less)
  have w: "writable cfg (upd_state key ?f ra) x"
    using assms(11) ra(4,5) by (simp add: writable_def) (simp add: upd_state_def)
  have r1: "r1 = increment ''relay_key_exchange_response_routed_local_total'' 1
      (emit (Sent x (Text answer)) (upd_state key ?f ra))"
    by (simp add: assms(4-7,12) routeKeyExchangeResponse_def ra(1) own Let_def deliver_local [OF assms(9) w])
  show "out r1 = out r @ [Sent x (Text answer)]" by (simp add: r1 ra(3))
  show "writable cfg r1 x" using w by (simp add: r1 writable_def emit_def)
  have "jm_get (registry r1) key = Some (?f ?st)" by (simp add: r1 reg_update_get ra(2))
  then show "\<exists>st1. jm_get (registry r1) key = Some st1 \<and> jm_get (keyExchangeRequests st1) rid = None \<and>
       jm_get (sessionOwners st1) sid = Some (ow\<lparr>createdAt := now\<rparr>) \<and>
       (jm_wf (sessionOwners st) \<longrightarrow> jm_wf (sessionOwners st1))"
    by (simp add: trackSessionOwner_def pruneStaleKeyExchangeRequests_def)
qed

section \<open>Properties\<close>

text \<open>C1: clients are isolated. Whatever text a client sends, in any reachable state, the relay writes only to
  that client itself (notices the relay composed), or passes the very text on within the client's own
  scope: a runtime or pairing client's frame to the scope's daemon only, a session-events client's
  frame to the scope's other clients only; it writes only to sockets that are open and within their
  buffer limit; and it changes no other scope's state.\<close>

theorem client_frames_stay_in_scope:
  assumes "reachable cfg r" and "conns r s = Some c" and "c_role c = Client" and "r' = onMessage cfg now s text r"
  shows "out r' = out r @ emitted r r' \<and>
         (\<forall>x w. Sent x w \<in> set (emitted r r') \<longrightarrow> writable cfg r x \<and>
            (case w of
               Stringify _ \<Rightarrow> x = s
             | Text t \<Rightarrow> t = text \<and>
                 (if c_clientScope c = Session_events then x \<noteq> s \<and> has_conn r x Client (c_scopeKey c)
                  else has_conn r x Workspace_daemon (c_scopeKey c)))) \<and>
         (\<forall>key. key \<noteq> c_scopeKey c \<longrightarrow> jm_get (registry r') key = jm_get (registry r) key)"
proof -
  have fp: "footprint cfg (authorised r) (c_scopeKey c) (client_policy r s c text) r r'"
    unfolding assms(4) by (rule client_footprint [OF reachable_relay_inv [OF assms(1)] assms(2,3)])
  have "writable cfg r x \<and> (case w of Stringify _ \<Rightarrow> x = s | Text t \<Rightarrow> t = text \<and>
                 (if c_clientScope c = Session_events then x \<noteq> s \<and> has_conn r x Client (c_scopeKey c)
                  else has_conn r x Workspace_daemon (c_scopeKey c)))"
    if "Sent x w \<in> set (emitted r r')" for x w
    using footprint_sent [OF fp that] by (cases w) (auto simp: client_policy_def)
  then show ?thesis using footprint_emitted(1) [OF fp] footprint_other [OF fp] by blast
qed

theorem client_frames_stay_in_scope_witness:
  "\<exists>c. conns demo_pair 2 = Some c \<and> c_scopeKey c = ''acme:m1'' \<and>
     (\<forall>x t. Sent x (Text t) \<in> set (emitted demo_pair (onMessage demo_cfg 9 2 ''{}'' demo_pair)) \<longrightarrow>
        t = ''{}'' \<and> has_conn demo_pair x Workspace_daemon ''acme:m1'')"
proof -
  obtain c where c: "conns demo_pair 2 = Some c" "c_role c = Client" "c_clientScope c = Runtime"
    "c_scopeKey c = ''acme:m1''" using demo_pair_conn by blast
  have "t = ''{}'' \<and> has_conn demo_pair x Workspace_daemon ''acme:m1''"
    if "Sent x (Text t) \<in> set (emitted demo_pair (onMessage demo_cfg 9 2 ''{}'' demo_pair))" for x t
    using client_frames_stay_in_scope [OF demo_pair_reachable c(1,2) refl] that c(3,4) by fastforce
  with c show ?thesis by blast
qed

text \<open>C2: daemons are isolated, and their frames go nowhere but to clients. Whatever text a daemon
  sends, every socket the relay writes to is a client of the daemon's own scope, what it writes is that very text,
  and nothing else leaves the relay on the daemon's behalf.\<close>

theorem daemon_frames_stay_in_scope:
  assumes "reachable cfg r" and "conns r s = Some c" and "c_role c = Workspace_daemon"
    and "r' = onMessage cfg now s text r"
  shows "out r' = out r @ emitted r r' \<and>
         (\<forall>e \<in> set (emitted r r'). (\<exists>code reason x. e = Closed x code reason) \<or>
            (\<exists>x. e = Sent x (Text text) \<and> writable cfg r x \<and> has_conn r x Client (c_scopeKey c))) \<and>
         (\<forall>key. key \<noteq> c_scopeKey c \<longrightarrow> jm_get (registry r') key = jm_get (registry r) key)"
proof -
  have fp: "footprint cfg (authorised r) (c_scopeKey c) (daemon_policy r c text) r r'"
    unfolding assms(4) by (rule daemon_footprint [OF reachable_relay_inv [OF assms(1)] assms(2,3)])
  have "(\<exists>code reason x. e = Closed x code reason) \<or>
      (\<exists>x. e = Sent x (Text text) \<and> writable cfg r x \<and> has_conn r x Client (c_scopeKey c))"
    if "permitted cfg (daemon_policy r c text) r e" for e
    using that by (cases e) (auto simp: permitted_def daemon_policy_def split: wire.splits)
  then show ?thesis using footprint_emitted [OF fp] footprint_other [OF fp] by blast
qed

theorem daemon_frames_stay_in_scope_witness:
  "\<exists>c. conns demo_daemon 1 = Some c \<and>
     (\<forall>x w. Sent x w \<in> set (emitted demo_daemon (onMessage demo_cfg 9 1 ''{}'' demo_daemon)) \<longrightarrow>
        has_conn demo_daemon x Client ''acme:m1'')"
proof -
  obtain c where c: "conns demo_daemon 1 = Some c" "c_role c = Workspace_daemon" "c_scopeKey c = ''acme:m1''"
    using demo_daemon_conn by blast
  have "has_conn demo_daemon x Client ''acme:m1''"
    if "Sent x w \<in> set (emitted demo_daemon (onMessage demo_cfg 9 1 ''{}'' demo_daemon))" for x w
    using daemon_frames_stay_in_scope [OF demo_reachables(1) c(1,2) refl] that by (auto simp: c(3))
  with c show ?thesis by blast
qed

text \<open>C3: a frame from the bus reaches only the scope it names: a client's frame only that scope's daemon, a
  daemon's frame only that scope's clients, and no other scope's state changes.\<close>

theorem bus_frames_stay_in_scope:
  assumes "reachable cfg r" and "key = runtimeScopeKey (bf_workspaceId fr) (Some (bf_runtimeTargetId fr))"
    and "r' = routeBusFrame cfg now fr r"
  shows "(\<forall>x w. Sent x w \<in> set (emitted r r') \<longrightarrow> w = Text (bf_payload fr) \<and> writable cfg r x \<and>
            has_conn r x (case bf_direction fr of Client_to_daemon \<Rightarrow> Workspace_daemon | Daemon_to_clients \<Rightarrow> Client) key) \<and>
         (\<forall>k. k \<noteq> key \<longrightarrow> jm_get (registry r') k = jm_get (registry r) k)"
proof -
  let ?E = "\<lambda>e. case e of Sent x w \<Rightarrow> w = Text (bf_payload fr) \<and>
            has_conn r x (case bf_direction fr of Client_to_daemon \<Rightarrow> Workspace_daemon | Daemon_to_clients \<Rightarrow> Client) key
          | _ \<Rightarrow> True"
  have fp: "footprint cfg (authorised r) key ?E r r'"
    unfolding assms(2,3) by (rule bus_frame_footprint [OF reachable_relay_inv [OF assms(1)]]) auto
  show ?thesis using footprint_sent [OF fp] footprint_other [OF fp] by auto
qed

theorem bus_frames_stay_in_scope_witness:
  "let fr = \<lparr>bf_id = 1, bf_workspaceId = ''other'', bf_runtimeTargetId = ''m9'', bf_machineId = None,
             bf_sourceRelayId = ''b'', bf_targetRelayId = None, bf_direction = Client_to_daemon, bf_payload = ''{}'',
             bf_issuedAtMs = None, bf_signature = None\<rparr>
   in jm_get (registry (routeBusFrame demo_cfg 5 fr demo_pair)) ''acme:m1'' = jm_get (registry demo_pair) ''acme:m1''"
  using bus_frames_stay_in_scope [OF demo_pair_reachable refl refl,
      of 5 "\<lparr>bf_id = 1, bf_workspaceId = ''other'', bf_runtimeTargetId = ''m9'', bf_machineId = None,
             bf_sourceRelayId = ''b'', bf_targetRelayId = None, bf_direction = Client_to_daemon, bf_payload = ''{}'',
             bf_issuedAtMs = None, bf_signature = None\<rparr>"]
  by (simp add: runtimeScopeKey_def)

text \<open>C22: session events reach only viewers whose token names the channel. In every reachable state every
  subscriber of a channel, in any scope, is an open or closing client connection of that scope whose admitted claims
  list the channel.\<close>

theorem subscribers_authorised:
  assumes "reachable cfg r" and "jm_get (registry r) key = Some st"
    and "jm_get (sessionEventSubscribers st) ch = Some subs" and "s \<in> set subs"
  shows "\<exists>c. conns r s = Some c \<and> c_role c = Client \<and> c_scopeKey c = key \<and>
     ch \<in> set (sessionEventChannels (c_claims c))"
proof -
  have inv: "relay_inv cfg r" by (rule reachable_relay_inv [OF assms(1)])
  have st: "state_at key r = st" by (simp add: state_at_def assms(2))
  have si: "st_inv cfg (authorised r) st"
    using inv unfolding st [symmetric] relay_inv_def registry_inv_def by blast
  have "s \<in> client_sockets st" using owner_is_client(4) [OF si assms(3)] assms(4) by blast
  then have "has_conn r s Client key" using inv by (auto simp: relay_inv_def sockets_inv_def st [symmetric])
  moreover have "authorised r ch s"
    using si jm_get_mem [OF assms(3)] assms(4) by (fastforce simp: st_inv_def)
  ultimately show ?thesis by (auto simp: has_conn_def authorised_def)
qed

theorem subscribers_authorised_witness:
  "\<exists>c. conns demo_subscribed 3 = Some c \<and> ''agent-session:7'' \<in> set (sessionEventChannels (c_claims c))"
proof -
  obtain st subs where "jm_get (registry demo_subscribed) ''acme:m1'' = Some st"
    "jm_get (sessionEventSubscribers st) ''agent-session:7'' = Some subs" "3 \<in> set subs"
    using demo_subscribed_state by blast
  from subscribers_authorised [OF demo_subscribed_reachable this] show ?thesis by blast
qed

text \<open>The registry and the installed handlers agree. In every reachable state a socket is a client of a
  scope exactly when it has a client's handlers for that scope, the daemon of a scope has a daemon's handlers for
  it, and every connection's claims name the non-empty workspace it was registered under.\<close>

theorem registry_matches_connections:
  assumes "reachable cfg r"
  shows "(s \<in> client_sockets (state_at key r) \<longleftrightarrow> has_conn r s Client key) \<and>
         (daemon (state_at key r) = Some d \<longrightarrow> has_conn r d Workspace_daemon key) \<and>
         (conns r s = Some c \<longrightarrow> conn_ok c)"
  using reachable_relay_inv [OF assms] by (simp add: relay_inv_def sockets_inv_def)

theorem registry_matches_connections_witness:
  "2 \<in> client_sockets (state_at ''acme:m1'' demo_pair)"
proof -
  obtain c where "conns demo_pair 2 = Some c" "c_role c = Client" "c_scopeKey c = ''acme:m1''"
    using demo_pair_conn by blast
  then have "has_conn demo_pair 2 Client ''acme:m1''" by (simp add: has_conn_def)
  then show ?thesis using registry_matches_connections [OF demo_pair_reachable, of 2 "''acme:m1''"] by blast
qed

text \<open>Memory per scope is bounded. In every reachable state the pending pairing requests, the pending key
  exchanges and the session owners of a scope number at most the configured maxima.\<close>

theorem owner_tables_bounded:
  assumes "reachable cfg r" and "jm_get (registry r) key = Some st"
  shows "jm_size (pairingRequests st) \<le> max 1 (maxPairingRequestTrack cfg) \<and>
         jm_size (keyExchangeRequests st) \<le> max 1 (maxPairingRequestTrack cfg) \<and>
         jm_size (sessionOwners st) \<le> max 1 (maxSessionOwnerTrack cfg)"
proof -
  have "state_at key r = st" by (simp add: state_at_def assms(2))
  then have "st_inv cfg (authorised r) st"
    using reachable_relay_inv [OF assms(1)] unfolding relay_inv_def registry_inv_def by blast
  then show ?thesis by (simp add: st_inv_def)
qed

theorem owner_tables_bounded_witness:
  "\<exists>st. jm_get (registry demo_pair) ''acme:m1'' = Some st \<and> jm_size (sessionOwners st) \<le> 3"
proof -
  have "2 \<in> client_sockets (state_at ''acme:m1'' demo_pair)"
    using reachable_relay_inv [OF demo_pair_reachable] demo_pair_conn
    by (auto simp: relay_inv_def sockets_inv_def has_conn_def)
  then obtain st where st: "jm_get (registry demo_pair) ''acme:m1'' = Some st"
    by (cases "jm_get (registry demo_pair) ''acme:m1''") (auto simp: state_at_def)
  then show ?thesis using owner_tables_bounded [OF demo_pair_reachable st] by (simp add: demo_cfg_def)
qed

text \<open>The per-address counts that gate new upgrades are exact. In every reachable state the count stored for
  an address is the number of sockets registered from it, and an address without sockets has no entry.\<close>

theorem ip_counts_exact:
  assumes "reachable cfg r"
  shows "ipConnections r ip = int (card {s. \<exists>c. conns r s = Some c \<and> c_ip c = ip}) \<and>
         (jm_get (ipConnectionCounts r) ip = None \<longleftrightarrow> (\<forall>s c. conns r s = Some c \<longrightarrow> c_ip c \<noteq> ip))"
proof -
  have ci: "counts_inv r" using reachable_relay_inv [OF assms] by (simp add: relay_inv_def)
  have set: "{s. \<exists>c. conns r s = Some c \<and> c_ip c = ip} = ip_sockets r ip" by (simp add: ip_sockets_def)
  have "ip_sockets r ip = {} \<longleftrightarrow> (\<forall>s c. conns r s = Some c \<longrightarrow> c_ip c \<noteq> ip)" by (auto simp: ip_sockets_def)
  then show ?thesis using ci by (cases "ip_sockets r ip = {}") (simp_all add: counts_inv_def ipConnections_def set)
qed

theorem ip_counts_exact_witness:
  "card {s. \<exists>c. conns demo_daemon s = Some c \<and> c_ip c = ''::1''} = 1"
  using ip_counts_exact [OF demo_reachables(1), of "''::1''"] demo_daemon_fields(2) by simp



text \<open>The path check looks at the text, not at the URL it becomes. A path with double-dot segments passes
  the check for executor \<open>ex1\<close> of workspace \<open>acme\<close>, and the URL that is fetched is one of another
  executor of another workspace.\<close>

theorem worker_path_escapes:
  "workerRequestPathAllowed
     ''/api/runtime/workspaces/acme/managed-executors/ex1/../../../other/managed-executors/ex2/claims'' ''acme'' ''ex1'' \<and>
   url_pathname
     ''/api/runtime/workspaces/acme/managed-executors/ex1/../../../other/managed-executors/ex2/claims'' =
     ''/api/runtime/workspaces/other/managed-executors/ex2/claims''"
  by code_simp

text \<open>A daemon with an older token never takes over. Along every step of a reachable relay, the issue
  generation recorded for a scope that stays in the registry never decreases.\<close>

theorem daemon_generation_monotone:
  assumes "reachable cfg r" and "relay_step cfg r r'"
    and "jm_get (registry r) key = Some st" and "jm_get (registry r') key = Some st'"
  shows "gen_le (daemonIssueGeneration st) (daemonIssueGeneration st')"
  using gen_step [OF reachable_relay_inv [OF assms(1)] assms(2,4)] assms(3) by (simp add: gen_at_def state_at_def)

theorem daemon_generation_monotone_witness:
  "\<exists>st. jm_get (registry demo_daemon) ''acme:m1'' = Some st \<and>
     gen_le (daemonIssueGeneration st) (daemonIssueGeneration st)"
proof -
  have "daemon (state_at ''acme:m1'' demo_daemon) = Some 1" by (rule demo_daemon_state)
  then obtain st where st: "jm_get (registry demo_daemon) ''acme:m1'' = Some st"
    by (cases "jm_get (registry demo_daemon) ''acme:m1''") (auto simp: state_at_def)
  have "relay_step demo_cfg demo_daemon (handlePong 7 1 demo_daemon)" by (rule relay_step.pong)
  from daemon_generation_monotone [OF demo_reachables(1) this st] st show ?thesis
    by (simp add: registry_quiet_steps)
qed

text \<open>Replies to clients of other relays are never bridged. Where the owner of a session, of a key exchange
  or of a pairing request is known by its relay and not by a local socket, the daemon's frame for it is
  dropped and nothing is published: opening the state with the workspace id alone has just erased the
  runtime target that the publication needs.\<close>

theorem remote_owner_frames_dropped:
  assumes "wid \<noteq> []" and "jm_get (registry r) key = Some st" and "state_wf st"
    and "\<forall>ow. (jm_get (sessionOwners st) sid = Some ow \<or> jm_get (keyExchangeRequests st) (trimmedField fr ''requestId'') = Some ow \<or>
               jm_get (pairingRequests st) (the (extractPairingRequestId fr)) = Some ow) \<longrightarrow> clientWs ow = None"
  shows "\<not> fst (routeSessionOwnedFrame cfg now wid key sid text r) \<and>
         out (snd (routeSessionOwnedFrame cfg now wid key sid text r)) = out r \<and>
         out (routeKeyExchangeResponse cfg now wid key text fr r) = out r \<and>
         out (routePairingResponse cfg now wid key text fr r) = out r"
proof (intro conjI)
  let ?st = "st\<lparr>workspaceId := wid, runtimeTargetId := None\<rparr>"
  have os: "\<exists>r1. open_state key wid None now f r = (f ?st, r1) \<and> out r1 = out r" for f
    using open_known [OF assms(1,2)] by blast
  have drop: "deliverToOwner cfg wid None ow text m1 m2 m3 x = (False, increment m3 1 x)" if "clientWs ow = None" for ow m1 m2 m3 x
    using that by (simp add: deliverToOwner_def is_open_def)
  have wf: "jm_wf (sessionOwners st)" "jm_wf (keyExchangeRequests st)" "jm_wf (pairingRequests st)"
    using assms(3) by (simp_all add: state_wf_def)
  have s: "clientWs ow = None" if "jm_get (sessionOwners (pruneStaleSessionOwners now ?st)) sid = Some ow" for ow
    using that wf(1) assms(4) by (simp add: session.prune_get split: option.splits if_splits)
  have k: "clientWs ow = None"
    if "jm_get (keyExchangeRequests (pruneStaleKeyExchangeRequests now ?st)) (trimmedField fr ''requestId'') = Some ow" for ow
    using that wf(2) assms(4) by (simp add: kex.prune_get split: option.splits if_splits)
  have p: "clientWs ow = None"
    if "jm_get (pairingRequests (pruneStalePairingRequests now ?st)) (the (extractPairingRequestId fr)) = Some ow" for ow
    using that wf(3) assms(4) by (simp add: pairing.prune_get split: option.splits if_splits)
  obtain r1 r2 r3 where r1: "open_state key wid None now (pruneStaleSessionOwners now) r = (pruneStaleSessionOwners now ?st, r1)"
      "out r1 = out r"
    and r2: "open_state key wid None now (pruneStaleKeyExchangeRequests now) r = (pruneStaleKeyExchangeRequests now ?st, r2)"
      "out r2 = out r"
    and r3: "open_state key wid None now (pruneStalePairingRequests now) r = (pruneStalePairingRequests now ?st, r3)"
      "out r3 = out r"
    using os by metis
  show "\<not> fst (routeSessionOwnedFrame cfg now wid key sid text r)"
    and "out (snd (routeSessionOwnedFrame cfg now wid key sid text r)) = out r"
    using s by (auto simp: routeSessionOwnedFrame_def r1 drop split: option.splits)
  show "out (routeKeyExchangeResponse cfg now wid key text fr r) = out r"
    using k by (auto simp: routeKeyExchangeResponse_def r2 drop Let_def upd_state_def split: option.splits)
  show "out (routePairingResponse cfg now wid key text fr r) = out r"
    using p by (auto simp: routePairingResponse_def r3 drop Let_def upd_state_def split: option.splits)
qed

theorem remote_owner_frames_dropped_witness:
  "let ow = \<lparr>clientWs = None, sourceRelayId = Some ''relay-b'', createdAt = 0\<rparr>;
       st = (new_state ''acme:m1'' None 0)\<lparr>runtimeTargetId := Some ''m1'', sessionOwners := [(''s1'', ow)]\<rparr>;
       r = demo_start\<lparr>registry := [(''acme:m1'', st)]\<rparr>
   in out (snd (routeSessionOwnedFrame demo_cfg 5 ''acme'' ''acme:m1'' ''s1'' ''frame'' r)) = []"
proof -
  let ?ow = "\<lparr>clientWs = None, sourceRelayId = Some ''relay-b'', createdAt = 0\<rparr>"
  let ?st = "(new_state ''acme:m1'' None 0)\<lparr>runtimeTargetId := Some ''m1'', sessionOwners := [(''s1'', ?ow)]\<rparr>"
  let ?r = "demo_start\<lparr>registry := [(''acme:m1'', ?st)]\<rparr>"
  have get: "jm_get (registry ?r) ''acme:m1'' = Some ?st" by (simp add: jm_get_Cons)
  have wf: "state_wf ?st"
    by (simp add: state_wf_def new_state_def referenced_sockets_def owner_sockets_def jm_wf_def jm_keys_def)
  have own: "\<forall>ow. (jm_get (sessionOwners ?st) ''s1'' = Some ow \<or>
      jm_get (keyExchangeRequests ?st) (trimmedField [] ''requestId'') = Some ow \<or>
      jm_get (pairingRequests ?st) (the (extractPairingRequestId [])) = Some ow) \<longrightarrow> clientWs ow = None"
    by (simp add: jm_get_Cons new_state_def)
  have "out ?r = []" by (simp add: demo_start_def)
  with remote_owner_frames_dropped [OF _ get wf own, of "''acme''" demo_cfg 5 "''frame''"] show ?thesis by simp
qed

text \<open>A key exchange binds its session to the client that asked. When the daemon answers a pending
  request of a local client within its lifetime, the answer goes to that client, the request is used up, and the
  next frame of the new session, sent within the session lifetime, goes to that same client and to nobody else.\<close>

theorem key_exchange_binds_session:
  assumes "wid \<noteq> []" and "jm_get (registry r) key = Some st" and "state_wf st"
    and "trimmedField fr ''requestId'' = rid" and "trimmedField fr ''sessionId'' = sid" and "rid \<noteq> []" and "sid \<noteq> []"
    and "jm_get (keyExchangeRequests st) rid = Some ow" and "clientWs ow = Some x"
    and "now - createdAt ow \<le> KEY_EXCHANGE_REQUEST_TTL_MS" and "later - now \<le> SESSION_OWNER_TTL_MS"
    and "writable cfg r x"
    and "r1 = routeKeyExchangeResponse cfg now wid key answer fr r"
  shows "out r1 = out r @ [Sent x (Text answer)] \<and>
         jm_get (keyExchangeRequests (state_at key r1)) rid = None \<and>
         (let (routed, r2) = routeSessionOwnedFrame cfg later wid key sid frame r1 in
            routed \<and> out r2 = out r1 @ [Sent x (Text frame)])"
proof -
  have wf: "jm_wf (keyExchangeRequests st)" "jm_wf (sessionOwners st)" using assms(3) by (simp_all add: state_wf_def)
  note answered = key_exchange_answered [OF assms(1,2) wf(1) assms(4-10,12,13)]
  obtain st1 where st1: "jm_get (registry r1) key = Some st1" "jm_get (keyExchangeRequests st1) rid = None"
    "jm_get (sessionOwners st1) sid = Some (ow\<lparr>createdAt := now\<rparr>)" "jm_wf (sessionOwners st1)"
    using answered(3) wf(2) by blast
  obtain r2 where "routeSessionOwnedFrame cfg later wid key sid frame r1 = (True, r2)"
    "out r2 = out r1 @ [Sent x (Text frame)]"
    using session_frame_delivered [OF assms(1) st1(1,4,3), of x later cfg "frame"] assms(9,11) answered(2) by auto
  then show ?thesis using answered(1) st1(1,2) by (simp add: state_at_def)
qed

theorem key_exchange_binds_session_witness:
  "let ow = \<lparr>clientWs = Some 2, sourceRelayId = None, createdAt = 0\<rparr>;
       st = (new_state ''acme:m1'' None 0)\<lparr>clients := [(2, \<lparr>clientId = ''c'', connectedAt = 0\<rparr>)],
              keyExchangeRequests := [(''q'', ow)]\<rparr>;
       r = demo_start\<lparr>registry := [(''acme:m1'', st)], readyState := (\<lambda>_. OPEN)\<rparr>;
       fr = [(''requestId'', JStr ''q''), (''sessionId'', JStr ''s'')];
       r1 = routeKeyExchangeResponse demo_cfg 5 ''acme'' ''acme:m1'' ''answer'' fr r
   in out r1 = [Sent 2 (Text ''answer'')] \<and>
      out (snd (routeSessionOwnedFrame demo_cfg 9 ''acme'' ''acme:m1'' ''s'' ''data'' r1)) =
        [Sent 2 (Text ''answer''), Sent 2 (Text ''data'')]"
proof -
  let ?ow = "\<lparr>clientWs = Some 2, sourceRelayId = None, createdAt = 0\<rparr>"
  let ?st = "(new_state ''acme:m1'' None 0)\<lparr>clients := [(2, \<lparr>clientId = ''c'', connectedAt = 0\<rparr>)],
              keyExchangeRequests := [(''q'', ?ow)]\<rparr>"
  let ?r = "demo_start\<lparr>registry := [(''acme:m1'', ?st)], readyState := (\<lambda>_. OPEN)\<rparr>"
  let ?fr = "[(''requestId'', JStr ''q''), (''sessionId'', JStr ''s'')]"
  have get: "jm_get (registry ?r) ''acme:m1'' = Some ?st" by (simp add: jm_get_Cons)
  have wf: "state_wf ?st"
    by (simp add: state_wf_def new_state_def referenced_sockets_def owner_sockets_def client_sockets_def jm_wf_def
        jm_keys_def)
  have ids: "trimmedField ?fr ''requestId'' = ''q''" "trimmedField ?fr ''sessionId'' = ''s''" by code_simp+
  have own: "jm_get (keyExchangeRequests ?st) ''q'' = Some ?ow" by (simp add: jm_get_Cons)
  have w: "writable demo_cfg ?r 2" "out ?r = []" by (simp_all add: writable_def demo_start_def)
  show ?thesis
    using key_exchange_binds_session [OF _ get wf ids _ _ own _ _ _ w(1) refl, of "''acme''" 5 9 "''answer''" "''data''"] w(2)
    by (simp add: KEY_EXCHANGE_REQUEST_TTL_MS_def SESSION_OWNER_TTL_MS_def case_prod_beta)
qed

end
