(* ===== verification/Relay_Liveness.thy ===== *)
theory Relay_Liveness
  imports Relay_Demo
begin

text \<open>
  The gates an upgrade request passes before its token is sent to the control plane, and the
  heartbeat: which silent peers the timer terminates, and which it does not.
\<close>

text \<open>The times of the timer's ticks, from the last ping on, with no two further apart than \<open>gap\<close>.\<close>

fun gaps_ok :: "int \<Rightarrow> int \<Rightarrow> int list \<Rightarrow> bool" where
  "gaps_ok gap prev [] = True"
| "gaps_ok gap prev (t # moments) = (t - prev \<le> gap \<and> gaps_ok gap t moments)"

lemma terminate_fields [simp]:
  "out (terminateWithReason cfg now s m r) = out r @ [Terminated s]"
  "wsHeartbeatState (terminateWithReason cfg now s m r) = wsHeartbeatState r"
  by (simp_all add: terminateWithReason_def logger_warn_def emit_def Let_def)

lemma increment_heartbeat [simp]: "wsHeartbeatState (increment n d r) = wsHeartbeatState r"
  by (simp add: increment_def)

lemma emit_heartbeat [simp]: "wsHeartbeatState (emit e r) = wsHeartbeatState r"
  by (simp add: emit_def)

text \<open>One tick for one socket.\<close>

lemma heartbeatSocket_cases:
  assumes "wsHeartbeatState r s = Some hb"
  shows "out (heartbeatSocket cfg now s r) = out r @ [Terminated s] \<or>
    (out (heartbeatSocket cfg now s r) = out r @ [Ping s] \<and>
     wsHeartbeatState (heartbeatSocket cfg now s r) s = Some (hb\<lparr>awaitingPong := True, pingSentAt := now\<rparr>))"
  using assms by (simp add: heartbeatSocket_def Let_def)

lemma heartbeatSocket_ping:
  assumes "wsHeartbeatState r s = Some hb" and "readyState r s \<noteq> CONNECTING"
    and "now - hb_lastActivityAt hb \<le> idleTimeoutMs cfg" and "\<not> (awaitingPong hb \<and> now - pingSentAt hb > pongTimeoutMs cfg)"
  shows "out (heartbeatSocket cfg now s r) = out r @ [Ping s]"
    and "wsHeartbeatState (heartbeatSocket cfg now s r) s = Some (hb\<lparr>awaitingPong := True, pingSentAt := now\<rparr>)"
    and "readyState (heartbeatSocket cfg now s r) = readyState r"
  using assms by (auto simp: heartbeatSocket_def Let_def)

lemma heartbeatSocket_out: "\<exists>es. out (heartbeatSocket cfg now s r) = out r @ es"
  by (auto simp: heartbeatSocket_def Let_def split: option.splits)

lemma heartbeatSocket_timeout:
  assumes "wsHeartbeatState r s = Some hb" and "awaitingPong hb" and "now - pingSentAt hb > pongTimeoutMs cfg"
  shows "out (heartbeatSocket cfg now s r) = out r @ [Terminated s]"
  using assms by (auto simp: heartbeatSocket_def Let_def)



text \<open>Ticks closer together than the pong timeout never notice a missing pong. Each tick restarts the clock of
  the unanswered ping, so however many pongs are missed, the heartbeat terminates nobody before the idle timeout
  does.\<close>

theorem frequent_ticks_miss_silence:
  assumes "wsHeartbeatState r s = Some hb" and "readyState r s \<noteq> CONNECTING"
    and "gaps_ok (pongTimeoutMs cfg) (pingSentAt hb) moments"
    and "\<forall>t \<in> set moments. t - hb_lastActivityAt hb \<le> idleTimeoutMs cfg"
  shows "emitted r (fold (\<lambda>t. heartbeatSocket cfg t s) moments r) = replicate (length moments) (Ping s)"
proof -
  have "out (fold (\<lambda>t. heartbeatSocket cfg t s) moments r) = out r @ replicate (length moments) (Ping s)"
    using assms
  proof (induction moments arbitrary: r hb)
    case (Cons t moments)
    note ping = heartbeatSocket_ping [OF Cons.prems(1,2), of t cfg]
    have "out (fold (\<lambda>t. heartbeatSocket cfg t s) moments (heartbeatSocket cfg t s r)) =
        out (heartbeatSocket cfg t s r) @ replicate (length moments) (Ping s)"
      by (rule Cons.IH [of _ "hb\<lparr>awaitingPong := True, pingSentAt := t\<rparr>"])
        (use Cons.prems ping in auto)
    then show ?case using ping(1) Cons.prems by simp
  qed simp
  then show ?thesis by (simp add: emitted_def)
qed

theorem frequent_ticks_miss_silence_witness:
  "let r = (setupHeartbeat 0 7 demo_start)\<lparr>readyState := (\<lambda>_. OPEN)\<rparr> in
   emitted r (fold (\<lambda>t. heartbeatSocket demo_cfg t 7) [10, 20, 30, 40] r) = [Ping 7, Ping 7, Ping 7, Ping 7]"
proof -
  let ?r = "(setupHeartbeat 0 7 demo_start)\<lparr>readyState := (\<lambda>_. OPEN)\<rparr>"
  have hb: "wsHeartbeatState ?r 7 =
      Some \<lparr>awaitingPong = False, lastPongAt = 0, pingSentAt = 0, hb_lastActivityAt = 0\<rparr>"
    by (simp add: setupHeartbeat_def)
  have "readyState ?r 7 \<noteq> CONNECTING" by simp
  from frequent_ticks_miss_silence [OF hb this, of demo_cfg "[10, 20, 30, 40]"] show ?thesis
    by (simp add: demo_cfg_def eval_nat_numeral)
qed

text \<open>The upgrade gates. A request's token is sent to the control plane exactly when the address is within its
  upgrade rate, the relay is below its total and the address below its own number of connections, the path is
  \<open>/ws\<close>, the query is valid, a token was found, and, for a client, the scope has room for one more.\<close>

theorem upgrade_gates:
  assumes "AwaitAdmission s up token \<notin> set (tasks r)"
  shows "AwaitAdmission s up token \<in> set (tasks (upgradeRequest cfg now s ip parsed authorization protocol r)) \<longleftrightarrow>
     fst (fw_allow ip now (upgradeLimiter r)) \<and>
     totalConnectionCount (registry r) < maxTotalConnections cfg \<and>
     ipConnections r ip < maxConnectionsPerIp cfg \<and> up_ip up = ip \<and>
     (\<exists>u src. parsed = Inr u \<and> pathname u = ''/ws'' \<and>
        UpgradeQuerySchema u = Some (up_role up, up_workspaceId up, up_runtimeTargetId up) \<and>
        resolveUpgradeAuth (relayMode cfg) authorization protocol (q_token u) = Auth_ok token src) \<and>
     (up_role up = Client \<longrightarrow>
        jm_size (clients (state_at (runtimeScopeKey (up_workspaceId up) (up_runtimeTargetId up)) r)) <
          maxClientsPerWorkspace cfg)"
proof -
  obtain ok l where fw: "fw_allow ip now (upgradeLimiter r) = (ok, l)" by fastforce
  have ip: "ipConnections (r\<lparr>upgradeLimiter := l\<rparr>) ip = ipConnections r ip" by (simp add: ipConnections_def)
  have size: "jm_size (clients (fst (getOrCreate key None now (registry r)))) = jm_size (clients (state_at key r))" for key
    by (simp add: getOrCreate_def state_at_def Let_def new_state_def split: option.splits)
  have begin_iff: "AwaitAdmission s up token \<in> set (tasks (beginAdmission cfg now s up' authorization protocol q
      (r\<lparr>upgradeLimiter := l\<rparr>))) \<longleftrightarrow> up' = up \<and>
      (\<exists>src. resolveUpgradeAuth (relayMode cfg) authorization protocol q = Auth_ok token src) \<and>
      (up_role up = Client \<longrightarrow>
        jm_size (clients (state_at (runtimeScopeKey (up_workspaceId up) (up_runtimeTargetId up)) r)) <
          maxClientsPerWorkspace cfg)" for up' q
    using assms
    by (cases "resolveUpgradeAuth (relayMode cfg) authorization protocol q")
      (auto simp: beginAdmission_def refuse_def case_prod_beta Let_def size [symmetric] not_le)
  have up: "\<lparr>up_role = a, up_workspaceId = b, up_runtimeTargetId = c, up_ip = d\<rparr> = up \<longleftrightarrow>
      a = up_role up \<and> b = up_workspaceId up \<and> c = up_runtimeTargetId up \<and> d = up_ip up" for a b c d
    by (cases up) auto
  show ?thesis
    using assms
    by (cases parsed)
      (auto simp: upgradeRequest_def fw ip refuse_def upgradeFailed_def begin_iff up Let_def not_le
        split: option.splits)
qed

theorem upgrade_gates_witness:
  "AwaitAdmission 4 \<lparr>up_role = Worker, up_workspaceId = ''acme'', up_runtimeTargetId = Some ''m1'', up_ip = ''::1''\<rparr>
     ''0123456789''
   \<in> set (tasks (upgradeRequest demo_cfg 1 4 ''::1'' (Inr (demo_url ''worker'')) (Some ''Bearer 0123456789'') None demo_start))"
  using demo_start_roomy [of Worker]
  by (subst upgrade_gates) (simp_all add: roomy_def demo_query demo_auth)

end
