(* ===== verification/Relay_Bus.thy ===== *)
theory Relay_Bus
  imports Relay_Context
begin

text \<open>
  The bus between relays (services/relay/src/bus.ts and bus-signing.ts): signing of frames, the
  publication request, and the pull loop with its filters, its signature check and its replay
  protection. The keyed hash (\<open>crypto.createHmac(...).digest('base64url')\<close>) is the argument \<open>hmac\<close> of
  key and message; the HTTP exchange is the outcome of \<open>postInternalJson\<close>. The client's log lines on
  failures are left out; its metrics are kept.
\<close>

section \<open>Signatures\<close>

record signature_fields =
  sf_workspaceId :: string
  sf_runtimeTargetId :: "string option"
  sf_machineId :: "string option"
  sf_sourceRelayId :: string
  sf_targetRelayId :: "string option"
  sf_direction :: direction
  sf_payload :: string
  sf_issuedAtMs :: int

definition or_empty :: "string option \<Rightarrow> string" where
  "or_empty v = (case v of Some s \<Rightarrow> s | None \<Rightarrow> [])"

definition busSignatureBase :: "signature_fields \<Rightarrow> string" where
  "busSignatureBase f =
     join [CHR 0x0A]
       [sf_workspaceId f, or_empty (sf_runtimeTargetId f), or_empty (sf_machineId f), sf_sourceRelayId f,
        or_empty (sf_targetRelayId f), direction_name (sf_direction f), int_string (sf_issuedAtMs f), sf_payload f]"

type_synonym hmac = "string \<Rightarrow> string \<Rightarrow> string"

definition signBusFrame :: "hmac \<Rightarrow> signature_fields \<Rightarrow> string \<Rightarrow> string" where
  "signBusFrame hmac f key = hmac key (busSignatureBase f)"

definition verifyBusFrameSignature :: "hmac \<Rightarrow> signature_fields \<Rightarrow> string \<Rightarrow> string \<Rightarrow> bool" where
  "verifyBusFrameSignature hmac f key signature =
     (let expectedBuffer = utf8 (signBusFrame hmac f key);
          providedBuffer = utf8 signature;
          compareLength = max (max (length expectedBuffer) (length providedBuffer)) 1
      in padded compareLength expectedBuffer = padded compareLength providedBuffer \<and>
         length expectedBuffer = length providedBuffer)"

section \<open>Publishing\<close>

record bus_config =
  bc_enabled :: bool
  bc_relayId :: string
  bc_hmacKey :: "string option"
  bc_maxFrameBytes :: nat
  bc_maxSkewMs :: int
  bc_freshnessTrackMax :: nat

record bus_client =
  sinceId :: int
  lastAcceptedIssuedAtMs :: "(string, int) js_map"
  lastAcceptedSignature :: "(string, string) js_map"
  seenSignedFrames :: "(string, int) js_map"
  bus_counters :: "(string, nat) js_map"

definition bus_new :: bus_client where
  "bus_new = \<lparr>sinceId = 0, lastAcceptedIssuedAtMs = [], lastAcceptedSignature = [], seenSignedFrames = [],
              bus_counters = []\<rparr>"

definition bus_count :: "string \<Rightarrow> bus_client \<Rightarrow> bus_client" where
  "bus_count name b =
     b\<lparr>bus_counters := jm_set name ((case jm_get (bus_counters b) name of Some n \<Rightarrow> n | None \<Rightarrow> 0) + 1) (bus_counters b)\<rparr>"

text \<open>The request body \<open>publish\<close> sends, or none.\<close>

definition publishRequest ::
    "hmac \<Rightarrow> bus_config \<Rightarrow> int \<Rightarrow> string \<Rightarrow> string option \<Rightarrow> string option \<Rightarrow> direction \<Rightarrow> string \<Rightarrow> string option \<Rightarrow> obj option" where
  "publishRequest hmac cfg now wid target machine dir payload targetRelayId =
     (if \<not> bc_enabled cfg then None
      else if \<not> truthy target \<or> trim (the target) = [] then None
      else
        let signed = \<lparr>sf_workspaceId = wid, sf_runtimeTargetId = target, sf_machineId = machine,
                      sf_sourceRelayId = bc_relayId cfg, sf_targetRelayId = targetRelayId, sf_direction = dir,
                      sf_payload = payload, sf_issuedAtMs = now\<rparr>
        in Some ([(''workspaceId'', JStr wid)] @ opt_field ''runtimeTargetId'' target @ opt_field ''machineId'' machine
                 @ [(''sourceRelayId'', JStr (bc_relayId cfg)),
                    (''targetRelayId'', case targetRelayId of Some t \<Rightarrow> JStr t | None \<Rightarrow> JNull),
                    (''direction'', JStr (direction_name dir)), (''payload'', JStr payload)]
                 @ (case bc_hmacKey cfg of
                      Some key \<Rightarrow> [(''issuedAtMs'', JNum (of_int now)), (''signature'', JStr (signBusFrame hmac signed key))]
                    | None \<Rightarrow> [])))"

definition publish ::
    "hmac \<Rightarrow> bus_config \<Rightarrow> int \<Rightarrow> string \<Rightarrow> string option \<Rightarrow> string option \<Rightarrow> direction \<Rightarrow> string \<Rightarrow> string option \<Rightarrow>
     http_outcome \<Rightarrow> bus_client \<Rightarrow> bool \<times> bus_client" where
  "publish hmac cfg now wid target machine dir payload targetRelayId outcome b =
     (if \<not> bc_enabled cfg then (False, b)
      else
        case publishRequest hmac cfg now wid target machine dir payload targetRelayId of
          None \<Rightarrow> (False, bus_count ''relay_bus_publish_failed_total'' b)
        | Some body \<Rightarrow>
            (case outcome of
               Inr (status, Some answer) \<Rightarrow>
                 if status \<ge> 200 \<and> status < 300 \<and> jfield answer ''ok'' = Some (JBool True)
                 then (True, bus_count ''relay_bus_publish_ok_total'' b)
                 else (False, bus_count ''relay_bus_publish_failed_total'' b)
             | _ \<Rightarrow> (False, bus_count ''relay_bus_publish_failed_total'' b)))"

section \<open>Pulling\<close>

definition freshnessKey :: "string \<Rightarrow> string \<Rightarrow> string \<Rightarrow> string" where
  "freshnessKey source wid target = join [CHR 0x0A] [source, wid, target]"

text \<open>\<open>${candidate.signature}\<close>; where the value is no string the key only serves the lookup for a frame
  that is refused in any case, and arrays and fractions are not spelled out.\<close>

definition sig_text :: "json option \<Rightarrow> string" where
  "sig_text v =
     (case v of
        None \<Rightarrow> ''undefined'' | Some (JStr s) \<Rightarrow> s | Some JNull \<Rightarrow> ''null''
      | Some (JBool b) \<Rightarrow> if b then ''true'' else ''false''
      | Some (JObj _) \<Rightarrow> ''[object Object]''
      | Some x \<Rightarrow> (case as_int (Some x) of Some i \<Rightarrow> int_string i | None \<Rightarrow> []))"

definition seenFrameKey :: "string \<Rightarrow> string \<Rightarrow> string \<Rightarrow> string \<Rightarrow> string" where
  "seenFrameKey source wid target sig = join [CHR 0x0A] [source, wid, target, sig]"

text \<open>Recording an accepted signature, with the two eviction loops.\<close>

definition recordAccepted :: "bus_config \<Rightarrow> string \<Rightarrow> string \<Rightarrow> int \<Rightarrow> string \<Rightarrow> bus_client \<Rightarrow> bus_client" where
  "recordAccepted cfg fkey skey issued sig b =
     (let issuedMap = jm_touch fkey issued (lastAcceptedIssuedAtMs b);
          sigMap = jm_touch fkey sig (lastAcceptedSignature b);
          kept = evict_gt (bc_freshnessTrackMax cfg) issuedMap;
          evicted = filter (\<lambda>k. jm_get kept k = None) (jm_keys issuedMap)
      in b\<lparr>lastAcceptedIssuedAtMs := kept,
           lastAcceptedSignature := fold jm_delete evicted sigMap,
           seenSignedFrames := evict_gt (max (bc_freshnessTrackMax cfg * 4) 100000)
                                 (jm_touch skey issued (seenSignedFrames b))\<rparr>)"

text \<open>The block under \<open>if (this.busHmacKey)\<close>: whether the loop goes on with this frame.\<close>

definition checkSigned ::
    "hmac \<Rightarrow> bus_config \<Rightarrow> string \<Rightarrow> int \<Rightarrow> obj \<Rightarrow> string \<Rightarrow> string \<Rightarrow> string \<Rightarrow> direction \<Rightarrow> string \<Rightarrow> bus_client \<Rightarrow> bool \<times> bus_client" where
  "checkSigned hmac cfg key now cand source wid target dir payload b =
     (case as_int (field cand ''issuedAtMs'') of
        None \<Rightarrow> (False, bus_count ''relay_bus_pull_invalid_signature_total'' b)
      | Some issued \<Rightarrow>
          if \<bar>now - issued\<bar> > bc_maxSkewMs cfg then (False, bus_count ''relay_bus_pull_stale_signature_total'' b)
          else
            let fkey = freshnessKey source wid target;
                sigv = field cand ''signature'';
                skey = seenFrameKey source wid target (sig_text sigv);
                previousIssuedAt = jm_get (lastAcceptedIssuedAtMs b) fkey;
                previousSignature = jm_get (lastAcceptedSignature b) fkey
            in if (case jm_get (seenSignedFrames b) skey of Some t \<Rightarrow> issued \<le> t | None \<Rightarrow> False) then
                 (False, bus_count ''relay_bus_pull_replayed_signature_total'' b)
               else if (case previousIssuedAt of
                          Some t \<Rightarrow> issued < t \<or> (issued = t \<and> previousSignature \<noteq> None \<and> as_str sigv = previousSignature)
                        | None \<Rightarrow> False) then
                 (False, bus_count ''relay_bus_pull_replayed_signature_total'' b)
               else
                 (case as_str sigv of
                    None \<Rightarrow> (False, bus_count ''relay_bus_pull_invalid_signature_total'' b)
                  | Some sig \<Rightarrow>
                      if trim sig = [] then (False, bus_count ''relay_bus_pull_invalid_signature_total'' b)
                      else
                        let machine = (case as_str (field cand ''machineId'') of Some m \<Rightarrow> m | None \<Rightarrow> []);
                            fields = \<lparr>sf_workspaceId = wid, sf_runtimeTargetId = Some target,
                                      sf_machineId = (if machine = [] then None else Some machine),
                                      sf_sourceRelayId = source,
                                      sf_targetRelayId = as_str (field cand ''targetRelayId''),
                                      sf_direction = dir, sf_payload = payload, sf_issuedAtMs = issued\<rparr>
                        in if \<not> verifyBusFrameSignature hmac fields key sig
                           then (False, bus_count ''relay_bus_pull_invalid_signature_total'' b)
                           else (True, recordAccepted cfg fkey skey issued sig b)))"

definition direction_of :: "json option \<Rightarrow> direction option" where
  "direction_of v = (if eq_str v ''client_to_daemon'' then Some Client_to_daemon
                     else if eq_str v ''daemon_to_clients'' then Some Daemon_to_clients else None)"

text \<open>\<open>if (candidate.id > this.sinceId) this.sinceId = candidate.id\<close>.\<close>

definition advance :: "int \<Rightarrow> bus_client \<Rightarrow> bus_client" where
  "advance i b = (if i > sinceId b then b\<lparr>sinceId := i\<rparr> else b)"

text \<open>One turn of the loop for a candidate object.\<close>

definition pullCandidate ::
    "hmac \<Rightarrow> bus_config \<Rightarrow> int \<Rightarrow> obj \<Rightarrow> bus_client \<times> bus_frame list \<Rightarrow> bus_client \<times> bus_frame list" where
  "pullCandidate hmac cfg now cand acc =
     (let (b0, frames) = acc in
      case as_int (field cand ''id'') of
        None \<Rightarrow> (b0, frames)
      | Some i \<Rightarrow>
          if i \<le> 0 then (b0, frames)
          else
            let b = advance i b0 in
            if eq_str (field cand ''sourceRelayId'') (bc_relayId cfg) then (b, frames)
            else
              (case (as_str (field cand ''workspaceId''), as_str (field cand ''runtimeTargetId''),
                     as_str (field cand ''sourceRelayId''), as_str (field cand ''payload'')) of
                 (Some wid, Some target, Some source, Some payload) \<Rightarrow>
                   if trim target = [] then (b, frames)
                   else if (case as_str (field cand ''targetRelayId'') of
                              Some t \<Rightarrow> trim t \<noteq> [] \<and> t \<noteq> bc_relayId cfg | None \<Rightarrow> False) then (b, frames)
                   else if byteLength payload > bc_maxFrameBytes cfg then
                     (bus_count ''relay_bus_pull_frame_too_large_total'' b, frames)
                   else
                     (case direction_of (field cand ''direction'') of
                        None \<Rightarrow> (b, frames)
                      | Some dir \<Rightarrow>
                          let (go, b1) = (case bc_hmacKey cfg of
                                            None \<Rightarrow> (True, b)
                                          | Some key \<Rightarrow> checkSigned hmac cfg key now cand source wid target dir payload b);
                              frame = \<lparr>bf_id = i, bf_workspaceId = wid, bf_runtimeTargetId = target,
                                       bf_machineId = as_str (field cand ''machineId''), bf_sourceRelayId = source,
                                       bf_targetRelayId = as_str (field cand ''targetRelayId''), bf_direction = dir,
                                       bf_payload = payload,
                                       bf_issuedAtMs = (case field cand ''issuedAtMs'' of Some (JNum q) \<Rightarrow> Some q | _ \<Rightarrow> None),
                                       bf_signature = as_str (field cand ''signature'')\<rparr>
                          in if go then (b1, frames @ [frame]) else (b1, frames))
               | _ \<Rightarrow> (b, frames)))"

text \<open>The loop: reading a property of \<open>null\<close> throws, and the handler around the loop drops every frame of
  the pull; of any other value that is no object every property is undefined.\<close>

fun pullLoop ::
    "hmac \<Rightarrow> bus_config \<Rightarrow> int \<Rightarrow> json list \<Rightarrow> bus_client \<times> bus_frame list \<Rightarrow> bus_client + bus_client \<times> bus_frame list" where
  "pullLoop hmac cfg now [] acc = Inr acc"
| "pullLoop hmac cfg now (cand # cands) acc =
     (case cand of
        JNull \<Rightarrow> Inl (fst acc)
      | JObj ob \<Rightarrow> pullLoop hmac cfg now cands (pullCandidate hmac cfg now ob acc)
      | _ \<Rightarrow> pullLoop hmac cfg now cands acc)"

definition pull :: "hmac \<Rightarrow> bus_config \<Rightarrow> int \<Rightarrow> http_outcome \<Rightarrow> bus_client \<Rightarrow> bus_client \<times> bus_frame list" where
  "pull hmac cfg now outcome b =
     (if \<not> bc_enabled cfg then (b, [])
      else
        case outcome of
          Inr (status, Some answer) \<Rightarrow>
            if status < 200 \<or> status \<ge> 300 \<or> jfield answer ''ok'' \<noteq> Some (JBool True)
            then (bus_count ''relay_bus_pull_failed_total'' b, [])
            else
              (case pullLoop hmac cfg now (case jfield answer ''frames'' of Some (JArr xs) \<Rightarrow> xs | _ \<Rightarrow> []) (b, []) of
                 Inl b1 \<Rightarrow> (bus_count ''relay_bus_pull_failed_total'' b1, [])
               | Inr (b1, frames) \<Rightarrow>
                   (if frames \<noteq> [] then bus_count ''relay_bus_pull_ok_total'' b1 else b1, frames))
        | _ \<Rightarrow> (bus_count ''relay_bus_pull_failed_total'' b, []))"

text \<open>A concrete relay, hash and candidate, for the witnesses below.\<close>

definition demo_hmac :: hmac where
  "demo_hmac key msg = key @ int_string (int (length msg))"

definition demo_bus :: bus_config where
  "demo_bus = \<lparr>bc_enabled = True, bc_relayId = ''a'', bc_hmacKey = Some ''k'', bc_maxFrameBytes = 100,
               bc_maxSkewMs = 50, bc_freshnessTrackMax = 5\<rparr>"

definition demo_candidate :: "int \<Rightarrow> int \<Rightarrow> string \<Rightarrow> obj" where
  "demo_candidate i issued payload =
     [(''id'', JNum (of_int i)), (''workspaceId'', JStr ''w''), (''runtimeTargetId'', JStr ''t''),
      (''sourceRelayId'', JStr ''b''), (''direction'', JStr ''client_to_daemon''), (''payload'', JStr payload),
      (''issuedAtMs'', JNum (of_int issued)),
      (''signature'', JStr (demo_hmac ''k'' (busSignatureBase
         \<lparr>sf_workspaceId = ''w'', sf_runtimeTargetId = Some ''t'', sf_machineId = None, sf_sourceRelayId = ''b'',
          sf_targetRelayId = None, sf_direction = Client_to_daemon, sf_payload = payload, sf_issuedAtMs = issued\<rparr>)))]"

definition demo_frame :: "int \<Rightarrow> int \<Rightarrow> string \<Rightarrow> string \<Rightarrow> bus_frame" where
  "demo_frame i issued payload sig =
     \<lparr>bf_id = i, bf_workspaceId = ''w'', bf_runtimeTargetId = ''t'', bf_machineId = None, bf_sourceRelayId = ''b'',
      bf_targetRelayId = None, bf_direction = Client_to_daemon, bf_payload = payload,
      bf_issuedAtMs = Some (of_int issued), bf_signature = Some sig\<rparr>"

section \<open>Signatures identify frames\<close>

lemma verify_iff: "verifyBusFrameSignature hmac f key sig \<longleftrightarrow> sig = hmac key (busSignatureBase f)"
  unfolding verifyBusFrameSignature_def Let_def by (subst padded_same) (auto dest: utf8_inj simp: signBusFrame_def)

lemma direction_name_inj: "direction_name a = direction_name b \<Longrightarrow> a = b"
  by (cases a; cases b) (simp_all add: direction_name_def)

lemma newline_notin_direction: "CHR 0x0A \<notin> set (direction_name d)"
  by (cases d) (simp_all add: direction_name_def)

section \<open>What an accepted frame went through\<close>

lemma bus_count_fields [simp]:
  "sinceId (bus_count n b) = sinceId b" "lastAcceptedIssuedAtMs (bus_count n b) = lastAcceptedIssuedAtMs b"
  "lastAcceptedSignature (bus_count n b) = lastAcceptedSignature b"
  "seenSignedFrames (bus_count n b) = seenSignedFrames b"
  by (simp_all add: bus_count_def)

text \<open>What a frame that passes the loop satisfies.\<close>

definition frame_ok :: "hmac \<Rightarrow> bus_config \<Rightarrow> int \<Rightarrow> bus_frame \<Rightarrow> bool" where
  "frame_ok hmac cfg now fr \<longleftrightarrow>
     0 < bf_id fr \<and> bf_sourceRelayId fr \<noteq> bc_relayId cfg \<and> trim (bf_runtimeTargetId fr) \<noteq> [] \<and>
     (case bf_targetRelayId fr of Some t \<Rightarrow> trim t = [] \<or> t = bc_relayId cfg | None \<Rightarrow> True) \<and>
     byteLength (bf_payload fr) \<le> bc_maxFrameBytes cfg \<and>
     (case bc_hmacKey cfg of None \<Rightarrow> True
      | Some key \<Rightarrow> (\<exists>issued sig. bf_issuedAtMs fr = Some (of_int issued) \<and> bf_signature fr = Some sig \<and>
          \<bar>now - issued\<bar> \<le> bc_maxSkewMs cfg \<and>
          sig = hmac key (busSignatureBase
            \<lparr>sf_workspaceId = bf_workspaceId fr, sf_runtimeTargetId = Some (bf_runtimeTargetId fr),
             sf_machineId = (case bf_machineId fr of Some m \<Rightarrow> if m = [] then None else Some m | None \<Rightarrow> None),
             sf_sourceRelayId = bf_sourceRelayId fr, sf_targetRelayId = bf_targetRelayId fr,
             sf_direction = bf_direction fr, sf_payload = bf_payload fr, sf_issuedAtMs = issued\<rparr>)))"

lemma as_int_JNum: "as_int v = Some i \<Longrightarrow> v = Some (JNum (of_int i))"
  by (auto simp: as_int_def split: option.splits json.splits if_splits)
    (metis Fract_of_int_quotient quotient_of_div div_by_1 of_int_1 prod.collapse)

lemma checkSigned_accepts:
  assumes "checkSigned hmac cfg key now cand source wid target dir payload b = (True, b1)"
  shows "\<exists>issued sig. as_int (field cand ''issuedAtMs'') = Some issued \<and> as_str (field cand ''signature'') = Some sig \<and>
     \<bar>now - issued\<bar> \<le> bc_maxSkewMs cfg \<and>
     \<not> (case jm_get (seenSignedFrames b) (seenFrameKey source wid target sig) of Some t \<Rightarrow> issued \<le> t | None \<Rightarrow> False) \<and>
     \<not> (case jm_get (lastAcceptedIssuedAtMs b) (freshnessKey source wid target) of Some t \<Rightarrow> issued < t | None \<Rightarrow> False) \<and>
     sig = hmac key (busSignatureBase
        \<lparr>sf_workspaceId = wid, sf_runtimeTargetId = Some target,
         sf_machineId = (case as_str (field cand ''machineId'') of Some m \<Rightarrow> if m = [] then None else Some m | None \<Rightarrow> None),
         sf_sourceRelayId = source, sf_targetRelayId = as_str (field cand ''targetRelayId''),
         sf_direction = dir, sf_payload = payload, sf_issuedAtMs = issued\<rparr>) \<and>
     b1 = recordAccepted cfg (freshnessKey source wid target) (seenFrameKey source wid target sig) issued sig b"
proof -
  obtain issued where i: "as_int (field cand ''issuedAtMs'') = Some issued"
    using assms by (cases "as_int (field cand ''issuedAtMs'')") (simp_all add: checkSigned_def)
  obtain sig where s: "as_str (field cand ''signature'') = Some sig"
    using assms by (cases "as_str (field cand ''signature'')") (simp_all add: checkSigned_def i Let_def split: if_splits)
  have t: "sig_text (field cand ''signature'') = sig"
    using s by (auto simp: sig_text_def as_str_def split: option.splits json.splits)
  have m: "(case as_str (field cand ''machineId'') of Some m \<Rightarrow> if m = [] then None else Some m | None \<Rightarrow> None) =
      (if (case as_str (field cand ''machineId'') of Some m \<Rightarrow> m | None \<Rightarrow> []) = [] then None
       else Some (case as_str (field cand ''machineId'') of Some m \<Rightarrow> m | None \<Rightarrow> []))"
    by (simp split: option.splits)
  show ?thesis
    using assms unfolding m
    by (auto simp: checkSigned_def i s t verify_iff Let_def split: if_splits option.splits)
qed

lemma checkSigned_rejects:
  assumes "checkSigned hmac cfg key now cand source wid target dir payload b = (False, b1)"
  shows "lastAcceptedIssuedAtMs b1 = lastAcceptedIssuedAtMs b \<and> seenSignedFrames b1 = seenSignedFrames b \<and>
    sinceId b1 = sinceId b"
proof -
  have "\<exists>n. b1 = bus_count n b"
    using assms unfolding checkSigned_def Let_def by (auto split: option.splits if_splits)
  then show ?thesis by auto
qed

text \<open>A turn of the loop either takes the frame, after all the checks, or leaves the replay tables alone.\<close>

definition frame_of :: "obj \<Rightarrow> bus_frame \<Rightarrow> bool" where
  "frame_of cand fr \<longleftrightarrow>
     as_int (field cand ''id'') = Some (bf_id fr) \<and> as_str (field cand ''workspaceId'') = Some (bf_workspaceId fr) \<and>
     as_str (field cand ''runtimeTargetId'') = Some (bf_runtimeTargetId fr) \<and>
     as_str (field cand ''sourceRelayId'') = Some (bf_sourceRelayId fr) \<and>
     as_str (field cand ''payload'') = Some (bf_payload fr) \<and> direction_of (field cand ''direction'') = Some (bf_direction fr) \<and>
     bf_machineId fr = as_str (field cand ''machineId'') \<and> bf_targetRelayId fr = as_str (field cand ''targetRelayId'') \<and>
     bf_issuedAtMs fr = (case field cand ''issuedAtMs'' of Some (JNum q) \<Rightarrow> Some q | _ \<Rightarrow> None) \<and>
     bf_signature fr = as_str (field cand ''signature'')"

definition addressed :: "bus_config \<Rightarrow> bus_frame \<Rightarrow> bool" where
  "addressed cfg fr \<longleftrightarrow>
     0 < bf_id fr \<and> bf_sourceRelayId fr \<noteq> bc_relayId cfg \<and> trim (bf_runtimeTargetId fr) \<noteq> [] \<and>
     (case bf_targetRelayId fr of Some t \<Rightarrow> trim t = [] \<or> t = bc_relayId cfg | None \<Rightarrow> True) \<and>
     byteLength (bf_payload fr) \<le> bc_maxFrameBytes cfg"

definition gate :: "hmac \<Rightarrow> bus_config \<Rightarrow> int \<Rightarrow> obj \<Rightarrow> bus_frame \<Rightarrow> bus_client \<Rightarrow> bool \<times> bus_client" where
  "gate hmac cfg now cand fr b =
     (case bc_hmacKey cfg of None \<Rightarrow> (True, b)
      | Some key \<Rightarrow> checkSigned hmac cfg key now cand (bf_sourceRelayId fr) (bf_workspaceId fr) (bf_runtimeTargetId fr)
                      (bf_direction fr) (bf_payload fr) b)"

lemma as_str_eq_str: "as_str v = Some s \<Longrightarrow> eq_str v t \<longleftrightarrow> s = t"
  by (auto simp: as_str_def eq_str_def split: option.splits json.splits)

lemma frame_of_unique: "frame_of cand fr \<Longrightarrow> frame_of cand fr' \<Longrightarrow> fr = fr'"
  by (cases fr; cases fr') (simp add: frame_of_def)

lemma pullCandidate_frame:
  assumes "frame_of cand fr" and "addressed cfg fr"
  shows "pullCandidate hmac cfg now cand (b, frames) =
     (let (go, b1) = gate hmac cfg now cand fr (advance (bf_id fr) b) in (b1, if go then frames @ [fr] else frames))"
proof -
  have "\<not> eq_str (field cand ''sourceRelayId'') (bc_relayId cfg)"
    using assms as_str_eq_str [of "field cand ''sourceRelayId''"] by (simp add: frame_of_def addressed_def)
  then show ?thesis
    using assms
    by (cases fr) (auto simp: pullCandidate_def frame_of_def addressed_def gate_def case_prod_beta Let_def
        split: option.splits)
qed

lemma pullCandidate_skip:
  assumes "\<not> (\<exists>fr. frame_of cand fr \<and> addressed cfg fr)"
  shows "\<exists>b1. pullCandidate hmac cfg now cand (b, frames) = (b1, frames) \<and>
     lastAcceptedIssuedAtMs b1 = lastAcceptedIssuedAtMs b \<and> seenSignedFrames b1 = seenSignedFrames b \<and> sinceId b \<le> sinceId b1"
proof -
  have adv: "lastAcceptedIssuedAtMs (advance i b) = lastAcceptedIssuedAtMs b" "seenSignedFrames (advance i b) = seenSignedFrames b"
    "sinceId b \<le> sinceId (advance i b)" for i by (simp_all add: advance_def)
  consider "as_int (field cand ''id'') = None" | i where "as_int (field cand ''id'') = Some i" "i \<le> 0"
    | i where "as_int (field cand ''id'') = Some i" "0 < i" by (cases "as_int (field cand ''id'')") force+
  then show ?thesis
  proof cases
    case (3 i)
    show ?thesis
    proof (cases "eq_str (field cand ''sourceRelayId'') (bc_relayId cfg)")
      case True
      then have "pullCandidate hmac cfg now cand (b, frames) = (advance i b, frames)"
        using 3 by (simp add: pullCandidate_def Let_def)
      then show ?thesis using adv by simp
    next
      case own: False
      show ?thesis
      proof (cases "as_str (field cand ''workspaceId'') = None \<or> as_str (field cand ''runtimeTargetId'') = None \<or>
          as_str (field cand ''sourceRelayId'') = None \<or> as_str (field cand ''payload'') = None")
        case True
        then have "pullCandidate hmac cfg now cand (b, frames) = (advance i b, frames)"
          using 3 own
          by (cases "as_str (field cand ''workspaceId'')"; cases "as_str (field cand ''runtimeTargetId'')";
              cases "as_str (field cand ''sourceRelayId'')"; cases "as_str (field cand ''payload'')";
              simp add: pullCandidate_def Let_def)
        then show ?thesis using adv by simp
      next
        case False
        then obtain wid target source payload where f: "as_str (field cand ''workspaceId'') = Some wid"
          "as_str (field cand ''runtimeTargetId'') = Some target" "as_str (field cand ''sourceRelayId'') = Some source"
          "as_str (field cand ''payload'') = Some payload" by auto
        have nf: "trim target = [] \<or>
            (case as_str (field cand ''targetRelayId'') of Some t \<Rightarrow> trim t \<noteq> [] \<and> t \<noteq> bc_relayId cfg | None \<Rightarrow> False) \<or>
            byteLength payload > bc_maxFrameBytes cfg \<or> direction_of (field cand ''direction'') = None"
          (is "?A \<or> ?B \<or> ?C \<or> ?D")
        proof (rule ccontr)
          assume no: "\<not> ?thesis"
          then obtain dir where d: "direction_of (field cand ''direction'') = Some dir" by auto
          let ?fr = "\<lparr>bf_id = i, bf_workspaceId = wid, bf_runtimeTargetId = target,
              bf_machineId = as_str (field cand ''machineId''), bf_sourceRelayId = source,
              bf_targetRelayId = as_str (field cand ''targetRelayId''), bf_direction = dir, bf_payload = payload,
              bf_issuedAtMs = (case field cand ''issuedAtMs'' of Some (JNum q) \<Rightarrow> Some q | _ \<Rightarrow> None),
              bf_signature = as_str (field cand ''signature'')\<rparr>"
          have "frame_of cand ?fr" by (simp add: frame_of_def 3 f d)
          moreover have "addressed cfg ?fr"
            using 3 own no as_str_eq_str [OF f(3), of "bc_relayId cfg"] by (auto simp: addressed_def split: option.splits)
          ultimately show False using assms by blast
        qed
        consider ?A | "\<not> ?A" ?B | "\<not> ?A" "\<not> ?B" ?C | "\<not> ?A" "\<not> ?B" "\<not> ?C" ?D using nf by argo
        then have "pullCandidate hmac cfg now cand (b, frames) = (advance i b, frames) \<or>
            pullCandidate hmac cfg now cand (b, frames) =
              (bus_count ''relay_bus_pull_frame_too_large_total'' (advance i b), frames)"
          using 3 own f by cases (simp_all add: pullCandidate_def Let_def)
        then show ?thesis using adv by auto
      qed
    qed
  qed (simp_all add: pullCandidate_def)
qed

section \<open>Replay protection\<close>

text \<open>\<open>may_follow f g\<close>: of two frames of one source and scope, \<open>g\<close> may follow \<open>f\<close>.\<close>

definition may_follow :: "bus_frame \<Rightarrow> bus_frame \<Rightarrow> bool" where
  "may_follow f g \<longleftrightarrow>
     (bf_sourceRelayId f = bf_sourceRelayId g \<and> bf_workspaceId f = bf_workspaceId g \<and>
      bf_runtimeTargetId f = bf_runtimeTargetId g \<longrightarrow>
      the (bf_issuedAtMs f) \<le> the (bf_issuedAtMs g) \<and>
      (bf_signature f = bf_signature g \<longrightarrow> the (bf_issuedAtMs f) < the (bf_issuedAtMs g)))"

definition remembered :: "bus_client \<Rightarrow> bus_frame \<Rightarrow> bool" where
  "remembered b f \<longleftrightarrow>
     (\<exists>issued sig t u. bf_issuedAtMs f = Some (of_int issued) \<and> bf_signature f = Some sig \<and>
        jm_get (lastAcceptedIssuedAtMs b) (freshnessKey (bf_sourceRelayId f) (bf_workspaceId f) (bf_runtimeTargetId f)) = Some t \<and>
        issued \<le> t \<and>
        jm_get (seenSignedFrames b) (seenFrameKey (bf_sourceRelayId f) (bf_workspaceId f) (bf_runtimeTargetId f) sig) = Some u \<and>
        issued \<le> u)"

definition replay_inv :: "nat \<Rightarrow> bus_client \<times> bus_frame list \<Rightarrow> bool" where
  "replay_inv n acc \<longleftrightarrow>
     jm_wf (lastAcceptedIssuedAtMs (fst acc)) \<and> jm_wf (seenSignedFrames (fst acc)) \<and>
     jm_size (lastAcceptedIssuedAtMs (fst acc)) \<le> n \<and> jm_size (seenSignedFrames (fst acc)) \<le> n \<and>
     list_all (remembered (fst acc)) (snd acc) \<and> sorted_wrt may_follow (snd acc)"

lemma evict_gt_noop: "jm_size m \<le> cap \<Longrightarrow> evict_gt cap m = m"
  by (subst evict_gt.simps) simp

lemma recordAccepted_tables:
  assumes "replay_inv n (b, frames)" and "n < bc_freshnessTrackMax cfg"
  shows "lastAcceptedIssuedAtMs (recordAccepted cfg fkey skey issued sig b) = jm_touch fkey issued (lastAcceptedIssuedAtMs b)"
    and "seenSignedFrames (recordAccepted cfg fkey skey issued sig b) = jm_touch skey issued (seenSignedFrames b)"
proof -
  have "jm_size (jm_touch fkey issued (lastAcceptedIssuedAtMs b)) \<le> bc_freshnessTrackMax cfg"
    "jm_size (jm_touch skey issued (seenSignedFrames b)) \<le> max (bc_freshnessTrackMax cfg * 4) 100000"
    using assms by (auto simp: replay_inv_def jm_size_touch)
  then show "lastAcceptedIssuedAtMs (recordAccepted cfg fkey skey issued sig b) = jm_touch fkey issued (lastAcceptedIssuedAtMs b)"
    and "seenSignedFrames (recordAccepted cfg fkey skey issued sig b) = jm_touch skey issued (seenSignedFrames b)"
    by (simp_all add: recordAccepted_def Let_def evict_gt_noop)
qed

lemma remembered_cong:
  "lastAcceptedIssuedAtMs b' = lastAcceptedIssuedAtMs b \<Longrightarrow> seenSignedFrames b' = seenSignedFrames b \<Longrightarrow>
   remembered b' = remembered b"
  by (simp add: remembered_def fun_eq_iff)

lemma replay_inv_same:
  assumes "replay_inv n (b, frames)" and "lastAcceptedIssuedAtMs b' = lastAcceptedIssuedAtMs b"
    and "seenSignedFrames b' = seenSignedFrames b"
  shows "replay_inv (Suc n) (b', frames)"
  using assms(1) unfolding replay_inv_def fst_conv snd_conv remembered_cong [OF assms(2,3)] assms(2,3) by auto

text \<open>The heart of it: recording a frame that passed the two table checks keeps the invariant.\<close>

lemma replay_inv_accept:
  fixes fr :: bus_frame
  defines "fkey \<equiv> freshnessKey (bf_sourceRelayId fr) (bf_workspaceId fr) (bf_runtimeTargetId fr)"
  assumes inv: "replay_inv n (b, frames)" and cap: "n < bc_freshnessTrackMax cfg"
    and fr: "bf_issuedAtMs fr = Some (of_int issued)" "bf_signature fr = Some sig"
    and skey: "skey = seenFrameKey (bf_sourceRelayId fr) (bf_workspaceId fr) (bf_runtimeTargetId fr) sig"
    and seen: "\<not> (case jm_get (seenSignedFrames b) skey of Some t \<Rightarrow> issued \<le> t | None \<Rightarrow> False)"
    and fresh: "\<not> (case jm_get (lastAcceptedIssuedAtMs b) fkey of Some t \<Rightarrow> issued < t | None \<Rightarrow> False)"
  shows "replay_inv (Suc n) (recordAccepted cfg fkey skey issued sig b, frames @ [fr])"
proof -
  let ?b = "recordAccepted cfg fkey skey issued sig b"
  note tabs = recordAccepted_tables [OF inv cap, of fkey skey issued sig]
  have old: "remembered b f" if "f \<in> set frames" for f
    using inv that by (simp add: replay_inv_def list_all_iff)
  have "may_follow f fr" if "f \<in> set frames" for f
    using old [OF that] seen fresh fr by (auto simp: may_follow_def remembered_def fkey_def skey)
  moreover have "remembered ?b f" if mem: "f \<in> set frames" for f
  proof -
    let ?fk = "freshnessKey (bf_sourceRelayId f) (bf_workspaceId f) (bf_runtimeTargetId f)"
    obtain iss sg t u where f: "bf_issuedAtMs f = Some (of_int iss)" "bf_signature f = Some sg" "iss \<le> t" "iss \<le> u"
      "jm_get (lastAcceptedIssuedAtMs b) ?fk = Some t"
      "jm_get (seenSignedFrames b) (seenFrameKey (bf_sourceRelayId f) (bf_workspaceId f) (bf_runtimeTargetId f) sg) = Some u"
      using old [OF mem] by (auto simp: remembered_def)
    let ?sk = "seenFrameKey (bf_sourceRelayId f) (bf_workspaceId f) (bf_runtimeTargetId f) sg"
    have "?fk = fkey \<Longrightarrow> iss \<le> issued" "?sk = skey \<Longrightarrow> iss \<le> issued" using f seen fresh by auto
    then show ?thesis
      unfolding remembered_def tabs jm_get_touch
      by (intro exI [of _ iss] exI [of _ sg] exI [of _ "if ?fk = fkey then issued else t"]
          exI [of _ "if ?sk = skey then issued else u"]) (use f in auto)
  qed
  moreover have "remembered ?b fr"
    unfolding remembered_def tabs jm_get_touch by (simp add: fr fkey_def skey)
  ultimately show ?thesis
    using inv by (auto simp: replay_inv_def tabs jm_size_touch sorted_wrt_append list_all_iff)
qed

lemma replay_inv_step:
  assumes inv: "replay_inv n (b, frames)" and cap: "n < bc_freshnessTrackMax cfg" and key: "bc_hmacKey cfg = Some key"
  shows "replay_inv (Suc n) (pullCandidate hmac cfg now cand (b, frames))"
proof (cases "\<exists>fr. frame_of cand fr \<and> addressed cfg fr")
  case False
  from pullCandidate_skip [OF this, of hmac now b frames] show ?thesis using replay_inv_same [OF inv] by auto
next
  case True
  then obtain fr where fr: "frame_of cand fr" "addressed cfg fr" by blast
  let ?b = "advance (bf_id fr) b"
  have adv: "lastAcceptedIssuedAtMs ?b = lastAcceptedIssuedAtMs b" "seenSignedFrames ?b = seenSignedFrames b"
    by (simp_all add: advance_def)
  have binv: "replay_inv n (?b, frames)" using inv by (simp add: replay_inv_def adv remembered_cong [OF adv])
  obtain go b1 where g: "gate hmac cfg now cand fr ?b = (go, b1)" by fastforce
  have res: "pullCandidate hmac cfg now cand (b, frames) = (b1, if go then frames @ [fr] else frames)"
    by (simp add: pullCandidate_frame [OF fr] g)
  show ?thesis
  proof (cases go)
    case False
    then show ?thesis using g checkSigned_rejects replay_inv_same [OF binv] by (auto simp: res gate_def key)
  next
    case True
    then obtain issued sig where a: "as_int (field cand ''issuedAtMs'') = Some issued"
      "as_str (field cand ''signature'') = Some sig"
      "\<not> (case jm_get (seenSignedFrames ?b) (seenFrameKey (bf_sourceRelayId fr) (bf_workspaceId fr) (bf_runtimeTargetId fr) sig)
          of Some t \<Rightarrow> issued \<le> t | None \<Rightarrow> False)"
      "\<not> (case jm_get (lastAcceptedIssuedAtMs ?b) (freshnessKey (bf_sourceRelayId fr) (bf_workspaceId fr) (bf_runtimeTargetId fr))
          of Some t \<Rightarrow> issued < t | None \<Rightarrow> False)"
      "b1 = recordAccepted cfg (freshnessKey (bf_sourceRelayId fr) (bf_workspaceId fr) (bf_runtimeTargetId fr))
         (seenFrameKey (bf_sourceRelayId fr) (bf_workspaceId fr) (bf_runtimeTargetId fr) sig) issued sig ?b"
      using g checkSigned_accepts [of hmac cfg key now cand "bf_sourceRelayId fr" "bf_workspaceId fr"
          "bf_runtimeTargetId fr" "bf_direction fr" "bf_payload fr" ?b b1] by (auto simp: gate_def key)
    have "bf_issuedAtMs fr = Some (of_int issued)" "bf_signature fr = Some sig"
      using fr(1) as_int_JNum [OF a(1)] a(2) by (simp_all add: frame_of_def)
    from replay_inv_accept [OF binv cap this refl a(3,4)] show ?thesis by (simp add: res True a(5))
  qed
qed

lemma replay_inv_run:
  assumes "bc_hmacKey cfg = Some key" and "n + length xs \<le> bc_freshnessTrackMax cfg" and "replay_inv n acc"
  shows "replay_inv (n + length xs) (fold (\<lambda>(now, cand). pullCandidate hmac cfg now cand) xs acc)"
  using assms(2,3)
proof (induction xs arbitrary: n acc)
  case (Cons x xs)
  obtain now cand where x: "x = (now, cand)" by fastforce
  have "replay_inv (Suc n) (pullCandidate hmac cfg now cand acc)"
    using replay_inv_step [of n "fst acc" "snd acc" cfg key] Cons.prems assms(1) by simp
  from Cons.IH [OF _ this] Cons.prems show ?case by (simp add: x)
qed simp

lemma frame_ok_pulled:
  assumes "list_all (frame_ok hmac cfg now) frames"
  shows "list_all (frame_ok hmac cfg now) (snd (pullCandidate hmac cfg now cand (b, frames)))"
proof (cases "\<exists>fr. frame_of cand fr \<and> addressed cfg fr")
  case False
  from pullCandidate_skip [OF this, of hmac now b frames] show ?thesis using assms by auto
next
  case True
  then obtain fr where fr: "frame_of cand fr" "addressed cfg fr" by blast
  obtain go b1 where g: "gate hmac cfg now cand fr (advance (bf_id fr) b) = (go, b1)" by fastforce
  have "frame_ok hmac cfg now fr" if "go"
  proof (cases "bc_hmacKey cfg")
    case None
    then show ?thesis using fr(2) by (simp add: frame_ok_def addressed_def)
  next
    case (Some key)
    with g that have "checkSigned hmac cfg key now cand (bf_sourceRelayId fr) (bf_workspaceId fr)
        (bf_runtimeTargetId fr) (bf_direction fr) (bf_payload fr) (advance (bf_id fr) b) = (True, b1)"
      by (simp add: gate_def)
    from checkSigned_accepts [OF this] fr show ?thesis
      by (auto simp: frame_ok_def addressed_def frame_of_def Some dest!: as_int_JNum)
  qed
  then show ?thesis using assms by (simp add: pullCandidate_frame [OF fr] g)
qed

lemma frame_ok_loop:
  assumes "list_all (frame_ok hmac cfg now) (snd acc)" and "pullLoop hmac cfg now cands acc = Inr (b1, frames)"
  shows "list_all (frame_ok hmac cfg now) frames"
  using assms
proof (induction cands arbitrary: acc)
  case (Cons cand cands)
  have "list_all (frame_ok hmac cfg now) (snd (pullCandidate hmac cfg now ob acc))" for ob
    using frame_ok_pulled [OF Cons.prems(1), of ob "fst acc"] by simp
  from Cons.IH [OF this] Cons.IH [OF Cons.prems(1)] Cons.prems(2) show ?case by (auto split: json.splits)
qed simp

text \<open>The demo candidate is taken, once.\<close>

lemma demo_signature:
  "demo_hmac ''k'' (busSignatureBase \<lparr>sf_workspaceId = ''w'', sf_runtimeTargetId = Some ''t'', sf_machineId = None,
     sf_sourceRelayId = ''b'', sf_targetRelayId = None, sf_direction = Client_to_daemon, sf_payload = ''p'', sf_issuedAtMs = 90\<rparr>) = ''k29''"
  "demo_hmac ''k'' (busSignatureBase \<lparr>sf_workspaceId = ''w'', sf_runtimeTargetId = Some ''t'', sf_machineId = None,
     sf_sourceRelayId = ''b'', sf_targetRelayId = None, sf_direction = Client_to_daemon, sf_payload = ''pq'', sf_issuedAtMs = 95\<rparr>) = ''k30''"
  "trim ''k29'' \<noteq> []" "trim ''k30'' \<noteq> []" "trim ''t'' \<noteq> []" "byteLength ''p'' = 1" "byteLength ''pq'' = 2"
  by code_simp+

lemma demo_candidate_frames:
  "frame_of (demo_candidate 3 90 ''p'') (demo_frame 3 90 ''p'' ''k29'')"
  "frame_of (demo_candidate 4 95 ''pq'') (demo_frame 4 95 ''pq'' ''k30'')"
  "addressed demo_bus (demo_frame 3 90 ''p'' ''k29'')" "addressed demo_bus (demo_frame 4 95 ''pq'' ''k30'')"
  by (simp_all add: frame_of_def addressed_def demo_candidate_def demo_frame_def demo_bus_def demo_signature field_def
      jm_get_Cons as_int_def as_str_def direction_of_def eq_str_def)

lemma demo_fields:
  "field (demo_candidate i issued payload) ''issuedAtMs'' = Some (JNum (of_int issued))"
  "field (demo_candidate 3 90 ''p'') ''signature'' = Some (JStr ''k29'')"
  "field (demo_candidate 4 95 ''pq'') ''signature'' = Some (JStr ''k30'')"
  "field (demo_candidate i issued payload) ''machineId'' = None"
  "field (demo_candidate i issued payload) ''targetRelayId'' = None"
  by (simp_all add: demo_candidate_def field_def jm_get_Cons demo_signature)

lemma demo_first:
  "gate demo_hmac demo_bus 100 (demo_candidate 3 90 ''p'') (demo_frame 3 90 ''p'' ''k29'') (advance 3 bus_new) =
     (True, \<lparr>sinceId = 3, lastAcceptedIssuedAtMs = [(freshnessKey ''b'' ''w'' ''t'', 90)],
             lastAcceptedSignature = [(freshnessKey ''b'' ''w'' ''t'', ''k29'')],
             seenSignedFrames = [(seenFrameKey ''b'' ''w'' ''t'' ''k29'', 90)], bus_counters = []\<rparr>)"
  by (simp add: gate_def checkSigned_def demo_fields demo_bus_def demo_frame_def as_int_def as_str_def sig_text_def
      verify_iff demo_signature recordAccepted_def Let_def advance_def bus_new_def jm_touch_def evict_gt_noop jm_get_Cons
      jm_keys_def)

lemma demo_frame_id: "bf_id (demo_frame i issued payload sig) = i"
  by (simp add: demo_frame_def)

lemma demo_replay:
  "gate demo_hmac demo_bus 105 (demo_candidate 3 90 ''p'') (demo_frame 3 90 ''p'' ''k29'')
     (advance 3 \<lparr>sinceId = 3, lastAcceptedIssuedAtMs = m, lastAcceptedSignature = m',
        seenSignedFrames = [(seenFrameKey ''b'' ''w'' ''t'' ''k29'', 90)], bus_counters = []\<rparr>) =
     (False, \<lparr>sinceId = 3, lastAcceptedIssuedAtMs = m, lastAcceptedSignature = m',
        seenSignedFrames = [(seenFrameKey ''b'' ''w'' ''t'' ''k29'', 90)],
        bus_counters = [(''relay_bus_pull_replayed_signature_total'', 1)]\<rparr>)"
  by (simp add: gate_def checkSigned_def demo_fields demo_bus_def demo_frame_def as_int_def as_str_def sig_text_def
      Let_def advance_def jm_get_Cons bus_count_def)

lemma demo_empty: "pullCandidate hmac cfg now [] acc = acc"
  by (cases acc) (simp add: pullCandidate_def field_def as_int_def)

lemma demo_seen_keys:
  "seenFrameKey ''b'' ''w'' ''t'' ''k29'' \<noteq> seenFrameKey ''b'' ''w'' ''t'' ''k30''"
  by code_simp

lemma demo_second:
  "fst (gate demo_hmac demo_bus 110 (demo_candidate 4 95 ''pq'') (demo_frame 4 95 ''pq'' ''k30'')
     (advance 4 \<lparr>sinceId = 3, lastAcceptedIssuedAtMs = [(freshnessKey ''b'' ''w'' ''t'', 90)], lastAcceptedSignature = m',
        seenSignedFrames = [(seenFrameKey ''b'' ''w'' ''t'' ''k29'', 90)], bus_counters = c\<rparr>))"
  by (simp add: gate_def checkSigned_def demo_fields demo_bus_def demo_frame_def as_int_def as_str_def sig_text_def
      verify_iff demo_signature Let_def advance_def jm_get_Cons demo_seen_keys)

lemma demo_run:
  "fold (\<lambda>(now, cand). pullCandidate demo_hmac demo_bus now cand)
     [(100, demo_candidate 3 90 ''p''), (105, demo_candidate 3 90 ''p''), (110, demo_candidate 4 95 ''pq'')] (bus_new, []) =
   (b, frames) \<Longrightarrow> frames = [demo_frame 3 90 ''p'' ''k29'', demo_frame 4 95 ''pq'' ''k30'']"
  by (auto simp add: pullCandidate_frame [OF demo_candidate_frames(1,3)] pullCandidate_frame [OF demo_candidate_frames(2,4)]
      demo_frame_id demo_first demo_replay demo_second case_prod_beta Let_def)

section \<open>Properties\<close>

text \<open>A signature commits to every field. For frames whose ids contain no newline, equal signature bases mean
  equal workspace, runtime target, machine, source and target relay (an absent id counting as the empty
  one), direction, time of issue and payload.\<close>

theorem busSignatureBase_injective:
  assumes "busSignatureBase f = busSignatureBase g"
    and "\<forall>x \<in> {f, g}. \<forall>s \<in> {sf_workspaceId x, or_empty (sf_runtimeTargetId x), or_empty (sf_machineId x),
           sf_sourceRelayId x, or_empty (sf_targetRelayId x)}. CHR 0x0A \<notin> set s"
  shows "sf_workspaceId f = sf_workspaceId g \<and> or_empty (sf_runtimeTargetId f) = or_empty (sf_runtimeTargetId g) \<and>
    or_empty (sf_machineId f) = or_empty (sf_machineId g) \<and> sf_sourceRelayId f = sf_sourceRelayId g \<and>
    or_empty (sf_targetRelayId f) = or_empty (sf_targetRelayId g) \<and> sf_direction f = sf_direction g \<and>
    sf_issuedAtMs f = sf_issuedAtMs g \<and> sf_payload f = sf_payload g"
proof -
  have free: "CHR 0x0A \<notin> set (sf_workspaceId x)" "CHR 0x0A \<notin> set (or_empty (sf_runtimeTargetId x))"
    "CHR 0x0A \<notin> set (or_empty (sf_machineId x))" "CHR 0x0A \<notin> set (sf_sourceRelayId x)"
    "CHR 0x0A \<notin> set (or_empty (sf_targetRelayId x))" if "x \<in> {f, g}" for x
    using assms(2) that by blast+
  note nl = free [of f, simplified] free [of g, simplified] newline_notin_direction newline_notin_int_string
  have "sf_workspaceId f @ CHR 0x0A # or_empty (sf_runtimeTargetId f) @ CHR 0x0A # or_empty (sf_machineId f) @ CHR 0x0A #
      sf_sourceRelayId f @ CHR 0x0A # or_empty (sf_targetRelayId f) @ CHR 0x0A # direction_name (sf_direction f) @
      CHR 0x0A # int_string (sf_issuedAtMs f) @ CHR 0x0A # sf_payload f =
    sf_workspaceId g @ CHR 0x0A # or_empty (sf_runtimeTargetId g) @ CHR 0x0A # or_empty (sf_machineId g) @ CHR 0x0A #
      sf_sourceRelayId g @ CHR 0x0A # or_empty (sf_targetRelayId g) @ CHR 0x0A # direction_name (sf_direction g) @
      CHR 0x0A # int_string (sf_issuedAtMs g) @ CHR 0x0A # sf_payload g"
    using assms(1) by (simp add: busSignatureBase_def)
  then show ?thesis
    using nl by (auto dest!: append_sep_eqD direction_name_inj int_string_inj)
qed

theorem busSignatureBase_injective_witness:
  "let f = \<lparr>sf_workspaceId = ''w'', sf_runtimeTargetId = Some ''t'', sf_machineId = None, sf_sourceRelayId = ''a'',
            sf_targetRelayId = None, sf_direction = Client_to_daemon, sf_payload = ''x'', sf_issuedAtMs = 7\<rparr>;
       g = f\<lparr>sf_machineId := Some []\<rparr>
   in busSignatureBase f = busSignatureBase g \<and> or_empty (sf_machineId f) = or_empty (sf_machineId g)"
proof -
  let ?f = "\<lparr>sf_workspaceId = ''w'', sf_runtimeTargetId = Some ''t'', sf_machineId = None, sf_sourceRelayId = ''a'',
            sf_targetRelayId = None, sf_direction = Client_to_daemon, sf_payload = ''x'', sf_issuedAtMs = 7\<rparr>"
  let ?g = "?f\<lparr>sf_machineId := Some []\<rparr>"
  have eq: "busSignatureBase ?f = busSignatureBase ?g" by (simp add: busSignatureBase_def or_empty_def)
  from busSignatureBase_injective [OF eq] eq show ?thesis by (simp add: or_empty_def)
qed

text \<open>C25: every frame a pull returns is authentic and meant for this relay. With a key configured, each returned
  frame carries exactly the keyed hash of its own fields and was issued within the allowed skew; with or
  without, it comes from another relay, names a runtime target, is addressed to this relay or to all, and is
  within the size limit.\<close>

theorem pulled_frames_authentic:
  assumes "pull hmac cfg now outcome b = (b', frames)" and "fr \<in> set frames"
  shows "bf_sourceRelayId fr \<noteq> bc_relayId cfg \<and> trim (bf_runtimeTargetId fr) \<noteq> [] \<and>
     (case bf_targetRelayId fr of Some t \<Rightarrow> trim t = [] \<or> t = bc_relayId cfg | None \<Rightarrow> True) \<and>
     byteLength (bf_payload fr) \<le> bc_maxFrameBytes cfg \<and>
     (case bc_hmacKey cfg of None \<Rightarrow> True
      | Some key \<Rightarrow> (\<exists>issued sig. bf_issuedAtMs fr = Some (of_int issued) \<and> bf_signature fr = Some sig \<and>
          \<bar>now - issued\<bar> \<le> bc_maxSkewMs cfg \<and>
          sig = hmac key (busSignatureBase
            \<lparr>sf_workspaceId = bf_workspaceId fr, sf_runtimeTargetId = Some (bf_runtimeTargetId fr),
             sf_machineId = (case bf_machineId fr of Some m \<Rightarrow> if m = [] then None else Some m | None \<Rightarrow> None),
             sf_sourceRelayId = bf_sourceRelayId fr, sf_targetRelayId = bf_targetRelayId fr,
             sf_direction = bf_direction fr, sf_payload = bf_payload fr, sf_issuedAtMs = issued\<rparr>)))"
proof -
  have "list_all (frame_ok hmac cfg now) frames"
    using assms(1) frame_ok_loop [of hmac cfg now "(b, [])"]
    by (auto simp: pull_def split: if_splits sum.splits option.splits)
  then have "frame_ok hmac cfg now fr" using assms(2) by (simp add: list_all_iff)
  then show ?thesis by (simp add: frame_ok_def)
qed

theorem pulled_frames_authentic_witness:
  "snd (pull demo_hmac demo_bus 100
     (Inr (200, Some (JObj [(''ok'', JBool True), (''frames'', JArr [JObj (demo_candidate 3 90 ''p''), JObj []])]))) bus_new) =
     [demo_frame 3 90 ''p'' ''k29''] \<and> byteLength (bf_payload (demo_frame 3 90 ''p'' ''k29'')) \<le> bc_maxFrameBytes demo_bus"
proof -
  let ?out = "Inr (200, Some (JObj [(''ok'', JBool True), (''frames'', JArr [JObj (demo_candidate 3 90 ''p''), JObj []])]))"
  obtain b' frames where p: "pull demo_hmac demo_bus 100 ?out bus_new = (b', frames)" by fastforce
  have v: "snd (pull demo_hmac demo_bus 100 ?out bus_new) = [demo_frame 3 90 ''p'' ''k29'']"
    by (simp add: pull_def jfield_def field_def jm_get_Cons pullCandidate_frame [OF demo_candidate_frames(1,3)] demo_frame_id
        demo_first demo_empty) (simp add: demo_bus_def)
  with p have "demo_frame 3 90 ''p'' ''k29'' \<in> set frames" by simp
  from pulled_frames_authentic [OF p this] v show ?thesis by simp
qed

text \<open>C24: no signed frame is accepted twice. Over any sequence of pulled candidates, each with its own clock, that fits
  the freshness table, the accepted frames of one source relay and scope have non-decreasing times of issue,
  and two with the same signature have different times: a replayed frame never passes.\<close>

theorem bus_replay_rejected:
  assumes "bc_hmacKey cfg = Some key" and "length xs \<le> bc_freshnessTrackMax cfg"
    and "fold (\<lambda>(now, cand). pullCandidate hmac cfg now cand) xs (bus_new, []) = (b, frames)"
    and "i < j" and "j < length frames"
    and "bf_sourceRelayId (frames ! i) = bf_sourceRelayId (frames ! j)"
    and "bf_workspaceId (frames ! i) = bf_workspaceId (frames ! j)"
    and "bf_runtimeTargetId (frames ! i) = bf_runtimeTargetId (frames ! j)"
  shows "the (bf_issuedAtMs (frames ! i)) \<le> the (bf_issuedAtMs (frames ! j)) \<and>
     (bf_signature (frames ! i) = bf_signature (frames ! j) \<longrightarrow>
        the (bf_issuedAtMs (frames ! i)) < the (bf_issuedAtMs (frames ! j)))"
proof -
  have "replay_inv 0 (bus_new, [])" by (simp add: replay_inv_def bus_new_def)
  from replay_inv_run [OF assms(1) _ this, of xs hmac] assms(2,3) have "sorted_wrt may_follow frames"
    by (simp add: replay_inv_def)
  then have "may_follow (frames ! i) (frames ! j)" using assms(4,5) by (simp add: sorted_wrt_iff_nth_less)
  then show ?thesis using assms(6-8) by (simp add: may_follow_def)
qed

theorem bus_replay_rejected_witness:
  "let xs = [(100, demo_candidate 3 90 ''p''), (105, demo_candidate 3 90 ''p''), (110, demo_candidate 4 95 ''pq'')]
   in snd (fold (\<lambda>(now, cand). pullCandidate demo_hmac demo_bus now cand) xs (bus_new, [])) =
        [demo_frame 3 90 ''p'' ''k29'', demo_frame 4 95 ''pq'' ''k30''] \<and>
      the (bf_issuedAtMs (demo_frame 3 90 ''p'' ''k29'')) \<le> the (bf_issuedAtMs (demo_frame 4 95 ''pq'' ''k30''))"
proof -
  let ?xs = "[(100, demo_candidate 3 90 ''p''), (105, demo_candidate 3 90 ''p''), (110, demo_candidate 4 95 ''pq'')]"
  let ?run = "fold (\<lambda>(now, cand). pullCandidate demo_hmac demo_bus now cand) ?xs (bus_new, [])"
  obtain b frames where f: "?run = (b, frames)" by fastforce
  note frames = demo_run [OF f]
  have key: "bc_hmacKey demo_bus = Some ''k''" and len: "length ?xs \<le> bc_freshnessTrackMax demo_bus"
    by (simp_all add: demo_bus_def)
  from bus_replay_rejected [OF key len f, of 0 1] f show ?thesis by (simp add: frames demo_frame_def)
qed

end
