(* ===== verification/Workflow_Types.thy ===== *)
theory Workflow_Types
  imports Json
begin

text \<open>
  The data of the daemon's workflow engine (packages/daemon/src/workflows/types.ts, run-types.ts and
  event-types.ts): a workflow definition with its nodes, and the record of a run with the state of every node
  and the timeline of events.

  A \<open>Record<string, T>\<close> is a \<open>js_map\<close> in the order of \<open>Object.entries\<close>; an optional field is an option.
  Free-form data (outputs, metadata, inputs) is JSON. Fields that no modelled operation reads or writes are left
  out: of the run the source, contract, policy and platform bookkeeping; of the nodes the agent settings that
  are only handed to a session.
\<close>

section \<open>Definitions\<close>

datatype trigger_rule = All_success | All_done | One_success

datatype on_failure = Halt | Continue | Skip_dependents

record retry_policy =
  maxAttempts :: nat
  backoffSeconds :: "nat option"
  transient :: "string list option"
  fatal :: "string list option"

datatype gate =
    Check string
  | Policy string
  | Human_review string
  | Schedule string

text \<open>\<open>onReject\<close> of an approval: a command with its \<open>cwd\<close>, or a prompt.\<close>

datatype on_reject =
    Reject_command string "string option"
  | Reject_prompt string

datatype loop_body =
    Body_shell string "string option"
  | Body_prompt string

datatype context_ref =
    Ref_string string
  | Ref_object "string option" "string option" "string option" "string option" \<comment> \<open>ref, source, package, artifact\<close>

record review_rule =
  rr_name :: string
  rr_require :: "string option"
  rr_timeout :: "string option"
  rr_on_timeout :: "string option"
  rr_changed_paths_any :: "string list option"
  rr_reviewer_tags :: "string list option"

text \<open>The options of an approval that go into the metadata of the blocked node.\<close>

record approval_options =
  gate_intent :: "string option"
  reviewer_tags :: "string list option"
  timeout :: "string option"
  on_timeout :: "string option"

text \<open>The part of a node that depends on its \<open>type\<close>, one constructor per type of \<open>WorkflowNode\<close>.\<close>

datatype node_kind =
    Agent string "string option" "string option" "string option"
      \<comment> \<open>prompt, session title, handoff artifact, handoff summary\<close>
  | Prompt string "string option" "string list option" "(string \<times> string) list option"
      \<comment> \<open>prompt, cwd, requiredFiles, prompts of the inline agents\<close>
  | Shell "string option" "string list option" "string option" \<comment> \<open>command, argv, cwd\<close>
  | Checkout string "string option" "string option" "string option" "string option" "string option"
      \<comment> \<open>repository, remote, ref, branch, path, credentialRef\<close>
  | Git_publish string string string string "string option" "string list option" "review_rule list option"
      \<comment> \<open>repository, cwd, branch, message, credentialRef, paths, rules of the review\<close>
  | Approval string "on_reject option" "bool option" approval_options \<comment> \<open>prompt, onReject, captureResponse, options\<close>
  | Plan string "string option" "string option" "string option" "bool option"
      \<comment> \<open>body, summary, source, sourceRef, waitForApproval\<close>
  | Context_update string string "string option" "string option" "string option" "string option"
      \<comment> \<open>targetRef, title, summary, patch text, patch digest, idempotencyKey\<close>
  | Gate gate
  | Context "context_ref list option" "string option" \<comment> \<open>refs, query\<close>
  | Condition string "string list option" "string list option" \<comment> \<open>expression, then, else\<close>
  | Artifact string "string option" "string option" "string option" \<comment> \<open>name, from, path, description\<close>
  | Action string string "string option" "string option" "obj option" "bool option"
      \<comment> \<open>adapter, action, proposalKey, idempotencyKey, with, requiresApproval\<close>
  | Loop "string option" "string option" "string option" nat loop_body
      \<comment> \<open>foreach, while, until, maxIterations, body\<close>
  | Subflow "(string \<times> string) list option" \<comment> \<open>inputs\<close>

definition type_name :: "node_kind \<Rightarrow> string" where
  "type_name k =
     (case k of
        Agent _ _ _ _ \<Rightarrow> ''agent'' | Prompt _ _ _ _ \<Rightarrow> ''prompt'' | Shell _ _ _ \<Rightarrow> ''shell''
      | Checkout _ _ _ _ _ _ \<Rightarrow> ''checkout'' | Git_publish _ _ _ _ _ _ _ \<Rightarrow> ''git_publish''
      | Approval _ _ _ _ \<Rightarrow> ''approval'' | Plan _ _ _ _ _ \<Rightarrow> ''plan'' | Context_update _ _ _ _ _ _ \<Rightarrow> ''context_update''
      | Gate _ \<Rightarrow> ''gate'' | Context _ _ \<Rightarrow> ''context'' | Condition _ _ _ \<Rightarrow> ''condition''
      | Artifact _ _ _ _ \<Rightarrow> ''artifact'' | Action _ _ _ _ _ _ \<Rightarrow> ''action'' | Loop _ _ _ _ _ \<Rightarrow> ''loop''
      | Subflow _ \<Rightarrow> ''subflow'')"

record node =
  n_kind :: node_kind
  n_title :: "string option"
  n_needs :: "string list option"
  n_when :: "string option"
  n_triggerRule :: "trigger_rule option"
  n_retry :: "retry_policy option"
  n_onFailure :: "on_failure option"
  n_outputs :: "obj option"
  n_outputSchema :: "obj option"
  n_artifacts :: "obj option"

type_synonym definition_nodes = "(string, node) js_map"

text \<open>\<open>node.needs ?? []\<close>, and of a node that may be absent.\<close>

definition needs :: "node \<Rightarrow> string list" where
  "needs n = (case n_needs n of Some ds \<Rightarrow> ds | None \<Rightarrow> [])"

definition needs_of :: "definition_nodes \<Rightarrow> string \<Rightarrow> string list" where
  "needs_of nodes i = (case jm_get nodes i of Some n \<Rightarrow> needs n | None \<Rightarrow> [])"

section \<open>Runs\<close>

datatype run_status = RQueued | RRunning | RBlocked | RCompleted | RFailed | RCanceled

datatype node_status = Queued | Running | Blocked | Completed | Failed | Skipped | Canceled

definition status_name :: "node_status \<Rightarrow> string" where
  "status_name s =
     (case s of
        Queued \<Rightarrow> ''queued'' | Running \<Rightarrow> ''running'' | Blocked \<Rightarrow> ''blocked'' | Completed \<Rightarrow> ''completed''
      | Failed \<Rightarrow> ''failed'' | Skipped \<Rightarrow> ''skipped'' | Canceled \<Rightarrow> ''canceled'')"

definition run_status_name :: "run_status \<Rightarrow> string" where
  "run_status_name s =
     (case s of
        RQueued \<Rightarrow> ''queued'' | RRunning \<Rightarrow> ''running'' | RBlocked \<Rightarrow> ''blocked'' | RCompleted \<Rightarrow> ''completed''
      | RFailed \<Rightarrow> ''failed'' | RCanceled \<Rightarrow> ''canceled'')"

record approval =
  ap_prompt :: string
  ap_requestedAt :: int
  ap_resolvedAt :: "int option"
  ap_approved :: "bool option"
  ap_decision :: "string option"
  ap_message :: "string option"
  ap_expectedActionDigest :: "string option"
  ap_feedback :: "obj option"

datatype iteration_status = IRunning | ICompleted | IFailed | ISkipped | ICanceled

record iteration =
  it_index :: nat
  it_status :: iteration_status
  it_startedAt :: int
  it_completedAt :: "int option"
  it_sessionId :: "string option"
  it_output :: "string option"
  it_exitCode :: "int option"
  it_error :: "string option"
  it_item :: "json option"

datatype agent_status = AQueued | ARunning | ACompleted | AFailed | ACanceled

record inline_agent =
  ia_status :: agent_status
  ia_completedAt :: "int option"
  ia_sessionId :: "string option"
  ia_error :: "string option"

record node_state =
  ns_id :: string
  ns_type :: string
  ns_status :: node_status
  ns_startedAt :: "int option"
  ns_completedAt :: "int option"
  ns_sessionId :: "string option"
  ns_nativeSessionId :: "string option"
  ns_worktreePath :: "string option"
  ns_output :: "string option"
  ns_outputs :: "obj option"
  ns_exitCode :: "int option"
  ns_error :: "string option"
  ns_skipReason :: "string option"
  ns_metadata :: "obj option"
  ns_approval :: "approval option"
  ns_iterations :: "iteration list option"
  ns_attempts :: "nat option"
  ns_inlineAgents :: "(string, inline_agent) js_map option"
  ns_transcriptExcerpt :: "json list option"

record event =
  ev_id :: string
  ev_timestamp :: int
  ev_type :: string
  ev_nodeId :: "string option"
  ev_message :: string
  ev_data :: "obj option"

record artifact =
  ar_nodeId :: string
  ar_name :: string
  ar_path :: string
  ar_kind :: "string option"
  ar_metadata :: "obj option"

record run =
  r_id :: string
  r_directoryPath :: string
  r_resourceId :: "string option"
  r_platformRunId :: "string option"
  r_machineId :: "string option"
  r_workflowAuthorityContract :: "obj option"
  r_status :: run_status
  r_inputs :: obj
  r_nodes :: "(string, node_state) js_map"
  r_artifacts :: "artifact list"
  r_events :: "event list"
  r_startedAt :: "int option"
  r_updatedAt :: int
  r_completedAt :: "int option"
  r_error :: "string option"

section \<open>Statuses\<close>

text \<open>\<open>[...new Set(xs)]\<close>: the first occurrences, in order.\<close>

definition unique :: "'a list \<Rightarrow> 'a list" where
  "unique xs = fold (\<lambda>x acc. if x \<in> set acc then acc else acc @ [x]) xs []"

lemma unique_acc: "set (fold (\<lambda>x acc. if x \<in> set acc then acc else acc @ [x]) xs ys) = set ys \<union> set xs"
  by (induction xs arbitrary: ys) auto

lemma set_unique [simp]: "set (unique xs) = set xs"
  by (simp add: unique_def unique_acc)

text \<open>\<open>TERMINAL_NODE_STATUSES\<close> (runner-shared.ts) and the two functions \<open>isTerminalNodeStatus\<close>, and
  \<open>isTerminalRunStatus\<close> of the store.\<close>

definition isTerminalNodeStatus :: "node_status \<Rightarrow> bool" where
  "isTerminalNodeStatus s \<longleftrightarrow> s = Completed \<or> s = Failed \<or> s = Skipped \<or> s = Canceled"

definition isTerminalRunStatus :: "run_status \<Rightarrow> bool" where
  "isTerminalRunStatus s \<longleftrightarrow> s = RCompleted \<or> s = RFailed \<or> s = RCanceled"

lemma terminal_simps [simp]:
  "isTerminalNodeStatus Completed" "isTerminalNodeStatus Failed" "isTerminalNodeStatus Skipped"
  "isTerminalNodeStatus Canceled" "\<not> isTerminalNodeStatus Queued" "\<not> isTerminalNodeStatus Running"
  "\<not> isTerminalNodeStatus Blocked"
  by (simp_all add: isTerminalNodeStatus_def)

lemma terminal_run_simps [simp]:
  "isTerminalRunStatus RCompleted" "isTerminalRunStatus RFailed" "isTerminalRunStatus RCanceled"
  "\<not> isTerminalRunStatus RQueued" "\<not> isTerminalRunStatus RRunning" "\<not> isTerminalRunStatus RBlocked"
  by (simp_all add: isTerminalRunStatus_def)

section \<open>Updating a run\<close>

text \<open>\<open>addEvent\<close> (runtime-helpers.ts); the id is \<open>crypto.randomUUID()\<close>, an argument.\<close>

definition addEvent :: "string \<Rightarrow> int \<Rightarrow> string \<Rightarrow> string \<Rightarrow> obj option \<Rightarrow> string option \<Rightarrow> run \<Rightarrow> run" where
  "addEvent uuid now type message data nodeId r =
     r\<lparr>r_events := r_events r @ [\<lparr>ev_id = uuid, ev_timestamp = now, ev_type = type, ev_nodeId = nodeId,
                                   ev_message = message, ev_data = data\<rparr>]\<rparr>"

text \<open>A mutation of \<open>run.nodes[nodeId]\<close>, where it exists.\<close>

definition upd_node :: "string \<Rightarrow> (node_state \<Rightarrow> node_state) \<Rightarrow> run \<Rightarrow> run" where
  "upd_node i f r =
     (case jm_get (r_nodes r) i of Some st \<Rightarrow> r\<lparr>r_nodes := jm_set i (f st) (r_nodes r)\<rparr> | None \<Rightarrow> r)"

lemma addEvent_fields [simp]:
  "r_nodes (addEvent u now t m d i r) = r_nodes r" "r_status (addEvent u now t m d i r) = r_status r"
  "r_id (addEvent u now t m d i r) = r_id r" "r_startedAt (addEvent u now t m d i r) = r_startedAt r"
  "r_completedAt (addEvent u now t m d i r) = r_completedAt r" "r_error (addEvent u now t m d i r) = r_error r"
  "r_updatedAt (addEvent u now t m d i r) = r_updatedAt r" "r_inputs (addEvent u now t m d i r) = r_inputs r"
  by (simp_all add: addEvent_def)

lemma upd_node_fields [simp]:
  "r_status (upd_node i f r) = r_status r" "r_id (upd_node i f r) = r_id r"
  "r_startedAt (upd_node i f r) = r_startedAt r" "r_completedAt (upd_node i f r) = r_completedAt r"
  "r_error (upd_node i f r) = r_error r" "r_updatedAt (upd_node i f r) = r_updatedAt r"
  "r_events (upd_node i f r) = r_events r"
  by (simp_all add: upd_node_def split: option.splits)

lemma upd_node_get [simp]:
  "jm_get (r_nodes (upd_node i f r)) j = (if j = i then map_option f (jm_get (r_nodes r) i) else jm_get (r_nodes r) j)"
  by (simp add: upd_node_def split: option.splits)

lemma upd_node_keys [simp]: "jm_keys (r_nodes (upd_node i f r)) = jm_keys (r_nodes r)"
  by (simp add: upd_node_def jm_keys_set split: option.splits)

lemma upd_node_wf [simp]: "jm_wf (r_nodes r) \<Longrightarrow> jm_wf (r_nodes (upd_node i f r))"
  by (simp add: upd_node_def split: option.splits)

end
