(* ===== verification/Workflow_Graph.thy ===== *)
theory Workflow_Graph
  imports Workflow_Types "HOL-Library.List_Lexorder" "HOL-Library.Product_Lexorder" "HOL-Library.Multiset"
begin

text \<open>
  The checks on a workflow's graph (packages/daemon/src/workflows/parser.ts): the execution order with its cycle
  test, the transitive dependencies of a node, the references in its templates and the validation that every
  reference is to a node it depends on. YAML and the schema library are outside; what they deliver is the list
  of nodes. An error is the message that is thrown.
\<close>

section \<open>Execution order\<close>

text \<open>
  \<open>a.localeCompare(b)\<close> on node ids, which consist of ASCII letters, digits and \<open>. _ / -\<close>: the default
  collation compares without case first, punctuation before digits before letters, and puts the lower-case
  letter first where only case differs.
\<close>

definition primary_weight :: "char \<Rightarrow> nat" where
  "primary_weight c =
     (if c = CHR ''_'' then 1 else if c = CHR ''-'' then 2 else if c = CHR ''.'' then 3 else if c = CHR ''/'' then 4
      else of_char (char_lower c))"

definition localeKey :: "string \<Rightarrow> nat list \<times> nat list" where
  "localeKey s = (map primary_weight s, map (\<lambda>c. if char_lower c = c then 0 else 1) s)"

definition cycle_error :: string where
  "cycle_error = ''Workflow contains a dependency cycle''"

definition order_ready :: "definition_nodes \<Rightarrow> string list \<Rightarrow> string list \<Rightarrow> string list" where
  "order_ready nodes pending done_ids =
     filter (\<lambda>i. list_all (\<lambda>d. d \<in> set done_ids) (needs_of nodes i)) pending"

lemma order_ready_subset: "set (order_ready nodes pending done_ids) \<subseteq> set pending"
  by (auto simp: order_ready_def)

lemma order_pending_less:
  assumes "order_ready nodes pending done_ids \<noteq> []"
  shows "length (filter (\<lambda>i. i \<notin> set (order_ready nodes pending done_ids)) pending) < length pending"
proof -
  obtain i where i: "i \<in> set (order_ready nodes pending done_ids)" using assms by (cases "order_ready nodes pending done_ids") auto
  then have "i \<in> set pending" using order_ready_subset by blast
  then show ?thesis using i by (metis length_filter_less)
qed

text \<open>The loop; \<open>pending\<close> and \<open>complete\<close> (here \<open>done_ids\<close>) are sets in insertion order.\<close>

function order_loop :: "definition_nodes \<Rightarrow> string list \<Rightarrow> string list \<Rightarrow> string list \<Rightarrow> string + string list" where
  "order_loop nodes pending done_ids ordered =
     (if pending = [] then Inr ordered
      else
        let ready = order_ready nodes pending done_ids in
        if ready = [] then Inl cycle_error
        else
          let ready' = sort_key localeKey ready in
          order_loop nodes (filter (\<lambda>i. i \<notin> set ready') pending) (done_ids @ ready') (ordered @ ready'))"
  by pat_completeness auto

termination
  by (relation "measure (\<lambda>(nodes, pending, done_ids, ordered). length pending)") (auto dest: order_pending_less)

declare order_loop.simps [simp del]

definition workflowNodeOrder :: "definition_nodes \<Rightarrow> string + string list" where
  "workflowNodeOrder nodes = order_loop nodes (jm_keys nodes) [] []"

section \<open>Transitive dependencies\<close>

text \<open>The nested function \<open>visit\<close>: the list is the work that the recursion has pending, the needs of the node
  visited now before the rest of its caller's.\<close>

definition mentioned :: "definition_nodes \<Rightarrow> string set" where
  "mentioned nodes = (\<Union>(_, n) \<in> set nodes. set (needs n))"

lemma finite_mentioned: "finite (mentioned nodes)"
  by (auto simp: mentioned_def)

lemma needs_of_mentioned: "set (needs_of nodes i) \<subseteq> mentioned nodes"
  by (cases "jm_get nodes i") (force simp: needs_of_def mentioned_def dest: jm_get_mem)+

function visit :: "definition_nodes \<Rightarrow> string list \<Rightarrow> string list \<Rightarrow> string list" where
  "visit nodes [] result = result"
| "visit nodes (d # ds) result =
     (if d \<in> set result then visit nodes ds result
      else visit nodes (needs_of nodes d @ ds) (result @ [d]))"
  by pat_completeness auto

termination
proof (relation "measures [\<lambda>(nodes, ds, result). card ((set ds \<union> mentioned nodes) - set result), \<lambda>(nodes, ds, result). length ds]", goal_cases)
  case (2 nodes d ds result)
  then have "(set (d # ds) \<union> mentioned nodes) - set result = (set ds \<union> mentioned nodes) - set result" by auto
  then show ?case by simp
next
  case (3 nodes d ds result)
  let ?A = "(set (d # ds) \<union> mentioned nodes) - set result"
  let ?B = "(set (needs_of nodes d @ ds) \<union> mentioned nodes) - set (result @ [d])"
  have "?B \<subset> ?A" using 3 needs_of_mentioned [of nodes d] by auto
  then have "card ?B < card ?A" by (intro psubset_card_mono) (auto simp: finite_mentioned)
  then show ?case by simp
qed simp

definition transitiveDependencies :: "definition_nodes \<Rightarrow> string \<Rightarrow> string list" where
  "transitiveDependencies nodes i = visit nodes (needs_of nodes i) []"

section \<open>References in templates\<close>

text \<open>The characters of node ids: \<open>[A-Za-z0-9._/-]\<close>.\<close>

definition ident_char :: "char \<Rightarrow> bool" where
  "ident_char c \<longleftrightarrow>
     (let n = of_char c :: nat in (48 \<le> n \<and> n \<le> 57) \<or> (65 \<le> n \<and> n \<le> 90) \<or> (97 \<le> n \<and> n \<le> 122)) \<or>
     c \<in> set ''._/-''"

text \<open>
  The text between the braces at the start of \<open>s\<close>, where it is one run of id characters with white space around
  it. Every pattern of \<open>nodeReferences\<close> has this shape, and since neither white space nor an id character is a
  brace, a pattern matches exactly where its inner part matches the whole run, and two matches never overlap.
\<close>

definition placeholder :: "string \<Rightarrow> string option" where
  "placeholder s =
     (if startsWith s ''{{'' then
        let t = dropWhile js_space (drop 2 s) in
        if startsWith (dropWhile js_space (dropWhile ident_char t)) ''}}'' then Some (takeWhile ident_char t) else None
      else None)"

fun placeholders :: "string \<Rightarrow> string list" where
  "placeholders [] = []"
| "placeholders (c # s) = (case placeholder (c # s) of Some w \<Rightarrow> w # placeholders s | None \<Rightarrow> placeholders s)"

text \<open>\<open>(.+)sep(.+)\<close> with a greedy first group: the last place where both parts are not empty.\<close>

definition last_split :: "string \<Rightarrow> string \<Rightarrow> (string \<times> string) option" where
  "last_split sep w =
     (case filter (\<lambda>k. k > 0 \<and> startsWith (drop k w) sep \<and> k + length sep < length w) [0..<length w] of
        [] \<Rightarrow> None
      | ks \<Rightarrow> Some (take (last ks) w, drop (last ks + length sep) w))"

datatype template_reference =
    Raw string
  | Output string string
  | Artifact_of string string

definition raw_node :: "string \<Rightarrow> template_reference option" where
  "raw_node w =
     (if startsWith w ''nodes.'' then
        (case last_split ''.'' (drop 6 w) of
           Some (i, k) \<Rightarrow> if k \<in> {''output'', ''status'', ''sessionId'', ''error''} then Some (Raw i) else None
         | None \<Rightarrow> None)
      else None)"

definition raw_output :: "string \<Rightarrow> template_reference option" where
  "raw_output w = (if startsWith w ''outputs.'' \<and> drop 8 w \<noteq> [] then Some (Raw (drop 8 w)) else None)"

definition named_output :: "string \<Rightarrow> template_reference option" where
  "named_output w =
     (if startsWith w ''nodes.'' then map_option (\<lambda>(i, k). Output i k) (last_split ''.outputs.'' (drop 6 w)) else None)"

definition named_node_artifact :: "string \<Rightarrow> template_reference option" where
  "named_node_artifact w =
     (if startsWith w ''nodes.'' then map_option (\<lambda>(i, k). Artifact_of i k) (last_split ''.artifacts.'' (drop 6 w))
      else None)"

definition named_artifact :: "string \<Rightarrow> template_reference option" where
  "named_artifact w =
     (if startsWith w ''artifacts.'' then map_option (\<lambda>(i, k). Artifact_of i k) (last_split ''.'' (drop 10 w)) else None)"

definition nodeReferences :: "string \<Rightarrow> template_reference list" where
  "nodeReferences template =
     (let ws = placeholders template;
          found = concat (map (\<lambda>f. List.map_filter f ws)
                    [raw_node, raw_output, named_output, named_node_artifact, named_artifact])
      in unique found)"

definition reference_node :: "template_reference \<Rightarrow> string" where
  "reference_node ref = (case ref of Raw i \<Rightarrow> i | Output i _ \<Rightarrow> i | Artifact_of i _ \<Rightarrow> i)"

definition opt_list :: "'a list option \<Rightarrow> 'a list" where
  "opt_list v = (case v of Some xs \<Rightarrow> xs | None \<Rightarrow> [])"

definition given :: "string option list \<Rightarrow> string list" where
  "given vs = List.map_filter id vs"

definition workflowContextRef :: "context_ref \<Rightarrow> string" where
  "workflowContextRef r =
     (case r of
        Ref_string s \<Rightarrow> s
      | Ref_object a b c d \<Rightarrow> (case given [a, b, c, d] of s # _ \<Rightarrow> s | [] \<Rightarrow> []))"

definition rule_templates :: "review_rule \<Rightarrow> string list" where
  "rule_templates rule =
     given [Some (rr_name rule), rr_require rule, rr_timeout rule, rr_on_timeout rule]
     @ opt_list (rr_changed_paths_any rule) @ opt_list (rr_reviewer_tags rule)"

definition nodeTemplates :: "node \<Rightarrow> string list" where
  "nodeTemplates n =
     (case n_kind n of
        Agent prompt title artifact summary \<Rightarrow> given [Some prompt, title, artifact, summary]
      | Prompt prompt cwd files agents \<Rightarrow>
          given [Some prompt, cwd] @ opt_list files @ map snd (opt_list agents)
      | Shell command argv cwd \<Rightarrow> given [command] @ opt_list argv @ given [cwd]
      | Checkout repository remote ref branch path cred \<Rightarrow>
          given [Some repository, remote, ref, branch, path, cred]
      | Git_publish repository cwd branch message cred paths rules \<Rightarrow>
          given [Some repository, Some cwd, Some branch, Some message, cred] @ opt_list paths
          @ concat (map rule_templates (opt_list rules))
      | Approval prompt onReject _ _ \<Rightarrow>
          prompt # (case onReject of
                      None \<Rightarrow> []
                    | Some (Reject_command command cwd) \<Rightarrow> command # (if truthy cwd then [the cwd] else [])
                    | Some (Reject_prompt p) \<Rightarrow> [p])
      | Plan _ _ _ _ _ \<Rightarrow> []
      | Context_update targetRef title summary patch_text patch_digest key \<Rightarrow>
          given [Some targetRef, Some title, summary, patch_text, patch_digest, key]
      | Gate g \<Rightarrow>
          (case g of Check e \<Rightarrow> [e] | Policy e \<Rightarrow> [e] | Human_review p \<Rightarrow> [p] | Schedule w \<Rightarrow> [w])
      | Context refs query \<Rightarrow> given [query] @ map workflowContextRef (opt_list refs)
      | Condition expression th el \<Rightarrow> expression # opt_list th @ opt_list el
      | Artifact name src path desc \<Rightarrow> given [Some name, src, path, desc]
      | Action adapter action proposal key args _ \<Rightarrow>
          filter (\<lambda>s. s \<noteq> [])
            (given [Some adapter, Some action, proposal, key]
             @ map (\<lambda>(_, v). case v of JStr s \<Rightarrow> s | _ \<Rightarrow> []) (opt_list args))
      | Loop foreach while until _ body \<Rightarrow>
          (if truthy foreach then [the foreach] else []) @ (if truthy while then [the while] else [])
          @ (if truthy until then [the until] else [])
          @ (case body of
               Body_shell command cwd \<Rightarrow> command # (if truthy cwd then [the cwd] else [])
             | Body_prompt p \<Rightarrow> [p])
      | Subflow inputs \<Rightarrow> map snd (opt_list inputs))"

section \<open>Validation\<close>

text \<open>The members every object inherits: reading one of these names never gives \<open>undefined\<close>.\<close>

definition inherited_names :: "string list" where
  "inherited_names =
     [''constructor'', ''hasOwnProperty'', ''isPrototypeOf'', ''propertyIsEnumerable'', ''toLocaleString'',
      ''toString'', ''valueOf'', ''__proto__'', ''__defineGetter__'', ''__defineSetter__'', ''__lookupGetter__'',
      ''__lookupSetter__'']"

definition present :: "(string \<times> 'a) list \<Rightarrow> string \<Rightarrow> bool" where
  "present m k \<longleftrightarrow> k \<in> fst ` set m \<or> k \<in> set inherited_names"

definition declaredReferenceName :: "string \<Rightarrow> obj option \<Rightarrow> string" where
  "declaredReferenceName name declared =
     (case declared of
        None \<Rightarrow> name
      | Some m \<Rightarrow> if name \<in> fst ` set m then name else hd (splitOn (CHR ''.'') name))"

definition isBuiltinOutputReference :: "node \<Rightarrow> string \<Rightarrow> bool" where
  "isBuiltinOutputReference n name =
     (case n_kind n of
        Checkout _ _ _ _ _ _ \<Rightarrow> name \<in> {''repository'', ''path'', ''ref'', ''branch'', ''commit''}
      | Git_publish _ _ _ _ _ _ _ \<Rightarrow> name \<in> {''repository'', ''branch'', ''commit'', ''pushed'', ''changed''}
      | _ \<Rightarrow> False)"

definition declared_outputs :: "node \<Rightarrow> obj" where
  "declared_outputs n = opt_list (n_outputs n) @ opt_list (n_outputSchema n)"

definition check_reference :: "definition_nodes \<Rightarrow> string \<Rightarrow> string list \<Rightarrow> template_reference \<Rightarrow> string option" where
  "check_reference nodes i dependencies ref =
     (let j = reference_node ref in
      if \<not> present nodes j then Some (''Workflow node '' @ i @ '' references missing node '' @ j)
      else if j \<notin> set dependencies then
        Some (''Workflow node '' @ i @ '' references '' @ j @ '' output but does not depend on it'')
      else
        (case (ref, jm_get nodes j) of
           (Output _ name, Some up) \<Rightarrow>
             if \<not> present (declared_outputs up) (declaredReferenceName name (Some (declared_outputs up))) \<and>
                \<not> isBuiltinOutputReference up name
             then Some (''Workflow node '' @ i @ '' references undeclared output '' @ j @ ''.'' @ name) else None
         | (Artifact_of _ name, Some up) \<Rightarrow>
             (case n_artifacts up of
                Some arts \<Rightarrow>
                  if present arts (declaredReferenceName name (Some arts)) then None
                  else Some (''Workflow node '' @ i @ '' references undeclared artifact '' @ j @ ''.'' @ name)
              | None \<Rightarrow> Some (''Workflow node '' @ i @ '' references undeclared artifact '' @ j @ ''.'' @ name))
         | _ \<Rightarrow> None))"

text \<open>A sequence of checks that throw: the first error.\<close>

definition first_error :: "string option list \<Rightarrow> string option" where
  "first_error es = (case given es of e # _ \<Rightarrow> Some e | [] \<Rightarrow> None)"

definition validateTemplateReferences :: "definition_nodes \<Rightarrow> string option" where
  "validateTemplateReferences nodes =
     first_error
       (concat (map (\<lambda>(i, n).
          concat (map (\<lambda>t. map (check_reference nodes i (transitiveDependencies nodes i)) (nodeReferences t))
                    (nodeTemplates n))) nodes))"

definition validateShellInvocation :: "string \<Rightarrow> string option \<Rightarrow> string list option \<Rightarrow> string option" where
  "validateShellInvocation i command argv =
     (if truthy command \<and> opt_list argv \<noteq> [] then
        Some (''Workflow shell node '' @ i @ '' must set command or argv, not both'')
      else if \<not> truthy command \<and> opt_list argv = [] then
        Some (''Workflow shell node '' @ i @ '' must set command or argv'')
      else None)"

definition node_checks :: "string list \<Rightarrow> string \<Rightarrow> node \<Rightarrow> string option list" where
  "node_checks ids i n =
     [if i \<noteq> [] \<and> list_all ident_char i then None else Some (''Invalid workflow node id: '' @ i),
      (case n_kind n of Shell command argv _ \<Rightarrow> validateShellInvocation i command argv | _ \<Rightarrow> None)]
     @ map (\<lambda>d. if d \<in> set ids then None
                else Some (''Workflow node '' @ i @ '' depends on missing node '' @ d)) (needs n)
     @ (case n_kind n of
          Condition _ th el \<Rightarrow>
            map (\<lambda>b. if b \<in> set ids then None
                     else Some (''Workflow condition node '' @ i @ '' references missing node '' @ b))
              (opt_list th @ opt_list el)
        | _ \<Rightarrow> [])"

definition validateWorkflowGraph :: "definition_nodes \<Rightarrow> string option" where
  "validateWorkflowGraph nodes =
     (if nodes = [] then Some ''Workflow must define at least one node''
      else
        case first_error (concat (map (\<lambda>(i, n). node_checks (jm_keys nodes) i n) nodes)) of
          Some e \<Rightarrow> Some e
        | None \<Rightarrow>
            (case workflowNodeOrder nodes of
               Inl e \<Rightarrow> Some e
             | Inr _ \<Rightarrow> validateTemplateReferences nodes))"

section \<open>The order is topological\<close>

text \<open>Every node of the list comes after the nodes it needs, given that \<open>before\<close> are already there.\<close>

fun topological :: "definition_nodes \<Rightarrow> string set \<Rightarrow> string list \<Rightarrow> bool" where
  "topological nodes before [] \<longleftrightarrow> True"
| "topological nodes before (i # is) \<longleftrightarrow> set (needs_of nodes i) \<subseteq> before \<and> topological nodes (insert i before) is"

text \<open>The edges of the graph, from a node to a node it needs.\<close>

definition edges :: "definition_nodes \<Rightarrow> (string \<times> string) set" where
  "edges nodes = {(i, d). d \<in> set (needs_of nodes i)}"

lemma topological_append:
  "topological nodes before (xs @ ys) \<longleftrightarrow> topological nodes before xs \<and> topological nodes (before \<union> set xs) ys"
  by (induction xs arbitrary: before) auto

lemma topological_layer:
  "\<forall>i \<in> set xs. set (needs_of nodes i) \<subseteq> before \<Longrightarrow> topological nodes before xs"
proof (induction xs arbitrary: before)
  case (Cons x xs)
  then have "\<forall>i \<in> set xs. set (needs_of nodes i) \<subseteq> insert x before" by auto
  from Cons.IH [OF this] Cons.prems show ?case by simp
qed simp

lemma topological_nth:
  "topological nodes before xs \<Longrightarrow> k < length xs \<Longrightarrow> set (needs_of nodes (xs ! k)) \<subseteq> before \<union> set (take k xs)"
proof (induction xs arbitrary: before k)
  case (Cons x xs)
  then show ?case by (cases k) fastforce+
qed simp

lemma order_loop_sound:
  assumes "order_loop nodes pending ordered ordered = Inr res"
  shows "\<exists>zs. res = ordered @ zs \<and> mset zs = mset pending \<and> topological nodes (set ordered) zs"
  using assms
proof (induction "length pending" arbitrary: pending ordered rule: less_induct)
  case less
  let ?ready = "order_ready nodes pending ordered"
  let ?sorted = "sort_key localeKey ?ready"
  let ?rest = "filter (\<lambda>i. i \<notin> set ?sorted) pending"
  show ?case
  proof (cases "pending = []")
    case True
    then show ?thesis using less.prems by (simp add: order_loop.simps [of nodes "[]"])
  next
    case False
    then have ne: "?ready \<noteq> []" and rec: "order_loop nodes ?rest (ordered @ ?sorted) (ordered @ ?sorted) = Inr res"
      using less.prems by (auto simp: order_loop.simps [of nodes pending] Let_def split: if_splits)
    have "length ?rest < length pending" using order_pending_less [OF ne] by simp
    from less.hyps [OF this rec] obtain zs where zs: "res = (ordered @ ?sorted) @ zs" "mset zs = mset ?rest"
      "topological nodes (set (ordered @ ?sorted)) zs" by blast
    have "?ready = filter (\<lambda>i. i \<in> set ?sorted) pending"
      unfolding set_sort by (simp add: order_ready_def cong: filter_cong)
    then have "mset ?sorted = mset (filter (\<lambda>i. i \<in> set ?sorted) pending)" by (metis mset_sort)
    then have "mset (?sorted @ zs) = mset pending" using zs(2) by (simp add: mset_filter)
    moreover have "topological nodes (set ordered) ?sorted"
      by (rule topological_layer) (auto simp: order_ready_def list_all_iff)
    ultimately show ?thesis using zs(1,3) by (intro exI [of _ "?sorted @ zs"]) (simp add: topological_append)
  qed
qed

lemma order_loop_stuck:
  assumes "order_loop nodes pending ordered ordered = Inl e"
  shows "e = cycle_error \<and> (\<exists>S \<subseteq> set pending. S \<noteq> {} \<and>
    (\<forall>i \<in> S. \<exists>d \<in> set (needs_of nodes i). d \<in> S \<or> d \<notin> set pending \<union> set ordered))"
  using assms
proof (induction "length pending" arbitrary: pending ordered rule: less_induct)
  case less
  let ?ready = "order_ready nodes pending ordered"
  let ?sorted = "sort_key localeKey ?ready"
  let ?rest = "filter (\<lambda>i. i \<notin> set ?sorted) pending"
  have ne: "pending \<noteq> []" using less.prems by (auto simp: order_loop.simps [of nodes "[]"])
  show ?case
  proof (cases "?ready = []")
    case True
    then have "e = cycle_error" using less.prems ne by (simp add: order_loop.simps [of nodes pending])
    moreover have "\<forall>i \<in> set pending. \<exists>d \<in> set (needs_of nodes i). d \<notin> set ordered"
      using True by (auto simp: order_ready_def filter_empty_conv list_all_iff)
    ultimately show ?thesis using ne by (intro conjI exI [of _ "set pending"]) auto
  next
    case False
    then have rec: "order_loop nodes ?rest (ordered @ ?sorted) (ordered @ ?sorted) = Inl e"
      using less.prems ne by (simp add: order_loop.simps [of nodes pending] Let_def)
    have "length ?rest < length pending" using order_pending_less [OF False] by simp
    from less.hyps [OF this rec] obtain S where S: "e = cycle_error" "S \<subseteq> set ?rest" "S \<noteq> {}"
      "\<forall>i \<in> S. \<exists>d \<in> set (needs_of nodes i). d \<in> S \<or> d \<notin> set ?rest \<union> set (ordered @ ?sorted)" by blast
    have sub: "set pending \<union> set ordered \<subseteq> set ?rest \<union> set (ordered @ ?sorted)" by auto
    have "\<forall>i \<in> S. \<exists>d \<in> set (needs_of nodes i). d \<in> S \<or> d \<notin> set pending \<union> set ordered"
    proof
      fix i
      assume "i \<in> S"
      with S(4) obtain d where "d \<in> set (needs_of nodes i)" "d \<in> S \<or> d \<notin> set ?rest \<union> set (ordered @ ?sorted)" by blast
      then show "\<exists>d \<in> set (needs_of nodes i). d \<in> S \<or> d \<notin> set pending \<union> set ordered" using sub by blast
    qed
    moreover have "S \<subseteq> set pending" using S(2) by auto
    ultimately show ?thesis using S(1,3) by blast
  qed
qed

lemma topological_acyclic:
  assumes "topological nodes {} xs" and "distinct xs" and "Field (edges nodes) \<subseteq> set xs"
  shows "acyclic (edges nodes)"
proof -
  define pos where "pos i = (THE k. k < length xs \<and> xs ! k = i)" for i
  have pos: "pos (xs ! k) = k" if "k < length xs" for k
    unfolding pos_def using that assms(2) by (intro the_equality) (auto simp: nth_eq_iff_index_eq)
  have "(d, i) \<in> measure pos" if "(i, d) \<in> edges nodes" for i d
  proof -
    have "i \<in> Field (edges nodes)" using that by (rule FieldI1)
    then have "i \<in> set xs" using assms(3) by (rule subsetD [rotated])
    then obtain k where k: "k < length xs" "xs ! k = i" by (auto simp: in_set_conv_nth)
    have "d \<in> set (take k xs)" using topological_nth [OF assms(1) k(1)] k(2) that by (auto simp: edges_def)
    then obtain l where "l < k" "xs ! l = d" using k(1) by (auto simp: in_set_conv_nth)
    then show ?thesis using pos k by auto
  qed
  then have "(edges nodes)\<inverse> \<subseteq> measure pos" by auto
  then have "wf ((edges nodes)\<inverse>)" using wf_measure wf_subset by blast
  then show ?thesis using wf_acyclic acyclic_converse by blast
qed

lemma acyclic_has_ready:
  assumes "acyclic (edges nodes)" and "finite S" and "S \<noteq> {}"
  shows "\<exists>i \<in> S. set (needs_of nodes i) \<inter> S = {}"
proof -
  have "finite (edges nodes \<inter> S \<times> S)" using assms(2) by (meson finite_Int finite_SigmaI)
  moreover have "acyclic (edges nodes \<inter> S \<times> S)" using assms(1) by (metis acyclic_subset inf.cobounded1)
  ultimately have "wf ((edges nodes \<inter> S \<times> S)\<inverse>)" by (rule finite_acyclic_wf_converse)
  moreover obtain j where "j \<in> S" using assms(3) by blast
  ultimately obtain i where i: "i \<in> S" "\<And>d. (d, i) \<in> (edges nodes \<inter> S \<times> S)\<inverse> \<Longrightarrow> d \<notin> S"
    using wfE_min [of "(edges nodes \<inter> S \<times> S)\<inverse>" j S] by metis
  have "d \<notin> S" if "d \<in> set (needs_of nodes i)" for d
    using i(2) [of d] i(1) that by (auto simp: edges_def)
  then show ?thesis using i(1) by blast
qed

lemma order_exists_iff:
  assumes "jm_wf nodes" and closed: "\<forall>i \<in> set (jm_keys nodes). set (needs_of nodes i) \<subseteq> set (jm_keys nodes)"
  shows "(\<exists>xs. workflowNodeOrder nodes = Inr xs) \<longleftrightarrow> acyclic (edges nodes)"
proof
  assume "\<exists>xs. workflowNodeOrder nodes = Inr xs"
  then obtain xs where xs: "mset xs = mset (jm_keys nodes)" "topological nodes {} xs"
    unfolding workflowNodeOrder_def using order_loop_sound [of nodes "jm_keys nodes" "[]"] by auto
  have "i \<in> set (jm_keys nodes)" if "d \<in> set (needs_of nodes i)" for i d
    using that by (cases "jm_get nodes i") (simp_all add: needs_of_def set_jm_keys)
  then have "Field (edges nodes) \<subseteq> set xs"
    using closed mset_eq_setD [OF xs(1)] by (fastforce simp: edges_def Field_def)
  then show "acyclic (edges nodes)"
    using topological_acyclic [OF xs(2)] assms(1) mset_eq_imp_distinct_iff [OF xs(1)] by (simp add: jm_wf_def)
next
  assume ac: "acyclic (edges nodes)"
  show "\<exists>xs. workflowNodeOrder nodes = Inr xs"
  proof (cases "workflowNodeOrder nodes")
    case (Inl e)
    then obtain S where S: "S \<subseteq> set (jm_keys nodes)" "S \<noteq> {}"
      "\<forall>i \<in> S. \<exists>d \<in> set (needs_of nodes i). d \<in> S \<or> d \<notin> set (jm_keys nodes)"
      unfolding workflowNodeOrder_def using order_loop_stuck [of nodes "jm_keys nodes" "[]" e] by auto
    obtain i where "i \<in> S" "set (needs_of nodes i) \<inter> S = {}"
      using acyclic_has_ready [OF ac finite_subset [OF S(1)] S(2)] by auto
    then show ?thesis using S(1,3) closed by blast
  qed simp
qed

section \<open>Dependencies are what is reachable\<close>

lemma visit_reachable:
  "set (visit nodes ds result) \<subseteq> set result \<union> (edges nodes)\<^sup>* `` set ds"
proof (induction nodes ds result rule: visit.induct)
  case (2 nodes d ds result)
  have "(edges nodes)\<^sup>* `` set (needs_of nodes d) \<subseteq> (edges nodes)\<^sup>* `` {d}"
    by (auto simp: edges_def intro: converse_rtrancl_into_rtrancl)
  then have sub: "(edges nodes)\<^sup>* `` set (needs_of nodes d @ ds) \<subseteq> (edges nodes)\<^sup>* `` set (d # ds)" by auto
  show ?case
  proof (cases "d \<in> set result")
    case True
    then show ?thesis using 2(1) by auto
  next
    case False
    let ?E = "(edges nodes)\<^sup>* `` set (d # ds)"
    have "d \<in> ?E" by auto
    then have "set (result @ [d]) \<union> (edges nodes)\<^sup>* `` set (needs_of nodes d @ ds) \<subseteq> set result \<union> ?E"
      using sub by (metis (no_types, lifting) Un_iff Un_subset_iff set_append subsetI empty_set list.set(2) insert_iff empty_iff le_supI2)
    then have "set (visit nodes (needs_of nodes d @ ds) (result @ [d])) \<subseteq> set result \<union> ?E"
      using 2(2) [OF False] by (rule order_trans [rotated])
    then show ?thesis using False by (simp only: visit.simps if_False)
  qed
qed simp

lemma visit_complete:
  assumes "\<forall>i \<in> set result. set (needs_of nodes i) \<subseteq> set result \<union> set ds"
  shows "set result \<union> set ds \<subseteq> set (visit nodes ds result) \<and>
    (\<forall>i \<in> set (visit nodes ds result). set (needs_of nodes i) \<subseteq> set (visit nodes ds result))"
  using assms by (induction nodes ds result rule: visit.induct) (simp_all, blast)

lemma transitiveDependencies_reachable:
  "set (transitiveDependencies nodes i) = (edges nodes)\<^sup>+ `` {i}"
proof
  have "(edges nodes)\<^sup>* `` set (needs_of nodes i) \<subseteq> (edges nodes)\<^sup>+ `` {i}"
    by (auto simp: edges_def intro: rtrancl_into_trancl2)
  then show "set (transitiveDependencies nodes i) \<subseteq> (edges nodes)\<^sup>+ `` {i}"
    using visit_reachable [of nodes "needs_of nodes i" "[]"] by (auto simp: transitiveDependencies_def)
next
  let ?D = "set (transitiveDependencies nodes i)"
  have closed: "set (needs_of nodes i) \<subseteq> ?D" "\<forall>j \<in> ?D. set (needs_of nodes j) \<subseteq> ?D"
    using visit_complete [of "[]" nodes "needs_of nodes i"] by (auto simp: transitiveDependencies_def)
  have "d \<in> ?D" if "(i, d) \<in> (edges nodes)\<^sup>+" for d
    using that
  proof induction
    case (base d)
    then show ?case using closed(1) by (auto simp: edges_def)
  next
    case (step c d)
    then show ?case using closed(2) by (auto simp: edges_def)
  qed
  then show "(edges nodes)\<^sup>+ `` {i} \<subseteq> ?D" by auto
qed

section \<open>What validation gives\<close>

lemma given_Nil: "given es = [] \<longleftrightarrow> (\<forall>e \<in> set es. e = None)"
  by (induction es) (auto simp: given_def map_filter_simps split: option.splits)

lemma first_error_None: "first_error es = None \<longleftrightarrow> (\<forall>e \<in> set es. e = None)"
  using given_Nil [of es] by (cases "given es") (simp_all add: first_error_def)

lemma valid_iff:
  "validateWorkflowGraph nodes = None \<longleftrightarrow>
     nodes \<noteq> [] \<and> (\<forall>(i, n) \<in> set nodes. \<forall>e \<in> set (node_checks (jm_keys nodes) i n). e = None) \<and>
     (\<exists>xs. workflowNodeOrder nodes = Inr xs) \<and> validateTemplateReferences nodes = None"
proof -
  let ?checks = "concat (map (\<lambda>(i, n). node_checks (jm_keys nodes) i n) nodes)"
  have "first_error ?checks = None \<longleftrightarrow> (\<forall>(i, n) \<in> set nodes. \<forall>e \<in> set (node_checks (jm_keys nodes) i n). e = None)"
    by (auto simp: first_error_None)
  then show ?thesis
    by (cases "first_error ?checks"; cases "workflowNodeOrder nodes") (simp_all add: validateWorkflowGraph_def)
qed

lemma valid_closed:
  assumes "validateWorkflowGraph nodes = None" and "jm_wf nodes" and "i \<in> set (jm_keys nodes)"
  shows "set (needs_of nodes i) \<subseteq> set (jm_keys nodes)"
proof -
  obtain n where n: "jm_get nodes i = Some n" using assms(3) by (auto simp: set_jm_keys)
  then have "\<forall>e \<in> set (node_checks (jm_keys nodes) i n). e = None"
    using assms(1) jm_get_mem [OF n] unfolding valid_iff by blast
  then have "\<forall>d \<in> set (needs n). d \<in> set (jm_keys nodes)" by (simp add: node_checks_def ball_Un)
  then show ?thesis by (auto simp: needs_of_def n)
qed

lemma valid_acyclic:
  assumes "validateWorkflowGraph nodes = None" and "jm_wf nodes"
  shows "acyclic (edges nodes)"
proof -
  have "\<exists>xs. workflowNodeOrder nodes = Inr xs" using assms(1) by (simp add: valid_iff)
  then show ?thesis using order_exists_iff [OF assms(2)] valid_closed [OF assms] by blast
qed

lemma valid_reference:
  assumes "validateWorkflowGraph nodes = None" and "jm_wf nodes" and "jm_get nodes i = Some n"
    and "t \<in> set (nodeTemplates n)" and "ref \<in> set (nodeReferences t)"
  shows "(i, reference_node ref) \<in> (edges nodes)\<^sup>+"
proof -
  have "validateTemplateReferences nodes = None"
    using assms(1) by (simp add: valid_iff)
  then have "check_reference nodes i (transitiveDependencies nodes i) ref = None"
    using jm_get_mem [OF assms(3)] assms(4,5) by (fastforce simp: validateTemplateReferences_def first_error_None)
  then show ?thesis
    using transitiveDependencies_reachable [of nodes i] by (auto simp: check_reference_def Let_def split: if_splits)
qed

text \<open>Two small graphs: a diamond whose last node quotes its parents, and a cycle.\<close>

definition plain_node :: "node_kind \<Rightarrow> string list \<Rightarrow> node" where
  "plain_node k ds = \<lparr>n_kind = k, n_title = None, n_needs = Some ds, n_when = None, n_triggerRule = None,
     n_retry = None, n_onFailure = None, n_outputs = None, n_outputSchema = None, n_artifacts = None\<rparr>"

definition diamond :: definition_nodes where
  "diamond =
     [(''ship'', plain_node (Shell (Some ''echo {{ nodes.test.output }} {{nodes.lint.status}}'') None None) [''test'', ''lint'']),
      (''test'', plain_node (Shell (Some ''make'') None None) [''build'']),
      (''lint'', plain_node (Shell (Some ''make lint'') None None) [''build'']),
      (''build'', plain_node (Shell (Some ''make all'') None None) [])]"

definition cyclic :: definition_nodes where
  "cyclic = [(''a'', plain_node (Plan [] None None None None) [''b'']), (''b'', plain_node (Plan [] None None None None) [''a'']), (''c'', plain_node (Plan [] None None None None) [])]"

lemma diamond_valid: "validateWorkflowGraph diamond = None" "jm_wf diamond"
  by code_simp+

section \<open>Properties\<close>

text \<open>C20: the execution order of a workflow exists exactly when its dependencies have no cycle. For a definition whose
  needs all name its nodes, \<open>workflowNodeOrder\<close> returns every node once, each after all the nodes it needs, or
  reports a cycle if and only if there is one.\<close>

theorem workflowNodeOrder_correct:
  assumes "jm_wf nodes" and "\<forall>i \<in> set (jm_keys nodes). set (needs_of nodes i) \<subseteq> set (jm_keys nodes)"
  shows "if acyclic {(i, d). d \<in> set (needs_of nodes i)}
    then \<exists>xs. workflowNodeOrder nodes = Inr xs \<and> mset xs = mset (jm_keys nodes) \<and>
      (\<forall>k < length xs. set (needs_of nodes (xs ! k)) \<subseteq> set (take k xs))
    else workflowNodeOrder nodes = Inl ''Workflow contains a dependency cycle''"
proof (cases "workflowNodeOrder nodes")
  case (Inl e)
  then have "\<not> acyclic (edges nodes)" using order_exists_iff [OF assms] by simp
  then show ?thesis
    using Inl order_loop_stuck [of nodes "jm_keys nodes" "[]" e] by (simp add: workflowNodeOrder_def edges_def cycle_error_def)
next
  case (Inr xs)
  then have "acyclic (edges nodes)" using order_exists_iff [OF assms] by blast
  moreover obtain "mset xs = mset (jm_keys nodes)" "topological nodes {} xs"
    using Inr order_loop_sound [of nodes "jm_keys nodes" "[]" xs] by (auto simp: workflowNodeOrder_def)
  ultimately show ?thesis using Inr topological_nth [of nodes "{}" xs] by (auto simp: edges_def)
qed

theorem workflowNodeOrder_correct_witness:
  "workflowNodeOrder diamond = Inr [''build'', ''lint'', ''test'', ''ship''] \<and>
   workflowNodeOrder cyclic = Inl ''Workflow contains a dependency cycle'' \<and>
   \<not> acyclic {(i, d). d \<in> set (needs_of cyclic i)} \<and> acyclic {(i, d). d \<in> set (needs_of diamond i)}"
proof -
  have o: "workflowNodeOrder diamond = Inr [''build'', ''lint'', ''test'', ''ship'']"
    "workflowNodeOrder cyclic = Inl ''Workflow contains a dependency cycle''" by code_simp+
  have wf: "jm_wf diamond" "jm_wf cyclic"
    "\<forall>i \<in> set (jm_keys diamond). set (needs_of diamond i) \<subseteq> set (jm_keys diamond)"
    "\<forall>i \<in> set (jm_keys cyclic). set (needs_of cyclic i) \<subseteq> set (jm_keys cyclic)" by code_simp+
  from workflowNodeOrder_correct [OF wf(1,3)] workflowNodeOrder_correct [OF wf(2,4)] o show ?thesis
    by (auto split: if_splits)
qed

end
