(* ===== verification/Json_Text.thy ===== *)
theory Json_Text
  imports Json
begin

text \<open>
  \<open>JSON.stringify\<close> and \<open>String(n)\<close>, the standard library's way from values to text, and that the parser of \<open>Json\<close> reads
  back the objects of texts and counters that the code exchanges.
\<close>

section \<open>Values as text\<close>

text \<open>\<open>String(n)\<close>: an integer in decimal, another number with its fractional digits (at most twenty).\<close>

definition fraction_digits :: "rat \<Rightarrow> nat" where
  "fraction_digits q = (case filter (\<lambda>k. snd (quotient_of (q * 10 ^ k)) = 1) [0..<21] of k # _ \<Rightarrow> k | [] \<Rightarrow> 20)"

definition number_string :: "rat \<Rightarrow> string" where
  "number_string q =
     (let k = fraction_digits q; n = nat \<lfloor>\<bar>q\<bar> * 10 ^ k\<rfloor>;
          body = (if k = 0 then nat_string n
                  else nat_string (n div 10 ^ k) @ ''.'' @ zero_pad k (nat_string (n mod 10 ^ k)))
      in if q < 0 then CHR ''-'' # body else body)"

text \<open>\<open>JSON.stringify\<close> without indentation.\<close>

definition escape_char :: "char \<Rightarrow> string" where
  "escape_char c =
     (let n = of_char c :: nat in
      if c = CHR 0x22 then [CHR 0x5C, CHR 0x22]
      else if c = CHR 0x5C then [CHR 0x5C, CHR 0x5C]
      else if n = 8 then CHR 0x5C # ''b'' else if n = 9 then CHR 0x5C # ''t'' else if n = 10 then CHR 0x5C # ''n''
      else if n = 12 then CHR 0x5C # ''f'' else if n = 13 then CHR 0x5C # ''r''
      else if n < 32 then CHR 0x5C # ''u00'' @ map char_lower [hex_char (n div 16), hex_char (n mod 16)]
      else [c])"

definition string_literal :: "string \<Rightarrow> string" where
  "string_literal s = [CHR 0x22] @ concat (map escape_char s) @ [CHR 0x22]"

fun JSON_stringify :: "json \<Rightarrow> string" where
  "JSON_stringify JNull = ''null''"
| "JSON_stringify (JBool b) = (if b then ''true'' else ''false'')"
| "JSON_stringify (JNum q) = number_string q"
| "JSON_stringify (JStr s) = string_literal s"
| "JSON_stringify (JArr vs) = ''['' @ join '','' (map JSON_stringify vs) @ '']''"
| "JSON_stringify (JObj fs) = ''{'' @ join '','' (map (\<lambda>(k, v). string_literal k @ '':'' @ JSON_stringify v) fs) @ ''}''"

section \<open>Reading back\<close>

lemma hex_digit: "d < 16 \<Longrightarrow> hex_of (char_lower (hex_char d)) = Some d"
proof -
  assume "d < 16"
  then have "d = 0 \<or> d = 1 \<or> d = 2 \<or> d = 3 \<or> d = 4 \<or> d = 5 \<or> d = 6 \<or> d = 7 \<or> d = 8 \<or> d = 9 \<or> d = 10 \<or> d = 11 \<or> d = 12
      \<or> d = 13 \<or> d = 14 \<or> d = 15" by presburger
  then show ?thesis by (elim disjE) (simp_all add: hex_of_def hex_char_def char_lower_def)
qed

lemma pstring_escape: "pstring (escape_char c @ t) = map_option (apfst (Cons c)) (pstring t)"
proof -
  define n where "n = (of_char c :: nat)"
  have c: "c = char_of n" by (simp add: n_def)
  consider "c = CHR 0x22" | "c = CHR 0x5C" | "n \<in> {8, 9, 10, 12, 13}"
    | "n < 32" "n \<notin> {8, 9, 10, 12, 13}" "c \<noteq> CHR 0x22" "c \<noteq> CHR 0x5C" | "32 \<le> n" "c \<noteq> CHR 0x22" "c \<noteq> CHR 0x5C" by fastforce
  then show ?thesis
  proof cases
    case 1
    then show ?thesis by (simp add: escape_char_def unescape_def)
  next
    case 2
    then show ?thesis by (simp add: escape_char_def unescape_def)
  next
    case 3
    then have "c \<in> {CHR 0x08, CHR 0x09, CHR 0x0A, CHR 0x0C, CHR 0x0D}" using n_def
      by (elim insertE emptyE) (simp_all add: of_char_eq_iff [symmetric, where 'a = nat] del: of_char_eq_iff)
    then show ?thesis by (elim insertE) (simp_all add: escape_char_def unescape_def)
  next
    case 4
    have "hex4 (CHR ''0'') (CHR ''0'') (char_lower (hex_char (n div 16))) (char_lower (hex_char (n mod 16))) = Some n"
      using 4(1) hex_digit [of "n div 16"] hex_digit [of "n mod 16"] by (simp add: hex4_def) (simp add: hex_of_def)
    with 4 show ?thesis by (simp add: escape_char_def n_def [symmetric] c [symmetric])
  next
    case 5
    then show ?thesis by (simp add: escape_char_def n_def [symmetric])
  qed
qed

lemma pstring_literal: "pstring (concat (map escape_char s) @ CHR 0x22 # r) = Some (s, r)"
  by (induction s) (auto simp: pstring_escape)

text \<open>A text after which a number ends.\<close>

definition ends_number :: "string \<Rightarrow> bool" where
  "ends_number r \<longleftrightarrow> (case r of [] \<Rightarrow> True | c # _ \<Rightarrow> digit_of c = None \<and> c \<notin> {CHR ''.'', CHR ''e'', CHR ''E''})"

lemma digit_char_code: "d < 10 \<Longrightarrow> digit_of (digit_char d) = Some d"
  by (simp add: digit_of_def digit_char_def)

lemma digits_nat_string: "digits acc k (nat_string n @ r) = digits (acc * 10 ^ length (nat_string n) + n) (k + length (nat_string n)) r"
proof (induction n arbitrary: acc k r rule: nat_string.induct)
  case (1 n)
  show ?case
  proof (cases "n < 10")
    case True
    then have "nat_string n = [digit_char n]" by (simp add: nat_string.simps)
    then show ?thesis by (simp add: digit_char_code True mult.commute)
  next
    case False
    then have s: "nat_string n = nat_string (n div 10) @ [digit_char (n mod 10)]" by (simp add: nat_string.simps)
    have "n = 10 * (n div 10) + n mod 10" by simp
    then show ?thesis
      using 1 [OF False, of acc k "digit_char (n mod 10) # r"] digit_char_code [of "n mod 10"]
      by (simp add: s algebra_simps)
  qed
qed

lemma digits_end: "ends_number r \<Longrightarrow> digits acc k r = (acc, k, r)"
  by (cases r) (auto simp: ends_number_def)

lemma nat_string_not_Nil: "nat_string n \<noteq> []"
  by (subst nat_string.simps) simp

lemma nat_string_hd: "1 < length (nat_string n) \<Longrightarrow> hd (nat_string n) \<noteq> CHR ''0''"
proof (induction n rule: nat_string.induct)
  case IH: (1 n)
  show ?case
  proof (cases "n < 10")
    case False
    then have s: "nat_string n = nat_string (n div 10) @ [digit_char (n mod 10)]" by (simp add: nat_string.simps)
    show ?thesis
    proof (cases "n div 10 < 10")
      case True
      then have "nat_string (n div 10) = [digit_char (n div 10)]" by (simp add: nat_string.simps)
      moreover have "digit_char (n div 10) \<noteq> CHR ''0''"
      proof
        assume "digit_char (n div 10) = CHR ''0''"
        then have "digit_of (digit_char (n div 10)) = Some 0" by (simp add: digit_of_def)
        with True False show False by (simp add: digit_char_code)
      qed
      ultimately show ?thesis by (simp add: s)
    next
      case big: False
      then have "1 < length (nat_string (n div 10))"
        using nat_string_not_Nil [of "n div 10 div 10"] by (subst nat_string.simps) (cases "nat_string (n div 10 div 10)", auto)
      with IH(1) [OF False] show ?thesis by (simp add: s nat_string_not_Nil)
    qed
  qed (use IH(2) in \<open>simp add: nat_string.simps\<close>)
qed

lemma nat_string_digit: "\<exists>d q. nat_string n = digit_char d # q \<and> d < 10"
proof (induction n rule: nat_string.induct)
  case (1 n)
  then show ?case by (cases "n < 10") (auto simp: nat_string.simps [of n])
qed

lemma digit_char_other: "d < 10 \<Longrightarrow> digit_of c = None \<Longrightarrow> digit_char d \<noteq> c"
  using digit_char_code by fastforce

lemma pnumber_nat: "ends_number r \<Longrightarrow> pnumber (nat_string n @ r) = Some (of_nat n, r)"
  and pnumber_neg: "ends_number r \<Longrightarrow> pnumber (CHR ''-'' # nat_string n @ r) = Some (- of_nat n, r)"
proof -
  assume r: "ends_number r"
  obtain d q where d: "nat_string n = digit_char d # q" "d < 10" using nat_string_digit by blast
  have "digit_char d \<noteq> CHR ''-''" by (rule digit_char_other [OF d(2)]) (simp add: digit_of_def)
  then have sign: "(case nat_string n @ r of c # q \<Rightarrow> if c = CHR ''-'' then (True, q) else (False, nat_string n @ r)
      | [] \<Rightarrow> (False, nat_string n @ r)) = (False, nat_string n @ r)" by (simp add: d)
  have ds: "digits 0 0 (nat_string n @ r) = (n, length (nat_string n), r)"
    using digits_end [OF r] by (simp add: digits_nat_string)
  have zero: "\<not> (length (nat_string n) = 0 \<or> 1 < length (nat_string n) \<and> hd (nat_string n @ r) = CHR ''0'')"
    using nat_string_hd [of n] nat_string_not_Nil [of n] by simp
  have r': "r = [] \<or> (\<exists>c q. r = c # q \<and> c \<noteq> CHR ''.'' \<and> c \<noteq> CHR ''e'' \<and> c \<noteq> CHR ''E'')"
    using r by (auto simp: ends_number_def split: list.splits)
  show "pnumber (nat_string n @ r) = Some (of_nat n, r)"
    unfolding pnumber_def sign Let_def prod.case ds using zero r' by (auto simp: ten_power_def)
  show "pnumber (CHR ''-'' # nat_string n @ r) = Some (- of_nat n, r)"
    unfolding pnumber_def list.case if_P [OF refl] Let_def prod.case ds using zero r' by (auto simp: ten_power_def)
qed

lemma number_string_int: "number_string (of_int i) = int_string i"
proof -
  have "[0..<21] = 0 # [1..<21]" by (simp add: upt_rec)
  moreover have "snd (quotient_of (of_int i * 10 ^ 0)) = 1" by simp
  ultimately have "fraction_digits (of_int i) = 0" by (simp add: fraction_digits_def)
  moreover have "nat \<lfloor>\<bar>of_int i :: rat\<bar>\<rfloor> = nat \<bar>i\<bar>" by (metis floor_of_int of_int_abs)
  ultimately show ?thesis by (simp add: number_string_def int_string_def)
qed

text \<open>Values whose text has all of them: whole numbers, and objects without repeated keys.\<close>

fun exact :: "json \<Rightarrow> bool" where
  "exact (JNum q) \<longleftrightarrow> snd (quotient_of q) = 1"
| "exact (JArr vs) \<longleftrightarrow> (\<forall>v \<in> set vs. exact v)"
| "exact (JObj fs) \<longleftrightarrow> distinct (map fst fs) \<and> (\<forall>(k, v) \<in> set fs. exact v)"
| "exact v \<longleftrightarrow> True"

lemma exact_int: "snd (quotient_of q) = 1 \<Longrightarrow> q = of_int (fst (quotient_of q))"
  by (cases "quotient_of q") (auto dest: quotient_of_div)

lemma text_start: "exact v \<Longrightarrow> \<exists>c t. JSON_stringify v = c # t \<and> \<not> json_ws c \<and> c \<noteq> CHR 0x5D \<and> c \<noteq> CHR 0x7D"
proof (cases v)
  case (JNum q)
  assume "exact v"
  with JNum have q: "q = of_int (fst (quotient_of q))" using exact_int by simp
  obtain d t where d: "nat_string (nat \<bar>fst (quotient_of q)\<bar>) = digit_char d # t" "d < 10" using nat_string_digit by blast
  have "digit_char d \<noteq> CHR 0x5D" "digit_char d \<noteq> CHR 0x7D" "digit_char d \<noteq> CHR '' ''" "digit_char d \<noteq> CHR 0x09"
    "digit_char d \<noteq> CHR 0x0A" "digit_char d \<noteq> CHR 0x0D"
    by (rule digit_char_other [OF d(2)], simp add: digit_of_def)+
  moreover have "JSON_stringify v = int_string (fst (quotient_of q))" using q number_string_int JNum by (metis JSON_stringify.simps(3))
  ultimately show ?thesis using d(1) by (auto simp: int_string_def json_ws_def split: if_splits)
qed (auto simp: json_ws_def string_literal_def)

lemma skip_text: "exact v \<Longrightarrow> skip (JSON_stringify v @ r) = JSON_stringify v @ r"
  using text_start [of v] by (auto simp: skip_def)

lemma skip_plain: "\<not> json_ws c \<Longrightarrow> skip (c # s) = c # s"
  by (simp add: skip_def)

abbreviation reads :: "json \<Rightarrow> bool" where
  "reads v \<equiv> (\<forall>r. ends_number r \<longrightarrow> pvalue (JSON_stringify v @ r) = Some (v, r))"

lemma ends_plain: "c \<in> {CHR '','', CHR 0x5D, CHR 0x7D} \<Longrightarrow> ends_number (c # r)"
  by (auto simp: ends_number_def digit_of_def)

lemma items_read:
  assumes "vs \<noteq> []" and "\<forall>v \<in> set vs. exact v \<and> reads v"
  shows "pitems acc (join '','' (map JSON_stringify vs) @ CHR 0x5D # r) = Some (JArr (acc @ vs), r)"
  using assms
proof (induction vs arbitrary: acc)
  case (Cons v vs)
  show ?case
  proof (cases vs)
    case Nil
    have "pvalue (JSON_stringify v @ CHR 0x5D # r) = Some (v, CHR 0x5D # r)"
      using Cons.prems ends_plain [of "CHR 0x5D" r] by simp
    then show ?thesis by (simp add: Nil pitems.simps skip_plain json_ws_def)
  next
    case (Cons w ws)
    let ?rest = "join '','' (map JSON_stringify vs) @ CHR 0x5D # r"
    have shape: "join '','' (map JSON_stringify (v # vs)) @ CHR 0x5D # r = JSON_stringify v @ CHR '','' # ?rest"
      by (simp add: Cons)
    have "pvalue (JSON_stringify v @ CHR '','' # ?rest) = Some (v, CHR '','' # ?rest)"
      using Cons.prems ends_plain [of "CHR '',''" ?rest] by simp
    moreover have "skip ?rest = ?rest"
      using Cons.prems Cons skip_text [of w "(if ws = [] then [] else CHR '','' # join '','' (map JSON_stringify ws)) @ CHR 0x5D # r"]
      by (cases ws) simp_all
    ultimately show ?thesis
      unfolding shape using Cons.IH [of "acc @ [v]"] Cons.prems Cons
      by (simp add: pitems.simps [of acc "JSON_stringify v @ _"] skip_plain json_ws_def)
  qed
qed simp

abbreviation member_text :: "string \<times> json \<Rightarrow> string" where
  "member_text \<equiv> (\<lambda>(k, v). string_literal k @ '':'' @ JSON_stringify v)"

lemma set_new: "k \<notin> fst ` set acc \<Longrightarrow> jm_set k v acc = acc @ [(k, v)]"
  by (induction acc) auto

lemma members_read:
  assumes "fs \<noteq> []" and "\<forall>(k, v) \<in> set fs. exact v \<and> reads v" and "distinct (map fst (acc @ fs))"
  shows "pmembers acc (join '','' (map member_text fs) @ CHR 0x7D # r) = Some (JObj (acc @ fs), r)"
  using assms
proof (induction fs arbitrary: acc)
  case (Cons f fs)
  obtain k v where f: "f = (k, v)" by force
  have kv: "exact v" "reads v" using Cons.prems by (auto simp: f)
  have set: "jm_set k v acc = acc @ [(k, v)]" using Cons.prems(3) by (intro set_new) (auto simp: f)
  have key: "pstring (concat (map escape_char k) @ CHR 0x22 # t) = Some (k, t)" for t by (rule pstring_literal)
  have colon: "skip (CHR '':'' # t) = CHR '':'' # t" for t by (simp add: skip_plain json_ws_def)
  show ?case
  proof (cases fs)
    case Nil
    have "pvalue (JSON_stringify v @ CHR 0x7D # r) = Some (v, CHR 0x7D # r)" using kv(2) ends_plain [of "CHR 0x7D" r] by simp
    then show ?thesis
      by (simp add: Nil f string_literal_def key colon skip_text kv(1) skip_plain json_ws_def set)
  next
    case (Cons g gs)
    let ?rest = "join '','' (map member_text fs) @ CHR 0x7D # r"
    have shape: "join '','' (map member_text (f # fs)) @ CHR 0x7D # r
        = CHR 0x22 # concat (map escape_char k) @ CHR 0x22 # CHR '':'' # JSON_stringify v @ CHR '','' # ?rest"
      by (simp add: Cons f string_literal_def)
    have "pvalue (JSON_stringify v @ CHR '','' # ?rest) = Some (v, CHR '','' # ?rest)"
      using kv(2) ends_plain [of "CHR '',''" ?rest] by simp
    moreover have "skip ?rest = ?rest"
      using Cons by (cases gs; cases g) (simp_all add: string_literal_def skip_plain json_ws_def)
    moreover have "pmembers (acc @ [(k, v)]) ?rest = Some (JObj (acc @ f # fs), r)"
      using Cons.IH [of "acc @ [(k, v)]"] Cons.prems Cons by (simp add: f)
    ultimately show ?thesis
      unfolding shape by (simp add: key colon skip_text kv(1) skip_plain json_ws_def set)
  qed
qed simp

lemma exact_reads: "exact v \<Longrightarrow> reads v"
proof (induction v rule: JSON_stringify.induct)
  case (3 q)
  then have q: "q = of_int (fst (quotient_of q))" using exact_int by simp
  obtain i where i: "q = of_int i" using q by blast
  obtain d t where d: "nat_string (nat i) = digit_char d # t" "d < 10" using nat_string_digit by blast
  have "digit_char d \<noteq> CHR 0x22" "digit_char d \<noteq> CHR 0x7B" "digit_char d \<noteq> CHR 0x5B" "digit_char d \<noteq> CHR ''t''"
    "digit_char d \<noteq> CHR ''f''" "digit_char d \<noteq> CHR ''n''"
    by (rule digit_char_other [OF d(2)], simp add: digit_of_def)+
  then have pos: "pvalue (nat_string (nat i) @ r) = map_option (apfst JNum) (pnumber (nat_string (nat i) @ r))" for r by (simp add: d)
  show ?case
    using pos pnumber_nat [of _ "nat i"] pnumber_neg [of _ "nat (- i)"]
    by (auto simp: i number_string_int int_string_def)
next
  case (4 s)
  then show ?case by (simp add: string_literal_def pstring_literal)
next
  case (5 vs)
  then have vs: "\<forall>v \<in> set vs. exact v \<and> reads v" by auto
  show ?case
  proof (cases vs)
    case Nil
    then show ?thesis by (simp add: skip_plain json_ws_def)
  next
    case (Cons v ws)
    have "skip (join '','' (map JSON_stringify vs) @ CHR 0x5D # r) = join '','' (map JSON_stringify vs) @ CHR 0x5D # r"
      and "hd (join '','' (map JSON_stringify vs) @ CHR 0x5D # r) \<noteq> CHR 0x5D" for r
      using vs Cons text_start [of v] by (cases ws; force simp: skip_def)+
    then show ?thesis using items_read [of vs "[]"] vs Cons by simp
  qed
next
  case (6 fs)
  then have fs: "\<forall>(k, v) \<in> set fs. exact v \<and> reads v" "distinct (map fst fs)" by fastforce+
  show ?case
  proof (cases fs)
    case Nil
    then show ?thesis by (simp add: skip_plain json_ws_def)
  next
    case (Cons f gs)
    have "skip (join '','' (map member_text fs) @ CHR 0x7D # r) = join '','' (map member_text fs) @ CHR 0x7D # r"
      and "hd (join '','' (map member_text fs) @ CHR 0x7D # r) \<noteq> CHR 0x7D" for r
      using Cons by (cases gs; cases f; simp add: string_literal_def skip_plain json_ws_def)+
    then show ?thesis using members_read [of fs "[]"] fs Cons by simp
  qed
qed (simp_all add: literal_def startsWith_def)

lemma JSON_roundtrip: "exact v \<Longrightarrow> JSON_parse (JSON_stringify v) = Some v"
  using exact_reads [of v, THEN spec, of "[]"] skip_text [of v "[]"] by (simp add: JSON_parse_def ends_number_def) (simp add: skip_def)

end
