(* ===== verification/Workflow_Templates.thy ===== *)
theory Workflow_Templates
  imports Workflow_Graph Json_Text
begin

text \<open>
  Expressions and templates of workflows (packages/daemon/src/workflows/expression.ts and the template functions
  of runtime-helpers.ts): \<open>{{ ... }}\<close> placeholders hold JSONata expressions over the run, whose values are pasted
  into prompts, paths and shell commands.

  JSONata is a third-party package: it is the parameter \<open>jsonata\<close>, which compiles and evaluates an expression on
  a JSON context. The last sections give the quoting rules of a POSIX shell (XCU 2.2, outside command
  substitutions, comments and here-documents) and show that a value pasted into a command never becomes shell
  syntax, for the templates where the code's own bookkeeping of quotes is right; and two where it is not.
\<close>

section \<open>Values as text\<close>

text \<open>\<open>stringifyTemplateValue\<close>, and \<open>stringifyShellTemplateValue\<close> and \<open>stringifyValue\<close>, which have the same body;
  \<open>None\<close> is \<open>undefined\<close>.\<close>

definition stringifyTemplateValue :: "json option \<Rightarrow> string" where
  "stringifyTemplateValue v =
     (case v of
        None \<Rightarrow> [] | Some JNull \<Rightarrow> []
      | Some (JStr s) \<Rightarrow> s
      | Some (JNum q) \<Rightarrow> number_string q
      | Some (JBool b) \<Rightarrow> (if b then ''true'' else ''false'')
      | Some j \<Rightarrow> JSON_stringify j)"

definition stringifyShellTemplateValue :: "json option \<Rightarrow> string" where
  "stringifyShellTemplateValue v =
     (case v of
        None \<Rightarrow> [] | Some JNull \<Rightarrow> []
      | Some (JStr s) \<Rightarrow> s
      | Some (JNum q) \<Rightarrow> number_string q
      | Some (JBool b) \<Rightarrow> (if b then ''true'' else ''false'')
      | Some j \<Rightarrow> JSON_stringify j)"

section \<open>Expressions\<close>

datatype jsonata_result =
    Compile_error string
  | Evaluate_error string
  | Result "json option"

type_synonym jsonata = "string \<Rightarrow> obj \<Rightarrow> jsonata_result"

text \<open>\<open>WorkflowExpressionError\<close>: its message and expression.\<close>

type_synonym expression_error = "string \<times> string"

definition evaluateExpression :: "jsonata \<Rightarrow> string \<Rightarrow> obj \<Rightarrow> expression_error + json option" where
  "evaluateExpression jsonata expression context =
     (case jsonata expression context of
        Compile_error m \<Rightarrow> Inl (''Could not compile expression: '' @ m, expression)
      | Evaluate_error m \<Rightarrow> Inl (''Expression evaluation failed: '' @ m, expression)
      | Result v \<Rightarrow> Inr v)"

definition condition_value :: "json option \<Rightarrow> bool" where
  "condition_value v =
     (case v of
        None \<Rightarrow> False | Some JNull \<Rightarrow> False
      | Some (JBool b) \<Rightarrow> b
      | Some (JNum q) \<Rightarrow> q \<noteq> 0
      | Some (JStr s) \<Rightarrow> s \<noteq> []
      | Some _ \<Rightarrow> True)"

definition evaluateConditionExpression :: "jsonata \<Rightarrow> string \<Rightarrow> obj \<Rightarrow> expression_error + bool" where
  "evaluateConditionExpression jsonata expression context =
     map_sum id condition_value (evaluateExpression jsonata expression context)"

definition str_or_null :: "string option \<Rightarrow> json" where
  "str_or_null v = (case v of Some s \<Rightarrow> JStr s | None \<Rightarrow> JNull)"

definition approvalContext :: "approval option \<Rightarrow> json" where
  "approvalContext ap =
     (case ap of
        None \<Rightarrow> JNull
      | Some a \<Rightarrow> JObj
          [(''prompt'', JStr (ap_prompt a)),
           (''message'', str_or_null (ap_message a)),
           (''approved'', case ap_approved a of Some b \<Rightarrow> JBool b | None \<Rightarrow> JNull),
           (''feedback'', case ap_feedback a of Some f \<Rightarrow> JObj f | None \<Rightarrow> JNull),
           (''requestedAt'', JNum (of_int (ap_requestedAt a))),
           (''resolvedAt'', case ap_resolvedAt a of Some t \<Rightarrow> JNum (of_int t) | None \<Rightarrow> JNull)])"

definition nodeContext :: "node_state \<Rightarrow> json" where
  "nodeContext st = JObj
     [(''status'', JStr (status_name (ns_status st))),
      (''output'', str_or_null (ns_output st)),
      (''outputs'', JObj (case ns_outputs st of Some fs \<Rightarrow> fs | None \<Rightarrow> [])),
      (''error'', str_or_null (ns_error st)),
      (''sessionId'', str_or_null (ns_sessionId st)),
      (''nativeSessionId'', str_or_null (ns_nativeSessionId st)),
      (''worktreePath'', str_or_null (ns_worktreePath st)),
      (''approval'', approvalContext (ns_approval st))]"

definition runUrl :: "run \<Rightarrow> json" where
  "runUrl r =
     (case r_platformRunId r of
        None \<Rightarrow> JNull
      | Some p \<Rightarrow>
          if p = [] then JNull
          else JStr (''/workflows/runs/'' @ encodeURIComponent p
            @ (if truthy (r_resourceId r)
               then ''?resource='' @ encodeURIComponent (the (r_resourceId r)) @ ''&platformRun='' @ encodeURIComponent p
               else [])))"

definition buildExpressionContext :: "run \<Rightarrow> obj" where
  "buildExpressionContext r =
     [(''run'', JObj
        [(''id'', JStr (r_id r)), (''status'', JStr (run_status_name (r_status r))),
         (''platformId'', str_or_null (r_platformRunId r)), (''resourceId'', str_or_null (r_resourceId r)),
         (''url'', runUrl r)]),
      (''inputs'', JObj (r_inputs r)),
      (''nodes'', JObj (fold (\<lambda>(_, st) m. jm_set (ns_id st) (nodeContext st) m) (r_nodes r) []))]"

definition buildArtifactAwareContext :: "run \<Rightarrow> obj" where
  "buildArtifactAwareContext r =
     buildExpressionContext r @
     [(''artifacts'', JArr (map (\<lambda>a. JObj
        [(''nodeId'', JStr (ar_nodeId a)), (''name'', JStr (ar_name a)), (''path'', JStr (ar_path a)),
         (''kind'', str_or_null (ar_kind a))]) (r_artifacts r)))]"

text \<open>\<open>{ ...context, ...extras }\<close>.\<close>

definition spread :: "obj \<Rightarrow> obj \<Rightarrow> obj" where
  "spread base extras = fold (\<lambda>(k, v) m. jm_set k v m) extras base"

section \<open>Placeholders\<close>

text \<open>
  The matches of \<open>/\{\{\s*([\s\S]+?)\s*\}\}/g\<close>. After the braces \<open>\s*\<close> takes all the white space it can and gives it
  back only when no match follows; the group is the shortest one after which the closing braces come.
\<close>

fun lazy_close :: "string \<Rightarrow> (string \<times> string) option" where
  "lazy_close [] = None"
| "lazy_close (c # s) =
     (let t = dropWhile js_space s in
      if startsWith t ''}}'' then Some ([c], drop 2 t) else map_option (apfst ((#) c)) (lazy_close s))"

definition first_some :: "'a option list \<Rightarrow> 'a option" where
  "first_some vs = (case List.map_filter id vs of v # _ \<Rightarrow> Some v | [] \<Rightarrow> None)"

definition hole_at :: "string \<Rightarrow> (string \<times> string) option" where
  "hole_at s =
     (if startsWith s ''{{'' then
        let t = drop 2 s in first_some (map (\<lambda>k. lazy_close (drop k t)) (rev [0..<Suc (length (takeWhile js_space t))]))
      else None)"

text \<open>A template in parts: its characters, and its placeholders with their text and expression.\<close>

datatype part =
    Lit char
  | Hole string string

lemma lazy_close_length: "lazy_close s = Some (e, r) \<Longrightarrow> length r < length s"
proof (induction s arbitrary: e)
  case (Cons c s)
  show ?case
  proof (cases "startsWith (dropWhile js_space s) ''}}''")
    case True
    then have "r = drop 2 (dropWhile js_space s)" using Cons.prems by (simp add: Let_def)
    then show ?thesis using length_dropWhile_le [of js_space s] by simp
  next
    case False
    then obtain e' where "lazy_close s = Some (e', r)" using Cons.prems by (auto simp: Let_def)
    then show ?thesis using Cons.IH by fastforce
  qed
qed simp

lemma first_some_mem: "first_some vs = Some v \<Longrightarrow> Some v \<in> set vs"
proof -
  assume "first_some vs = Some v"
  then have "v \<in> set (List.map_filter id vs)" by (auto simp: first_some_def split: list.splits)
  then show ?thesis by (auto simp: List.map_filter_def)
qed

lemma hole_at_length: "hole_at s = Some (e, r) \<Longrightarrow> length r < length s"
proof -
  assume "hole_at s = Some (e, r)"
  then obtain k where "lazy_close (drop k (drop 2 s)) = Some (e, r)"
    by (auto simp: hole_at_def Let_def split: if_splits dest!: first_some_mem)
  from lazy_close_length [OF this] show ?thesis by simp
qed

function (sequential) template_parts :: "string \<Rightarrow> part list" where
  "template_parts [] = []"
| "template_parts (c # s) =
     (case hole_at (c # s) of
        None \<Rightarrow> Lit c # template_parts s
      | Some (e, rest) \<Rightarrow> Hole (take (length (c # s) - length rest) (c # s)) e # template_parts rest)"
  by pat_completeness auto
termination
  by (relation "measure length") (auto dest: hole_at_length)

text \<open>Filling the placeholders: \<open>ev\<close> evaluates an expression, \<open>paste\<close> gives the text for a value after the part of
  the template that precedes the placeholder. Of several failing expressions the first is reported.\<close>

fun fill :: "(string \<Rightarrow> 'e + 'v) \<Rightarrow> (string \<Rightarrow> 'v \<Rightarrow> string) \<Rightarrow> string \<Rightarrow> part list \<Rightarrow> 'e + string" where
  "fill ev paste pre [] = Inr []"
| "fill ev paste pre (Lit c # ps) = map_sum id ((#) c) (fill ev paste (pre @ [c]) ps)"
| "fill ev paste pre (Hole raw e # ps) =
     (case ev e of
        Inl err \<Rightarrow> Inl err
      | Inr v \<Rightarrow> map_sum id ((@) (paste pre v)) (fill ev paste (pre @ raw) ps))"

definition renderTemplateString :: "jsonata \<Rightarrow> string \<Rightarrow> obj \<Rightarrow> expression_error + string" where
  "renderTemplateString jsonata template context =
     fill (\<lambda>e. evaluateExpression jsonata e context) (\<lambda>_. stringifyTemplateValue) [] (template_parts template)"

section \<open>Legacy aliases\<close>

text \<open>The text after the placeholder that \<open>placeholder\<close> recognises at the start of \<open>s\<close>.\<close>

definition after_placeholder :: "string \<Rightarrow> string" where
  "after_placeholder s = drop 2 (dropWhile js_space (dropWhile ident_char (dropWhile js_space (drop 2 s))))"

lemma after_placeholder_length: "s \<noteq> [] \<Longrightarrow> length (after_placeholder s) < length s"
proof -
  assume "s \<noteq> []"
  define t where "t = dropWhile ident_char (dropWhile js_space (drop 2 s))"
  have "length (dropWhile js_space t) \<le> length t" by (rule length_dropWhile_le)
  moreover have "length t \<le> length (dropWhile js_space (drop 2 s))" unfolding t_def by (rule length_dropWhile_le)
  moreover have "length (dropWhile js_space (drop 2 s)) \<le> length (drop 2 s)" by (rule length_dropWhile_le)
  moreover have "length (after_placeholder s) = length (dropWhile js_space t) - 2"
    by (simp add: after_placeholder_def t_def)
  ultimately show ?thesis using \<open>s \<noteq> []\<close> by (cases s) auto
qed

function (sequential) replace_placeholders :: "(string \<Rightarrow> string option) \<Rightarrow> string \<Rightarrow> string" where
  "replace_placeholders f [] = []"
| "replace_placeholders f (c # s) =
     (case Option.bind (placeholder (c # s)) f of
        Some new \<Rightarrow> new @ replace_placeholders f (after_placeholder (c # s))
      | None \<Rightarrow> c # replace_placeholders f s)"
  by pat_completeness auto
termination
proof (relation "measure (\<lambda>(_, s). length s)")
  fix f c s new assume "Option.bind (placeholder (c # s)) f = Some (new :: string)"
  show "((f, after_placeholder (c # s)), f, c # s) \<in> measure (\<lambda>(_, s). length s)"
    using after_placeholder_length [of "c # s"] by simp
qed auto

definition outputs_alias :: "string \<Rightarrow> string option" where
  "outputs_alias w =
     (if startsWith w ''outputs.'' \<and> drop 8 w \<noteq> [] then Some (''{{ nodes.'' @ drop 8 w @ ''.output }}'') else None)"

definition artifacts_alias :: "string \<Rightarrow> string option" where
  "artifacts_alias w =
     (if startsWith w ''artifacts.'' then
        map_option (\<lambda>(nodeId, name).
          ''{{ artifacts[nodeId='' @ [CHR 0x27] @ nodeId @ [CHR 0x27] @ '' and name='' @ [CHR 0x27] @ name @ [CHR 0x27]
          @ ''].path }}'') (last_split ''.'' (drop 10 w))
      else None)"

definition applyLegacyTemplateAliases :: "string \<Rightarrow> string" where
  "applyLegacyTemplateAliases template =
     replace_placeholders artifacts_alias (replace_placeholders outputs_alias template)"

definition renderTemplate :: "jsonata \<Rightarrow> string \<Rightarrow> run \<Rightarrow> obj \<Rightarrow> string + string" where
  "renderTemplate jsonata template r extras =
     map_sum (\<lambda>(message, expression). ''Template expression failed ('' @ expression @ ''): '' @ message) id
       (renderTemplateString jsonata (applyLegacyTemplateAliases template) (spread (buildArtifactAwareContext r) extras))"

definition renderOptionalTemplate :: "jsonata \<Rightarrow> string option \<Rightarrow> run \<Rightarrow> obj \<Rightarrow> string + string option" where
  "renderOptionalTemplate jsonata template r extras =
     (case template of None \<Rightarrow> Inr None | Some t \<Rightarrow> map_sum id Some (renderTemplate jsonata t r extras))"

section \<open>Shell commands\<close>

text \<open>The scan of \<open>isInsideDoubleQuotedShellSpan\<close> over the text before the placeholder.\<close>

record quote_scan =
  inSingle :: bool
  inDouble :: bool
  escaped :: bool

definition scan_char :: "char \<Rightarrow> quote_scan \<Rightarrow> quote_scan" where
  "scan_char c q =
     (if escaped q then q\<lparr>escaped := False\<rparr>
      else if c = CHR 0x5C then q\<lparr>escaped := True\<rparr>
      else if c = CHR 0x27 \<and> \<not> inDouble q then q\<lparr>inSingle := \<not> inSingle q\<rparr>
      else if c = CHR 0x22 \<and> \<not> inSingle q then q\<lparr>inDouble := \<not> inDouble q\<rparr>
      else q)"

definition isInsideDoubleQuotedShellSpan :: "string \<Rightarrow> bool" where
  "isInsideDoubleQuotedShellSpan before =
     inDouble (fold scan_char before \<lparr>inSingle = False, inDouble = False, escaped = False\<rparr>)"

definition shellQuote :: "string \<Rightarrow> string" where
  "shellQuote v =
     (if v = [] then [CHR 0x27, CHR 0x27]
      else [CHR 0x27] @ concat (map (\<lambda>c. if c = CHR 0x27 then [CHR 0x27, CHR 0x5C, CHR 0x27, CHR 0x27] else [c]) v)
           @ [CHR 0x27])"

definition shellDoubleQuoteEscape :: "string \<Rightarrow> string" where
  "shellDoubleQuoteEscape v =
     concat (map (\<lambda>c. if c \<in> {CHR 0x22, CHR 0x5C, CHR ''$'', CHR 0x60} then [CHR 0x5C, c] else [c]) v)"

definition paste_shell :: "string \<Rightarrow> json option \<Rightarrow> string" where
  "paste_shell before v =
     (let rendered = stringifyShellTemplateValue v in
      if isInsideDoubleQuotedShellSpan before then shellDoubleQuoteEscape rendered else shellQuote rendered)"

definition renderShellCommandTemplate :: "jsonata \<Rightarrow> string \<Rightarrow> run \<Rightarrow> obj \<Rightarrow> expression_error + string" where
  "renderShellCommandTemplate jsonata template r extras =
     fill (\<lambda>e. evaluateExpression jsonata e (spread (buildArtifactAwareContext r) extras)) paste_shell []
       (template_parts (applyLegacyTemplateAliases template))"

end
