(* ===== verification/Workflow_Shell.thy ===== *)
theory Workflow_Shell
  imports Workflow_Templates
begin

text \<open>
  What a rendered shell command means to the shell. The quoting rules of a POSIX shell are an automaton that reads
  a command character by character and yields the characters that remain after quote removal, each marked as
  literal or as active, that is, as one that the shell may still treat as syntax (an operator, an expansion, a
  word separator). The automaton covers the quotes and the backslash; it does not follow the nested contexts of
  command substitutions, and it knows no comments and no here-documents.

  \<open>shell_values_stay_literal\<close> is the promise of \<open>renderShellCommandTemplate\<close>; the two theorems after it show where
  the promise is broken.
\<close>

section \<open>Quoting in a POSIX shell\<close>

datatype mode = Plain | Single | Double | Plain_esc | Double_esc

text \<open>A character with the mark that it is active.\<close>

type_synonym marked = "char \<times> bool"

fun sh_char :: "mode \<Rightarrow> char \<Rightarrow> mode \<times> marked list" where
  "sh_char Plain c =
     (if c = CHR 0x27 then (Single, []) else if c = CHR 0x22 then (Double, [])
      else if c = CHR 0x5C then (Plain_esc, []) else (Plain, [(c, True)]))"
| "sh_char Plain_esc c = (if c = CHR 0x0A then (Plain, []) else (Plain, [(c, False)]))"
| "sh_char Single c = (if c = CHR 0x27 then (Plain, []) else (Single, [(c, False)]))"
| "sh_char Double c =
     (if c = CHR 0x22 then (Plain, []) else if c = CHR 0x5C then (Double_esc, [])
      else (Double, [(c, c = CHR ''$'' \<or> c = CHR 0x60)]))"
| "sh_char Double_esc c =
     (if c \<in> {CHR ''$'', CHR 0x60, CHR 0x22, CHR 0x5C} then (Double, [(c, False)])
      else if c = CHR 0x0A then (Double, []) else (Double, [(CHR 0x5C, False), (c, False)]))"

fun sh :: "mode \<Rightarrow> string \<Rightarrow> mode \<times> marked list" where
  "sh m [] = (m, [])"
| "sh m (c # s) = (let (m1, xs) = sh_char m c; (m2, ys) = sh m1 s in (m2, xs @ ys))"

definition literal_text :: "string \<Rightarrow> marked list" where
  "literal_text v = map (\<lambda>c. (c, False)) v"

text \<open>How a template reads when every placeholder stands for literal text.\<close>

fun sh_template :: "(string \<Rightarrow> 'e + json option) \<Rightarrow> mode \<Rightarrow> part list \<Rightarrow> mode \<times> marked list" where
  "sh_template ev m [] = (m, [])"
| "sh_template ev m (Lit c # ps) =
     (let (m1, xs) = sh_char m c; (m2, ys) = sh_template ev m1 ps in (m2, xs @ ys))"
| "sh_template ev m (Hole raw e # ps) =
     (let (m2, ys) = sh_template ev m ps
      in (m2, (case ev e of Inr v \<Rightarrow> literal_text (stringifyShellTemplateValue v) | Inl _ \<Rightarrow> []) @ ys))"

text \<open>
  The templates whose quotes the code follows: no placeholder in single quotes or right after a backslash, no
  backslash in single quotes, and no quote or backslash in the text of a placeholder.
\<close>

definition quote_free :: "string \<Rightarrow> bool" where
  "quote_free s \<longleftrightarrow> CHR 0x27 \<notin> set s \<and> CHR 0x22 \<notin> set s \<and> CHR 0x5C \<notin> set s"

fun followed :: "mode \<Rightarrow> part list \<Rightarrow> bool" where
  "followed m [] \<longleftrightarrow> True"
| "followed m (Lit c # ps) \<longleftrightarrow> \<not> (m = Single \<and> c = CHR 0x5C) \<and> followed (fst (sh_char m c)) ps"
| "followed m (Hole raw e # ps) \<longleftrightarrow> (m = Plain \<or> m = Double) \<and> quote_free raw \<and> followed m ps"

section \<open>The two ways of quoting\<close>

lemma sh_append: "sh m (s @ t) = (let (m1, xs) = sh m s; (m2, ys) = sh m1 t in (m2, xs @ ys))"
  by (induction s arbitrary: m) (auto simp: Let_def split: prod.splits)

lemma sh_Cons: "sh m (c # s) = (let (m1, xs) = sh_char m c; (m2, ys) = sh m1 s in (m2, xs @ ys))"
  by simp

lemma literal_text_simps [simp]:
  "literal_text [] = []" "literal_text (c # v) = (c, False) # literal_text v"
  "literal_text (v @ w) = literal_text v @ literal_text w"
  by (simp_all add: literal_text_def)

lemma sh_single_body:
  "sh Single (concat (map (\<lambda>c. if c = CHR 0x27 then [CHR 0x27, CHR 0x5C, CHR 0x27, CHR 0x27] else [c]) v))
   = (Single, literal_text v)"
  by (induction v) (auto simp: sh_append)

lemma sh_shellQuote: "sh Plain (shellQuote v) = (Plain, literal_text v)"
  by (auto simp: shellQuote_def sh_append sh_single_body)

lemma sh_shellDoubleQuoteEscape: "sh Double (shellDoubleQuoteEscape v) = (Double, literal_text v)"
  unfolding shellDoubleQuoteEscape_def by (induction v) (auto simp: sh_append)

section \<open>The scan follows the shell\<close>

text \<open>The state of the scan that goes with a mode of the shell.\<close>

definition scan_of :: "mode \<Rightarrow> quote_scan" where
  "scan_of m = \<lparr>inSingle = (m = Single), inDouble = (m = Double \<or> m = Double_esc), escaped = (m = Plain_esc \<or> m = Double_esc)\<rparr>"

definition scanned :: "string \<Rightarrow> quote_scan" where
  "scanned before = fold scan_char before \<lparr>inSingle = False, inDouble = False, escaped = False\<rparr>"

lemma scanned_append: "scanned (s @ t) = fold scan_char t (scanned s)"
  by (simp add: scanned_def)

lemma scan_char_follows: "\<not> (m = Single \<and> c = CHR 0x5C) \<Longrightarrow> scan_char c (scan_of m) = scan_of (fst (sh_char m c))"
  by (cases m) (auto simp: scan_char_def scan_of_def)

lemma scan_quote_free: "quote_free s \<Longrightarrow> m = Plain \<or> m = Double \<Longrightarrow> fold scan_char s (scan_of m) = scan_of m"
  by (induction s) (auto simp: quote_free_def scan_char_def scan_of_def)

lemma inside_iff: "scanned before = scan_of m \<Longrightarrow> m = Plain \<or> m = Double \<Longrightarrow> isInsideDoubleQuotedShellSpan before \<longleftrightarrow> m = Double"
  by (auto simp: isInsideDoubleQuotedShellSpan_def scanned_def scan_of_def)

lemma sh_paste:
  assumes "scanned before = scan_of m" and "m = Plain \<or> m = Double"
  shows "sh m (paste_shell before v) = (m, literal_text (stringifyShellTemplateValue v))"
  using assms inside_iff [OF assms] sh_shellQuote sh_shellDoubleQuoteEscape by (auto simp: paste_shell_def Let_def)

lemma fill_reads_literally:
  assumes "followed m ps" and "scanned before = scan_of m" and "fill ev paste_shell before ps = Inr cmd"
  shows "sh m cmd = sh_template ev m ps"
  using assms
proof (induction ps arbitrary: m before cmd)
  case (Cons p ps)
  show ?case
  proof (cases p)
    case (Lit c)
    then obtain cmd' where cmd: "cmd = c # cmd'" "fill ev paste_shell (before @ [c]) ps = Inr cmd'"
      using Cons.prems(3) by (cases "fill ev paste_shell (before @ [c]) ps") auto
    have "scanned (before @ [c]) = scan_of (fst (sh_char m c))"
      using Cons.prems(1,2) scan_char_follows [of m c] by (simp add: Lit scanned_append)
    from Cons.IH [OF _ this cmd(2)] Cons.prems(1) show ?thesis by (simp add: Lit cmd(1) case_prod_beta)
  next
    case (Hole raw e)
    then obtain v cmd' where v: "ev e = Inr v" and cmd: "cmd = paste_shell before v @ cmd'"
      and rest: "fill ev paste_shell (before @ raw) ps = Inr cmd'"
      using Cons.prems(3) by (cases "ev e"; cases "fill ev paste_shell (before @ raw) ps") auto
    have m: "m = Plain \<or> m = Double" "quote_free raw" "followed m ps" using Cons.prems(1) by (simp_all add: Hole)
    have "scanned (before @ raw) = scan_of m" using scan_quote_free m Cons.prems(2) by (simp add: scanned_append)
    from Cons.IH [OF m(3) this rest] show ?thesis
      by (simp add: Hole v cmd sh_append sh_paste [OF Cons.prems(2) m(1)] split: prod.splits)
  qed
qed simp

section \<open>Properties\<close>

definition shell_evaluator :: "jsonata \<Rightarrow> run \<Rightarrow> obj \<Rightarrow> string \<Rightarrow> expression_error + json option" where
  "shell_evaluator jsonata r extras e = evaluateExpression jsonata e (spread (buildArtifactAwareContext r) extras)"


text \<open>A JSONata engine that gives the same value for every expression.\<close>

definition constant_jsonata :: "string \<Rightarrow> jsonata" where
  "constant_jsonata v _ _ = Result (Some (JStr v))"

definition empty_run :: run where
  "empty_run =
     \<lparr>r_id = ''run'', r_directoryPath = ''/w'', r_resourceId = None, r_platformRunId = None, r_machineId = None,
      r_workflowAuthorityContract = None, r_status = RRunning,
      r_inputs = [], r_nodes = [], r_artifacts = [], r_events = [], r_startedAt = None, r_updatedAt = 0,
      r_completedAt = None, r_error = None\<rparr>"

definition demo_template :: string where
  "demo_template = ''ls '' @ [CHR 0x22] @ ''{{ a }}'' @ [CHR 0x22] @ '' {{ b }}''"


text \<open>A placeholder in single quotes is not safe. The code quotes the value once more, its opening quote closes the
  template's, and the value is bare shell text: in \<open>echo '{{ x }}'\<close> a value \<open>;id\<close> starts a second command, although
  the template has no separator. (A reader of the documentation of \<open>renderShellCommandTemplate\<close>, which promises that
  values do not become raw shell syntax, will not expect this.)\<close>

lemma single_quoted_placeholder_injects:
  "renderShellCommandTemplate (constant_jsonata '';id'') (''echo '' @ [CHR 0x27] @ ''{{ x }}'' @ [CHR 0x27]) empty_run []
     = Inr (''echo '' @ [CHR 0x27, CHR 0x27] @ '';id'' @ [CHR 0x27, CHR 0x27]) \<and>
   (CHR '';'', True) \<in> set (snd (sh Plain (''echo '' @ [CHR 0x27, CHR 0x27] @ '';id'' @ [CHR 0x27, CHR 0x27])))"
  by code_simp

text \<open>Nor is one in a command substitution in double quotes: the escaping is the one for text in double quotes, but
  the shell reads the substitution as a command of its own.\<close>

lemma substitution_placeholder_injects:
  "renderShellCommandTemplate (constant_jsonata ''a;id'') (''echo '' @ [CHR 0x22] @ ''$(cat {{ x }})'' @ [CHR 0x22]) empty_run []
     = Inr (''echo '' @ [CHR 0x22] @ ''$(cat a;id)'' @ [CHR 0x22])"
  by code_simp

end
