(* ===== verification/Dates.thy ===== *)
theory Dates
  imports Prelude
begin

text \<open>
  Points in time as JavaScript's \<open>Date\<close> has them, milliseconds since 1970, and their text.
\<close>

text \<open>\<open>new Date(t).toISOString()\<close>: the proleptic Gregorian calendar, and a \<open>RangeError\<close> outside of \<open>Date\<close>'s range.\<close>

definition civil :: "int \<Rightarrow> int \<times> int \<times> int" where
  "civil days =
     (let z = days + 719468; era = z div 146097; doe = z mod 146097;
          yoe = (doe - doe div 1460 + doe div 36524 - doe div 146096) div 365;
          doy = doe - (365 * yoe + yoe div 4 - yoe div 100);
          mp = (5 * doy + 2) div 153;
          d = doy - (153 * mp + 2) div 5 + 1;
          m = (if mp < 10 then mp + 3 else mp - 9)
      in (yoe + era * 400 + (if m \<le> 2 then 1 else 0), m, d))"

definition pad :: "nat \<Rightarrow> int \<Rightarrow> string" where
  "pad k i = zero_pad k (nat_string (nat i))"

definition toISOString :: "int \<Rightarrow> string option" where
  "toISOString t =
     (if \<bar>t\<bar> > 8640000000000000 then None
      else
        let (y, m, d) = civil (t div 86400000); ms = t mod 86400000;
            year = (if 0 \<le> y \<and> y \<le> 9999 then pad 4 y else if y < 0 then ''-'' @ pad 6 (- y) else ''+'' @ pad 6 y)
        in Some (year @ ''-'' @ pad 2 m @ ''-'' @ pad 2 d @ ''T'' @ pad 2 (ms div 3600000) @ '':''
                 @ pad 2 (ms div 60000 mod 60) @ '':'' @ pad 2 (ms div 1000 mod 60) @ ''.'' @ pad 3 (ms mod 1000) @ ''Z''))"

definition invalid_time :: string where
  "invalid_time = ''Invalid time value''"

end
