(* ===== verification/Workflow_Rules.thy ===== *)
theory Workflow_Rules
  imports Workflow_Graph
begin

text \<open>
  The rules by which the workflow scheduler decides (packages/daemon/src/workflows/trigger-rule.ts,
  retry-classifier.ts and \<open>findReadyNodeIds\<close> of runner-shared.ts): which nodes are ready, whether a ready node
  may run given the outcome of its parents, and whether a failed attempt is repeated.
\<close>

section \<open>Trigger rules\<close>

record trigger_evaluation =
  te_ready :: bool
  te_reason :: "string option"

definition trigger_prefix :: string where
  "trigger_prefix = ''triggerRule=''"

definition evaluateTriggerRule :: "trigger_rule option \<Rightarrow> node_state list \<Rightarrow> trigger_evaluation" where
  "evaluateTriggerRule rule parents =
     (let effective = (case rule of Some t \<Rightarrow> t | None \<Rightarrow> All_success);
          successes = length (filter (\<lambda>p. ns_status p = Completed) parents);
          terminals = length (filter (\<lambda>p. isTerminalNodeStatus (ns_status p)) parents);
          ok = \<lparr>te_ready = True, te_reason = None\<rparr>
      in if parents = [] then ok
         else case effective of
           All_success \<Rightarrow>
             if successes = length parents then ok
             else (case find (\<lambda>p. ns_status p \<noteq> Completed) parents of
                     Some p \<Rightarrow> \<lparr>te_ready = False,
                       te_reason = Some (trigger_prefix @ ''all_success: parent '' @ ns_id p @ '' is '' @ status_name (ns_status p))\<rparr>
                   | None \<Rightarrow> \<lparr>te_ready = False,
                       te_reason = Some (trigger_prefix @ ''all_success: parent unknown is not completed'')\<rparr>)
         | All_done \<Rightarrow>
             if terminals = length parents then ok
             else \<lparr>te_ready = False, te_reason = Some (trigger_prefix @ ''all_done: not all parents reached a terminal state'')\<rparr>
         | One_success \<Rightarrow>
             if successes \<ge> 1 then ok
             else \<lparr>te_ready = False, te_reason = Some (trigger_prefix @ ''one_success: no parent reached completed'')\<rparr>)"

definition isTriggerSkipReason :: "string option \<Rightarrow> bool" where
  "isTriggerSkipReason reason \<longleftrightarrow> (case reason of Some s \<Rightarrow> startsWith s trigger_prefix | None \<Rightarrow> False)"

definition getNodeParents :: "run \<Rightarrow> string list option \<Rightarrow> node_state list" where
  "getNodeParents r wanted =
     (case wanted of
        None \<Rightarrow> []
      | Some ds \<Rightarrow> if ds = [] then [] else List.map_filter (jm_get (r_nodes r)) ds)"

section \<open>Ready nodes\<close>

definition needs_terminal :: "run \<Rightarrow> node \<Rightarrow> bool" where
  "needs_terminal r n \<longleftrightarrow>
     (\<forall>d \<in> set (needs n). case jm_get (r_nodes r) d of Some p \<Rightarrow> isTerminalNodeStatus (ns_status p) | None \<Rightarrow> True)"

definition is_ready :: "run \<Rightarrow> string \<times> node \<Rightarrow> bool" where
  "is_ready r e \<longleftrightarrow>
     (case jm_get (r_nodes r) (fst e) of
        None \<Rightarrow> False
      | Some st \<Rightarrow> ns_status st = Queued \<and> needs_terminal r (snd e))"

definition findReadyNodeIds :: "run \<Rightarrow> definition_nodes \<Rightarrow> string list" where
  "findReadyNodeIds r nodes = map fst (filter (is_ready r) nodes)"

section \<open>Retries\<close>

datatype retry_decision = Retry | Fatal

definition mentions :: "string \<Rightarrow> string list \<Rightarrow> bool" where
  "mentions lower patterns \<longleftrightarrow> (\<exists>p \<in> set patterns. str_includes lower (toLowerCase p))"

definition classifyRetry :: "string \<Rightarrow> retry_policy option \<Rightarrow> retry_decision" where
  "classifyRetry message policy =
     (case policy of
        None \<Rightarrow> Fatal
      | Some p \<Rightarrow>
          let lower = toLowerCase message in
          if (case fatal p of Some ps \<Rightarrow> mentions lower ps | None \<Rightarrow> False) then Fatal
          else (case transient p of
                  Some ps \<Rightarrow> if mentions lower ps then Retry else Fatal
                | None \<Rightarrow> Retry))"

section \<open>Facts\<close>

lemma startsWith_prefix [simp]: "startsWith (p @ s) p"
  by (simp add: startsWith_def)

lemma all_filter: "length (filter P xs) = length xs \<longleftrightarrow> (\<forall>x \<in> set xs. P x)"
  by (metis filter_id_conv length_filter_less less_irrefl)

text \<open>A rule that is not satisfied always gives a reason to skip.\<close>

lemma trigger_not_ready:
  "\<not> te_ready (evaluateTriggerRule rule parents) \<Longrightarrow> isTriggerSkipReason (te_reason (evaluateTriggerRule rule parents))"
  by (auto simp: evaluateTriggerRule_def Let_def isTriggerSkipReason_def
      split: trigger_rule.splits option.splits if_splits)

lemma trigger_ready_reason: "te_ready (evaluateTriggerRule rule parents) \<Longrightarrow> te_reason (evaluateTriggerRule rule parents) = None"
  by (auto simp: evaluateTriggerRule_def Let_def split: trigger_rule.splits option.splits if_splits)

definition trigger_satisfied :: "trigger_rule option \<Rightarrow> node_state list \<Rightarrow> bool" where
  "trigger_satisfied rule parents \<longleftrightarrow>
     (case rule of
        None \<Rightarrow> \<forall>p \<in> set parents. ns_status p = Completed
      | Some All_success \<Rightarrow> \<forall>p \<in> set parents. ns_status p = Completed
      | Some All_done \<Rightarrow> \<forall>p \<in> set parents. isTerminalNodeStatus (ns_status p)
      | Some One_success \<Rightarrow> parents = [] \<or> (\<exists>p \<in> set parents. ns_status p = Completed))"

lemma some_filter: "Suc 0 \<le> length (filter P xs) \<longleftrightarrow> (\<exists>x \<in> set xs. P x)"
  by (simp add: Suc_le_eq filter_empty_conv)

lemma trigger_ready_iff: "te_ready (evaluateTriggerRule rule parents) \<longleftrightarrow> trigger_satisfied rule parents"
  by (auto simp: evaluateTriggerRule_def Let_def trigger_satisfied_def all_filter some_filter
      split: trigger_rule.splits option.splits if_splits)

lemma ready_mem:
  assumes "i \<in> set (findReadyNodeIds r nodes)"
  shows "\<exists>n st. (i, n) \<in> set nodes \<and> jm_get (r_nodes r) i = Some st \<and> ns_status st = Queued \<and> needs_terminal r n"
  using assms by (auto simp: findReadyNodeIds_def is_ready_def split: option.splits)

end
