(* ===== verification/Workflow_Store.thy ===== *)
theory Workflow_Store
  imports Workflow_Types
begin

text \<open>
  The store of workflow runs (packages/daemon/src/workflows/store.ts) and the cancellation of a run
  (runner-canceler.ts). Several parts of the daemon hold copies of one run and save them at their own pace; the
  store merges a saved snapshot with the run on disk. The files are a map from run ids to runs; a save is atomic,
  because the store queues the saves of a run. The round trip through JSON is the identity on the modelled data.
\<close>

section \<open>Merging a snapshot with the stored run\<close>

definition opt_time :: "int option \<Rightarrow> int" where
  "opt_time t = (case t of Some x \<Rightarrow> x | None \<Rightarrow> 0)"

definition shouldPreserveExistingNode :: "node_state \<Rightarrow> node_state \<Rightarrow> bool" where
  "shouldPreserveExistingNode snapshotNode existingNode \<longleftrightarrow>
     (if \<not> isTerminalNodeStatus (ns_status existingNode) then False
      else if ns_status existingNode = Canceled \<and> ns_status snapshotNode \<noteq> Canceled then True
      else if \<not> isTerminalNodeStatus (ns_status snapshotNode) then True
      else opt_time (ns_completedAt existingNode) > opt_time (ns_completedAt snapshotNode))"

definition mergeNode :: "string \<times> node_state \<Rightarrow> (string, node_state) js_map \<Rightarrow> (string, node_state) js_map" where
  "mergeNode e nodes =
     (case jm_get nodes (fst e) of
        None \<Rightarrow> jm_set (fst e) (snd e) nodes
      | Some snapshotNode \<Rightarrow>
          if shouldPreserveExistingNode snapshotNode (snd e) then jm_set (fst e) (snd e) nodes else nodes)"

definition mergeExistingTerminalNodes ::
    "(string, node_state) js_map \<Rightarrow> (string, node_state) js_map \<Rightarrow> (string, node_state) js_map" where
  "mergeExistingTerminalNodes snapshot existing = fold mergeNode existing snapshot"

text \<open>The partial record that \<open>mergeExistingTerminalRun\<close> returns, spread into the result.\<close>

definition keepExistingRun :: "run \<Rightarrow> run \<Rightarrow> bool" where
  "keepExistingRun snapshot existing \<longleftrightarrow>
     (if \<not> isTerminalRunStatus (r_status existing) then False
      else if r_status existing = RCanceled \<and> r_status snapshot \<noteq> RCanceled then True
      else if isTerminalRunStatus (r_status snapshot) then
        opt_time (r_completedAt existing) > opt_time (r_completedAt snapshot)
      else True)"

definition mergeExistingTerminalRun :: "run \<Rightarrow> run \<Rightarrow> run \<Rightarrow> run" where
  "mergeExistingTerminalRun snapshot existing r =
     (if keepExistingRun snapshot existing
      then r\<lparr>r_status := r_status existing, r_completedAt := r_completedAt existing, r_error := r_error existing\<rparr>
      else r)"

definition mergeStartedAt :: "int option \<Rightarrow> int option \<Rightarrow> int option" where
  "mergeStartedAt snapshotStartedAt existingStartedAt =
     (case (snapshotStartedAt, existingStartedAt) of
        (None, e) \<Rightarrow> e
      | (s, None) \<Rightarrow> s
      | (Some s, Some e) \<Rightarrow> Some (min s e))"

definition mergeEvents :: "event list \<Rightarrow> event list \<Rightarrow> event list" where
  "mergeEvents snapshot existing =
     (let events = fold (\<lambda>e m. jm_set (ev_id e) e m) snapshot [];
          events' = fold (\<lambda>e m. if jm_get m (ev_id e) = None then jm_set (ev_id e) e m else m) existing events
      in sort_key ev_timestamp (map snd events'))"

definition mergeExistingRun :: "run \<Rightarrow> run \<Rightarrow> run" where
  "mergeExistingRun snapshot existing =
     (mergeExistingTerminalRun snapshot existing
        (snapshot\<lparr>r_nodes := mergeExistingTerminalNodes (r_nodes snapshot) (r_nodes existing)\<rparr>))
     \<lparr>r_events := mergeEvents (r_events snapshot) (r_events existing),
      r_startedAt := mergeStartedAt (r_startedAt snapshot) (r_startedAt existing),
      r_updatedAt := max (r_updatedAt snapshot) (r_updatedAt existing)\<rparr>"

type_synonym run_store = "string \<rightharpoonup> run"

definition store_get :: "string \<Rightarrow> run_store \<Rightarrow> run option" where
  "store_get runId store = store runId"

definition store_save :: "run \<Rightarrow> run_store \<Rightarrow> run_store" where
  "store_save r store =
     store(r_id r \<mapsto> (case store (r_id r) of None \<Rightarrow> r | Some existing \<Rightarrow> mergeExistingRun r existing))"

definition appendEvent :: "string \<Rightarrow> event \<Rightarrow> run_store \<Rightarrow> (string + run) \<times> run_store" where
  "appendEvent runId e store =
     (case store_get runId store of
        None \<Rightarrow> (Inl (''Workflow run not found: '' @ runId), store)
      | Some r \<Rightarrow>
          let r' = r\<lparr>r_events := r_events r @ [e], r_updatedAt := ev_timestamp e\<rparr> in (Inr r', store_save r' store))"

section \<open>Cancellation\<close>

definition cancelIteration :: "string \<Rightarrow> int \<Rightarrow> iteration \<Rightarrow> iteration" where
  "cancelIteration message timestamp it =
     (if it_status it \<in> {IFailed, ICompleted, ISkipped, ICanceled} then it
      else it\<lparr>it_status := ICanceled, it_error := Some message, it_completedAt := Some timestamp\<rparr>)"

definition cancelInlineAgent :: "string \<Rightarrow> int \<Rightarrow> inline_agent \<Rightarrow> inline_agent" where
  "cancelInlineAgent message timestamp a =
     (if ia_status a = AQueued \<or> ia_status a = ARunning
      then a\<lparr>ia_status := ACanceled, ia_error := Some message, ia_completedAt := Some timestamp\<rparr> else a)"

definition cancelNode :: "string \<Rightarrow> int \<Rightarrow> node_state \<Rightarrow> node_state" where
  "cancelNode message timestamp st =
     (let st1 = (if ns_status st = Queued \<or> ns_status st = Running \<or> ns_status st = Blocked
                 then st\<lparr>ns_status := Canceled, ns_error := Some message, ns_completedAt := Some timestamp\<rparr> else st)
      in st1\<lparr>ns_iterations := map_option (map (cancelIteration message timestamp)) (ns_iterations st1),
             ns_inlineAgents := map_option (map (\<lambda>(k, a). (k, cancelInlineAgent message timestamp a))) (ns_inlineAgents st1)\<rparr>)"

definition session_ids :: "node_state \<Rightarrow> string list" where
  "session_ids st =
     filter (\<lambda>s. s \<noteq> []) (List.map_filter id
       (ns_sessionId st # map it_sessionId (case ns_iterations st of Some its \<Rightarrow> its | None \<Rightarrow> [])
        @ map (\<lambda>(_, a). ia_sessionId a) (case ns_inlineAgents st of Some as \<Rightarrow> as | None \<Rightarrow> [])))"

definition collectWorkflowSessionIds :: "run \<Rightarrow> string list" where
  "collectWorkflowSessionIds r = unique (concat (map (\<lambda>(_, st). session_ids st) (r_nodes r)))"

text \<open>\<open>cancelRun\<close> on the run it has read: the run it saves, and the sessions it kills. The actor of the options
  is only recorded with the event and left out.\<close>

definition cancelRun :: "string \<Rightarrow> int \<Rightarrow> string option \<Rightarrow> run \<Rightarrow> run \<times> string list" where
  "cancelRun uuid now message r =
     (if r_status r = RCompleted \<or> r_status r = RFailed \<or> r_status r = RCanceled then (r, [])
      else
        let msg = (case message of Some m \<Rightarrow> m | None \<Rightarrow> ''Workflow run canceled'');
            sids = collectWorkflowSessionIds r
        in (addEvent uuid now ''run-canceled'' msg (Some [(''killedSessionIds'', JArr (map JStr sids))]) None
              (r\<lparr>r_nodes := map (\<lambda>(i, st). (i, cancelNode msg now st)) (r_nodes r),
                 r_status := RCanceled, r_error := Some msg, r_completedAt := Some now, r_updatedAt := now\<rparr>),
            sids))"

section \<open>What a merge keeps\<close>

text \<open>A property of the stored run that no save takes away.\<close>

locale sticky =
  fixes final :: "run \<Rightarrow> bool"
  assumes kept: "jm_wf (r_nodes snapshot) \<Longrightarrow> final existing \<Longrightarrow> final (mergeExistingRun snapshot existing)"
begin

lemma stays_saved:
  assumes "store runId = Some r" and "final r" and "\<forall>s \<in> set snapshots. jm_wf (r_nodes s)"
  shows "\<exists>r'. fold store_save snapshots store runId = Some r' \<and> final r'"
  using assms
proof (induction snapshots arbitrary: store r)
  case (Cons s ss)
  have "\<exists>r1. store_save s store runId = Some r1 \<and> final r1"
    using Cons.prems kept [of s r] by (cases "r_id s = runId") (simp_all add: store_save_def)
  then obtain r1 where "store_save s store runId = Some r1" "final r1" by blast
  then show ?case using Cons.IH [of "store_save s store" r1] Cons.prems(3) by simp
qed simp

end

lemma mergeExistingRun_fields:
  "r_status (mergeExistingRun s e) = (if keepExistingRun s e then r_status e else r_status s)"
  "r_nodes (mergeExistingRun s e) = mergeExistingTerminalNodes (r_nodes s) (r_nodes e)"
  "r_events (mergeExistingRun s e) = mergeEvents (r_events s) (r_events e)"
  "r_id (mergeExistingRun s e) = r_id s"
  by (simp_all add: mergeExistingRun_def mergeExistingTerminalRun_def)

lemma mergeNode_get:
  "jm_get (mergeNode (k, v) m) i =
     (if i = k then (case jm_get m k of None \<Rightarrow> Some v | Some s \<Rightarrow> Some (if shouldPreserveExistingNode s v then v else s))
      else jm_get m i)"
  by (simp add: mergeNode_def split: option.splits)

lemma merged_node:
  assumes "jm_wf existing"
  shows "jm_get (mergeExistingTerminalNodes snapshot existing) i =
    (case jm_get existing i of
       None \<Rightarrow> jm_get snapshot i
     | Some e \<Rightarrow>
         (case jm_get snapshot i of
            None \<Rightarrow> Some e
          | Some s \<Rightarrow> if shouldPreserveExistingNode s e then Some e else Some s))"
proof -
  have other: "jm_get (fold mergeNode es m) i = jm_get m i" if "i \<notin> fst ` set es" for es m
    using that by (induction es arbitrary: m) (auto simp: mergeNode_get)
  show ?thesis
    using assms unfolding mergeExistingTerminalNodes_def
  proof (induction existing arbitrary: snapshot)
    case (Cons e es)
    obtain k v where e: "e = (k, v)" by fastforce
    have wf: "jm_wf es" "k \<notin> fst ` set es" using Cons.prems by (auto simp: jm_wf_def jm_keys_def e)
    show ?case
    proof (cases "k = i")
      case True
      then show ?thesis
        using other [of es "mergeNode e snapshot"] wf by (auto simp: e mergeNode_get jm_get_Cons split: option.splits)
    next
      case False
      have same: "jm_get (mergeNode e snapshot) i = jm_get snapshot i" using False by (simp add: e mergeNode_get)
      have "jm_get (e # es) i = jm_get es i" using False by (simp add: e jm_get_Cons)
      then show ?thesis using Cons.IH [OF wf(1), of "mergeNode e snapshot"] by (simp only: same fold_simps)
    qed
  qed simp
qed

lemma merge_wf: "jm_wf snapshot \<Longrightarrow> jm_wf (mergeExistingTerminalNodes snapshot existing)"
  unfolding mergeExistingTerminalNodes_def
proof (induction existing arbitrary: snapshot)
  case (Cons e es)
  have "jm_wf (mergeNode e snapshot)" using Cons.prems by (simp add: mergeNode_def split: option.splits)
  from Cons.IH [OF this] show ?case by simp
qed simp

lemma preserve_final:
  assumes "jm_wf existing" and "jm_get existing i = Some e" and "final (ns_status e)"
    and "\<And>s. final (ns_status e) \<Longrightarrow> \<not> shouldPreserveExistingNode s e \<Longrightarrow> final (ns_status s)"
  shows "\<exists>m. jm_get (mergeExistingTerminalNodes snapshot existing) i = Some m \<and> final (ns_status m)"
  using assms by (auto simp: merged_node split: option.splits)

lemma merged_event_ids:
  "ev_id ` set (mergeEvents snapshot existing) = ev_id ` set snapshot \<union> ev_id ` set existing"
proof -
  have keyed: "\<forall>(k, e) \<in> set m. k = ev_id e \<Longrightarrow> ev_id ` snd ` set m = fst ` set m" for m :: "(string, event) js_map"
    by (force simp: image_iff)
  have present: "jm_get m k = Some v \<Longrightarrow> k \<in> fst ` set m" for m :: "(string, event) js_map" and k v
    using jm_get_None_iff [of m k] by (auto simp: jm_keys_def)
  have keys: "fst ` set (jm_set k v m) = insert k (fst ` set m)" for k v and m :: "(string, event) js_map"
    using arg_cong [where f = set, OF jm_keys_set [of k v m]] by (auto simp: jm_keys_def dest: present split: if_splits)
  define add where "add es m = fold (\<lambda>e m. jm_set (ev_id e) e m) es m" for es and m :: "(string, event) js_map"
  define fill where "fill es m = fold (\<lambda>e m. if jm_get m (ev_id e) = None then jm_set (ev_id e) e m else m) es m"
    for es and m :: "(string, event) js_map"
  have add: "\<forall>(k, e) \<in> set m. k = ev_id e \<Longrightarrow>
      (\<forall>(k, e) \<in> set (add es m). k = ev_id e) \<and> fst ` set (add es m) = fst ` set m \<union> ev_id ` set es" for es m
    unfolding add_def
  proof (induction es arbitrary: m)
    case (Cons e es)
    have "\<forall>(k, e) \<in> set (jm_set (ev_id e) e m). k = ev_id e" using Cons.prems by (auto dest: set_jm_set [THEN subsetD])
    moreover have "fst ` set (jm_set (ev_id e) e m) = insert (ev_id e) (fst ` set m)" by (rule keys)
    ultimately show ?case using Cons.IH [of "jm_set (ev_id e) e m"] by auto
  qed simp
  have fill: "\<forall>(k, e) \<in> set m. k = ev_id e \<Longrightarrow>
      (\<forall>(k, e) \<in> set (fill es m). k = ev_id e) \<and> fst ` set (fill es m) = fst ` set m \<union> ev_id ` set es" for es m
    unfolding fill_def
  proof (induction es arbitrary: m)
    case (Cons e es)
    let ?m = "if jm_get m (ev_id e) = None then jm_set (ev_id e) e m else m"
    have "\<forall>(k, e) \<in> set ?m. k = ev_id e" using Cons.prems by (auto dest: set_jm_set [THEN subsetD])
    moreover have "fst ` set ?m = insert (ev_id e) (fst ` set m)"
      using keys [of "ev_id e" e m] present [of m "ev_id e"] by (cases "jm_get m (ev_id e)") auto
    ultimately show ?case using Cons.IH [of ?m] by auto
  qed simp
  have "mergeEvents snapshot existing = sort_key ev_timestamp (map snd (fill existing (add snapshot [])))"
    by (simp add: mergeEvents_def add_def fill_def Let_def)
  then show ?thesis using add [of "[]" snapshot] fill [of "add snapshot []" existing] keyed by simp
qed

interpretation canceled: sticky "\<lambda>r. r_status r = RCanceled"
  by unfold_locales (auto simp: mergeExistingRun_fields keepExistingRun_def)

interpretation terminal: sticky "\<lambda>r. isTerminalRunStatus (r_status r)"
  by unfold_locales (auto simp: mergeExistingRun_fields keepExistingRun_def)

interpretation canceled_node: sticky
  "\<lambda>r. jm_wf (r_nodes r) \<and> (\<exists>st. jm_get (r_nodes r) i = Some st \<and> ns_status st = Canceled)" for i
  by unfold_locales
    (auto simp: mergeExistingRun_fields merge_wf shouldPreserveExistingNode_def split: if_splits
      intro!: preserve_final [where final = "\<lambda>s. s = Canceled"])

interpretation terminal_node: sticky
  "\<lambda>r. jm_wf (r_nodes r) \<and> (\<exists>st. jm_get (r_nodes r) i = Some st \<and> isTerminalNodeStatus (ns_status st))" for i
  by unfold_locales
    (auto simp: mergeExistingRun_fields merge_wf shouldPreserveExistingNode_def split: if_splits
      intro!: preserve_final [where final = isTerminalNodeStatus])

interpretation recorded_event: sticky "\<lambda>r. eid \<in> ev_id ` set (r_events r)" for eid
  by unfold_locales (simp add: mergeExistingRun_fields merged_event_ids)

section \<open>A cancellation is final\<close>

lemma map_states_get: "jm_get (map (\<lambda>(i, st). (i, f st)) m) i = map_option f (jm_get m i)"
  by (induction m) (auto simp: jm_get_Cons)

lemma map_states_wf: "jm_wf (map (\<lambda>(i, st). (i, f st)) m) \<longleftrightarrow> jm_wf m"
  by (simp add: jm_wf_def jm_keys_def comp_def case_prod_beta)

lemma cancelNode_status:
  "ns_status (cancelNode msg now st) = (if isTerminalNodeStatus (ns_status st) then ns_status st else Canceled)"
  by (cases "ns_status st") (simp_all add: cancelNode_def Let_def)

lemma cancelRun_run:
  assumes "\<not> isTerminalRunStatus (r_status r)"
  shows "r_status (fst (cancelRun uuid now message r)) = RCanceled"
    and "r_id (fst (cancelRun uuid now message r)) = r_id r"
    and "jm_wf (r_nodes (fst (cancelRun uuid now message r))) = jm_wf (r_nodes r)"
    and "\<exists>msg. jm_get (r_nodes (fst (cancelRun uuid now message r))) i = map_option (cancelNode msg now) (jm_get (r_nodes r) i)"
  using assms by (auto simp: cancelRun_def Let_def isTerminalRunStatus_def map_states_get map_states_wf)

text \<open>Saving a canceled copy of the stored run: an open node is canceled in the store too.\<close>

lemma saved_cancellation:
  assumes "store (r_id r) = Some r0" and "jm_wf (r_nodes r0)" and "jm_wf (r_nodes r)"
    and "jm_get (r_nodes r0) i = Some st0" and "\<not> isTerminalNodeStatus (ns_status st0)"
    and "jm_get (r_nodes r) i = Some st" and "\<not> isTerminalNodeStatus (ns_status st)"
    and "\<not> isTerminalRunStatus (r_status r)" and "\<not> isTerminalRunStatus (r_status r0)"
  shows "\<exists>s. store_save (fst (cancelRun uuid now message r)) store (r_id r) = Some s \<and> r_status s = RCanceled \<and>
    jm_wf (r_nodes s) \<and> (\<exists>c. jm_get (r_nodes s) i = Some c \<and> ns_status c = Canceled)"
proof -
  let ?c = "fst (cancelRun uuid now message r)"
  note c = cancelRun_run [OF assms(8), of uuid now message]
  obtain msg where "jm_get (r_nodes ?c) i = Some (cancelNode msg now st)" using c(4) [of i] assms(6) by auto
  moreover have "\<not> shouldPreserveExistingNode s st0" for s using assms(5) by (simp add: shouldPreserveExistingNode_def)
  ultimately have "jm_get (r_nodes (mergeExistingRun ?c r0)) i = Some (cancelNode msg now st)"
    using assms(2,4) by (simp add: mergeExistingRun_fields merged_node)
  moreover have "r_status (mergeExistingRun ?c r0) = RCanceled"
    using assms(9) c(1) by (simp add: mergeExistingRun_fields keepExistingRun_def)
  moreover have "jm_wf (r_nodes (mergeExistingRun ?c r0))" using assms(3) c(3) by (simp add: mergeExistingRun_fields merge_wf)
  ultimately show ?thesis using assms(1,7) c(2) by (simp add: store_save_def cancelNode_status)
qed

text \<open>A cancellation is final. A run is canceled and saved while the stored run is still open; its executor
  and other parts of the daemon go on to save whatever copies of the run they hold, in any number and order. The
  stored run remains canceled, every node that was open when it was canceled remains canceled, and no event that
  the canceled run had recorded disappears.\<close>

theorem cancellation_is_final:
  assumes "store (r_id r) = Some r0" and "jm_wf (r_nodes r0)" and "jm_wf (r_nodes r)"
    and "\<not> isTerminalRunStatus (r_status r)" and "\<not> isTerminalRunStatus (r_status r0)"
    and "\<forall>s \<in> set snapshots. jm_wf (r_nodes s)"
  shows "\<exists>final. fold store_save (fst (cancelRun uuid now message r) # snapshots) store (r_id r) = Some final \<and>
    r_status final = RCanceled \<and>
    (\<forall>i st st0. jm_get (r_nodes r) i = Some st \<and> jm_get (r_nodes r0) i = Some st0 \<and>
        \<not> isTerminalNodeStatus (ns_status st) \<and> \<not> isTerminalNodeStatus (ns_status st0) \<longrightarrow>
      (\<exists>c. jm_get (r_nodes final) i = Some c \<and> ns_status c = Canceled)) \<and>
    ev_id ` set (r_events (fst (cancelRun uuid now message r))) \<union> ev_id ` set (r_events r0) \<subseteq> ev_id ` set (r_events final)"
proof -
  let ?c = "fst (cancelRun uuid now message r)"
  let ?s1 = "store_save ?c store"
  note id = cancelRun_run(2) [OF assms(4), of uuid now message]
  have saved: "?s1 (r_id r) = Some (mergeExistingRun ?c r0)" using assms(1) id by (simp add: store_save_def)
  have status: "r_status (mergeExistingRun ?c r0) = RCanceled"
    using assms(4,5) by (simp add: mergeExistingRun_fields keepExistingRun_def cancelRun_run(1))
  obtain final where final: "fold store_save snapshots ?s1 (r_id r) = Some final" "r_status final = RCanceled"
    using canceled.stays_saved [of ?s1 "r_id r", OF saved status assms(6)] by blast
  have "\<exists>c. jm_get (r_nodes final) i = Some c \<and> ns_status c = Canceled"
    if "jm_get (r_nodes r) i = Some st" "jm_get (r_nodes r0) i = Some st0"
      "\<not> isTerminalNodeStatus (ns_status st)" "\<not> isTerminalNodeStatus (ns_status st0)" for i st st0
    using saved_cancellation [of store r r0 i st0 st, OF assms(1-3) that(2,4,1,3) assms(4,5), of uuid now message] saved final(1)
      canceled_node.stays_saved [of ?s1 "r_id r" "mergeExistingRun ?c r0" i snapshots, OF saved _ assms(6)] by auto
  moreover have "eid \<in> ev_id ` set (r_events final)"
    if "eid \<in> ev_id ` set (r_events ?c) \<union> ev_id ` set (r_events r0)" for eid
    using recorded_event.stays_saved [of ?s1 "r_id r" "mergeExistingRun ?c r0" eid snapshots, OF saved _ assms(6)] that final(1)
    by (simp add: mergeExistingRun_fields merged_event_ids)
  ultimately show ?thesis using final by auto
qed

text \<open>A run with a running node, and two late snapshots of its executor: the node completes, then the run.\<close>

definition demo_state :: "string \<Rightarrow> node_status \<Rightarrow> node_state" where
  "demo_state i s =
     \<lparr>ns_id = i, ns_type = ''shell'', ns_status = s, ns_startedAt = None, ns_completedAt = None, ns_sessionId = None,
      ns_nativeSessionId = None, ns_worktreePath = None, ns_output = None, ns_outputs = None, ns_exitCode = None,
      ns_error = None, ns_skipReason = None, ns_metadata = None, ns_approval = None, ns_iterations = None,
      ns_attempts = None, ns_inlineAgents = None, ns_transcriptExcerpt = None\<rparr>"

definition demo_run :: "run_status \<Rightarrow> (string \<times> node_status) list \<Rightarrow> run" where
  "demo_run s nodes =
     \<lparr>r_id = ''run'', r_directoryPath = ''/w'', r_resourceId = None, r_platformRunId = None, r_machineId = None,
      r_workflowAuthorityContract = None, r_status = s,
      r_inputs = [], r_nodes = map (\<lambda>(i, s). (i, demo_state i s)) nodes, r_artifacts = [], r_events = [],
      r_startedAt = None, r_updatedAt = 0, r_completedAt = None, r_error = None\<rparr>"

lemma demo_run_simps [simp]:
  "r_id (demo_run s nodes) = ''run''" "r_status (demo_run s nodes) = s"
  "r_nodes (demo_run s nodes) = map (\<lambda>(i, s). (i, demo_state i s)) nodes"
  "ns_status (demo_state i s') = s'"
  by (simp_all add: demo_run_def demo_state_def)

theorem cancellation_is_final_witness:
  "\<exists>final. fold store_save
      (fst (cancelRun ''e'' 5 None (demo_run RRunning [(''a'', Running)]))
        # [demo_run RRunning [(''a'', Completed)], demo_run RCompleted [(''a'', Completed)]])
      [''run'' \<mapsto> demo_run RRunning [(''a'', Running)]] ''run'' = Some final \<and>
    r_status final = RCanceled \<and> (\<exists>c. jm_get (r_nodes final) ''a'' = Some c \<and> ns_status c = Canceled)"
  using cancellation_is_final [of "[''run'' \<mapsto> demo_run RRunning [(''a'', Running)]]" "demo_run RRunning [(''a'', Running)]"
      "demo_run RRunning [(''a'', Running)]" "[demo_run RRunning [(''a'', Completed)], demo_run RCompleted [(''a'', Completed)]]"
      "''e''" 5 None]
  by (fastforce simp: jm_wf_def jm_keys_def jm_get_Cons)

end
