(* ===== verification/Workflow_Executor.thy ===== *)
theory Workflow_Executor
  imports Dates Workflow_Rules Workflow_Templates Workflow_Store
begin

text \<open>
  The execution of one workflow node (packages/daemon/src/workflows/node-executor.ts) and the executors of the
  registry (node-registry.ts) that decide the course of a run: approvals, gates, conditions, plans, actions and
  artifact records. What the other executors do lies outside the daemon's own state (sessions of agents, processes,
  git); of them the outcome of an attempt is modelled.

  An operation takes the run that the scheduler holds and returns it changed, together with the copies it saves on
  the way, in order. The clock and the random ids of one operation are its argument \<open>env\<close>; the n-th event of a run
  gets the n-th id.
\<close>

record env =
  e_now :: int
  e_uuid :: "nat \<Rightarrow> string"

definition emit :: "env \<Rightarrow> string \<Rightarrow> string \<Rightarrow> obj option \<Rightarrow> string option \<Rightarrow> run \<Rightarrow> run" where
  "emit env type message data nodeId r =
     addEvent (e_uuid env (length (r_events r))) (e_now env) type message data nodeId r"

definition touch :: "env \<Rightarrow> run \<Rightarrow> run" where
  "touch env r = r\<lparr>r_updatedAt := e_now env\<rparr>"

section \<open>Blocking for an approval\<close>

definition stringValue :: "string option \<Rightarrow> string option" where
  "stringValue v = (case v of Some s \<Rightarrow> if trim s \<noteq> [] then Some s else None | None \<Rightarrow> None)"

fun number_of :: "nat \<Rightarrow> string \<Rightarrow> nat" where
  "number_of acc [] = acc"
| "number_of acc (c # s) = number_of (10 * acc + (of_char c - 48)) s"

definition is_digit :: "char \<Rightarrow> bool" where
  "is_digit c \<longleftrightarrow> (let n = of_char c :: nat in 48 \<le> n \<and> n \<le> 57)"

definition time_units :: "string list" where
  "time_units =
     [''s'', ''sec'', ''secs'', ''second'', ''seconds'', ''m'', ''min'', ''mins'', ''minute'', ''minutes'',
      ''h'', ''hr'', ''hrs'', ''hour'', ''hours'', ''d'', ''day'', ''days'']"

text \<open>\<open>Inl\<close> is the exception of \<open>toISOString\<close>. A number of \<open>2^1024 - 2^970\<close> or more reads as infinity.\<close>

definition timeoutAtIso :: "string option \<Rightarrow> int \<Rightarrow> string + string option" where
  "timeoutAtIso v requestedAt =
     (case v of
        None \<Rightarrow> Inr None
      | Some s \<Rightarrow>
          let raw = trim s; ds = takeWhile is_digit raw;
              unit = toLowerCase (dropWhile js_space (dropWhile is_digit raw));
              amount = number_of 0 ds
          in if ds = [] \<or> unit \<notin> set time_units then Inr None
             else if amount = 0 \<or> amount \<ge> 2 ^ 1024 - 2 ^ 970 then Inr None
             else
               let multiplier = (if startsWith unit ''s'' then 1000 else if startsWith unit ''m'' then 60000
                                 else if startsWith unit ''h'' then 3600000 else 86400000)
               in (case toISOString (requestedAt + int amount * multiplier) of
                     Some stamp \<Rightarrow> Inr (Some stamp) | None \<Rightarrow> Inl invalid_time))"

definition opt_field :: "string \<Rightarrow> json option \<Rightarrow> obj" where
  "opt_field k v = (case v of Some j \<Rightarrow> [(k, j)] | None \<Rightarrow> [])"

definition approvalBlockMetadata :: "approval_options \<Rightarrow> int \<Rightarrow> string + obj" where
  "approvalBlockMetadata options requestedAt =
     (let gateIntent = stringValue (gate_intent options);
          tags = (case reviewer_tags options of Some ts \<Rightarrow> filter (\<lambda>t. trim t \<noteq> []) ts | None \<Rightarrow> []);
          onTimeout = stringValue (on_timeout options)
      in map_sum id (\<lambda>timeoutAt.
           (if gateIntent = Some ''plan'' \<or> gateIntent = Some ''approval'' then [(''gate_intent'', JStr (the gateIntent))] else [])
           @ (if tags \<noteq> [] then [(''reviewer_tags'', JArr (map JStr tags))] else [])
           @ (if onTimeout \<in> Some ` {''escalate'', ''auto-approve'', ''cancel''} then [(''on_timeout'', JStr (the onTimeout))] else [])
           @ opt_field ''timeout_at'' (map_option JStr timeoutAt))
         (timeoutAtIso (timeout options) requestedAt))"

definition no_options :: approval_options where
  "no_options = \<lparr>gate_intent = None, reviewer_tags = None, timeout = None, on_timeout = None\<rparr>"

definition metadata_of :: "node_state \<Rightarrow> obj" where
  "metadata_of st = (case ns_metadata st of Some m \<Rightarrow> m | None \<Rightarrow> [])"

definition outputs_of :: "node_state \<Rightarrow> obj" where
  "outputs_of st = (case ns_outputs st of Some m \<Rightarrow> m | None \<Rightarrow> [])"

text \<open>The run and the copies that an operation saves; \<open>Inl\<close> is an exception.\<close>

type_synonym saves = "run list"

definition request_approval :: "env \<Rightarrow> string \<Rightarrow> obj \<Rightarrow> node_state \<Rightarrow> node_state" where
  "request_approval env prompt md st =
     st\<lparr>ns_status := Blocked, ns_metadata := Some (spread (metadata_of st) md),
        ns_approval := Some \<lparr>ap_prompt = prompt, ap_requestedAt = e_now env, ap_resolvedAt = None, ap_approved = None,
          ap_decision = None, ap_message = None, ap_expectedActionDigest = None, ap_feedback = None\<rparr>\<rparr>"

definition blockForApproval ::
    "env \<Rightarrow> string \<Rightarrow> string \<Rightarrow> approval_options \<Rightarrow> run \<Rightarrow> string + (run \<times> saves)" where
  "blockForApproval env nodeId prompt options r =
     (case jm_get (r_nodes r) nodeId of
        None \<Rightarrow> Inr (r, [])
      | Some _ \<Rightarrow>
          (case approvalBlockMetadata options (e_now env) of
             Inl e \<Rightarrow> Inl e
           | Inr md \<Rightarrow>
               let r1 = (upd_node nodeId (request_approval env prompt md) r)\<lparr>r_status := RBlocked, r_updatedAt := e_now env\<rparr>;
                   r2 = emit env ''approval-requested'' (''Approval requested for node '' @ nodeId)
                          (Some [(''prompt'', JStr prompt)]) (Some nodeId) r1;
                   r3 = emit env ''run-blocked'' (''Workflow blocked by approval gate: '' @ nodeId) None (Some nodeId) r2
               in Inr (r3, [r3])))"

section \<open>The executors\<close>

text \<open>What an attempt comes to: the node is done (with the directory of its artifacts), it waits for an event from
  outside, or it fails with a message and, for a shell command, its output and exit code.\<close>

datatype outcome =
    Done "string option"
  | Waiting
  | Error string "(string \<times> int option) option"

type_synonym attempt = "run \<times> saves \<times> outcome"

definition failed_attempt :: "run \<Rightarrow> string \<Rightarrow> attempt" where
  "failed_attempt r message = (r, [], Error message None)"

definition blocked_attempt :: "run \<Rightarrow> string + (run \<times> saves) \<Rightarrow> attempt" where
  "blocked_attempt r result =
     (case result of Inl e \<Rightarrow> failed_attempt r e | Inr (r', ss) \<Rightarrow> (r', ss, Waiting))"

definition executeApproval :: "jsonata \<Rightarrow> env \<Rightarrow> string \<Rightarrow> string \<Rightarrow> approval_options \<Rightarrow> run \<Rightarrow> attempt" where
  "executeApproval jsonata env nodeId prompt options r =
     (case renderTemplate jsonata prompt r [] of
        Inl e \<Rightarrow> failed_attempt r e
      | Inr text' \<Rightarrow> blocked_attempt r (blockForApproval env nodeId text' options r))"

definition isTruthyGateValue :: "string \<Rightarrow> bool" where
  "isTruthyGateValue v \<longleftrightarrow> toLowerCase (trim v) \<in> {''true'', ''1'', ''yes'', ''y'', ''pass'', ''passed'', ''ok''}"

definition setGateOutput :: "string \<Rightarrow> string \<Rightarrow> run \<Rightarrow> run" where
  "setGateOutput nodeId output r = upd_node nodeId (\<lambda>st. st\<lparr>ns_output := Some output\<rparr>) r"

definition gate_json :: "gate \<Rightarrow> json" where
  "gate_json g =
     (case g of
        Check e \<Rightarrow> JObj [(''type'', JStr ''check''), (''expression'', JStr e)]
      | Policy e \<Rightarrow> JObj [(''type'', JStr ''policy''), (''expression'', JStr e)]
      | Human_review p \<Rightarrow> JObj [(''type'', JStr ''human_review''), (''prompt'', JStr p)]
      | Schedule w \<Rightarrow> JObj [(''type'', JStr ''schedule''), (''waitUntil'', JStr w)])"

text \<open>The gates \<open>check\<close> and \<open>policy\<close>.\<close>

definition executeCheckGate :: "jsonata \<Rightarrow> env \<Rightarrow> string \<Rightarrow> string \<Rightarrow> string \<Rightarrow> gate \<Rightarrow> run \<Rightarrow> attempt" where
  "executeCheckGate jsonata env nodeId type expression g r =
     (case renderTemplate jsonata expression r [] of
        Inl e \<Rightarrow> failed_attempt r e
      | Inr rendered \<Rightarrow>
          if \<not> isTruthyGateValue rendered
          then failed_attempt r (type @ '' gate '' @ nodeId @ '' failed: '' @ (if rendered = [] then ''false'' else rendered))
          else (emit env ''gate-passed'' (type @ '' gate '' @ nodeId @ '' passed'')
                  (Some [(''gate'', gate_json g), (''result'', JStr rendered)]) (Some nodeId) (setGateOutput nodeId rendered r),
                [], Done None))"

text \<open>\<open>new Date(text)\<close> is \<open>parse_date\<close>: the format of texts other than ISO dates is left to the implementation.\<close>

definition executeScheduleGate :: "jsonata \<Rightarrow> (string \<Rightarrow> int option) \<Rightarrow> env \<Rightarrow> string \<Rightarrow> string \<Rightarrow> gate \<Rightarrow> run \<Rightarrow> attempt" where
  "executeScheduleGate jsonata parse_date env nodeId waitUntil g r =
     (case renderTemplate jsonata waitUntil r [] of
        Inl e \<Rightarrow> failed_attempt r e
      | Inr rendered \<Rightarrow>
          (case Option.bind (parse_date rendered) (\<lambda>t. map_option (\<lambda>stamp. (t, stamp)) (toISOString t)) of
             None \<Rightarrow> failed_attempt r (''Schedule gate '' @ nodeId @ '' has an invalid waitUntil value'')
           | Some (t, stamp) \<Rightarrow>
               if t > e_now env then
                 let r1 = (upd_node nodeId (\<lambda>st. st\<lparr>ns_status := Blocked, ns_output := Some (''Waiting until '' @ stamp)\<rparr>) r)
                            \<lparr>r_status := RBlocked, r_updatedAt := e_now env\<rparr>;
                     r2 = emit env ''gate-blocked'' (''Schedule gate '' @ nodeId @ '' is waiting until '' @ stamp)
                            (Some [(''gate'', gate_json g), (''waitUntil'', JStr stamp)]) (Some nodeId) r1
                 in (r2, [r2], Waiting)
               else
                 (emit env ''gate-passed'' (''Schedule gate '' @ nodeId @ '' passed'')
                    (Some [(''gate'', gate_json g), (''waitUntil'', JStr stamp)]) (Some nodeId)
                    (setGateOutput nodeId (''Schedule reached: '' @ stamp) r),
                  [], Done None)))"

definition executeGateNode :: "jsonata \<Rightarrow> (string \<Rightarrow> int option) \<Rightarrow> env \<Rightarrow> string \<Rightarrow> gate \<Rightarrow> run \<Rightarrow> attempt" where
  "executeGateNode jsonata parse_date env nodeId g r =
     (case g of
        Human_review prompt \<Rightarrow>
          (case renderTemplate jsonata prompt r [] of
             Inl e \<Rightarrow> failed_attempt r e
           | Inr text' \<Rightarrow>
               (case blockForApproval env nodeId text' no_options r of
                  Inl e \<Rightarrow> failed_attempt r e
                | Inr (r1, ss) \<Rightarrow>
                    let r2 = emit env ''gate-blocked'' (''Human review gate '' @ nodeId @ '' is waiting'')
                               (Some [(''gate'', gate_json g)]) (Some nodeId) r1
                    in (r2, ss @ [r2], Waiting)))
      | Schedule w \<Rightarrow> executeScheduleGate jsonata parse_date env nodeId w g r
      | Check e \<Rightarrow> executeCheckGate jsonata env nodeId ''check'' e g r
      | Policy e \<Rightarrow> executeCheckGate jsonata env nodeId ''policy'' e g r)"

text \<open>The condition node: the nodes of the branch that was not taken are skipped, where they are still queued.\<close>

definition skipBranchNode :: "env \<Rightarrow> string \<Rightarrow> string \<Rightarrow> string \<Rightarrow> string \<Rightarrow> run \<Rightarrow> run" where
  "skipBranchNode env nodeId branch expression branchNodeId r =
     (case jm_get (r_nodes r) branchNodeId of
        Some st \<Rightarrow>
          if ns_status st \<noteq> Queued then r
          else emit env ''node-skipped'' (''Node '' @ branchNodeId @ '' skipped by condition '' @ nodeId)
                 (Some [(''conditionNodeId'', JStr nodeId), (''branch'', JStr branch), (''expression'', JStr expression)])
                 (Some branchNodeId)
                 (upd_node branchNodeId
                    (\<lambda>st. st\<lparr>ns_status := Skipped, ns_skipReason := Some (''condition:'' @ nodeId @ '':'' @ branch),
                            ns_completedAt := Some (e_now env)\<rparr>) r)
      | None \<Rightarrow> r)"

definition executeCondition ::
    "jsonata \<Rightarrow> env \<Rightarrow> string \<Rightarrow> string \<Rightarrow> string list option \<Rightarrow> string list option \<Rightarrow> run \<Rightarrow> attempt" where
  "executeCondition jsonata env nodeId expression then_ids else_ids r =
     (case evaluateConditionExpression jsonata expression (buildExpressionContext r) of
        Inl (message, _) \<Rightarrow> failed_attempt r message
      | Inr matched \<Rightarrow>
          let selected = opt_list (if matched then then_ids else else_ids);
              skipped = opt_list (if matched then else_ids else then_ids);
              branch = (if matched then ''then'' else ''else'');
              strings = (\<lambda>xs. JArr (map JStr xs));
              r1 = upd_node nodeId (\<lambda>st. st\<lparr>ns_output := Some (if matched then ''true'' else ''false''),
                     ns_outputs := Some (spread (outputs_of st) [(''result'', JBool matched), (''branch'', JStr branch),
                       (''selected'', strings selected), (''skipped'', strings skipped)])\<rparr>) r;
              r2 = fold (skipBranchNode env nodeId branch expression) skipped r1;
              r3 = emit env ''condition-evaluated'' (''Condition node '' @ nodeId @ '' selected '' @ branch)
                     (Some [(''expression'', JStr expression), (''result'', JBool matched), (''branch'', JStr branch),
                            (''selected'', strings selected), (''skipped'', strings skipped)]) (Some nodeId) r2
          in (r3, [], Done None))"

definition executeArtifact ::
    "env \<Rightarrow> string \<Rightarrow> string \<Rightarrow> string option \<Rightarrow> string option \<Rightarrow> run \<Rightarrow> attempt" where
  "executeArtifact env nodeId name from path r =
     (let output = (case path of Some p \<Rightarrow> p | None \<Rightarrow> (case from of Some f \<Rightarrow> f | None \<Rightarrow> name))
      in (emit env ''node-output'' (''Artifact node '' @ nodeId @ '' recorded '' @ name)
            (Some [(''name'', JStr name), (''from'', str_or_null from), (''path'', str_or_null path)]) (Some nodeId)
            (upd_node nodeId (\<lambda>st. st\<lparr>ns_output := Some output\<rparr>) r),
          [], Done None))"

text \<open>The plan node. \<open>prompt_output\<close> is \<open>readPromptNodeOutput\<close>, the text that the agent's session has left on
  disk. The proposal that is emitted to the daemon's listeners is not part of the run.\<close>

definition backfillPromptDependencyOutput :: "(node_state \<Rightarrow> string) \<Rightarrow> string \<Rightarrow> run \<Rightarrow> run" where
  "backfillPromptDependencyOutput prompt_output dependencyId r =
     upd_node dependencyId
       (\<lambda>st. if ns_type st \<noteq> ''prompt'' \<or> truthy (ns_output st) then st
             else if prompt_output st \<noteq> [] then st\<lparr>ns_output := Some (prompt_output st)\<rparr> else st) r"

definition sum_bind :: "'e + 'a \<Rightarrow> ('a \<Rightarrow> 'e + 'b) \<Rightarrow> 'e + 'b" where
  "sum_bind x f = (case x of Inl e \<Rightarrow> Inl e | Inr a \<Rightarrow> f a)"

definition planSourceRef :: "string \<Rightarrow> string option \<Rightarrow> run \<Rightarrow> string" where
  "planSourceRef nodeId sourceRef r =
     (if truthy sourceRef then the sourceRef else ''viewport://workflow-runs/'' @ r_id r @ ''/nodes/'' @ nodeId)"

definition executePlan ::
    "jsonata \<Rightarrow> env \<Rightarrow> (node_state \<Rightarrow> string) \<Rightarrow> string \<Rightarrow> node \<Rightarrow> string \<Rightarrow> string option \<Rightarrow> string option
     \<Rightarrow> string option \<Rightarrow> bool option \<Rightarrow> run \<Rightarrow> attempt" where
  "executePlan jsonata env prompt_output nodeId n body summary source sourceRef waitForApproval r0 =
     (let r = fold (backfillPromptDependencyOutput prompt_output) (needs n) r0;
          rendered = sum_bind (renderTemplate jsonata (case n_title n of Some t \<Rightarrow> t | None \<Rightarrow> nodeId) r []) (\<lambda>title.
                     sum_bind (renderTemplate jsonata body r []) (\<lambda>b.
                     sum_bind (renderOptionalTemplate jsonata summary r []) (\<lambda>sm.
                     sum_bind (renderOptionalTemplate jsonata sourceRef r []) (\<lambda>ref. Inr (title, b, sm, ref)))))
      in case rendered of
           Inl e \<Rightarrow> failed_attempt r e
         | Inr (title, b, sm, ref) \<Rightarrow>
             let plan = [(''title'', JStr title)] @ opt_field ''summary'' (map_option JStr sm)
                        @ [(''body'', JStr b), (''source'', JStr (case source of Some s \<Rightarrow> s | None \<Rightarrow> ''workflow'')),
                           (''sourceRef'', JStr (planSourceRef nodeId ref r))];
                 r1 = upd_node nodeId (\<lambda>st. st\<lparr>ns_output := Some b,
                        ns_metadata := Some (spread (metadata_of st) [(''plan'', JObj plan)])\<rparr>) r;
                 r2 = emit env ''plan-proposed'' (''Plan node '' @ nodeId @ '' proposed '' @ title)
                        (Some ([(''title'', JStr title)] @ opt_field ''summary'' (map_option JStr sm)
                          @ [(''sourceRef'', if truthy ref then JStr (the ref) else JNull)])) (Some nodeId) r1
             in if waitForApproval = Some False then (r2, [], Done None)
                else blocked_attempt r2 (blockForApproval env nodeId (''Approve plan: '' @ title) no_options r2))"

text \<open>The action node, given what the adapter of the provider returns: output and metadata, or an error, which may
  carry an output and metadata of its own (\<open>WorkflowActionError\<close>).\<close>

datatype adapter_result =
    Adapted string obj
  | Adapter_error string "(string \<times> obj) option"

definition action_approved :: "node_state option \<Rightarrow> bool" where
  "action_approved st = (case Option.bind (Option.bind st ns_approval) ap_approved of Some b \<Rightarrow> b | None \<Rightarrow> False)"

definition record_action :: "string \<Rightarrow> obj \<Rightarrow> node_state \<Rightarrow> node_state" where
  "record_action output md st = st\<lparr>ns_output := Some output, ns_metadata := Some (spread (metadata_of st) md)\<rparr>"

definition executeAction ::
    "env \<Rightarrow> adapter_result \<Rightarrow> string \<Rightarrow> string \<Rightarrow> string \<Rightarrow> string option \<Rightarrow> bool option \<Rightarrow> run \<Rightarrow> attempt" where
  "executeAction env adapted nodeId adapter action idempotencyKey requiresApproval r =
     (if requiresApproval = Some True \<and> \<not> action_approved (jm_get (r_nodes r) nodeId) then
        (case adapted of
           Adapter_error m _ \<Rightarrow> failed_attempt r m
         | Adapted output md \<Rightarrow>
             let r1 = upd_node nodeId (record_action output md) r
             in blocked_attempt r1
                  (blockForApproval env nodeId (''Approve '' @ adapter @ ''.'' @ action @ '' side effect?'') no_options r1))
      else
        (case adapted of
           Adapter_error m None \<Rightarrow> failed_attempt r m
         | Adapter_error m (Some (output, md)) \<Rightarrow> failed_attempt (upd_node nodeId (record_action output md) r) m
         | Adapted output md \<Rightarrow>
             (emit env ''node-output'' (''Action node '' @ nodeId @ '' handled '' @ adapter @ ''.'' @ action)
                (Some [(''adapter'', JStr adapter), (''action'', JStr action), (''idempotencyKey'', str_or_null idempotencyKey),
                       (''requiresApproval'', JBool (requiresApproval = Some True))]) (Some nodeId)
                (upd_node nodeId (record_action output md) r),
              [], Done None)))"

section \<open>Executing a node\<close>

definition nodeContractEnforcement :: "run \<Rightarrow> obj" where
  "nodeContractEnforcement r =
     (let contract = r_workflowAuthorityContract r \<noteq> None;
          authority = (if contract then ''contract_guarded'' else ''modeled'')
      in [(''context'', JStr (if contract then ''contract_guarded'' else ''enforced'')),
          (''data_capture'', JStr ''enforced''),
          (''credentials'', JStr ''materialization_guarded''),
          (''side_effects'', JStr (if contract then ''contract_guarded'' else ''approval_guarded'')),
          (''repos'', JStr authority), (''tools'', JStr ''modeled''), (''budgets'', JStr ''modeled'')])"

definition preExecuteNodeContractAcknowledgement :: "run \<Rightarrow> string \<Rightarrow> node \<Rightarrow> int \<Rightarrow> obj" where
  "preExecuteNodeContractAcknowledgement r nodeId n acknowledgedAt =
     [(''schema'', JStr ''viewport.node_contract_acknowledgement/v1''),
      (''status'', JStr ''acknowledged''),
      (''source'', JStr ''daemon_pre_execute''),
      (''runner'', JStr (case r_machineId r of Some m \<Rightarrow> m | None \<Rightarrow> ''local-daemon'')),
      (''node_id'', JStr nodeId),
      (''node_type'', JStr (type_name (n_kind n))),
      (''acknowledged_at'', JStr (case toISOString acknowledgedAt of Some s \<Rightarrow> s | None \<Rightarrow> [])),
      (''enforcement'', JObj (nodeContractEnforcement r)),
      (''modeled'', JArr (map JStr (if r_workflowAuthorityContract r \<noteq> None then [''tools'', ''budgets'']
                                    else [''repos'', ''tools'', ''budgets''])))]"

text \<open>Up to the first save of \<open>executeWorkflowNode\<close>, for a node that exists and has not been completed or skipped.\<close>

definition begin_node :: "env \<Rightarrow> string \<Rightarrow> node \<Rightarrow> run \<Rightarrow> run" where
  "begin_node env nodeId n r =
     (let ack = preExecuteNodeContractAcknowledgement r nodeId n (e_now env);
          r1 = touch env (upd_node nodeId (\<lambda>st. st\<lparr>ns_status := Running, ns_startedAt := Some (e_now env),
                 ns_metadata := Some (spread (metadata_of st) [(''node_contract_ack'', JObj ack)])\<rparr>) r);
          r2 = emit env ''node-contract-acknowledged''
                 (''Node '' @ nodeId @ '' authority contract acknowledged before execution'')
                 (Some [(''nodeId'', JStr nodeId), (''nodeType'', JStr (type_name (n_kind n))),
                        (''status'', JStr ''acknowledged''), (''enforcement'', JObj (nodeContractEnforcement r1))])
                 (Some nodeId) r1
      in emit env ''node-started'' (''Node '' @ nodeId @ '' started'') None (Some nodeId) r2)"

text \<open>What \<open>collectNodeArtifacts\<close> finds on disk: the artifacts, and the name, path and reason of the missing ones.\<close>

type_synonym collected = "artifact list \<times> (string \<times> string \<times> string) list"

definition record_artifact :: "env \<Rightarrow> string \<Rightarrow> artifact \<Rightarrow> run \<Rightarrow> run" where
  "record_artifact env nodeId a r =
     (let md = (case jm_get (r_nodes r) nodeId of Some st \<Rightarrow> metadata_of st | None \<Rightarrow> []);
          basis = field md ''context_basis''; briefing = field md ''context_briefing'';
          a' = (case basis of
                  None \<Rightarrow> a
                | Some b \<Rightarrow> a\<lparr>ar_metadata := Some (spread (case ar_metadata a of Some m \<Rightarrow> m | None \<Rightarrow> [])
                              ((''context_basis'', b) # opt_field ''context_briefing'' briefing))\<rparr>)
      in emit env ''artifact-collected'' (''Node '' @ nodeId @ '' collected artifact '' @ ar_name a')
           (Some [(''artifact'', JObj [(''name'', JStr (ar_name a')), (''path'', JStr (ar_path a'))])]) (Some nodeId)
           (r\<lparr>r_artifacts := filter (\<lambda>x. ar_nodeId x \<noteq> ar_nodeId a' \<or> ar_name x \<noteq> ar_name a') (r_artifacts r) @ [a']\<rparr>))"

definition record_missing :: "env \<Rightarrow> string \<Rightarrow> string \<times> string \<times> string \<Rightarrow> run \<Rightarrow> run" where
  "record_missing env nodeId m r =
     (let (name, path, reason) = m
      in emit env ''artifact-missing'' (''Node '' @ nodeId @ '' did not collect artifact '' @ name @ '': '' @ reason)
           (Some [(''name'', JStr name), (''path'', JStr path), (''reason'', JStr reason)]) (Some nodeId) r)"

definition collectAndRecordArtifacts :: "env \<Rightarrow> string \<Rightarrow> node \<Rightarrow> string + collected \<Rightarrow> run \<Rightarrow> string + (run \<times> saves)" where
  "collectAndRecordArtifacts env nodeId n found r =
     (if n_artifacts n = None \<or> n_artifacts n = Some [] then Inr (r, [])
      else (case found of
              Inl e \<Rightarrow> Inl e
            | Inr (artifacts, missing) \<Rightarrow>
                let r1 = fold (record_missing env nodeId) missing (fold (record_artifact env nodeId) artifacts r)
                in if artifacts = [] \<and> missing = [] then Inr (r1, [])
                   else let r2 = touch env r1 in Inr (r2, [r2])))"

text \<open>A task of the scheduler: an attempt under way, with its number, or the settled promise.\<close>

datatype task =
    Attempting nat
  | Noop
  | Fulfilled_completed
  | Fulfilled_blocked
  | Rejected string

definition max_attempts :: "node \<Rightarrow> nat" where
  "max_attempts n = (case n_retry n of Some p \<Rightarrow> maxAttempts p | None \<Rightarrow> 1)"

definition backoffMs :: "node \<Rightarrow> nat" where
  "backoffMs n = (case Option.bind (n_retry n) backoffSeconds of Some b \<Rightarrow> b * 1000 | None \<Rightarrow> 0)"

definition str_field :: "obj \<Rightarrow> string \<Rightarrow> json" where
  "str_field m k = (case as_str (field m k) of Some s \<Rightarrow> JStr s | None \<Rightarrow> JNull)"

definition dead_letter :: "string \<Rightarrow> nat \<Rightarrow> obj \<Rightarrow> obj" where
  "dead_letter message attempts action =
     [(''state'', JStr ''dead_letter''), (''reason'', JStr message), (''attempts'', JNum (of_nat attempts)),
      (''retryableByRerun'', JBool (truthy (as_str (field action ''idempotencyKey'')))),
      (''idempotencyKey'', str_field action ''idempotencyKey''), (''digest'', str_field action ''digest'')]"

definition action_metadata :: "node_state option \<Rightarrow> obj" where
  "action_metadata st =
     (case Option.bind st (\<lambda>st. field (metadata_of st) ''action'') of Some (JObj a) \<Rightarrow> a | _ \<Rightarrow> [])"

text \<open>The tail of \<open>executeWorkflowNode\<close> after the last attempt; \<open>attempts\<close> is how many there were.\<close>

definition fail_node :: "env \<Rightarrow> string \<Rightarrow> node \<Rightarrow> nat \<Rightarrow> string \<Rightarrow> run \<Rightarrow> run" where
  "fail_node env nodeId n attempts message r =
     (let r1 = touch env (upd_node nodeId (\<lambda>st. st\<lparr>ns_status := Failed, ns_error := Some message,
                 ns_completedAt := Some (e_now env), ns_attempts := Some attempts\<rparr>) r);
          r2 = (if type_name (n_kind n) = ''action'' then
                  let action = action_metadata (jm_get (r_nodes r1) nodeId); recovery = dead_letter message attempts action
                  in emit env ''action-dead-letter''
                       (''Action node '' @ nodeId @ '' needs remediation after '' @ nat_string attempts @ '' attempt''
                        @ (if attempts = 1 then [] else ''s'')) (Some recovery) (Some nodeId)
                       (upd_node nodeId (\<lambda>st. st\<lparr>ns_metadata := Some (spread (metadata_of st)
                          [(''action'', JObj (spread action [(''recovery'', JObj recovery)]))])\<rparr>) r1)
                else r1)
      in emit env ''node-failed'' (''Node '' @ nodeId @ '' failed: '' @ message)
           (Some [(''attempts'', JNum (of_nat attempts))]) (Some nodeId) r2)"

definition note_shell_error :: "(string \<times> int option) option \<Rightarrow> node_state \<Rightarrow> node_state" where
  "note_shell_error shell st =
     (case shell of
        None \<Rightarrow> st
      | Some (output, code) \<Rightarrow> st\<lparr>ns_output := (if output \<noteq> [] then Some output else ns_output st), ns_exitCode := code\<rparr>)"

text \<open>The \<open>catch\<close> clause: another attempt, or the end.\<close>

definition attempt_failed ::
    "env \<Rightarrow> string \<Rightarrow> node \<Rightarrow> nat \<Rightarrow> string \<Rightarrow> (string \<times> int option) option \<Rightarrow> run \<Rightarrow> run \<times> saves \<times> task" where
  "attempt_failed env nodeId n k message shell r =
     (let r1 = upd_node nodeId (note_shell_error shell) r
      in if classifyRetry message (n_retry n) = Retry \<and> max_attempts n - k > 0 then
           let r2 = touch env (emit env ''node-retry''
                      (''Node '' @ nodeId @ '' retry '' @ nat_string (k + 1) @ ''/'' @ nat_string (max_attempts n) @ '': '' @ message)
                      (Some [(''attempt'', JNum (of_nat k)), (''message'', JStr message), (''backoffMs'', JNum (of_nat (backoffMs n)))])
                      (Some nodeId) r1)
           in (r2, [r2], Attempting (k + 1))
         else let r2 = fail_node env nodeId n k message r1 in (r2, [r2], Rejected message))"

definition complete_node :: "env \<Rightarrow> string \<Rightarrow> run \<Rightarrow> run" where
  "complete_node env nodeId r =
     emit env ''node-completed'' (''Node '' @ nodeId @ '' completed'') None (Some nodeId)
       (touch env (upd_node nodeId (\<lambda>st. st\<lparr>ns_status := Completed, ns_completedAt := Some (e_now env)\<rparr>) r))"

text \<open>The end of attempt \<open>k\<close>, from the outcome of the executor and what the collection of artifacts finds.\<close>

definition end_attempt ::
    "env \<Rightarrow> string \<Rightarrow> node \<Rightarrow> nat \<Rightarrow> string + collected \<Rightarrow> attempt \<Rightarrow> run \<times> saves \<times> task" where
  "end_attempt env nodeId n k found att =
     (let (r, ss, out) = att
      in case out of
           Waiting \<Rightarrow> (r, ss, Fulfilled_blocked)
         | Error message shell \<Rightarrow>
             let (r', ss', t) = attempt_failed env nodeId n k message shell r in (r', ss @ ss', t)
         | Done _ \<Rightarrow>
             (case collectAndRecordArtifacts env nodeId n found r of
                Inl e \<Rightarrow> let (r', ss', t) = attempt_failed env nodeId n k e None r in (r', ss @ ss', t)
              | Inr (r1, ss1) \<Rightarrow>
                  let r2 = complete_node env nodeId r1 in (r2, ss @ ss1 @ [r2], Fulfilled_completed)))"

text \<open>The start of a task: the guards of the scheduler and of \<open>executeWorkflowNode\<close>, and the first save. A policy of
  no attempts fails at once, with no error to report.\<close>

definition start_task :: "definition_nodes \<Rightarrow> env \<Rightarrow> string \<Rightarrow> run \<Rightarrow> run \<times> saves \<times> task" where
  "start_task nodes env nodeId r =
     (case (jm_get nodes nodeId, jm_get (r_nodes r) nodeId) of
        (Some n, Some st) \<Rightarrow>
          if ns_status st = Completed \<or> ns_status st = Skipped then (r, [], Noop)
          else
            let r1 = begin_node env nodeId n r
            in if max_attempts n = 0 then let r2 = fail_node env nodeId n 0 ''null'' r1 in (r2, [r1, r2], Rejected ''null'')
               else (r1, [r1], Attempting 1)
      | _ \<Rightarrow> (r, [], Noop))"

end
