(* ===== verification/Workflow_Outputs.thy ===== *)
theory Workflow_Outputs
  imports Workflow_Executor
begin

text \<open>
  The structured outputs of a node (packages/daemon/src/workflows/structured-outputs.ts): the declared outputs are
  extracted from the text that the node has produced and coerced to their types. \<open>None\<close> is \<open>undefined\<close>.
\<close>

record output_definition =
  od_type :: string
  od_requirement :: "string option"
  od_extract :: "string option"

definition output_definition_of :: "json \<Rightarrow> output_definition" where
  "output_definition_of j =
     (let ob = (case j of JObj fs \<Rightarrow> fs | _ \<Rightarrow> [])
      in \<lparr>od_type = (case as_str (field ob ''type'') of Some s \<Rightarrow> s | None \<Rightarrow> []),
          od_requirement = as_str (field ob ''requirement''), od_extract = as_str (field ob ''extract'')\<rparr>)"

definition structuredOutputDefinitions :: "node \<Rightarrow> (string, output_definition) js_map" where
  "structuredOutputDefinitions n =
     map (\<lambda>(k, v). (k, output_definition_of v))
       (spread (spread [] (case n_outputs n of Some fs \<Rightarrow> fs | None \<Rightarrow> []))
               (case n_outputSchema n of Some fs \<Rightarrow> fs | None \<Rightarrow> []))"

section \<open>Numbers in text\<close>

text \<open>\<open>Number(text)\<close> on trimmed text, where it is finite: decimal literals with an optional sign, and hexadecimal,
  octal and binary integers.\<close>

definition radix_digit :: "nat \<Rightarrow> char \<Rightarrow> bool" where
  "radix_digit b c \<longleftrightarrow> (case hex_of c of Some d \<Rightarrow> d < b | None \<Rightarrow> False)"

definition radix_number :: "nat \<Rightarrow> string \<Rightarrow> rat option" where
  "radix_number b s =
     (if s \<noteq> [] \<and> (\<forall>c \<in> set s. radix_digit b c)
      then Some (of_nat (fold (\<lambda>c acc. b * acc + (case hex_of c of Some d \<Rightarrow> d | None \<Rightarrow> 0)) s 0)) else None)"

definition exponent_of :: "string \<Rightarrow> int option" where
  "exponent_of s =
     (case s of
        [] \<Rightarrow> Some 0
      | c # t \<Rightarrow>
          if c \<noteq> CHR ''e'' \<and> c \<noteq> CHR ''E'' then None
          else
            let (sg, ds) = (case t of
                  [] \<Rightarrow> (1, []) | d # u \<Rightarrow> if d = CHR ''-'' then (-1, u) else if d = CHR ''+'' then (1, u) else (1, d # u))
            in if ds \<noteq> [] \<and> (\<forall>c \<in> set ds. is_digit c) then Some (sg * int (number_of 0 ds)) else None)"

definition unsigned_decimal :: "string \<Rightarrow> rat option" where
  "unsigned_decimal s =
     (let whole = takeWhile is_digit s; rest = dropWhile is_digit s;
          (frac, tail) = (case rest of
             [] \<Rightarrow> ([], []) | c # t \<Rightarrow> if c = CHR ''.'' then (takeWhile is_digit t, dropWhile is_digit t) else ([], c # t))
      in if whole = [] \<and> frac = [] then None
         else map_option (\<lambda>e. of_nat (number_of 0 (whole @ frac)) * ten_power (e - int (length frac))) (exponent_of tail))"

definition js_number :: "string \<Rightarrow> rat option" where
  "js_number s =
     (if s = [] then Some 0
      else if startsWith s ''0x'' \<or> startsWith s ''0X'' then radix_number 16 (drop 2 s)
      else if startsWith s ''0o'' \<or> startsWith s ''0O'' then radix_number 8 (drop 2 s)
      else if startsWith s ''0b'' \<or> startsWith s ''0B'' then radix_number 2 (drop 2 s)
      else if startsWith s ''-'' then map_option uminus (unsigned_decimal (drop 1 s))
      else if startsWith s ''+'' then unsigned_decimal (drop 1 s)
      else unsigned_decimal s)"

section \<open>Capturing the outputs\<close>

definition parseJson :: "string \<Rightarrow> json option" where
  "parseJson text' = (let trimmed = trim text' in if trimmed = [] then Some JNull else JSON_parse trimmed)"

definition outputSource :: "jsonata \<Rightarrow> string \<Rightarrow> json option \<Rightarrow> output_definition \<Rightarrow> json option" where
  "outputSource jsonata text' parsed def =
     (if \<not> truthy (od_extract def) then Some (JStr text')
      else (case jsonata (the (od_extract def)) ((''output'', JStr text') # opt_field ''json'' parsed) of
              Result v \<Rightarrow> v
            | _ \<Rightarrow> Some JNull))"

definition coerceOutputValue :: "json option \<Rightarrow> output_definition \<Rightarrow> json" where
  "coerceOutputValue v def =
     (let s = stringifyTemplateValue v in
      if od_type def = ''string'' then JStr s
      else if od_type def = ''json'' then
        if truthy (od_extract def) then (case v of Some j \<Rightarrow> j | None \<Rightarrow> JNull)
        else (case parseJson s of Some j \<Rightarrow> j | None \<Rightarrow> JStr s)
      else if od_type def = ''number'' then (case js_number (trim s) of Some q \<Rightarrow> JNum q | None \<Rightarrow> JNull)
      else if od_type def = ''boolean'' then JBool (isTruthyGateValue s)
      else if od_type def = ''file'' \<or> od_type def = ''artifact'' then (if s = [] then JNull else JStr s)
      else JStr s)"

definition invalidOutputReason :: "json \<Rightarrow> json option \<Rightarrow> json option \<Rightarrow> string \<Rightarrow> output_definition \<Rightarrow> string option" where
  "invalidOutputReason v source parsed text' def =
     (if source = None \<or> source = Some JNull \<or> trim (stringifyTemplateValue source) = [] then Some ''missing''
      else if od_type def = ''string'' then (if trim (stringifyTemplateValue (Some v)) = [] then Some ''missing'' else None)
      else if od_type def = ''json'' then
        if \<not> truthy (od_extract def) \<and> parsed = None \<and> trim text' \<noteq> [] then Some ''malformed_json''
        else if v = JNull then Some ''missing'' else None
      else if od_type def = ''number'' then (case v of JNum _ \<Rightarrow> None | _ \<Rightarrow> Some ''invalid_number'')
      else if od_type def = ''boolean'' then (case v of JBool _ \<Rightarrow> None | _ \<Rightarrow> Some ''invalid_boolean'')
      else if od_type def = ''file'' \<or> od_type def = ''artifact'' then
        (if trim (stringifyTemplateValue (Some v)) = [] then Some ''missing'' else None)
      else None)"

definition receipt_entry :: "string \<Rightarrow> string \<Rightarrow> string option \<Rightarrow> json" where
  "receipt_entry requirement status reason =
     JObj ([(''requirement'', JStr requirement), (''status'', JStr status)] @ opt_field ''reason'' (map_option JStr reason))"

text \<open>The loop over the definitions: the collected values and the receipt, or, for a required output that is invalid,
  its name and the reason with the receipt up to it.\<close>

fun collect_outputs ::
    "jsonata \<Rightarrow> string \<Rightarrow> json option \<Rightarrow> (string \<times> output_definition) list \<Rightarrow> obj \<Rightarrow> obj
     \<Rightarrow> (string \<times> string \<times> obj) + (obj \<times> obj)" where
  "collect_outputs jsonata text' parsed [] collected receipt = Inr (collected, receipt)"
| "collect_outputs jsonata text' parsed ((name, def) # defs) collected receipt =
     (let requirement = (case od_requirement def of Some q \<Rightarrow> q | None \<Rightarrow> ''optional'')
      in if requirement = ''unsupported'' then
           collect_outputs jsonata text' parsed defs collected
             (jm_set name (receipt_entry requirement ''degraded'' (Some ''structured_output_unsupported'')) receipt)
         else
           let source = outputSource jsonata text' parsed def; v = coerceOutputValue source def;
               invalid = invalidOutputReason v source parsed text' def
           in if requirement = ''required'' \<and> invalid \<noteq> None then
                Inl (name, the invalid, jm_set name (receipt_entry requirement ''invalid'' invalid) receipt)
              else
                collect_outputs jsonata text' parsed defs (jm_set name v collected)
                  (jm_set name (receipt_entry requirement (if invalid = None then ''captured'' else ''invalid'') invalid) receipt))"

definition outputs_receipt :: "obj \<Rightarrow> node_state \<Rightarrow> node_state" where
  "outputs_receipt receipt st =
     st\<lparr>ns_metadata := Some (spread (metadata_of st)
          [(''structuredOutputs'', JObj [(''schema'', JStr ''viewport.structured_outputs/v1''), (''outputs'', JObj receipt)])])\<rparr>"

text \<open>The state after the capture, and the message of the exception if there is one.\<close>

definition captureNodeStructuredOutputs :: "jsonata \<Rightarrow> node \<Rightarrow> node_state \<Rightarrow> node_state \<times> string option" where
  "captureNodeStructuredOutputs jsonata n st =
     (let defs = structuredOutputDefinitions n in
      if defs = [] then (st, None)
      else
        let text' = (case ns_output st of Some s \<Rightarrow> s | None \<Rightarrow> []) in
        (case collect_outputs jsonata text' (parseJson text') defs [] [] of
           Inl (name, reason, receipt) \<Rightarrow>
             (outputs_receipt receipt (st\<lparr>ns_outputs := Some [], ns_status := Failed,
                ns_error := Some (''Required structured output '' @ name @ '' is invalid: '' @ reason)\<rparr>),
              Some (''Structured output '' @ name @ '' is invalid: '' @ reason))
         | Inr (collected, receipt) \<Rightarrow> (outputs_receipt receipt (st\<lparr>ns_outputs := Some collected\<rparr>), None)))"

section \<open>Captured outputs have their types\<close>

definition has_type :: "string \<Rightarrow> json \<Rightarrow> bool" where
  "has_type ty v \<longleftrightarrow>
     (if ty = ''string'' then (\<exists>s. v = JStr s \<and> trim s \<noteq> [])
      else if ty = ''number'' then (\<exists>q. v = JNum q)
      else if ty = ''boolean'' then (\<exists>b. v = JBool b)
      else if ty = ''json'' then v \<noteq> JNull
      else if ty = ''file'' \<or> ty = ''artifact'' then (\<exists>s. v = JStr s \<and> trim s \<noteq> [])
      else True)"

lemma valid_has_type:
  assumes "invalidOutputReason (coerceOutputValue source def) source parsed text' def = None"
  shows "has_type (od_type def) (coerceOutputValue source def)"
  using assms
  by (auto simp: invalidOutputReason_def coerceOutputValue_def has_type_def Let_def stringifyTemplateValue_def
      split: if_splits option.splits json.splits)

lemma collect_keeps:
  assumes "collect_outputs jsonata text' parsed defs collected receipt = Inr (collected', receipt')"
    and "name \<notin> fst ` set defs"
  shows "jm_get collected' name = jm_get collected name"
  using assms
proof (induction defs arbitrary: collected receipt)
  case (Cons d ds)
  obtain k def where d: "d = (k, def)" by fastforce
  from Cons.prems obtain c r where "collect_outputs jsonata text' parsed ds c r = Inr (collected', receipt')"
      "jm_get c name = jm_get collected name"
    by (auto simp: d Let_def split: if_splits)
  then show ?case using Cons.IH Cons.prems(2) by auto
qed simp

lemma collect_required:
  assumes "collect_outputs jsonata text' parsed defs collected receipt = Inr (collected', receipt')"
    and "(name, def) \<in> set defs" and "distinct (map fst defs)" and "od_requirement def = Some ''required''"
  shows "\<exists>v. jm_get collected' name = Some v \<and> has_type (od_type def) v"
  using assms
proof (induction defs arbitrary: collected receipt)
  case (Cons d ds)
  show ?case
  proof (cases "d = (name, def)")
    case True
    let ?source = "outputSource jsonata text' parsed def"
    from Cons.prems(1,4) True have valid: "invalidOutputReason (coerceOutputValue ?source def) ?source parsed text' def = None"
      and rest: "collect_outputs jsonata text' parsed ds (jm_set name (coerceOutputValue ?source def) collected)
        (jm_set name (receipt_entry ''required'' ''captured'' None) receipt) = Inr (collected', receipt')"
      by (auto simp: Let_def split: if_splits)
    have "name \<notin> fst ` set ds" using Cons.prems(3) True by auto
    from collect_keeps [OF rest this] valid_has_type [OF valid] show ?thesis by simp
  next
    case False
    obtain k def' where d: "d = (k, def')" by fastforce
    from Cons.prems(1) obtain c r where "collect_outputs jsonata text' parsed ds c r = Inr (collected', receipt')"
      by (auto simp: d Let_def split: if_splits)
    then show ?thesis using Cons.IH Cons.prems(2-4) False by auto
  qed
qed simp

lemma spread_distinct: "distinct (map fst base) \<Longrightarrow> distinct (map fst (spread base extras))"
proof (induction extras arbitrary: base)
  case (Cons e es)
  have "distinct (map fst (jm_set (fst e) (snd e) base))"
    using jm_wf_set [of base "fst e" "snd e"] Cons.prems by (simp add: jm_wf_def jm_keys_def)
  from Cons.IH [OF this] show ?case by (simp add: spread_def case_prod_beta)
qed (simp add: spread_def)

lemma definitions_distinct: "distinct (map fst (structuredOutputDefinitions n))"
  using spread_distinct [OF spread_distinct [of "[]"]]
  by (auto simp: structuredOutputDefinitions_def comp_def case_prod_beta)

text \<open>C21: Required outputs are delivered, with their types. When the outputs of a node are captured without an error,
  every output that the node declares as required has a value of its declared type: text that is not blank, a
  number, a boolean, JSON other than null. Otherwise the node has failed, with no outputs and a message that names
  the offending output.\<close>

theorem required_outputs_typed:
  assumes "captureNodeStructuredOutputs jsonata n st = (st', err)"
    and "(name, def) \<in> set (structuredOutputDefinitions n)" and "od_requirement def = Some ''required''"
  shows "(err = None \<longrightarrow> ns_status st' = ns_status st \<and>
           (\<exists>outputs v. ns_outputs st' = Some outputs \<and> jm_get outputs name = Some v \<and> has_type (od_type def) v)) \<and>
         (err \<noteq> None \<longrightarrow> ns_status st' = Failed \<and> ns_outputs st' = Some [])"
proof -
  let ?text = "case ns_output st of Some s \<Rightarrow> s | None \<Rightarrow> []"
  let ?c = "collect_outputs jsonata ?text (parseJson ?text) (structuredOutputDefinitions n) [] []"
  have "structuredOutputDefinitions n \<noteq> []" using assms(2) by auto
  then show ?thesis
    using assms(1) collect_required [OF _ assms(2) definitions_distinct assms(3), of jsonata ?text "parseJson ?text" "[]" "[]"]
    by (cases ?c) (auto simp: captureNodeStructuredOutputs_def Let_def outputs_receipt_def)
qed

definition demo_output_node :: node where
  "demo_output_node = (plain_node (Plan [] None None None None) [])
     \<lparr>n_outputs := Some [(''count'', JObj [(''type'', JStr ''number''), (''requirement'', JStr ''required'')])]\<rparr>"

theorem required_outputs_typed_witness:
  "\<exists>st'. captureNodeStructuredOutputs (\<lambda>_ _. Result None) demo_output_node ((demo_state ''a'' Completed)\<lparr>ns_output := Some '' 12.5 ''\<rparr>)
       = (st', None) \<and> (\<exists>outputs v. ns_outputs st' = Some outputs \<and> jm_get outputs ''count'' = Some v \<and> has_type ''number'' v)"
proof -
  let ?st = "(demo_state ''a'' Completed)\<lparr>ns_output := Some '' 12.5 ''\<rparr>"
  obtain st' err where c: "captureNodeStructuredOutputs (\<lambda>_ _. Result None) demo_output_node ?st = (st', err)" by fastforce
  have "snd (captureNodeStructuredOutputs (\<lambda>_ _. Result None) demo_output_node ?st) = None" by code_simp
  moreover have "(''count'', \<lparr>od_type = ''number'', od_requirement = Some ''required'', od_extract = None\<rparr>)
      \<in> set (structuredOutputDefinitions demo_output_node)" by code_simp
  ultimately show ?thesis using required_outputs_typed [OF c] c by fastforce
qed

end
