(* ===== verification/Workflow_Recovery.thy ===== *)
theory Workflow_Recovery
  imports Workflow_Executor
begin

text \<open>
  Reading, failing and resuming runs (packages/daemon/src/workflows/runner-reconciler.ts, runner-resumer.ts and
  \<open>failRun\<close> and \<open>requireRun\<close> of runner.ts). The reconciler brings a stored run in line with the agent sessions that
  ended while nobody watched; the resumer puts interrupted work back into the queue after a restart of the daemon.

  The sessions themselves are the daemon's: their state and what they have left on disk is the record \<open>sessions\<close>.
\<close>

record sessions =
  session_state :: "string \<Rightarrow> string option"
  prompt_output :: "node_state \<Rightarrow> string"
  prompt_excerpt :: "node_state \<Rightarrow> json list"

section \<open>Reconciling\<close>

definition backfillPromptNodeData :: "sessions \<Rightarrow> node_state \<Rightarrow> node_state \<times> bool" where
  "backfillPromptNodeData ss st =
     (let fresh_output = \<not> truthy (ns_output st) \<and> prompt_output ss st \<noteq> [];
          st1 = (if fresh_output then st\<lparr>ns_output := Some (prompt_output ss st)\<rparr> else st);
          fresh_excerpt = (ns_transcriptExcerpt st = None \<or> ns_transcriptExcerpt st = Some []) \<and> prompt_excerpt ss st1 \<noteq> [];
          st2 = (if fresh_excerpt then st1\<lparr>ns_transcriptExcerpt := Some (prompt_excerpt ss st1)\<rparr> else st1)
      in (st2, fresh_output \<or> fresh_excerpt))"

definition recovered_data :: "node_state \<Rightarrow> obj" where
  "recovered_data st =
     (if truthy (ns_output st) then [(''output'', JStr (the (ns_output st)))] else [])
     @ opt_field ''transcriptExcerpt'' (map_option JArr (ns_transcriptExcerpt st))"

definition emit_recovered :: "env \<Rightarrow> node_state \<Rightarrow> run \<Rightarrow> run" where
  "emit_recovered env st r =
     emit env ''node-output'' (''Node '' @ ns_id st @ '' recovered prompt output'') (Some (recovered_data st)) (Some (ns_id st)) r"

definition backfillPromptOutput :: "sessions \<Rightarrow> env \<Rightarrow> string \<Rightarrow> run \<times> bool \<Rightarrow> run \<times> bool" where
  "backfillPromptOutput ss env i acc =
     (let (r, changed) = acc in
      case jm_get (r_nodes r) i of
        None \<Rightarrow> acc
      | Some st \<Rightarrow>
          if ns_type st \<noteq> ''prompt'' \<or> \<not> truthy (ns_sessionId st) then acc
          else
            let (st', recovered) = backfillPromptNodeData ss st
            in if \<not> recovered then acc
               else (emit_recovered env st' (touch env (upd_node i (\<lambda>_. st') r)), True))"

definition backfillPromptOutputs :: "sessions \<Rightarrow> env \<Rightarrow> run \<Rightarrow> run \<times> saves" where
  "backfillPromptOutputs ss env r =
     (let (r', changed) = fold (backfillPromptOutput ss env) (jm_keys (r_nodes r)) (r, False)
      in (r', if changed then [r'] else []))"

definition session_ended :: "sessions \<Rightarrow> env \<Rightarrow> string \<Rightarrow> string \<Rightarrow> string \<Rightarrow> node_state \<Rightarrow> run \<Rightarrow> run" where
  "session_ended ss env i sid state st r =
     (let (st1, recovered) = backfillPromptNodeData ss st;
          at' = (case ns_completedAt st1 of Some t \<Rightarrow> t | None \<Rightarrow> e_now env);
          st2 = st1\<lparr>ns_status := Completed, ns_completedAt := Some at'\<rparr>;
          r1 = (upd_node i (\<lambda>_. st2) r)\<lparr>r_updatedAt := at'\<rparr>;
          r2 = (if recovered then emit_recovered env st2 r1 else r1);
          r3 = emit env (if state = ''idle'' then ''session-idle'' else ''session-ended'')
                 (''Node '' @ ns_id st @ '' session '' @ sid @ '' '' @ (if state = ''idle'' then ''became idle'' else ''ended''))
                 (Some [(''sessionId'', JStr sid), (''reason'', JStr state)]) (Some (ns_id st)) r2
      in emit env ''node-completed'' (''Node '' @ ns_id st @ '' completed'') None (Some (ns_id st)) r3)"

definition session_errored :: "env \<Rightarrow> string \<Rightarrow> string \<Rightarrow> node_state \<Rightarrow> run \<Rightarrow> run" where
  "session_errored env i sid st r =
     (let message = ''Session '' @ sid @ '' errored'';
          r1 = (upd_node i (\<lambda>st. st\<lparr>ns_status := Failed, ns_error := Some message, ns_completedAt := Some (e_now env)\<rparr>) r)
                 \<lparr>r_status := RFailed, r_error := Some message, r_completedAt := Some (e_now env), r_updatedAt := e_now env\<rparr>;
          r2 = emit env ''node-failed'' (''Node '' @ ns_id st @ '' failed: '' @ message) None (Some (ns_id st)) r1
      in emit env ''run-failed'' (''Workflow run failed: '' @ message) None None r2)"

definition reconcile_node :: "sessions \<Rightarrow> env \<Rightarrow> string \<Rightarrow> run \<times> bool \<Rightarrow> run \<times> bool" where
  "reconcile_node ss env i acc =
     (let (r, changed) = acc in
      case jm_get (r_nodes r) i of
        None \<Rightarrow> acc
      | Some st \<Rightarrow>
          if ns_status st \<noteq> Running \<or> ns_type st \<noteq> ''prompt'' \<or> \<not> truthy (ns_sessionId st) then acc
          else
            let sid = the (ns_sessionId st); state = session_state ss sid
            in if state = Some ''idle'' \<or> state = Some ''completed''
               then (session_ended ss env i sid (the state) st r, True)
               else if state = Some ''errored'' then (session_errored env i sid st r, True)
               else acc)"

definition reconcile :: "sessions \<Rightarrow> env \<Rightarrow> bool \<Rightarrow> run \<Rightarrow> run \<times> saves" where
  "reconcile ss env active r =
     (if r_status r \<noteq> RQueued \<and> r_status r \<noteq> RRunning then backfillPromptOutputs ss env r
      else if active then (r, [])
      else
        let (r1, changed) = fold (reconcile_node ss env) (jm_keys (r_nodes r)) (r, False);
            r2 = (if changed \<and> (\<forall>(_, st) \<in> set (r_nodes r1). ns_status st = Completed) then
                    let at' = (case r_completedAt r1 of Some t \<Rightarrow> t | None \<Rightarrow> e_now env)
                    in emit env ''run-completed'' ''Workflow run completed'' None None
                         (r1\<lparr>r_status := RCompleted, r_completedAt := Some at', r_updatedAt := at'\<rparr>)
                  else r1)
        in (r2, if changed then [r2] else []))"

section \<open>Failing a run\<close>

text \<open>\<open>failRun\<close> on the run it has read; \<open>None\<close> when there is nothing to save.\<close>

definition failRun :: "env \<Rightarrow> string \<Rightarrow> run \<Rightarrow> run option" where
  "failRun env message r =
     (if r_status r = RCompleted \<or> r_status r = RFailed \<or> r_status r = RCanceled then None
      else Some (emit env ''run-failed'' (''Workflow run failed: '' @ message) None None
             (r\<lparr>r_status := RFailed, r_error := Some message, r_completedAt := Some (e_now env), r_updatedAt := e_now env\<rparr>)))"

section \<open>Resuming after a restart\<close>

definition hasInFlightPromptSession :: "run \<Rightarrow> bool" where
  "hasInFlightPromptSession r \<longleftrightarrow>
     (\<exists>(_, st) \<in> set (r_nodes r). ns_status st = Running \<and> ns_type st = ''prompt'' \<and> truthy (ns_sessionId st))"

definition requeue :: "node_state \<Rightarrow> node_state" where
  "requeue st =
     (if ns_status st = Running
      then st\<lparr>ns_status := Queued, ns_startedAt := None, ns_output := None, ns_exitCode := None\<rparr> else st)"

text \<open>The copies that are saved, and the run with which the scheduler starts, if it does.\<close>

definition resumeOneRun :: "sessions \<Rightarrow> env \<Rightarrow> run \<Rightarrow> saves \<times> run option" where
  "resumeOneRun ss env r0 =
     (let (r, saved) = reconcile ss env False r0
      in if r_status r \<noteq> RRunning \<and> r_status r \<noteq> RQueued then (saved, None)
         else if hasInFlightPromptSession r then
           (saved @ [emit env ''run-resume-paused'' ''Workflow run resume paused for an in-flight prompt session'' None None r], None)
         else
           let dirty = (\<exists>(_, st) \<in> set (r_nodes r). ns_status st = Running);
               r1 = r\<lparr>r_nodes := map (\<lambda>(i, st). (i, requeue st)) (r_nodes r)\<rparr>;
               r2 = (if dirty then emit env ''run-started'' ''Workflow run resumed after restart'' None None r1 else r1)
           in (saved @ (if dirty then [r2] else []), Some r2))"

section \<open>Facts\<close>

lemma emit_fields [simp]:
  "r_nodes (emit env t m d i r) = r_nodes r" "r_status (emit env t m d i r) = r_status r"
  "r_id (emit env t m d i r) = r_id r" "r_startedAt (emit env t m d i r) = r_startedAt r"
  "r_completedAt (emit env t m d i r) = r_completedAt r" "r_error (emit env t m d i r) = r_error r"
  "r_updatedAt (emit env t m d i r) = r_updatedAt r"
  by (simp_all add: emit_def)

lemma touch_fields [simp]:
  "r_nodes (touch env r) = r_nodes r" "r_status (touch env r) = r_status r" "r_id (touch env r) = r_id r"
  by (simp_all add: touch_def)

lemma backfill_status: "ns_status (fst (backfillPromptNodeData ss st)) = ns_status st"
  by (simp add: backfillPromptNodeData_def Let_def)

text \<open>The status of a node, and the nodes that a run has.\<close>

definition status_of :: "run \<Rightarrow> string \<Rightarrow> node_status option" where
  "status_of r i = map_option ns_status (jm_get (r_nodes r) i)"

lemma status_of_upd [simp]:
  "status_of (upd_node i f r) j = (if j = i then map_option (ns_status \<circ> f) (jm_get (r_nodes r) i) else status_of r j)"
  by (simp add: status_of_def option.map_comp)

lemma status_of_cong: "r_nodes r = r_nodes r' \<Longrightarrow> status_of r = status_of r'"
  by (simp add: status_of_def [abs_def])

lemma status_of_nodes [simp]:
  "status_of (emit env t m d i r) = status_of r" "status_of (touch env r) = status_of r"
  "status_of (r\<lparr>r_status := s\<rparr>) = status_of r" "status_of (r\<lparr>r_updatedAt := t1\<rparr>) = status_of r"
  "status_of (r\<lparr>r_error := e\<rparr>) = status_of r" "status_of (r\<lparr>r_completedAt := c\<rparr>) = status_of r"
  "status_of (r\<lparr>r_startedAt := c\<rparr>) = status_of r" "status_of (r\<lparr>r_artifacts := a\<rparr>) = status_of r"
  "status_of (r\<lparr>r_events := ev\<rparr>) = status_of r"
  by (simp_all add: status_of_def [abs_def])

lemma backfillPromptOutputs_status:
  "status_of (fst (backfillPromptOutputs ss env r)) = status_of r \<and>
   jm_keys (r_nodes (fst (backfillPromptOutputs ss env r))) = jm_keys (r_nodes r) \<and>
   r_status (fst (backfillPromptOutputs ss env r)) = r_status r \<and> r_id (fst (backfillPromptOutputs ss env r)) = r_id r \<and>
   set (snd (backfillPromptOutputs ss env r)) \<subseteq> {fst (backfillPromptOutputs ss env r)}"
proof -
  have step: "status_of (fst (backfillPromptOutput ss env i acc)) = status_of (fst acc) \<and>
      jm_keys (r_nodes (fst (backfillPromptOutput ss env i acc))) = jm_keys (r_nodes (fst acc)) \<and>
      r_status (fst (backfillPromptOutput ss env i acc)) = r_status (fst acc) \<and>
      r_id (fst (backfillPromptOutput ss env i acc)) = r_id (fst acc)" for i acc
  proof -
    obtain r c where acc: "acc = (r, c)" by fastforce
    show ?thesis
      using backfill_status [of ss]
      by (auto simp: acc backfillPromptOutput_def emit_recovered_def Let_def fun_eq_iff status_of_def comp_def
          split: option.splits prod.splits) (metis fst_conv)+
  qed
  have "status_of (fst (fold (backfillPromptOutput ss env) is acc)) = status_of (fst acc) \<and>
      jm_keys (r_nodes (fst (fold (backfillPromptOutput ss env) is acc))) = jm_keys (r_nodes (fst acc)) \<and>
      r_status (fst (fold (backfillPromptOutput ss env) is acc)) = r_status (fst acc) \<and>
      r_id (fst (fold (backfillPromptOutput ss env) is acc)) = r_id (fst acc)" for "is" acc
    using step by (induction "is" arbitrary: acc) auto
  from this [of "jm_keys (r_nodes r)" "(r, False)"] show ?thesis
    by (auto simp: backfillPromptOutputs_def split: prod.splits)
qed

end
