(* ===== verification/Workflow_Scheduler.thy ===== *)
theory Workflow_Scheduler
  imports Workflow_Outputs Workflow_Recovery
begin

text \<open>
  The scheduling loop of a workflow run (packages/daemon/src/workflows/runner-scheduler.ts). The loop works in
  rounds: it reads the run from the store, finds the ready nodes, skips those whose guards say so and executes the
  others in parallel; when all have settled it decides how the run goes on.

  The state of a scheduler is the stored run and the phase of its loop. A round, the start of a layer and the end of
  a layer are functions; the executors of a layer, which share the copy of the run that the round has read, take
  their steps in any order. A save is one step (see \<open>Workflow_Store\<close>).
\<close>

text \<open>The saves of an operation, one after the other, into the stored run.\<close>

definition saved :: "saves \<Rightarrow> run \<Rightarrow> run" where
  "saved ss stored = fold mergeExistingRun ss stored"

record workflow =
  w_nodes :: definition_nodes
  w_jsonata :: jsonata
  w_parse_date :: "string \<Rightarrow> int option"

datatype phase =
    Starting bool
  | Loop nat
  | Layer nat run "string list" "(string, task) js_map"
  | Returned
  | Thrown string

section \<open>Guards\<close>

text \<open>\<open>Inl\<close> is an exception, \<open>Inr (Some reason)\<close> skips the node. The arrow in the reason is \<open>->\<close> here.\<close>

definition evaluateNodeGuards :: "workflow \<Rightarrow> run \<Rightarrow> string \<Rightarrow> node \<Rightarrow> string + string option" where
  "evaluateNodeGuards w r nodeId n =
     (let parents = List.map_filter (jm_get (r_nodes r)) (needs n);
          trigger = evaluateTriggerRule (n_triggerRule n) parents
      in if \<not> te_ready trigger \<and> truthy (te_reason trigger) \<and> isTriggerSkipReason (te_reason trigger)
         then Inr (te_reason trigger)
         else if truthy (n_when n) then
           (case evaluateConditionExpression (w_jsonata w) (the (n_when n)) (buildExpressionContext r) of
              Inl (message, _) \<Rightarrow> Inl (''Invalid when expression on '' @ nodeId @ '': '' @ message)
            | Inr b \<Rightarrow> Inr (if b then None else Some (''when: '' @ the (n_when n) @ '' -> false'')))
         else Inr None)"

fun classifyLayer :: "workflow \<Rightarrow> run \<Rightarrow> string list \<Rightarrow> string + (string list \<times> (string \<times> string) list)" where
  "classifyLayer w r [] = Inr ([], [])"
| "classifyLayer w r (i # is) =
     (case jm_get (w_nodes w) i of
        None \<Rightarrow> classifyLayer w r is
      | Some n \<Rightarrow>
          (case evaluateNodeGuards w r i n of
             Inl e \<Rightarrow> Inl e
           | Inr guard \<Rightarrow>
               map_sum id (\<lambda>(toExecute, skipped).
                   if truthy guard then (toExecute, (i, the guard) # skipped) else (i # toExecute, skipped))
                 (classifyLayer w r is)))"

definition markSkipped :: "env \<Rightarrow> string \<times> string \<Rightarrow> run \<Rightarrow> run" where
  "markSkipped env entry r =
     (let (nodeId, reason) = entry in
      case jm_get (r_nodes r) nodeId of
        None \<Rightarrow> r
      | Some _ \<Rightarrow>
          emit env ''node-skipped'' (''Node '' @ nodeId @ '' skipped: '' @ reason) (Some [(''reason'', JStr reason)]) (Some nodeId)
            (touch env (upd_node nodeId (\<lambda>st. st\<lparr>ns_status := Skipped, ns_skipReason := Some reason,
               ns_completedAt := Some (e_now env)\<rparr>) r)))"

section \<open>The loop\<close>

definition safety_bound :: nat where
  "safety_bound = 10000"

text \<open>The beginning of \<open>run\<close>, given the issues that the preflight check finds; \<open>active\<close> says whether the run is marked
  as active, which keeps the reconciler away from it.\<close>

definition start_run :: "sessions \<Rightarrow> env \<Rightarrow> bool \<Rightarrow> bool \<Rightarrow> json list \<Rightarrow> run \<Rightarrow> run \<times> phase" where
  "start_run ss env active resumed issues stored0 =
     (let (r, more) = reconcile ss env active stored0; stored = saved more stored0;
          r1 = emit env ''run-started'' (if resumed then ''Workflow run resumed'' else ''Workflow run started'') None None
                 (r\<lparr>r_status := RRunning,
                    r_startedAt := (case r_startedAt r of Some t \<Rightarrow> Some t | None \<Rightarrow> Some (e_now env)),
                    r_updatedAt := e_now env\<rparr>)
      in if issues \<noteq> [] then
           (saved [emit env ''run-blocked'' ''Workflow blocked by preflight'' (Some [(''issues'', JArr issues)]) None
              (r1\<lparr>r_status := RBlocked, r_completedAt := Some (e_now env), r_updatedAt := e_now env\<rparr>)] stored, Returned)
         else (saved [r1] stored, Loop 0))"

text \<open>The tasks of a layer start one after the other; each runs up to its first save.\<close>

fun start_tasks :: "definition_nodes \<Rightarrow> env \<Rightarrow> string list \<Rightarrow> run \<Rightarrow> run \<times> saves \<times> (string, task) js_map" where
  "start_tasks nodes env [] r = (r, [], [])"
| "start_tasks nodes env (i # is) r =
     (let (r1, ss1, t) = start_task nodes env i r; (r2, ss2, ts) = start_tasks nodes env is r1
      in (r2, ss1 @ ss2, (i, t) # ts))"

definition unfinished :: "run \<Rightarrow> node_state list" where
  "unfinished r = filter (\<lambda>st. \<not> isTerminalNodeStatus (ns_status st)) (map snd (r_nodes r))"

definition sorted_ids :: "node_state list \<Rightarrow> string list" where
  "sorted_ids sts = sort_key (map (of_char :: char \<Rightarrow> nat)) (map ns_id sts)"

text \<open>No node is ready: the run is complete, or has to wait, or cannot go on.\<close>

definition idle_round :: "sessions \<Rightarrow> env \<Rightarrow> bool \<Rightarrow> nat \<Rightarrow> run \<Rightarrow> run \<Rightarrow> run \<times> phase" where
  "idle_round ss env active n fresh stored =
     (let incomplete = unfinished fresh in
      if incomplete = [] then
        (let (complete, more) = reconcile ss env active stored; stored1 = saved more stored
         in if r_status complete \<noteq> RRunning then (stored1, Returned)
            else (saved [emit env ''run-completed'' ''Workflow run completed'' None None
                    (complete\<lparr>r_status := RCompleted, r_completedAt := Some (e_now env), r_updatedAt := e_now env\<rparr>)] stored1,
                  Returned))
      else if \<exists>st \<in> set incomplete. ns_status st = Running then (stored, Loop n)
      else if \<exists>st \<in> set incomplete. ns_status st = Blocked then (stored, Returned)
      else
        (let orphans = sorted_ids incomplete
         in (saved [emit env ''run-blocked'' ''Workflow blocked because queued nodes have unmet dependencies''
               (Some [(''nodeIds'', JArr (map JStr orphans))]) None
               (fresh\<lparr>r_status := RBlocked, r_updatedAt := e_now env,
                 r_error := Some (''Workflow scheduler found queued nodes with unmet dependencies: '' @ join '', '' orphans)\<rparr>)]
             stored, Returned)))"

text \<open>The skips of a round, and the start of its layer.\<close>

definition launch_layer :: "workflow \<Rightarrow> env \<Rightarrow> nat \<Rightarrow> string list \<Rightarrow> (string \<times> string) list \<Rightarrow> run \<Rightarrow> run \<Rightarrow> run \<times> phase" where
  "launch_layer w env n toExecute skipped fresh stored =
     (let fresh1 = fold (markSkipped env) skipped fresh;
          stored1 = (if skipped \<noteq> [] then saved [fresh1] stored else stored)
      in if toExecute = [] then (stored1, Loop n)
         else
           let (fresh2, saves2, tasks) = start_tasks (w_nodes w) env toExecute fresh1
           in (saved saves2 stored1, Layer n fresh2 toExecute tasks))"

text \<open>One pass of the loop, up to the start of the layer. \<open>n\<close> is the value of \<open>safety\<close> before the pass.\<close>

definition loop_round :: "workflow \<Rightarrow> sessions \<Rightarrow> env \<Rightarrow> bool \<Rightarrow> nat \<Rightarrow> run \<Rightarrow> run \<times> phase" where
  "loop_round w ss env active n stored0 =
     (if n + 1 > safety_bound then (stored0, Thrown ''Workflow runner aborted: scheduling loop exceeded safety bound'')
      else
        let (fresh, more) = reconcile ss env active stored0; stored = saved more stored0; ready = findReadyNodeIds fresh (w_nodes w)
        in if r_status fresh \<noteq> RRunning then (stored, Returned)
           else if ready = [] then idle_round ss env active (n + 1) fresh stored
           else (case classifyLayer w fresh ready of
                   Inl e \<Rightarrow> (stored, Thrown e)
                 | Inr (toExecute, skipped) \<Rightarrow> launch_layer w env (n + 1) toExecute skipped fresh stored))"

section \<open>The end of a layer\<close>

text \<open>The pass over the settled promises; it ends early when an output is invalid, after saving the run.\<close>

definition note_result :: "workflow \<Rightarrow> env \<Rightarrow> string \<Rightarrow> task \<Rightarrow> run \<Rightarrow> run \<times> string option" where
  "note_result w env nodeId t updated =
     (case t of
        Rejected reason \<Rightarrow>
          (emit env ''run-failed'' (''Layer task rejected without node-level handling: '' @ reason)
             (Some [(''reason'', JStr reason)]) None updated, None)
      | _ \<Rightarrow>
          (case (jm_get (w_nodes w) nodeId, jm_get (r_nodes updated) nodeId) of
             (Some n, Some st) \<Rightarrow>
               if ns_status st \<noteq> Completed then (updated, None)
               else
                 (case captureNodeStructuredOutputs (w_jsonata w) n st of
                    (st', None) \<Rightarrow> (upd_node nodeId (\<lambda>_. st') updated, None)
                  | (st', Some message) \<Rightarrow>
                      (emit env ''structured-output-invalid''
                         (''Node '' @ nodeId @ '' produced invalid structured output: '' @ message)
                         (Some [(''message'', JStr message)]) (Some nodeId) (upd_node nodeId (\<lambda>_. st') updated), Some message))
           | _ \<Rightarrow> (updated, None)))"

fun note_results :: "workflow \<Rightarrow> env \<Rightarrow> (string \<times> task) list \<Rightarrow> run \<Rightarrow> run \<times> string option" where
  "note_results w env [] updated = (updated, None)"
| "note_results w env ((i, t) # ts) updated =
     (case note_result w env i t updated of
        (u, None) \<Rightarrow> note_results w env ts u
      | (u, Some e) \<Rightarrow> (u, Some e))"

definition halts :: "workflow \<Rightarrow> string \<Rightarrow> bool" where
  "halts w nodeId \<longleftrightarrow>
     (case Option.bind (jm_get (w_nodes w) nodeId) n_onFailure of Some p \<Rightarrow> p = Halt | None \<Rightarrow> True)"

definition with_status :: "node_status \<Rightarrow> run \<Rightarrow> string list \<Rightarrow> string list" where
  "with_status s r ids = filter (\<lambda>i. status_of r i = Some s) ids"

definition halt_message :: "run \<Rightarrow> string \<Rightarrow> string" where
  "halt_message r i =
     (case Option.bind (jm_get (r_nodes r) i) ns_error of Some e \<Rightarrow> e | None \<Rightarrow> ''Node '' @ i @ '' failed'')"

definition finish_layer ::
    "workflow \<Rightarrow> sessions \<Rightarrow> env \<Rightarrow> bool \<Rightarrow> nat \<Rightarrow> string list \<Rightarrow> (string \<times> task) list \<Rightarrow> run \<Rightarrow> run \<times> phase" where
  "finish_layer w ss env active n toExecute tasks stored0 =
     (let (updated, more) = reconcile ss env active stored0; stored = saved more stored0
      in case note_results w env tasks updated of
           (u, Some e) \<Rightarrow> (saved [u] stored, Thrown e)
         | (u, None) \<Rightarrow>
             let stored1 = saved [u] stored; (refreshed, more2) = reconcile ss env active stored1; stored2 = saved more2 stored1
             in (case filter (halts w) (with_status Failed refreshed toExecute) of
                   i # _ \<Rightarrow>
                     let message = halt_message refreshed i
                     in (saved [emit env ''run-failed'' (''Workflow run failed: '' @ message) None None
                           (refreshed\<lparr>r_status := RFailed, r_error := Some message, r_completedAt := Some (e_now env),
                              r_updatedAt := e_now env\<rparr>)] stored2, Returned)
                 | [] \<Rightarrow>
                     if with_status Blocked refreshed toExecute \<noteq> [] then (stored2, Returned) else (stored2, Loop n)))"

section \<open>The steps of a scheduler\<close>

text \<open>What an executor may do to the run while it works: record outputs, metadata, artifacts, sessions and events. It
  does not change the status of any node or of the run.\<close>

definition works :: "run \<Rightarrow> run \<Rightarrow> bool" where
  "works r r' \<longleftrightarrow>
     status_of r' = status_of r \<and> jm_keys (r_nodes r') = jm_keys (r_nodes r) \<and> r_status r' = r_status r \<and> r_id r' = r_id r \<and>
     (\<exists>es. r_events r' = r_events r @ es)"

text \<open>The executors that are modelled as functions.\<close>

definition internal :: "node_kind \<Rightarrow> bool" where
  "internal k \<longleftrightarrow> type_name k \<in> {''approval'', ''gate'', ''condition'', ''artifact'', ''plan'', ''action''}"

inductive executes :: "workflow \<Rightarrow> sessions \<Rightarrow> env \<Rightarrow> string \<Rightarrow> node \<Rightarrow> run \<Rightarrow> attempt \<Rightarrow> bool"
  for w ss env where
  approval: "n_kind n = Approval prompt rej capt options \<Longrightarrow>
     executes w ss env i n r (executeApproval (w_jsonata w) env i prompt options r)"
| gate: "n_kind n = Gate g \<Longrightarrow> executes w ss env i n r (executeGateNode (w_jsonata w) (w_parse_date w) env i g r)"
| condition: "n_kind n = Condition e ts es \<Longrightarrow> executes w ss env i n r (executeCondition (w_jsonata w) env i e ts es r)"
| artifact: "n_kind n = Artifact name from path descr \<Longrightarrow> executes w ss env i n r (executeArtifact env i name from path r)"
| plan: "n_kind n = Plan body summary source ref wait \<Longrightarrow>
     executes w ss env i n r
       (executePlan (w_jsonata w) env (prompt_output ss) i n body summary source ref wait r)"
| action: "n_kind n = Action adapter act prop key args req \<Longrightarrow>
     executes w ss env i n r (executeAction env adapted i adapter act key req r)"
| publish: "n_kind n = Git_publish repo cwd branch msg cred paths rules \<Longrightarrow> works r r' \<Longrightarrow>
     executes w ss env i n r (blocked_attempt r' (blockForApproval env i prompt options r'))"
| external: "\<not> internal (n_kind n) \<Longrightarrow> works r r' \<Longrightarrow> out \<noteq> Waiting \<Longrightarrow> executes w ss env i n r (r', [], out)"

definition settled :: "task \<Rightarrow> bool" where
  "settled t \<longleftrightarrow> (case t of Attempting _ \<Rightarrow> False | _ \<Rightarrow> True)"

inductive sched_step :: "workflow \<Rightarrow> bool \<Rightarrow> run \<times> phase \<Rightarrow> run \<times> phase \<Rightarrow> bool"
  for w active where
  start: "sched_step w active (stored, Starting resumed) (start_run ss env active resumed issues stored)"
| round: "sched_step w active (stored, Loop n) (loop_round w ss env active n stored)"
| progress: "(i, Attempting k) \<in> set tasks \<Longrightarrow> works fresh fresh' \<Longrightarrow>
     sched_step w active (stored, Layer n fresh ids tasks) (saved [fresh'] stored, Layer n fresh' ids tasks)"
| attempt: "jm_get tasks i = Some (Attempting k) \<Longrightarrow> jm_get (w_nodes w) i = Some nd \<Longrightarrow>
     executes w ss env i nd fresh att \<Longrightarrow> end_attempt env i nd k found att = (fresh', saves', t) \<Longrightarrow>
     sched_step w active (stored, Layer n fresh ids tasks) (saved saves' stored, Layer n fresh' ids (jm_set i t tasks))"
| finish: "\<forall>(i, t) \<in> set tasks. settled t \<Longrightarrow>
     sched_step w active (stored, Layer n fresh ids tasks) (finish_layer w ss env active n ids tasks stored)"

end
