(* ===== verification/Workflow_Approvals.thy ===== *)
theory Workflow_Approvals
  imports Workflow_Scheduler
begin

text \<open>
  Decisions on blocked nodes: \<open>decideApproval\<close> of packages/daemon/src/workflows/runner.ts, and the commands by which
  the platform sends decisions and reports of executed actions (platform-runtime-command.ts and
  platform-command-applier.ts).

  A decision is a record; the actor and the execution grant, which are only stored with it, are left out. What the
  follow-up of a rejection and the revision of a plan by an agent do is given as an argument.
\<close>

section \<open>Deciding on a node\<close>

record decision =
  d_approved :: bool
  d_decision :: "string option"
  d_message :: "string option"
  d_expectedActionDigest :: "string option"
  d_feedback :: "obj option"

text \<open>The outcome of the agent session that revises a plan, if the node asks for one.\<close>

datatype revision =
    No_revision
  | Revision_failed string
  | Revised string string \<comment> \<open>output, session id\<close>

definition approvable :: "string list" where
  "approvable = [''approval'', ''gate'', ''plan'', ''action'', ''git_publish'']"

definition obj_field :: "obj \<Rightarrow> string \<Rightarrow> obj option" where
  "obj_field m k = (case field m k of Some (JObj fs) \<Rightarrow> Some fs | _ \<Rightarrow> None)"

definition approvalSubjectDigest :: "node_state \<Rightarrow> json option" where
  "approvalSubjectDigest st =
     (if ns_type st = ''action'' \<and> obj_field (metadata_of st) ''action'' \<noteq> None
      then field (the (obj_field (metadata_of st) ''action'')) ''digest''
      else if ns_type st = ''git_publish'' then
        (case Option.bind (obj_field (metadata_of st) ''pre_publish_review'') (\<lambda>v. obj_field v ''facts'') of
           Some facts \<Rightarrow> field facts ''diffDigest'' | None \<Rightarrow> None)
      else None)"

definition keep_truthy :: "string option \<Rightarrow> string option" where
  "keep_truthy v = (if truthy v then v else None)"

definition resolved_approval :: "env \<Rightarrow> decision \<Rightarrow> approval option \<Rightarrow> approval" where
  "resolved_approval env d ap =
     \<lparr>ap_prompt = (case ap of Some a \<Rightarrow> ap_prompt a | None \<Rightarrow> ''Approval requested''),
      ap_requestedAt = (case ap of Some a \<Rightarrow> ap_requestedAt a | None \<Rightarrow> e_now env),
      ap_resolvedAt = Some (e_now env), ap_approved = Some (d_approved d),
      ap_decision = Some (case d_decision d of Some s \<Rightarrow> s | None \<Rightarrow> if d_approved d then ''approve'' else ''reject''),
      ap_message = keep_truthy (d_message d), ap_expectedActionDigest = keep_truthy (d_expectedActionDigest d),
      ap_feedback = d_feedback d\<rparr>"

definition decision_json :: "decision \<Rightarrow> obj" where
  "decision_json d =
     [(''approved'', JBool (d_approved d))] @ opt_field ''decision'' (map_option JStr (d_decision d))
     @ opt_field ''message'' (map_option JStr (d_message d))
     @ opt_field ''expectedActionDigest'' (map_option JStr (d_expectedActionDigest d))
     @ opt_field ''feedback'' (map_option JObj (d_feedback d))"

text \<open>What a decision does: it is refused with an error (after the given saves), or the run is saved and returned, and
  the scheduler starts again or not.\<close>

datatype decided =
    Refused string saves
  | Decided run saves bool

definition plan_title :: "node_state \<Rightarrow> string \<Rightarrow> string" where
  "plan_title st nodeId =
     (case Option.bind (obj_field (metadata_of st) ''plan'') (\<lambda>p. as_str (field p ''title'')) of Some t \<Rightarrow> t | None \<Rightarrow> nodeId)"

definition revise_state :: "env \<Rightarrow> decision \<Rightarrow> string \<Rightarrow> string \<Rightarrow> string \<Rightarrow> node_state \<Rightarrow> node_state" where
  "revise_state env d nodeId output sid st =
     (let history = (case field (metadata_of st) ''revision_history'' of Some (JArr hs) \<Rightarrow> hs | _ \<Rightarrow> []);
          plan = (case obj_field (metadata_of st) ''plan'' of Some p \<Rightarrow> p | None \<Rightarrow> []);
          resolved = (case Option.bind (ns_approval st) ap_resolvedAt of Some t \<Rightarrow> t | None \<Rightarrow> e_now env);
          entry = JObj [(''requestedAt'', JNum (of_int resolved)), (''revisedAt'', JNum (of_int (e_now env))),
                        (''message'', str_or_null (d_message d)), (''sessionId'', JStr sid)]
      in st\<lparr>ns_output := Some output, ns_status := Blocked, ns_error := None,
            ns_metadata := Some (spread (metadata_of st)
              [(''revision_history'', JArr (history @ [entry])),
               (''plan'', JObj (spread plan [(''body'', JStr output), (''revisedAt'', JNum (of_int (e_now env))),
                                            (''revisionCount'', JNum (of_nat (length history + 1)))]))]),
            ns_approval := Some \<lparr>ap_prompt = ''Approve revised plan: '' @ plan_title st nodeId, ap_requestedAt = e_now env,
              ap_resolvedAt = None, ap_approved = None, ap_decision = None, ap_message = None, ap_expectedActionDigest = None,
              ap_feedback = Some [(''previousDecision'', JStr ''request_changes''), (''message'', str_or_null (d_message d))]\<rparr>\<rparr>)"

text \<open>\<open>revisePlanAfterChangesRequested\<close> and the save that follows it. The session saves the run with the node
  running before it can fail.\<close>

definition request_changes :: "env \<Rightarrow> revision \<Rightarrow> string \<Rightarrow> decision \<Rightarrow> run \<Rightarrow> decided" where
  "request_changes env revising nodeId d r =
     (let r1 = (upd_node nodeId (\<lambda>st. st\<lparr>ns_status := Blocked, ns_error := None\<rparr>) r)
                 \<lparr>r_status := RBlocked, r_error := None, r_updatedAt := e_now env\<rparr>;
          r2 = emit env ''approval-resolved'' (''Changes requested for node '' @ nodeId) (Some (decision_json d)) (Some nodeId) r1;
          r3 = emit env ''plan-changes-requested''
                 (''Plan changes requested for node '' @ nodeId @ ''; waiting for a revised plan'')
                 (Some [(''decision'', JStr ''request_changes''), (''message'', str_or_null (d_message d)),
                        (''feedback'', case d_feedback d of Some f \<Rightarrow> JObj f | None \<Rightarrow> JNull)]) (Some nodeId) r2
      in case revising of
           No_revision \<Rightarrow> Decided r3 [r3] False
         | Revision_failed e \<Rightarrow> Refused e [upd_node nodeId (\<lambda>st. st\<lparr>ns_status := Running\<rparr>) r3]
         | Revised output sid \<Rightarrow>
             let working = upd_node nodeId (\<lambda>st. st\<lparr>ns_status := Running\<rparr>) r3;
                 r4 = (upd_node nodeId (revise_state env d nodeId output sid) working)
                        \<lparr>r_status := RBlocked, r_error := None, r_updatedAt := e_now env\<rparr>;
                 r5 = emit env ''plan-revised''
                        (''Plan node '' @ nodeId @ '' produced a revised plan after changes were requested'')
                        (Some [(''message'', str_or_null (d_message d))]) (Some nodeId) r4;
                 r6 = emit env ''approval-requested'' (''Approval requested for revised plan '' @ nodeId)
                        (Some [(''prompt'', str_or_null (Option.bind (jm_get (r_nodes r4) nodeId) (\<lambda>st. map_option ap_prompt (ns_approval st))))])
                        (Some nodeId) r5
             in Decided r6 [working, r6] False)"

definition reject_node :: "env \<Rightarrow> (run \<Rightarrow> run) \<Rightarrow> string \<Rightarrow> decision \<Rightarrow> run \<Rightarrow> decided" where
  "reject_node env follow_up nodeId d r0 =
     (let r = follow_up r0;
          message = (case d_message d of Some m \<Rightarrow> m | None \<Rightarrow> ''Approval denied'');
          r1 = (upd_node nodeId (\<lambda>st. st\<lparr>ns_status := Failed, ns_error := Some message, ns_completedAt := Some (e_now env)\<rparr>) r)
                 \<lparr>r_status := RCanceled, r_error := Some message, r_completedAt := Some (e_now env), r_updatedAt := e_now env\<rparr>;
          r2 = emit env ''approval-resolved'' (''Approval denied for node '' @ nodeId) (Some (decision_json d)) (Some nodeId) r1;
          r3 = emit env ''run-canceled'' (''Workflow canceled by approval gate: '' @ nodeId) None None r2
      in Decided r3 [r3] False)"

definition approved_output :: "node option \<Rightarrow> decision \<Rightarrow> node_state \<Rightarrow> string" where
  "approved_output n d st =
     (let capture = (case map_option n_kind n of Some (Approval _ _ c _) \<Rightarrow> c = Some True | _ \<Rightarrow> True);
          said = (case d_message d of Some m \<Rightarrow> m | None \<Rightarrow> ''Approved'');
          command_body = (if ns_type st = ''plan'' then Option.bind (d_feedback d) (\<lambda>f. as_str (field f ''plan_body'')) else None);
          plan_body = (if ns_type st = ''plan'' then
                         Option.bind (obj_field (metadata_of st) ''plan'') (\<lambda>p. as_str (field p ''body'')) else None)
      in case command_body of
           Some b \<Rightarrow> b
         | None \<Rightarrow> (case plan_body of Some b \<Rightarrow> b | None \<Rightarrow> if capture then said else ''Approved''))"

definition approve_node :: "env \<Rightarrow> node option \<Rightarrow> string \<Rightarrow> decision \<Rightarrow> run \<Rightarrow> decided" where
  "approve_node env n nodeId d r =
     (if map_option (type_name \<circ> n_kind) n \<in> {Some ''action'', Some ''git_publish''} then
        let r1 = (upd_node nodeId (\<lambda>st. st\<lparr>ns_status := Queued, ns_completedAt := None,
                    ns_output := Some (case d_message d of Some m \<Rightarrow> m | None \<Rightarrow> ''Approved'')\<rparr>) r)
                   \<lparr>r_status := RRunning, r_updatedAt := e_now env\<rparr>;
            r2 = emit env ''approval-resolved'' (''Approval granted for node '' @ nodeId) (Some (decision_json d)) (Some nodeId) r1
        in Decided r2 [r2] True
      else
        let r1 = (upd_node nodeId (\<lambda>st. st\<lparr>ns_status := Completed, ns_completedAt := Some (e_now env),
                    ns_output := Some (approved_output n d st)\<rparr>) r)\<lparr>r_status := RRunning, r_updatedAt := e_now env\<rparr>;
            r2 = emit env ''approval-resolved'' (''Approval granted for node '' @ nodeId) (Some (decision_json d)) (Some nodeId) r1;
            r3 = emit env ''node-completed'' (''Node '' @ nodeId @ '' completed'') None (Some nodeId) r2
        in Decided r3 [r3] True)"

text \<open>\<open>decideApproval\<close> on the run that it has read; \<open>n\<close> is the node of the parsed workflow.\<close>

definition decideApproval ::
    "env \<Rightarrow> node option \<Rightarrow> revision \<Rightarrow> (run \<Rightarrow> run) \<Rightarrow> string \<Rightarrow> decision \<Rightarrow> run \<Rightarrow> decided" where
  "decideApproval env n revising follow_up nodeId d r =
     (case jm_get (r_nodes r) nodeId of
        None \<Rightarrow> Refused (''Workflow approval node not found: '' @ nodeId) []
      | Some st \<Rightarrow>
          if ns_type st \<notin> set approvable then Refused (''Workflow approval node not found: '' @ nodeId) []
          else if r_status r \<noteq> RBlocked \<or> ns_status st \<noteq> Blocked
          then Refused (''Workflow node is not awaiting approval: '' @ nodeId) []
          else if (ns_type st = ''action'' \<or> ns_type st = ''git_publish'') \<and> truthy (d_expectedActionDigest d)
                  \<and> is_str (approvalSubjectDigest st) \<and> as_str (approvalSubjectDigest st) \<noteq> d_expectedActionDigest d
          then Refused ''The proposed action changed before approval. Refresh the run and review it again.'' []
          else
            let ap = resolved_approval env d (ns_approval st);
                r1 = upd_node nodeId (\<lambda>st. st\<lparr>ns_approval := Some ap\<rparr>) r
            in if \<not> d_approved d \<and> ns_type st = ''plan'' \<and> ap_decision ap = Some ''request_changes''
               then request_changes env revising nodeId d r1
               else if \<not> d_approved d then reject_node env follow_up nodeId d r1
               else approve_node env n nodeId d r1)"

section \<open>Commands of the platform\<close>

record approval_command =
  ac_id :: string
  ac_run :: "string option"
  ac_node :: string
  ac_approved :: bool
  ac_decision :: "string option"
  ac_message :: "string option"
  ac_expectedActionDigest :: "string option"
  ac_requestedAt :: "string option"
  ac_decidedAt :: "string option"
  ac_feedback :: "obj option"

record action_completed =
  cc_id :: string
  cc_run :: "string option"
  cc_node :: string
  cc_proposal_key :: "string option"
  cc_receipt_key :: string
  cc_receipt_digest :: "string option"
  cc_provider_reference :: "string option"
  cc_provider_url :: "string option"
  cc_adapter :: string
  cc_action :: string
  cc_status :: string
  cc_executed_at :: "string option"
  cc_message :: "string option"

datatype runtime_command =
    Approval_decision approval_command
  | Action_completed action_completed

definition readDecision :: "json option \<Rightarrow> string option" where
  "readDecision v =
     (case as_str v of Some s \<Rightarrow> if s \<in> {''approve'', ''request_changes'', ''reject''} then Some s else None | None \<Rightarrow> None)"

definition readActionCompletedStatus :: "json option \<Rightarrow> string option" where
  "readActionCompletedStatus v =
     (case as_str v of Some s \<Rightarrow> if s \<in> {''succeeded'', ''failed'', ''dead_lettered''} then Some s else None | None \<Rightarrow> None)"

definition read_obj :: "json option \<Rightarrow> obj option" where
  "read_obj v = (case v of Some (JObj fs) \<Rightarrow> Some fs | _ \<Rightarrow> None)"

definition readActionCompleted :: "obj \<Rightarrow> string \<Rightarrow> string \<Rightarrow> runtime_command list" where
  "readActionCompleted c ident node =
     (let str = (\<lambda>k. as_str (field c k))
      in if truthy (str ''receipt_key'') \<and> truthy (str ''adapter'') \<and> truthy (str ''action'')
            \<and> readActionCompletedStatus (field c ''status'') \<noteq> None
         then [Action_completed
                 \<lparr>cc_id = ident, cc_run = str ''workflow_run_id'', cc_node = node, cc_proposal_key = str ''proposal_key'',
                  cc_receipt_key = the (str ''receipt_key''), cc_receipt_digest = str ''receipt_digest'',
                  cc_provider_reference = str ''provider_reference'', cc_provider_url = str ''provider_url'',
                  cc_adapter = the (str ''adapter''), cc_action = the (str ''action''),
                  cc_status = the (readActionCompletedStatus (field c ''status'')),
                  cc_executed_at = str ''executed_at'', cc_message = str ''message''\<rparr>]
         else [])"

definition readApprovalDecision :: "obj \<Rightarrow> string \<Rightarrow> string \<Rightarrow> runtime_command list" where
  "readApprovalDecision c ident node =
     (let str = (\<lambda>k. as_str (field c k))
      in case field c ''approved'' of
           Some (JBool b) \<Rightarrow>
             [Approval_decision
                \<lparr>ac_id = ident, ac_run = str ''workflow_run_id'', ac_node = node, ac_approved = b,
                 ac_decision = readDecision (field c ''decision''), ac_message = str ''message'',
                 ac_expectedActionDigest = keep_truthy (str ''expected_action_digest''),
                 ac_requestedAt = str ''approval_requested_at'', ac_decidedAt = str ''decided_at'',
                 ac_feedback = read_obj (field c ''feedback'')\<rparr>]
         | _ \<Rightarrow> [])"

definition read_command :: "json \<Rightarrow> runtime_command list" where
  "read_command j =
     (case j of
        JObj c \<Rightarrow>
          let ident = as_str (field c ''id''); node = as_str (field c ''workflow_node_id'')
          in if \<not> truthy ident \<or> \<not> truthy node then []
             else if eq_str (field c ''type'') ''workflow.action_completed'' then readActionCompleted c (the ident) (the node)
             else if eq_str (field c ''type'') ''workflow.approval_decision'' then readApprovalDecision c (the ident) (the node)
             else []
      | _ \<Rightarrow> [])"

definition runtimeCommands :: "json \<Rightarrow> runtime_command list" where
  "runtimeCommands body =
     (case body of
        JObj b \<Rightarrow> (case field b ''runtime_commands'' of Some (JArr cs) \<Rightarrow> concat (map read_command cs) | _ \<Rightarrow> [])
      | _ \<Rightarrow> [])"

section \<open>Applying a command\<close>

definition consumed_entries :: "node_state \<Rightarrow> json list" where
  "consumed_entries st =
     (case Option.bind (obj_field (metadata_of st) ''runtime_commands'') (\<lambda>c. field c ''consumed'') of
        Some (JArr es) \<Rightarrow> es | _ \<Rightarrow> [])"

definition runtimeCommandConsumed :: "node_state \<Rightarrow> string \<Rightarrow> bool" where
  "runtimeCommandConsumed st ident \<longleftrightarrow>
     (\<exists>e \<in> set (consumed_entries st). case e of JObj fs \<Rightarrow> eq_str (field fs ''id'') ident | _ \<Rightarrow> False)"

definition markRuntimeCommandConsumed :: "env \<Rightarrow> string \<Rightarrow> obj \<Rightarrow> node_state \<Rightarrow> node_state" where
  "markRuntimeCommandConsumed env ident extra st =
     (let commands = (case obj_field (metadata_of st) ''runtime_commands'' of Some c \<Rightarrow> c | None \<Rightarrow> []);
          previous = filter (\<lambda>e. case e of JObj _ \<Rightarrow> True | _ \<Rightarrow> False) (consumed_entries st);
          entry = JObj (spread [(''id'', JStr ident),
                    (''consumed_at'', JStr (case toISOString (e_now env) of Some s \<Rightarrow> s | None \<Rightarrow> []))] extra)
      in st\<lparr>ns_metadata := Some (spread (metadata_of st)
           [(''runtime_commands'', JObj (spread commands [(''consumed'', JArr (last_n 50 (previous @ [entry])))]))])\<rparr>)"

definition staleApprovalDigest :: "node_state \<Rightarrow> string option \<Rightarrow> bool" where
  "staleApprovalDigest st expected \<longleftrightarrow>
     truthy expected \<and> is_str (approvalSubjectDigest st) \<and> as_str (approvalSubjectDigest st) \<noteq> expected"

definition missingDigestAfterInvalidation :: "node_state \<Rightarrow> string option \<Rightarrow> bool" where
  "missingDigestAfterInvalidation st expected \<longleftrightarrow>
     \<not> truthy expected \<and>
     Option.bind (obj_field (metadata_of st) ''pre_publish_review'') (\<lambda>v. obj_field v ''invalidated_approval'') \<noteq> None"

definition sameDigestPrePublishReblock :: "node_state \<Rightarrow> string option \<Rightarrow> bool" where
  "sameDigestPrePublishReblock st expected \<longleftrightarrow>
     ns_type st = ''git_publish'' \<and>
     (case obj_field (metadata_of st) ''pre_publish_review'' of
        None \<Rightarrow> False
      | Some review \<Rightarrow>
          (case (obj_field review ''facts'', obj_field review ''invalidated_approval'') of
             (Some facts, Some invalidated) \<Rightarrow>
               is_str (field facts ''diffDigest'') \<and> is_str (field invalidated ''current_diff_digest'')
               \<and> field facts ''diffDigest'' = field invalidated ''current_diff_digest''
               \<and> (expected = None \<or> as_str (field facts ''diffDigest'') = expected)
           | _ \<Rightarrow> False))"

definition staleApprovalRequestBinding :: "node_state \<Rightarrow> string option \<Rightarrow> string option \<Rightarrow> bool" where
  "staleApprovalRequestBinding st requestedAt expected \<longleftrightarrow>
     truthy requestedAt \<and>
     (case ns_approval st of
        None \<Rightarrow> False
      | Some a \<Rightarrow> int_string (ap_requestedAt a) \<noteq> the requestedAt \<and>
                  \<not> (truthy expected \<and> sameDigestPrePublishReblock st expected))"

definition staleApprovalRequestedAt :: "(string \<Rightarrow> int option) \<Rightarrow> node_state \<Rightarrow> string option \<Rightarrow> bool" where
  "staleApprovalRequestedAt parse_date st decidedAt \<longleftrightarrow>
     truthy decidedAt \<and>
     (case ns_approval st of
        None \<Rightarrow> False
      | Some a \<Rightarrow>
          if ap_requestedAt a = 0 then False
          else (case parse_date (the decidedAt) of
                  None \<Rightarrow> False
                | Some t \<Rightarrow> t < ap_requestedAt a \<and> \<not> sameDigestPrePublishReblock st None))"

text \<open>The record of a command that is ignored as stale.\<close>

definition staleRecord :: "(string \<Rightarrow> int option) \<Rightarrow> node_state \<Rightarrow> approval_command \<Rightarrow> obj option" where
  "staleRecord parse_date st c =
     (let ignored = (\<lambda>reason fs. Some ([(''ignored'', JBool True), (''reason'', JStr reason)] @ fs));
          requested = map_option (\<lambda>a. JNum (of_int (ap_requestedAt a))) (ns_approval st)
      in if staleApprovalRequestBinding st (ac_requestedAt c) (ac_expectedActionDigest c)
         then ignored ''stale_approval_request_binding''
                ((''command_approval_requested_at'', str_or_null (ac_requestedAt c)) # opt_field ''current_requested_at'' requested)
         else if staleApprovalRequestedAt parse_date st (ac_decidedAt c)
         then ignored ''stale_approval_decided_before_current_request''
                ((''decided_at'', str_or_null (ac_decidedAt c)) # opt_field ''requested_at'' requested)
         else if missingDigestAfterInvalidation st (ac_expectedActionDigest c)
         then ignored ''missing_expected_action_digest_after_invalidation''
                (opt_field ''current_action_digest'' (approvalSubjectDigest st))
         else if staleApprovalDigest st (ac_expectedActionDigest c)
         then ignored ''stale_expected_action_digest''
                ((''expected_action_digest'', str_or_null (ac_expectedActionDigest c))
                 # opt_field ''current_action_digest'' (approvalSubjectDigest st))
         else None)"

definition decision_of :: "approval_command \<Rightarrow> decision" where
  "decision_of c =
     \<lparr>d_approved = ac_approved c, d_decision = keep_truthy (ac_decision c), d_message = keep_truthy (ac_message c),
      d_expectedActionDigest = keep_truthy (ac_expectedActionDigest c), d_feedback = ac_feedback c\<rparr>"

text \<open>\<open>markCommandConsumedInProcess\<close>: the ids in the order of the \<open>Set\<close>, at most 500 of them.\<close>

definition markCommandConsumedInProcess :: "string \<Rightarrow> string list \<Rightarrow> string list" where
  "markCommandConsumedInProcess ident ids =
     (let ids' = (if ident \<in> set ids then ids else ids @ [ident]) in if length ids' \<le> 500 then ids' else drop 1 ids')"

text \<open>What applying a command does: the run it returns to the store after each save, whether the scheduler starts
  again, the answer, and the ids consumed in this process. An exception of \<open>decideApproval\<close> is the answer \<open>Inl\<close>.\<close>

record applied =
  a_saves :: saves
  a_starts :: bool
  a_answer :: "string + bool"
  a_consumed :: "string list"

definition nothing :: "bool \<Rightarrow> string list \<Rightarrow> applied" where
  "nothing b ids = \<lparr>a_saves = [], a_starts = False, a_answer = Inr b, a_consumed = ids\<rparr>"

definition brokered_action :: "env \<Rightarrow> action_completed \<Rightarrow> obj \<Rightarrow> obj" where
  "brokered_action env c md =
     spread md
       [(''action'', JObj (spread (case obj_field md ''action'' of Some a \<Rightarrow> a | None \<Rightarrow> [])
          ([(''adapter'', JStr (cc_adapter c)), (''action'', JStr (cc_action c)), (''status'', JStr ''executed'')]
           @ opt_field ''proposalKey'' (map_option JStr (cc_proposal_key c))
           @ [(''receiptKey'', JStr (cc_receipt_key c))]
           @ opt_field ''receiptDigest'' (map_option JStr (cc_receipt_digest c))
           @ opt_field ''providerReference'' (map_option JStr (cc_provider_reference c))
           @ opt_field ''providerUrl'' (map_option JStr (cc_provider_url c))
           @ [(''executedAt'', JStr (case cc_executed_at c of Some t \<Rightarrow> t
                 | None \<Rightarrow> (case toISOString (e_now env) of Some s \<Rightarrow> s | None \<Rightarrow> []))),
              (''completedBy'', JStr ''viewport_broker'')]))),
        (''executionReceipt'', JObj
          ([(''source'', JStr ''viewport_broker''), (''receiptKey'', JStr (cc_receipt_key c))]
           @ opt_field ''receiptDigest'' (map_option JStr (cc_receipt_digest c))
           @ opt_field ''providerReference'' (map_option JStr (cc_provider_reference c))
           @ opt_field ''providerUrl'' (map_option JStr (cc_provider_url c))))]"

definition completed_by_broker :: "env \<Rightarrow> action_completed \<Rightarrow> run \<Rightarrow> run" where
  "completed_by_broker env c r =
     (let r1 = upd_node (cc_node c) (\<lambda>st. st\<lparr>ns_status := Completed, ns_output := Some (cc_adapter c @ ''.'' @ cc_action c),
                 ns_error := None, ns_completedAt := Some (e_now env),
                 ns_metadata := Some (brokered_action env c (metadata_of st))\<rparr>) r;
          r2 = emit env ''node-completed''
                 (case cc_message c of Some m \<Rightarrow> m | None \<Rightarrow> ''Node '' @ cc_node c @ '' completed by Viewport action broker'')
                 (Some ([(''source'', JStr ''viewport_broker'')]
                    @ opt_field ''proposal_key'' (map_option JStr (cc_proposal_key c))
                    @ [(''receipt_key'', JStr (cc_receipt_key c))]
                    @ opt_field ''receipt_digest'' (map_option JStr (cc_receipt_digest c))
                    @ opt_field ''provider_reference'' (map_option JStr (cc_provider_reference c))
                    @ opt_field ''provider_url'' (map_option JStr (cc_provider_url c)))) (Some (cc_node c)) r1;
          open_nodes = (\<exists>(_, st) \<in> set (r_nodes r2). \<not> isTerminalNodeStatus (ns_status st))
      in r2\<lparr>r_status := (if open_nodes then RRunning else RCompleted),
            r_completedAt := (if open_nodes then r_completedAt r2 else Some (e_now env)), r_updatedAt := e_now env\<rparr>)"

definition applyActionCompleted :: "env \<Rightarrow> action_completed \<Rightarrow> string list \<Rightarrow> run option \<Rightarrow> applied" where
  "applyActionCompleted env c ids stored =
     (case stored of
        None \<Rightarrow> nothing False ids
      | Some r \<Rightarrow>
          if isTerminalRunStatus (r_status r) then nothing True ids
          else (case jm_get (r_nodes r) (cc_node c) of
                  None \<Rightarrow> nothing False ids
                | Some st \<Rightarrow>
                    if ns_status st = Completed then nothing True ids
                    else if ns_status st \<noteq> Blocked \<and> ns_status st \<noteq> Queued \<and> ns_status st \<noteq> Running
                    then nothing False ids
                    else \<lparr>a_saves = [completed_by_broker env c r], a_starts = False, a_answer = Inr True,
                          a_consumed = markCommandConsumedInProcess (cc_id c) ids\<rparr>))"

text \<open>The approval command on the stored run. Between the two saves the run is read again, so \<open>decideApproval\<close> works on
  the merged run; \<open>reread\<close> is what the reconciler makes of it.\<close>

definition applyApproval ::
    "env \<Rightarrow> (string \<Rightarrow> int option) \<Rightarrow> node option \<Rightarrow> revision \<Rightarrow> (run \<Rightarrow> run) \<Rightarrow> (run \<Rightarrow> run) \<Rightarrow> approval_command
     \<Rightarrow> string list \<Rightarrow> run option \<Rightarrow> applied" where
  "applyApproval env parse_date n revising follow_up reread c ids stored =
     (case stored of
        None \<Rightarrow> nothing False ids
      | Some r \<Rightarrow>
          if r_status r \<noteq> RBlocked then nothing False ids
          else (case jm_get (r_nodes r) (ac_node c) of
                  None \<Rightarrow> nothing False ids
                | Some st \<Rightarrow>
                    if runtimeCommandConsumed st (ac_id c) then nothing True ids
                    else if ns_status st \<noteq> Blocked then nothing True ids
                    else
                      let ids' = markCommandConsumedInProcess (ac_id c) ids in
                      (case staleRecord parse_date st c of
                         Some extra \<Rightarrow>
                           \<lparr>a_saves = [upd_node (ac_node c) (markRuntimeCommandConsumed env (ac_id c) extra) r],
                            a_starts = False, a_answer = Inr True, a_consumed = ids'\<rparr>
                       | None \<Rightarrow>
                           let r1 = upd_node (ac_node c) (markRuntimeCommandConsumed env (ac_id c) []) r in
                           (case decideApproval env n revising follow_up (ac_node c) (decision_of c) (reread (saved [r1] r)) of
                              Refused e ss \<Rightarrow> \<lparr>a_saves = r1 # ss, a_starts = False, a_answer = Inl e, a_consumed = ids'\<rparr>
                            | Decided r2 ss starts \<Rightarrow>
                                \<lparr>a_saves = r1 # ss, a_starts = starts, a_answer = Inr True, a_consumed = ids'\<rparr>))))"

definition apply_command ::
    "env \<Rightarrow> (string \<Rightarrow> int option) \<Rightarrow> (string \<Rightarrow> node option) \<Rightarrow> revision \<Rightarrow> (run \<Rightarrow> run) \<Rightarrow> (run \<Rightarrow> run) \<Rightarrow> runtime_command
     \<Rightarrow> string list \<Rightarrow> run option \<Rightarrow> applied" where
  "apply_command env parse_date nodes revising follow_up reread cmd ids stored =
     (case cmd of
        Action_completed c \<Rightarrow> if cc_id c \<in> set ids then nothing True ids else applyActionCompleted env c ids stored
      | Approval_decision c \<Rightarrow>
          if ac_id c \<in> set ids then nothing True ids
          else applyApproval env parse_date (nodes (ac_node c)) revising follow_up reread c ids stored)"

text \<open>The run that a command addresses: its own, or the one with whose synchronisation it came.\<close>

definition command_target :: "runtime_command \<Rightarrow> string option \<Rightarrow> string option" where
  "command_target cmd synced =
     (let own = (case cmd of Approval_decision c \<Rightarrow> ac_run c | Action_completed c \<Rightarrow> cc_run c)
      in keep_truthy (case own of Some i \<Rightarrow> Some i | None \<Rightarrow> synced))"

section \<open>Properties\<close>

lemma decided_start:
  assumes "decideApproval env n revising follow_up nodeId d r = Decided r' ss True"
  shows "d_approved d"
  using assms
  by (auto simp: decideApproval_def request_changes_def reject_node_def Let_def split: option.splits if_splits revision.splits)

lemma applyApproval_start:
  assumes "a_starts (applyApproval env parse_date n revising follow_up reread c ids (Some r))"
  shows "\<exists>st. jm_get (r_nodes r) (ac_node c) = Some st \<and> r_status r = RBlocked \<and> ns_status st = Blocked \<and>
    \<not> runtimeCommandConsumed st (ac_id c) \<and> staleRecord parse_date st c = None \<and> ac_approved c"
proof -
  have d: "d_approved (decision_of c) = ac_approved c" by (simp add: decision_of_def)
  show ?thesis
    using assms decided_start [of env n revising follow_up "ac_node c" "decision_of c"]
    by (fastforce simp: applyApproval_def nothing_def Let_def d split: option.splits if_splits decided.splits)
qed


definition demo_action_run :: run where
  "demo_action_run = (demo_run RBlocked [(''a'', Blocked)])\<lparr>r_nodes := [(''a'', (demo_state ''a'' Blocked)
     \<lparr>ns_type := ''action'', ns_metadata := Some [(''action'', JObj [(''digest'', JStr ''d1'')])]\<rparr>)]\<rparr>"

definition demo_command :: "string \<Rightarrow> approval_command" where
  "demo_command digest = \<lparr>ac_id = ''c'', ac_run = None, ac_node = ''a'', ac_approved = True, ac_decision = None,
     ac_message = None, ac_expectedActionDigest = Some digest, ac_requestedAt = None, ac_decidedAt = None, ac_feedback = None\<rparr>"

definition demo_env :: env where
  "demo_env = \<lparr>e_now = 7, e_uuid = (\<lambda>k. ''e'' @ nat_string k)\<rparr>"


text \<open>The status that the platform reports for an executed action is not looked at: an action that failed or was given
  up is recorded as executed, and its node as completed.\<close>

lemma reported_status_ignored:
  "applyActionCompleted env (c\<lparr>cc_status := s\<rparr>) ids stored = applyActionCompleted env c ids stored"
proof -
  have "brokered_action env (c\<lparr>cc_status := s\<rparr>) md = brokered_action env c md" for md
    by (simp add: brokered_action_def)
  then have "completed_by_broker env (c\<lparr>cc_status := s\<rparr>) r = completed_by_broker env c r" for r
    by (cases "cc_message c") (simp_all add: completed_by_broker_def Let_def)
  then show ?thesis by (cases stored) (simp_all add: applyActionCompleted_def split: option.splits)
qed

lemma failed_action_completes:
  assumes "jm_get (r_nodes r) (cc_node c) = Some st" and "ns_status st = Blocked" and "\<not> isTerminalRunStatus (r_status r)"
    and "cc_status c = ''failed''"
  shows "\<exists>r'. a_saves (applyActionCompleted env c ids (Some r)) = [r'] \<and> status_of r' (cc_node c) = Some Completed"
  using assms by (simp add: applyActionCompleted_def completed_by_broker_def Let_def)

text \<open>When the session that revises a plan fails, the node has been saved as running in a blocked run. From then on no
  decision on it is accepted.\<close>

lemma failed_revision_locks_node:
  assumes "jm_get (r_nodes r) nodeId = Some st" and "ns_type st = ''plan''" and "ns_status st = Blocked" and "r_status r = RBlocked"
    and "\<not> d_approved d" and "d_decision d = Some ''request_changes''"
  shows "\<exists>r'. decideApproval env n (Revision_failed e) follow_up nodeId d r = Refused e [r'] \<and>
    (\<forall>env n revising follow_up d. decideApproval env n revising follow_up nodeId d r'
       = Refused (''Workflow node is not awaiting approval: '' @ nodeId) [])"
  using assms
  by (auto simp: decideApproval_def request_changes_def resolved_approval_def approvable_def Let_def)

end
