(* ===== verification/Workflow_Footprint.thy ===== *)
theory Workflow_Footprint
  imports Workflow_Approvals
begin

text \<open>
  What the operations of the workflow engine leave alone. \<open>shape\<close> fixes the nodes and the id of a run: no operation
  changes them, neither in the copy that it works on nor in the copies that it saves. Every change of the stored run
  is therefore a sequence of saves of copies of that same run, to which the facts of \<open>Workflow_Store\<close> apply.
\<close>

definition shape :: "string list \<Rightarrow> string \<Rightarrow> run \<Rightarrow> bool" where
  "shape K x r \<longleftrightarrow> jm_keys (r_nodes r) = K \<and> r_id r = x"

lemma shape_upd_run [simp]:
  "shape K x (r\<lparr>r_status := s\<rparr>) = shape K x r" "shape K x (r\<lparr>r_updatedAt := t\<rparr>) = shape K x r"
  "shape K x (r\<lparr>r_error := e\<rparr>) = shape K x r" "shape K x (r\<lparr>r_completedAt := c\<rparr>) = shape K x r"
  "shape K x (r\<lparr>r_startedAt := c\<rparr>) = shape K x r" "shape K x (r\<lparr>r_artifacts := a\<rparr>) = shape K x r"
  "shape K x (r\<lparr>r_events := ev\<rparr>) = shape K x r"
  by (simp_all add: shape_def)

lemma shape_basic [simp]:
  "shape K x (emit env ty m d i r) = shape K x r" "shape K x (touch env r) = shape K x r"
  "shape K x (upd_node j f r) = shape K x r" "shape K x (addEvent u t ty m d i r) = shape K x r"
  by (simp_all add: shape_def)

section \<open>Saving\<close>

lemma mergeNode_keys: "i \<in> set (jm_keys m) \<Longrightarrow> jm_keys (mergeNode (i, v) m) = jm_keys m"
  using set_jm_keys [of m] by (auto simp: mergeNode_def jm_keys_set split: option.splits)

lemma merged_keys: "set (jm_keys es) \<subseteq> set (jm_keys m) \<Longrightarrow> jm_keys (mergeExistingTerminalNodes m es) = jm_keys m"
  unfolding mergeExistingTerminalNodes_def
proof (induction es arbitrary: m)
  case (Cons e es)
  have "jm_keys (mergeNode e m) = jm_keys m" using Cons.prems mergeNode_keys [of "fst e" m "snd e"] by (simp add: jm_keys_def)
  moreover have "set (jm_keys es) \<subseteq> set (jm_keys m)" using Cons.prems by (simp add: jm_keys_def)
  ultimately show ?case using Cons.IH [of "mergeNode e m"] by simp
qed simp

lemma shape_merge: "shape K x s \<Longrightarrow> shape K x e \<Longrightarrow> shape K x (mergeExistingRun s e)"
  by (simp add: shape_def mergeExistingRun_fields merged_keys)

lemma saved_simps [simp]: "saved [] r = r" "saved (s # ss) r = saved ss (mergeExistingRun s r)"
  by (simp_all add: saved_def)

lemma saved_append: "saved (ss @ ts) r = saved ts (saved ss r)"
  by (simp add: saved_def)

lemma shape_saved: "shape K x r \<Longrightarrow> \<forall>s \<in> set ss. shape K x s \<Longrightarrow> shape K x (saved ss r)"
  by (induction ss arbitrary: r) (auto simp: shape_merge)

text \<open>The facts that no save takes away, for a sequence of saves of copies of the run.\<close>

context sticky
begin

lemma kept_saved: "final r \<Longrightarrow> \<forall>s \<in> set ss. jm_wf (r_nodes s) \<Longrightarrow> final (saved ss r)"
  using kept by (induction ss arbitrary: r) auto

end

text \<open>One step of the stored run, by saves of copies of it.\<close>

definition by_saves :: "string list \<Rightarrow> string \<Rightarrow> run \<Rightarrow> run \<Rightarrow> bool" where
  "by_saves K x r r' \<longleftrightarrow> (\<exists>ss. r' = saved ss r \<and> (\<forall>s \<in> set ss. shape K x s))"

lemma by_saves_refl [simp]: "by_saves K x r r"
  unfolding by_saves_def by (rule exI [of _ "[]"]) simp

lemma by_saves_saved: "\<forall>s \<in> set ss. shape K x s \<Longrightarrow> by_saves K x r (saved ss r)"
  by (auto simp: by_saves_def)

lemma by_saves_one: "shape K x s \<Longrightarrow> by_saves K x r (mergeExistingRun s r)"
  using by_saves_saved [of "[s]"] by simp

lemma by_saves_trans: "by_saves K x r r' \<Longrightarrow> by_saves K x r' r'' \<Longrightarrow> by_saves K x r r''"
  unfolding by_saves_def by (metis UnE saved_append set_append)

lemma by_saves_shape: "by_saves K x r r' \<Longrightarrow> shape K x r \<Longrightarrow> shape K x r'"
  by (auto simp: by_saves_def shape_saved)

lemma shape_wf: "shape K x r \<Longrightarrow> distinct K \<Longrightarrow> jm_wf (r_nodes r)"
  by (simp add: shape_def jm_wf_def)

definition terminal_at :: "run \<Rightarrow> string \<Rightarrow> bool" where
  "terminal_at r i \<longleftrightarrow> (case status_of r i of Some s \<Rightarrow> isTerminalNodeStatus s | None \<Rightarrow> True)"

lemma terminal_at_iff: "terminal_at r i \<longleftrightarrow> (\<forall>st. jm_get (r_nodes r) i = Some st \<longrightarrow> isTerminalNodeStatus (ns_status st))"
  by (auto simp: terminal_at_def status_of_def split: option.splits)

lemma shape_get: "shape K x r \<Longrightarrow> shape K x r' \<Longrightarrow> jm_get (r_nodes r) i = None \<longleftrightarrow> jm_get (r_nodes r') i = None"
  by (simp add: shape_def jm_get_None_iff flip: set_map jm_keys_def)

text \<open>A node that has reached a terminal status keeps one, whatever is saved; so does the run.\<close>

lemma by_saves_terminal:
  assumes "by_saves K x r r'" and "shape K x r" and "distinct K" and "terminal_at r i"
  shows "terminal_at r' i"
proof (cases "jm_get (r_nodes r) i")
  case None
  with shape_get [OF assms(2) by_saves_shape [OF assms(1,2)], of i] show ?thesis by (simp add: terminal_at_iff)
next
  case (Some st)
  obtain ss where ss: "r' = saved ss r" "\<forall>s \<in> set ss. shape K x s" using assms(1) by (auto simp: by_saves_def)
  have "jm_wf (r_nodes r) \<and> (\<exists>st. jm_get (r_nodes r) i = Some st \<and> isTerminalNodeStatus (ns_status st))"
    using Some assms(2-4) by (auto simp: terminal_at_iff shape_wf)
  from terminal_node.kept_saved [OF this] ss assms(3) have
    "\<exists>st. jm_get (r_nodes r') i = Some st \<and> isTerminalNodeStatus (ns_status st)" by (auto dest: shape_wf)
  then show ?thesis by (auto simp: terminal_at_iff)
qed

lemma by_saves_terminal_run:
  assumes "by_saves K x r r'" and "distinct K" and "isTerminalRunStatus (r_status r)"
  shows "isTerminalRunStatus (r_status r')"
  using assms terminal.kept_saved by (auto simp: by_saves_def dest: shape_wf)

lemma by_saves_canceled:
  assumes "by_saves K x r r'" and "distinct K" and "r_status r = RCanceled"
  shows "r_status r' = RCanceled"
  using assms canceled.kept_saved by (auto simp: by_saves_def dest: shape_wf)

section \<open>The operations\<close>

lemma shape_fold: "(\<And>a r. shape K x r \<Longrightarrow> shape K x (f a r)) \<Longrightarrow> shape K x r \<Longrightarrow> shape K x (fold f as r)"
  by (induction as arbitrary: r) auto

lemma shape_reconcile:
  assumes "shape K x r"
  shows "shape K x (fst (reconcile ss env active r)) \<and> (\<forall>s \<in> set (snd (reconcile ss env active r)). shape K x s)"
proof -
  have node: "shape K x (fst (reconcile_node ss env i acc)) = shape K x (fst acc)" for i acc
    by (auto simp: reconcile_node_def session_ended_def session_errored_def emit_recovered_def Let_def
        split: prod.splits option.splits)
  have "shape K x (fst (fold (reconcile_node ss env) is acc)) = shape K x (fst acc)" for "is" acc
    using node by (induction "is" arbitrary: acc) auto
  from this [of "jm_keys (r_nodes r)" "(r, False)"] show ?thesis
    using assms backfillPromptOutputs_status [of ss env r]
    by (auto simp: reconcile_def Let_def shape_def split: prod.splits)
qed

lemma shape_markSkipped: "shape K x (markSkipped env e r) = shape K x r"
  by (auto simp: markSkipped_def split: prod.splits option.splits)

lemma shape_nodes [simp]:
  "shape K x (begin_node env i n r) = shape K x r" "shape K x (fail_node env i n k m r) = shape K x r"
  "shape K x (complete_node env i r) = shape K x r"
  by (simp_all add: begin_node_def fail_node_def complete_node_def Let_def)

lemma shape_start_task:
  assumes "start_task nodes env i r = (r', ss, t)" and "shape K x r"
  shows "shape K x r' \<and> (\<forall>s \<in> set ss. shape K x s)"
  using assms by (auto simp: start_task_def Let_def split: option.splits if_splits)

lemma shape_start_tasks:
  assumes "start_tasks nodes env is r = (r', ss, ts)" and "shape K x r"
  shows "shape K x r' \<and> (\<forall>s \<in> set ss. shape K x s)"
  using assms
proof (induction "is" arbitrary: r r' ss ts)
  case (Cons i "is")
  obtain r1 ss1 t where one: "start_task nodes env i r = (r1, ss1, t)" by (metis prod_cases3)
  obtain r2 ss2 ts2 where rest: "start_tasks nodes env is r1 = (r2, ss2, ts2)" by (metis prod_cases3)
  from Cons.IH [OF rest] shape_start_task [OF one Cons.prems(2)] Cons.prems(1) show ?case
    by (auto simp: one rest)
qed simp

lemma shape_block:
  assumes "blockForApproval env i prompt options r = Inr (r', ss)" and "shape K x r"
  shows "shape K x r' \<and> (\<forall>s \<in> set ss. shape K x s)"
  using assms by (auto simp: blockForApproval_def Let_def split: option.splits sum.splits)

lemma shape_attempt_failed:
  assumes "attempt_failed env i n k m sh r = (r', ss, t)" and "shape K x r"
  shows "shape K x r' \<and> (\<forall>s \<in> set ss. shape K x s)"
  using assms by (auto simp: attempt_failed_def Let_def split: if_splits)

lemma shape_artifacts:
  assumes "collectAndRecordArtifacts env i n found r = Inr (r', ss)" and "shape K x r"
  shows "shape K x r' \<and> (\<forall>s \<in> set ss. shape K x s)"
proof -
  have "shape K x (fold (record_missing env i) ms (fold (record_artifact env i) as r))" for ms as
    by (intro shape_fold) (use assms(2) in \<open>auto simp: record_missing_def record_artifact_def Let_def split: prod.splits option.splits\<close>)
  then show ?thesis
    using assms by (auto simp: collectAndRecordArtifacts_def Let_def split: if_splits sum.splits prod.splits)
qed

text \<open>The copies of an attempt.\<close>

definition att_shape :: "string list \<Rightarrow> string \<Rightarrow> attempt \<Rightarrow> bool" where
  "att_shape K x att \<longleftrightarrow> (case att of (r, ss, _) \<Rightarrow> shape K x r \<and> (\<forall>s \<in> set ss. shape K x s))"

lemma att_shape_failed [simp]: "att_shape K x (failed_attempt r m) = shape K x r"
  by (simp add: att_shape_def failed_attempt_def)

lemma att_shape_blocked:
  "shape K x r \<Longrightarrow> shape K x r1 \<Longrightarrow> att_shape K x (blocked_attempt r (blockForApproval env i prompt options r1))"
  using shape_block [of env i prompt options r1]
  by (auto simp: blocked_attempt_def att_shape_def failed_attempt_def split: sum.splits prod.splits)

lemma att_shape_gate: "shape K x r \<Longrightarrow> att_shape K x (executeGateNode jsonata pd env i g r)"
proof -
  assume r: "shape K x r"
  have check: "att_shape K x (executeCheckGate jsonata env i t e g r)" for t e
    using r by (auto simp: executeCheckGate_def setGateOutput_def att_shape_def failed_attempt_def split: sum.splits)
  have schedule: "att_shape K x (executeScheduleGate jsonata pd env i u g r)" for u
    using r by (auto simp: executeScheduleGate_def setGateOutput_def att_shape_def failed_attempt_def Let_def
        split: sum.splits option.splits prod.splits)
  show ?thesis
  proof (cases g)
    case (Human_review prompt)
    then show ?thesis
      using r shape_block [OF _ r, of env i]
      by (auto simp: executeGateNode_def att_shape_def failed_attempt_def Let_def split: sum.splits prod.splits)
  qed (use check schedule in \<open>simp_all add: executeGateNode_def\<close>)
qed

lemma att_shape_condition: "shape K x r \<Longrightarrow> att_shape K x (executeCondition jsonata env i e ts es r)"
proof -
  assume r: "shape K x r"
  have "shape K x (fold (skipBranchNode env i b e) is (upd_node i f r))" for b f "is"
    by (intro shape_fold) (use r in \<open>auto simp: skipBranchNode_def split: option.splits\<close>)
  with r show ?thesis by (auto simp: executeCondition_def att_shape_def failed_attempt_def Let_def split: sum.splits prod.splits)
qed

lemma att_shape_plan: "shape K x r \<Longrightarrow> att_shape K x (executePlan jsonata env po i n b sm so ref w r)"
proof -
  assume "shape K x r"
  then have r: "shape K x (fold (backfillPromptDependencyOutput po) (needs n) r)"
    by (intro shape_fold) (auto simp: backfillPromptDependencyOutput_def)
  show ?thesis
    unfolding executePlan_def Let_def
    by (auto simp: r att_shape_def [of _ _ "(_, [], _)"] intro!: att_shape_blocked split: sum.splits prod.splits)
qed

lemma att_shape_action: "shape K x r \<Longrightarrow> att_shape K x (executeAction env ad i a b key req r)"
  by (auto simp: executeAction_def Let_def att_shape_def [of _ _ "(_, [], _)"] intro!: att_shape_blocked
      split: adapter_result.splits option.splits prod.splits)

lemma works_shape: "works r r' \<Longrightarrow> shape K x r \<Longrightarrow> shape K x r'"
  by (simp add: works_def shape_def)

lemma executes_shape: "executes w ss env i n r att \<Longrightarrow> shape K x r \<Longrightarrow> att_shape K x att"
proof (induction rule: executes.induct)
  case (approval n prompt rej capt options i r)
  then show ?case by (auto simp: executeApproval_def intro!: att_shape_blocked split: sum.splits)
next
  case (artifact n name origin path descr i r)
  then show ?case by (simp add: executeArtifact_def att_shape_def Let_def)
next
  case (external n r r' out i)
  then show ?case by (simp add: att_shape_def works_shape)
qed (simp_all add: att_shape_gate att_shape_condition att_shape_plan att_shape_action att_shape_blocked works_shape)

lemma shape_end_attempt:
  assumes "end_attempt env i n k found att = (r', ss, t)" and "att_shape K x att"
  shows "shape K x r' \<and> (\<forall>s \<in> set ss. shape K x s)"
proof -
  obtain r ss0 out where att: "att = (r, ss0, out)" by (metis prod_cases3)
  have r: "shape K x r" "\<forall>s \<in> set ss0. shape K x s" using assms(2) by (auto simp: att_shape_def att)
  note failed = shape_attempt_failed [OF _ r(1), of env i n k]
  show ?thesis
  proof (cases out)
    case (Done cwd)
    show ?thesis
    proof (cases "collectAndRecordArtifacts env i n found r")
      case (Inl e)
      obtain r2 ss2 t2 where "attempt_failed env i n k e None r = (r2, ss2, t2)" by (metis prod_cases3)
      with failed [OF this] r assms(1) Inl show ?thesis by (auto simp: end_attempt_def att Done Let_def)
    next
      case (Inr p)
      obtain r1 ss1 where p: "p = (r1, ss1)" by fastforce
      from shape_artifacts [OF Inr [unfolded p] r(1)] r assms(1) show ?thesis
        by (auto simp: end_attempt_def att Done Inr p Let_def)
    qed
  next
    case Waiting
    then show ?thesis using r assms(1) by (auto simp: end_attempt_def att)
  next
    case (Error m sh)
    obtain r2 ss2 t2 where "attempt_failed env i n k m sh r = (r2, ss2, t2)" by (metis prod_cases3)
    with failed [OF this] r assms(1) show ?thesis by (auto simp: end_attempt_def att Error Let_def)
  qed
qed

end
