(* ===== verification/Workflow_System.thy ===== *)
theory Workflow_System
  imports Workflow_Footprint
begin

text \<open>
  A workflow run in the daemon: its stored record, the schedulers that work on it, and everything else that reads,
  changes and saves it: cancellations, decisions on approvals, reports of the platform, failures and restarts of the
  daemon. Several schedulers can be at work on one run, because a decision starts a new one while the layer that
  raised the question may still be executing.

  The cancellation reads the run and saves it later, with other steps in between; so does a decision that waits for
  an agent or a command. Such copies are kept in \<open>s_pending\<close>.
\<close>

section \<open>The system\<close>

record sys =
  s_stored :: run
  s_active :: bool
  s_pending :: "run list"
  s_threads :: "phase list"

definition ended :: "phase \<Rightarrow> bool" where
  "ended ph \<longleftrightarrow> (case ph of Returned \<Rightarrow> True | Thrown _ \<Rightarrow> True | _ \<Rightarrow> False)"

text \<open>\<open>startRun\<close> up to the start of the scheduler. The metadata of a node, which \<open>workflowNodeMetadata\<close> reads off its
  definition, and the events of the preparation of the run are arguments.\<close>

definition initial_state :: "(node \<Rightarrow> obj) \<Rightarrow> string \<times> node \<Rightarrow> string \<times> node_state" where
  "initial_state metadata e =
     (fst e,
      \<lparr>ns_id = fst e, ns_type = type_name (n_kind (snd e)), ns_status = Queued, ns_startedAt = None, ns_completedAt = None,
       ns_sessionId = None, ns_nativeSessionId = None, ns_worktreePath = None, ns_output = None, ns_outputs = None,
       ns_exitCode = None, ns_error = None, ns_skipReason = None, ns_metadata = Some (metadata (snd e)), ns_approval = None,
       ns_iterations = None, ns_attempts = None, ns_inlineAgents = None, ns_transcriptExcerpt = None\<rparr>)"

definition initial_run :: "definition_nodes \<Rightarrow> (node \<Rightarrow> obj) \<Rightarrow> event list \<Rightarrow> string \<Rightarrow> string \<Rightarrow> obj \<Rightarrow> int \<Rightarrow> run" where
  "initial_run nodes metadata events ident dir inputs now =
     \<lparr>r_id = ident, r_directoryPath = dir, r_resourceId = None, r_platformRunId = None, r_machineId = None,
      r_workflowAuthorityContract = None, r_status = RQueued, r_inputs = inputs, r_nodes = map (initial_state metadata) nodes,
      r_artifacts = [], r_events = events, r_startedAt = None, r_updatedAt = now, r_completedAt = None, r_error = None\<rparr>"

definition initial_sys :: "definition_nodes \<Rightarrow> (node \<Rightarrow> obj) \<Rightarrow> event list \<Rightarrow> string \<Rightarrow> string \<Rightarrow> obj \<Rightarrow> int \<Rightarrow> sys" where
  "initial_sys nodes metadata events ident dir inputs now =
     \<lparr>s_stored = initial_run nodes metadata events ident dir inputs now, s_active = True, s_pending = [], s_threads = [Starting False]\<rparr>"

text \<open>\<open>failRun\<close> with the read and the save around it.\<close>

definition fail_stored :: "sessions \<Rightarrow> env \<Rightarrow> bool \<Rightarrow> string \<Rightarrow> run \<Rightarrow> run" where
  "fail_stored ss env active message stored =
     (let (r, ms) = reconcile ss env active stored; stored1 = saved ms stored
      in case failRun env message r of None \<Rightarrow> stored1 | Some r' \<Rightarrow> saved [r'] stored1)"

definition decided_saves :: "decided \<Rightarrow> saves" where
  "decided_saves d = (case d of Refused _ ss \<Rightarrow> ss | Decided _ ss _ \<Rightarrow> ss)"

definition restarts :: "decided \<Rightarrow> bool" where
  "restarts d = (case d of Refused _ _ \<Rightarrow> False | Decided _ _ b \<Rightarrow> b)"

inductive sys_step :: "workflow \<Rightarrow> sys \<Rightarrow> sys \<Rightarrow> bool" for w where
  sched: "k < length (s_threads s) \<Longrightarrow> sched_step w (s_active s) (s_stored s, s_threads s ! k) (stored', ph') \<Longrightarrow>
     sys_step w s (s\<lparr>s_stored := stored', s_threads := (s_threads s)[k := ph'],
                     s_active := (s_active s \<and> \<not> ended ph')\<rparr>)"
| caught: "k < length (s_threads s) \<Longrightarrow> s_threads s ! k = Thrown message \<Longrightarrow>
     sys_step w s (s\<lparr>s_stored := fail_stored ss env (s_active s) message (s_stored s), s_threads := (s_threads s)[k := Returned]\<rparr>)"
| cancel_read: "reconcile ss env (s_active s) (s_stored s) = (r, ms) \<Longrightarrow> \<not> isTerminalRunStatus (r_status r) \<Longrightarrow>
     sys_step w s (s\<lparr>s_stored := saved ms (s_stored s), s_active := False,
                     s_pending := fst (cancelRun uuid now message r) # s_pending s\<rparr>)"
| save_pending: "r \<in> set (s_pending s) \<Longrightarrow>
     sys_step w s (s\<lparr>s_stored := saved [r] (s_stored s), s_pending := remove1 r (s_pending s)\<rparr>)"
| decide: "reconcile ss env (s_active s) (s_stored s) = (r, ms) \<Longrightarrow> (\<forall>r. works r (follow_up r)) \<Longrightarrow>
     d = decideApproval env (jm_get (w_nodes w) nodeId) revising follow_up nodeId decision r \<Longrightarrow>
     sys_step w s (s\<lparr>s_stored := saved (decided_saves d) (saved ms (s_stored s)),
                     s_threads := s_threads s @ (if restarts d then [Starting True] else []),
                     s_active := (s_active s \<or> restarts d)\<rparr>)"
| decide_later: "reconcile ss env (s_active s) (s_stored s) = (r, ms) \<Longrightarrow> (\<forall>r. works r (follow_up r)) \<Longrightarrow>
     d = decideApproval env (jm_get (w_nodes w) nodeId) revising follow_up nodeId decision r \<Longrightarrow> \<not> restarts d \<Longrightarrow>
     sys_step w s (s\<lparr>s_stored := saved ms (s_stored s), s_pending := decided_saves d @ s_pending s\<rparr>)"
| report: "sys_step w s (s\<lparr>s_stored := saved (a_saves (applyActionCompleted env c ids (Some (s_stored s)))) (s_stored s)\<rparr>)"
| resume: "sys_step w s (s\<lparr>s_threads := s_threads s @ [Starting True], s_active := True\<rparr>)"
| restart: "resumeOneRun ss env (s_stored s) = (saves', started) \<Longrightarrow>
     sys_step w s \<lparr>s_stored = saved saves' (s_stored s), s_active = (started \<noteq> None), s_pending = [],
                   s_threads = (if started = None then [] else [Starting True])\<rparr>"

inductive reachable :: "workflow \<Rightarrow> sys \<Rightarrow> bool" for w where
  init: "reachable w (initial_sys (w_nodes w) metadata events ident dir inputs now)"
| step: "reachable w s \<Longrightarrow> sys_step w s s' \<Longrightarrow> reachable w s'"

section \<open>Every step saves copies of the run\<close>

definition phase_shape :: "string list \<Rightarrow> string \<Rightarrow> phase \<Rightarrow> bool" where
  "phase_shape K x ph \<longleftrightarrow> (case ph of Layer _ fresh _ _ \<Rightarrow> shape K x fresh | _ \<Rightarrow> True)"

lemma phase_shape_simps [simp]:
  "phase_shape K x (Starting b)" "phase_shape K x (Loop n)" "phase_shape K x Returned" "phase_shape K x (Thrown e)"
  "phase_shape K x (Layer n r ids ts) = shape K x r"
  by (simp_all add: phase_shape_def)

text \<open>What a step of a scheduler does, in short: it saves copies of the run and keeps one.\<close>

definition good :: "string list \<Rightarrow> string \<Rightarrow> run \<Rightarrow> run \<times> phase \<Rightarrow> bool" where
  "good K x stored c \<longleftrightarrow> by_saves K x stored (fst c) \<and> phase_shape K x (snd c)"

lemma good_trans: "by_saves K x stored stored1 \<Longrightarrow> good K x stored1 c \<Longrightarrow> good K x stored c"
  using by_saves_trans by (auto simp: good_def)

lemma good_stay [simp]: "good K x stored (stored, ph) = phase_shape K x ph"
  by (simp add: good_def)

lemma good_saved: "\<forall>s \<in> set ss. shape K x s \<Longrightarrow> good K x stored (saved ss stored, ph) = phase_shape K x ph"
  by (simp add: good_def by_saves_saved)

lemma good_one: "shape K x s \<Longrightarrow> good K x stored (mergeExistingRun s stored, ph) = phase_shape K x ph"
  using good_saved [of "[s]"] by simp

lemma reconciled:
  assumes "reconcile ss env active stored = (r, ms)" and "shape K x stored"
  shows "shape K x r" and "by_saves K x stored (saved ms stored)" and "shape K x (saved ms stored)"
  using shape_reconcile [OF assms(2), of ss env active] assms
  by (auto intro: by_saves_saved shape_saved)

lemma good_start: "shape K x stored \<Longrightarrow> good K x stored (start_run ss env active resumed issues stored)"
proof -
  assume s: "shape K x stored"
  obtain r ms where rc: "reconcile ss env active stored = (r, ms)" by fastforce
  note r = reconciled [OF rc s]
  show ?thesis
    unfolding start_run_def
    by (rule good_trans [OF r(2)]) (simp add: rc Let_def good_one r(1))
qed

lemma good_idle:
  assumes "shape K x fresh" and "shape K x stored"
  shows "good K x stored (idle_round ss env active n fresh stored)"
proof -
  obtain r ms where rc: "reconcile ss env active stored = (r, ms)" by fastforce
  note r = reconciled [OF rc assms(2)]
  have "good K x stored (saved ms stored, Returned)" using r(2) by (simp add: good_def)
  moreover have "good K x stored (mergeExistingRun (emit env t m d i (r\<lparr>r_status := s, r_completedAt := c, r_updatedAt := u\<rparr>)) (saved ms stored), Returned)"
    for t m d i s c u by (rule good_trans [OF r(2)]) (simp add: good_one r(1))
  ultimately show ?thesis using assms(1) by (simp add: idle_round_def Let_def rc good_one)
qed

lemma good_launch:
  assumes "shape K x fresh"
  shows "good K x stored (launch_layer w env n ids skipped fresh stored)"
proof -
  let ?f = "fold (markSkipped env) skipped fresh"
  let ?s = "if skipped \<noteq> [] then saved [?f] stored else stored"
  have f: "shape K x ?f" by (intro shape_fold) (simp_all add: shape_markSkipped assms)
  obtain f2 ss2 ts where st: "start_tasks (w_nodes w) env ids ?f = (f2, ss2, ts)" by (metis prod_cases3)
  have "by_saves K x stored ?s" using f by (simp add: by_saves_one)
  then show ?thesis
    using shape_start_tasks [OF st f] by (auto simp: launch_layer_def st Let_def good_saved intro: good_trans)
qed

lemma good_round: "shape K x stored \<Longrightarrow> good K x stored (loop_round w ss env active n stored)"
proof -
  assume s: "shape K x stored"
  obtain fresh ms where rc: "reconcile ss env active stored = (fresh, ms)" by fastforce
  note r = reconciled [OF rc s]
  have "good K x stored (saved ms stored, Returned)" "good K x stored (saved ms stored, Thrown e)" for e
    using r(2) by (simp_all add: good_def)
  moreover have "good K x stored (idle_round ss env active m fresh (saved ms stored))" for m
    by (rule good_trans [OF r(2)]) (rule good_idle [OF r(1,3)])
  moreover have "good K x stored (launch_layer w env m ids sk fresh (saved ms stored))" for m ids sk
    by (rule good_trans [OF r(2)]) (rule good_launch [OF r(1)])
  ultimately show ?thesis by (simp add: loop_round_def rc Let_def split: sum.split prod.split)
qed

lemma shape_note_results: "shape K x u \<Longrightarrow> shape K x (fst (note_results w env ts u))"
proof (induction ts arbitrary: u)
  case (Cons t ts)
  obtain i tk where t: "t = (i, tk)" by fastforce
  have "shape K x (fst (note_result w env i tk u))"
    using Cons.prems by (auto simp: note_result_def split: task.splits option.splits prod.splits)
  with Cons.IH show ?case by (auto simp: t split: prod.splits option.splits)
qed simp

lemma good_finish: "shape K x stored \<Longrightarrow> good K x stored (finish_layer w ss env active n ids ts stored)"
proof -
  assume s: "shape K x stored"
  obtain u ms where rc: "reconcile ss env active stored = (u, ms)" by fastforce
  note r = reconciled [OF rc s]
  obtain u1 e where nr: "note_results w env ts u = (u1, e)" by fastforce
  have u1: "shape K x u1" using shape_note_results [OF r(1), of w env ts] by (simp add: nr)
  let ?s1 = "mergeExistingRun u1 (saved ms stored)"
  have s1: "by_saves K x stored ?s1" "shape K x ?s1"
    using by_saves_trans [OF r(2) by_saves_one [OF u1]] shape_merge [OF u1 r(3)] by auto
  obtain r2 ms2 where rc2: "reconcile ss env active ?s1 = (r2, ms2)" by fastforce
  note q = reconciled [OF rc2 s1(2)]
  have q2: "by_saves K x stored (saved ms2 ?s1)" using by_saves_trans [OF s1(1) q(2)] .
  then have "good K x stored (saved ms2 ?s1, ph) = phase_shape K x ph" for ph by (simp add: good_def)
  moreover have "good K x stored (?s1, Thrown m)" for m using s1(1) by (simp add: good_def)
  moreover have "good K x stored (mergeExistingRun (emit env a b c d (r2\<lparr>r_status := f, r_error := g, r_completedAt := h, r_updatedAt := o1\<rparr>))
      (saved ms2 ?s1), Returned)" for a b c d f g h o1
    by (rule good_trans [OF q2]) (simp add: good_one q(1))
  ultimately show ?thesis by (simp add: finish_layer_def rc nr rc2 Let_def split: option.split list.split)
qed

lemma sched_step_good:
  assumes "sched_step w active (stored, ph) c" and "shape K x stored" and "phase_shape K x ph"
  shows "good K x stored c"
  using assms
proof (cases rule: sched_step.cases)
  case (progress i k tasks fresh fresh' n ids)
  then show ?thesis using assms(3) works_shape by (auto simp: good_one)
next
  case (attempt tasks i k nd ss env fresh att found fresh' saves' t n ids)
  then have "att_shape K x att" using assms(3) executes_shape by auto
  from shape_end_attempt [OF attempt(6) this] attempt show ?thesis by (auto simp: good_saved)
qed (use assms(2) good_start good_round good_finish in auto)

section \<open>What a round knows about the nodes it starts\<close>

lemma backfill_fold_cases:
  assumes "fold (backfillPromptOutput ss env) is (r, False) = (r', c)"
  shows "c \<or> r' = r"
proof -
  have "snd (fold (backfillPromptOutput ss env) is acc) \<or> fold (backfillPromptOutput ss env) is acc = acc" for acc
  proof (induction "is" arbitrary: acc)
    case (Cons i "is")
    have "snd (backfillPromptOutput ss env i acc) \<or> backfillPromptOutput ss env i acc = acc"
      by (auto simp: backfillPromptOutput_def Let_def split: prod.splits option.splits)
    moreover have "snd acc \<longrightarrow> snd (fold (backfillPromptOutput ss env) js acc)" for js acc
    proof (induction js arbitrary: acc)
      case (Cons j js)
      have "snd acc \<longrightarrow> snd (backfillPromptOutput ss env j acc)"
        by (auto simp: backfillPromptOutput_def Let_def split: prod.splits option.splits)
      with Cons show ?case by simp
    qed simp
    ultimately show ?case using Cons.IH [of "backfillPromptOutput ss env i acc"] by auto
  qed simp
  from this [of "(r, False)"] assms show ?thesis by auto
qed

lemma reconcile_fold_cases:
  assumes "fold (reconcile_node ss env) is (r, False) = (r', c)"
  shows "c \<or> r' = r"
proof -
  have "snd acc \<longrightarrow> snd (fold (reconcile_node ss env) js acc)" for js acc
  proof (induction js arbitrary: acc)
    case (Cons j js)
    have "snd acc \<longrightarrow> snd (reconcile_node ss env j acc)"
      by (auto simp: reconcile_node_def Let_def split: prod.splits option.splits)
    with Cons show ?case by simp
  qed simp
  note stays = this
  have "snd (fold (reconcile_node ss env) is acc) \<or> fold (reconcile_node ss env) is acc = acc" for acc
  proof (induction "is" arbitrary: acc)
    case (Cons i "is")
    have "snd (reconcile_node ss env i acc) \<or> reconcile_node ss env i acc = acc"
      by (auto simp: reconcile_node_def Let_def split: prod.splits option.splits)
    then show ?case using Cons.IH [of "reconcile_node ss env i acc"] stays by auto
  qed simp
  from this [of "(r, False)"] assms show ?thesis by auto
qed

text \<open>The reconciler saves what it returns, or returns what it was given.\<close>

lemma reconcile_cases:
  assumes "reconcile ss env active r = (r', ms)"
  shows "ms = [r'] \<or> ms = [] \<and> r' = r"
  using assms backfill_fold_cases [of ss env "jm_keys (r_nodes r)" r] reconcile_fold_cases [of ss env "jm_keys (r_nodes r)" r]
  by (auto simp: reconcile_def backfillPromptOutputs_def Let_def split: if_splits prod.splits)

lemma merged_terminal:
  assumes "terminal_at s i" and "shape K x s" and "shape K x e" and "distinct K"
  shows "terminal_at (mergeExistingRun s e) i"
  using assms(1) shape_wf [OF assms(3,4)] shape_get [OF assms(2,3), of i]
  by (auto simp: terminal_at_iff mergeExistingRun_fields merged_node shouldPreserveExistingNode_def split: option.splits if_splits)

lemma reconciled_terminal:
  assumes "reconcile ss env active r = (r', ms)" and "shape K x r" and "distinct K" and "terminal_at r' i"
  shows "terminal_at (saved ms r) i"
  using reconcile_cases [OF assms(1)] merged_terminal [OF assms(4) reconciled(1) [OF assms(1,2)] assms(2,3)] assms(4) by auto

lemma classify_mem:
  assumes "classifyLayer w r is = Inr (toExecute, skipped)" and "i \<in> set toExecute"
  shows "i \<in> set is \<and> (\<exists>n guard. jm_get (w_nodes w) i = Some n \<and> evaluateNodeGuards w r i n = Inr guard \<and> \<not> truthy guard)"
  using assms
proof (induction "is" arbitrary: toExecute skipped)
  case (Cons j "is")
  show ?case
  proof (cases "jm_get (w_nodes w) j")
    case None
    then show ?thesis using Cons by auto
  next
    case (Some n)
    obtain guard where g: "evaluateNodeGuards w r j n = Inr guard"
      using Cons.prems(1) Some by (cases "evaluateNodeGuards w r j n") auto
    obtain te sk where rest: "classifyLayer w r is = Inr (te, sk)"
      using Cons.prems(1) Some g by (cases "classifyLayer w r is") auto
    show ?thesis using Cons.prems Cons.IH [OF rest] Some g by (cases "truthy guard") (auto simp: rest)
  qed
qed simp

lemma guard_trigger:
  assumes "evaluateNodeGuards w r i n = Inr guard" and "\<not> truthy guard"
  shows "trigger_satisfied (n_triggerRule n) (List.map_filter (jm_get (r_nodes r)) (needs n))"
proof -
  let ?t = "evaluateTriggerRule (n_triggerRule n) (List.map_filter (jm_get (r_nodes r)) (needs n))"
  have "te_ready ?t"
  proof (rule ccontr)
    assume n: "\<not> te_ready ?t"
    have s: "isTriggerSkipReason (te_reason ?t)" using trigger_not_ready [OF n] .
    then have "truthy (te_reason ?t)"
      by (auto simp: isTriggerSkipReason_def truthy_def startsWith_def trigger_prefix_def split: option.splits)
    with n s assms show False by (simp add: evaluateNodeGuards_def Let_def)
  qed
  then show ?thesis by (simp add: trigger_ready_iff)
qed

lemma launch_layer_ids:
  assumes "launch_layer w env n ids skipped fresh stored = (stored', Layer m fresh' ids' tasks)"
  shows "ids' = ids" "m = n"
  using assms by (auto simp: launch_layer_def Let_def split: if_splits prod.splits)

lemma start_tasks_keys: "start_tasks nodes env ids r = (r', ss, ts) \<Longrightarrow> map fst ts = ids"
  by (induction ids arbitrary: r r' ss ts) (fastforce split: prod.splits)+

lemma launch_layer_tasks:
  assumes "launch_layer w env n ids skipped fresh stored = (stored', Layer m fresh' ids' tasks)"
  shows "map fst tasks = ids'"
  using assms start_tasks_keys by (fastforce simp: launch_layer_def Let_def split: if_splits prod.splits)

lemma idle_no_layer: "idle_round ss env active n fresh stored \<noteq> (stored', Layer m fresh' ids tasks)"
  by (auto simp: idle_round_def Let_def split: prod.splits if_splits)

text \<open>The nodes of a layer were queued in the run that the round has read, their needs were terminal there, and their
  trigger rule was satisfied.\<close>

lemma round_layer:
  assumes "loop_round w ss env active n stored = (stored', Layer m fresh ids tasks)" and "jm_wf (w_nodes w)"
    and "shape K x stored" and "distinct K"
  shows "map fst tasks = ids \<and> (\<exists>r. (\<forall>i \<in> set ids. \<exists>nd. jm_get (w_nodes w) i = Some nd \<and> status_of r i = Some Queued \<and>
           (\<forall>d \<in> set (needs nd). terminal_at r d) \<and>
           trigger_satisfied (n_triggerRule nd) (List.map_filter (jm_get (r_nodes r)) (needs nd))) \<and>
         (\<forall>d. terminal_at r d \<longrightarrow> terminal_at stored' d))"
proof -
  obtain r ms where rc: "reconcile ss env active stored = (r, ms)" by fastforce
  note q = reconciled [OF rc assms(3)]
  obtain skipped where cl: "classifyLayer w r (findReadyNodeIds r (w_nodes w)) = Inr (ids, skipped)"
    and la: "launch_layer w env (n + 1) ids skipped r (saved ms stored) = (stored', Layer m fresh ids tasks)"
    using assms(1) idle_no_layer [of ss env active "n + 1" r "saved ms stored"] launch_layer_ids
    by (fastforce simp: loop_round_def rc Let_def split: if_splits sum.splits prod.splits)
  have "\<exists>nd. jm_get (w_nodes w) i = Some nd \<and> status_of r i = Some Queued \<and> (\<forall>d \<in> set (needs nd). terminal_at r d) \<and>
      trigger_satisfied (n_triggerRule nd) (List.map_filter (jm_get (r_nodes r)) (needs nd))" if "i \<in> set ids" for i
  proof -
    obtain nd guard where nd: "i \<in> set (findReadyNodeIds r (w_nodes w))" "jm_get (w_nodes w) i = Some nd"
        "evaluateNodeGuards w r i nd = Inr guard" "\<not> truthy guard"
      using classify_mem [OF cl \<open>i \<in> set ids\<close>] by blast
    obtain nd' st where r': "(i, nd') \<in> set (w_nodes w)" "jm_get (r_nodes r) i = Some st" "ns_status st = Queued" "needs_terminal r nd'"
      using ready_mem [OF nd(1)] by blast
    have "nd' = nd" using r'(1) nd(2) jm_get_wf [OF assms(2)] by auto
    then show ?thesis
      using r' nd guard_trigger [OF nd(3,4)]
      by (fastforce simp: status_of_def needs_terminal_def terminal_at_iff split: option.splits)
  qed
  moreover have "terminal_at stored' d" if "terminal_at r d" for d
  proof -
    have "by_saves K x (saved ms stored) stored'"
      using good_launch [OF q(1), of "saved ms stored" w env "n + 1" ids skipped] unfolding la by (simp add: good_def)
    then show ?thesis using by_saves_terminal reconciled_terminal [OF rc assms(3,4) that] q(3) assms(4) by blast
  qed
  ultimately show ?thesis using launch_layer_tasks [OF la] by blast
qed

section \<open>The invariant\<close>

text \<open>The needs of every node of a layer are done.\<close>

definition layer_ok :: "workflow \<Rightarrow> run \<Rightarrow> phase \<Rightarrow> bool" where
  "layer_ok w stored ph \<longleftrightarrow>
     (case ph of
        Layer _ _ ids tasks \<Rightarrow>
          map fst tasks = ids \<and> (\<forall>i \<in> set ids. \<forall>d \<in> set (needs_of (w_nodes w) i). terminal_at stored d)
      | _ \<Rightarrow> True)"

definition sys_inv :: "workflow \<Rightarrow> string \<Rightarrow> sys \<Rightarrow> bool" where
  "sys_inv w x s \<longleftrightarrow>
     shape (jm_keys (w_nodes w)) x (s_stored s) \<and> (\<forall>r \<in> set (s_pending s). shape (jm_keys (w_nodes w)) x r) \<and>
     (\<forall>ph \<in> set (s_threads s). phase_shape (jm_keys (w_nodes w)) x ph \<and> layer_ok w (s_stored s) ph)"

lemma layer_ok_mono:
  assumes "layer_ok w stored ph" and "by_saves K x stored stored'" and "shape K x stored" and "distinct K"
  shows "layer_ok w stored' ph"
  using assms(1) by_saves_terminal [OF assms(2-4)] by (auto simp: layer_ok_def split: phase.splits)

lemma layer_ok_simps [simp]:
  "layer_ok w r (Starting b)" "layer_ok w r (Loop n)" "layer_ok w r Returned" "layer_ok w r (Thrown e)"
  by (simp_all add: layer_ok_def)

lemma layer_of_start: "start_run ss env a b is stored \<noteq> (stored', Layer m fresh ids tasks)"
  by (auto simp: start_run_def Let_def split: prod.splits if_splits)

lemma layer_of_finish: "finish_layer w ss env a n ids ts stored \<noteq> (stored', Layer m fresh ids' tasks)"
  by (auto simp: finish_layer_def Let_def split: prod.splits if_splits option.splits list.splits)

lemma sched_step_layer:
  assumes "sched_step w active (stored, ph) (stored', ph')" and "jm_wf (w_nodes w)"
    and "shape K x stored" and "phase_shape K x ph" and "distinct K" and "layer_ok w stored ph"
  shows "layer_ok w stored' ph'"
  using assms(1)
proof (cases rule: sched_step.cases)
  case (start resumed ss env issues)
  then show ?thesis using layer_of_start [symmetric] by (cases ph') (auto simp: layer_ok_def)
next
  case (round n ss env)
  show ?thesis
  proof (cases ph')
    case (Layer m fresh ids tasks)
    with round have "loop_round w ss env active n stored = (stored', Layer m fresh ids tasks)" by simp
    from round_layer [OF this assms(2,3,5)] show ?thesis by (fastforce simp: layer_ok_def Layer needs_of_def)
  qed (simp_all add: layer_ok_def)
next
  case (progress i k tasks fresh fresh' n ids)
  have "by_saves K x stored stored'" using sched_step_good [OF assms(1,3,4)] by (simp add: good_def)
  from layer_ok_mono [OF assms(6) this assms(3,5)] progress show ?thesis by (simp add: layer_ok_def)
next
  case (attempt tasks i k nd ss env fresh att found fresh' saves' t n ids)
  have "by_saves K x stored stored'" using sched_step_good [OF assms(1,3,4)] by (simp add: good_def)
  note m = layer_ok_mono [OF assms(6) this assms(3,5)]
  have "map fst (jm_set i t tasks) = map fst tasks"
    using attempt(4) jm_keys_set [of i t tasks] by (simp add: jm_keys_def)
  then show ?thesis using m attempt by (simp add: layer_ok_def)
next
  case (finish tasks n fresh ids ss env)
  then show ?thesis using layer_of_finish [symmetric] by (cases ph') (auto simp: layer_ok_def)
qed

lemma shape_decided:
  assumes "shape K x r" and "\<forall>r. works r (follow_up r)"
  shows "\<forall>s \<in> set (decided_saves (decideApproval env n revising follow_up i d r)). shape K x s"
proof -
  have f: "shape K x (follow_up r)" if "shape K x r" for r using assms(2) works_shape that by blast
  show ?thesis
    using assms(1) f
    by (auto simp: decided_saves_def decideApproval_def request_changes_def reject_node_def approve_node_def Let_def
        split: option.splits revision.splits)
qed

lemma shape_cancel: "shape K x (fst (cancelRun uuid now message r)) = shape K x r"
  by (auto simp: cancelRun_def Let_def shape_def jm_keys_def case_prod_beta comp_def)

lemma shape_report: "\<forall>s \<in> set (a_saves (applyActionCompleted env c ids (Some r))). shape K x s = shape K x r"
  by (auto simp: applyActionCompleted_def nothing_def completed_by_broker_def Let_def split: option.splits)

lemma shape_fail: "shape K x r \<Longrightarrow> by_saves K x r (fail_stored ss env a m r)"
proof -
  assume r: "shape K x r"
  obtain q ms where rc: "reconcile ss env a r = (q, ms)" by fastforce
  note k = reconciled [OF rc r]
  have "shape K x q'" if "failRun env m q = Some q'" for q'
    using that k(1) by (auto simp: failRun_def split: if_splits)
  then show ?thesis
    using k(2) by_saves_trans [OF k(2) by_saves_one] by (auto simp: fail_stored_def rc Let_def split: option.splits)
qed

lemma shape_resume:
  assumes "resumeOneRun ss env r = (saves', started)" and "shape K x r"
  shows "\<forall>s \<in> set saves'. shape K x s"
proof -
  obtain q ms where rc: "reconcile ss env False r = (q, ms)" by fastforce
  have "shape K x q" "\<forall>s \<in> set ms. shape K x s" using shape_reconcile [OF assms(2), of ss env False] by (auto simp: rc)
  moreover have "shape K x (q\<lparr>r_nodes := map (\<lambda>(i, st). (i, requeue st)) (r_nodes q)\<rparr>) = shape K x q"
    by (auto simp: shape_def jm_keys_def case_prod_beta comp_def)
  ultimately show ?thesis using assms(1) by (auto simp: resumeOneRun_def rc Let_def split: if_splits)
qed

text \<open>Every step changes the stored run by saves of copies of it, and keeps the shape of all copies.\<close>

lemma sys_step_saves:
  assumes "sys_step w s s'" and "sys_inv w x s"
  shows "by_saves (jm_keys (w_nodes w)) x (s_stored s) (s_stored s')"
proof -
  let ?K = "jm_keys (w_nodes w)"
  have s: "shape ?K x (s_stored s)" using assms(2) by (simp add: sys_inv_def)
  show ?thesis
    using assms(1)
  proof (cases rule: sys_step.cases)
    case (sched k stored' ph')
    then have "phase_shape ?K x (s_threads s ! k)" using assms(2) nth_mem by (auto simp: sys_inv_def)
    from sched_step_good [OF sched(3) s this] show ?thesis by (simp add: sched good_def)
  next
    case (caught k message ss env)
    then show ?thesis using shape_fail [OF s] by simp
  next
    case (cancel_read ss env r ms uuid now message)
    then show ?thesis using reconciled(2) [OF _ s] by simp
  next
    case (save_pending r)
    then show ?thesis using assms(2) by (auto simp: sys_inv_def intro: by_saves_one)
  next
    case (decide ss env r ms follow_up d nodeId revising decision)
    note q = reconciled [OF decide(2) s]
    from by_saves_trans [OF q(2) by_saves_saved [OF shape_decided [OF q(1) decide(3)]]] show ?thesis
      by (simp add: decide(1,4))
  next
    case (decide_later ss env r ms follow_up d nodeId revising decision)
    then show ?thesis using reconciled(2) [OF _ s] by simp
  next
    case (report env c ids)
    then show ?thesis using shape_report [of env c ids "s_stored s"] s by (auto intro: by_saves_saved)
  next
    case (restart ss env saves' started)
    then show ?thesis using shape_resume [OF restart(2) s] by (auto intro: by_saves_saved)
  qed simp
qed

lemma sys_step_inv:
  assumes "sys_step w s s'" and "sys_inv w x s" and "jm_wf (w_nodes w)"
  shows "sys_inv w x s'"
proof -
  let ?K = "jm_keys (w_nodes w)"
  have K: "distinct ?K" using assms(3) by (simp add: jm_wf_def)
  have s: "shape ?K x (s_stored s)" using assms(2) by (simp add: sys_inv_def)
  note sv = sys_step_saves [OF assms(1,2)]
  have s': "shape ?K x (s_stored s')" using by_saves_shape [OF sv s] .
  have old: "phase_shape ?K x ph \<and> layer_ok w (s_stored s') ph" if "ph \<in> set (s_threads s)" for ph
    using that assms(2) layer_ok_mono [OF _ sv s K] by (auto simp: sys_inv_def)
  have threads: "phase_shape ?K x ph \<and> layer_ok w (s_stored s') ph" if "ph \<in> set (s_threads s')" for ph
    using assms(1)
  proof (cases rule: sys_step.cases)
    case (sched k stored' ph')
    have p: "phase_shape ?K x (s_threads s ! k)" "layer_ok w (s_stored s) (s_threads s ! k)"
      using sched(2) assms(2) nth_mem by (auto simp: sys_inv_def)
    have "phase_shape ?K x ph' \<and> layer_ok w stored' ph'"
      using sched_step_good [OF sched(3) s p(1)] sched_step_layer [OF sched(3) assms(3) s p(1) K p(2)] by (simp add: good_def)
    then show ?thesis using that old set_update_subset_insert [of "s_threads s" k ph'] by (auto simp: sched(1))
  next
    case (caught k message ss env)
    then show ?thesis using that old set_update_subset_insert [of "s_threads s" k Returned] by auto
  qed (use that old in \<open>auto split: if_splits\<close>)
  have pending: "shape ?K x r" if "r \<in> set (s_pending s')" for r
    using assms(1)
  proof (cases rule: sys_step.cases)
    case (cancel_read ss env r' ms uuid now message)
    then show ?thesis using that assms(2) reconciled(1) [OF cancel_read(2) s] shape_cancel by (auto simp: sys_inv_def)
  next
    case (save_pending r')
    then show ?thesis using that assms(2) set_remove1_subset by (fastforce simp: sys_inv_def)
  next
    case (decide_later ss env r' ms follow_up d nodeId revising decision)
    then show ?thesis
      using that assms(2) shape_decided [OF reconciled(1) [OF decide_later(2) s] decide_later(3)] by (auto simp: sys_inv_def)
  qed (use that assms(2) in \<open>auto simp: sys_inv_def\<close>)
  from s' threads pending show ?thesis by (simp add: sys_inv_def)
qed

lemma initial_shape: "shape (jm_keys nodes) ident (initial_run nodes metadata events ident dir inputs now)"
  by (simp add: shape_def initial_run_def initial_state_def jm_keys_def comp_def)

lemma run_reachable_inv:
  assumes "reachable w s" and "jm_wf (w_nodes w)"
  shows "\<exists>x. sys_inv w x s"
  using assms(1)
proof induction
  case (init metadata events ident dir inputs now)
  have "sys_inv w ident (initial_sys (w_nodes w) metadata events ident dir inputs now)"
    by (simp add: sys_inv_def initial_sys_def initial_shape)
  then show ?case by blast
next
  case (step s s')
  then show ?case using sys_step_inv [OF _ _ assms(2)] by blast
qed

end
