(* ===== verification/Workflow_Status.thy ===== *)
theory Workflow_Status
  imports Workflow_System
begin

text \<open>
  The statuses that the operations of a scheduler leave behind. While one scheduler is alone with a run, its copy and
  the stored run agree on every status: an operation changes a status only of a node that has not ended, and saves.
\<close>

section \<open>Saves that respect what has ended\<close>

type_synonym statuses = "string \<Rightarrow> node_status option"

definition agree :: "statuses \<Rightarrow> statuses \<Rightarrow> bool" where
  "agree f g \<longleftrightarrow> (\<forall>i s. f i = Some s \<and> isTerminalNodeStatus s \<longrightarrow> g i = Some s)"

lemma agree_refl [simp]: "agree f f"
  by (simp add: agree_def)

lemma agree_trans: "agree f g \<Longrightarrow> agree g h \<Longrightarrow> agree f h"
  by (simp add: agree_def)

lemma agree_upd: "\<not> (\<exists>s. f i = Some s \<and> isTerminalNodeStatus s) \<Longrightarrow> agree f (f(i := v))"
  by (auto simp: agree_def)

lemma merged_status:
  assumes "shape K x s" and "shape K x e" and "distinct K" and "agree (status_of e) (status_of s)"
  shows "status_of (mergeExistingRun s e) = status_of s"
proof
  fix i
  show "status_of (mergeExistingRun s e) i = status_of s i"
  proof (cases "jm_get (r_nodes e) i")
    case None
    then show ?thesis using shape_get [OF assms(1,2), of i] shape_wf [OF assms(2,3)]
      by (simp add: status_of_def mergeExistingRun_fields merged_node)
  next
    case (Some en)
    then obtain sn where sn: "jm_get (r_nodes s) i = Some sn" using shape_get [OF assms(1,2), of i] by auto
    have "isTerminalNodeStatus (ns_status en) \<longrightarrow> ns_status sn = ns_status en"
      using assms(4) [unfolded agree_def, rule_format, of i "ns_status en"] Some sn by (auto simp: status_of_def)
    then show ?thesis
      using Some sn shape_wf [OF assms(2,3)]
      by (auto simp: status_of_def mergeExistingRun_fields merged_node shouldPreserveExistingNode_def)
  qed
qed

lemma merged_run_status: "\<not> isTerminalRunStatus (r_status e) \<Longrightarrow> r_status (mergeExistingRun s e) = r_status s"
  by (simp add: mergeExistingRun_fields keepExistingRun_def)

text \<open>A sequence of saves that ends with \<open>r'\<close>, each respecting the one before.\<close>

fun chain :: "string list \<Rightarrow> string \<Rightarrow> statuses \<Rightarrow> saves \<Rightarrow> run \<Rightarrow> bool" where
  "chain K x f [] r' \<longleftrightarrow> False"
| "chain K x f [s] r' \<longleftrightarrow> s = r' \<and> shape K x s \<and> agree f (status_of s)"
| "chain K x f (s # t # ss) r' \<longleftrightarrow>
     shape K x s \<and> agree f (status_of s) \<and> \<not> isTerminalRunStatus (r_status s) \<and> chain K x (status_of s) (t # ss) r'"

lemma chain_saved:
  assumes "chain K x (status_of stored) ss r'" and "shape K x stored" and "distinct K" and "\<not> isTerminalRunStatus (r_status stored)"
  shows "status_of (saved ss stored) = status_of r' \<and> r_status (saved ss stored) = r_status r'"
  using assms
proof (induction ss arbitrary: stored)
  case (Cons s ss)
  have s: "shape K x s" "agree (status_of stored) (status_of s)" using Cons.prems(1) by (cases ss; simp)+
  let ?m = "mergeExistingRun s stored"
  have m: "status_of ?m = status_of s" "r_status ?m = r_status s" "shape K x ?m"
    using merged_status [OF s(1) Cons.prems(2,3) s(2)] merged_run_status [OF Cons.prems(4)] shape_merge [OF s(1) Cons.prems(2)] by auto
  show ?case
  proof (cases ss)
    case Nil
    then show ?thesis using Cons.prems(1) m by simp
  next
    case (Cons t us)
    then show ?thesis using Cons.IH [of ?m] Cons.prems m by simp
  qed
qed simp

section \<open>Statuses after an operation\<close>

text \<open>The status of an existing node is set.\<close>

definition put :: "string \<Rightarrow> node_status \<Rightarrow> statuses \<Rightarrow> statuses" where
  "put i s f = f(i := map_option (\<lambda>_. s) (f i))"

lemma put_apply: "put i s f j = (if j = i then map_option (\<lambda>_. s) (f i) else f j)"
  by (simp add: put_def)

lemma status_put:
  assumes "\<And>st. ns_status (f st) = s"
  shows "status_of (upd_node i f r) = put i s (status_of r)"
  using assms by (auto simp: fun_eq_iff put_def status_of_def option.map_comp comp_def)

lemma status_same:
  assumes "\<And>st. ns_status (f st) = ns_status st"
  shows "status_of (upd_node i f r) = status_of r"
  using assms by (auto simp: fun_eq_iff status_of_def option.map_comp comp_def)

lemma status_begin [simp]: "status_of (begin_node env i n r) = put i Running (status_of r)"
  by (simp add: begin_node_def Let_def status_put)

lemma status_complete [simp]: "status_of (complete_node env i r) = put i Completed (status_of r)"
  by (simp add: complete_node_def status_put)

lemma status_fail [simp]: "status_of (fail_node env i n k m r) = put i Failed (status_of r)"
  by (simp add: fail_node_def Let_def status_put status_same)

lemma status_skip: "status_of (markSkipped env (i, reason) r) = put i Skipped (status_of r)"
  by (auto simp: markSkipped_def status_put put_def status_of_def fun_eq_iff split: option.splits)

lemma run_status_simps [simp]:
  "r_status (begin_node env i n r) = r_status r" "r_status (complete_node env i r) = r_status r"
  "r_status (fail_node env i n k m r) = r_status r" "r_status (markSkipped env e r) = r_status r"
  by (auto simp: begin_node_def complete_node_def fail_node_def markSkipped_def Let_def split: option.splits prod.splits)

lemma status_block:
  assumes "blockForApproval env i prompt options r = Inr (r', ss)" and "status_of r i = Some s"
  shows "status_of r' = put i Blocked (status_of r) \<and> r_status r' = RBlocked \<and> ss = [r']"
proof -
  obtain st where "jm_get (r_nodes r) i = Some st" using assms(2) by (auto simp: status_of_def)
  then show ?thesis
    using assms(1)
    by (auto simp: blockForApproval_def Let_def request_approval_def status_put split: sum.splits)
qed

lemma status_record_artifacts:
  "status_of (fold (record_missing env i) ms (fold (record_artifact env i) as r)) = status_of r \<and>
   r_status (fold (record_missing env i) ms (fold (record_artifact env i) as r)) = r_status r"
proof -
  have a: "status_of (fold (record_artifact env i) as r) = status_of r \<and> r_status (fold (record_artifact env i) as r) = r_status r" for r
    by (induction as arbitrary: r) (simp_all add: record_artifact_def Let_def)
  have "status_of (fold (record_missing env i) ms r) = status_of r \<and> r_status (fold (record_missing env i) ms r) = r_status r" for r
    by (induction ms arbitrary: r) (simp_all add: record_missing_def Let_def split: prod.splits)
  with a show ?thesis by simp
qed

lemma status_artifacts:
  assumes "collectAndRecordArtifacts env i n found r = Inr (r', ss)"
  shows "status_of r' = status_of r \<and> r_status r' = r_status r \<and> (ss = [] \<or> ss = [r'])"
  using assms status_record_artifacts [of env i _ _ r]
  by (auto simp: collectAndRecordArtifacts_def Let_def split: if_splits sum.splits prod.splits)

section \<open>The executors\<close>

text \<open>What an attempt of node \<open>i\<close> does to the statuses: nothing, but that it may block the node itself and, for a
  condition, skip queued nodes.\<close>

definition skips :: "statuses \<Rightarrow> statuses \<Rightarrow> bool" where
  "skips f g \<longleftrightarrow> (\<forall>j. g j = f j \<or> f j = Some Queued \<and> g j = Some Skipped)"

lemma skips_refl [simp]: "skips f f"
  by (simp add: skips_def)

lemma skips_trans: "skips f g \<Longrightarrow> skips g h \<Longrightarrow> skips f h"
  unfolding skips_def by (metis node_status.distinct option.inject)

lemma skips_agree: "skips f g \<Longrightarrow> agree f g"
  by (auto simp: skips_def agree_def) (metis option.inject terminal_simps(5))

definition att_effect :: "string \<Rightarrow> run \<Rightarrow> attempt \<Rightarrow> bool" where
  "att_effect i r att \<longleftrightarrow>
     (case att of (r', ss, out) \<Rightarrow>
        if out = Waiting
        then status_of r' = put i Blocked (status_of r) \<and> r_status r' = RBlocked \<and> ss \<noteq> [] \<and> last ss = r' \<and>
             (\<forall>s \<in> set ss. status_of s = status_of r' \<and> r_status s = RBlocked)
        else skips (status_of r) (status_of r') \<and> r_status r' = r_status r \<and> ss = [])"

lemma effect_failed [simp]: "att_effect i r (failed_attempt r' m) \<longleftrightarrow> skips (status_of r) (status_of r') \<and> r_status r' = r_status r"
  by (simp add: att_effect_def failed_attempt_def)

lemma effect_blocked:
  assumes "status_of r i = Some s" and "status_of r1 = status_of r" and "r_status r1 = r_status r"
  shows "att_effect i r (blocked_attempt r1 (blockForApproval env i prompt options r1))"
proof (cases "blockForApproval env i prompt options r1")
  case (Inl e)
  then show ?thesis using assms(2,3) by (simp add: blocked_attempt_def)
next
  case (Inr p)
  obtain r' ss where p: "p = (r', ss)" by fastforce
  have "status_of r1 i = Some s" using assms(1,2) by simp
  from status_block [OF Inr [unfolded p] this] show ?thesis
    using assms(2) by (simp add: Inr p blocked_attempt_def att_effect_def)
qed

lemma effect_gate:
  assumes "status_of r i = Some s"
  shows "att_effect i r (executeGateNode jsonata pd env i g r)"
proof -
  have out: "status_of (setGateOutput i t r) = status_of r" "r_status (setGateOutput i t r) = r_status r" for t
    by (simp_all add: setGateOutput_def status_same)
  have check: "att_effect i r (executeCheckGate jsonata env i t e g r)" for t e
    by (auto simp: executeCheckGate_def att_effect_def failed_attempt_def out split: sum.splits)
  have schedule: "att_effect i r (executeScheduleGate jsonata pd env i u g r)" for u
    by (auto simp: executeScheduleGate_def att_effect_def failed_attempt_def out Let_def status_put
        split: sum.splits option.splits prod.splits)
  show ?thesis
  proof (cases g)
    case (Human_review prompt)
    then show ?thesis
      by (auto simp: executeGateNode_def att_effect_def failed_attempt_def Let_def split: sum.splits prod.splits
          dest!: status_block [OF _ assms])
  qed (use check schedule in \<open>simp_all add: executeGateNode_def\<close>)
qed

lemma effect_condition: "att_effect i r (executeCondition jsonata env i e ts es r)"
proof -
  have one: "skips (status_of r) (status_of (skipBranchNode env i b e j r)) \<and> r_status (skipBranchNode env i b e j r) = r_status r" for b j r
    by (auto simp: skipBranchNode_def skips_def status_of_def split: option.splits)
  have all: "skips (status_of r) (status_of (fold (skipBranchNode env i b e) js r)) \<and>
      r_status (fold (skipBranchNode env i b e) js r) = r_status r" for b js r
  proof (induction js arbitrary: r)
    case (Cons j js)
    from Cons.IH [of "skipBranchNode env i b e j r"] one [of r b j] skips_trans show ?case by auto
  qed simp
  have "skips (status_of r) (status_of (fold (skipBranchNode env i b e) js (upd_node i f r))) \<and>
      r_status (fold (skipBranchNode env i b e) js (upd_node i f r)) = r_status r"
    if "\<And>st. ns_status (f st) = ns_status st" for b js f
    using all [of "upd_node i f r" b js] status_same [of f i r] that by simp
  then show ?thesis
    by (auto simp: executeCondition_def att_effect_def failed_attempt_def Let_def split: sum.splits prod.splits)
qed

lemma effect_plan:
  assumes "status_of r i = Some s"
  shows "att_effect i r (executePlan jsonata env po i n b sm so ref w r)"
proof -
  define q where "q = fold (backfillPromptDependencyOutput po) (needs n) r"
  have q: "status_of q = status_of r" "r_status q = r_status r"
  proof -
    have "status_of (fold (backfillPromptDependencyOutput po) ds r) = status_of r \<and>
        r_status (fold (backfillPromptDependencyOutput po) ds r) = r_status r" for ds r
      by (induction ds arbitrary: r) (simp_all add: backfillPromptDependencyOutput_def status_same)
    then show "status_of q = status_of r" "r_status q = r_status r" by (simp_all add: q_def)
  qed
  show ?thesis
    unfolding executePlan_def Let_def q_def [symmetric]
    by (auto simp: q status_same att_effect_def [of _ _ "(_, [], _)"] intro!: effect_blocked [OF assms] split: sum.splits prod.splits)
qed

lemma effect_action:
  assumes "status_of r i = Some s"
  shows "att_effect i r (executeAction env ad i a b key req r)"
proof -
  have rec: "status_of (upd_node i (record_action out md) r) = status_of r" for out md
    by (simp add: record_action_def status_same)
  show ?thesis
    by (auto simp: executeAction_def Let_def rec att_effect_def [of _ _ "(_, [], _)"] intro!: effect_blocked [OF assms]
        split: adapter_result.splits option.splits prod.splits)
qed

lemma executes_effect:
  assumes "executes w ss env i n r att" and "status_of r i = Some s"
  shows "att_effect i r att"
  using assms
proof (induction rule: executes.induct)
  case (approval n prompt rej capt options i r)
  then show ?case by (auto simp: executeApproval_def intro!: effect_blocked split: sum.splits)
next
  case (artifact n name origin path descr i r)
  then show ?case by (simp add: executeArtifact_def att_effect_def Let_def status_same)
next
  case (publish n repo cwd branch msg cred paths rules r r' i prompt options)
  then show ?case by (auto simp: works_def intro!: effect_blocked)
next
  case (external n r r' out i)
  then show ?case by (simp add: att_effect_def works_def)
qed (simp_all add: effect_gate effect_condition effect_plan effect_action)

section \<open>The end of an attempt\<close>

text \<open>The status of a node goes with the state of its task.\<close>

definition matches :: "task \<Rightarrow> node_status option \<Rightarrow> bool" where
  "matches t s \<longleftrightarrow>
     (case t of
        Attempting _ \<Rightarrow> s = Some Running | Noop \<Rightarrow> False | Fulfilled_completed \<Rightarrow> s = Some Completed
      | Fulfilled_blocked \<Rightarrow> s = Some Blocked | Rejected _ \<Rightarrow> s = Some Failed)"

lemma chain_last:
  assumes "\<forall>s \<in> set pre. shape K x s \<and> status_of s = g \<and> \<not> isTerminalRunStatus (r_status s)"
    and "agree f g" and "agree g (status_of r')" and "shape K x r'"
  shows "chain K x f (pre @ [r']) r'"
  using assms
proof (induction pre arbitrary: f)
  case Nil
  then show ?case using agree_trans by auto
next
  case (Cons s pre)
  have "chain K x g (pre @ [r']) r'" using Cons by simp
  then show ?case using Cons.prems by (cases pre) auto
qed

lemma chain_one: "shape K x r' \<Longrightarrow> agree f (status_of r') \<Longrightarrow> chain K x f [r'] r'"
  by simp

text \<open>What the end of an attempt of node \<open>i\<close> does, from a copy with the statuses \<open>f\<close>.\<close>

definition end_effect :: "string \<Rightarrow> node \<Rightarrow> nat \<Rightarrow> statuses \<Rightarrow> run_status \<Rightarrow> run \<times> saves \<times> task \<Rightarrow> bool" where
  "end_effect i n k f rs e \<longleftrightarrow>
     (case e of (r', ss, t) \<Rightarrow>
        matches t (status_of r' i) \<and> (\<forall>j. j \<noteq> i \<longrightarrow> status_of r' j = f j \<or> f j = Some Queued \<and> status_of r' j = Some Skipped) \<and>
        r_status r' = (if t = Fulfilled_blocked then RBlocked else rs) \<and>
        (\<forall>k'. t = Attempting k' \<longrightarrow> k' = k + 1 \<and> k < max_attempts n))"

lemma agree_put: "f i = Some Running \<or> f i = Some Queued \<Longrightarrow> agree f (put i s f)"
  by (auto simp: put_def intro!: agree_upd)

lemma failed_effect:
  assumes "attempt_failed env i n k m sh r1 = (r', ss, t)" and "skips f (status_of r1)" and "f i = Some Running"
    and "shape K x r1" and "r_status r1 = rs"
  shows "chain K x f ss r' \<and> end_effect i n k f rs (r', ss, t)"
proof -
  have r1: "status_of r1 i = Some Running" using assms(2,3) by (auto simp: skips_def) (metis node_status.distinct(1) option.inject)
  have note_err: "status_of (upd_node i (note_shell_error sh) r1) = status_of r1"
    by (intro status_same) (simp add: note_shell_error_def split: option.splits)
  have "agree f (put i Failed (status_of r1))"
    using agree_trans [OF skips_agree [OF assms(2)] agree_put [of "status_of r1" i Failed]] r1 by simp
  then show ?thesis
    using assms r1 skips_agree [OF assms(2)]
    by (auto simp: attempt_failed_def Let_def note_err end_effect_def matches_def put_apply skips_def split: if_splits)
qed

lemma end_attempt_effect:
  assumes "executes w sn env i n r att" and "end_attempt env i n k found att = (r', ss, t)" and "status_of r i = Some Running"
    and "shape K x r" and "\<not> isTerminalRunStatus (r_status r)"
  shows "chain K x (status_of r) ss r' \<and> end_effect i n k (status_of r) (r_status r) (r', ss, t)"
proof -
  obtain q ss0 out where att: "att = (q, ss0, out)" by (metis prod_cases3)
  have eff: "att_effect i r att" using executes_effect [OF assms(1,3)] .
  have sh: "shape K x q" "\<forall>s \<in> set ss0. shape K x s"
    using executes_shape [OF assms(1,4)] by (auto simp: att_shape_def att)
  show ?thesis
  proof (cases "out = Waiting")
    case True
    then have e: "status_of q = put i Blocked (status_of r)" "r_status q = RBlocked" "ss0 \<noteq> []" "last ss0 = q"
        "\<forall>s \<in> set ss0. status_of s = status_of q \<and> r_status s = RBlocked" using eff by (auto simp: att att_effect_def)
    have res: "r' = q" "ss = ss0" "t = Fulfilled_blocked" using assms(2) by (auto simp: end_attempt_def att True)
    have "chain K x (status_of r) (butlast ss0 @ [q]) q"
      using e(5) sh agree_put [of "status_of r" i Blocked] assms(3)
      by (intro chain_last [where g = "status_of q"]) (auto simp: e(1) dest: in_set_butlastD)
    moreover have "butlast ss0 @ [q] = ss0" using append_butlast_last_id [OF e(3)] unfolding e(4) .
    ultimately have "chain K x (status_of r) ss r'" by (simp only: res)
    then show ?thesis using assms(3) by (simp add: end_effect_def res matches_def e(1,2) put_apply)
  next
    case False
    then have e: "skips (status_of r) (status_of q)" "r_status q = r_status r" "ss0 = []" using eff by (auto simp: att att_effect_def)
    note failed = failed_effect [OF _ e(1) assms(3) sh(1) e(2), of env n k]
    show ?thesis
    proof (cases out)
      case (Done cwd)
      show ?thesis
      proof (cases "collectAndRecordArtifacts env i n found q")
        case (Inl m)
        then show ?thesis using assms(2) failed by (auto simp: end_attempt_def att Done e(3) split: prod.splits)
      next
        case (Inr p)
        obtain r1 ss1 where p: "p = (r1, ss1)" by fastforce
        have st: "status_of r1 = status_of q" "r_status r1 = r_status q" "ss1 = [] \<or> ss1 = [r1]"
          using status_artifacts [OF Inr [unfolded p]] by auto
        have r1: "shape K x r1" using shape_artifacts [OF Inr [unfolded p] sh(1)] by simp
        have res: "r' = complete_node env i r1" "ss = ss1 @ [r']" "t = Fulfilled_completed"
          using assms(2) by (auto simp: end_attempt_def att Done Inr p e(3) Let_def)
        have i: "status_of q i = Some Running"
          using e(1) assms(3) by (auto simp: skips_def) (metis node_status.distinct(1) option.inject)
        have "chain K x (status_of r) (ss1 @ [r']) r'"
          using st e(2) r1 assms(5) skips_agree [OF e(1)] agree_put [of "status_of q" i Completed] i
          by (intro chain_last [where g = "status_of q"]) (auto simp: res(1))
        then show ?thesis
          using st e i by (auto simp: end_effect_def res matches_def put_apply skips_def)
      qed
    next
      case (Error m shl)
      then show ?thesis using assms(2) failed by (auto simp: end_attempt_def att e(3) split: prod.splits)
    qed (use False in simp)
  qed
qed

section \<open>The start of a layer\<close>

lemma start_task_effect:
  assumes "start_task nodes env i r = (r', ss, t)" and "jm_get nodes i = Some n" and "status_of r i = Some Queued"
    and "shape K x r" and "\<not> isTerminalRunStatus (r_status r)"
  shows "chain K x (status_of r) ss r' \<and> matches t (status_of r' i) \<and> (\<forall>j. j \<noteq> i \<longrightarrow> status_of r' j = status_of r j) \<and>
    r_status r' = r_status r \<and> (\<forall>k'. t = Attempting k' \<longrightarrow> k' = 1 \<and> 1 \<le> max_attempts n) \<and> t \<noteq> Fulfilled_blocked"
proof -
  obtain st where st: "jm_get (r_nodes r) i = Some st" "ns_status st = Queued" using assms(3) by (auto simp: status_of_def)
  have "agree (put i Running (status_of r)) (put i Failed (put i Running (status_of r)))"
    using assms(3) by (intro agree_put) (simp add: put_apply)
  then show ?thesis
    using assms st agree_put [of "status_of r" i Running]
    by (auto simp: start_task_def Let_def matches_def put_apply split: if_splits)
qed

lemma chain_append:
  assumes "chain K x f ss r1" and "chain K x (status_of r1) ts r2" and "\<not> isTerminalRunStatus (r_status r1)"
  shows "chain K x f (ss @ ts) r2"
  using assms
proof (induction ss arbitrary: f)
  case (Cons s ss)
  obtain u us where ts: "ts = u # us" using Cons.prems(2) by (cases ts) auto
  show ?case using Cons by (cases ss) (auto simp: ts)
qed simp

lemma start_tasks_effect:
  assumes "start_tasks nodes env ids r = (r', ss, ts)" and "distinct ids" and "ids \<noteq> []"
    and "\<forall>i \<in> set ids. jm_get nodes i \<noteq> None \<and> status_of r i = Some Queued"
    and "shape K x r" and "\<not> isTerminalRunStatus (r_status r)"
  shows "chain K x (status_of r) ss r' \<and> r_status r' = r_status r \<and>
    (\<forall>(i, t) \<in> set ts. matches t (status_of r' i) \<and> t \<noteq> Fulfilled_blocked \<and>
       (\<forall>k' n. t = Attempting k' \<and> jm_get nodes i = Some n \<longrightarrow> k' = 1 \<and> 1 \<le> max_attempts n)) \<and>
    (\<forall>j. j \<notin> set ids \<longrightarrow> status_of r' j = status_of r j)"
  using assms
proof (induction ids arbitrary: r r' ss ts)
  case (Cons i ids)
  obtain r1 ss1 t where one: "start_task nodes env i r = (r1, ss1, t)" by (metis prod_cases3)
  obtain r2 ss2 ts2 where rest: "start_tasks nodes env ids r1 = (r2, ss2, ts2)" by (metis prod_cases3)
  obtain n where n: "jm_get nodes i = Some n" using Cons.prems(4) by auto
  have q: "status_of r i = Some Queued" using Cons.prems(4) by simp
  note e = start_task_effect [OF one n q Cons.prems(5,6)]
  have sh: "shape K x r1" using shape_start_task [OF one Cons.prems(5)] by simp
  have res: "r' = r2" "ss = ss1 @ ss2" "ts = (i, t) # ts2" using Cons.prems(1) by (auto simp: one rest)
  show ?case
  proof (cases "ids = []")
    case True
    then show ?thesis using e n rest res by auto
  next
    case False
    have "\<forall>j \<in> set ids. jm_get nodes j \<noteq> None \<and> status_of r1 j = Some Queued" using Cons.prems(2,4) e by auto
    note ih = Cons.IH [OF rest _ False this sh]
    have "chain K x (status_of r) ss r'" using chain_append [of K x "status_of r" ss1 r1 ss2 r2] e ih Cons.prems(2,6) by (auto simp: res)
    moreover have "status_of r' i = status_of r1 i" using ih Cons.prems(2,6) e by (auto simp: res)
    ultimately show ?thesis using e ih n Cons.prems(2,6) by (auto simp: res)
  qed
qed simp

end
