(* ===== verification/Workflow_Termination.thy ===== *)
theory Workflow_Termination
  imports Workflow_Status
begin

text \<open>
  A scheduler that is alone with a validated workflow. Its rounds are bounded by the number of nodes, so that the bound
  of the loop is never reached; the branch for queued nodes with unmet dependencies is never taken; and when the loop
  returns the run has completed, has failed at a node whose policy is to halt, or waits at a blocked node.
\<close>

section \<open>The invariant of a scheduler that is alone\<close>

definition queued :: "run \<Rightarrow> string set" where
  "queued r = {i. status_of r i = Some Queued}"

definition resting :: "run \<Rightarrow> string \<Rightarrow> bool" where
  "resting r i \<longleftrightarrow> status_of r i \<noteq> Some Running \<and> status_of r i \<noteq> Some Blocked"

definition blocked_anywhere :: "run \<Rightarrow> bool" where
  "blocked_anywhere r \<longleftrightarrow> (\<exists>i. status_of r i = Some Blocked)"

text \<open>How a run may stand when its scheduler has returned.\<close>

definition outcome_ok :: "workflow \<Rightarrow> run \<Rightarrow> bool" where
  "outcome_ok w r \<longleftrightarrow>
     (r_status r = RCompleted \<and> (\<forall>i \<in> set (jm_keys (w_nodes w)). terminal_at r i)) \<or>
     (r_status r = RFailed \<and> (\<exists>i. status_of r i = Some Failed \<and> halts w i)) \<or>
     (r_status r = RBlocked \<and> blocked_anywhere r)"

definition attempts_ok :: "workflow \<Rightarrow> (string, task) js_map \<Rightarrow> bool" where
  "attempts_ok w tasks \<longleftrightarrow>
     (\<forall>(i, t) \<in> set tasks. \<exists>n. jm_get (w_nodes w) i = Some n \<and>
        (case t of Attempting k \<Rightarrow> 1 \<le> k \<and> k \<le> max_attempts n | _ \<Rightarrow> True))"

definition alone_layer :: "workflow \<Rightarrow> string \<Rightarrow> run \<Rightarrow> run \<Rightarrow> string list \<Rightarrow> (string, task) js_map \<Rightarrow> bool" where
  "alone_layer w x stored fresh ids tasks \<longleftrightarrow>
     shape (jm_keys (w_nodes w)) x fresh \<and> status_of fresh = status_of stored \<and> r_status fresh = r_status stored \<and>
     map fst tasks = ids \<and> distinct ids \<and> attempts_ok w tasks \<and>
     (\<forall>(i, t) \<in> set tasks. matches t (status_of stored i)) \<and> (\<forall>j. j \<notin> set ids \<longrightarrow> resting stored j) \<and>
     r_status stored = (if blocked_anywhere stored then RBlocked else RRunning)"

fun alone_inv :: "workflow \<Rightarrow> string \<Rightarrow> run \<times> phase \<Rightarrow> bool" where
  "alone_inv w x (stored, Starting b) \<longleftrightarrow> False"
| "alone_inv w x (stored, Loop n) \<longleftrightarrow>
     shape (jm_keys (w_nodes w)) x stored \<and> r_status stored = RRunning \<and> (\<forall>i. resting stored i) \<and>
     n + card (queued stored) \<le> length (w_nodes w)"
| "alone_inv w x (stored, Layer n fresh ids tasks) \<longleftrightarrow>
     shape (jm_keys (w_nodes w)) x stored \<and> alone_layer w x stored fresh ids tasks \<and>
     n + card (queued stored) \<le> length (w_nodes w)"
| "alone_inv w x (stored, Returned) \<longleftrightarrow> outcome_ok w stored"
| "alone_inv w x (stored, Thrown e) \<longleftrightarrow> e \<noteq> ''Workflow runner aborted: scheduling loop exceeded safety bound''"

section \<open>Helpers\<close>

lemma matches_not:
  "matches t s \<Longrightarrow> s \<noteq> Some Queued" "matches t s \<Longrightarrow> t \<noteq> Fulfilled_blocked \<Longrightarrow> s \<noteq> Some Blocked"
  "matches t s \<Longrightarrow> settled t \<Longrightarrow> s \<noteq> Some Running"
  by (cases t; auto simp: matches_def settled_def)+

lemma queued_finite: "shape K x r \<Longrightarrow> finite (queued r) \<and> queued r \<subseteq> set K"
proof -
  assume "shape K x r"
  then have "queued r \<subseteq> set K" by (auto simp: queued_def status_of_def shape_def set_jm_keys)
  then show ?thesis using finite_subset by blast
qed

lemma keys_status: "shape K x r \<Longrightarrow> i \<in> set K \<longleftrightarrow> status_of r i \<noteq> None"
  by (auto simp: status_of_def shape_def set_jm_keys)

text \<open>The reconciler leaves the statuses of an active run alone.\<close>

lemma reconcile_active:
  assumes "reconcile ss env True r = (r', ms)" and "shape K x r" and "distinct K" and "\<not> isTerminalRunStatus (r_status r)"
  shows "status_of r' = status_of r \<and> r_status r' = r_status r \<and> status_of (saved ms r) = status_of r \<and>
    r_status (saved ms r) = r_status r"
proof -
  have s: "status_of r' = status_of r \<and> r_status r' = r_status r"
    using assms(1) backfillPromptOutputs_status [of ss env r] by (auto simp: reconcile_def split: if_splits)
  have "chain K x (status_of r) [r'] r'" using reconciled(1) [OF assms(1,2)] s by simp
  from chain_saved [OF this assms(2-4)] s reconcile_cases [OF assms(1)] show ?thesis by auto
qed

lemma reconcile_running: "r_status r = RRunning \<Longrightarrow> reconcile ss env True r = (r, [])"
  by (simp add: reconcile_def)

lemma unfinished_Nil: "unfinished r = [] \<longleftrightarrow> (\<forall>(i, st) \<in> set (r_nodes r). isTerminalNodeStatus (ns_status st))"
  by (auto simp: unfinished_def filter_empty_conv)

lemma entry_status: "jm_wf (r_nodes r) \<Longrightarrow> (i, st) \<in> set (r_nodes r) \<Longrightarrow> status_of r i = Some (ns_status st)"
  using jm_get_wf [of "r_nodes r" i st] by (simp add: status_of_def)

text \<open>A valid workflow with a queued node and no node at work has a ready node.\<close>

lemma queued_has_ready:
  assumes "validateWorkflowGraph (w_nodes w) = None" and "jm_wf (w_nodes w)" and "shape (jm_keys (w_nodes w)) x r"
    and "\<forall>i. resting r i" and "queued r \<noteq> {}"
  shows "findReadyNodeIds r (w_nodes w) \<noteq> []"
proof -
  obtain i where i: "i \<in> queued r" "set (needs_of (w_nodes w) i) \<inter> queued r = {}"
    using acyclic_has_ready [OF valid_acyclic [OF assms(1,2)] _ assms(5)] queued_finite [OF assms(3)] by blast
  obtain st where st: "jm_get (r_nodes r) i = Some st" "ns_status st = Queued" using i(1) by (auto simp: queued_def status_of_def)
  have "i \<in> set (jm_keys (w_nodes w))" using queued_finite [OF assms(3)] i(1) by blast
  then obtain n where n: "jm_get (w_nodes w) i = Some n" by (auto simp: set_jm_keys)
  have "isTerminalNodeStatus (ns_status p)" if "d \<in> set (needs n)" "jm_get (r_nodes r) d = Some p" for d p
  proof -
    have "d \<notin> queued r" using i(2) that(1) by (auto simp: needs_of_def n)
    then show ?thesis
      using that(2) assms(4) by (auto simp: queued_def resting_def status_of_def isTerminalNodeStatus_def) (metis node_status.exhaust)
  qed
  then have "needs_terminal r n" by (auto simp: needs_terminal_def split: option.splits)
  then have "is_ready r (i, n)" using st by (simp add: is_ready_def)
  then show ?thesis using jm_get_mem [OF n] by (auto simp: findReadyNodeIds_def filter_empty_conv)
qed

lemma classify_split:
  assumes "classifyLayer w r is = Inr (toExecute, skipped)" and "\<forall>i \<in> set is. jm_get (w_nodes w) i \<noteq> None" and "distinct is"
  shows "set is = set toExecute \<union> fst ` set skipped \<and> distinct toExecute \<and> set toExecute \<inter> fst ` set skipped = {}"
  using assms
proof (induction "is" arbitrary: toExecute skipped)
  case (Cons j "is")
  obtain n where n: "jm_get (w_nodes w) j = Some n" using Cons.prems(2) by auto
  obtain guard where g: "evaluateNodeGuards w r j n = Inr guard"
    using Cons.prems(1) n by (cases "evaluateNodeGuards w r j n") auto
  obtain te sk where rest: "classifyLayer w r is = Inr (te, sk)"
    using Cons.prems(1) n g by (cases "classifyLayer w r is") auto
  have "set is = set te \<union> fst ` set sk \<and> distinct te \<and> set te \<inter> fst ` set sk = {}" using Cons.IH [OF rest] Cons.prems by auto
  then show ?case using Cons.prems(1,3) n g rest by (cases "truthy guard") (auto, (force simp: image_iff)+)
qed simp

lemma skipped_statuses:
  "status_of (fold (markSkipped env) skipped r) i =
     (if i \<in> fst ` set skipped then map_option (\<lambda>_. Skipped) (status_of r i) else status_of r i) \<and>
   r_status (fold (markSkipped env) skipped r) = r_status r"
proof (induction skipped arbitrary: r)
  case (Cons e sk)
  obtain j reason where e: "e = (j, reason)" by fastforce
  from Cons [of "markSkipped env e r"] show ?case by (auto simp: e status_skip put_apply option.map_comp comp_def)
qed simp

lemma ready_facts:
  assumes "jm_wf (w_nodes w)"
  shows "distinct (findReadyNodeIds r (w_nodes w)) \<and>
    (\<forall>i \<in> set (findReadyNodeIds r (w_nodes w)). jm_get (w_nodes w) i \<noteq> None \<and> status_of r i = Some Queued)"
proof -
  have "distinct (findReadyNodeIds r (w_nodes w))"
    using assms by (simp add: findReadyNodeIds_def jm_wf_def jm_keys_def distinct_map_filter)
  moreover have "jm_get (w_nodes w) i \<noteq> None \<and> status_of r i = Some Queued" if i: "i \<in> set (findReadyNodeIds r (w_nodes w))" for i
  proof -
    obtain n st where "(i, n) \<in> set (w_nodes w)" "jm_get (r_nodes r) i = Some st" "ns_status st = Queued"
      using ready_mem [OF i] by blast
    then show ?thesis using jm_get_wf [OF assms] by (auto simp: status_of_def)
  qed
  ultimately show ?thesis by blast
qed

lemma guard_error:
  assumes "evaluateNodeGuards w r i n = Inl e"
  shows "startsWith e ''Invalid when expression on ''"
  using assms by (auto simp: evaluateNodeGuards_def Let_def startsWith_def split: if_splits sum.splits prod.splits)

lemma classify_error: "classifyLayer w r is = Inl e \<Longrightarrow> startsWith e ''Invalid when expression on ''"
proof (induction "is")
  case (Cons i "is")
  show ?case
  proof (cases "jm_get (w_nodes w) i")
    case (Some n)
    show ?thesis
    proof (cases "evaluateNodeGuards w r i n")
      case (Inl e')
      then show ?thesis using Cons.prems Some guard_error by auto
    next
      case (Inr g)
      then show ?thesis using Cons Some by (cases "classifyLayer w r is") auto
    qed
  qed (use Cons in simp)
qed simp

section \<open>A round\<close>

lemma queued_less:
  assumes "queued r' \<subseteq> queued r - S" and "S \<subseteq> queued r" and "S \<noteq> {}" and "shape K x r"
  shows "card (queued r') < card (queued r)"
  using assms queued_finite [OF assms(4)] by (intro psubset_card_mono) auto

lemma alone_launch:
  assumes wf: "jm_wf (w_nodes w)" and shape: "shape (jm_keys (w_nodes w)) x stored" and run: "r_status stored = RRunning"
    and rest: "\<forall>i. resting stored i" and bound: "n + card (queued stored) \<le> length (w_nodes w)"
    and ready: "ready = findReadyNodeIds stored (w_nodes w)" "ready \<noteq> []"
    and cl: "classifyLayer w stored ready = Inr (ids, skipped)"
  shows "alone_inv w x (launch_layer w env (n + 1) ids skipped stored stored)"
proof -
  let ?K = "jm_keys (w_nodes w)"
  define f1 where "f1 = fold (markSkipped env) skipped stored"
  define s1 where "s1 = (if skipped \<noteq> [] then saved [f1] stored else stored)"
  have K: "distinct ?K" using wf by (simp add: jm_wf_def)
  note rf = ready_facts [OF wf, of stored, folded ready(1)]
  have sp: "set ready = set ids \<union> fst ` set skipped" "distinct ids" "set ids \<inter> fst ` set skipped = {}"
    using classify_split [OF cl] rf by auto
  have f: "shape ?K x f1" unfolding f1_def by (intro shape_fold) (simp_all add: shape_markSkipped shape)
  have fs: "status_of f1 i = (if i \<in> fst ` set skipped then Some Skipped else status_of stored i)" for i
    using skipped_statuses [of env skipped stored i, folded f1_def] sp(1) rf by auto
  have ag: "agree (status_of stored) (status_of f1)" using sp(1) rf by (auto simp: agree_def fs)
  have s: "status_of s1 = status_of f1" "r_status s1 = RRunning" "shape ?K x s1"
    using chain_saved [of ?K x stored "[f1]" f1] f ag K shape run skipped_statuses [of env skipped stored, folded f1_def]
    by (auto simp: s1_def shape_merge)
  have less: "n + 1 + card (queued r) \<le> length (w_nodes w)" if "queued r \<subseteq> queued stored - set ready" for r
  proof -
    have "set ready \<subseteq> queued stored" using rf by (auto simp: queued_def)
    from queued_less [OF that this _ shape] show ?thesis using ready(2) bound by simp
  qed
  show ?thesis
  proof (cases "ids = []")
    case True
    have "queued s1 \<subseteq> queued stored - set ready" using sp(1) True by (auto simp: queued_def s(1) fs split: if_splits)
    moreover have "All (resting s1)" using rest by (auto simp: resting_def s(1) fs)
    ultimately show ?thesis using True s less by (simp add: launch_layer_def Let_def flip: f1_def s1_def)
  next
    case False
    obtain f2 ss2 ts where st: "start_tasks (w_nodes w) env ids f1 = (f2, ss2, ts)" by (metis prod_cases3)
    have q: "\<forall>i \<in> set ids. jm_get (w_nodes w) i \<noteq> None \<and> status_of f1 i = Some Queued"
      using rf sp(1,3) by (auto simp: fs)
    have fr: "r_status f1 = RRunning" using skipped_statuses [of env skipped stored, folded f1_def] run by simp
    then have e: "chain ?K x (status_of f1) ss2 f2" "r_status f2 = RRunning"
        "\<forall>(i, t) \<in> set ts. matches t (status_of f2 i) \<and> t \<noteq> Fulfilled_blocked \<and>
           (\<forall>k' n. t = Attempting k' \<and> jm_get (w_nodes w) i = Some n \<longrightarrow> k' = 1 \<and> 1 \<le> max_attempts n)"
        "\<forall>j. j \<notin> set ids \<longrightarrow> status_of f2 j = status_of f1 j"
      using start_tasks_effect [OF st sp(2) False q f] by auto
    let ?s2 = "saved ss2 s1"
    have sv: "status_of ?s2 = status_of f2" "r_status ?s2 = RRunning"
      using chain_saved [of ?K x s1 ss2 f2] e(1,2) s K by (auto simp: s(1))
    have keys: "map fst ts = ids" using start_tasks_keys [OF st] .
    have sh2: "shape ?K x f2" "shape ?K x ?s2" using shape_start_tasks [OF st f] shape_saved [OF s(3)] by auto
    have settled: "\<exists>t. matches t (status_of f2 i) \<and> t \<noteq> Fulfilled_blocked" if "i \<in> set ids" for i
    proof -
      obtain t where "(i, t) \<in> set ts" using \<open>i \<in> set ids\<close> unfolding keys [symmetric] by auto
      then show ?thesis using e(3) by auto
    qed
    have out: "resting ?s2 j" if "j \<notin> set ids" for j using that e(4) rest by (simp add: resting_def sv(1) fs)
    have "status_of ?s2 i \<noteq> Some Blocked" for i
    proof (cases "i \<in> set ids")
      case True
      then show ?thesis using settled [OF True] matches_not(2) by (auto simp: sv(1))
    next
      case False
      then show ?thesis using out [OF False] by (simp add: resting_def)
    qed
    then have "\<not> blocked_anywhere ?s2" by (simp add: blocked_anywhere_def)
    moreover have "queued ?s2 \<subseteq> queued stored - set ready"
    proof
      fix i assume i: "i \<in> queued ?s2"
      then have "status_of f2 i = Some Queued" by (simp add: queued_def sv(1))
      moreover have "i \<notin> set ids" using settled [of i] calculation matches_not(1) by auto
      ultimately show "i \<in> queued stored - set ready" using e(4) sp(1) by (auto simp: queued_def fs split: if_splits)
    qed
    moreover have "attempts_ok w ts"
      using e(3) q unfolding attempts_ok_def keys [symmetric] by (fastforce split: task.splits)
    moreover have "\<forall>(i, t) \<in> set ts. matches t (status_of ?s2 i)" using e(3) by (auto simp: sv(1))
    ultimately show ?thesis
      using False sh2 sv e(2) keys sp(2) out less by (simp add: launch_layer_def Let_def st alone_layer_def flip: f1_def s1_def)
  qed
qed

lemma alone_round:
  assumes "validateWorkflowGraph (w_nodes w) = None" and "jm_wf (w_nodes w)" and "length (w_nodes w) < safety_bound"
    and "alone_inv w x (stored, Loop n)"
  shows "alone_inv w x (loop_round w ss env True n stored)"
proof -
  let ?K = "jm_keys (w_nodes w)" and ?ready = "findReadyNodeIds stored (w_nodes w)"
  have inv: "shape ?K x stored" "r_status stored = RRunning" "\<forall>i. resting stored i" "n + card (queued stored) \<le> length (w_nodes w)"
    using assms(4) by auto
  have K: "distinct ?K" using assms(2) by (simp add: jm_wf_def)
  note rc = reconcile_running [OF inv(2), of ss env]
  have small: "\<not> safety_bound < n + 1" using inv(4) assms(3) by simp
  show ?thesis
  proof (cases "?ready = []")
    case True
    have none: "queued stored = {}" using queued_has_ready [OF assms(1,2) inv(1,3)] True by blast
    have over: "terminal_at stored i" for i
      using inv(3) none by (auto simp: terminal_at_def queued_def resting_def isTerminalNodeStatus_def split: option.splits)
        (metis node_status.exhaust)
    have "unfinished stored = []"
      using over shape_wf [OF inv(1) K] jm_get_wf by (fastforce simp: unfinished_Nil terminal_at_iff)
    moreover have "outcome_ok w (mergeExistingRun (emit env t m d i (stored\<lparr>r_status := RCompleted, r_completedAt := c, r_updatedAt := u\<rparr>)) stored)"
      for t m d i c u
      using over merged_status [of ?K x _ stored] merged_run_status [of stored] inv(1,2) K
      by (simp add: outcome_ok_def terminal_at_def)
    ultimately show ?thesis using True small inv(2) by (simp add: loop_round_def rc Let_def idle_round_def)
  next
    case False
    show ?thesis
    proof (cases "classifyLayer w stored ?ready")
      case (Inl e)
      then show ?thesis using False small inv(2) classify_error [OF Inl] by (auto simp: loop_round_def rc Let_def startsWith_def)
    next
      case (Inr p)
      obtain ids skipped where p: "p = (ids, skipped)" by fastforce
      from alone_launch [OF assms(2) inv refl False Inr [unfolded p], of env] show ?thesis
        using False small inv(2) by (simp add: loop_round_def rc Let_def Inr p)
    qed
  qed
qed

section \<open>The attempts of a layer\<close>

lemma tasks_set:
  assumes "jm_wf tasks" and "(j, t') \<in> set (jm_set i t tasks)"
  shows "j = i \<and> t' = t \<or> j \<noteq> i \<and> (j, t') \<in> set tasks"
  using assms jm_get_wf [of tasks j t'] jm_get_wf [of "jm_set i t tasks" j t'] by (auto split: if_splits)

lemma alone_attempt:
  assumes inv: "alone_inv w x (stored, Layer n fresh ids tasks)" and wf: "jm_wf (w_nodes w)"
    and t: "jm_get tasks i = Some (Attempting k)" and nd: "jm_get (w_nodes w) i = Some nd"
    and ex: "executes w ss env i nd fresh att" and en: "end_attempt env i nd k found att = (fresh', saves', t')"
  shows "alone_inv w x (saved saves' stored, Layer n fresh' ids (jm_set i t' tasks))"
proof -
  let ?K = "jm_keys (w_nodes w)" and ?s = "saved saves' stored"
  have K: "distinct ?K" using wf by (simp add: jm_wf_def)
  have al: "alone_layer w x stored fresh ids tasks" "shape ?K x stored" "n + card (queued stored) \<le> length (w_nodes w)"
    using inv by auto
  have same: "status_of fresh = status_of stored" "r_status fresh = r_status stored" "shape ?K x fresh" "map fst tasks = ids"
    "distinct ids" using al(1) by (auto simp: alone_layer_def)
  have twf: "jm_wf tasks" using same(4,5) by (simp add: jm_wf_def jm_keys_def)
  have it: "(i, Attempting k) \<in> set tasks" using jm_get_mem [OF t] .
  have run: "status_of fresh i = Some Running" using al(1) it by (fastforce simp: alone_layer_def matches_def)
  have open_run: "\<not> isTerminalRunStatus (r_status fresh)" using al(1) by (auto simp: alone_layer_def)
  have eff: "chain ?K x (status_of stored) saves' fresh'" "matches t' (status_of fresh' i)"
      "\<forall>j. j \<noteq> i \<longrightarrow> status_of fresh' j = status_of stored j \<or> status_of stored j = Some Queued \<and> status_of fresh' j = Some Skipped"
      "r_status fresh' = (if t' = Fulfilled_blocked then RBlocked else r_status stored)"
      "\<forall>k'. t' = Attempting k' \<longrightarrow> k' = k + 1 \<and> k < max_attempts nd"
    using end_attempt_effect [OF ex en run same(3) open_run] same(1,2) by (auto simp: end_effect_def)
  have s: "status_of ?s = status_of fresh'" "r_status ?s = r_status fresh'"
    using chain_saved [OF eff(1) al(2) K] open_run same(2) by auto
  have sh: "shape ?K x fresh'" "shape ?K x ?s"
    using shape_end_attempt [OF en executes_shape [OF ex same(3)]] shape_saved [OF al(2)] by auto
  have other: "status_of ?s j = status_of stored j" if j: "j \<in> set ids" "j \<noteq> i" for j
  proof -
    obtain u where "(j, u) \<in> set tasks" using j(1) unfolding same(4) [symmetric] by auto
    then have "status_of stored j \<noteq> Some Queued" using al(1) matches_not(1) by (fastforce simp: alone_layer_def)
    then show ?thesis using eff(3) j(2) by (auto simp: s(1))
  qed
  have ids: "map fst (jm_set i t' tasks) = ids" using jm_keys_set [of i t' tasks] t same(4) by (simp add: jm_keys_def)
  have i: "i \<in> set ids" using it same(4) by force
  have "matches u (status_of ?s j)" if "(j, u) \<in> set (jm_set i t' tasks)" for j u
  proof -
    from tasks_set [OF twf that] consider "j = i" "u = t'" | "j \<noteq> i" "(j, u) \<in> set tasks" by blast
    then show ?thesis
    proof cases
      case 1
      then show ?thesis using eff(2) s(1) by simp
    next
      case 2
      then have "status_of ?s j = status_of stored j" using other same(4) by force
      then show ?thesis using al(1) 2 by (auto simp: alone_layer_def)
    qed
  qed
  moreover have "attempts_ok w (jm_set i t' tasks)"
  proof -
    have old: "attempts_ok w tasks" using al(1) by (simp add: alone_layer_def)
    have "\<exists>n. jm_get (w_nodes w) j = Some n \<and> (case u of Attempting k \<Rightarrow> 1 \<le> k \<and> k \<le> max_attempts n | _ \<Rightarrow> True)"
      if "(j, u) \<in> set (jm_set i t' tasks)" for j u
      using tasks_set [OF twf that]
    proof
      assume "j = i \<and> u = t'"
      then show ?thesis using nd eff(5) by (cases t') auto
    next
      assume "j \<noteq> i \<and> (j, u) \<in> set tasks"
      then show ?thesis using old by (auto simp: attempts_ok_def)
    qed
    then show ?thesis by (auto simp: attempts_ok_def)
  qed
  moreover have "resting ?s j" if "j \<notin> set ids" for j
  proof -
    have "resting stored j" using al(1) that by (simp add: alone_layer_def)
    moreover have "status_of ?s j = status_of stored j \<or> status_of ?s j = Some Skipped" using eff(3) that i s(1) by metis
    ultimately show ?thesis by (auto simp: resting_def)
  qed
  moreover have "r_status ?s = (if blocked_anywhere ?s then RBlocked else RRunning)"
  proof (cases "t' = Fulfilled_blocked")
    case True
    then have "blocked_anywhere ?s" using eff(2) by (auto simp: blocked_anywhere_def matches_def s(1))
    then show ?thesis using eff(4) s(2) True by simp
  next
    case False
    then have "status_of ?s i \<noteq> Some Blocked" using matches_not(2) [OF eff(2) False] by (simp add: s(1))
    moreover have "status_of stored i \<noteq> Some Blocked" using run same(1) by simp
    moreover have "status_of ?s j = Some Blocked \<longleftrightarrow> status_of stored j = Some Blocked" if "j \<noteq> i" for j
      using eff(3) that by (auto simp: s(1))
    ultimately have "blocked_anywhere ?s = blocked_anywhere stored" unfolding blocked_anywhere_def by metis
    then show ?thesis using eff(4) s(2) False al(1) by (simp add: alone_layer_def)
  qed
  moreover have "queued ?s \<subseteq> queued stored"
  proof
    fix j assume "j \<in> queued ?s"
    then have q: "status_of fresh' j = Some Queued" by (simp add: queued_def s(1))
    then have "j \<noteq> i" using matches_not(1) [OF eff(2)] by auto
    then show "j \<in> queued stored" using eff(3) q by (auto simp: queued_def)
  qed
  then have "n + card (queued ?s) \<le> length (w_nodes w)"
    using al(3) card_mono [of "queued stored" "queued ?s"] queued_finite [OF al(2)] by simp
  ultimately show ?thesis using sh s ids same(5) by (auto simp: alone_layer_def)
qed

lemma alone_progress:
  assumes inv: "alone_inv w x (stored, Layer n fresh ids tasks)" and wf: "jm_wf (w_nodes w)" and wk: "works fresh fresh'"
  shows "alone_inv w x (saved [fresh'] stored, Layer n fresh' ids tasks)"
proof -
  let ?K = "jm_keys (w_nodes w)" and ?s = "saved [fresh'] stored"
  have K: "distinct ?K" using wf by (simp add: jm_wf_def)
  have al: "alone_layer w x stored fresh ids tasks" "shape ?K x stored" using inv by auto
  have f: "shape ?K x fresh'" "status_of fresh' = status_of stored" "r_status fresh' = r_status stored"
    using works_shape [OF wk, of ?K x] wk al(1) by (auto simp: works_def alone_layer_def)
  have s: "status_of ?s = status_of stored" "r_status ?s = r_status stored" "shape ?K x ?s"
    using chain_saved [of ?K x stored "[fresh']" fresh'] f al K shape_merge by (auto simp: alone_layer_def)
  have "queued ?s = queued stored" "\<And>j. resting ?s j = resting stored j" "blocked_anywhere ?s = blocked_anywhere stored"
    using s(1) by (simp_all add: queued_def resting_def blocked_anywhere_def del: saved_simps)
  then show ?thesis using inv s f by (simp add: alone_layer_def del: saved_simps)
qed

section \<open>The end of a layer\<close>

lemma capture_effect:
  assumes "captureNodeStructuredOutputs jsonata n st = (st', err)"
  shows "(err = None \<longrightarrow> ns_status st' = ns_status st) \<and> (\<forall>e. err = Some e \<longrightarrow> startsWith e ''Structured output '')"
  using assms
  by (auto simp: captureNodeStructuredOutputs_def Let_def outputs_receipt_def startsWith_def split: if_splits sum.splits)

lemma note_result_effect:
  assumes "note_result w env i t u = (u', err)"
  shows "(err = None \<longrightarrow> status_of u' = status_of u) \<and> r_status u' = r_status u \<and>
    (\<forall>e. err = Some e \<longrightarrow> startsWith e ''Structured output '')"
proof (cases "(\<exists>reason. t = Rejected reason) \<or> jm_get (w_nodes w) i = None \<or> status_of u i \<noteq> Some Completed")
  case True
  then show ?thesis
    using assms by (auto simp: note_result_def status_of_def split: task.splits option.splits if_splits)
next
  case False
  then obtain n st where n: "jm_get (w_nodes w) i = Some n" "jm_get (r_nodes u) i = Some st" "ns_status st = Completed"
    by (auto simp: status_of_def)
  obtain st' e where c: "captureNodeStructuredOutputs (w_jsonata w) n st = (st', e)" by fastforce
  have "status_of (upd_node i (\<lambda>_. st') u) = status_of u" if "e = None"
    using capture_effect [OF c] that n(2) by (auto simp: fun_eq_iff status_of_def)
  then show ?thesis
    using assms False n c capture_effect [OF c]
    by (cases e; cases t) (auto simp: note_result_def)
qed

lemma note_results_effect:
  assumes "note_results w env ts u = (u', err)"
  shows "(err = None \<longrightarrow> status_of u' = status_of u) \<and> r_status u' = r_status u \<and>
    (\<forall>e. err = Some e \<longrightarrow> startsWith e ''Structured output '')"
  using assms
proof (induction ts arbitrary: u)
  case (Cons p ts)
  obtain i t where p: "p = (i, t)" by fastforce
  obtain u1 e1 where one: "note_result w env i t u = (u1, e1)" by fastforce
  show ?case
    using Cons.prems Cons.IH [of u1] note_result_effect [OF one] by (cases e1) (auto simp: p one)
qed simp

lemma alone_finish:
  assumes inv: "alone_inv w x (stored, Layer n fresh ids tasks)" and wf: "jm_wf (w_nodes w)"
    and settled: "\<forall>(i, t) \<in> set tasks. settled t"
  shows "alone_inv w x (finish_layer w ss env True n ids tasks stored)"
proof -
  let ?K = "jm_keys (w_nodes w)"
  have K: "distinct ?K" using wf by (simp add: jm_wf_def)
  have al: "alone_layer w x stored fresh ids tasks" "shape ?K x stored" "n + card (queued stored) \<le> length (w_nodes w)"
    using inv by auto
  have rs: "r_status stored = (if blocked_anywhere stored then RBlocked else RRunning)" using al(1) by (simp add: alone_layer_def)
  then have open_run: "\<not> isTerminalRunStatus (r_status stored)" by simp
  obtain u ms where rc: "reconcile ss env True stored = (u, ms)" by fastforce
  note ra = reconcile_active [OF rc al(2) K open_run]
  note sh = reconciled [OF rc al(2)]
  obtain u1 err where nr: "note_results w env tasks u = (u1, err)" by fastforce
  note ne = note_results_effect [OF nr]
  have u1: "shape ?K x u1" using shape_note_results [OF sh(1), of w env tasks] by (simp add: nr)
  show ?thesis
  proof (cases err)
    case (Some e)
    then show ?thesis using ne by (auto simp: finish_layer_def rc nr startsWith_def)
  next
    case None
    let ?s1 = "saved [u1] (saved ms stored)"
    have s1: "status_of ?s1 = status_of stored" "r_status ?s1 = r_status stored" "shape ?K x ?s1"
      using chain_saved [of ?K x "saved ms stored" "[u1]" u1] ne None ra u1 sh(3) K open_run shape_merge by auto
    obtain q ms2 where rc2: "reconcile ss env True ?s1 = (q, ms2)" by fastforce
    have op1: "\<not> isTerminalRunStatus (r_status ?s1)" using s1(2) open_run by simp
    note rb = reconcile_active [OF rc2 s1(3) K op1]
    note sh2 = reconciled [OF rc2 s1(3)]
    let ?s2 = "saved ms2 ?s1"
    have s2: "status_of ?s2 = status_of stored" "r_status ?s2 = r_status stored" "status_of q = status_of stored"
      using rb s1 by auto
    have fin: "finish_layer w ss env True n ids tasks stored =
       (case filter (halts w) (with_status Failed q ids) of
          i # _ \<Rightarrow>
            let message = halt_message q i
            in (saved [emit env ''run-failed'' (''Workflow run failed: '' @ message) None None
                  (q\<lparr>r_status := RFailed, r_error := Some message, r_completedAt := Some (e_now env), r_updatedAt := e_now env\<rparr>)] ?s2,
                Returned)
        | [] \<Rightarrow> if with_status Blocked q ids \<noteq> [] then (?s2, Returned) else (?s2, Loop n))"
      by (simp only: finish_layer_def rc nr None rc2 Let_def prod.case option.case)
    show ?thesis
    proof (cases "filter (halts w) (with_status Failed q ids)")
      case (Cons i is')
      then have "i \<in> set (filter (halts w) (with_status Failed q ids))" by simp
      then have i: "halts w i" "status_of q i = Some Failed" by (auto simp: with_status_def)
      have "outcome_ok w (mergeExistingRun (emit env a b c d (q\<lparr>r_status := RFailed, r_error := e, r_completedAt := f, r_updatedAt := g\<rparr>)) ?s2)"
        for a b c d e f g
        using merged_status [OF _ sh2(3) K] merged_run_status [of ?s2] sh2(1) i s2 open_run
        by (auto simp: outcome_ok_def simp del: saved_simps)
      then show ?thesis unfolding fin Cons by (simp add: Let_def)
    next
      case Nil
      show ?thesis
      proof (cases "with_status Blocked q ids = []")
        case False
        then have "blocked_anywhere ?s2" by (auto simp: with_status_def filter_empty_conv blocked_anywhere_def s2 simp del: saved_simps)
        moreover have "blocked_anywhere ?s2 = blocked_anywhere stored" by (simp add: blocked_anywhere_def s2 del: saved_simps)
        ultimately show ?thesis unfolding fin Nil using False s2(2) rs by (simp add: outcome_ok_def del: saved_simps)
      next
        case True
        have rest: "resting ?s2 i" for i
        proof (cases "i \<in> set ids")
          case iid: True
          then obtain t where "(i, t) \<in> set tasks" using al(1) by (auto simp: alone_layer_def)
          then have "status_of stored i \<noteq> Some Running"
            using settled al(1) matches_not(3) by (fastforce simp: alone_layer_def)
          moreover have "status_of stored i \<noteq> Some Blocked"
            using True iid by (auto simp: with_status_def filter_empty_conv s2)
          ultimately show ?thesis by (simp add: resting_def s2 del: saved_simps)
        next
          case False
          then show ?thesis using al(1) by (simp add: alone_layer_def resting_def s2 del: saved_simps)
        qed
        then have "\<not> blocked_anywhere stored" by (auto simp: blocked_anywhere_def resting_def s2 simp del: saved_simps)
        then show ?thesis unfolding fin Nil
          using True s2 rs sh2(3) al(3) allI [of "resting ?s2", OF rest] by (simp add: queued_def del: saved_simps)
      qed
    qed
  qed
qed

lemma alone_step:
  assumes "sched_step w True (stored, ph) c" and "alone_inv w x (stored, ph)"
    and "validateWorkflowGraph (w_nodes w) = None" and "jm_wf (w_nodes w)" and "length (w_nodes w) < safety_bound"
  shows "alone_inv w x c"
  using assms(1)
proof (cases rule: sched_step.cases)
  case (start resumed ss env issues)
  then show ?thesis using assms(2) by simp
next
  case (round n ss env)
  then show ?thesis using alone_round [OF assms(3-5)] assms(2) by simp
next
  case (progress i k tasks fresh fresh' n ids)
  then show ?thesis using alone_progress [OF _ assms(4)] assms(2) by (simp del: saved_simps)
next
  case (attempt tasks i k nd ss env fresh att found fresh' saves' t n ids)
  then show ?thesis using alone_attempt [OF _ assms(4)] assms(2) by (simp del: saved_simps)
next
  case (finish tasks n fresh ids ss env)
  then show ?thesis using alone_finish [OF _ assms(4)] assms(2) by (simp del: saved_simps)
qed

lemma alone_reachable:
  assumes "(sched_step w True)\<^sup>*\<^sup>* c0 c" and "alone_inv w x c0"
    and "validateWorkflowGraph (w_nodes w) = None" and "jm_wf (w_nodes w)" and "length (w_nodes w) < safety_bound"
  shows "alone_inv w x c"
  using assms(1,2)
proof (induction rule: rtranclp_induct)
  case (step c c')
  obtain stored ph where c: "c = (stored, ph)" by fastforce
  from alone_step [OF step.hyps(2) [unfolded c] _ assms(3-5)] step show ?case by (simp add: c)
qed

section \<open>A scheduler can always go on\<close>

text \<open>One possible course: every executor that is not modelled ends at once, successfully.\<close>

definition execute_once :: "workflow \<Rightarrow> sessions \<Rightarrow> env \<Rightarrow> string \<Rightarrow> node \<Rightarrow> run \<Rightarrow> attempt" where
  "execute_once w ss env i n r =
     (case n_kind n of
        Approval prompt _ _ options \<Rightarrow> executeApproval (w_jsonata w) env i prompt options r
      | Gate g \<Rightarrow> executeGateNode (w_jsonata w) (w_parse_date w) env i g r
      | Condition e ts es \<Rightarrow> executeCondition (w_jsonata w) env i e ts es r
      | Artifact name from path _ \<Rightarrow> executeArtifact env i name from path r
      | Plan body summary source ref wait \<Rightarrow>
          executePlan (w_jsonata w) env (prompt_output ss) i n body summary source ref wait r
      | Action adapter act _ key _ req \<Rightarrow> executeAction env (Adapted [] []) i adapter act key req r
      | _ \<Rightarrow> (r, [], Done None))"

lemma execute_once_executes: "executes w ss env i n r (execute_once w ss env i n r)"
proof -
  have e: "executes w ss env i n r (r, [], Done None)" if "\<not> internal (n_kind n)"
    using that by (intro executes.external) (simp_all add: works_def)
  show ?thesis
    unfolding execute_once_def
    by (cases "n_kind n") (auto simp: internal_def type_name_def intro: executes.intros e)
qed

definition first_attempt :: "(string, task) js_map \<Rightarrow> (string \<times> nat) option" where
  "first_attempt tasks =
     (case List.map_filter (\<lambda>(i, t). case t of Attempting k \<Rightarrow> Some (i, k) | _ \<Rightarrow> None) tasks of
        p # _ \<Rightarrow> Some p | [] \<Rightarrow> None)"

lemma first_attempt_None: "first_attempt tasks = None \<longleftrightarrow> (\<forall>(i, t) \<in> set tasks. settled t)"
proof -
  have "List.map_filter (\<lambda>(i, t). case t of Attempting k \<Rightarrow> Some (i, k) | _ \<Rightarrow> None) tasks = [] \<longleftrightarrow>
      (\<forall>(i, t) \<in> set tasks. settled t)"
    by (induction tasks) (auto simp: List.map_filter_def settled_def split: task.splits)
  then show ?thesis by (auto simp: first_attempt_def split: list.splits)
qed

lemma first_attempt_mem: "first_attempt tasks = Some (i, k) \<Longrightarrow> (i, Attempting k) \<in> set tasks"
proof -
  assume "first_attempt tasks = Some (i, k)"
  then have "(i, k) \<in> set (List.map_filter (\<lambda>(i, t). case t of Attempting k \<Rightarrow> Some (i, k) | _ \<Rightarrow> None) tasks)"
    by (auto simp: first_attempt_def split: list.splits)
  then show ?thesis by (auto simp: List.map_filter_def split: task.splits option.splits)
qed

definition advance :: "workflow \<Rightarrow> sessions \<Rightarrow> env \<Rightarrow> run \<times> phase \<Rightarrow> run \<times> phase" where
  "advance w ss env c =
     (case c of (stored, ph) \<Rightarrow>
        (case ph of
           Starting b \<Rightarrow> start_run ss env True b [] stored
         | Loop n \<Rightarrow> loop_round w ss env True n stored
         | Layer n fresh ids tasks \<Rightarrow>
             (case first_attempt tasks of
                None \<Rightarrow> finish_layer w ss env True n ids tasks stored
              | Some (i, k) \<Rightarrow>
                  (case jm_get (w_nodes w) i of
                     None \<Rightarrow> c
                   | Some nd \<Rightarrow>
                       let (fresh', saves', t) = end_attempt env i nd k (Inr ([], [])) (execute_once w ss env i nd fresh)
                       in (saved saves' stored, Layer n fresh' ids (jm_set i t tasks))))
         | _ \<Rightarrow> c))"

text \<open>The nodes of the tasks exist, and no node has two tasks.\<close>

definition tasks_ok :: "workflow \<Rightarrow> phase \<Rightarrow> bool" where
  "tasks_ok w ph \<longleftrightarrow>
     (case ph of Layer _ _ _ tasks \<Rightarrow> jm_wf tasks \<and> (\<forall>(i, t) \<in> set tasks. jm_get (w_nodes w) i \<noteq> None) | _ \<Rightarrow> True)"

lemma advance_step:
  assumes "tasks_ok w (snd c)" and "\<not> ended (snd c)"
  shows "sched_step w True c (advance w ss env c)"
proof -
  obtain stored ph where c: "c = (stored, ph)" by fastforce
  show ?thesis
  proof (cases ph)
    case (Layer n fresh ids tasks)
    have tw: "jm_wf tasks" "\<forall>(i, t) \<in> set tasks. jm_get (w_nodes w) i \<noteq> None" using assms(1) by (auto simp: tasks_ok_def c Layer)
    show ?thesis
    proof (cases "first_attempt tasks")
      case None
      then have "\<forall>(i, t) \<in> set tasks. settled t" using first_attempt_None by blast
      from sched_step.finish [OF this] show ?thesis by (simp add: advance_def c Layer None)
    next
      case (Some p)
      obtain i k where p: "p = (i, k)" by fastforce
      have it: "(i, Attempting k) \<in> set tasks" using first_attempt_mem Some p by simp
      obtain nd where nd: "jm_get (w_nodes w) i = Some nd" using tw(2) it by auto
      have t: "jm_get tasks i = Some (Attempting k)" using jm_get_wf [OF tw(1)] it by simp
      obtain f' ss' t' where e: "end_attempt env i nd k (Inr ([], [])) (execute_once w ss env i nd fresh) = (f', ss', t')"
        by (metis prod_cases3)
      from sched_step.attempt [OF t nd execute_once_executes e] show ?thesis
        by (simp add: advance_def c Layer Some p nd e)
    qed
  qed (use assms(2) in \<open>auto simp: advance_def c ended_def intro: sched_step.intros\<close>)
qed

lemma alone_tasks_ok: "alone_inv w x (stored, ph) \<Longrightarrow> tasks_ok w ph"
  by (cases ph) (auto simp: tasks_ok_def alone_layer_def attempts_ok_def jm_wf_def jm_keys_def)

section \<open>Termination\<close>

definition attempts_left :: "workflow \<Rightarrow> (string, task) js_map \<Rightarrow> nat" where
  "attempts_left w tasks =
     sum_list (map (\<lambda>(i, t). case (t, jm_get (w_nodes w) i) of (Attempting k, Some n) \<Rightarrow> max_attempts n + 1 - k | _ \<Rightarrow> 0) tasks)"

definition weight :: "workflow \<Rightarrow> run \<times> phase \<Rightarrow> nat \<times> nat" where
  "weight w c =
     (let N = length (w_nodes w) in
      case snd c of
        Loop n \<Rightarrow> (2 * (N + 1 - n) + 2, 0)
      | Layer n _ _ tasks \<Rightarrow> (2 * (N + 1 - n) + 3, attempts_left w tasks)
      | _ \<Rightarrow> (0, 0))"

definition only_progress :: "phase \<Rightarrow> phase \<Rightarrow> bool" where
  "only_progress ph ph' \<longleftrightarrow>
     (case (ph, ph') of (Layer n _ ids tasks, Layer n' _ ids' tasks') \<Rightarrow> n = n' \<and> ids = ids' \<and> tasks = tasks' | _ \<Rightarrow> False)"

lemma attempts_left_set:
  assumes "jm_get tasks i = Some (Attempting k)" and "jm_get (w_nodes w) i = Some nd"
    and "case t of Attempting k' \<Rightarrow> k' = k + 1 | _ \<Rightarrow> True" and "k \<le> max_attempts nd"
  shows "attempts_left w (jm_set i t tasks) < attempts_left w tasks"
  using assms
proof (induction tasks)
  case (Cons p tasks)
  obtain j u where p: "p = (j, u)" by fastforce
  show ?case
  proof (cases "j = i")
    case True
    then have "u = Attempting k" using Cons.prems(1) by (simp add: p jm_get_Cons)
    then show ?thesis using Cons.prems True by (cases t) (auto simp: attempts_left_def p)
  next
    case False
    then show ?thesis using Cons by (auto simp: attempts_left_def p jm_get_Cons)
  qed
qed simp

lemma finish_phase:
  assumes "finish_layer w ss env a n ids tasks stored = (stored', ph')"
  shows "ph' = Loop n \<or> ended ph'"
  using assms by (auto simp: finish_layer_def Let_def ended_def split: prod.splits option.splits list.splits if_splits)

lemma round_phase:
  assumes "loop_round w ss env a n stored = (stored', ph')"
  shows "ph' = Loop (n + 1) \<or> (\<exists>f ids ts. ph' = Layer (n + 1) f ids ts) \<or> ended ph'"
  using assms
  by (auto simp: loop_round_def idle_round_def launch_layer_def Let_def ended_def
      split: prod.splits option.splits list.splits if_splits sum.splits)

lemma weight_less:
  assumes "sched_step w True (stored, ph) (stored', ph')" and "alone_inv w x (stored, ph)" and "\<not> only_progress ph ph'"
  shows "(weight w (stored', ph'), weight w (stored, ph)) \<in> less_than <*lex*> less_than"
  using assms(1)
proof (cases rule: sched_step.cases)
  case (start resumed ss env issues)
  then show ?thesis using assms(2) by simp
next
  case (round n ss env)
  then have r: "loop_round w ss env True n stored = (stored', ph')" and ph: "ph = Loop n" and n: "n \<le> length (w_nodes w)"
    using assms(2) by simp_all
  show ?thesis
    using round_phase [OF r] n unfolding ph
    by (elim disjE exE) (auto simp: weight_def Let_def ended_def split: phase.splits)
next
  case (progress i k tasks fresh fresh' n ids)
  then show ?thesis using assms(3) by (simp add: only_progress_def)
next
  case (attempt tasks i k nd ss env fresh att found fresh' saves' t n ids)
  have al: "alone_layer w x stored fresh ids tasks" using assms(2) attempt by simp
  have it: "(i, Attempting k) \<in> set tasks" using jm_get_mem [OF attempt(4)] .
  have k: "k \<le> max_attempts nd" using al it attempt(5) by (fastforce simp: alone_layer_def attempts_ok_def)
  have run: "status_of fresh i = Some Running" using al it by (fastforce simp: alone_layer_def matches_def)
  have rest: "shape (jm_keys (w_nodes w)) x fresh" "\<not> isTerminalRunStatus (r_status fresh)"
    using al by (auto simp: alone_layer_def)
  have "case t of Attempting k' \<Rightarrow> k' = k + 1 | _ \<Rightarrow> True"
    using end_attempt_effect [OF attempt(6,7) run rest] by (auto simp: end_effect_def split: task.splits)
  from attempts_left_set [OF attempt(4,5) this k] attempt show ?thesis by (simp add: weight_def Let_def)
next
  case (finish tasks n fresh ids ss env)
  then have f: "finish_layer w ss env True n ids tasks stored = (stored', ph')" and ph: "ph = Layer n fresh ids tasks"
    by simp_all
  show ?thesis
    using finish_phase [OF f] unfolding ph
    by (elim disjE) (auto simp: weight_def Let_def ended_def split: phase.splits)
qed

end
