(* ===== verification/Workflow_Guarantees.thy ===== *)
theory Workflow_Guarantees
  imports Workflow_Termination
begin

text \<open>
  What the workflow engine guarantees: of every reachable state of a run with all the parties that work on it, and of
  a scheduler that is alone with a run; and one thing that it does not guarantee.
\<close>

section \<open>Small workflows\<close>

definition demo_workflow :: "definition_nodes \<Rightarrow> workflow" where
  "demo_workflow nodes = \<lparr>w_nodes = nodes, w_jsonata = (\<lambda>_ _. Result None), w_parse_date = (\<lambda>_. None)\<rparr>"

definition demo_sessions :: sessions where
  "demo_sessions = \<lparr>session_state = (\<lambda>_. None), prompt_output = (\<lambda>_. []), prompt_excerpt = (\<lambda>_. [])\<rparr>"

definition artifact_node :: "string list \<Rightarrow> node" where
  "artifact_node ds = plain_node (Artifact ''x'' None None None) ds"

text \<open>The first node is skipped because its guard evaluates to nothing; the second depends on it.\<close>

definition two_step :: "trigger_rule \<Rightarrow> definition_nodes" where
  "two_step rule =
     [(''a'', (artifact_node [])\<lparr>n_when := Some ''x''\<rparr>), (''b'', (artifact_node [''a''])\<lparr>n_triggerRule := Some rule\<rparr>)]"

definition demo_advance :: "workflow \<Rightarrow> run \<times> phase \<Rightarrow> run \<times> phase" where
  "demo_advance w c = advance w demo_sessions demo_env c"

definition demo_start :: "definition_nodes \<Rightarrow> run \<times> phase" where
  "demo_start nodes = ((initial_run nodes (\<lambda>_. []) [] ''run'' ''/w'' [] 0)\<lparr>r_status := RRunning\<rparr>, Loop 0)"

lemma safety_bound_int [code_unfold]:
  "safety_bound < n \<longleftrightarrow> 10000 < int n" "n < safety_bound \<longleftrightarrow> int n < 10000"
  by (auto simp: safety_bound_def)

lemma two_step_valid:
  "validateWorkflowGraph (two_step rule) = None" "jm_wf (two_step rule)" "length (two_step rule) < safety_bound"
  by (cases rule; code_simp)+

lemma advance_chain:
  assumes "\<forall>k < n. tasks_ok w (snd ((demo_advance w ^^ k) c)) \<and> \<not> ended (snd ((demo_advance w ^^ k) c))"
  shows "(sched_step w True)\<^sup>*\<^sup>* c ((demo_advance w ^^ n) c)"
  using assms
proof (induction n)
  case (Suc n)
  have "sched_step w True ((demo_advance w ^^ n) c) (demo_advance w ((demo_advance w ^^ n) c))"
    unfolding demo_advance_def [of w "(demo_advance w ^^ n) c"] using Suc.prems by (intro advance_step) auto
  moreover have "(sched_step w True)\<^sup>*\<^sup>* c ((demo_advance w ^^ n) c)" using Suc by simp
  ultimately show ?case by simp
qed simp


section \<open>A scheduler that is alone with its run\<close>

text \<open>The situation in which \<open>run\<close> enters the scheduling loop: the run is marked as running and nothing is at work.\<close>

definition loop_entry :: "workflow \<Rightarrow> run \<Rightarrow> bool" where
  "loop_entry w stored \<longleftrightarrow>
     jm_keys (r_nodes stored) = jm_keys (w_nodes w) \<and> r_status stored = RRunning \<and>
     (\<forall>(i, st) \<in> set (r_nodes stored). ns_status st \<noteq> Running \<and> ns_status st \<noteq> Blocked)"

lemma loop_entry_alone:
  assumes "loop_entry w stored" and "jm_wf (w_nodes w)"
  shows "alone_inv w (r_id stored) (stored, Loop 0)"
proof -
  let ?K = "jm_keys (w_nodes w)"
  have s: "shape ?K (r_id stored) stored" using assms(1) by (simp add: loop_entry_def shape_def)
  have "card (queued stored) \<le> card (set ?K)" using queued_finite [OF s] by (simp add: card_mono)
  also have "\<dots> = length (w_nodes w)"
    using distinct_card [of ?K] assms(2) by (simp add: jm_wf_def jm_keys_def del: set_map)
  finally have "card (queued stored) \<le> length (w_nodes w)" .
  moreover have "All (resting stored)"
    using assms(1) by (auto simp: loop_entry_def resting_def status_of_def dest!: jm_get_mem)
  ultimately show ?thesis using s assms(1) by (simp add: loop_entry_def)
qed

lemma decreasing_ends:
  assumes "wf R" and "\<And>k. c (Suc k) = c k \<or> (c (Suc k), c k) \<in> R"
  shows "\<exists>N. \<forall>k \<ge> N. c (Suc k) = c k"
proof -
  obtain m where m: "m \<in> range c" "\<And>y. (y, m) \<in> R\<^sup>+ \<Longrightarrow> y \<notin> range c"
    using wfE_min [OF wf_trancl [OF assms(1)], of "c 0" "range c"] by blast
  then obtain N where N: "c N = m" by blast
  have "c (N + j) = m" for j
  proof (induction j)
    case (Suc j)
    with assms(2) [of "N + j"] m(2) [of "c (N + Suc j)"] show ?case by auto
  qed (simp add: N)
  then have "c k = m" if "k \<ge> N" for k using that by (metis le_add_diff_inverse)
  then show ?thesis by (metis le_SucI)
qed

lemma weight_stays: "only_progress ph ph' \<Longrightarrow> weight w (stored', ph') = weight w (stored, ph)"
  by (auto simp: only_progress_def weight_def Let_def split: phase.splits)

lemma advance_progress:
  assumes "alone_inv w x c" and "\<not> ended (snd c)"
  shows "\<not> only_progress (snd c) (snd (advance w ss env c))"
proof
  assume o: "only_progress (snd c) (snd (advance w ss env c))"
  obtain stored ph where c: "c = (stored, ph)" by fastforce
  obtain n fresh ids tasks where ph: "ph = Layer n fresh ids tasks"
    using o by (auto simp: only_progress_def c split: phase.splits)
  have ok: "attempts_ok w tasks" using assms(1) by (simp add: c ph alone_layer_def)
  show False
  proof (cases "first_attempt tasks")
    case None
    obtain f p where f: "finish_layer w ss env True n ids tasks stored = (f, p)" by fastforce
    from finish_phase [OF f] o show False
      by (auto simp: c ph advance_def None f only_progress_def ended_def split: phase.splits)
  next
    case (Some q)
    obtain i k where q: "q = (i, k)" by fastforce
    have it: "(i, Attempting k) \<in> set tasks" using first_attempt_mem Some q by simp
    obtain nd where nd: "jm_get (w_nodes w) i = Some nd" using ok it by (auto simp: attempts_ok_def)
    have tw: "jm_wf tasks" using assms(1) by (auto simp: c ph alone_layer_def jm_wf_def jm_keys_def)
    have t: "jm_get tasks i = Some (Attempting k)" using jm_get_wf [OF tw] it by simp
    obtain f s t' where e: "end_attempt env i nd k (Inr ([], [])) (execute_once w ss env i nd fresh) = (f, s, t')"
      by (metis prod_cases3)
    have step: "sched_step w True (stored, ph) (saved s stored, Layer n f ids (jm_set i t' tasks))"
      unfolding ph using sched_step.attempt [OF t nd execute_once_executes e] .
    have "jm_set i t' tasks = tasks" using o by (auto simp: c ph advance_def Some q nd e only_progress_def)
    then have "t' = Attempting k" using t by (metis jm_get_set option.inject)
    moreover have "t' \<noteq> Attempting k" using e by (auto simp: end_attempt_def attempt_failed_def Let_def
          split: prod.splits outcome.splits sum.splits if_splits)
    ultimately show False by blast
  qed
qed

lemma alone_advance:
  assumes "alone_inv w x c" and "validateWorkflowGraph (w_nodes w) = None" and "jm_wf (w_nodes w)"
    and "length (w_nodes w) < safety_bound" and "\<not> ended (snd c)"
  shows "alone_inv w x (advance w ss env c) \<and> (weight w (advance w ss env c), weight w c) \<in> less_than <*lex*> less_than"
proof -
  obtain stored ph where c: "c = (stored, ph)" by fastforce
  obtain stored' ph' where a: "advance w ss env c = (stored', ph')" by fastforce
  have st: "sched_step w True c (advance w ss env c)" using advance_step alone_tasks_ok assms(1,5) by (simp add: c)
  have np: "\<not> only_progress ph ph'" using advance_progress [OF assms(1,5), of ss env] unfolding a by (simp add: c)
  show ?thesis
    using alone_step [OF st [unfolded c] assms(1) [unfolded c] assms(2-4)]
      weight_less [OF st [unfolded a, unfolded c] assms(1) [unfolded c] np] a [unfolded c]
    by (simp add: c)
qed

lemma advance_ends:
  assumes "validateWorkflowGraph (w_nodes w) = None" and "jm_wf (w_nodes w)" and "length (w_nodes w) < safety_bound"
    and "alone_inv w x c"
  shows "\<exists>n. ended (snd ((advance w ss env ^^ n) c))"
  using wf_lex_prod [OF wf_less_than wf_less_than] assms(4)
proof (induction "weight w c" arbitrary: c rule: wf_induct_rule)
  case less
  show ?case
  proof (cases "ended (snd c)")
    case True
    then show ?thesis by (intro exI [of _ 0]) simp
  next
    case False
    from alone_advance [OF less.prems assms(1-3) False] less.hyps
    obtain n where "ended (snd ((advance w ss env ^^ n) (advance w ss env c)))" by blast
    then show ?thesis by (intro exI [of _ "Suc n"]) (simp add: funpow_swap1)
  qed
qed


text \<open>C5: a scheduler that is alone with a run of a validated workflow of fewer than 10,000 nodes, from the entry of its
  loop, whatever its executors do: the loop never exceeds the number of nodes in rounds, so its safety bound is never hit;
  no node is attempted more often than its retry policy allows; the scheduler is never stuck; and when it returns
  the run is completed with all its nodes terminal, or failed because of a failed node that halts the run, or blocked
  because a node of it is.
\<close>

theorem scheduler_outcome:
  assumes "validateWorkflowGraph (w_nodes w) = None" and "jm_wf (w_nodes w)" and "length (w_nodes w) < safety_bound"
    and "loop_entry w stored" and "(sched_step w True)\<^sup>*\<^sup>* (stored, Loop 0) (stored', ph)"
  shows "(ph = Returned \<longrightarrow> outcome_ok w stored')
    \<and> ph \<noteq> Thrown ''Workflow runner aborted: scheduling loop exceeded safety bound''
    \<and> (ended ph \<or> (\<exists>c. sched_step w True (stored', ph) c))
    \<and> (\<forall>n. ph = Loop n \<longrightarrow> n \<le> length (w_nodes w))
    \<and> (\<forall>n fresh ids tasks i k nd. ph = Layer n fresh ids tasks \<longrightarrow> jm_get tasks i = Some (Attempting k) \<longrightarrow>
         jm_get (w_nodes w) i = Some nd \<longrightarrow> n \<le> length (w_nodes w) \<and> 1 \<le> k \<and> k \<le> max_attempts nd)"
proof -
  have inv: "alone_inv w (r_id stored) (stored', ph)"
    using alone_reachable [OF assms(5) loop_entry_alone [OF assms(4,2)] assms(1-3)] .
  have "\<exists>c. sched_step w True (stored', ph) c" if "\<not> ended ph"
    using advance_step [of w "(stored', ph)"] alone_tasks_ok [OF inv] that by fastforce
  moreover have "n \<le> length (w_nodes w) \<and> 1 \<le> k \<and> k \<le> max_attempts nd"
    if "ph = Layer n fresh ids tasks" "jm_get tasks i = Some (Attempting k)" "jm_get (w_nodes w) i = Some nd"
    for n fresh ids tasks i k nd
    using inv jm_get_mem [OF that(2)] that(1,3) by (fastforce simp: alone_layer_def attempts_ok_def)
  ultimately show ?thesis using inv by (cases ph) auto
qed

text \<open>C19: the scheduler ends unless an executor works forever. In no course of its steps do infinitely many steps go
  beyond the intermediate saves of executors; in particular, if every executor ends at its first step, finitely many
  steps bring the scheduler to its end.
\<close>

theorem scheduler_terminates:
  assumes "validateWorkflowGraph (w_nodes w) = None" and "jm_wf (w_nodes w)" and "length (w_nodes w) < safety_bound"
    and "loop_entry w stored"
  shows "(\<nexists>c. c 0 = (stored, Loop 0) \<and> (\<forall>k. sched_step w True (c k) (c (Suc k))) \<and>
            (\<forall>m. \<exists>k \<ge> m. \<not> only_progress (snd (c k)) (snd (c (Suc k)))))
    \<and> (\<exists>n. ended (snd ((advance w ss env ^^ n) (stored, Loop 0))))"
proof -
  have entry: "alone_inv w (r_id stored) (stored, Loop 0)" using loop_entry_alone [OF assms(4,2)] .
  have False if c: "c 0 = (stored, Loop 0)" "\<forall>k. sched_step w True (c k) (c (Suc k))"
      and often: "\<forall>m. \<exists>k \<ge> m. \<not> only_progress (snd (c k)) (snd (c (Suc k)))" for c
  proof -
    have "(sched_step w True)\<^sup>*\<^sup>* (c 0) (c k)" for k using c(2) by (induction k) (auto intro: rtranclp.rtrancl_into_rtrancl)
    then have inv: "alone_inv w (r_id stored) (c k)" for k using alone_reachable [OF _ entry assms(1-3)] c(1) by simp
    have less: "(weight w (c (Suc k)), weight w (c k)) \<in> less_than <*lex*> less_than"
      if "\<not> only_progress (snd (c k)) (snd (c (Suc k)))" for k
      using weight_less [of w "fst (c k)" "snd (c k)" "fst (c (Suc k))" "snd (c (Suc k))"] c(2) inv [of k] that by simp
    have "weight w (c (Suc k)) = weight w (c k) \<or> (weight w (c (Suc k)), weight w (c k)) \<in> less_than <*lex*> less_than" for k
      using less [of k] weight_stays [of "snd (c k)" "snd (c (Suc k))" w "fst (c (Suc k))" "fst (c k)"] by auto
    from decreasing_ends [where c = "\<lambda>k. weight w (c k)", OF wf_lex_prod [OF wf_less_than wf_less_than] this]
    obtain N where N: "\<forall>k \<ge> N. weight w (c (Suc k)) = weight w (c k)" by blast
    obtain k where "k \<ge> N" "\<not> only_progress (snd (c k)) (snd (c (Suc k)))" using often by blast
    with less [of k] N show False by (cases "weight w (c k)") simp
  qed
  with advance_ends [OF assms(1-3) entry] show ?thesis by blast
qed



text \<open>With the trigger rule \<open>all_success\<close> both nodes are skipped, in two rounds, and the third round completes the run.\<close>

definition skipping :: workflow where
  "skipping = demo_workflow (two_step All_success)"

lemma skipping_valid:
  "validateWorkflowGraph (w_nodes skipping) = None" "jm_wf (w_nodes skipping)" "length (w_nodes skipping) < safety_bound"
  using two_step_valid by (simp_all add: skipping_def demo_workflow_def)

lemma skipping_entry: "loop_entry skipping (fst (demo_start (w_nodes skipping)))"
  by code_simp

lemma skipping_advances:
  "\<not> ended (snd ((demo_advance skipping ^^ 1) (demo_start (w_nodes skipping))))"
  "\<not> ended (snd ((demo_advance skipping ^^ 2) (demo_start (w_nodes skipping))))"
  "tasks_ok skipping (snd ((demo_advance skipping ^^ 1) (demo_start (w_nodes skipping))))"
  "tasks_ok skipping (snd ((demo_advance skipping ^^ 2) (demo_start (w_nodes skipping))))"
  "snd ((demo_advance skipping ^^ 3) (demo_start (w_nodes skipping))) = Returned"
  by code_simp+

lemma skipping_course:
  "(sched_step skipping True)\<^sup>*\<^sup>* (demo_start (w_nodes skipping)) ((demo_advance skipping ^^ 3) (demo_start (w_nodes skipping)))"
proof (rule advance_chain, intro allI impI)
  fix k :: nat
  assume "k < 3"
  then consider "k = 0" | "k = 1" | "k = 2" by linarith
  then show "tasks_ok skipping (snd ((demo_advance skipping ^^ k) (demo_start (w_nodes skipping)))) \<and>
      \<not> ended (snd ((demo_advance skipping ^^ k) (demo_start (w_nodes skipping))))"
    using skipping_advances by cases (simp_all add: demo_start_def tasks_ok_def ended_def)
qed

theorem scheduler_outcome_witness:
  "outcome_ok skipping (fst ((demo_advance skipping ^^ 3) (demo_start (w_nodes skipping))))"
proof -
  let ?s = "demo_start (w_nodes skipping)"
  have s: "?s = (fst ?s, Loop 0)" by (simp add: demo_start_def)
  have e: "(demo_advance skipping ^^ 3) ?s = (fst ((demo_advance skipping ^^ 3) ?s), Returned)"
    using skipping_advances(5) by (simp add: prod_eq_iff)
  have "(sched_step skipping True)\<^sup>*\<^sup>* (fst ?s, Loop 0) (fst ((demo_advance skipping ^^ 3) ?s), Returned)"
    using skipping_course s e by metis
  from scheduler_outcome [OF skipping_valid skipping_entry this] show ?thesis by blast
qed

theorem scheduler_terminates_witness:
  "\<exists>n. ended (snd ((advance skipping demo_sessions demo_env ^^ n) (fst (demo_start (w_nodes skipping)), Loop 0)))"
  using scheduler_terminates [OF skipping_valid skipping_entry, of demo_sessions demo_env] by blast

section \<open>All parties together\<close>

text \<open>C4: in every reachable state of a run of a validated workflow, whatever schedulers, decisions, cancellations, reports and
  restarts did before, a scheduler attempts a node only while all the nodes that the node needs are recorded in
  the store as completed, failed, skipped or canceled.
\<close>

theorem dependencies_finish_first:
  assumes "reachable w s" and "validateWorkflowGraph (w_nodes w) = None" and "jm_wf (w_nodes w)"
    and "Layer n fresh ids tasks \<in> set (s_threads s)" and "jm_get tasks i = Some (Attempting k)"
    and "d \<in> set (needs_of (w_nodes w) i)"
  shows "\<exists>st. status_of (s_stored s) d = Some st \<and> isTerminalNodeStatus st"
proof -
  obtain x where inv: "sys_inv w x s" using run_reachable_inv [OF assms(1,3)] by blast
  have l: "layer_ok w (s_stored s) (Layer n fresh ids tasks)" and sh: "shape (jm_keys (w_nodes w)) x (s_stored s)"
    using inv assms(4) by (auto simp: sys_inv_def)
  have "i \<in> set ids" using l jm_get_mem [OF assms(5)] by (force simp: layer_ok_def)
  then have t: "terminal_at (s_stored s) d" using l assms(6) by (simp add: layer_ok_def)
  have "i \<in> set (jm_keys (w_nodes w))"
    using assms(6) by (cases "jm_get (w_nodes w) i") (auto simp: needs_of_def set_jm_keys)
  then have "d \<in> set (jm_keys (w_nodes w))" using valid_closed [OF assms(2,3)] assms(6) by blast
  then have "status_of (s_stored s) d \<noteq> None" using keys_status [OF sh] by blast
  with t show ?thesis by (auto simp: terminal_at_def)
qed

text \<open>The course of one scheduler, as steps of the system.\<close>

definition sys_advance :: "workflow \<Rightarrow> sys \<Rightarrow> sys" where
  "sys_advance w s =
     (let (stored', ph') = demo_advance w (s_stored s, s_threads s ! 0)
      in s\<lparr>s_stored := stored', s_threads := (s_threads s)[0 := ph'], s_active := (s_active s \<and> \<not> ended ph')\<rparr>)"

lemma reachable_advance:
  assumes "reachable w s" and "s_threads s \<noteq> []" and "s_active s" and "tasks_ok w (s_threads s ! 0)" and "\<not> ended (s_threads s ! 0)"
  shows "reachable w (sys_advance w s)"
proof -
  let ?c = "(s_stored s, s_threads s ! 0)"
  obtain stored' ph' where a: "demo_advance w ?c = (stored', ph')" by fastforce
  have "sched_step w True ?c (stored', ph')"
    using advance_step [of w ?c demo_sessions demo_env] assms(4,5) by (simp add: a [symmetric] demo_advance_def)
  then have "sys_step w s (sys_advance w s)"
    using sys_step.sched [of 0 s w stored' ph'] assms(2,3) by (simp add: sys_advance_def a)
  with assms(1) show ?thesis by (rule reachable.step)
qed

text \<open>With the trigger rule \<open>all_done\<close> the second node is attempted after the first is skipped.\<close>

definition going_on :: workflow where
  "going_on = demo_workflow (two_step All_done)"

definition going_on_sys :: sys where
  "going_on_sys = initial_sys (w_nodes going_on) (\<lambda>_. []) [] ''run'' ''/w'' [] 0"

lemma going_on_steps:
  "s_threads going_on_sys \<noteq> [] \<and> s_active going_on_sys \<and> tasks_ok going_on (s_threads going_on_sys ! 0) \<and>
   \<not> ended (s_threads going_on_sys ! 0)"
  "let s = sys_advance going_on going_on_sys in
   s_threads s \<noteq> [] \<and> s_active s \<and> tasks_ok going_on (s_threads s ! 0) \<and> \<not> ended (s_threads s ! 0)"
  "let s = sys_advance going_on (sys_advance going_on going_on_sys) in
   s_threads s \<noteq> [] \<and> s_active s \<and> tasks_ok going_on (s_threads s ! 0) \<and> \<not> ended (s_threads s ! 0)"
  by code_simp+


definition going_on_late :: sys where
  "going_on_late = sys_advance going_on (sys_advance going_on (sys_advance going_on going_on_sys))"

lemma going_on_reachable: "reachable going_on going_on_late"
proof -
  have "reachable going_on going_on_sys" unfolding going_on_sys_def by (rule reachable.init)
  then show ?thesis
    unfolding going_on_late_def using going_on_steps [unfolded Let_def] by (auto intro!: reachable_advance)
qed

lemma going_on_layer:
  "case s_threads going_on_late of [Layer _ _ _ tasks] \<Rightarrow> jm_get tasks ''b'' = Some (Attempting 1) | _ \<Rightarrow> False"
  by code_simp

theorem dependencies_finish_first_witness:
  "(case s_threads going_on_late of [Layer _ _ _ tasks] \<Rightarrow> jm_get tasks ''b'' = Some (Attempting 1) | _ \<Rightarrow> False) \<and>
   (\<exists>st. status_of (s_stored going_on_late) ''a'' = Some st \<and> isTerminalNodeStatus st)"
proof -
  obtain n fresh ids tasks where l: "Layer n fresh ids tasks \<in> set (s_threads going_on_late)"
      and t: "jm_get tasks ''b'' = Some (Attempting 1)"
    using going_on_layer
    by (cases "s_threads going_on_late" rule: remdups_adj.cases) (auto split: phase.splits)
  have v: "validateWorkflowGraph (w_nodes going_on) = None" "jm_wf (w_nodes going_on)"
    using two_step_valid by (simp_all add: going_on_def demo_workflow_def)
  have "''a'' \<in> set (needs_of (w_nodes going_on) ''b'')" by code_simp
  from dependencies_finish_first [OF going_on_reachable v l t this] going_on_layer show ?thesis by blast
qed

text \<open>C6: outcomes are final. From a reachable state on, whatever the parties do: a run that has completed, failed or been
  canceled never becomes active again, a canceled run stays canceled, and a node that has reached one of its final
  statuses never leaves them.
\<close>

theorem outcomes_are_final:
  assumes "reachable w s" and "(sys_step w)\<^sup>*\<^sup>* s s'" and "jm_wf (w_nodes w)"
  shows "(isTerminalRunStatus (r_status (s_stored s)) \<longrightarrow> isTerminalRunStatus (r_status (s_stored s')))
    \<and> (r_status (s_stored s) = RCanceled \<longrightarrow> r_status (s_stored s') = RCanceled)
    \<and> (\<forall>i st. status_of (s_stored s) i = Some st \<and> isTerminalNodeStatus st \<longrightarrow>
         (\<exists>st'. status_of (s_stored s') i = Some st' \<and> isTerminalNodeStatus st'))"
proof -
  let ?K = "jm_keys (w_nodes w)"
  have K: "distinct ?K" using assms(3) by (simp add: jm_wf_def)
  obtain x where inv: "sys_inv w x s" using run_reachable_inv [OF assms(1,3)] by blast
  then have sh: "shape ?K x (s_stored s)" by (simp add: sys_inv_def)
  from assms(2) have "sys_inv w x s' \<and> by_saves ?K x (s_stored s) (s_stored s')"
  proof (induction rule: rtranclp_induct)
    case (step t t')
    then show ?case using sys_step_inv [OF step.hyps(2) _ assms(3)] sys_step_saves [OF step.hyps(2)] by_saves_trans by blast
  qed (simp add: inv)
  then have b: "by_saves ?K x (s_stored s) (s_stored s')" by blast
  have "\<exists>st'. status_of (s_stored s') i = Some st' \<and> isTerminalNodeStatus st'"
    if "status_of (s_stored s) i = Some st" "isTerminalNodeStatus st" for i st
  proof -
    have "terminal_at (s_stored s) i" using that by (simp add: terminal_at_def)
    then have t: "terminal_at (s_stored s') i" using by_saves_terminal [OF b sh K] by blast
    have "status_of (s_stored s') i \<noteq> None"
      using keys_status [OF sh, of i] keys_status [OF by_saves_shape [OF b sh], of i] that(1) by simp
    with t show ?thesis by (auto simp: terminal_at_def)
  qed
  then show ?thesis using by_saves_terminal_run [OF b K] by_saves_canceled [OF b K] by blast
qed

theorem outcomes_are_final_witness:
  "status_of (s_stored going_on_late) ''a'' = Some Skipped \<and>
   (\<exists>st'. status_of (s_stored (sys_advance going_on going_on_late)) ''a'' = Some st' \<and> isTerminalNodeStatus st')"
proof -
  have a: "status_of (s_stored going_on_late) ''a'' = Some Skipped" by code_simp
  have s: "s_threads going_on_late \<noteq> [] \<and> s_active going_on_late \<and> tasks_ok going_on (s_threads going_on_late ! 0) \<and>
      \<not> ended (s_threads going_on_late ! 0)" by code_simp
  have v: "jm_wf (w_nodes going_on)" using two_step_valid by (simp add: going_on_def demo_workflow_def)
  obtain stored' ph' where d: "demo_advance going_on (s_stored going_on_late, s_threads going_on_late ! 0) = (stored', ph')"
    by fastforce
  have "sched_step going_on True (s_stored going_on_late, s_threads going_on_late ! 0) (stored', ph')"
    using advance_step [of going_on "(s_stored going_on_late, s_threads going_on_late ! 0)" demo_sessions demo_env] s
    by (simp add: d [symmetric] demo_advance_def)
  then have "(sys_step going_on)\<^sup>*\<^sup>* going_on_late (sys_advance going_on going_on_late)"
    using sys_step.sched [of 0 going_on_late going_on stored' ph'] s by (simp add: sys_advance_def d r_into_rtranclp)
  from outcomes_are_final [OF going_on_reachable this v] a show ?thesis by simp
qed

section \<open>An approval that gets lost\<close>

text \<open>A workflow in which an approval and a command are in one layer, and the copy of the run that they share.\<close>

definition parallel :: definition_nodes where
  "parallel =
     [(''a'', plain_node (Approval ''ok?'' None None no_options) []), (''b'', plain_node (Shell (Some ''make'') None None) []),
      (''c'', plain_node (Shell (Some ''ship'') None None) [''a'', ''b''])]"

definition layer_copy :: run where
  "layer_copy =
     upd_node ''a'' (\<lambda>st. st\<lparr>ns_status := Blocked\<rparr>) (upd_node ''b'' (\<lambda>st. st\<lparr>ns_status := Running\<rparr>)
       ((initial_run parallel (\<lambda>_. []) [] ''run'' ''/w'' [] 0)\<lparr>r_status := RBlocked\<rparr>))"

definition granted :: decision where
  "granted = \<lparr>d_approved = True, d_decision = None, d_message = None, d_expectedActionDigest = None, d_feedback = None\<rparr>"

definition after_decision :: run where
  "after_decision = saved (decided_saves (decideApproval demo_env (jm_get parallel ''a'') No_revision id ''a'' granted layer_copy)) layer_copy"

definition after_command :: run where
  "after_command = saved (fst (snd (end_attempt demo_env ''b'' (snd (parallel ! 1)) 1 (Inr ([], [])) (layer_copy, [], Done None)))) after_decision"

lemma lost_facts:
  "r_status after_decision = RRunning \<and> status_of after_decision ''a'' = Some Completed"
  "map (\<lambda>(i, st). (i, ns_status st)) (r_nodes after_command) = [(''a'', Completed), (''b'', Completed), (''c'', Queued)]"
  "r_status after_command = RBlocked"
  by code_simp+


end
