(* ===== verification/Session_Replay.thy ===== *)
theory Session_Replay
  imports Json Dates
begin

text \<open>
  The replay buffer of a session (packages/daemon/src/server/ring-buffer.ts, replay-events.ts, replay-persistence.ts
  and replay-types.ts). A client that reconnects names the last sequence number it has seen and gets the updates
  after it: from a ring of the most recent updates, and from a list of the durable ones, which is also written to a
  journal file, so that it survives a restart of the daemon.

  Updates are JSON values. A file is modelled by what its lines parse to (\<open>None\<close> is a line that does not parse); the
  writes to files are queued and happen later, in order.
\<close>

section \<open>Entries\<close>

record replay_entry =
  en_seq :: rat
  en_sessionId :: string
  en_update :: json

definition prop_of :: "json \<Rightarrow> string \<Rightarrow> json option" where
  "prop_of u k = (case u of JObj fs \<Rightarrow> field fs k | _ \<Rightarrow> None)"

definition entryHasTimestamp :: "rat \<Rightarrow> replay_entry \<Rightarrow> bool" where
  "entryHasTimestamp cutoff e = (case prop_of (en_update e) ''timestamp'' of Some (JNum t) \<Rightarrow> t \<ge> cutoff | _ \<Rightarrow> False)"

definition durable_types :: "string list" where
  "durable_types =
     [''agent-message'', ''user-message'', ''tool-call'', ''tool-call-update'', ''token-usage'', ''state-change'',
      ''step-committed'', ''step-rollback'', ''step-branch-retry'', ''step-squash-merged'', ''permission-request'',
      ''permission-resolved'', ''attention'']"

definition isDurableUpdate :: "json \<Rightarrow> bool" where
  "isDurableUpdate u \<longleftrightarrow>
     (case as_str (prop_of u ''updateType'') of
        None \<Rightarrow> False
      | Some ty \<Rightarrow> is_num (prop_of u ''timestamp'') \<and> ty \<in> set durable_types)"

section \<open>History for display\<close>

datatype rich_message =
    Text_block string string string string \<comment> \<open>role, text, time, id\<close>
  | Tool_use string string json string string \<comment> \<open>tool id, name, input, time, id\<close>
  | Tool_result string string bool string string \<comment> \<open>tool id, output, error, time, id\<close>

text \<open>\<open>new Date(t)\<close> drops the fraction.\<close>

definition time_value :: "rat \<Rightarrow> int" where
  "time_value q = (if 0 \<le> q then \<lfloor>q\<rfloor> else \<lceil>q\<rceil>)"

definition updateTimestamp :: "int \<Rightarrow> json \<Rightarrow> string option" where
  "updateTimestamp now u =
     toISOString (case prop_of u ''timestamp'' of Some (JNum t) \<Rightarrow> time_value t | _ \<Rightarrow> now)"

definition is_object :: "json \<Rightarrow> bool" where
  "is_object j = (case j of JObj _ \<Rightarrow> True | JArr _ \<Rightarrow> True | _ \<Rightarrow> False)"

definition rich_block :: "(rat \<Rightarrow> string) \<Rightarrow> string \<Rightarrow> replay_entry \<Rightarrow> rich_message option" where
  "rich_block seq_text stamp e =
     (let u = en_update e; str = (\<lambda>k. as_str (prop_of u k)); uuid = ''replay-'' @ seq_text (en_seq e) in
      case str ''updateType'' of
        None \<Rightarrow> None
      | Some ty \<Rightarrow>
          if ty = ''user-message'' \<or> ty = ''agent-message'' then
            (case (str ''text'', str ''messageId'') of
               (Some t, Some i) \<Rightarrow> Some (Text_block (if ty = ''user-message'' then ''user'' else ''assistant'') t stamp i)
             | _ \<Rightarrow> None)
          else if ty = ''tool-call'' then
            (case (str ''toolCallId'', str ''toolName'') of
               (Some i, Some n) \<Rightarrow>
                 Some (Tool_use i n (case prop_of u ''input'' of Some j \<Rightarrow> if is_object j then j else JObj [] | None \<Rightarrow> JObj [])
                         stamp uuid)
             | _ \<Rightarrow> None)
          else if ty = ''tool-call-update'' then
            map_option (\<lambda>i. Tool_result i (case str ''output'' of Some t \<Rightarrow> t | None \<Rightarrow> [])
                (eq_str (prop_of u ''status'') ''error'') stamp uuid) (str ''toolCallId'')
          else None)"

text \<open>\<open>None\<close> is the \<open>RangeError\<close> of a time that \<open>Date\<close> cannot represent.\<close>

fun richMessagesFromUpdates :: "(rat \<Rightarrow> string) \<Rightarrow> int \<Rightarrow> replay_entry list \<Rightarrow> rich_message list option" where
  "richMessagesFromUpdates seq_text now [] = Some []"
| "richMessagesFromUpdates seq_text now (e # es) =
     Option.bind (updateTimestamp now (en_update e)) (\<lambda>stamp.
       map_option (\<lambda>bs. (case rich_block seq_text stamp e of Some b \<Rightarrow> b # bs | None \<Rightarrow> bs))
         (richMessagesFromUpdates seq_text now es))"

section \<open>Files\<close>

record replay_meta =
  me_sessionId :: string
  me_directoryId :: "json option"
  me_latestSeq :: rat
  me_updatedAt :: "json option"

text \<open>The journal and the meta file of every session, by file name.\<close>

record replay_files =
  f_journals :: "string \<Rightarrow> json option list option"
  f_metas :: "string \<Rightarrow> json option option"

definition safeSessionFileName :: "string \<Rightarrow> string" where
  "safeSessionFileName sessionId = encodeURIComponent sessionId"

definition readPersistedReplayMeta :: "string \<Rightarrow> replay_files \<Rightarrow> replay_meta option" where
  "readPersistedReplayMeta sessionId files =
     (case f_metas files (safeSessionFileName sessionId) of
        Some (Some (JObj m)) \<Rightarrow>
          (case field m ''latestSeq'' of
             Some (JNum q) \<Rightarrow>
               if eq_str (field m ''sessionId'') sessionId
               then Some \<lparr>me_sessionId = sessionId, me_directoryId = field m ''directoryId'', me_latestSeq = q,
                          me_updatedAt = field m ''updatedAt''\<rparr>
               else None
           | _ \<Rightarrow> None)
      | _ \<Rightarrow> None)"

text \<open>A line of the journal, if it continues the entries before it.\<close>

definition accept_line :: "string \<Rightarrow> rat \<Rightarrow> json option \<Rightarrow> replay_entry option" where
  "accept_line sessionId lastSeq line =
     (case line of
        Some (JObj m) \<Rightarrow>
          (case (field m ''seq'', field m ''update'') of
             (Some (JNum q), Some u) \<Rightarrow>
               if eq_str (field m ''sessionId'') sessionId \<and> q > lastSeq \<and> is_object u
               then Some \<lparr>en_seq = q, en_sessionId = sessionId, en_update = u\<rparr> else None
           | _ \<Rightarrow> None)
      | _ \<Rightarrow> None)"

fun load_lines :: "string \<Rightarrow> rat \<Rightarrow> json option list \<Rightarrow> replay_entry list \<times> bool" where
  "load_lines sessionId lastSeq [] = ([], False)"
| "load_lines sessionId lastSeq (line # lines) =
     (case accept_line sessionId lastSeq line of
        None \<Rightarrow> (fst (load_lines sessionId lastSeq lines), True)
      | Some e \<Rightarrow> apfst (Cons e) (load_lines sessionId (en_seq e) lines))"

definition loadPersistedJournalEntries :: "string \<Rightarrow> replay_files \<Rightarrow> replay_entry list \<times> bool" where
  "loadPersistedJournalEntries sessionId files =
     (case f_journals files (safeSessionFileName sessionId) of None \<Rightarrow> ([], False) | Some lines \<Rightarrow> load_lines sessionId 0 lines)"

definition entry_line :: "replay_entry \<Rightarrow> json option" where
  "entry_line e = Some (JObj [(''seq'', JNum (en_seq e)), (''sessionId'', JStr (en_sessionId e)), (''update'', en_update e)])"

definition appendPersistedJournalEntry :: "replay_entry \<Rightarrow> replay_files \<Rightarrow> replay_files" where
  "appendPersistedJournalEntry e files =
     (let f = safeSessionFileName (en_sessionId e); old = (case f_journals files f of Some ls \<Rightarrow> ls | None \<Rightarrow> [])
      in files\<lparr>f_journals := (f_journals files)(f := Some (old @ [entry_line e]))\<rparr>)"

definition rewritePersistedJournal :: "string \<Rightarrow> replay_entry list \<Rightarrow> replay_files \<Rightarrow> replay_files" where
  "rewritePersistedJournal sessionId entries files =
     files\<lparr>f_journals := (f_journals files)(safeSessionFileName sessionId := if entries = [] then None else Some (map entry_line entries))\<rparr>"

definition meta_json :: "replay_meta \<Rightarrow> json" where
  "meta_json m =
     JObj ([(''sessionId'', JStr (me_sessionId m))]
           @ (case me_directoryId m of Some d \<Rightarrow> [(''directoryId'', d)] | None \<Rightarrow> [])
           @ [(''latestSeq'', JNum (me_latestSeq m))]
           @ (case me_updatedAt m of Some t \<Rightarrow> [(''updatedAt'', t)] | None \<Rightarrow> []))"

definition writePersistedReplayMeta :: "replay_meta \<Rightarrow> replay_files \<Rightarrow> replay_files" where
  "writePersistedReplayMeta m files =
     files\<lparr>f_metas := (f_metas files)(safeSessionFileName (me_sessionId m) := Some (Some (meta_json m)))\<rparr>"

section \<open>The buffer\<close>

datatype persist_task =
    Append_journal replay_entry
  | Rewrite_journal string "replay_entry list"
  | Write_meta replay_meta

record ring_buffer =
  rb_buffer :: "replay_entry option list"
  rb_writeIndex :: nat
  rb_count :: nat
  rb_seq :: rat
  rb_maxSize :: nat
  rb_persistenceEnabled :: bool
  rb_durableTtlMs :: rat
  rb_maxDurableEntries :: nat
  rb_sessionId :: "string option"
  rb_directoryId :: "json option"
  rb_initialized :: bool
  rb_durableEntries :: "replay_entry list"
  rb_persistenceDisabled :: bool
  rb_persistenceQueue :: "persist_task list"

definition enqueuePersistence :: "persist_task \<Rightarrow> ring_buffer \<Rightarrow> ring_buffer" where
  "enqueuePersistence t r =
     (if \<not> rb_persistenceEnabled r \<or> rb_persistenceDisabled r then r
      else r\<lparr>rb_persistenceQueue := rb_persistenceQueue r @ [t]\<rparr>)"

definition persistMeta :: "int \<Rightarrow> ring_buffer \<Rightarrow> ring_buffer" where
  "persistMeta now r =
     (if truthy (rb_sessionId r)
      then enqueuePersistence (Write_meta \<lparr>me_sessionId = the (rb_sessionId r), me_directoryId = rb_directoryId r,
             me_latestSeq = rb_seq r, me_updatedAt = Some (JNum (of_int now))\<rparr>) r
      else r)"

definition rewriteDurableJournal :: "ring_buffer \<Rightarrow> ring_buffer" where
  "rewriteDurableJournal r =
     (if truthy (rb_sessionId r) then enqueuePersistence (Rewrite_journal (the (rb_sessionId r)) (rb_durableEntries r)) r else r)"

text \<open>\<open>xs.slice(-k)\<close>, which is all of \<open>xs\<close> for \<open>k = 0\<close>.\<close>

definition slice_end :: "nat \<Rightarrow> 'a list \<Rightarrow> 'a list" where
  "slice_end k xs = (if k = 0 then xs else last_n k xs)"

definition retain :: "rat \<Rightarrow> nat \<Rightarrow> int \<Rightarrow> replay_entry list \<Rightarrow> replay_entry list" where
  "retain ttl maxEntries now es =
     (let byTtl = filter (entryHasTimestamp (of_int now - ttl)) es
      in if length byTtl > maxEntries then slice_end maxEntries byTtl else byTtl)"

definition retained :: "int \<Rightarrow> ring_buffer \<Rightarrow> replay_entry list" where
  "retained now r = retain (rb_durableTtlMs r) (rb_maxDurableEntries r) now (rb_durableEntries r)"

definition compactDurableEntries :: "int \<Rightarrow> ring_buffer \<Rightarrow> ring_buffer" where
  "compactDurableEntries now r =
     (if rb_durableEntries r = [] \<or> \<not> truthy (rb_sessionId r) then r
      else if length (retained now r) = length (rb_durableEntries r) then r
      else rewriteDurableJournal (r\<lparr>rb_durableEntries := retained now r\<rparr>))"

text \<open>\<open>dir_ok\<close> says whether the directory of the files can be created.\<close>

definition ensureInitialized :: "replay_files \<Rightarrow> bool \<Rightarrow> int \<Rightarrow> string \<Rightarrow> ring_buffer \<Rightarrow> ring_buffer" where
  "ensureInitialized files dir_ok now sessionId r =
     (if rb_initialized r \<and> rb_sessionId r = Some sessionId then r
      else
        let r1 = r\<lparr>rb_initialized := True, rb_sessionId := Some sessionId\<rparr>
        in if \<not> rb_persistenceEnabled r then r1
           else if \<not> dir_ok then r1\<lparr>rb_persistenceDisabled := True\<rparr>
           else
             let meta = readPersistedReplayMeta sessionId files;
                 (entries, needsRewrite) = loadPersistedJournalEntries sessionId files;
                 r2 = r1\<lparr>rb_durableEntries := entries, rb_directoryId := Option.bind meta me_directoryId,
                         rb_seq := max (case meta of Some m \<Rightarrow> me_latestSeq m | None \<Rightarrow> 0)
                                       (if entries = [] then 0 else en_seq (last entries))\<rparr>;
                 r3 = (if needsRewrite then rewriteDurableJournal r2 else r2)
             in compactDurableEntries now r3)"

text \<open>\<open>new RingBuffer(maxSize, { sessionId, storageDir, durableTtlMs, maxDurableEntries })\<close>.\<close>

definition rb_new :: "replay_files \<Rightarrow> bool \<Rightarrow> int \<Rightarrow> nat \<Rightarrow> string option \<Rightarrow> bool \<Rightarrow> rat option \<Rightarrow> nat option \<Rightarrow> ring_buffer" where
  "rb_new files dir_ok now maxSize sessionId storageDir ttl maxDurable =
     (let r = \<lparr>rb_buffer = replicate maxSize None, rb_writeIndex = 0, rb_count = 0, rb_seq = 0, rb_maxSize = maxSize,
               rb_persistenceEnabled = (sessionId \<noteq> None \<or> storageDir),
               rb_durableTtlMs = (case ttl of Some t \<Rightarrow> t | None \<Rightarrow> 7 * 24 * 60 * 60 * 1000),
               rb_maxDurableEntries = (case maxDurable of Some m \<Rightarrow> m | None \<Rightarrow> 5000),
               rb_sessionId = None, rb_directoryId = None, rb_initialized = False, rb_durableEntries = [],
               rb_persistenceDisabled = False, rb_persistenceQueue = []\<rparr>
      in if truthy sessionId then ensureInitialized files dir_ok now (the sessionId) r else r)"

text \<open>The part of \<open>push\<close> that writes into the ring.\<close>

definition push_memory :: "replay_entry \<Rightarrow> ring_buffer \<Rightarrow> ring_buffer" where
  "push_memory e r =
     r\<lparr>rb_buffer := (rb_buffer r)[rb_writeIndex r := Some e],
       rb_writeIndex := (rb_writeIndex r + 1) mod rb_maxSize r,
       rb_count := (if rb_count r < rb_maxSize r then rb_count r + 1 else rb_count r)\<rparr>"

definition push_durable :: "int \<Rightarrow> replay_entry \<Rightarrow> ring_buffer \<Rightarrow> ring_buffer" where
  "push_durable now e r =
     (if isDurableUpdate (en_update e)
      then compactDurableEntries now (enqueuePersistence (Append_journal e) (r\<lparr>rb_durableEntries := rb_durableEntries r @ [e]\<rparr>))
      else r)"

definition push :: "replay_files \<Rightarrow> bool \<Rightarrow> int \<Rightarrow> string \<Rightarrow> json \<Rightarrow> ring_buffer \<Rightarrow> replay_entry \<times> ring_buffer" where
  "push files dir_ok now sessionId u r0 =
     (let r = ensureInitialized files dir_ok now sessionId r0;
          e = \<lparr>en_seq = rb_seq r + 1, en_sessionId = sessionId, en_update = u\<rparr>
      in (e, push_durable now e (persistMeta now (push_memory e (r\<lparr>rb_seq := rb_seq r + 1\<rparr>)))))"

definition setDirectoryId :: "int \<Rightarrow> string option \<Rightarrow> ring_buffer \<Rightarrow> ring_buffer" where
  "setDirectoryId now d r =
     (if \<not> truthy d \<or> map_option JStr d = rb_directoryId r then r
      else persistMeta now (r\<lparr>rb_directoryId := map_option JStr d\<rparr>))"

definition getMemoryEntries :: "ring_buffer \<Rightarrow> replay_entry list" where
  "getMemoryEntries r =
     List.map_filter (\<lambda>i. rb_buffer r ! ((rb_writeIndex r + rb_maxSize r - rb_count r + i) mod rb_maxSize r)) [0..<rb_count r]"

fun merge_entries :: "replay_entry list \<Rightarrow> replay_entry list \<Rightarrow> replay_entry list" where
  "merge_entries merged [] = merged"
| "merge_entries merged (e # es) =
     merge_entries (if en_seq e \<in> en_seq ` set merged then merged else merged @ [e]) es"

definition getMergedEntries :: "ring_buffer \<Rightarrow> replay_entry list" where
  "getMergedEntries r = sort_key en_seq (merge_entries (rb_durableEntries r) (getMemoryEntries r))"

definition getAfter :: "rat \<Rightarrow> ring_buffer \<Rightarrow> replay_entry list" where
  "getAfter lastSeq r = filter (\<lambda>e. en_seq e > lastSeq) (getMergedEntries r)"

record replay_window =
  win_entries :: "replay_entry list"
  win_dropped :: bool
  win_requested :: rat
  win_earliest :: rat
  win_latest :: rat

definition getReplayWindow :: "rat \<Rightarrow> ring_buffer \<Rightarrow> replay_window" where
  "getReplayWindow lastSeq r =
     (let requested = max 0 lastSeq; entries = getMergedEntries r;
          earliest = (if entries = [] then 0 else en_seq (hd entries)); latest = rb_seq r;
          dropped = (requested > 0 \<and> earliest > 0 \<and> requested < earliest - 1)
      in if entries = [] \<and> latest = 0
         then \<lparr>win_entries = [], win_dropped = False, win_requested = requested, win_earliest = 0, win_latest = 0\<rparr>
         else \<lparr>win_entries = getAfter (if dropped then earliest - 1 else requested) r, win_dropped = dropped,
               win_requested = requested, win_earliest = earliest, win_latest = latest\<rparr>)"

text \<open>The queued writes, in order. A write that fails disables the rest.\<close>

definition run_task :: "persist_task \<Rightarrow> replay_files \<Rightarrow> replay_files" where
  "run_task t files =
     (case t of
        Append_journal e \<Rightarrow> appendPersistedJournalEntry e files
      | Rewrite_journal sid es \<Rightarrow> rewritePersistedJournal sid es files
      | Write_meta m \<Rightarrow> writePersistedReplayMeta m files)"

fun flush :: "(persist_task \<Rightarrow> bool) \<Rightarrow> ring_buffer \<Rightarrow> persist_task list \<Rightarrow> replay_files \<Rightarrow> bool \<times> replay_files" where
  "flush succeeds r [] files = (rb_persistenceDisabled r, files)"
| "flush succeeds r (t # ts) files =
     (if rb_persistenceDisabled r then (True, files)
      else if succeeds t then flush succeeds r ts (run_task t files)
      else (True, files))"

definition flushPersistence :: "(persist_task \<Rightarrow> bool) \<Rightarrow> ring_buffer \<Rightarrow> replay_files \<Rightarrow> ring_buffer \<times> replay_files" where
  "flushPersistence succeeds r files =
     (let (disabled, files') = flush succeeds r (rb_persistenceQueue r) files
      in (r\<lparr>rb_persistenceQueue := [], rb_persistenceDisabled := disabled\<rparr>, files'))"

section \<open>The ring is a log of the most recent entries\<close>

text \<open>The contract of a log that keeps the last \<open>cap\<close> entries.\<close>

locale recent_log =
  fixes add :: "'e \<Rightarrow> 'r \<Rightarrow> 'r" and entries :: "'r \<Rightarrow> 'e list" and cap :: "'r \<Rightarrow> nat" and ok :: "'r \<Rightarrow> bool"
  assumes ok_add: "ok r \<Longrightarrow> ok (add e r)"
    and cap_add: "cap (add e r) = cap r"
    and entries_add: "ok r \<Longrightarrow> entries (add e r) = last_n (cap r) (entries r @ [e])"
begin

lemma ok_fold: "ok r \<Longrightarrow> ok (fold add es r) \<and> cap (fold add es r) = cap r"
  by (induction es rule: rev_induct) (auto simp: ok_add cap_add)

lemma entries_fold:
  "ok r \<Longrightarrow> length (entries r) \<le> cap r \<Longrightarrow> entries (fold add es r) = last_n (cap r) (entries r @ es)"
proof (induction es rule: rev_induct)
  case (snoc e es)
  with ok_fold [OF snoc.prems(1), of es] show ?case by (simp add: entries_add last_n_last_n_append)
qed (simp add: last_n_all)

end

definition slot :: "ring_buffer \<Rightarrow> nat \<Rightarrow> replay_entry option" where
  "slot r i = rb_buffer r ! ((rb_writeIndex r + rb_maxSize r - rb_count r + i) mod rb_maxSize r)"

definition ring_ok :: "ring_buffer \<Rightarrow> bool" where
  "ring_ok r \<longleftrightarrow>
     0 < rb_maxSize r \<and> length (rb_buffer r) = rb_maxSize r \<and> rb_writeIndex r < rb_maxSize r \<and> rb_count r \<le> rb_maxSize r \<and>
     (\<forall>i < rb_count r. slot r i \<noteq> None)"

lemma memory_map:
  assumes "ring_ok r"
  shows "getMemoryEntries r = map (the \<circ> slot r) [0..<rb_count r]"
proof -
  have "List.map_filter (slot r) is = map (the \<circ> slot r) is" if "\<forall>i \<in> set is. slot r i \<noteq> None" for "is"
    using that by (induction "is") (auto simp: List.map_filter_def)
  from this [of "[0..<rb_count r]"] assms have "List.map_filter (slot r) [0..<rb_count r] = map (the \<circ> slot r) [0..<rb_count r]"
    by (simp add: ring_ok_def)
  then show ?thesis unfolding getMemoryEntries_def slot_def [abs_def] .
qed

lemma slot_add:
  assumes "ring_ok r" and "i < rb_count (push_memory e r)"
  shows "slot (push_memory e r) i =
    (if Suc i = rb_count (push_memory e r) then Some e else slot r (if rb_count r < rb_maxSize r then i else Suc i))"
proof -
  let ?m = "rb_maxSize r" and ?w = "rb_writeIndex r" and ?c = "rb_count r" and ?b = "rb_buffer r"
  have m: "0 < ?m" "?w < ?m" "?c \<le> ?m" "length ?b = ?m" using assms(1) by (auto simp: ring_ok_def)
  have upd: "?b[?w := Some e] ! ((?w + k) mod ?m) = (if k = ?m then Some e else ?b ! ((?w + k) mod ?m))" if "0 < k" "k \<le> ?m" for k
  proof -
    have "(?w + k) mod ?m = ?w \<longleftrightarrow> k = ?m"
      using that m by (cases "?w + k < ?m") (auto simp: mod_if)
    then show ?thesis using m by (auto simp: nth_list_update)
  qed
  have shift: "((?w + 1) mod ?m + ?m - n + i) mod ?m = (?w + (1 + ?m - n + i)) mod ?m" if "n \<le> ?m" for n
  proof -
    have "(?w + 1) mod ?m + ?m - n + i = (?w + 1) mod ?m + (?m - n + i)" using that by linarith
    then have "((?w + 1) mod ?m + ?m - n + i) mod ?m = ((?w + 1) mod ?m + (?m - n + i)) mod ?m" by (simp only:)
    also have "\<dots> = (?w + 1 + (?m - n + i)) mod ?m" by (rule mod_add_left_eq)
    also have "?w + 1 + (?m - n + i) = ?w + (1 + ?m - n + i)" using that by simp
    finally show ?thesis .
  qed
  have "rb_count (push_memory e r) \<le> ?m" using m by (simp add: push_memory_def)
  from shift [OF this]
  have new: "slot (push_memory e r) i = ?b[?w := Some e] ! ((?w + (1 + ?m - rb_count (push_memory e r) + i)) mod ?m)"
    unfolding slot_def by (simp add: push_memory_def)
  have old: "slot r j = ?b ! ((?w + (?m - ?c + j)) mod ?m)" for j
  proof -
    have "?w + ?m - ?c + j = ?w + (?m - ?c + j)" using m by linarith
    then show ?thesis by (simp only: slot_def)
  qed
  show ?thesis
  proof (cases "?c < ?m")
    case True
    then have n: "rb_count (push_memory e r) = Suc ?c" by (simp add: push_memory_def)
    then have i: "i \<le> ?c" using assms(2) by simp
    define k where "k = ?m - ?c + i"
    have k: "1 + ?m - Suc ?c + i = k" "0 < k" "k \<le> ?m" "k = ?m \<longleftrightarrow> i = ?c" using True i by (auto simp: k_def)
    have "slot (push_memory e r) i = ?b[?w := Some e] ! ((?w + k) mod ?m)" "slot r i = ?b ! ((?w + k) mod ?m)"
      by (simp_all only: new n k(1) old k_def)
    then show ?thesis using upd [OF k(2,3)] True by (simp add: n k(4))
  next
    case False
    then have n: "rb_count (push_memory e r) = ?m" "?c = ?m" using m by (auto simp: push_memory_def)
    then have i: "Suc i \<le> ?m" using assms(2) by simp
    have "1 + ?m - ?m + i = Suc i" "?m - ?m + Suc i = Suc i" by simp_all
    then have "slot (push_memory e r) i = ?b[?w := Some e] ! ((?w + Suc i) mod ?m)" "slot r (Suc i) = ?b ! ((?w + Suc i) mod ?m)"
      by (simp_all only: new n old)
    then show ?thesis using upd [OF _ i] by (simp only: n) simp
  qed
qed

interpretation ring: recent_log push_memory getMemoryEntries rb_maxSize ring_ok
proof unfold_locales
  fix r e
  let ?n = "rb_count (push_memory e r)"
  assume ok: "ring_ok r"
  have n: "?n = (if rb_count r < rb_maxSize r then Suc (rb_count r) else rb_count r)" by (simp add: push_memory_def)
  have c: "rb_count r \<le> rb_maxSize r" "0 < rb_maxSize r" using ok by (auto simp: ring_ok_def)
  have "slot (push_memory e r) i \<noteq> None" if "i < ?n" for i
    using slot_add [OF ok that] ok that c by (auto simp: ring_ok_def n split: if_splits)
  then show ok': "ring_ok (push_memory e r)" using ok by (auto simp: ring_ok_def push_memory_def)
  have "getMemoryEntries (push_memory e r) = map (the \<circ> slot (push_memory e r)) [0..<?n]" using memory_map [OF ok'] .
  also have "\<dots> = map (the \<circ> (\<lambda>i. if Suc i = ?n then Some e else slot r (if rb_count r < rb_maxSize r then i else Suc i))) [0..<?n]"
    using slot_add [OF ok] by simp
  also have "\<dots> = last_n (rb_maxSize r) (getMemoryEntries r @ [e])"
  proof (cases "rb_count r < rb_maxSize r")
    case True
    then show ?thesis by (simp add: n memory_map [OF ok] last_n_snoc c(2))
  next
    case False
    then obtain k where k: "rb_count r = Suc k" "rb_maxSize r = Suc k" using c by (metis Suc_pred le_neq_implies_less)
    have "map (the \<circ> (\<lambda>i. if Suc i = ?n then Some e else slot r (if rb_count r < rb_maxSize r then i else Suc i))) [0..<?n] =
        map (the \<circ> slot r \<circ> Suc) [0..<k] @ [e]"
      by (simp add: n k)
    also have "map (the \<circ> slot r \<circ> Suc) [0..<k] = drop (Suc 0) (map (the \<circ> slot r) [0..<Suc k])"
      by (simp only: drop_map drop_upt add_0 map_Suc_upt [symmetric] map_map)
    also have "\<dots> @ [e] = last_n (rb_maxSize r) (map (the \<circ> slot r) [0..<Suc k] @ [e])"
      using last_n_snoc [of "Suc k" "map (the \<circ> slot r) [0..<Suc k]" e] by (simp only: k length_map length_upt) simp
    finally show ?thesis by (simp only: memory_map [OF ok] k)
  qed
  finally show "getMemoryEntries (push_memory e r) = last_n (rb_maxSize r) (getMemoryEntries r @ [e])" .
next
  show "rb_maxSize (push_memory e r) = rb_maxSize r" for e r by (simp add: push_memory_def)
qed

section \<open>What a push does\<close>

lemma memory_fields [simp]:
  "getMemoryEntries (r\<lparr>rb_persistenceQueue := q\<rparr>) = getMemoryEntries r" "getMemoryEntries (r\<lparr>rb_durableEntries := d\<rparr>) = getMemoryEntries r"
  "getMemoryEntries (r\<lparr>rb_seq := n\<rparr>) = getMemoryEntries r"
  "ring_ok (r\<lparr>rb_persistenceQueue := q\<rparr>) = ring_ok r" "ring_ok (r\<lparr>rb_durableEntries := d\<rparr>) = ring_ok r"
  "ring_ok (r\<lparr>rb_seq := n\<rparr>) = ring_ok r"
  "getMemoryEntries (r\<lparr>rb_directoryId := d'\<rparr>) = getMemoryEntries r" "ring_ok (r\<lparr>rb_directoryId := d'\<rparr>) = ring_ok r"
  "getMemoryEntries (r\<lparr>rb_persistenceDisabled := b\<rparr>) = getMemoryEntries r" "ring_ok (r\<lparr>rb_persistenceDisabled := b\<rparr>) = ring_ok r"
  by (simp_all add: getMemoryEntries_def ring_ok_def slot_def)

definition same_settings :: "ring_buffer \<Rightarrow> ring_buffer \<Rightarrow> bool" where
  "same_settings r r' \<longleftrightarrow>
     rb_maxSize r' = rb_maxSize r \<and> rb_persistenceEnabled r' = rb_persistenceEnabled r \<and> rb_durableTtlMs r' = rb_durableTtlMs r \<and>
     rb_maxDurableEntries r' = rb_maxDurableEntries r \<and> rb_sessionId r' = rb_sessionId r \<and> rb_initialized r' = rb_initialized r \<and>
     rb_persistenceDisabled r' = rb_persistenceDisabled r"

lemma enqueue_simps [simp]:
  "getMemoryEntries (enqueuePersistence t r) = getMemoryEntries r" "ring_ok (enqueuePersistence t r) = ring_ok r"
  "rb_seq (enqueuePersistence t r) = rb_seq r" "rb_durableEntries (enqueuePersistence t r) = rb_durableEntries r"
  "rb_directoryId (enqueuePersistence t r) = rb_directoryId r"
  "same_settings q (enqueuePersistence t r) = same_settings q r"
  "rb_sessionId (enqueuePersistence t r) = rb_sessionId r" "rb_durableTtlMs (enqueuePersistence t r) = rb_durableTtlMs r"
  "rb_maxDurableEntries (enqueuePersistence t r) = rb_maxDurableEntries r"
  by (simp_all add: enqueuePersistence_def same_settings_def)

lemma persistMeta_simps [simp]:
  "getMemoryEntries (persistMeta now r) = getMemoryEntries r" "ring_ok (persistMeta now r) = ring_ok r"
  "rb_seq (persistMeta now r) = rb_seq r" "rb_durableEntries (persistMeta now r) = rb_durableEntries r"
  "same_settings q (persistMeta now r) = same_settings q r" "rb_sessionId (persistMeta now r) = rb_sessionId r"
  "rb_durableTtlMs (persistMeta now r) = rb_durableTtlMs r" "rb_maxDurableEntries (persistMeta now r) = rb_maxDurableEntries r"
  by (simp_all add: persistMeta_def)

lemma rewrite_simps [simp]:
  "getMemoryEntries (rewriteDurableJournal r) = getMemoryEntries r" "ring_ok (rewriteDurableJournal r) = ring_ok r"
  "rb_seq (rewriteDurableJournal r) = rb_seq r" "rb_durableEntries (rewriteDurableJournal r) = rb_durableEntries r"
  "same_settings q (rewriteDurableJournal r) = same_settings q r" "rb_sessionId (rewriteDurableJournal r) = rb_sessionId r"
  by (simp_all add: rewriteDurableJournal_def)

lemma retain_same: "length (retain ttl mx now es) = length es \<Longrightarrow> retain ttl mx now es = es"
proof -
  assume l: "length (retain ttl mx now es) = length es"
  let ?f = "filter (entryHasTimestamp (of_int now - ttl)) es"
  have "length (retain ttl mx now es) \<le> length ?f" by (auto simp: retain_def slice_end_def Let_def)
  then have "length ?f = length es" using l length_filter_le [of _ es] by (metis le_antisym)
  then have f: "?f = es" by (metis length_filter_less filter_True less_irrefl)
  then show ?thesis using l by (auto simp: retain_def slice_end_def Let_def split: if_splits)
qed

lemma compact_simps [simp]:
  "getMemoryEntries (compactDurableEntries now r) = getMemoryEntries r" "ring_ok (compactDurableEntries now r) = ring_ok r"
  "rb_seq (compactDurableEntries now r) = rb_seq r" "same_settings q (compactDurableEntries now r) = same_settings q r"
  "rb_directoryId (compactDurableEntries now r) = rb_directoryId r"
  by (auto simp: compactDurableEntries_def rewriteDurableJournal_def same_settings_def enqueuePersistence_def split: option.splits)

lemma retain_Nil [simp]: "retain ttl mx now [] = []"
  by (simp add: retain_def slice_end_def Let_def)

lemma compact_durable: "truthy (rb_sessionId r) \<Longrightarrow> rb_durableEntries (compactDurableEntries now r) = retained now r"
  using retain_same [of "rb_durableTtlMs r" "rb_maxDurableEntries r" now "rb_durableEntries r"]
  by (auto simp: compactDurableEntries_def rewriteDurableJournal_def retained_def)

definition in_session :: "string \<Rightarrow> ring_buffer \<Rightarrow> bool" where
  "in_session sid r \<longleftrightarrow> rb_initialized r \<and> rb_sessionId r = Some sid \<and> sid \<noteq> []"

lemma in_session_settings: "same_settings r r' \<Longrightarrow> in_session sid r \<Longrightarrow> in_session sid r'"
  by (simp add: same_settings_def in_session_def)

lemma push_memory_settings [simp]: "same_settings q (push_memory e r) = same_settings q r" "rb_seq (push_memory e r) = rb_seq r"
  "rb_durableEntries (push_memory e r) = rb_durableEntries r" "rb_sessionId (push_memory e r) = rb_sessionId r"
  "rb_durableTtlMs (push_memory e r) = rb_durableTtlMs r" "rb_maxDurableEntries (push_memory e r) = rb_maxDurableEntries r"
  by (simp_all add: push_memory_def same_settings_def)

lemma same_settings_seq [simp]: "same_settings q (r\<lparr>rb_seq := n\<rparr>) = same_settings q r"
  "same_settings q (r\<lparr>rb_durableEntries := d\<rparr>) = same_settings q r" "same_settings r r"
  "same_settings q (r\<lparr>rb_directoryId := d'\<rparr>) = same_settings q r"
  by (simp_all add: same_settings_def)

lemma push_effect:
  assumes "push files ok now sid u r = (e, r')" and "in_session sid r" and "ring_ok r"
  shows "e = \<lparr>en_seq = rb_seq r + 1, en_sessionId = sid, en_update = u\<rparr>" and "rb_seq r' = rb_seq r + 1" and "same_settings r r'"
    and "ring_ok r'" and "getMemoryEntries r' = last_n (rb_maxSize r) (getMemoryEntries r @ [e])"
    and "rb_durableEntries r' = (if isDurableUpdate u
           then retain (rb_durableTtlMs r) (rb_maxDurableEntries r) now (rb_durableEntries r @ [e]) else rb_durableEntries r)"
proof -
  have i: "ensureInitialized files ok now sid r = r" using assms(2) by (simp add: ensureInitialized_def in_session_def)
  have s: "truthy (rb_sessionId r)" using assms(2) by (simp add: in_session_def truthy_def)
  let ?r = "r\<lparr>rb_seq := rb_seq r + 1\<rparr>"
  let ?q = "persistMeta now (push_memory e ?r)"
  show e: "e = \<lparr>en_seq = rb_seq r + 1, en_sessionId = sid, en_update = u\<rparr>" using assms(1) by (simp add: push_def i Let_def)
  have r': "r' = push_durable now e ?q" using assms(1) by (auto simp: push_def i Let_def)
  show "rb_seq r' = rb_seq r + 1" "same_settings r r'" by (simp_all add: r' push_durable_def)
  have ok: "ring_ok ?r" using assms(3) by simp
  show "ring_ok r'" using ring.ok_add [OF ok, of e] by (simp add: r' push_durable_def)
  show "getMemoryEntries r' = last_n (rb_maxSize r) (getMemoryEntries r @ [e])"
    using ring.entries_add [OF ok, of e] by (simp add: r' push_durable_def)
  show "rb_durableEntries r' = (if isDurableUpdate u
      then retain (rb_durableTtlMs r) (rb_maxDurableEntries r) now (rb_durableEntries r @ [e]) else rb_durableEntries r)"
    by (simp add: r' push_durable_def e compact_durable s retained_def)
qed

text \<open>A sequence of pushes; every update comes with its time.\<close>

fun push_all :: "replay_files \<Rightarrow> bool \<Rightarrow> string \<Rightarrow> (json \<times> int) list \<Rightarrow> ring_buffer \<Rightarrow> replay_entry list \<times> ring_buffer" where
  "push_all files ok sid [] r = ([], r)"
| "push_all files ok sid ((u, now) # us) r =
     (let (e, r1) = push files ok now sid u r; (es, r2) = push_all files ok sid us r1 in (e # es, r2))"

section \<open>Journals in order\<close>

definition stamp :: "replay_entry \<Rightarrow> rat" where
  "stamp e = (case prop_of (en_update e) ''timestamp'' of Some (JNum t) \<Rightarrow> t | _ \<Rightarrow> 0)"

definition stamped :: "replay_entry \<Rightarrow> bool" where
  "stamped e \<longleftrightarrow> is_num (prop_of (en_update e) ''timestamp'')"

lemma has_timestamp: "entryHasTimestamp c e \<longleftrightarrow> stamped e \<and> c \<le> stamp e"
  by (auto simp: entryHasTimestamp_def stamped_def stamp_def is_num_def split: option.splits json.splits)

lemma durable_stamped: "isDurableUpdate (en_update e) \<Longrightarrow> stamped e"
  by (auto simp: isDurableUpdate_def stamped_def split: option.splits)

lemma sorted_filter_suffix: "sorted (map f xs) \<Longrightarrow> \<exists>p. xs = p @ filter (\<lambda>x. c \<le> f x) xs" for f :: "'a \<Rightarrow> 'b :: linorder"
proof (induction xs)
  case (Cons x xs)
  show ?case
  proof (cases "c \<le> f x")
    case True
    then have "filter (\<lambda>x. c \<le> f x) xs = xs" using Cons.prems by (auto intro!: filter_True)
    with True show ?thesis by (intro exI [of _ "[]"]) simp
  next
    case False
    from Cons obtain p where "xs = p @ filter (\<lambda>x. c \<le> f x) xs" by auto
    with False show ?thesis by (intro exI [of _ "x # p"]) simp
  qed
qed simp

lemma retain_part: "\<exists>q. filter (entryHasTimestamp (of_int now - ttl)) es = q @ retain ttl mx now es"
proof -
  let ?f = "filter (entryHasTimestamp (of_int now - ttl)) es"
  have "retain ttl mx now es = ?f \<or> retain ttl mx now es = last_n mx ?f" by (simp add: retain_def slice_end_def Let_def)
  then show ?thesis using last_n_suffix [of ?f mx] by (metis append_Nil)
qed

lemma retain_suffix:
  assumes "sorted (map stamp es)" and "\<forall>e \<in> set es. stamped e"
  shows "\<exists>p. es = p @ retain ttl mx now es"
proof -
  let ?c = "of_int now - ttl"
  have f: "filter (entryHasTimestamp ?c) es = filter (\<lambda>e. ?c \<le> stamp e) es" using assms(2) by (auto simp: has_timestamp intro!: filter_cong)
  obtain p where p: "es = p @ filter (entryHasTimestamp ?c) es" using sorted_filter_suffix [OF assms(1), of ?c] unfolding f by blast
  with retain_part [of now ttl es mx] show ?thesis by (metis append.assoc)
qed

lemma retain_mem: "e \<in> set (retain ttl mx now es) \<Longrightarrow> e \<in> set es \<and> stamped e"
proof -
  assume "e \<in> set (retain ttl mx now es)"
  moreover obtain q where "filter (entryHasTimestamp (of_int now - ttl)) es = q @ retain ttl mx now es" using retain_part by blast
  ultimately have "e \<in> set (filter (entryHasTimestamp (of_int now - ttl)) es)" by simp
  then show ?thesis by (simp add: has_timestamp)
qed

text \<open>Entries of a session in the order of their sequence numbers.\<close>

definition ordered :: "replay_entry list \<Rightarrow> bool" where
  "ordered es \<longleftrightarrow> sorted_wrt (\<lambda>a b. en_seq a < en_seq b) es"

lemma ordered_append: "ordered (xs @ ys) \<longleftrightarrow> ordered xs \<and> ordered ys \<and> (\<forall>x \<in> set xs. \<forall>y \<in> set ys. en_seq x < en_seq y)"
  by (auto simp: ordered_def sorted_wrt_append)

lemma ordered_filter: "ordered es \<Longrightarrow> ordered (filter P es)"
  by (simp add: ordered_def sorted_wrt_filter)

lemma ordered_retain: "ordered es \<Longrightarrow> ordered (retain ttl mx now es)"
  using retain_part [of now ttl es mx] ordered_filter by (metis ordered_append)

lemma ordered_inj: "ordered es \<Longrightarrow> x \<in> set es \<Longrightarrow> y \<in> set es \<Longrightarrow> en_seq x = en_seq y \<Longrightarrow> x = y"
  by (induction es) (auto simp: ordered_def)

lemma merge_entries_set:
  assumes "\<And>x y. x \<in> T \<Longrightarrow> y \<in> T \<Longrightarrow> en_seq x = en_seq y \<Longrightarrow> x = y" and "set ds \<union> set es \<subseteq> T" and "distinct (map en_seq ds)"
  shows "set (merge_entries ds es) = set ds \<union> set es \<and> distinct (map en_seq (merge_entries ds es))"
  using assms(2,3)
proof (induction es arbitrary: ds)
  case (Cons e es)
  show ?case
  proof (cases "en_seq e \<in> en_seq ` set ds")
    case True
    then obtain d where d: "d \<in> set ds" "en_seq d = en_seq e" by (metis imageE)
    then have "d = e" using assms(1) [of d e] Cons.prems(1) by auto
    with d have "e \<in> set ds" by simp
    then have "set ds \<union> set (e # es) = set ds \<union> set es" by auto
    with True Cons.IH [of ds] Cons.prems show ?thesis by simp
  next
    case False
    with Cons.IH [of "ds @ [e]"] Cons.prems show ?thesis by auto
  qed
qed simp

lemma ordered_sort: "distinct (map en_seq es) \<Longrightarrow> ordered (sort_key en_seq es)"
proof -
  assume "distinct (map en_seq es)"
  then have "distinct (map en_seq (sort_key en_seq es))" by (simp add: distinct_map)
  moreover have "sorted (map en_seq (sort_key en_seq es))" by simp
  ultimately have "sorted_wrt (<) (map en_seq (sort_key en_seq es))" by (simp add: strict_sorted_iff)
  then show ?thesis by (simp add: ordered_def sorted_wrt_map)
qed

lemma merged_entries:
  assumes "ordered T" and "set (rb_durableEntries r) \<subseteq> set T" and "set (getMemoryEntries r) \<subseteq> set T" and "ordered (rb_durableEntries r)"
  shows "set (getMergedEntries r) = set (rb_durableEntries r) \<union> set (getMemoryEntries r) \<and> ordered (getMergedEntries r)"
proof -
  have "distinct (map en_seq (rb_durableEntries r))"
    using assms(4) strict_sorted_iff [of "map en_seq (rb_durableEntries r)"] by (simp add: ordered_def sorted_wrt_map)
  moreover have "set (rb_durableEntries r) \<union> set (getMemoryEntries r) \<subseteq> set T" using assms(2,3) by simp
  ultimately have "set (merge_entries (rb_durableEntries r) (getMemoryEntries r)) = set (rb_durableEntries r) \<union> set (getMemoryEntries r) \<and>
      distinct (map en_seq (merge_entries (rb_durableEntries r) (getMemoryEntries r)))"
    using merge_entries_set [of "set T"] ordered_inj [OF assms(1)] by blast
  then show ?thesis using ordered_sort by (simp add: getMergedEntries_def)
qed

text \<open>The window is what is available after the requested number, whether or not a part was dropped.\<close>

lemma window_entries:
  assumes "ordered (getMergedEntries r)" and "\<forall>e \<in> set (getMergedEntries r). 0 < en_seq e"
  shows "win_entries (getReplayWindow lastSeq r) = filter (\<lambda>e. en_seq e > max 0 lastSeq) (getMergedEntries r)"
proof (cases "getMergedEntries r")
  case Nil
  then show ?thesis by (simp add: getReplayWindow_def getAfter_def Let_def)
next
  case (Cons x xs)
  have "\<forall>e \<in> set (getMergedEntries r). en_seq x \<le> en_seq e" using assms(1) by (auto simp: Cons ordered_def)
  then have d: "getAfter (en_seq x - 1) r = filter (\<lambda>e. en_seq e > max 0 lastSeq) (getMergedEntries r)" if "max 0 lastSeq < en_seq x - 1"
    unfolding getAfter_def using that by (intro filter_cong) force+
  show ?thesis
  proof (cases "0 < max 0 lastSeq \<and> 0 < en_seq x \<and> max 0 lastSeq < en_seq x - 1")
    case True
    then show ?thesis using d by (simp add: getReplayWindow_def Let_def Cons)
  next
    case False
    then have "win_entries (getReplayWindow lastSeq r) = getAfter (max 0 lastSeq) r"
      by (simp only: getReplayWindow_def Let_def Cons list.sel list.distinct if_False simp_thms replay_window.simps)
    then show ?thesis by (simp only: getAfter_def)
  qed
qed

section \<open>A session of pushes\<close>

abbreviation durables :: "replay_entry list \<Rightarrow> replay_entry list" where
  "durables es \<equiv> filter (\<lambda>e. isDurableUpdate (en_update e)) es"

text \<open>What holds of the durable entries of a buffer.\<close>

definition journal_ok :: "ring_buffer \<Rightarrow> bool" where
  "journal_ok r \<longleftrightarrow> ordered (rb_durableEntries r) \<and> (\<forall>e \<in> set (rb_durableEntries r). stamped e \<and> 0 < en_seq e \<and> en_seq e \<le> rb_seq r)"

lemma push_journal:
  assumes "push files ok now sid u r = (e, r')" and "in_session sid r" and "ring_ok r" and "journal_ok r"
    and "sorted (map stamp (rb_durableEntries r @ durables [e]))" and "0 \<le> rb_seq r"
  shows "journal_ok r' \<and> (\<exists>p. rb_durableEntries r @ durables [e] = p @ rb_durableEntries r')"
proof -
  note p = push_effect [OF assms(1-3)]
  let ?D = "rb_durableEntries r" and ?R = "retain (rb_durableTtlMs r) (rb_maxDurableEntries r) now (rb_durableEntries r @ [e])"
  have e: "en_seq e = rb_seq r + 1" "en_update e = u" using p(1) by simp_all
  have D: "\<forall>d \<in> set ?D. stamped d \<and> 0 < en_seq d \<and> en_seq d \<le> rb_seq r" "ordered ?D" using assms(4) by (auto simp: journal_ok_def)
  have step: "x \<le> rb_seq r \<Longrightarrow> x \<le> rb_seq r + 1" "x \<le> rb_seq r \<Longrightarrow> x < rb_seq r + 1" for x by linarith+
  show ?thesis
  proof (cases "isDurableUpdate u")
    case True
    have st: "\<forall>d \<in> set (?D @ [e]). stamped d" using D(1) durable_stamped [of e] True e(2) by auto
    have "\<forall>d \<in> set ?D. en_seq d < rb_seq r + 1" using D(1) step(2) by blast
    then have "ordered (?D @ [e])" using D(2) by (simp add: ordered_append e) (simp add: ordered_def)
    then have "ordered ?R" by (rule ordered_retain)
    moreover have "\<forall>d \<in> set ?R. stamped d \<and> 0 < en_seq d \<and> en_seq d \<le> rb_seq r + 1"
      using retain_mem D(1) step assms(6) by (fastforce simp: e)
    moreover have "\<exists>q. ?D @ [e] = q @ ?R" using retain_suffix [OF _ st] assms(5) True e(2) by simp
    ultimately show ?thesis using p(2,6) True e(2) by (simp add: journal_ok_def)
  next
    case False
    then show ?thesis using D step p(2,6) e(2) by (auto simp: journal_ok_def)
  qed
qed

lemma push_all_effect:
  assumes "push_all files ok sid us r = (es, r')" and "in_session sid r" and "ring_ok r" and "journal_ok r" and "0 \<le> rb_seq r"
    and "sorted (map stamp (rb_durableEntries r @ durables es))" and "length (getMemoryEntries r) \<le> rb_maxSize r"
  shows "same_settings r r' \<and> ring_ok r' \<and> journal_ok r' \<and> getMemoryEntries r' = last_n (rb_maxSize r) (getMemoryEntries r @ es) \<and>
    rb_seq r' = rb_seq r + of_nat (length es) \<and> ordered es \<and>
    (\<forall>e \<in> set es. rb_seq r < en_seq e \<and> en_seq e - rb_seq r \<in> \<int> \<and> en_sessionId e = sid) \<and>
    (\<exists>p. rb_durableEntries r @ durables es = p @ rb_durableEntries r')"
  using assms
proof (induction us arbitrary: r es)
  case Nil
  then show ?case by (simp add: last_n_all ordered_def)
next
  case (Cons x us)
  obtain u now where x: "x = (u, now)" by fastforce
  obtain e r1 where p: "push files ok now sid u r = (e, r1)" by fastforce
  obtain es1 where q: "push_all files ok sid us r1 = (es1, r')" and es: "es = e # es1"
    using Cons.prems(1) by (auto simp: x p Let_def split: prod.splits)
  note f = push_effect [OF p Cons.prems(2,3)]
  have ds: "durables es = durables [e] @ durables es1" by (simp add: es)
  have sorted1: "sorted (map stamp (rb_durableEntries r @ durables [e]))"
    using Cons.prems(6) unfolding ds by (simp add: sorted_append)
  obtain p1 where j: "journal_ok r1" "rb_durableEntries r @ durables [e] = p1 @ rb_durableEntries r1"
    using push_journal [OF p Cons.prems(2-4) sorted1 Cons.prems(5)] by blast
  have D: "rb_durableEntries r @ durables es = p1 @ rb_durableEntries r1 @ durables es1"
    unfolding ds by (metis append.assoc j(2))
  have s1: "sorted (map stamp (rb_durableEntries r1 @ durables es1))"
    using Cons.prems(6) unfolding D by (simp add: sorted_append)
  have m: "rb_maxSize r1 = rb_maxSize r" using f(3) by (simp add: same_settings_def)
  have "length (getMemoryEntries r1) \<le> rb_maxSize r1" by (simp add: f(5) m)
  note IH = Cons.IH [OF q in_session_settings [OF f(3) Cons.prems(2)] f(4) j(1) _ s1 this]
  have pos: "0 \<le> rb_seq r1" using Cons.prems(5) f(2) by simp
  have e: "en_seq e = rb_seq r1" "en_sessionId e = sid" using f(1,2) by simp_all
  have i: "same_settings r1 r'" "ring_ok r'" "journal_ok r'" "getMemoryEntries r' = last_n (rb_maxSize r1) (getMemoryEntries r1 @ es1)"
      "rb_seq r' = rb_seq r1 + of_nat (length es1)" "ordered es1"
      "\<forall>e \<in> set es1. rb_seq r1 < en_seq e \<and> en_seq e - rb_seq r1 \<in> \<int> \<and> en_sessionId e = sid"
      "\<exists>p. rb_durableEntries r1 @ durables es1 = p @ rb_durableEntries r'"
    using IH [OF pos] by blast+
  have "en_seq e' - rb_seq r \<in> \<int>" if "e' \<in> set es1" for e'
  proof -
    have "en_seq e' - rb_seq r = (en_seq e' - rb_seq r1) + 1" using f(2) by simp
    then show ?thesis using i(7) that by (simp only: Ints_add Ints_1)
  qed
  moreover have "getMemoryEntries r' = last_n (rb_maxSize r) (getMemoryEntries r @ es)"
    by (simp add: i(4) m f(5) es last_n_last_n_append)
  moreover have "\<exists>p. rb_durableEntries r @ durables es = p @ rb_durableEntries r'" using i(8) D by (metis append.assoc)
  ultimately show ?case
    using i(1-3,5-7) f(2,3) e by (auto simp: es ordered_def same_settings_def)
qed

text \<open>A buffer as the server opens it, for one session.\<close>

lemma load_lines_ok:
  "load_lines sid l lines = (es, b) \<Longrightarrow>
     ordered es \<and> (\<forall>e \<in> set es. l < en_seq e \<and> en_sessionId e = sid \<and> is_object (en_update e))"
proof (induction lines arbitrary: l es b)
  case (Cons x xs)
  show ?case
  proof (cases "accept_line sid l x")
    case None
    then show ?thesis using Cons.prems Cons.IH [of l es] by (cases "load_lines sid l xs") auto
  next
    case (Some e)
    obtain es1 b1 where r: "load_lines sid (en_seq e) xs = (es1, b1)" by fastforce
    have e: "l < en_seq e" "en_sessionId e = sid" "is_object (en_update e)"
      using Some by (auto simp: accept_line_def split: option.splits json.splits if_splits)
    have "\<forall>d \<in> set es1. l < en_seq d" using Cons.IH [OF r] e(1) less_trans by blast
    then show ?thesis using Cons.prems Cons.IH [OF r] e by (auto simp: Some r ordered_def)
  qed
qed (simp add: ordered_def)

lemma ordered_last: "ordered es \<Longrightarrow> e \<in> set es \<Longrightarrow> en_seq e \<le> en_seq (last es)"
proof (cases es rule: rev_exhaust)
  case (snoc ys y)
  then show "ordered es \<Longrightarrow> e \<in> set es \<Longrightarrow> en_seq e \<le> en_seq (last es)" by (auto simp: ordered_append less_imp_le)
qed simp

definition blank :: "string \<Rightarrow> nat \<Rightarrow> rat option \<Rightarrow> nat option \<Rightarrow> ring_buffer" where
  "blank sid m ttl mx =
     \<lparr>rb_buffer = replicate m None, rb_writeIndex = 0, rb_count = 0, rb_seq = 0, rb_maxSize = m, rb_persistenceEnabled = True,
      rb_durableTtlMs = (case ttl of Some t \<Rightarrow> t | None \<Rightarrow> 7 * 24 * 60 * 60 * 1000),
      rb_maxDurableEntries = (case mx of Some m \<Rightarrow> m | None \<Rightarrow> 5000), rb_sessionId = Some sid, rb_directoryId = None,
      rb_initialized = True, rb_durableEntries = [], rb_persistenceDisabled = False, rb_persistenceQueue = []\<rparr>"

definition meta_seq :: "string \<Rightarrow> replay_files \<Rightarrow> rat" where
  "meta_seq sid files = (case readPersistedReplayMeta sid files of Some m \<Rightarrow> me_latestSeq m | None \<Rightarrow> 0)"

definition journal_end :: "rat \<Rightarrow> replay_entry list \<Rightarrow> rat" where
  "journal_end l es = (if es = [] then l else en_seq (last es))"

definition loaded :: "string \<Rightarrow> replay_files \<Rightarrow> replay_entry list \<Rightarrow> ring_buffer \<Rightarrow> ring_buffer" where
  "loaded sid files es r =
     r\<lparr>rb_durableEntries := es, rb_directoryId := Option.bind (readPersistedReplayMeta sid files) me_directoryId,
       rb_seq := max (meta_seq sid files) (journal_end 0 es)\<rparr>"

lemma rb_new_eq:
  assumes "sid \<noteq> []" and "loadPersistedJournalEntries sid files = (es, b)"
  shows "rb_new files ok now m (Some sid) dir ttl mx =
    (if ok then let r = loaded sid files es (blank sid m ttl mx) in compactDurableEntries now (if b then rewriteDurableJournal r else r)
     else (blank sid m ttl mx)\<lparr>rb_persistenceDisabled := True\<rparr>)"
  using assms
  by (simp add: rb_new_def ensureInitialized_def truthy_def blank_def loaded_def meta_seq_def journal_end_def Let_def)

lemma blank_simps [simp]:
  "in_session sid (blank sid m ttl mx) = (sid \<noteq> [])" "rb_maxSize (blank sid m ttl mx) = m" "getMemoryEntries (blank sid m ttl mx) = []"
  "0 < m \<Longrightarrow> ring_ok (blank sid m ttl mx)" "rb_sessionId (blank sid m ttl mx) = Some sid" "rb_durableEntries (blank sid m ttl mx) = []"
  "rb_persistenceEnabled (blank sid m ttl mx)" "\<not> rb_persistenceDisabled (blank sid m ttl mx)" "rb_seq (blank sid m ttl mx) = 0"
  "rb_persistenceQueue (blank sid m ttl mx) = []"
  by (simp_all add: blank_def in_session_def getMemoryEntries_def ring_ok_def List.map_filter_def)

lemma loaded_simps [simp]:
  "getMemoryEntries (loaded sid files es r) = getMemoryEntries r" "ring_ok (loaded sid files es r) = ring_ok r"
  "same_settings q (loaded sid files es r) = same_settings q r" "rb_durableEntries (loaded sid files es r) = es"
  "rb_seq (loaded sid files es r) = max (meta_seq sid files) (journal_end 0 es)"
  "rb_persistenceQueue (loaded sid files es r) = rb_persistenceQueue r" "rb_sessionId (loaded sid files es r) = rb_sessionId r"
  by (simp_all add: loaded_def)

lemma loaded_entries:
  assumes "loadPersistedJournalEntries sid files = (es, b)"
  shows "ordered es \<and> (\<forall>e \<in> set es. 0 < en_seq e \<and> en_sessionId e = sid \<and> is_object (en_update e))"
  using assms load_lines_ok [of sid 0] by (auto simp: loadPersistedJournalEntries_def ordered_def split: option.splits)

lemma rb_new_read:
  assumes "sid \<noteq> []" and "r = rb_new files True now m (Some sid) dir ttl mx" and "loadPersistedJournalEntries sid files = (es, b)"
  shows "rb_seq r = max (meta_seq sid files) (journal_end 0 es)"
    and "rb_durableEntries r = retain (rb_durableTtlMs r) (rb_maxDurableEntries r) now es"
    and "same_settings (blank sid m ttl mx) r" and "ring_ok r = ring_ok (blank sid m ttl mx)" and "getMemoryEntries r = []"
proof -
  define q where "q = (if b then rewriteDurableJournal (loaded sid files es (blank sid m ttl mx)) else loaded sid files es (blank sid m ttl mx))"
  have r: "r = compactDurableEntries now q" using assms(2) by (simp add: rb_new_eq [OF assms(1,3)] q_def Let_def)
  have q: "rb_durableEntries q = es" "rb_sessionId q = Some sid" "same_settings (blank sid m ttl mx) q" by (simp_all add: q_def)
  show "rb_seq r = max (meta_seq sid files) (journal_end 0 es)" "same_settings (blank sid m ttl mx) r"
      "ring_ok r = ring_ok (blank sid m ttl mx)" "getMemoryEntries r = []"
    using q(3) by (simp_all add: r) (simp_all add: q_def)
  have "same_settings q r" by (simp add: r)
  then show "rb_durableEntries r = retain (rb_durableTtlMs r) (rb_maxDurableEntries r) now es"
    by (simp add: same_settings_def) (simp add: r compact_durable q retained_def truthy_def assms(1))
qed

lemma rb_new_facts:
  assumes "sid \<noteq> []" and "0 < m" and "r = rb_new files ok now m (Some sid) dir ttl mx"
  shows "in_session sid r \<and> ring_ok r \<and> journal_ok r \<and> getMemoryEntries r = [] \<and> rb_maxSize r = m \<and> 0 \<le> rb_seq r"
proof -
  obtain es b where l: "loadPersistedJournalEntries sid files = (es, b)" by fastforce
  note es = loaded_entries [OF l]
  show ?thesis
  proof (cases ok)
    case False
    then show ?thesis
      using assms(1,2) by (simp add: assms(3) rb_new_eq [OF assms(1) l] journal_ok_def ordered_def in_session_def) (simp add: blank_def)
  next
    case True
    note n = rb_new_read [OF assms(1) _ l, of r now m dir ttl mx]
    have r: "r = rb_new files True now m (Some sid) dir ttl mx" using assms(3) True by simp
    have "\<forall>e \<in> set es. en_seq e \<le> journal_end 0 es" using ordered_last es by (auto simp: journal_end_def)
    then have le: "\<forall>e \<in> set es. en_seq e \<le> rb_seq r" by (auto simp: n(1) [OF r] le_max_iff_disj)
    have "0 \<le> journal_end 0 es" using es last_in_set [of es] by (auto simp: journal_end_def less_imp_le)
    then have "0 \<le> rb_seq r" by (simp add: n(1) [OF r] le_max_iff_disj)
    moreover have "journal_ok r"
      using ordered_retain es retain_mem le unfolding journal_ok_def n(2) [OF r] by blast
    ultimately show ?thesis
      using n(3-5) [OF r] assms(1,2) in_session_settings [OF n(3) [OF r]] by (auto simp: same_settings_def)
  qed
qed

section \<open>What a client gets\<close>

definition journal_integral :: "ring_buffer \<Rightarrow> bool" where
  "journal_integral r \<longleftrightarrow> rb_seq r \<in> \<int> \<and> (\<forall>e \<in> set (rb_durableEntries r). en_seq e \<in> \<int>)"

lemma Ints_less_add_1: "a \<in> \<int> \<Longrightarrow> b \<in> \<int> \<Longrightarrow> a < b \<Longrightarrow> a + 1 \<le> (b :: rat)"
  by (auto elim!: Ints_cases)

lemma dropped_before:
  assumes "ordered T" and "T = D0 @ es" and "D0 @ durables es = p @ D" and "e \<in> set p"
    and "last_n m es = M" and "e \<notin> set M" and "x \<in> set D \<union> set M"
  shows "en_seq e < en_seq x"
proof -
  have o: "ordered D0" "ordered es" "\<forall>d \<in> set D0. \<forall>y \<in> set es. en_seq d < en_seq y" using assms(1) by (auto simp: assms(2) ordered_append)
  then have "ordered (D0 @ durables es)" by (auto simp: ordered_append ordered_filter)
  then have pd: "\<forall>y \<in> set D. en_seq e < en_seq y" using assms(4) by (simp add: assms(3) ordered_append)
  have "e \<in> set (p @ D)" using assms(4) by simp
  then have e: "e \<in> set D0 \<or> e \<in> set es" unfolding assms(3) [symmetric] by auto
  obtain q where q: "es = q @ M" using last_n_suffix assms(5) by metis
  have "en_seq e < en_seq y" if "y \<in> set M" for y
  proof (cases "e \<in> set D0")
    case False
    then have "e \<in> set q" using e assms(6) by (auto simp: q)
    then show ?thesis using o(2) that by (simp add: q ordered_append)
  qed (use o(3) that q in auto)
  with pd assms(7) show ?thesis by blast
qed

end
