(* ===== verification/Session_Restart.thy ===== *)
theory Session_Restart
  imports Session_Replay
begin

text \<open>
  The replay buffer across restarts of the daemon: what the queued writes leave in the journal and in the meta file,
  and what a new buffer reads from them.
\<close>

section \<open>The journal on disk\<close>

text \<open>Entries as a journal holds them.\<close>

definition journal_form :: "string \<Rightarrow> replay_entry list \<Rightarrow> bool" where
  "journal_form sid es \<longleftrightarrow> ordered es \<and> (\<forall>e \<in> set es. 0 < en_seq e \<and> en_sessionId e = sid \<and> is_object (en_update e))"

lemma accept_entry_line:
  "accept_line sid l (entry_line e) = (if en_sessionId e = sid \<and> l < en_seq e \<and> is_object (en_update e) then Some e else None)"
  by (simp add: accept_line_def entry_line_def field_def eq_str_def)

lemma load_snoc:
  assumes "load_lines sid l lines = (es, b)" and "journal_end l es < en_seq e" and "en_sessionId e = sid" and "is_object (en_update e)"
  shows "load_lines sid l (lines @ [entry_line e]) = (es @ [e], b)"
  using assms(1,2)
proof (induction lines arbitrary: l es b)
  case Nil
  then show ?case using assms(3,4) by (simp add: accept_entry_line journal_end_def)
next
  case (Cons x xs)
  show ?case
  proof (cases "accept_line sid l x")
    case None
    then show ?thesis using Cons.prems Cons.IH [of l es] by (cases "load_lines sid l xs") auto
  next
    case (Some d)
    obtain es1 b1 where r: "load_lines sid (en_seq d) xs = (es1, b1)" by fastforce
    then have "es = d # es1" "b = b1" using Cons.prems(1) by (auto simp: Some)
    then show ?thesis using Cons.prems(2) Cons.IH [OF r] by (simp add: Some journal_end_def split: if_splits)
  qed
qed

lemma load_map: "journal_form sid es \<Longrightarrow> load_lines sid 0 (map entry_line es) = (es, False)"
proof (induction es rule: rev_induct)
  case (snoc e es)
  have f: "journal_form sid es" using snoc.prems by (auto simp: journal_form_def ordered_append)
  have "journal_end 0 es < en_seq e"
    using snoc.prems last_in_set [of es] by (auto simp: journal_form_def journal_end_def ordered_append)
  with load_snoc [OF snoc.IH [OF f]] snoc.prems show ?case by (simp add: journal_form_def)
qed simp

definition on_disk :: "ring_buffer \<Rightarrow> replay_files \<Rightarrow> replay_files" where
  "on_disk r files = fold run_task (rb_persistenceQueue r) files"

definition persisting :: "ring_buffer \<Rightarrow> bool" where
  "persisting r \<longleftrightarrow> rb_persistenceEnabled r \<and> \<not> rb_persistenceDisabled r"

definition synced :: "string \<Rightarrow> replay_files \<Rightarrow> ring_buffer \<Rightarrow> bool" where
  "synced sid files r \<longleftrightarrow>
     persisting r \<and> in_session sid r \<and> journal_form sid (rb_durableEntries r) \<and>
     loadPersistedJournalEntries sid (on_disk r files) = (rb_durableEntries r, False)"

lemma persisting_settings: "same_settings r r' \<Longrightarrow> persisting r \<Longrightarrow> persisting r'"
  by (simp add: same_settings_def persisting_def)

lemma session_enqueue [simp]:
  "persisting (enqueuePersistence t r) = persisting r" "in_session sid (enqueuePersistence t r) = in_session sid r"
  by (simp_all add: persisting_def in_session_def enqueuePersistence_def)

lemma on_disk_enqueue: "persisting r \<Longrightarrow> on_disk (enqueuePersistence t r) files = run_task t (on_disk r files)"
  by (simp add: on_disk_def persisting_def enqueuePersistence_def)

lemma on_disk_fields [simp]:
  "on_disk (r\<lparr>rb_durableEntries := d\<rparr>) files = on_disk r files" "on_disk (r\<lparr>rb_seq := n\<rparr>) files = on_disk r files"
  "on_disk (push_memory e r) files = on_disk r files"
  by (simp_all add: on_disk_def push_memory_def)

lemma load_after_rewrite:
  "journal_form sid es \<Longrightarrow> loadPersistedJournalEntries sid (run_task (Rewrite_journal sid es) F) = (es, False)"
  by (simp add: loadPersistedJournalEntries_def run_task_def rewritePersistedJournal_def load_map)

lemma load_after_meta [simp]: "loadPersistedJournalEntries sid (run_task (Write_meta m) F) = loadPersistedJournalEntries sid F"
  by (simp add: loadPersistedJournalEntries_def run_task_def writePersistedReplayMeta_def)

lemma load_after_append:
  assumes "loadPersistedJournalEntries sid F = (es, False)" and "journal_end 0 es < en_seq e" and "en_sessionId e = sid"
    and "is_object (en_update e)"
  shows "loadPersistedJournalEntries sid (run_task (Append_journal e) F) = (es @ [e], False)"
  using assms load_snoc [of sid 0 _ es False e] accept_entry_line [of sid 0 e]
  by (auto simp: loadPersistedJournalEntries_def run_task_def appendPersistedJournalEntry_def Let_def journal_end_def split: option.splits)

lemma form_retain: "journal_form sid es \<Longrightarrow> journal_form sid (retain ttl mx now es)"
  using ordered_retain retain_mem by (fastforce simp: journal_form_def)

lemma synced_rewrite:
  assumes "persisting r" and "in_session sid r" and "journal_form sid (rb_durableEntries r)"
  shows "synced sid files (rewriteDurableJournal r)"
proof -
  have r: "rewriteDurableJournal r = enqueuePersistence (Rewrite_journal sid (rb_durableEntries r)) r"
    using assms(2) by (simp add: rewriteDurableJournal_def in_session_def truthy_def)
  show ?thesis using assms load_after_rewrite by (simp add: synced_def r on_disk_enqueue)
qed

lemma synced_compact: "synced sid files r \<Longrightarrow> synced sid files (compactDurableEntries now r)"
proof -
  assume s: "synced sid files r"
  then have "synced sid files (rewriteDurableJournal (r\<lparr>rb_durableEntries := retained now r\<rparr>))"
    by (intro synced_rewrite) (auto simp: synced_def persisting_def in_session_def retained_def form_retain)
  with s show ?thesis by (simp add: compactDurableEntries_def)
qed

lemma durable_object: "isDurableUpdate u \<Longrightarrow> is_object u"
  by (auto simp: isDurableUpdate_def prop_of_def is_object_def as_str_def split: option.splits json.splits)

lemma meta_after_tasks [simp]:
  "meta_seq sid (run_task (Append_journal e) F) = meta_seq sid F" "meta_seq sid (run_task (Rewrite_journal s es) F) = meta_seq sid F"
  by (simp_all add: meta_seq_def readPersistedReplayMeta_def run_task_def appendPersistedJournalEntry_def rewritePersistedJournal_def Let_def)

lemma meta_after_write: "me_sessionId m = sid \<Longrightarrow> meta_seq sid (run_task (Write_meta m) F) = me_latestSeq m"
  by (cases "me_directoryId m"; cases "me_updatedAt m")
     (simp_all add: meta_seq_def readPersistedReplayMeta_def run_task_def writePersistedReplayMeta_def meta_json_def field_def eq_str_def)

section \<open>A push, written out\<close>

lemma push_synced:
  assumes "push files ok now sid u r = (e, r')" and "synced sid files r" and "ring_ok r"
    and "\<forall>d \<in> set (rb_durableEntries r). en_seq d \<le> rb_seq r" and "0 \<le> rb_seq r"
  shows "synced sid files r' \<and> (\<forall>d \<in> set (rb_durableEntries r'). en_seq d \<le> rb_seq r') \<and> meta_seq sid (on_disk r' files) = rb_seq r'"
proof -
  have ss: "in_session sid r" "persisting r" "journal_form sid (rb_durableEntries r)"
      "loadPersistedJournalEntries sid (on_disk r files) = (rb_durableEntries r, False)"
    using assms(2) by (auto simp: synced_def)
  note f = push_effect [OF assms(1) ss(1) assms(3)]
  have i: "ensureInitialized files ok now sid r = r" using ss(1) by (simp add: ensureInitialized_def in_session_def)
  define q where "q = persistMeta now (push_memory e (r\<lparr>rb_seq := rb_seq r + 1\<rparr>))"
  have r': "r' = push_durable now e q" using assms(1) by (auto simp: push_def i Let_def q_def)
  let ?p = "push_memory e (r\<lparr>rb_seq := rb_seq r + 1\<rparr>)"
  have p: "persisting ?p" "in_session sid ?p" using ss by (simp_all add: persisting_def in_session_def push_memory_def)
  define m where "m = \<lparr>me_sessionId = sid, me_directoryId = rb_directoryId ?p, me_latestSeq = rb_seq r + 1, me_updatedAt = Some (JNum (of_int now))\<rparr>"
  have qe: "q = enqueuePersistence (Write_meta m) ?p"
    using p(2) by (simp add: q_def persistMeta_def in_session_def truthy_def m_def)
  have q: "persisting q" "in_session sid q" "rb_durableEntries q = rb_durableEntries r" "on_disk q files = run_task (Write_meta m) (on_disk r files)"
    using p by (simp_all add: qe on_disk_enqueue)
  have qs: "synced sid files q" using ss q by (simp add: synced_def)
  have mq: "meta_seq sid (on_disk q files) = rb_seq r + 1" by (simp add: q(4) meta_after_write m_def)
  have e: "en_seq e = rb_seq r + 1" "en_sessionId e = sid" "en_update e = u" using f(1) by simp_all
  have lt: "journal_end 0 (rb_durableEntries r) < en_seq e"
    using assms(4,5) last_in_set [of "rb_durableEntries r"] by (fastforce simp: journal_end_def e)
  show ?thesis
  proof (cases "isDurableUpdate u")
    case False
    then show ?thesis using r' qs mq f(2,6) assms(4) e(3) by (fastforce simp: push_durable_def)
  next
    case True
    define a where "a = enqueuePersistence (Append_journal e) (q\<lparr>rb_durableEntries := rb_durableEntries q @ [e]\<rparr>)"
    have r'a: "r' = compactDurableEntries now a" using True e(3) by (simp add: r' push_durable_def a_def)
    have pq: "persisting (q\<lparr>rb_durableEntries := rb_durableEntries q @ [e]\<rparr>)" using q(1) by (simp add: persisting_def)
    have "\<forall>d \<in> set (rb_durableEntries r). en_seq d < rb_seq r + 1" using assms(4) by (auto intro: le_less_trans [of _ "rb_seq r"])
    then have "ordered (rb_durableEntries r @ [e])"
      using ss(3) by (simp add: ordered_append e journal_form_def) (simp add: ordered_def)
    then have "journal_form sid (rb_durableEntries r @ [e])"
      using ss(3) assms(5) e durable_object [OF True] by (simp add: journal_form_def)
    moreover have "on_disk a files = run_task (Append_journal e) (on_disk q files)" by (simp add: a_def on_disk_enqueue [OF pq])
    moreover have "in_session sid a" "persisting a" using q(2) pq by (simp_all add: a_def in_session_def enqueuePersistence_def persisting_def)
    ultimately have "synced sid files a"
      using load_after_append [of sid "on_disk q files", OF _ lt e(2)] qs durable_object [OF True] e(3)
      by (simp add: synced_def q(3) a_def)
    then have "synced sid files r'" unfolding r'a by (rule synced_compact)
    moreover have "meta_seq sid (on_disk r' files) = rb_seq r + 1"
    proof -
      have "meta_seq sid (on_disk a files) = rb_seq r + 1" using mq by (simp add: a_def on_disk_enqueue [OF pq])
      moreover have "persisting (a\<lparr>rb_durableEntries := d\<rparr>)" for d using \<open>persisting a\<close> by (simp add: persisting_def)
      ultimately show ?thesis
        by (simp add: r'a compactDurableEntries_def rewriteDurableJournal_def on_disk_enqueue split: option.split)
    qed
    moreover have "\<forall>d \<in> set (rb_durableEntries r'). en_seq d \<le> rb_seq r'"
      using retain_mem assms(4) e(1) True by (fastforce simp: f(2,6))
    ultimately show ?thesis using f(2) by simp
  qed
qed

lemma push_all_synced:
  assumes "push_all files ok sid us r = (es, r')" and "synced sid files r" and "ring_ok r"
    and "\<forall>d \<in> set (rb_durableEntries r). en_seq d \<le> rb_seq r" and "0 \<le> rb_seq r"
  shows "synced sid files r' \<and> (\<forall>d \<in> set (rb_durableEntries r'). en_seq d \<le> rb_seq r') \<and> rb_seq r \<le> rb_seq r' \<and>
    (\<forall>e \<in> set es. en_seq e \<le> rb_seq r') \<and> (us \<noteq> [] \<longrightarrow> meta_seq sid (on_disk r' files) = rb_seq r')"
  using assms
proof (induction us arbitrary: r es)
  case (Cons x us)
  obtain u now where x: "x = (u, now)" by fastforce
  obtain e r1 where p: "push files ok now sid u r = (e, r1)" by fastforce
  obtain es1 where q: "push_all files ok sid us r1 = (es1, r')" and es: "es = e # es1"
    using Cons.prems(1) by (auto simp: x p Let_def split: prod.splits)
  have s: "in_session sid r" using Cons.prems(2) by (simp add: synced_def)
  note f = push_effect [OF p s Cons.prems(3)]
  note g = push_synced [OF p Cons.prems(2-5)]
  have pos: "0 \<le> rb_seq r1" using Cons.prems(5) f(2) by simp
  have IH: "synced sid files r' \<and> (\<forall>d \<in> set (rb_durableEntries r'). en_seq d \<le> rb_seq r') \<and> rb_seq r1 \<le> rb_seq r' \<and>
    (\<forall>e \<in> set es1. en_seq e \<le> rb_seq r') \<and> (us \<noteq> [] \<longrightarrow> meta_seq sid (on_disk r' files) = rb_seq r')"
    using Cons.IH [OF q] g f(4) pos by blast
  have "en_seq e = rb_seq r1" using f(1,2) by simp
  moreover have "us = [] \<longrightarrow> r' = r1" using q by auto
  ultimately show ?case using IH g f(2) by (auto simp: es)
qed simp

lemma rb_new_synced:
  assumes "sid \<noteq> []" and "r = rb_new files True now m (Some sid) dir ttl mx"
  shows "synced sid files r"
proof -
  obtain es b where l: "loadPersistedJournalEntries sid files = (es, b)" by fastforce
  let ?q = "loaded sid files es (blank sid m ttl mx)"
  have q: "persisting ?q" "in_session sid ?q" "journal_form sid (rb_durableEntries ?q)" "on_disk ?q files = files"
    using loaded_entries [OF l] assms(1) by (simp_all add: persisting_def in_session_def on_disk_def loaded_def blank_def journal_form_def)
  have "synced sid files ?q" if "\<not> b" using q l that by (simp add: synced_def)
  with synced_rewrite [OF q(1-3)] show ?thesis
    using assms(2) by (simp add: rb_new_eq [OF assms(1) l] Let_def synced_compact)
qed

section \<open>The guarantee\<close>

lemma flush_all: "persisting r \<Longrightarrow> flushPersistence (\<lambda>_. True) r files = (r', files') \<Longrightarrow> files' = on_disk r files"
proof -
  assume p: "persisting r" and f: "flushPersistence (\<lambda>_. True) r files = (r', files')"
  have "flush (\<lambda>_. True) r ts F = (False, fold run_task ts F)" for ts F
    using p by (induction ts arbitrary: F) (simp_all add: persisting_def)
  with f show ?thesis by (simp add: flushPersistence_def on_disk_def)
qed

text \<open>C28: numbers and durable updates survive a restart. When all queued writes have been made, a new buffer for the session
  continues after the last number that was given out, so that no number is used twice, and holds the durable updates
  of the old one, less those that have become too old or too many.\<close>

theorem replay_survives_restart:
  assumes "sid \<noteq> []" and "0 < m" and "r0 = rb_new files True now m (Some sid) dir ttl mx"
    and "push_all files True sid us r0 = (es, r)" and "us \<noteq> []"
    and "flushPersistence (\<lambda>_. True) r files = (r', files')"
    and "r1 = rb_new files' True now' m' (Some sid) dir' ttl' mx'"
  shows "rb_seq r1 = rb_seq r \<and> (\<forall>e \<in> set es. en_seq e \<le> rb_seq r1)
    \<and> rb_durableEntries r1 = retain (rb_durableTtlMs r1) (rb_maxDurableEntries r1) now' (rb_durableEntries r)"
proof -
  have n: "ring_ok r0" "journal_ok r0" "0 \<le> rb_seq r0" using rb_new_facts [OF assms(1-3)] by auto
  have le: "\<forall>d \<in> set (rb_durableEntries r0). en_seq d \<le> rb_seq r0" using n(2) by (simp add: journal_ok_def)
  note a = push_all_synced [OF assms(4) rb_new_synced [OF assms(1,3)] n(1) le n(3)]
  have f: "files' = on_disk r files" using flush_all [OF _ assms(6)] a by (simp add: synced_def)
  have l: "loadPersistedJournalEntries sid files' = (rb_durableEntries r, False)" using a by (simp add: synced_def f)
  have "journal_end 0 (rb_durableEntries r) \<le> rb_seq r"
    using a n(3) last_in_set [of "rb_durableEntries r"] by (auto simp: journal_end_def)
  then have "rb_seq r1 = rb_seq r" using rb_new_read(1) [OF assms(1,7) l] a assms(5) by (simp add: f max_def)
  with a rb_new_read(2) [OF assms(1,7) l] show ?thesis by simp
qed


text \<open>C29: the ring of a session implements the log of its most recent entries. Pushing entries one after another into the
  ring, with its wrapping write index, and reading it back gives the last \<open>maxSize\<close> of the entries that were there
  followed by the pushed ones, in order.\<close>

theorem ring_refines_log:
  assumes "ring_ok r" and "length (getMemoryEntries r) \<le> rb_maxSize r"
  shows "getMemoryEntries (fold push_memory es r) = last_n (rb_maxSize r) (getMemoryEntries r @ es)"
  using assms by (rule ring.entries_fold)

text \<open>Two updates of a session, the first durable, with a ring of one entry.\<close>

definition no_files :: replay_files where
  "no_files = \<lparr>f_journals = (\<lambda>_. None), f_metas = (\<lambda>_. None)\<rparr>"

definition demo_updates :: "(json \<times> int) list" where
  "demo_updates =
     [(JObj [(''updateType'', JStr ''user-message''), (''timestamp'', JNum 10)], 10), (JObj [(''updateType'', JStr ''typing'')], 11),
      (JObj [(''updateType'', JStr ''attention''), (''timestamp'', JNum 12)], 12), (JObj [(''updateType'', JStr ''typing'')], 13)]"

definition demo_buffer :: ring_buffer where
  "demo_buffer = rb_new no_files True 9 1 (Some ''s'') False None None"

definition demo_entries :: "replay_entry list" where
  "demo_entries = fst (push_all no_files True ''s'' demo_updates demo_buffer)"

definition demo_end :: ring_buffer where
  "demo_end = snd (push_all no_files True ''s'' demo_updates demo_buffer)"

lemma demo_buffer_eq: "demo_buffer = loaded ''s'' no_files [] (blank ''s'' 1 None None)"
proof -
  have l: "loadPersistedJournalEntries ''s'' no_files = ([], False)" by (simp add: loadPersistedJournalEntries_def no_files_def)
  show ?thesis using rb_new_eq [OF _ l, of True 9 1 False None None] by (simp add: demo_buffer_def Let_def compactDurableEntries_def)
qed

lemma demo_settings: "rb_seq demo_buffer = 0" "rb_durableEntries demo_buffer = []" "rb_durableTtlMs demo_buffer = 604800000"
  "rb_maxDurableEntries demo_buffer = 5000"
  by (simp_all add: demo_buffer_eq meta_seq_def readPersistedReplayMeta_def no_files_def journal_end_def)
     (simp_all add: loaded_def blank_def)

lemma demo_open: "in_session ''s'' demo_buffer" "ring_ok demo_buffer"
  using rb_new_facts [of "''s''" 1 demo_buffer no_files True 9 False None None] by (auto simp: demo_buffer_def)

text \<open>The numbers and the durable entries of a sequence of pushes.\<close>

fun course :: "string \<Rightarrow> rat \<Rightarrow> nat \<Rightarrow> rat \<Rightarrow> replay_entry list \<Rightarrow> (json \<times> int) list \<Rightarrow> replay_entry list \<times> replay_entry list" where
  "course sid ttl mx n D [] = ([], D)"
| "course sid ttl mx n D ((u, now) # us) =
     (let e = \<lparr>en_seq = n + 1, en_sessionId = sid, en_update = u\<rparr>;
          D1 = (if isDurableUpdate u then retain ttl mx now (D @ [e]) else D)
      in apfst (Cons e) (course sid ttl mx (n + 1) D1 us))"

lemma push_all_course:
  assumes "in_session sid r" and "ring_ok r"
  shows "course sid (rb_durableTtlMs r) (rb_maxDurableEntries r) (rb_seq r) (rb_durableEntries r) us =
    (fst (push_all files ok sid us r), rb_durableEntries (snd (push_all files ok sid us r)))"
  using assms
proof (induction us arbitrary: r)
  case (Cons x us)
  obtain u now where x: "x = (u, now)" by fastforce
  obtain e r1 where p: "push files ok now sid u r = (e, r1)" by fastforce
  note f = push_effect [OF p Cons.prems]
  have s: "rb_durableTtlMs r1 = rb_durableTtlMs r" "rb_maxDurableEntries r1 = rb_maxDurableEntries r"
    using f(3) by (simp_all add: same_settings_def)
  show ?case
    using Cons.IH [OF in_session_settings [OF f(3) Cons.prems(1)] f(4)]
    by (simp add: x p f(2,6) f(1) [symmetric] s Let_def split: prod.splits)
qed simp

lemma demo_course:
  "course ''s'' 604800000 5000 0 [] demo_updates = (demo_entries, rb_durableEntries demo_end)"
  using push_all_course [OF demo_open(1,2), of demo_updates no_files True] by (simp add: demo_settings demo_entries_def demo_end_def)

lemma demo_entries_eq:
  "demo_entries = [\<lparr>en_seq = 1, en_sessionId = ''s'', en_update = fst (demo_updates ! 0)\<rparr>, \<lparr>en_seq = 2, en_sessionId = ''s'', en_update = fst (demo_updates ! 1)\<rparr>,
     \<lparr>en_seq = 3, en_sessionId = ''s'', en_update = fst (demo_updates ! 2)\<rparr>, \<lparr>en_seq = 4, en_sessionId = ''s'', en_update = fst (demo_updates ! 3)\<rparr>]"
  "rb_durableEntries demo_end = [demo_entries ! 0, demo_entries ! 2]"
proof -
  have "course ''s'' 604800000 5000 0 [] demo_updates =
     ([\<lparr>en_seq = 1, en_sessionId = ''s'', en_update = fst (demo_updates ! 0)\<rparr>, \<lparr>en_seq = 2, en_sessionId = ''s'', en_update = fst (demo_updates ! 1)\<rparr>,
       \<lparr>en_seq = 3, en_sessionId = ''s'', en_update = fst (demo_updates ! 2)\<rparr>, \<lparr>en_seq = 4, en_sessionId = ''s'', en_update = fst (demo_updates ! 3)\<rparr>],
      [\<lparr>en_seq = 1, en_sessionId = ''s'', en_update = fst (demo_updates ! 0)\<rparr>, \<lparr>en_seq = 3, en_sessionId = ''s'', en_update = fst (demo_updates ! 2)\<rparr>])"
    by (simp add: demo_updates_def isDurableUpdate_def prop_of_def as_str_def field_def is_num_def durable_types_def retain_def
        entryHasTimestamp_def Let_def)
  then have e: "demo_entries = [\<lparr>en_seq = 1, en_sessionId = ''s'', en_update = fst (demo_updates ! 0)\<rparr>, \<lparr>en_seq = 2, en_sessionId = ''s'', en_update = fst (demo_updates ! 1)\<rparr>, \<lparr>en_seq = 3, en_sessionId = ''s'', en_update = fst (demo_updates ! 2)\<rparr>, \<lparr>en_seq = 4, en_sessionId = ''s'', en_update = fst (demo_updates ! 3)\<rparr>]"
    and d: "rb_durableEntries demo_end = [\<lparr>en_seq = 1, en_sessionId = ''s'', en_update = fst (demo_updates ! 0)\<rparr>, \<lparr>en_seq = 3, en_sessionId = ''s'', en_update = fst (demo_updates ! 2)\<rparr>]"
    unfolding demo_course by (simp_all only: prod.inject)
  show "demo_entries = [\<lparr>en_seq = 1, en_sessionId = ''s'', en_update = fst (demo_updates ! 0)\<rparr>, \<lparr>en_seq = 2, en_sessionId = ''s'', en_update = fst (demo_updates ! 1)\<rparr>, \<lparr>en_seq = 3, en_sessionId = ''s'', en_update = fst (demo_updates ! 2)\<rparr>, \<lparr>en_seq = 4, en_sessionId = ''s'', en_update = fst (demo_updates ! 3)\<rparr>]"
    by (rule e)
  show "rb_durableEntries demo_end = [demo_entries ! 0, demo_entries ! 2]" by (simp add: e d)
qed

lemma demo_pushes: "push_all no_files True ''s'' demo_updates demo_buffer = (demo_entries, demo_end)"
  by (simp add: demo_entries_def demo_end_def)

theorem replay_survives_restart_witness:
  "\<exists>r1. r1 = rb_new (snd (flushPersistence (\<lambda>_. True) demo_end no_files)) True 20 1 (Some ''s'') False None None \<and> rb_seq r1 = rb_seq demo_end"
proof -
  obtain r' files' where f: "flushPersistence (\<lambda>_. True) demo_end no_files = (r', files')" by fastforce
  have "demo_updates \<noteq> []" by (simp add: demo_updates_def)
  from replay_survives_restart [OF _ _ demo_buffer_def demo_pushes this f refl, of 20 1 False None None] show ?thesis
    by (simp add: f)
qed

theorem ring_refines_log_witness:
  "getMemoryEntries (fold push_memory demo_entries demo_buffer) = [demo_entries ! 3]"
proof -
  have m: "getMemoryEntries demo_buffer = []" "rb_maxSize demo_buffer = 1"
    using rb_new_facts [of "''s''" 1 demo_buffer no_files True 9 False None None] by (auto simp: demo_buffer_def)
  then show ?thesis using ring_refines_log [OF demo_open(2), of demo_entries] by (simp add: m demo_entries_eq(1) last_n_def)
qed


end
