(* ===== verification/Session_Permissions.thy ===== *)
theory Session_Permissions
  imports Json
begin

text \<open>
  The permission requests of agent sessions: \<open>permissions/engine.ts\<close>, \<open>core/permission-coordinator.ts\<close>, and what
  \<open>core/daemon.ts\<close>, \<open>core/session-manager.ts\<close>, \<open>server/ws-command-handlers.ts\<close> and \<open>server/http-session-routes.ts\<close> do with
  them.

  The agent asks before it uses a tool. The question is answered at once by the mode of the session or by its lists of
  tools, or it waits for an operator, a timeout, an abort or the end of the session. A question that waits is a
  \<open>waiter\<close>: the closure that listens for \<open>permission:responded\<close>, with its timer. A waiter is in the list exactly while its
  flag \<open>resolved\<close> is false; \<open>resolveOnce\<close> takes it out and records the decision, which settles the promise.
\<close>

section \<open>Configuration\<close>

record permissions_config =
  autoApprove :: "string list"
  requireApproval :: "string list"
  deny :: "string list"

text \<open>The fields of a session's configuration that the permissions depend on.\<close>

record session_config =
  sc_permissions :: permissions_config
  sc_trust :: string
  sc_approvalPolicy :: "string option"

datatype permission_resolution = Auto_approve | Require_approval | Deny_tool

datatype permission_decision =
    Allow "json option" \<comment> \<open>updated input\<close>
  | Deny "string option"

datatype agent_mode = Detect | Bypass

type_synonym counters = "(string, nat) js_map"

definition metric :: "string \<Rightarrow> counters \<Rightarrow> counters" where
  "metric name m = jm_set name ((case jm_get m name of Some n \<Rightarrow> n | None \<Rightarrow> 0) + 1) m"

definition resolvePermission :: "string \<Rightarrow> permissions_config \<Rightarrow> counters \<Rightarrow> permission_resolution \<times> counters" where
  "resolvePermission toolName config m =
     (if toolName \<in> set (deny config) then (Deny_tool, metric ''permissions.denied'' m)
      else if toolName \<in> set (autoApprove config) then (Auto_approve, metric ''permissions.auto_approved'' m)
      else if toolName \<in> set (requireApproval config) then (Require_approval, metric ''permissions.require_approval'' m)
      else (Require_approval, metric ''permissions.require_approval'' m))"

definition automatedNever :: "session_config \<Rightarrow> bool" where
  "automatedNever config \<longleftrightarrow> sc_trust config = ''automated'' \<and> sc_approvalPolicy config = Some ''never''"

definition defaultSessionAgentMode :: "session_config \<Rightarrow> agent_mode" where
  "defaultSessionAgentMode config = (if automatedNever config then Bypass else Detect)"

definition with_autoApprove :: "session_config \<Rightarrow> string \<Rightarrow> session_config" where
  "with_autoApprove config toolName =
     (if toolName \<in> set (autoApprove (sc_permissions config)) then config
      else config\<lparr>sc_permissions := (sc_permissions config)\<lparr>autoApprove := autoApprove (sc_permissions config) @ [toolName]\<rparr>\<rparr>)"

section \<open>The coordinator\<close>

record pending_request =
  pr_sessionId :: string
  pr_requestId :: string
  pr_toolName :: string
  pr_description :: string
  pr_input :: json
  pr_decisionReason :: "string option"
  pr_createdAt :: int

record waiter =
  wt_call :: nat
  wt_sessionId :: string
  wt_toolUseId :: string

datatype bus_event =
    Permission_requested string string \<comment> \<open>session, request\<close>
  | Idle_timeout string int

record coordinator =
  pendingPermissions :: "(string, string list) js_map"
  requestToolNames :: "(string, string) js_map"
  pendingRequestDetails :: "(string, pending_request) js_map"
  sessionModes :: "(string, agent_mode) js_map"
  timeoutMs :: nat
  waiters :: "waiter list"
  decided :: "(nat \<times> permission_decision) list"
  emitted :: "bus_event list"
  pm_counters :: counters

definition decide :: "nat \<Rightarrow> permission_decision \<Rightarrow> coordinator \<Rightarrow> coordinator" where
  "decide call d c = c\<lparr>decided := decided c @ [(call, d)]\<rparr>"

definition drop_pending :: "string \<Rightarrow> string \<Rightarrow> coordinator \<Rightarrow> coordinator" where
  "drop_pending sessionId toolUseId c =
     c\<lparr>pendingPermissions :=
         (case jm_get (pendingPermissions c) sessionId of
            None \<Rightarrow> pendingPermissions c
          | Some ids \<Rightarrow>
              let rest = filter (\<lambda>i. i \<noteq> toolUseId) ids
              in if rest = [] then jm_delete sessionId (pendingPermissions c) else jm_set sessionId rest (pendingPermissions c)),
       requestToolNames := jm_delete toolUseId (requestToolNames c),
       pendingRequestDetails := jm_delete toolUseId (pendingRequestDetails c)\<rparr>"

definition resolveOnce :: "waiter \<Rightarrow> permission_decision \<Rightarrow> coordinator \<Rightarrow> coordinator" where
  "resolveOnce w d c =
     (if w \<notin> set (waiters c) then c
      else decide (wt_call w) d (drop_pending (wt_sessionId w) (wt_toolUseId w) (c\<lparr>waiters := filter (\<lambda>v. v \<noteq> w) (waiters c)\<rparr>)))"

definition add_pending :: "string \<Rightarrow> string \<Rightarrow> (string, string list) js_map \<Rightarrow> (string, string list) js_map" where
  "add_pending sessionId toolUseId m =
     (let ids = (case jm_get m sessionId of Some xs \<Rightarrow> xs | None \<Rightarrow> [])
      in jm_set sessionId (if toolUseId \<in> set ids then ids else ids @ [toolUseId]) m)"

text \<open>The part of the handler that asks for an approval.\<close>

definition await_approval ::
    "nat \<Rightarrow> string \<Rightarrow> string \<Rightarrow> json \<Rightarrow> string \<Rightarrow> string option \<Rightarrow> int \<Rightarrow> coordinator \<Rightarrow> coordinator" where
  "await_approval call sessionId toolName input toolUseId reason now c =
     c\<lparr>emitted := emitted c @ [Permission_requested sessionId toolUseId],
       pendingPermissions := add_pending sessionId toolUseId (pendingPermissions c),
       requestToolNames := jm_set toolUseId toolName (requestToolNames c),
       pendingRequestDetails := jm_set toolUseId
         \<lparr>pr_sessionId = sessionId, pr_requestId = toolUseId, pr_toolName = toolName,
          pr_description = toolName @ '' wants to execute'', pr_input = input, pr_decisionReason = reason,
          pr_createdAt = now\<rparr> (pendingRequestDetails c),
       waiters := waiters c @ [\<lparr>wt_call = call, wt_sessionId = sessionId, wt_toolUseId = toolUseId\<rparr>]\<rparr>"

text \<open>The handler that \<open>createPermissionHandler\<close> returns. \<open>call\<close> names the call of the handler.\<close>

definition permissionHandler ::
    "nat \<Rightarrow> string \<Rightarrow> session_config \<Rightarrow> string \<Rightarrow> json \<Rightarrow> string \<Rightarrow> string option \<Rightarrow> int \<Rightarrow> coordinator \<Rightarrow> coordinator" where
  "permissionHandler call sessionId config toolName input toolUseId reason now c =
     (if jm_get (sessionModes c) sessionId = Some Bypass \<or> automatedNever config then decide call (Allow None) c
      else
        let (resolution, m) = resolvePermission toolName (sc_permissions config) (pm_counters c); c1 = c\<lparr>pm_counters := m\<rparr>
        in case resolution of
             Auto_approve \<Rightarrow> decide call (Allow None) c1
           | Deny_tool \<Rightarrow> decide call (Deny (Some (''Tool \"'' @ toolName @ ''\" is denied by policy''))) c1
           | Require_approval \<Rightarrow> await_approval call sessionId toolName input toolUseId reason now c1)"

text \<open>\<open>emit('permission:responded')\<close> calls the listeners that are registered when it starts, in order.\<close>

definition answers :: "string \<Rightarrow> string \<Rightarrow> waiter \<Rightarrow> bool" where
  "answers sessionId requestId w \<longleftrightarrow> wt_sessionId w = sessionId \<and> wt_toolUseId w = requestId"

definition respondPermission :: "string \<Rightarrow> string \<Rightarrow> permission_decision \<Rightarrow> coordinator \<Rightarrow> coordinator" where
  "respondPermission sessionId requestId d c =
     fold (\<lambda>w c. if answers sessionId requestId w then resolveOnce w d c else c) (waiters c) c"

definition timer_fires :: "(rat \<Rightarrow> string) \<Rightarrow> waiter \<Rightarrow> int \<Rightarrow> coordinator \<Rightarrow> coordinator" where
  "timer_fires num_text w now c =
     resolveOnce w (Deny (Some (''Permission request timed out after '' @ num_text (of_nat (timeoutMs c) / 1000) @ ''s'')))
       (c\<lparr>emitted := emitted c @ [Idle_timeout (wt_sessionId w) now]\<rparr>)"

definition abort_fires :: "waiter \<Rightarrow> coordinator \<Rightarrow> coordinator" where
  "abort_fires w c = resolveOnce w (Deny (Some ''Request cancelled'')) c"

definition rejectPendingPermissions :: "string \<Rightarrow> coordinator \<Rightarrow> coordinator" where
  "rejectPendingPermissions sessionId c =
     (case jm_get (pendingPermissions c) sessionId of
        None \<Rightarrow> c
      | Some ids \<Rightarrow>
          if ids = [] then c
          else
            let c1 = fold (\<lambda>requestId. respondPermission sessionId requestId (Deny (Some ''Session ended''))) ids c
            in c1\<lparr>pendingPermissions := jm_delete sessionId (pendingPermissions c1),
                  pendingRequestDetails := jm_filter (\<lambda>_ detail. pr_sessionId detail \<noteq> sessionId) (pendingRequestDetails c1)\<rparr>)"

definition getRequestToolName :: "string \<Rightarrow> coordinator \<Rightarrow> string option" where
  "getRequestToolName requestId c = jm_get (requestToolNames c) requestId"

definition setSessionMode :: "string \<Rightarrow> agent_mode \<Rightarrow> coordinator \<Rightarrow> coordinator" where
  "setSessionMode sessionId mode c = c\<lparr>sessionModes := jm_set sessionId mode (sessionModes c)\<rparr>"

definition getSessionMode :: "string \<Rightarrow> coordinator \<Rightarrow> agent_mode" where
  "getSessionMode sessionId c = (case jm_get (sessionModes c) sessionId of Some m \<Rightarrow> m | None \<Rightarrow> Detect)"

definition clearSessionMode :: "string \<Rightarrow> coordinator \<Rightarrow> coordinator" where
  "clearSessionMode sessionId c = c\<lparr>sessionModes := jm_delete sessionId (sessionModes c)\<rparr>"

definition listPendingPermissions :: "string option \<Rightarrow> coordinator \<Rightarrow> pending_request list" where
  "listPendingPermissions sessionId c =
     sort_key pr_createdAt
       (filter (\<lambda>detail. \<not> truthy sessionId \<or> Some (pr_sessionId detail) = sessionId) (map snd (pendingRequestDetails c)))"

section \<open>The daemon\<close>

record permission_daemon =
  coord :: coordinator
  sessions :: "(string, session_config) js_map"

text \<open>A launched or resumed session: its mode is set before the adapter starts it, and it becomes active when the adapter
  has started. When the adapter fails, the mode is cleared.\<close>

definition session_starting :: "string \<Rightarrow> session_config \<Rightarrow> permission_daemon \<Rightarrow> permission_daemon" where
  "session_starting sessionId config d = d\<lparr>coord := setSessionMode sessionId (defaultSessionAgentMode config) (coord d)\<rparr>"

definition session_started :: "string \<Rightarrow> session_config \<Rightarrow> permission_daemon \<Rightarrow> permission_daemon" where
  "session_started sessionId config d = d\<lparr>sessions := jm_set sessionId config (sessions d)\<rparr>"

definition session_not_started :: "string \<Rightarrow> permission_daemon \<Rightarrow> permission_daemon" where
  "session_not_started sessionId d = d\<lparr>coord := clearSessionMode sessionId (coord d)\<rparr>"

text \<open>The configuration that the handler of a session sees: the current one, or the one it was launched with.\<close>

definition handler_config :: "string \<Rightarrow> session_config \<Rightarrow> permission_daemon \<Rightarrow> session_config" where
  "handler_config sessionId launched d = (case jm_get (sessions d) sessionId of Some config \<Rightarrow> config | None \<Rightarrow> launched)"

definition canUseTool ::
    "nat \<Rightarrow> string \<Rightarrow> session_config \<Rightarrow> string \<Rightarrow> json \<Rightarrow> string \<Rightarrow> string option \<Rightarrow> int \<Rightarrow> permission_daemon \<Rightarrow> permission_daemon" where
  "canUseTool call sessionId launched toolName input toolUseId reason now d =
     d\<lparr>coord := permissionHandler call sessionId (handler_config sessionId launched d) toolName input toolUseId reason now (coord d)\<rparr>"

text \<open>\<open>None\<close> is the error \<open>SESSION_NOT_FOUND\<close>.\<close>

definition respondPermissionForSession :: "string \<Rightarrow> string \<Rightarrow> permission_decision \<Rightarrow> bool \<Rightarrow> coordinator \<Rightarrow> coordinator option" where
  "respondPermissionForSession sessionId requestId d sessionExists c =
     (if sessionExists then Some (respondPermission sessionId requestId d c) else None)"

definition daemon_respondPermission :: "string \<Rightarrow> string \<Rightarrow> permission_decision \<Rightarrow> permission_daemon \<Rightarrow> permission_daemon option" where
  "daemon_respondPermission sessionId requestId dec d =
     map_option (\<lambda>c. d\<lparr>coord := c\<rparr>)
       (respondPermissionForSession sessionId requestId dec (jm_get (sessions d) sessionId \<noteq> None) (coord d))"

definition updateSessionConfig :: "string \<Rightarrow> session_config \<Rightarrow> permission_daemon \<Rightarrow> permission_daemon option" where
  "updateSessionConfig sessionId config d =
     (case jm_get (sessions d) sessionId of None \<Rightarrow> None | Some _ \<Rightarrow> Some (d\<lparr>sessions := jm_set sessionId config (sessions d)\<rparr>))"

definition addAutoApprove :: "string \<Rightarrow> string \<Rightarrow> permission_daemon \<Rightarrow> permission_daemon" where
  "addAutoApprove sessionId toolName d =
     (case jm_get (sessions d) sessionId of
        None \<Rightarrow> d
      | Some config \<Rightarrow>
          let next = with_autoApprove config toolName
          in if next \<noteq> config then the (updateSessionConfig sessionId next d) else d)"

definition always_allow :: "string \<Rightarrow> string \<Rightarrow> permission_daemon \<Rightarrow> permission_daemon" where
  "always_allow sessionId requestId d =
     (if truthy (getRequestToolName requestId (coord d))
      then addAutoApprove sessionId (the (getRequestToolName requestId (coord d))) d else d)"

datatype behavior = Behavior_allow | Behavior_deny | Behavior_allow_always

text \<open>The command \<open>respond-permission\<close> of a WebSocket client and the route \<open>/api/permissions/respond\<close>. A response to a
  session that is not active fails, but what \<open>allow-always\<close> did before stays.\<close>

definition respond_permission_command :: "string \<Rightarrow> string \<Rightarrow> behavior \<Rightarrow> string option \<Rightarrow> permission_daemon \<Rightarrow> permission_daemon" where
  "respond_permission_command sessionId requestId b message d =
     (let d1 = (if b = Behavior_allow_always then always_allow sessionId requestId d else d)
      in case daemon_respondPermission sessionId requestId (if b = Behavior_deny then Deny message else Allow None) d1 of
           Some d2 \<Rightarrow> d2
         | None \<Rightarrow> d1)"

definition respond_permission_route :: "string \<Rightarrow> string \<Rightarrow> bool \<Rightarrow> string option \<Rightarrow> bool \<Rightarrow> permission_daemon \<Rightarrow> permission_daemon" where
  "respond_permission_route sessionId requestId allow message allowAlways d =
     (let d1 = (if allow \<and> allowAlways then always_allow sessionId requestId d else d)
      in case daemon_respondPermission sessionId requestId
                (if allow then Allow None else Deny (if truthy message then message else None)) d1 of
           Some d2 \<Rightarrow> d2
         | None \<Rightarrow> d1)"

definition daemon_setSessionMode :: "string \<Rightarrow> agent_mode \<Rightarrow> permission_daemon \<Rightarrow> permission_daemon option" where
  "daemon_setSessionMode sessionId mode d =
     (if jm_get (sessions d) sessionId = None then None else Some (d\<lparr>coord := setSessionMode sessionId mode (coord d)\<rparr>))"

text \<open>The end of a session: the questions are rejected at once, the session is removed after the tracker's work.\<close>

definition session_over :: "string \<Rightarrow> permission_daemon \<Rightarrow> permission_daemon" where
  "session_over sessionId d = d\<lparr>coord := rejectPendingPermissions sessionId (coord d)\<rparr>"

definition session_removed :: "string \<Rightarrow> permission_daemon \<Rightarrow> permission_daemon" where
  "session_removed sessionId d =
     d\<lparr>sessions := jm_delete sessionId (sessions d), coord := clearSessionMode sessionId (coord d)\<rparr>"

section \<open>The course of events\<close>

datatype perm_event =
    Tool_use nat string session_config string json string "string option" int
  | Command string string behavior "string option"
  | Route string string bool "string option" bool
  | Timer waiter int
  | Aborted waiter
  | Mode_set string agent_mode
  | Starting string session_config
  | Started string session_config
  | Not_started string
  | Ended string
  | Removed string

definition asked :: "coordinator \<Rightarrow> nat list" where
  "asked c = map wt_call (waiters c) @ map fst (decided c)"

text \<open>A tool use has an id of its own, which no other open question has.\<close>

fun event_possible :: "perm_event \<Rightarrow> permission_daemon \<Rightarrow> bool" where
  "event_possible (Tool_use call _ _ _ _ toolUseId _ _) d \<longleftrightarrow>
     call \<notin> set (asked (coord d)) \<and> toolUseId \<notin> wt_toolUseId ` set (waiters (coord d))"
| "event_possible (Timer w _) d \<longleftrightarrow> w \<in> set (waiters (coord d))"
| "event_possible _ d \<longleftrightarrow> True"

fun perform :: "(rat \<Rightarrow> string) \<Rightarrow> perm_event \<Rightarrow> permission_daemon \<Rightarrow> permission_daemon" where
  "perform num_text (Tool_use call sid launched tool input tid reason now) d = canUseTool call sid launched tool input tid reason now d"
| "perform num_text (Command sid rid b msg) d = respond_permission_command sid rid b msg d"
| "perform num_text (Route sid rid allow msg always) d = respond_permission_route sid rid allow msg always d"
| "perform num_text (Timer w now) d = d\<lparr>coord := timer_fires num_text w now (coord d)\<rparr>"
| "perform num_text (Aborted w) d = d\<lparr>coord := abort_fires w (coord d)\<rparr>"
| "perform num_text (Mode_set sid mode) d = (case daemon_setSessionMode sid mode d of Some d' \<Rightarrow> d' | None \<Rightarrow> d)"
| "perform num_text (Starting sid config) d = session_starting sid config d"
| "perform num_text (Started sid config) d = session_started sid config d"
| "perform num_text (Not_started sid) d = session_not_started sid d"
| "perform num_text (Ended sid) d = session_over sid d"
| "perform num_text (Removed sid) d = session_removed sid d"

definition perm_step :: "(rat \<Rightarrow> string) \<Rightarrow> permission_daemon \<Rightarrow> permission_daemon \<Rightarrow> bool" where
  "perm_step num_text d d' \<longleftrightarrow> (\<exists>e. event_possible e d \<and> d' = perform num_text e d)"

definition perm_initial :: "permission_daemon \<Rightarrow> bool" where
  "perm_initial d \<longleftrightarrow>
     pendingPermissions (coord d) = [] \<and> requestToolNames (coord d) = [] \<and> pendingRequestDetails (coord d) = [] \<and>
     sessionModes (coord d) = [] \<and> waiters (coord d) = [] \<and> decided (coord d) = [] \<and> sessions d = []"

section \<open>The invariant\<close>

definition pending_ids :: "coordinator \<Rightarrow> string \<Rightarrow> string list" where
  "pending_ids c sid = (case jm_get (pendingPermissions c) sid of Some ids \<Rightarrow> ids | None \<Rightarrow> [])"

definition waiting_ids :: "coordinator \<Rightarrow> string \<Rightarrow> string set" where
  "waiting_ids c sid = wt_toolUseId ` {w \<in> set (waiters c). wt_sessionId w = sid}"

definition listed :: "coordinator \<Rightarrow> waiter \<Rightarrow> bool" where
  "listed c w \<longleftrightarrow>
     (\<exists>detail. jm_get (pendingRequestDetails c) (wt_toolUseId w) = Some detail \<and> pr_sessionId detail = wt_sessionId w \<and>
       pr_requestId detail = wt_toolUseId w \<and> jm_get (requestToolNames c) (wt_toolUseId w) = Some (pr_toolName detail))"

definition coord_inv :: "coordinator \<Rightarrow> bool" where
  "coord_inv c \<longleftrightarrow>
     distinct (asked c) \<and> distinct (map wt_toolUseId (waiters c)) \<and>
     (\<forall>sid. set (pending_ids c sid) = waiting_ids c sid \<and> jm_get (pendingPermissions c) sid \<noteq> Some []) \<and>
     (\<forall>w \<in> set (waiters c). listed c w) \<and>
     set (jm_keys (pendingRequestDetails c)) = wt_toolUseId ` set (waiters c) \<and>
     set (jm_keys (requestToolNames c)) = wt_toolUseId ` set (waiters c) \<and> jm_wf (pendingRequestDetails c)"

lemma coord_invD:
  assumes "coord_inv c"
  shows "distinct (asked c)" "distinct (map wt_toolUseId (waiters c))" "set (pending_ids c sid) = waiting_ids c sid"
    "jm_get (pendingPermissions c) sid \<noteq> Some []" "w \<in> set (waiters c) \<Longrightarrow> listed c w"
    "set (jm_keys (pendingRequestDetails c)) = wt_toolUseId ` set (waiters c)"
    "set (jm_keys (requestToolNames c)) = wt_toolUseId ` set (waiters c)" "jm_wf (pendingRequestDetails c)"
  using assms by (auto simp: coord_inv_def)

lemma waiter_unique:
  "coord_inv c \<Longrightarrow> v \<in> set (waiters c) \<Longrightarrow> w \<in> set (waiters c) \<Longrightarrow> wt_toolUseId v = wt_toolUseId w \<Longrightarrow> v = w"
  using coord_invD(2) by (auto simp: distinct_map inj_on_def)

lemma drop_pending_simps [simp]:
  "waiters (drop_pending sid tid c) = waiters c" "decided (drop_pending sid tid c) = decided c"
  "sessionModes (drop_pending sid tid c) = sessionModes c"
  by (simp_all add: drop_pending_def)

lemma drop_pending_ids: "pending_ids (drop_pending sid tid c) s = (if s = sid then filter (\<lambda>i. i \<noteq> tid) (pending_ids c s) else pending_ids c s)"
  by (auto simp: drop_pending_def pending_ids_def Let_def split: option.splits)

lemma decide_simps [simp]:
  "waiters (decide call d c) = waiters c" "decided (decide call d c) = decided c @ [(call, d)]"
  "pendingPermissions (decide call d c) = pendingPermissions c" "pendingRequestDetails (decide call d c) = pendingRequestDetails c"
  "requestToolNames (decide call d c) = requestToolNames c" "sessionModes (decide call d c) = sessionModes c"
  by (simp_all add: decide_def)

lemma resolveOnce_effect:
  assumes "coord_inv c" and "w \<in> set (waiters c)"
  shows "coord_inv (resolveOnce w d c)" and "waiters (resolveOnce w d c) = filter (\<lambda>v. v \<noteq> w) (waiters c)"
    and "decided (resolveOnce w d c) = decided c @ [(wt_call w, d)]"
proof -
  let ?c = "resolveOnce w d c" and ?ws = "filter (\<lambda>v. v \<noteq> w) (waiters c)"
  show w: "waiters ?c = ?ws" and d: "decided ?c = decided c @ [(wt_call w, d)]" using assms(2) by (simp_all add: resolveOnce_def)
  note i = coord_invD [OF assms(1)]
  obtain xs ys where ws: "waiters c = xs @ w # ys" using assms(2) by (auto simp: in_set_conv_decomp)
  have "distinct (waiters c)" using i(2) by (simp add: distinct_map)
  moreover have "filter (\<lambda>v. v \<noteq> w) zs = zs" if "w \<notin> set zs" for zs using that by (induction zs) auto
  ultimately have "?ws = xs @ ys" by (simp add: ws)
  then have calls: "distinct (asked ?c)" using i(1) unfolding asked_def w d ws by auto
  have ids: "wt_toolUseId ` set ?ws = wt_toolUseId ` set (waiters c) - {wt_toolUseId w}"
    using waiter_unique [OF assms(1) _ assms(2)] by auto
  have dist: "distinct (map wt_toolUseId ?ws)" using i(2) by (simp add: distinct_map inj_on_def)
  have p: "pending_ids ?c s = (if s = wt_sessionId w then filter (\<lambda>i. i \<noteq> wt_toolUseId w) (pending_ids c s) else pending_ids c s)" for s
    using assms(2) by (simp add: resolveOnce_def pending_ids_def [of "decide _ _ _"] drop_pending_ids [unfolded pending_ids_def]) (simp add: pending_ids_def)
  have wi: "set (pending_ids ?c s) = waiting_ids ?c s" for s
    using i(3) [of s] waiter_unique [OF assms(1) _ assms(2)] by (auto simp: p waiting_ids_def w)
  have ne: "jm_get (pendingPermissions ?c) s \<noteq> Some []" for s
    using i(4) [of s] assms(2) by (auto simp: resolveOnce_def drop_pending_def Let_def split: option.splits if_splits)
  have l: "listed ?c v" if "v \<in> set ?ws" for v
    using i(5) [of v] that waiter_unique [OF assms(1) _ assms(2), of v] assms(2)
    by (auto simp: resolveOnce_def drop_pending_def listed_def)
  have "set (jm_keys (pendingRequestDetails ?c)) = wt_toolUseId ` set ?ws" "set (jm_keys (requestToolNames ?c)) = wt_toolUseId ` set ?ws"
    using i(6,7) assms(2) unfolding ids by (auto simp: resolveOnce_def drop_pending_def jm_keys_delete)
  moreover have "jm_wf (pendingRequestDetails ?c)" using i(8) assms(2) by (simp add: resolveOnce_def drop_pending_def)
  ultimately show "coord_inv ?c" using calls dist wi ne l by (simp add: coord_inv_def w)
qed

lemma resolveOnce_idle: "w \<notin> set (waiters c) \<Longrightarrow> resolveOnce w d c = c"
  by (simp add: resolveOnce_def)

lemma resolveOnce_inv: "coord_inv c \<Longrightarrow> coord_inv (resolveOnce w d c)"
  by (cases "w \<in> set (waiters c)") (simp_all add: resolveOnce_effect(1) resolveOnce_idle)

text \<open>A response resolves the question it names, and nothing else.\<close>

lemma skip_others:
  "\<forall>w \<in> set ws. \<not> answers sid rid w \<Longrightarrow> fold (\<lambda>w c. if answers sid rid w then resolveOnce w d c else c) ws c = c"
  by (induction ws) auto

lemma respondPermission_idle: "\<forall>w \<in> set (waiters c). \<not> answers sid rid w \<Longrightarrow> respondPermission sid rid d c = c"
  unfolding respondPermission_def by (rule skip_others)

lemma answers_unique: "coord_inv c \<Longrightarrow> w \<in> set (waiters c) \<Longrightarrow> answers sid rid w \<Longrightarrow> v \<in> set (waiters c) \<Longrightarrow> answers sid rid v \<longleftrightarrow> v = w"
  using waiter_unique [of c v w] by (auto simp: answers_def)

lemma respondPermission_one:
  assumes "coord_inv c" and "w \<in> set (waiters c)" and "answers sid rid w"
  shows "respondPermission sid rid d c = resolveOnce w d c"
proof -
  obtain xs ys where ws: "waiters c = xs @ w # ys" using assms(2) by (auto simp: in_set_conv_decomp)
  have "distinct (waiters c)" using coord_invD(2) [OF assms(1)] by (simp add: distinct_map)
  then have "w \<notin> set xs" "w \<notin> set ys" by (auto simp: ws)
  moreover have "set xs \<union> set ys \<subseteq> set (waiters c)" by (auto simp: ws)
  ultimately have "\<forall>v \<in> set xs. \<not> answers sid rid v" "\<forall>v \<in> set ys. \<not> answers sid rid v"
    using answers_unique [OF assms] by blast+
  then show ?thesis using assms(3) unfolding respondPermission_def ws by (simp add: skip_others)
qed

lemma respondPermission_cases:
  assumes "coord_inv c"
  obtains w where "w \<in> set (waiters c)" and "answers sid rid w" and "respondPermission sid rid d c = resolveOnce w d c"
  | "\<forall>w \<in> set (waiters c). \<not> answers sid rid w" and "respondPermission sid rid d c = c"
  using respondPermission_one [OF assms] respondPermission_idle by blast

lemma filter_single: "distinct xs \<Longrightarrow> x \<in> set xs \<Longrightarrow> filter (\<lambda>y. y = x) xs = [x]"
  by (induction xs) (auto simp: filter_empty_conv)

lemma respondPermission_effect:
  assumes "coord_inv c"
  shows "coord_inv (respondPermission sid rid d c)"
    and "waiters (respondPermission sid rid d c) = filter (\<lambda>w. \<not> answers sid rid w) (waiters c)"
    and "decided (respondPermission sid rid d c) = decided c @ map (\<lambda>w. (wt_call w, d)) (filter (answers sid rid) (waiters c))"
proof -
  note r = resolveOnce_effect [OF assms]
  from assms have "coord_inv (respondPermission sid rid d c) \<and>
      waiters (respondPermission sid rid d c) = filter (\<lambda>w. \<not> answers sid rid w) (waiters c) \<and>
      decided (respondPermission sid rid d c) = decided c @ map (\<lambda>w. (wt_call w, d)) (filter (answers sid rid) (waiters c))"
  proof (cases rule: respondPermission_cases [of c sid rid d])
    case (1 w)
    have "distinct (waiters c)" using coord_invD(2) [OF assms] by (simp add: distinct_map)
    then have "filter (\<lambda>v. v = w) (waiters c) = [w]" using 1(1) by (rule filter_single)
    moreover have "filter (answers sid rid) (waiters c) = filter (\<lambda>v. v = w) (waiters c)"
        "filter (\<lambda>v. \<not> answers sid rid v) (waiters c) = filter (\<lambda>v. v \<noteq> w) (waiters c)"
      using answers_unique [OF assms 1(1,2)] by (auto intro!: filter_cong)
    ultimately show ?thesis using r [OF 1(1)] 1(3) by simp
  next
    case 2
    then show ?thesis using assms by (simp add: filter_id_conv)
  qed
  then show "coord_inv (respondPermission sid rid d c)" "waiters (respondPermission sid rid d c) = filter (\<lambda>w. \<not> answers sid rid w) (waiters c)"
    "decided (respondPermission sid rid d c) = decided c @ map (\<lambda>w. (wt_call w, d)) (filter (answers sid rid) (waiters c))" by auto
qed

lemma reject_fold:
  assumes "coord_inv c"
  shows "coord_inv (fold (\<lambda>rid. respondPermission sid rid d) ids c)
    \<and> waiters (fold (\<lambda>rid. respondPermission sid rid d) ids c) = filter (\<lambda>w. \<not> (wt_sessionId w = sid \<and> wt_toolUseId w \<in> set ids)) (waiters c)
    \<and> (\<exists>ws. decided (fold (\<lambda>rid. respondPermission sid rid d) ids c) = decided c @ map (\<lambda>w. (wt_call w, d)) ws
         \<and> set ws = {w \<in> set (waiters c). wt_sessionId w = sid \<and> wt_toolUseId w \<in> set ids})"
  using assms
proof (induction ids arbitrary: c)
  case (Cons rid ids)
  let ?c = "respondPermission sid rid d c"
  note e = respondPermission_effect [OF Cons.prems, of sid rid d]
  from Cons.IH [OF e(1)] obtain ws where f: "coord_inv (fold (\<lambda>rid. respondPermission sid rid d) ids ?c)"
    "waiters (fold (\<lambda>rid. respondPermission sid rid d) ids ?c) = filter (\<lambda>w. \<not> (wt_sessionId w = sid \<and> wt_toolUseId w \<in> set ids)) (waiters ?c)"
    "decided (fold (\<lambda>rid. respondPermission sid rid d) ids ?c) = decided ?c @ map (\<lambda>w. (wt_call w, d)) ws"
    "set ws = {w \<in> set (waiters ?c). wt_sessionId w = sid \<and> wt_toolUseId w \<in> set ids}" by blast
  have "decided (fold (\<lambda>rid. respondPermission sid rid d) ids ?c) = decided c @ map (\<lambda>w. (wt_call w, d)) (filter (answers sid rid) (waiters c) @ ws)"
    by (simp add: f(3) e(3))
  moreover have "set (filter (answers sid rid) (waiters c) @ ws) = {w \<in> set (waiters c). wt_sessionId w = sid \<and> wt_toolUseId w \<in> set (rid # ids)}"
    by (auto simp: f(4) e(2) answers_def)
  moreover have "filter (\<lambda>w. \<not> (wt_sessionId w = sid \<and> wt_toolUseId w \<in> set ids)) (waiters ?c)
      = filter (\<lambda>w. \<not> (wt_sessionId w = sid \<and> wt_toolUseId w \<in> set (rid # ids))) (waiters c)"
    by (auto simp: e(2) answers_def intro!: filter_cong)
  ultimately show ?case using f(1,2) by (simp only: fold_simps comp_def) blast
qed simp

lemma no_pending: "coord_inv c \<Longrightarrow> waiting_ids c sid = {} \<Longrightarrow> jm_get (pendingPermissions c) sid = None"
  using coord_invD(3,4) [of c sid] by (cases "jm_get (pendingPermissions c) sid") (auto simp: pending_ids_def)

text \<open>At the end of a session all its questions are denied.\<close>

lemma rejectPending_effect:
  assumes "coord_inv c"
  shows "coord_inv (rejectPendingPermissions sid c)"
    and "waiters (rejectPendingPermissions sid c) = filter (\<lambda>w. wt_sessionId w \<noteq> sid) (waiters c)"
    and "\<exists>ws. decided (rejectPendingPermissions sid c) = decided c @ map (\<lambda>w. (wt_call w, Deny (Some ''Session ended''))) ws
          \<and> set ws = {w \<in> set (waiters c). wt_sessionId w = sid}"
proof -
  let ?ids = "pending_ids c sid" and ?d = "Deny (Some ''Session ended'')"
  let ?f = "fold (\<lambda>rid. respondPermission sid rid ?d) ?ids c"
  have ids: "set ?ids = waiting_ids c sid" by (rule coord_invD(3) [OF assms])
  have m: "wt_toolUseId w \<in> set ?ids" if "w \<in> set (waiters c)" "wt_sessionId w = sid" for w using that by (auto simp: ids waiting_ids_def)
  obtain ws where f: "coord_inv ?f" "waiters ?f = filter (\<lambda>w. \<not> (wt_sessionId w = sid \<and> wt_toolUseId w \<in> set ?ids)) (waiters c)"
    "decided ?f = decided c @ map (\<lambda>w. (wt_call w, ?d)) ws" "set ws = {w \<in> set (waiters c). wt_sessionId w = sid \<and> wt_toolUseId w \<in> set ?ids}"
    using reject_fold [OF assms, of sid ?d ?ids] by blast
  have w: "waiters ?f = filter (\<lambda>w. wt_sessionId w \<noteq> sid) (waiters c)" unfolding f(2) using m by (auto intro!: filter_cong)
  have ws: "set ws = {w \<in> set (waiters c). wt_sessionId w = sid}" unfolding f(4) using m by auto
  have none: "jm_get (pendingPermissions ?f) sid = None"
  proof -
    have "waiting_ids ?f sid = {}" by (auto simp: waiting_ids_def w)
    with f(1) show ?thesis by (rule no_pending)
  qed
  have detail: "jm_filter (\<lambda>_ detail. pr_sessionId detail \<noteq> sid) (pendingRequestDetails ?f) = pendingRequestDetails ?f"
  proof -
    have "pr_sessionId v \<noteq> sid" if "(k, v) \<in> set (pendingRequestDetails ?f)" for k v
    proof -
      have "k \<in> wt_toolUseId ` set (waiters ?f)" using that coord_invD(6) [OF f(1)] by (force simp: jm_keys_def)
      then obtain u where u: "u \<in> set (waiters ?f)" "k = wt_toolUseId u" by blast
      with that coord_invD(5) [OF f(1) u(1)] show ?thesis using jm_get_wf [OF coord_invD(8) [OF f(1)]] by (auto simp: listed_def w)
    qed
    then show ?thesis by (auto simp: jm_filter_def filter_id_conv)
  qed
  have "jm_delete sid (pendingPermissions ?f) = pendingPermissions ?f" using none by (auto simp: jm_delete_def filter_id_conv jm_get_None_iff)
  moreover have "?f = c" if "jm_get (pendingPermissions c) sid = None" using that by (simp add: pending_ids_def)
  moreover have "?ids \<noteq> []" "jm_get (pendingPermissions c) sid = Some ?ids" if "jm_get (pendingPermissions c) sid \<noteq> None"
    using that coord_invD(4) [OF assms, of sid] by (auto simp: pending_ids_def)
  ultimately have eq: "rejectPendingPermissions sid c = ?f"
    using detail by (cases "jm_get (pendingPermissions c) sid = None") (simp_all add: rejectPendingPermissions_def Let_def)
  show "coord_inv (rejectPendingPermissions sid c)" "waiters (rejectPendingPermissions sid c) = filter (\<lambda>w. wt_sessionId w \<noteq> sid) (waiters c)"
    "\<exists>ws. decided (rejectPendingPermissions sid c) = decided c @ map (\<lambda>w. (wt_call w, ?d)) ws \<and> set ws = {w \<in> set (waiters c). wt_sessionId w = sid}"
    using f w ws by (auto simp: eq)
qed

section \<open>Steps\<close>

lemma await_approval_effect:
  assumes "coord_inv c" and "call \<notin> set (asked c)" and "tid \<notin> wt_toolUseId ` set (waiters c)"
    and "c' = await_approval call sid tool input tid reason now c"
  shows "coord_inv c'" and "waiters c' = waiters c @ [\<lparr>wt_call = call, wt_sessionId = sid, wt_toolUseId = tid\<rparr>]"
    and "decided c' = decided c"
proof -
  let ?w = "\<lparr>wt_call = call, wt_sessionId = sid, wt_toolUseId = tid\<rparr>"
  show w: "waiters c' = waiters c @ [?w]" and d: "decided c' = decided c" by (simp_all add: assms(4) await_approval_def)
  note i = coord_invD [OF assms(1)]
  have "distinct (asked c')" using i(1) assms(2) by (simp add: asked_def w d)
  moreover have "distinct (map wt_toolUseId (waiters c'))" using i(2) assms(3) by (simp add: w)
  moreover have "set (pending_ids c' s) = waiting_ids c' s \<and> jm_get (pendingPermissions c') s \<noteq> Some []" for s
  proof -
    have "{v \<in> set (waiters c'). wt_sessionId v = s} = (if s = sid then {?w} else {}) \<union> {v \<in> set (waiters c). wt_sessionId v = s}"
      by (auto simp: w)
    then have "waiting_ids c' s = (if s = sid then {tid} else {}) \<union> waiting_ids c s" by (simp add: waiting_ids_def)
    moreover have "set (pending_ids c' s) = (if s = sid then {tid} else {}) \<union> set (pending_ids c s)"
      by (auto simp: assms(4) await_approval_def add_pending_def Let_def pending_ids_def split: option.splits)
    moreover have "jm_get (pendingPermissions c') s \<noteq> Some []"
      using i(4) [of s] by (auto simp: assms(4) await_approval_def add_pending_def Let_def split: option.splits)
    ultimately show ?thesis using i(3) [of s] by simp
  qed
  moreover have "listed c' v" if "v \<in> set (waiters c')" for v
    using that i(5) [of v] assms(3) unfolding w by (auto simp: assms(4) await_approval_def listed_def)
  moreover have "set (jm_keys (pendingRequestDetails c')) = wt_toolUseId ` set (waiters c')"
      "set (jm_keys (requestToolNames c')) = wt_toolUseId ` set (waiters c')" "jm_wf (pendingRequestDetails c')"
    using i(6-8) unfolding w by (auto simp: assms(4) await_approval_def jm_keys_set set_jm_keys)
  ultimately show "coord_inv c'" by (simp add: coord_inv_def)
qed

text \<open>Changes that leave the questions alone.\<close>

definition same_questions :: "coordinator \<Rightarrow> coordinator \<Rightarrow> bool" where
  "same_questions c c' \<longleftrightarrow>
     waiters c' = waiters c \<and> decided c' = decided c \<and> pendingPermissions c' = pendingPermissions c \<and>
     requestToolNames c' = requestToolNames c \<and> pendingRequestDetails c' = pendingRequestDetails c"

lemma same_questions_inv: "same_questions c c' \<Longrightarrow> coord_inv c' = coord_inv c"
  by (simp add: same_questions_def coord_inv_def asked_def pending_ids_def waiting_ids_def listed_def)

lemma same_questions_simps [simp]:
  "same_questions c c" "same_questions c (c\<lparr>pm_counters := m\<rparr>)" "same_questions c (setSessionMode sid mode c)"
  "same_questions c (clearSessionMode sid c)" "same_questions c (c\<lparr>emitted := es\<rparr>)"
  by (simp_all add: same_questions_def setSessionMode_def clearSessionMode_def)

lemma decide_inv: "coord_inv c \<Longrightarrow> call \<notin> set (asked c) \<Longrightarrow> coord_inv (decide call d c)"
  by (auto simp: coord_inv_def asked_def pending_ids_def waiting_ids_def listed_def)

lemma always_allow_simps [simp]: "coord (always_allow sid rid d) = coord d"
  "jm_get (sessions (always_allow sid rid d)) s = None \<longleftrightarrow> jm_get (sessions d) s = None"
  by (auto simp: always_allow_def addAutoApprove_def updateSessionConfig_def Let_def split: option.splits)

text \<open>What an event may decide, and why.\<close>

fun justified :: "perm_event \<Rightarrow> permission_daemon \<Rightarrow> nat \<Rightarrow> permission_decision \<Rightarrow> bool" where
  "justified (Tool_use call sid launched tool _ _ _ _) d n x \<longleftrightarrow>
     n = call \<and>
     (let config = handler_config sid launched d; perms = sc_permissions config
      in if jm_get (sessionModes (coord d)) sid = Some Bypass \<or> automatedNever config then x = Allow None
         else if tool \<in> set (deny perms) then (\<exists>m. x = Deny m)
         else x = Allow None \<and> tool \<in> set (autoApprove perms))"
| "justified (Command sid rid b msg) d n x \<longleftrightarrow>
     jm_get (sessions d) sid \<noteq> None \<and> (\<exists>w \<in> set (waiters (coord d)). wt_call w = n \<and> answers sid rid w) \<and>
     x = (if b = Behavior_deny then Deny msg else Allow None)"
| "justified (Route sid rid allow msg always) d n x \<longleftrightarrow>
     jm_get (sessions d) sid \<noteq> None \<and> (\<exists>w \<in> set (waiters (coord d)). wt_call w = n \<and> answers sid rid w) \<and>
     x = (if allow then Allow None else Deny (if truthy msg then msg else None))"
| "justified (Timer w _) d n x \<longleftrightarrow> w \<in> set (waiters (coord d)) \<and> n = wt_call w \<and> (\<exists>m. x = Deny m)"
| "justified (Aborted w) d n x \<longleftrightarrow> w \<in> set (waiters (coord d)) \<and> n = wt_call w \<and> (\<exists>m. x = Deny m)"
| "justified (Ended sid) d n x \<longleftrightarrow> (\<exists>w \<in> set (waiters (coord d)). wt_call w = n \<and> wt_sessionId w = sid) \<and> (\<exists>m. x = Deny m)"
| "justified _ d n x \<longleftrightarrow> False"

fun asks :: "perm_event \<Rightarrow> nat set" where
  "asks (Tool_use call _ _ _ _ _ _ _) = {call}"
| "asks _ = {}"

definition fair_step :: "perm_event \<Rightarrow> permission_daemon \<Rightarrow> permission_daemon \<Rightarrow> bool" where
  "fair_step e d d' \<longleftrightarrow>
     coord_inv (coord d') \<and> set (asked (coord d')) = set (asked (coord d)) \<union> asks e \<and>
     (\<exists>ds. decided (coord d') = decided (coord d) @ ds \<and> (\<forall>(n, x) \<in> set ds. justified e d n x))"

lemma fair_same:
  assumes "coord_inv (coord d)" and "same_questions (coord d) (coord d')" and "asks e = {}"
  shows "fair_step e d d'"
  using assms same_questions_inv [OF assms(2)] by (simp add: fair_step_def same_questions_def asked_def)

lemma fair_resolve:
  assumes "coord_inv (coord d)" and "coord d' = resolveOnce w x c" and "same_questions (coord d) c" and "asks e = {}"
    and "w \<in> set (waiters (coord d)) \<Longrightarrow> justified e d (wt_call w) x"
  shows "fair_step e d d'"
proof (cases "w \<in> set (waiters c)")
  case True
  have c: "coord_inv c" "waiters c = waiters (coord d)" "decided c = decided (coord d)"
    using assms(1,3) same_questions_inv [OF assms(3)] by (simp_all add: same_questions_def)
  note r = resolveOnce_effect [OF c(1) True, of x]
  have "set (asked (coord d')) = set (asked (coord d))" using True by (auto simp: asked_def assms(2) r c(2,3))
  then show ?thesis using r(1,3) assms(5) True by (simp add: fair_step_def assms(2,4) c(2,3))
next
  case False
  then show ?thesis using assms by (intro fair_same) (simp_all add: resolveOnce_idle)
qed

lemma fair_respond:
  assumes "coord_inv (coord d)" and "coord d' = respondPermission sid rid x (coord d)" and "asks e = {}"
    and "\<And>w. w \<in> set (waiters (coord d)) \<Longrightarrow> answers sid rid w \<Longrightarrow> justified e d (wt_call w) x"
  shows "fair_step e d d'"
  using respondPermission_effect [OF assms(1), of sid rid x] assms(3,4)
  by (auto simp: fair_step_def assms(2) asked_def)

lemma fair_ended:
  assumes "coord_inv (coord d)"
  shows "fair_step (Ended sid) d (session_over sid d)"
proof -
  note r = rejectPending_effect [OF assms, of sid]
  from r(3) obtain ws where ws: "decided (rejectPendingPermissions sid (coord d)) = decided (coord d) @ map (\<lambda>w. (wt_call w, Deny (Some ''Session ended''))) ws"
    "set ws = {w \<in> set (waiters (coord d)). wt_sessionId w = sid}" by blast
  have "set (asked (rejectPendingPermissions sid (coord d))) = set (asked (coord d))"
    by (auto simp: asked_def r(2) ws)
  then show ?thesis using r(1) ws by (auto simp: fair_step_def session_over_def)
qed

lemma fair_tool_use:
  assumes "coord_inv (coord d)" and "event_possible (Tool_use call sid launched tool input tid reason now) d"
  shows "fair_step (Tool_use call sid launched tool input tid reason now) d (canUseTool call sid launched tool input tid reason now d)"
proof -
  let ?e = "Tool_use call sid launched tool input tid reason now" and ?config = "handler_config sid launched d"
  let ?c = "coord (canUseTool call sid launched tool input tid reason now d)"
  have new: "call \<notin> set (asked (coord d))" "tid \<notin> wt_toolUseId ` set (waiters (coord d))" using assms(2) by auto
  have decided: "fair_step ?e d (canUseTool call sid launched tool input tid reason now d)"
    if "?c = decide call x c" and "same_questions (coord d) c" and "justified ?e d call x" for x c
  proof -
    have c: "coord_inv c" "asked c = asked (coord d)" "decided c = decided (coord d)"
      using assms(1) that(2) same_questions_inv [OF that(2)] by (simp_all add: same_questions_def asked_def)
    have "set (asked (decide call x c)) = set (asked c) \<union> {call}" by (auto simp: asked_def)
    then have "set (asked (decide call x c)) = set (asked (coord d)) \<union> {call}" unfolding c(2) .
    moreover have "coord_inv (decide call x c)" using decide_inv [OF c(1)] new c(2) by simp
    moreover have "\<forall>(n, y) \<in> set [(call, x)]. justified ?e d n y" using that(3) by simp
    ultimately show ?thesis unfolding fair_step_def asks.simps that(1) decide_simps c(3) by blast
  qed
  have waits: "fair_step ?e d (canUseTool call sid launched tool input tid reason now d)"
    if "?c = await_approval call sid tool input tid reason now c" and "same_questions (coord d) c" for c
  proof -
    have c: "coord_inv c" "waiters c = waiters (coord d)" "decided c = decided (coord d)"
      using assms(1) that(2) same_questions_inv [OF that(2)] by (simp_all add: same_questions_def)
    have "call \<notin> set (asked c)" "tid \<notin> wt_toolUseId ` set (waiters c)" using new by (simp_all add: asked_def c)
    note a = await_approval_effect [OF c(1) this that(1)]
    then show ?thesis by (auto simp: fair_step_def asked_def c)
  qed
  let ?free = "jm_get (sessionModes (coord d)) sid = Some Bypass \<or> automatedNever ?config"
  let ?perms = "sc_permissions ?config"
  consider ?free | "\<not> ?free" "tool \<in> set (deny ?perms)" | "\<not> ?free" "tool \<notin> set (deny ?perms)" "tool \<in> set (autoApprove ?perms)"
    | "\<not> ?free" "tool \<notin> set (deny ?perms)" "tool \<notin> set (autoApprove ?perms)" by blast
  then show ?thesis
  proof cases
    case 1
    then show ?thesis by (intro decided [of "Allow None" "coord d"]) (auto simp: canUseTool_def permissionHandler_def Let_def)
  next
    case 2
    then show ?thesis
      by (intro decided) (auto simp: canUseTool_def permissionHandler_def resolvePermission_def Let_def)
  next
    case 3
    then show ?thesis by (intro decided [of "Allow None"]) (auto simp: canUseTool_def permissionHandler_def resolvePermission_def Let_def)
  next
    case 4
    then show ?thesis by (intro waits [of "(coord d)\<lparr>pm_counters := metric ''permissions.require_approval'' (pm_counters (coord d))\<rparr>"])
        (auto simp: canUseTool_def permissionHandler_def resolvePermission_def)
  qed
qed

lemma fair_answer:
  assumes "coord_inv (coord d)" and "coord d1 = coord d" and "jm_get (sessions d1) sid = None \<longleftrightarrow> jm_get (sessions d) sid = None"
    and "asks e = {}" and "\<And>w. jm_get (sessions d) sid \<noteq> None \<Longrightarrow> w \<in> set (waiters (coord d)) \<Longrightarrow> answers sid rid w \<Longrightarrow> justified e d (wt_call w) x"
  shows "fair_step e d (case daemon_respondPermission sid rid x d1 of Some d2 \<Rightarrow> d2 | None \<Rightarrow> d1)"
proof (cases "jm_get (sessions d) sid = None")
  case True
  then have "daemon_respondPermission sid rid x d1 = None" using assms(3) by (simp add: daemon_respondPermission_def respondPermissionForSession_def)
  then show ?thesis using assms by (auto intro!: fair_same)
next
  case False
  then have "daemon_respondPermission sid rid x d1 = Some (d1\<lparr>coord := respondPermission sid rid x (coord d)\<rparr>)"
    using assms(2,3) by (simp add: daemon_respondPermission_def respondPermissionForSession_def)
  then show ?thesis using assms False by (auto intro!: fair_respond)
qed

lemma event_fair:
  assumes "coord_inv (coord d)" and "event_possible e d"
  shows "fair_step e d (perform num_text e d)"
proof (cases e)
  case (Tool_use call sid launched tool input tid reason now)
  then show ?thesis using fair_tool_use assms by simp
next
  case (Command sid rid b msg)
  show ?thesis unfolding Command perform.simps respond_permission_command_def Let_def
    by (intro fair_answer assms(1)) auto
next
  case (Route sid rid allow msg always)
  show ?thesis unfolding Route perform.simps respond_permission_route_def Let_def
    by (intro fair_answer assms(1)) auto
next
  case (Timer w now)
  then show ?thesis using assms by (auto intro!: fair_resolve [where w = w] simp: timer_fires_def)
next
  case (Aborted w)
  then show ?thesis using assms by (auto intro!: fair_resolve [where w = w and c = "coord d"] simp: abort_fires_def)
next
  case (Mode_set sid mode)
  then show ?thesis using assms by (auto intro!: fair_same simp: daemon_setSessionMode_def)
next
  case (Ended sid)
  then show ?thesis using fair_ended assms(1) by simp
qed (use assms in \<open>auto intro!: fair_same simp: session_starting_def session_started_def session_not_started_def session_removed_def\<close>)

interpretation permissions: invariant_system perm_initial "perm_step num_text" "\<lambda>d. coord_inv (coord d)" for num_text
proof unfold_locales
  fix d d'
  show "coord_inv (coord d)" if "perm_initial d"
    using that by (auto simp: perm_initial_def coord_inv_def asked_def pending_ids_def waiting_ids_def jm_keys_def)
  show "coord_inv (coord d')" if "coord_inv (coord d)" "perm_step num_text d d'"
    using that event_fair [OF that(1)] by (auto simp: perm_step_def fair_step_def)
qed

section \<open>Guarantees\<close>

text \<open>\<open>allow-always\<close> looks the tool up by the id of the request alone: the answer may name any active session, and that session
  may use the tool from then on, although the question of the other session is still open.\<close>

lemma with_autoApprove_same: "with_autoApprove config tool = config \<longleftrightarrow> tool \<in> set (autoApprove (sc_permissions config))"
  by (auto simp: with_autoApprove_def dest!: arg_cong [of _ _ "\<lambda>c. length (autoApprove (sc_permissions c))"])

lemma with_autoApprove_adds: "tool \<in> set (autoApprove (sc_permissions (with_autoApprove config tool)))"
  by (simp add: with_autoApprove_def)

lemma allow_always_any_session:
  assumes "jm_get (requestToolNames (coord d)) rid = Some tool" and "tool \<noteq> []" and "jm_get (sessions d) sid = Some config"
    and "\<forall>w \<in> set (waiters (coord d)). \<not> answers sid rid w" and "d' = respond_permission_command sid rid Behavior_allow_always msg d"
  shows "coord d' = coord d \<and> (\<exists>config'. jm_get (sessions d') sid = Some config' \<and> tool \<in> set (autoApprove (sc_permissions config')))"
proof -
  let ?d = "addAutoApprove sid tool d"
  have a: "always_allow sid rid d = ?d" using assms(1,2) by (simp add: always_allow_def getRequestToolName_def truthy_def)
  obtain config' where c: "jm_get (sessions ?d) sid = Some config'" "tool \<in> set (autoApprove (sc_permissions config'))"
    using assms(3) with_autoApprove_adds [of tool config]
    by (cases "with_autoApprove config tool = config") (auto simp: addAutoApprove_def updateSessionConfig_def Let_def with_autoApprove_same)
  have k: "coord ?d = coord d" using a always_allow_simps(1) [of sid rid d] by simp
  have "daemon_respondPermission sid rid (Allow None) ?d = Some ?d"
    using c(1) respondPermission_idle [OF assms(4)] by (simp add: daemon_respondPermission_def respondPermissionForSession_def k)
  then show ?thesis using c k by (simp add: assms(5) respond_permission_command_def Let_def a)
qed

lemma pending_list_exact:
  assumes "coord_inv c" and "sid \<noteq> []"
  shows "pr_requestId ` set (listPendingPermissions (Some sid) c) = waiting_ids c sid"
proof -
  note i = coord_invD [OF assms(1)]
  have sub: "pr_requestId detail \<in> waiting_ids c sid" if "(k, detail) \<in> set (pendingRequestDetails c)" "pr_sessionId detail = sid" for k detail
  proof -
    have g: "jm_get (pendingRequestDetails c) k = Some detail" using jm_get_wf [OF i(8)] that(1) by blast
    then have "k \<in> wt_toolUseId ` set (waiters c)" using i(6) by (auto simp: set_jm_keys)
    then obtain w where w: "w \<in> set (waiters c)" "k = wt_toolUseId w" by blast
    then show ?thesis using i(5) [OF w(1)] g that(2) by (auto simp: listed_def waiting_ids_def)
  qed
  have sup: "wt_toolUseId w \<in> pr_requestId ` set (listPendingPermissions (Some sid) c)" if w: "w \<in> set (waiters c)" "wt_sessionId w = sid" for w
  proof -
    obtain detail where d: "jm_get (pendingRequestDetails c) (wt_toolUseId w) = Some detail" "pr_sessionId detail = sid" "pr_requestId detail = wt_toolUseId w"
      using i(5) [OF w(1)] w(2) by (auto simp: listed_def)
    from jm_get_mem [OF d(1)] have "detail \<in> snd ` set (pendingRequestDetails c)" by force
    then have "detail \<in> set (listPendingPermissions (Some sid) c)" using d(2) by (simp add: listPendingPermissions_def)
    then show ?thesis using d(3) by (metis imageI)
  qed
  show ?thesis
  proof
    show "pr_requestId ` set (listPendingPermissions (Some sid) c) \<subseteq> waiting_ids c sid"
      using sub assms(2) by (auto simp: listPendingPermissions_def truthy_def)
    show "waiting_ids c sid \<subseteq> pr_requestId ` set (listPendingPermissions (Some sid) c)"
      using sup by (auto simp: waiting_ids_def)
  qed
qed

text \<open>C8: a tool is only used with an approval. Whatever happens in the daemon, a question of an agent is answered with
  "allow" only when it is asked and the session is in bypass mode, is automated with the policy "never", or lists the
  tool as approved and not as denied; or when an operator allows exactly this request of exactly this session while it
  is open and the session active. Timers, aborts and the end of a session never allow.\<close>

theorem tool_use_approved:
  assumes "perm_initial start" and "(perm_step num_text)\<^sup>*\<^sup>* start d" and "event_possible e d"
    and "decided (coord (perform num_text e d)) = decided (coord d) @ ds" and "(call, Allow u) \<in> set ds"
  shows "case e of
      Tool_use n sid launched tool _ _ _ _ \<Rightarrow>
        n = call \<and>
        (let config = handler_config sid launched d; perms = sc_permissions config in
          jm_get (sessionModes (coord d)) sid = Some Bypass \<or> automatedNever config \<or>
          tool \<in> set (autoApprove perms) \<and> tool \<notin> set (deny perms))
    | Command sid rid b _ \<Rightarrow>
        b \<noteq> Behavior_deny \<and> jm_get (sessions d) sid \<noteq> None \<and>
        \<lparr>wt_call = call, wt_sessionId = sid, wt_toolUseId = rid\<rparr> \<in> set (waiters (coord d))
    | Route sid rid allow _ _ \<Rightarrow>
        allow \<and> jm_get (sessions d) sid \<noteq> None \<and>
        \<lparr>wt_call = call, wt_sessionId = sid, wt_toolUseId = rid\<rparr> \<in> set (waiters (coord d))
    | _ \<Rightarrow> False"
proof -
  have "fair_step e d (perform num_text e d)" using event_fair permissions.reachable_inv assms(1-3) by blast
  then have j: "justified e d call (Allow u)" using assms(4,5) by (auto simp: fair_step_def)
  have w: "w \<in> set (waiters (coord d)) \<Longrightarrow> wt_call w = call \<Longrightarrow> answers sid rid w \<Longrightarrow>
      \<lparr>wt_call = call, wt_sessionId = sid, wt_toolUseId = rid\<rparr> \<in> set (waiters (coord d))" for w sid rid
    by (cases w) (simp add: answers_def)
  show ?thesis using j w by (cases e) (auto simp: Let_def split: if_splits)
qed

text \<open>C27: every question is answered once or open, and the open ones are those that are listed. In every reachable state no
  question has two answers or an answer while it is open; the requests listed for a session are exactly its open
  questions. An event adds at most the question it asks, loses none, and takes no answer back.\<close>

theorem questions_answered_once:
  assumes "perm_initial start" and "(perm_step num_text)\<^sup>*\<^sup>* start d" and "event_possible e d" and "d' = perform num_text e d"
  shows "distinct (map wt_call (waiters (coord d)) @ map fst (decided (coord d)))
    \<and> (\<forall>sid. sid \<noteq> [] \<longrightarrow> pr_requestId ` set (listPendingPermissions (Some sid) (coord d))
          = wt_toolUseId ` {w \<in> set (waiters (coord d)). wt_sessionId w = sid})
    \<and> wt_call ` set (waiters (coord d')) \<union> fst ` set (decided (coord d'))
        = wt_call ` set (waiters (coord d)) \<union> fst ` set (decided (coord d)) \<union> asks e
    \<and> (\<exists>ds. decided (coord d') = decided (coord d) @ ds)"
proof -
  have inv: "coord_inv (coord d)" using permissions.reachable_inv assms(1,2) by blast
  with event_fair assms(3,4) have f: "fair_step e d d'" by blast
  then have "wt_call ` set (waiters (coord d')) \<union> fst ` set (decided (coord d'))
      = wt_call ` set (waiters (coord d)) \<union> fst ` set (decided (coord d)) \<union> asks e"
    by (simp add: fair_step_def asked_def)
  moreover have "\<exists>ds. decided (coord d') = decided (coord d) @ ds" using f by (auto simp: fair_step_def)
  moreover have "distinct (map wt_call (waiters (coord d)) @ map fst (decided (coord d)))"
    using coord_invD(1) [OF inv] by (simp add: asked_def)
  ultimately show ?thesis using pending_list_exact [OF inv] by (simp add: waiting_ids_def)
qed

text \<open>A session whose agent asks for a tool; the operator answers.\<close>

definition demo_config :: session_config where
  "demo_config = \<lparr>sc_permissions = \<lparr>autoApprove = [''Read''], requireApproval = [], deny = [''Web'']\<rparr>, sc_trust = ''operator'', sc_approvalPolicy = None\<rparr>"

definition demo_start :: permission_daemon where
  "demo_start =
     \<lparr>coord = \<lparr>pendingPermissions = [], requestToolNames = [], pendingRequestDetails = [], sessionModes = [], timeoutMs = 300000,
               waiters = [], decided = [], emitted = [], pm_counters = []\<rparr>,
      sessions = []\<rparr>"

definition demo_asked :: permission_daemon where
  "demo_asked =
     perform (\<lambda>_. ''300'') (Tool_use 7 ''s'' demo_config ''Edit'' (JObj []) ''t'' None 5)
       (perform (\<lambda>_. ''300'') (Started ''s'' demo_config) demo_start)"

lemma demo_asked_reachable: "perm_initial demo_start" "(perm_step (\<lambda>_. ''300''))\<^sup>*\<^sup>* demo_start demo_asked"
proof -
  let ?p = "perform (\<lambda>_. ''300'')"
  let ?d = "?p (Started ''s'' demo_config) demo_start"
  show "perm_initial demo_start" by (simp add: perm_initial_def demo_start_def)
  have "perm_step (\<lambda>_. ''300'') demo_start ?d" unfolding perm_step_def by (rule exI [of _ "Started ''s'' demo_config"]) simp
  moreover have "perm_step (\<lambda>_. ''300'') ?d demo_asked" unfolding perm_step_def demo_asked_def
    by (rule exI [of _ "Tool_use 7 ''s'' demo_config ''Edit'' (JObj []) ''t'' None 5"])
      (simp add: session_started_def demo_start_def asked_def)
  ultimately show "(perm_step (\<lambda>_. ''300''))\<^sup>*\<^sup>* demo_start demo_asked" by (meson r_into_rtranclp rtranclp_trans)
qed

lemma demo_asked_state:
  "waiters (coord demo_asked) = [\<lparr>wt_call = 7, wt_sessionId = ''s'', wt_toolUseId = ''t''\<rparr>]" "decided (coord demo_asked) = []"
  "decided (coord (perform (\<lambda>_. ''300'') (Command ''s'' ''t'' Behavior_allow None) demo_asked)) = [(7, Allow None)]"
  by (simp_all add: demo_asked_def demo_start_def demo_config_def session_started_def canUseTool_def handler_config_def permissionHandler_def
      automatedNever_def resolvePermission_def await_approval_def respond_permission_command_def daemon_respondPermission_def
      respondPermissionForSession_def respondPermission_def answers_def resolveOnce_def decide_def drop_pending_def Let_def jm_get_Cons)

theorem tool_use_approved_witness: "\<lparr>wt_call = 7, wt_sessionId = ''s'', wt_toolUseId = ''t''\<rparr> \<in> set (waiters (coord demo_asked))"
  using tool_use_approved [OF demo_asked_reachable, of "Command ''s'' ''t'' Behavior_allow None" "[(7, Allow None)]" 7 None]
  by (simp add: demo_asked_state del: perform.simps)

theorem questions_answered_once_witness: "pr_requestId ` set (listPendingPermissions (Some ''s'') (coord demo_asked)) = {''t''}"
proof -
  note q = questions_answered_once [OF demo_asked_reachable, of "Command ''s'' ''t'' Behavior_allow None", OF _ refl]
  have "pr_requestId ` set (listPendingPermissions (Some ''s'') (coord demo_asked))
      = wt_toolUseId ` {w \<in> set (waiters (coord demo_asked)). wt_sessionId w = ''s''}" using q by simp
  also have "{w \<in> set (waiters (coord demo_asked)). wt_sessionId w = ''s''} = {\<lparr>wt_call = 7, wt_sessionId = ''s'', wt_toolUseId = ''t''\<rparr>}"
    by (auto simp: demo_asked_state)
  finally show ?thesis by simp
qed

end
