(* ===== verification/Daemon_Pairing.thy ===== *)
theory Daemon_Pairing
  imports Json
begin

text \<open>
  Pairing of clients with a daemon: \<open>server/pairing-offers.ts\<close>, \<open>pairing-offer-types.ts\<close>, \<open>pairing-peer-bindings.ts\<close> and
  \<open>pairing-identity-store.ts\<close>.

  The daemon issues an offer with a secret. A client redeems it with the secret and a signature of its own key; the
  daemon then stores the key and the secret they share. All operations on the offers run one after another
  (\<open>withStoreMutationLock\<close>), so a course of the daemon is a list of operations. The state is the content of the files. The
  audit file is a list of lines; its rotation by size is not modelled. Hashes, signatures and ciphers are parameters
  (\<open>pairing_crypto\<close>); random values and the clock are arguments.
\<close>

section \<open>Parameters and state\<close>

record pairing_crypto =
  verify_ed25519 :: "string \<Rightarrow> string \<Rightarrow> string \<Rightarrow> bool option" \<comment> \<open>key, text, signature; \<open>None\<close> when the key cannot be read\<close>
  sign_ed25519 :: "string \<Rightarrow> string \<Rightarrow> string"
  hmac_store_key :: "string \<Rightarrow> string"
  sha256_hex :: "string \<Rightarrow> string"
  hkdf :: "string \<Rightarrow> string \<Rightarrow> string" \<comment> \<open>secret, salt text\<close>
  seal :: "string \<Rightarrow> string \<Rightarrow> string \<times> string" \<comment> \<open>iv, text to ciphertext, tag\<close>
  unseal :: "string \<Rightarrow> string \<Rightarrow> string \<Rightarrow> string option" \<comment> \<open>iv, ciphertext, tag\<close>

record offer_connection =
  oc_host :: string
  oc_port :: nat
  oc_listen :: string
  oc_socketPath :: "string option"
  oc_profile :: string

record offer =
  of_offerId :: string
  of_createdAt :: int
  of_expiresAt :: int
  of_revokedAt :: "int option"
  of_redeemedAt :: "int option"
  of_failedRedeemAttempts :: "nat option"
  of_lockedAt :: "int option"
  of_redeemSecretHash :: "string option"
  of_trustAnchor :: string
  of_daemonDeviceId :: string
  of_daemonPublicKey :: string
  of_connection :: offer_connection

record peer_binding =
  pb_peerId :: string
  pb_publicKey :: string
  pb_ciphertext :: "string option"
  pb_iv :: "string option"
  pb_tag :: "string option"
  pb_firstPairedAt :: int
  pb_lastPairedAt :: "int option"
  pb_lastOfferId :: string
  pb_trustAnchor :: string

record trust_anchor =
  ta_id :: string
  ta_createdAt :: int
  ta_secret :: string

record daemon_identity =
  di_deviceId :: string
  di_createdAt :: int
  di_publicKey :: string
  di_privateKey :: string

record pairing_state =
  ps_offers :: "offer list"
  ps_peers :: "peer_binding list"
  ps_authToken :: "string option"
  ps_anchor :: "trust_anchor option"
  ps_identity :: "daemon_identity option"
  ps_audit :: "json list"

definition appendPairingAudit :: "int \<Rightarrow> (string \<times> json) list \<Rightarrow> pairing_state \<Rightarrow> pairing_state" where
  "appendPairingAudit now event s = s\<lparr>ps_audit := ps_audit s @ [JObj ((''timestamp'', JNum (of_int now)) # event)]\<rparr>"

text \<open>A time that is set: \<open>undefined\<close> and \<open>0\<close> are not.\<close>

definition time_set :: "int option \<Rightarrow> bool" where
  "time_set t \<longleftrightarrow> (case t of None \<Rightarrow> False | Some x \<Rightarrow> x \<noteq> 0)"

section \<open>Offers\<close>

definition day_ms :: int where
  "day_ms = 24 * 60 * 60 * 1000"

definition compactOffers :: "int \<Rightarrow> offer list \<Rightarrow> offer list" where
  "compactOffers now os =
     (let fresh = filter (\<lambda>f. \<not> (of_expiresAt f = 0 \<or> of_expiresAt f \<le> now - day_ms)) os
      in if length fresh \<le> 200 then fresh else drop (length fresh - 200) fresh)"

definition writeStore :: "int \<Rightarrow> offer list \<Rightarrow> pairing_state \<Rightarrow> pairing_state" where
  "writeStore now os s = s\<lparr>ps_offers := compactOffers now os\<rparr>"

definition canonicalRedeemPayload :: "string \<Rightarrow> string \<Rightarrow> string \<Rightarrow> string \<Rightarrow> string" where
  "canonicalRedeemPayload offerId redeemSecret trustAnchor clientPublicKey =
     join [CHR 0x0A] [''viewport-pair-redeem-v1'', offerId, redeemSecret, trustAnchor, clientPublicKey]"

definition colon_groups :: "string \<Rightarrow> string" where
  "colon_groups digest = join '':'' (map (\<lambda>i. take 4 (drop (4 * i) digest)) [0..<(length digest + 3) div 4])"

definition trustAnchorFingerprint :: "pairing_crypto \<Rightarrow> string \<Rightarrow> string" where
  "trustAnchorFingerprint cr secret = colon_groups (sha256_hex cr secret)"

definition readAuthToken :: "pairing_state \<Rightarrow> string option" where
  "readAuthToken s = Option.bind (ps_authToken s) (\<lambda>raw. non_empty (trim raw))"

definition rotateAuthToken :: "int \<Rightarrow> string \<Rightarrow> pairing_state \<Rightarrow> pairing_state" where
  "rotateAuthToken now token s =
     appendPairingAudit now [(''event'', JStr ''auth_token_rotated'')] (s\<lparr>ps_authToken := Some (token @ [CHR 0x0A])\<rparr>)"

text \<open>Records with an empty secret count as unreadable.\<close>

definition readTrustAnchorRecord :: "pairing_state \<Rightarrow> trust_anchor option" where
  "readTrustAnchorRecord s = (case ps_anchor s of Some a \<Rightarrow> if ta_secret a = [] then None else Some a | None \<Rightarrow> None)"

definition getOrCreateTrustAnchor :: "pairing_crypto \<Rightarrow> int \<Rightarrow> trust_anchor \<Rightarrow> pairing_state \<Rightarrow> string \<times> pairing_state" where
  "getOrCreateTrustAnchor cr now created s =
     (case readTrustAnchorRecord s of
        Some existing \<Rightarrow> (trustAnchorFingerprint cr (ta_secret existing), s)
      | None \<Rightarrow>
          (trustAnchorFingerprint cr (ta_secret created),
           appendPairingAudit now
             [(''event'', JStr ''pair_trust_anchor_created''), (''trustAnchorId'', JStr (ta_id created)),
              (''trustAnchor'', JStr (trustAnchorFingerprint cr (ta_secret created)))]
             (s\<lparr>ps_anchor := Some created\<rparr>)))"

definition getOrCreateDaemonIdentity :: "pairing_crypto \<Rightarrow> int \<Rightarrow> daemon_identity \<Rightarrow> pairing_state \<Rightarrow> daemon_identity \<times> pairing_state" where
  "getOrCreateDaemonIdentity cr now created s =
     (case ps_identity s of
        Some existing \<Rightarrow> (existing, s)
      | None \<Rightarrow>
          (created,
           appendPairingAudit now
             [(''event'', JStr ''pair_device_identity_created''), (''deviceId'', JStr (di_deviceId created)),
              (''fingerprint'', JStr (colon_groups (sha256_hex cr (di_publicKey created))))]
             (s\<lparr>ps_identity := Some created\<rparr>)))"

text \<open>The random values of an offer.\<close>

record offer_randoms =
  or_offerId :: string
  or_redeemSecret :: string
  or_token :: string
  or_anchor :: trust_anchor
  or_identity :: daemon_identity

definition clamp_ttl :: "rat \<Rightarrow> int" where
  "clamp_ttl ttlSeconds = min 3600 (max 30 \<lfloor>ttlSeconds\<rfloor>)"

definition issuePairingOffer ::
    "pairing_crypto \<Rightarrow> offer_randoms \<Rightarrow> int \<Rightarrow> int \<Rightarrow> rat \<Rightarrow> offer_connection \<Rightarrow> pairing_state \<Rightarrow> offer \<times> string \<times> pairing_state" where
  "issuePairingOffer cr rnd now later ttlSeconds connection s =
     (let expiresAt = now + clamp_ttl ttlSeconds * 1000;
          s1 = (if readAuthToken s = None then rotateAuthToken now (or_token rnd) s else s);
          (anchor, s2) = getOrCreateTrustAnchor cr now (or_anchor rnd) s1;
          (identity, s3) = getOrCreateDaemonIdentity cr now (or_identity rnd) s2;
          f = \<lparr>of_offerId = or_offerId rnd, of_createdAt = now, of_expiresAt = expiresAt, of_revokedAt = None, of_redeemedAt = None,
               of_failedRedeemAttempts = None, of_lockedAt = None,
               of_redeemSecretHash = Some (hmac_store_key cr (or_redeemSecret rnd)), of_trustAnchor = anchor,
               of_daemonDeviceId = di_deviceId identity, of_daemonPublicKey = di_publicKey identity, of_connection = connection\<rparr>;
          s4 = writeStore later (ps_offers s3 @ [f]) s3
      in (f, or_redeemSecret rnd,
          appendPairingAudit later
            [(''event'', JStr ''pair_offer_issued''), (''offerId'', JStr (or_offerId rnd)), (''createdAt'', JNum (of_int now)),
             (''expiresAt'', JNum (of_int expiresAt)), (''profile'', JStr (oc_profile connection)),
             (''listen'', JStr (oc_listen connection)), (''trustAnchor'', JStr anchor), (''daemonDeviceId'', JStr (di_deviceId identity))] s4))"

record offer_listing =
  ol_offer :: offer
  ol_active :: bool
  ol_expired :: bool

definition listPairingOffers :: "int \<Rightarrow> pairing_state \<Rightarrow> offer_listing list" where
  "listPairingOffers now s =
     sort_key (\<lambda>l. - of_createdAt (ol_offer l))
       (map (\<lambda>f. let expired = of_expiresAt f \<le> now
                 in \<lparr>ol_offer = f, ol_active = (\<not> expired \<and> \<not> time_set (of_revokedAt f) \<and> \<not> time_set (of_redeemedAt f)),
                     ol_expired = expired\<rparr>) (ps_offers s))"

definition find_offer :: "string \<Rightarrow> offer list \<Rightarrow> offer option" where
  "find_offer offerId os = find (\<lambda>f. of_offerId f = offerId) os"

text \<open>The change of the object that \<open>find\<close> has returned.\<close>

fun update_first :: "(offer \<Rightarrow> offer) \<Rightarrow> string \<Rightarrow> offer list \<Rightarrow> offer list" where
  "update_first g offerId [] = []"
| "update_first g offerId (f # os) = (if of_offerId f = offerId then g f # os else f # update_first g offerId os)"

definition revokePairingOffer :: "string \<Rightarrow> int \<Rightarrow> int \<Rightarrow> pairing_state \<Rightarrow> bool \<times> pairing_state" where
  "revokePairingOffer offerId now later s =
     (case find_offer offerId (ps_offers s) of
        None \<Rightarrow> (False, s)
      | Some f \<Rightarrow>
          (True,
           if time_set (of_revokedAt f) then s
           else appendPairingAudit later [(''event'', JStr ''pair_offer_revoked''), (''offerId'', JStr offerId)]
                  (writeStore later (update_first (of_revokedAt_update (\<lambda>_. Some now)) offerId (ps_offers s)) s)))"

section \<open>Comparison of secrets\<close>

definition secureSecretCompare :: "string \<Rightarrow> string \<Rightarrow> bool" where
  "secureSecretCompare a b =
     (let left = utf8 a; right = utf8 b; compareLength = max (max (length left) (length right)) 1
      in padded compareLength left = padded compareLength right \<and> length left = length right)"

section \<open>Peers\<close>

definition relay_pairing_prefix :: string where
  "relay_pairing_prefix = ''viewport-relay-policyc-pair-v1''"

definition deriveRelayPairingSecret :: "pairing_crypto \<Rightarrow> string \<Rightarrow> string \<Rightarrow> string \<Rightarrow> string \<Rightarrow> string \<Rightarrow> string" where
  "deriveRelayPairingSecret cr offerId redeemSecret trustAnchor clientPublicKey daemonPublicKey =
     hkdf cr redeemSecret
       (join [CHR 0x0A] [relay_pairing_prefix, offerId, trustAnchor, trim clientPublicKey, trim daemonPublicKey])"

definition opt_int :: "int \<Rightarrow> int option \<Rightarrow> int" where
  "opt_int d t = (case t of Some x \<Rightarrow> x | None \<Rightarrow> d)"

definition dedupe_peer :: "peer_binding \<Rightarrow> (string, peer_binding) js_map \<Rightarrow> (string, peer_binding) js_map" where
  "dedupe_peer item m =
     (if trim (pb_peerId item) = [] \<or> trim (pb_publicKey item) = [] then m
      else if (case jm_get m (pb_peerId item) of
                 None \<Rightarrow> True | Some existing \<Rightarrow> opt_int 0 (pb_lastPairedAt item) \<ge> opt_int 0 (pb_lastPairedAt existing))
      then jm_set (pb_peerId item) (item\<lparr>pb_peerId := trim (pb_peerId item), pb_publicKey := trim (pb_publicKey item)\<rparr>) m
      else m)"

definition compactPeerBindings :: "nat \<Rightarrow> peer_binding list \<Rightarrow> peer_binding list" where
  "compactPeerBindings maxEntries peers =
     (let deduped = fold dedupe_peer peers [];
          sorted = sort_key (\<lambda>p. opt_int (pb_firstPairedAt p) (pb_lastPairedAt p)) (map snd deduped)
      in if length sorted \<le> maxEntries then sorted else drop (length sorted - maxEntries) sorted)"

definition find_peer :: "string \<Rightarrow> peer_binding list \<Rightarrow> peer_binding option" where
  "find_peer peerId ps = find (\<lambda>p. pb_peerId p = peerId) ps"

fun update_peer :: "(peer_binding \<Rightarrow> peer_binding) \<Rightarrow> string \<Rightarrow> peer_binding list \<Rightarrow> peer_binding list" where
  "update_peer g peerId [] = []"
| "update_peer g peerId (p # ps) = (if pb_peerId p = peerId then g p # ps else p # update_peer g peerId ps)"

definition upsertPeerBinding ::
    "pairing_crypto \<Rightarrow> nat \<Rightarrow> string \<Rightarrow> int \<Rightarrow> string \<Rightarrow> string \<Rightarrow> string \<Rightarrow> string \<Rightarrow> string \<Rightarrow> pairing_state \<Rightarrow> pairing_state" where
  "upsertPeerBinding cr maxEntries iv now peerId publicKey secret offerId trustAnchor s =
     (let peers = compactPeerBindings maxEntries (ps_peers s); (ciphertext, tag) = seal cr iv secret;
          next = (if find_peer peerId peers \<noteq> None
                  then update_peer (\<lambda>p. p\<lparr>pb_publicKey := publicKey, pb_ciphertext := Some ciphertext, pb_iv := Some iv,
                         pb_tag := Some tag, pb_lastPairedAt := Some now, pb_lastOfferId := offerId, pb_trustAnchor := trustAnchor\<rparr>)
                         peerId peers
                  else peers @ [\<lparr>pb_peerId = peerId, pb_publicKey = publicKey, pb_ciphertext = Some ciphertext, pb_iv = Some iv,
                         pb_tag = Some tag, pb_firstPairedAt = now, pb_lastPairedAt = Some now, pb_lastOfferId = offerId,
                         pb_trustAnchor = trustAnchor\<rparr>])
      in s\<lparr>ps_peers := compactPeerBindings maxEntries next\<rparr>)"

definition decryptRelayPairingSecret :: "pairing_crypto \<Rightarrow> peer_binding \<Rightarrow> string option" where
  "decryptRelayPairingSecret cr p =
     (case (pb_iv p, pb_ciphertext p, pb_tag p) of
        (Some iv, Some ct, Some tag) \<Rightarrow> unseal cr iv ct tag
      | _ \<Rightarrow> None)"

text \<open>The secret is given in its base64url form.\<close>

definition resolveRelayPairingSecret :: "pairing_crypto \<Rightarrow> nat \<Rightarrow> string \<Rightarrow> pairing_state \<Rightarrow> string option" where
  "resolveRelayPairingSecret cr maxEntries peerId s =
     (if trim peerId = [] then None
      else Option.bind (find_peer peerId (compactPeerBindings maxEntries (ps_peers s))) (decryptRelayPairingSecret cr))"

section \<open>Redeeming\<close>

record redeemed =
  rd_offer :: offer
  rd_peerId :: string
  rd_serverSignature :: string

text \<open>All failures return \<open>null\<close>; the outcomes tell them apart, as the audit does.\<close>

datatype redeem_outcome =
    No_secret | Unknown_offer | Closed_offer | Missing_proof | Anchor_mismatch | Invalid_proof | Missing_hash | Wrong_secret
  | Redeemed redeemed

record redeem_request =
  rq_offerId :: string
  rq_redeemSecret :: string
  rq_expectedTrustAnchor :: "string option"
  rq_clientPublicKey :: "string option"
  rq_clientProof :: "string option"

definition closed_offer :: "int \<Rightarrow> offer \<Rightarrow> bool" where
  "closed_offer now f \<longleftrightarrow>
     of_expiresAt f \<le> now \<or> time_set (of_revokedAt f) \<or> time_set (of_redeemedAt f) \<or> time_set (of_lockedAt f)"

definition proof_verified :: "pairing_crypto \<Rightarrow> offer \<Rightarrow> redeem_request \<Rightarrow> bool" where
  "proof_verified cr f rq \<longleftrightarrow>
     verify_ed25519 cr (the (rq_clientPublicKey rq))
       (canonicalRedeemPayload (of_offerId f) (rq_redeemSecret rq) (of_trustAnchor f) (the (rq_clientPublicKey rq)))
       (the (rq_clientProof rq)) = Some True"

text \<open>The audit of a failed attempt.\<close>

definition redeem_failed :: "int \<Rightarrow> string \<Rightarrow> (string \<times> json) list \<Rightarrow> pairing_state \<Rightarrow> pairing_state" where
  "redeem_failed now offerId details =
     appendPairingAudit now ([(''event'', JStr ''pair_offer_redeem_failed''), (''offerId'', JStr offerId)] @ details)"

definition count_failure :: "int \<Rightarrow> offer \<Rightarrow> offer" where
  "count_failure now f =
     (let n = (case of_failedRedeemAttempts f of Some k \<Rightarrow> k | None \<Rightarrow> 0) + 1; g = f\<lparr>of_failedRedeemAttempts := Some n\<rparr>
      in if n \<ge> 5 then g\<lparr>of_lockedAt := Some now\<rparr> else g)"

text \<open>What follows when the secret is right.\<close>

definition complete_redeem ::
    "pairing_crypto \<Rightarrow> nat \<Rightarrow> string \<Rightarrow> int \<Rightarrow> int \<Rightarrow> redeem_request \<Rightarrow> offer \<Rightarrow> pairing_state \<Rightarrow> redeem_outcome \<times> pairing_state" where
  "complete_redeem cr maxPeers iv now later rq f0 s =
     (let f = f0\<lparr>of_redeemedAt := Some now\<rparr>;
          s1 = writeStore later (update_first (\<lambda>_. f) (of_offerId f) (ps_offers s)) s;
          key = the (rq_clientPublicKey rq); peerId = sha256_hex cr key;
          secret = deriveRelayPairingSecret cr (of_offerId f) (rq_redeemSecret rq) (of_trustAnchor f) key (of_daemonPublicKey f);
          s2 = upsertPeerBinding cr maxPeers iv later peerId key secret (of_offerId f) (of_trustAnchor f) s1;
          envelope = join [CHR 0x0A] [''viewport-pair-redeem-response-v1'', of_offerId f, peerId, of_trustAnchor f, int_string (of_expiresAt f)];
          signature = (case ps_identity s2 of Some identity \<Rightarrow> sign_ed25519 cr (di_privateKey identity) envelope | None \<Rightarrow> [])
      in (Redeemed \<lparr>rd_offer = f, rd_peerId = peerId, rd_serverSignature = signature\<rparr>,
          appendPairingAudit later [(''event'', JStr ''pair_offer_redeemed''), (''offerId'', JStr (of_offerId f)), (''peerId'', JStr peerId),
            (''daemonDeviceId'', JStr (of_daemonDeviceId f))] s2))"

definition redeemPairingOffer ::
    "pairing_crypto \<Rightarrow> nat \<Rightarrow> string \<Rightarrow> int \<Rightarrow> int \<Rightarrow> redeem_request \<Rightarrow> pairing_state \<Rightarrow> redeem_outcome \<times> pairing_state" where
  "redeemPairingOffer cr maxPeers iv now later rq s =
     (if trim (rq_redeemSecret rq) = [] then (No_secret, s)
      else case find_offer (rq_offerId rq) (ps_offers s) of
        None \<Rightarrow> (Unknown_offer, s)
      | Some f \<Rightarrow>
          let failed = redeem_failed later (of_offerId f) in
          if closed_offer now f then (Closed_offer, s)
          else if \<not> truthy (rq_clientPublicKey rq) \<or> \<not> truthy (rq_clientProof rq) then
            (Missing_proof, failed [(''reason'', JStr ''missing_client_identity_proof'')] s)
          else if truthy (rq_expectedTrustAnchor rq) \<and> Some (of_trustAnchor f) \<noteq> rq_expectedTrustAnchor rq then
            (Anchor_mismatch, failed [(''reason'', JStr ''trust_anchor_mismatch''),
               (''expectedTrustAnchor'', JStr (the (rq_expectedTrustAnchor rq))), (''offeredTrustAnchor'', JStr (of_trustAnchor f))] s)
          else if \<not> proof_verified cr f rq then
            (Invalid_proof, failed [(''reason'', JStr ''client_proof_invalid'')] s)
          else if \<not> truthy (of_redeemSecretHash f) then
            (Missing_hash, failed [(''reason'', JStr ''missing_redeem_secret_hash'')]
               (writeStore later (update_first (of_lockedAt_update (\<lambda>_. Some now)) (of_offerId f) (ps_offers s)) s))
          else if \<not> secureSecretCompare (the (of_redeemSecretHash f)) (hmac_store_key cr (rq_redeemSecret rq)) then
            (let g = count_failure now f
             in (Wrong_secret, failed [(''attempts'', JNum (of_nat (the (of_failedRedeemAttempts g)))), (''locked'', JBool (time_set (of_lockedAt g)))]
                  (writeStore later (update_first (\<lambda>_. g) (of_offerId f) (ps_offers s)) s)))
          else complete_redeem cr maxPeers iv now later rq f s)"

section \<open>A course of operations\<close>

datatype pairing_op =
    Issue_offer offer_randoms int int rat offer_connection
  | Revoke_offer string int int
  | Redeem_offer string int int redeem_request \<comment> \<open>iv, times, request\<close>

definition redeem_result :: "pairing_crypto \<Rightarrow> nat \<Rightarrow> pairing_op \<Rightarrow> pairing_state \<Rightarrow> redeem_outcome option" where
  "redeem_result cr maxPeers x s =
     (case x of Redeem_offer iv now later rq \<Rightarrow> Some (fst (redeemPairingOffer cr maxPeers iv now later rq s)) | _ \<Rightarrow> None)"

fun pairing_step :: "pairing_crypto \<Rightarrow> nat \<Rightarrow> pairing_op \<Rightarrow> pairing_state \<Rightarrow> pairing_state" where
  "pairing_step cr maxPeers (Issue_offer rnd now later ttl conn) s = snd (snd (issuePairingOffer cr rnd now later ttl conn s))"
| "pairing_step cr maxPeers (Revoke_offer offerId now later) s = snd (revokePairingOffer offerId now later s)"
| "pairing_step cr maxPeers (Redeem_offer iv now later rq) s = snd (redeemPairingOffer cr maxPeers iv now later rq s)"

end
