(* ===== verification/Daemon_Pairing_Safety.thy ===== *)
theory Daemon_Pairing_Safety
  imports Daemon_Pairing
begin

text \<open>
  What pairing guarantees: an offer is redeemed at most once, by a client that knows its secret and has signed with its
  key; at most five wrong secrets are compared with an offer; the comparison of secrets is equality.
\<close>

section \<open>The comparison is equality\<close>

lemma compare_equal: "secureSecretCompare a b \<longleftrightarrow> a = b"
  unfolding secureSecretCompare_def Let_def by (subst padded_same) (auto dest: utf8_inj)

text \<open>The comparison of secrets that takes the same time for all texts of a length, with its padding and the separate
  comparison of the lengths, decides equality of the texts.\<close>

theorem secureSecretCompare_equality: "secureSecretCompare a b \<longleftrightarrow> a = b"
  by (rule compare_equal)

section \<open>How offers change\<close>

definition attempts :: "offer \<Rightarrow> nat" where
  "attempts f = (case of_failedRedeemAttempts f of Some k \<Rightarrow> k | None \<Rightarrow> 0)"

definition spent :: "offer \<Rightarrow> bool" where
  "spent f \<longleftrightarrow> time_set (of_revokedAt f) \<or> time_set (of_redeemedAt f) \<or> time_set (of_lockedAt f)"

definition store_ok :: "offer list \<Rightarrow> bool" where
  "store_ok os \<longleftrightarrow> distinct (map of_offerId os) \<and> (\<forall>f \<in> set os. 5 \<le> attempts f \<longrightarrow> spent f)"

lemma spent_closed: "spent f \<Longrightarrow> closed_offer now f"
  by (auto simp: spent_def closed_offer_def)

lemma compact_form: "\<exists>k P. compactOffers now os = drop k (filter P os)"
proof (cases "length (filter (\<lambda>f. \<not> (of_expiresAt f = 0 \<or> of_expiresAt f \<le> now - day_ms)) os) \<le> 200")
  case True
  then show ?thesis by (intro exI [of _ 0] exI [of _ "\<lambda>f. \<not> (of_expiresAt f = 0 \<or> of_expiresAt f \<le> now - day_ms)"]) (simp add: compactOffers_def Let_def)
next
  case False
  then show ?thesis by (auto simp: compactOffers_def Let_def)
qed

lemma compact_subset: "set (compactOffers now os) \<subseteq> set os"
  using compact_form [of now os] set_drop_subset by (metis filter_is_subset order_trans)

lemma compact_ok: "store_ok os \<Longrightarrow> store_ok (compactOffers now os)"
proof -
  assume ok: "store_ok os"
  obtain k P where c: "compactOffers now os = drop k (filter P os)" using compact_form by blast
  have "distinct (map of_offerId (filter P os))" using ok by (auto simp: store_ok_def distinct_map_filter)
  then have "distinct (map of_offerId (compactOffers now os))" by (simp add: c distinct_drop flip: drop_map)
  then show ?thesis using ok compact_subset [of now os] by (auto simp: store_ok_def)
qed

lemma find_offer_iff: "distinct (map of_offerId os) \<Longrightarrow> find_offer i os = Some f \<longleftrightarrow> f \<in> set os \<and> of_offerId f = i"
  by (induction os) (auto simp: find_offer_def rev_image_eqI)

lemma find_offer_None: "find_offer i os = None \<longleftrightarrow> i \<notin> of_offerId ` set os"
  by (auto simp: find_offer_def find_None_iff)

lemma find_offer_snoc:
  "find_offer i (os @ [f]) = (case find_offer i os of Some h \<Rightarrow> Some h | None \<Rightarrow> if of_offerId f = i then Some f else None)"
  by (induction os) (auto simp: find_offer_def)

lemma update_first_ids: "find_offer i os = Some f \<Longrightarrow> of_offerId (g f) = i \<Longrightarrow> map of_offerId (update_first g i os) = map of_offerId os"
  by (induction os) (auto simp: find_offer_def split: if_splits)

lemma update_first_set:
  "distinct (map of_offerId os) \<Longrightarrow> find_offer i os = Some f \<Longrightarrow> set (update_first g i os) = insert (g f) (set os - {f})"
proof (induction os)
  case (Cons h os)
  show ?case
  proof (cases "of_offerId h = i")
    case True
    then show ?thesis using Cons.prems by (auto simp: find_offer_def)
  next
    case False
    then have "set (update_first g i os) = insert (g f) (set os - {f})" "f \<noteq> h"
      using Cons by (auto simp: find_offer_def find_Some_iff)
    then show ?thesis using False by auto
  qed
qed (simp add: find_offer_def)

lemma updated_unique:
  assumes "distinct (map of_offerId os)" and "find_offer i os = Some f" and "h \<in> insert g (set os - {f})" and "of_offerId h = i"
  shows "h = g"
  using assms(2-4) find_offer_iff [OF assms(1), of i h] by auto

text \<open>The offers after an operation: unchanged, with a new one, or with one that is spent or has one more failure.\<close>

definition advance :: "redeem_outcome option \<Rightarrow> offer \<Rightarrow> offer \<Rightarrow> bool" where
  "advance res f g \<longleftrightarrow>
     of_offerId g = of_offerId f \<and> (spent g \<or> res = Some Wrong_secret \<and> attempts g = Suc (attempts f) \<and> attempts g < 5)"

fun times_ok :: "pairing_op \<Rightarrow> bool" where
  "times_ok (Issue_offer _ now later _ _) \<longleftrightarrow> 0 < now \<and> 0 < later"
| "times_ok (Revoke_offer _ now later) \<longleftrightarrow> 0 < now \<and> 0 < later"
| "times_ok (Redeem_offer _ now later _) \<longleftrightarrow> 0 < now \<and> 0 < later"

fun target :: "pairing_op \<Rightarrow> string" where
  "target (Issue_offer rnd _ _ _ _) = or_offerId rnd"
| "target (Revoke_offer i _ _) = i"
| "target (Redeem_offer _ _ _ rq) = rq_offerId rq"

fun issued :: "pairing_op \<Rightarrow> string set" where
  "issued (Issue_offer rnd _ _ _ _) = {or_offerId rnd}"
| "issued _ = {}"

inductive offers_step :: "pairing_op \<Rightarrow> redeem_outcome option \<Rightarrow> offer list \<Rightarrow> offer list \<Rightarrow> bool" where
  same: "res \<noteq> Some Wrong_secret \<Longrightarrow> offers_step x res os os"
| new: "attempts f = 0 \<Longrightarrow> of_offerId f = or_offerId rnd \<Longrightarrow>
    offers_step (Issue_offer rnd now later ttl conn) None os (compactOffers later (os @ [f]))"
| changed: "find_offer (target x) os = Some f \<Longrightarrow> advance res f (g f) \<Longrightarrow> (res = Some Wrong_secret \<Longrightarrow> \<not> spent f) \<Longrightarrow>
    issued x = {} \<Longrightarrow>
    offers_step x res os (compactOffers later (update_first g (target x) os))"

lemma audit_offers [simp]: "ps_offers (appendPairingAudit now e s) = ps_offers s" "ps_offers (redeem_failed now i e s) = ps_offers s"
  "ps_offers (writeStore now os s) = compactOffers now os" "ps_offers (rotateAuthToken now t s) = ps_offers s"
  by (simp_all add: appendPairingAudit_def redeem_failed_def writeStore_def rotateAuthToken_def)

lemma upsert_offers [simp]: "ps_offers (upsertPeerBinding cr n iv now p k sec i a s) = ps_offers s"
  by (simp add: upsertPeerBinding_def Let_def split: prod.splits)

lemma identity_offers:
  "getOrCreateTrustAnchor cr now c s = (a, s') \<Longrightarrow> ps_offers s' = ps_offers s"
  "getOrCreateDaemonIdentity cr now i s = (j, s') \<Longrightarrow> ps_offers s' = ps_offers s"
  by (auto simp: getOrCreateTrustAnchor_def getOrCreateDaemonIdentity_def split: option.splits)

lemma issue_step: "offers_step (Issue_offer rnd now later ttl conn) None (ps_offers s) (ps_offers (snd (snd (issuePairingOffer cr rnd now later ttl conn s))))"
proof -
  let ?s = "if readAuthToken s = None then rotateAuthToken now (or_token rnd) s else s"
  obtain a s2 where a: "getOrCreateTrustAnchor cr now (or_anchor rnd) ?s = (a, s2)" by fastforce
  obtain j s3 where j: "getOrCreateDaemonIdentity cr now (or_identity rnd) s2 = (j, s3)" by fastforce
  have o: "ps_offers s3 = ps_offers s" using identity_offers(1) [OF a] identity_offers(2) [OF j] by simp
  show ?thesis by (simp only: issuePairingOffer_def Let_def a j split_conv snd_conv audit_offers o) (rule offers_step.new, simp_all add: attempts_def)
qed

lemma revoke_step:
  assumes "0 < now"
  shows "offers_step (Revoke_offer i now later) None (ps_offers s) (ps_offers (snd (revokePairingOffer i now later s)))"
proof (cases "find_offer i (ps_offers s)")
  case (Some f)
  have "advance None f (of_revokedAt_update (\<lambda>_. Some now) f)" using assms by (simp add: advance_def spent_def time_set_def)
  then show ?thesis using Some offers_step.changed [of "Revoke_offer i now later" "ps_offers s" f None "of_revokedAt_update (\<lambda>_. Some now)"]
    by (auto simp: revokePairingOffer_def intro: offers_step.same)
qed (simp add: revokePairingOffer_def offers_step.same)

lemma failure_advance:
  assumes "0 < now"
  shows "advance (Some Wrong_secret) f (count_failure now f)"
  using assms by (auto simp: advance_def count_failure_def Let_def attempts_def spent_def time_set_def split: option.splits)

lemma find_offer_id: "find_offer i os = Some f \<Longrightarrow> of_offerId f = i"
  by (auto simp: find_offer_def find_Some_iff)

lemma redeem_step:
  assumes "0 < now"
  shows "offers_step (Redeem_offer iv now later rq) (Some (fst (redeemPairingOffer cr n iv now later rq s)))
    (ps_offers s) (ps_offers (snd (redeemPairingOffer cr n iv now later rq s)))"
proof (cases "find_offer (rq_offerId rq) (ps_offers s)")
  case None
  then show ?thesis by (auto simp: redeemPairingOffer_def intro: offers_step.same)
next
  case (Some f)
  let ?x = "Redeem_offer iv now later rq" and ?os = "ps_offers s"
  have i: "of_offerId f = rq_offerId rq" using find_offer_id [OF Some] .
  note c = offers_step.changed [of ?x ?os f]
  have lock: "advance res f (of_lockedAt_update (\<lambda>_. Some now) f)" "advance res f (f\<lparr>of_redeemedAt := Some now\<rparr>)" for res
    using assms by (simp_all add: advance_def spent_def time_set_def)
  have missing: "offers_step ?x (Some Missing_hash) ?os (compactOffers later (update_first (of_lockedAt_update (\<lambda>_. Some now)) (rq_offerId rq) ?os))"
    using c [of "Some Missing_hash" "of_lockedAt_update (\<lambda>_. Some now)" later] Some lock by simp
  have wrong: "offers_step ?x (Some Wrong_secret) ?os (compactOffers later (update_first (\<lambda>_. count_failure now f) (rq_offerId rq) ?os))"
    if "\<not> closed_offer now f"
    using c [of "Some Wrong_secret" "\<lambda>_. count_failure now f" later] Some failure_advance [OF assms, of f] spent_closed that by auto
  have finished: "offers_step ?x (Some (fst (complete_redeem cr n iv now later rq f s))) ?os (ps_offers (snd (complete_redeem cr n iv now later rq f s)))"
  proof -
    have "fst (complete_redeem cr n iv now later rq f s) \<noteq> Wrong_secret"
      "ps_offers (snd (complete_redeem cr n iv now later rq f s)) = compactOffers later (update_first (\<lambda>_. f\<lparr>of_redeemedAt := Some now\<rparr>) (rq_offerId rq) ?os)"
      by (simp_all add: complete_redeem_def Let_def i)
    then show ?thesis using c [of "Some (fst (complete_redeem cr n iv now later rq f s))" "\<lambda>_. f\<lparr>of_redeemedAt := Some now\<rparr>" later] Some lock by simp
  qed
  show ?thesis using missing wrong finished by (simp add: redeemPairingOffer_def Let_def i Some offers_step.same)
qed

lemma pairing_step_offers:
  "times_ok x \<Longrightarrow> offers_step x (redeem_result cr n x s) (ps_offers s) (ps_offers (pairing_step cr n x s))"
  by (cases x) (simp_all add: redeem_result_def issue_step revoke_step redeem_step)

section \<open>Courses\<close>

text \<open>The ids of offers are random: an operation that issues one uses an id that was not used before. \<open>used\<close> has the ids that
  were.\<close>

fun sensible :: "string set \<Rightarrow> pairing_op list \<Rightarrow> bool" where
  "sensible used [] \<longleftrightarrow> True"
| "sensible used (x # xs) \<longleftrightarrow> times_ok x \<and> issued x \<inter> used = {} \<and> sensible (used \<union> issued x) xs"

definition ids :: "offer list \<Rightarrow> string set" where
  "ids os = of_offerId ` set os"

lemma ids_compact: "ids (compactOffers now os) \<subseteq> ids os"
  using compact_subset by (auto simp: ids_def)

lemma offers_step_ok:
  assumes "offers_step x res os os'" and "store_ok os" and "issued x \<inter> ids os = {}"
  shows "store_ok os' \<and> ids os' \<subseteq> ids os \<union> issued x"
  using assms
proof (induction rule: offers_step.induct)
  case (new f rnd now later ttl conn os)
  then have "store_ok (os @ [f])" by (auto simp: store_ok_def ids_def)
  then show ?case using compact_ok ids_compact [of later "os @ [f]"] new by (auto simp: ids_def)
next
  case (changed x os f res g later)
  let ?u = "update_first g (target x) os"
  have d: "distinct (map of_offerId os)" using changed.prems(1) by (simp add: store_ok_def)
  have g: "of_offerId (g f) = target x" "5 \<le> attempts (g f) \<longrightarrow> spent (g f)"
    using changed.hyps(2) find_offer_id [OF changed.hyps(1)] by (auto simp: advance_def)
  have m: "map of_offerId ?u = map of_offerId os" using update_first_ids [where g = g, OF changed.hyps(1) g(1)] .
  have "store_ok ?u" using changed.prems(1) d m update_first_set [OF d changed.hyps(1), of g] g by (auto simp: store_ok_def)
  moreover have "ids ?u = ids os" using m unfolding ids_def by (metis set_map)
  ultimately show ?case using compact_ok ids_compact [of later ?u] by auto
qed simp

text \<open>The wrong secrets that may still be tried for an offer.\<close>

definition budget :: "string set \<Rightarrow> string \<Rightarrow> offer list \<Rightarrow> nat" where
  "budget used i os =
     (case find_offer i os of
        Some f \<Rightarrow> if spent f then 0 else 5 - attempts f
      | None \<Rightarrow> if i \<in> used then 0 else 5)"

lemma budget_le: "budget used i os \<le> 5"
  by (auto simp: budget_def split: option.splits)

lemma find_compact:
  assumes "store_ok os" and "find_offer i (compactOffers now os) = Some f"
  shows "find_offer i os = Some f"
proof -
  have "distinct (map of_offerId (compactOffers now os))" using compact_ok [OF assms(1), of now] by (simp add: store_ok_def)
  then have "f \<in> set os" "of_offerId f = i" using find_offer_iff assms(2) compact_subset by blast+
  then show ?thesis using assms(1) find_offer_iff by (auto simp: store_ok_def)
qed

lemma budget_step:
  assumes "offers_step x res os os'" and "store_ok os" and "ids os \<subseteq> used" and "issued x \<inter> used = {}"
  shows "budget (used \<union> issued x) i os' + (if res = Some Wrong_secret \<and> target x = i then 1 else 0) \<le> budget used i os"
  using assms
proof (induction rule: offers_step.induct)
  case (same res x os)
  then show ?case by (auto simp: budget_def split: option.splits)
next
  case (new f rnd now later ttl conn os)
  have ok: "store_ok (os @ [f])" using new by (auto simp: store_ok_def ids_def)
  have "find_offer i os = Some h \<or> h = f \<and> find_offer i os = None \<and> i = or_offerId rnd" if "find_offer i (compactOffers later (os @ [f])) = Some h" for h
    using find_compact [OF ok that] new(2) by (auto simp: find_offer_snoc split: option.splits if_splits)
  moreover have "find_offer i os \<noteq> None \<Longrightarrow> i \<in> used" using new.prems(2) by (auto simp: find_offer_None ids_def)
  ultimately show ?case using new(1,2) new.prems(3)
    by (cases "find_offer i (compactOffers later (os @ [f]))") (auto simp: budget_def split: option.splits)
next
  case (changed x os f res g later)
  let ?u = "update_first g (target x) os"
  have x: "issued x = {}" by (rule changed.hyps(4))
  have d: "distinct (map of_offerId os)" using changed.prems(1) by (simp add: store_ok_def)
  have f: "f \<in> set os" "of_offerId f = target x" using changed.hyps(1) find_offer_iff [OF d] by auto
  have g: "of_offerId (g f) = target x" using changed.hyps(2) f(2) by (simp add: advance_def)
  have m: "map of_offerId ?u = map of_offerId os" using update_first_ids [where g = g, OF changed.hyps(1) g] .
  have su: "set ?u = insert (g f) (set os - {f})" by (rule update_first_set [OF d changed.hyps(1)])
  have ok: "store_ok ?u" using changed.prems(1) d m su changed.hyps(2) by (auto simp: store_ok_def advance_def)
  have used: "find_offer i os \<noteq> None \<Longrightarrow> i \<in> used" for i using changed.prems(2) by (auto simp: find_offer_None ids_def)
  have left: "1 \<le> budget used (target x) os" if "res = Some Wrong_secret"
  proof -
    have "\<not> spent f" using changed.hyps(3) that .
    then have "attempts f < 5" using changed.prems(1) f(1) by (auto simp: store_ok_def not_le [symmetric])
    then show ?thesis using \<open>\<not> spent f\<close> changed.hyps(1) by (simp add: budget_def)
  qed
  show ?case
  proof (cases "find_offer i (compactOffers later ?u)")
    case None
    then show ?thesis using left used [of i] x changed.hyps(1) by (auto simp: budget_def split: option.splits)
  next
    case (Some h)
    then have h: "h \<in> set ?u" "of_offerId h = i" using find_compact [OF ok] find_offer_iff ok by (auto simp: store_ok_def)
    show ?thesis
    proof (cases "i = target x")
      case True
      have "h = g f" using updated_unique [OF d changed.hyps(1)] h True unfolding su by blast
      then show ?thesis using True Some left changed.hyps(1,2,3) x by (auto simp: budget_def advance_def)
    next
      case False
      then have "h \<in> set os" using h su g by auto
      then have "find_offer i os = Some h" using h(2) find_offer_iff [OF d] by blast
      then show ?thesis using False Some by (simp add: budget_def)
    qed
  qed
qed

fun wrong_secrets :: "pairing_crypto \<Rightarrow> nat \<Rightarrow> string \<Rightarrow> pairing_op list \<Rightarrow> pairing_state \<Rightarrow> nat" where
  "wrong_secrets cr n i [] s = 0"
| "wrong_secrets cr n i (x # xs) s =
     (if redeem_result cr n x s = Some Wrong_secret \<and> target x = i then 1 else 0) + wrong_secrets cr n i xs (pairing_step cr n x s)"

lemma wrong_secrets_budget:
  assumes "store_ok (ps_offers s)" and "ids (ps_offers s) \<subseteq> used" and "sensible used xs"
  shows "wrong_secrets cr n i xs s \<le> budget used i (ps_offers s)"
  using assms
proof (induction xs arbitrary: s used)
  case (Cons x xs)
  let ?s = "pairing_step cr n x s"
  have x: "times_ok x" "issued x \<inter> used = {}" "sensible (used \<union> issued x) xs" using Cons.prems(3) by auto
  note st = pairing_step_offers [OF x(1), of cr n s]
  have "store_ok (ps_offers ?s)" "ids (ps_offers ?s) \<subseteq> used \<union> issued x"
    using offers_step_ok [OF st Cons.prems(1)] x(2) Cons.prems(2) by blast+
  from Cons.IH [OF this x(3)] budget_step [OF st Cons.prems(1,2) x(2), of i] show ?case by simp
qed simp

text \<open>At most five wrong secrets are compared with an offer. However requests to issue, revoke and redeem offers follow
  each other, with whatever keys and signatures the clients have, the number of redemptions of one offer that fail
  because of the secret is at most five.\<close>

theorem wrong_secrets_bounded:
  assumes "store_ok (ps_offers s)" and "ids (ps_offers s) \<subseteq> used" and "sensible used xs"
  shows "wrong_secrets cr n i xs s \<le> 5"
  using wrong_secrets_budget [OF assms, of cr n i] budget_le [of used i "ps_offers s"] by linarith

section \<open>Redeemed once\<close>

lemma spent_stays:
  assumes "store_ok (ps_offers s)" and "ids (ps_offers s) \<subseteq> used" and "sensible used xs" and "i \<in> used"
    and "\<forall>f. find_offer i (ps_offers s) = Some f \<longrightarrow> spent f" and "find_offer i (ps_offers (fold (pairing_step cr n) xs s)) = Some f"
  shows "spent f"
  using assms
proof (induction xs arbitrary: s used)
  case (Cons x xs)
  let ?s = "pairing_step cr n x s"
  have x: "times_ok x" "issued x \<inter> used = {}" "sensible (used \<union> issued x) xs" using Cons.prems(3) by auto
  note st = pairing_step_offers [OF x(1), of cr n s]
  have s: "store_ok (ps_offers ?s)" "ids (ps_offers ?s) \<subseteq> used \<union> issued x"
    using offers_step_ok [OF st Cons.prems(1)] x(2) Cons.prems(2) by blast+
  have "budget used i (ps_offers s) = 0" using Cons.prems(4,5) by (auto simp: budget_def split: option.splits)
  then have b: "budget (used \<union> issued x) i (ps_offers ?s) = 0" using budget_step [OF st Cons.prems(1,2) x(2), of i] by simp
  have "spent h" if "find_offer i (ps_offers ?s) = Some h" for h
  proof -
    have "h \<in> set (ps_offers ?s)" using that s(1) find_offer_iff by (auto simp: store_ok_def)
    then show ?thesis using b that s(1) by (auto simp: budget_def store_ok_def split: if_splits)
  qed
  then show ?case using Cons.IH [OF s x(3)] Cons.prems(4,6) by simp
qed simp

lemma redeemed_facts:
  assumes "redeemPairingOffer cr n iv now later rq s = (Redeemed rd, s')"
  obtains f where "find_offer (rq_offerId rq) (ps_offers s) = Some f" and "\<not> closed_offer now f" and "proof_verified cr f rq"
    and "of_redeemSecretHash f = Some (hmac_store_key cr (rq_redeemSecret rq))"
    and "truthy (rq_expectedTrustAnchor rq) \<longrightarrow> rq_expectedTrustAnchor rq = Some (of_trustAnchor f)"
    and "(Redeemed rd, s') = complete_redeem cr n iv now later rq f s"
proof -
  from assms obtain f where f: "find_offer (rq_offerId rq) (ps_offers s) = Some f"
    by (cases "find_offer (rq_offerId rq) (ps_offers s)") (auto simp: redeemPairingOffer_def split: if_splits)
  have c: "\<not> closed_offer now f" "proof_verified cr f rq" "truthy (of_redeemSecretHash f)"
    "secureSecretCompare (the (of_redeemSecretHash f)) (hmac_store_key cr (rq_redeemSecret rq))"
    "truthy (rq_expectedTrustAnchor rq) \<longrightarrow> rq_expectedTrustAnchor rq = Some (of_trustAnchor f)"
    "(Redeemed rd, s') = complete_redeem cr n iv now later rq f s"
    using assms by (auto simp: redeemPairingOffer_def f Let_def split: if_splits)
  then have "of_redeemSecretHash f = Some (hmac_store_key cr (rq_redeemSecret rq))"
    by (cases "of_redeemSecretHash f") (auto simp: compare_equal truthy_def)
  then show thesis using that f c by blast
qed

text \<open>C9: an offer is redeemed at most once, and only rightfully. When a redemption succeeds, the offer is in the store, neither
  expired nor revoked, redeemed or locked, the secret is the one the offer was issued with (its keyed hash is), and the
  signature verifies under the client's key over the offer's id, the secret, the offer's trust anchor and the key. No
  later request redeems the same offer, whatever happens in between.\<close>

theorem offer_redeemed_once:
  assumes "store_ok (ps_offers s)" and "ids (ps_offers s) \<subseteq> used" and "sensible used (Redeem_offer iv now later rq # xs)"
    and "redeemPairingOffer cr n iv now later rq s = (Redeemed rd, s')" and "t = fold (pairing_step cr n) xs s'"
    and "rq_offerId rq' = rq_offerId rq"
  shows "(\<exists>f key signature. f \<in> set (ps_offers s) \<and> of_offerId f = rq_offerId rq \<and> now < of_expiresAt f
        \<and> \<not> time_set (of_revokedAt f) \<and> \<not> time_set (of_redeemedAt f) \<and> \<not> time_set (of_lockedAt f)
        \<and> of_redeemSecretHash f = Some (hmac_store_key cr (rq_redeemSecret rq))
        \<and> rq_clientPublicKey rq = Some key \<and> rq_clientProof rq = Some signature
        \<and> verify_ed25519 cr key (canonicalRedeemPayload (rq_offerId rq) (rq_redeemSecret rq) (of_trustAnchor f) key) signature = Some True)
    \<and> fst (redeemPairingOffer cr n iv' now' later' rq' t) \<in> {No_secret, Unknown_offer, Closed_offer}"
proof
  obtain f where f: "find_offer (rq_offerId rq) (ps_offers s) = Some f" "\<not> closed_offer now f" "proof_verified cr f rq"
    "of_redeemSecretHash f = Some (hmac_store_key cr (rq_redeemSecret rq))" "(Redeemed rd, s') = complete_redeem cr n iv now later rq f s"
    using redeemed_facts [OF assms(4)] .
  have d: "distinct (map of_offerId (ps_offers s))" using assms(1) by (simp add: store_ok_def)
  have m: "f \<in> set (ps_offers s)" "of_offerId f = rq_offerId rq" using f(1) find_offer_iff [OF d] by auto
  have k: "truthy (rq_clientPublicKey rq)" "truthy (rq_clientProof rq)"
    using assms(4) f(1) by (auto simp: redeemPairingOffer_def Let_def split: if_splits)
  then obtain key signature where key: "rq_clientPublicKey rq = Some key" "rq_clientProof rq = Some signature"
    by (auto simp: truthy_def split: option.splits)
  show "\<exists>f key signature. f \<in> set (ps_offers s) \<and> of_offerId f = rq_offerId rq \<and> now < of_expiresAt f
        \<and> \<not> time_set (of_revokedAt f) \<and> \<not> time_set (of_redeemedAt f) \<and> \<not> time_set (of_lockedAt f)
        \<and> of_redeemSecretHash f = Some (hmac_store_key cr (rq_redeemSecret rq))
        \<and> rq_clientPublicKey rq = Some key \<and> rq_clientProof rq = Some signature
        \<and> verify_ed25519 cr key (canonicalRedeemPayload (rq_offerId rq) (rq_redeemSecret rq) (of_trustAnchor f) key) signature = Some True"
    using f(2-4) m key by (intro exI [of _ f] exI [of _ key] exI [of _ signature]) (auto simp: closed_offer_def proof_verified_def)
  let ?x = "Redeem_offer iv now later rq" and ?g = "f\<lparr>of_redeemedAt := Some now\<rparr>"
  have x: "times_ok ?x" "sensible used xs" "0 < now" using assms(3) by auto
  have s': "s' = pairing_step cr n ?x s" by (simp add: assms(4))
  have ok: "store_ok (ps_offers s')" "ids (ps_offers s') \<subseteq> used"
    using offers_step_ok [OF pairing_step_offers [OF x(1), of cr n s] assms(1)] assms(2) s' by auto
  have o: "ps_offers s' = compactOffers later (update_first (\<lambda>_. ?g) (rq_offerId rq) (ps_offers s))"
    using f(5) by (auto simp: complete_redeem_def Let_def m(2))
  have "h = ?g" if "find_offer (rq_offerId rq) (ps_offers s') = Some h" for h
  proof -
    have "h \<in> set (ps_offers s')" "of_offerId h = rq_offerId rq" using that ok(1) find_offer_iff by (auto simp: store_ok_def)
    then have "h \<in> insert ?g (set (ps_offers s) - {f})" using compact_subset update_first_set [OF d f(1), of "\<lambda>_. ?g"] unfolding o by blast
    then show ?thesis using \<open>of_offerId h = _\<close> updated_unique [OF d f(1)] by blast
  qed
  then have "\<forall>h. find_offer (rq_offerId rq) (ps_offers s') = Some h \<longrightarrow> spent h" using x(3) by (auto simp: spent_def time_set_def)
  moreover have "rq_offerId rq \<in> used" using m assms(2) by (auto simp: ids_def)
  ultimately have "spent h" if "find_offer (rq_offerId rq) (ps_offers t) = Some h" for h
    using spent_stays [OF ok x(2)] that unfolding assms(5) by blast
  then show "fst (redeemPairingOffer cr n iv' now' later' rq' t) \<in> {No_secret, Unknown_offer, Closed_offer}"
    using spent_closed by (cases "find_offer (rq_offerId rq) (ps_offers t)") (auto simp: redeemPairingOffer_def Let_def assms(6))
qed

text \<open>A store with one offer, and a client that knows its secret.\<close>

definition demo_crypto :: pairing_crypto where
  "demo_crypto =
     \<lparr>verify_ed25519 = (\<lambda>key t signature. if key = ''key'' then Some (signature = ''signed'') else None), sign_ed25519 = (\<lambda>_ _. ''daemon''),
      hmac_store_key = (\<lambda>t. ''#'' @ t), sha256_hex = (\<lambda>t. t), hkdf = (\<lambda>t salt. t), seal = (\<lambda>iv t. (t, iv)), unseal = (\<lambda>iv ct tag. Some ct)\<rparr>"

definition demo_offer :: offer where
  "demo_offer =
     \<lparr>of_offerId = ''o'', of_createdAt = 1, of_expiresAt = 600001, of_revokedAt = None, of_redeemedAt = None, of_failedRedeemAttempts = None,
      of_lockedAt = None, of_redeemSecretHash = Some ''#x'', of_trustAnchor = ''a'', of_daemonDeviceId = ''d'', of_daemonPublicKey = ''p'',
      of_connection = \<lparr>oc_host = ''h'', oc_port = 7070, oc_listen = ''l'', oc_socketPath = None, oc_profile = ''lan''\<rparr>\<rparr>"

definition demo_store :: pairing_state where
  "demo_store = \<lparr>ps_offers = [demo_offer], ps_peers = [], ps_authToken = None, ps_anchor = None, ps_identity = None, ps_audit = []\<rparr>"

definition demo_request :: "string \<Rightarrow> redeem_request" where
  "demo_request secret =
     \<lparr>rq_offerId = ''o'', rq_redeemSecret = secret, rq_expectedTrustAnchor = None, rq_clientPublicKey = Some ''key'', rq_clientProof = Some ''signed''\<rparr>"

lemma demo_store_ok: "store_ok (ps_offers demo_store)" "ids (ps_offers demo_store) \<subseteq> {''o''}"
  by (simp_all add: store_ok_def demo_store_def demo_offer_def attempts_def ids_def)

theorem offer_redeemed_once_witness:
  "\<exists>rd s'. redeemPairingOffer demo_crypto 9 ''iv'' 5 5 (demo_request ''x'') demo_store = (Redeemed rd, s')
    \<and> fst (redeemPairingOffer demo_crypto 9 ''iv'' 6 6 (demo_request ''x'') s') \<in> {No_secret, Unknown_offer, Closed_offer}"
proof -
  have f: "find_offer ''o'' (ps_offers demo_store) = Some demo_offer" by (simp add: find_offer_def demo_store_def demo_offer_def)
  have t: "trim ''x'' \<noteq> []" by code_simp
  have "fst (redeemPairingOffer demo_crypto 9 ''iv'' 5 5 (demo_request ''x'') demo_store)
      = fst (complete_redeem demo_crypto 9 ''iv'' 5 5 (demo_request ''x'') demo_offer demo_store)"
    using t by (simp add: redeemPairingOffer_def demo_request_def f Let_def closed_offer_def time_set_def truthy_def proof_verified_def compare_equal)
      (simp add: demo_offer_def demo_crypto_def)
  then have "\<exists>rd. fst (redeemPairingOffer demo_crypto 9 ''iv'' 5 5 (demo_request ''x'') demo_store) = Redeemed rd"
    by (simp add: complete_redeem_def Let_def)
  then obtain rd s' where r: "redeemPairingOffer demo_crypto 9 ''iv'' 5 5 (demo_request ''x'') demo_store = (Redeemed rd, s')"
    by (metis prod.collapse)
  have "sensible {''o''} [Redeem_offer ''iv'' 5 5 (demo_request ''x'')]" by simp
  from offer_redeemed_once [OF demo_store_ok this r, of s' "demo_request ''x''" "''iv''" 6 6] r show ?thesis by (simp add: demo_request_def)
qed

theorem wrong_secrets_bounded_witness:
  "wrong_secrets demo_crypto 9 ''o'' (replicate 6 (Redeem_offer ''iv'' 5 5 (demo_request ''y''))) demo_store \<le> 5"
  by (rule wrong_secrets_bounded [OF demo_store_ok]) (simp add: numeral_eq_Suc)

end
