(* ===== verification/Policy_Patterns.thy ===== *)
theory Policy_Patterns
  imports Prelude
begin

text \<open>
  Patterns of shell, branch and path policies (\<open>workflows/policy-enforcement.ts\<close>).

  The code translates a pattern into a regular expression. The model keeps the translation: the characters that it
  escapes become literals, wildcards become repetitions, and a question mark, which it does not escape, is the
  quantifier that it is for the regular expression. A dot matches everything but line breaks. Where the expression is
  not well formed, \<open>new RegExp\<close> throws: the result is \<open>None\<close>.
\<close>

section \<open>The regular expressions of patterns\<close>

datatype atom = Lit char | Dot | Not_slash

datatype quantity = One | Opt | Star

type_synonym item = "atom \<times> quantity"

datatype token = T_lit char | T_star atom | T_question

definition line_break :: "char \<Rightarrow> bool" where
  "line_break c \<longleftrightarrow> c = CHR 0x0A \<or> c = CHR 0x0D"

fun accepts :: "atom \<Rightarrow> char \<Rightarrow> bool" where
  "accepts (Lit d) c \<longleftrightarrow> c = d"
| "accepts Dot c \<longleftrightarrow> \<not> line_break c"
| "accepts Not_slash c \<longleftrightarrow> c \<noteq> CHR ''/''"

text \<open>The items so far, the last one first, each with whether its quantifier has a \<open>?\<close> already.\<close>

fun rx_items :: "token list \<Rightarrow> (item \<times> bool) list \<Rightarrow> item list option" where
  "rx_items [] acc = Some (rev (map fst acc))"
| "rx_items (T_lit c # ts) acc = rx_items ts (((Lit c, One), False) # acc)"
| "rx_items (T_star a # ts) acc = rx_items ts (((a, Star), False) # acc)"
| "rx_items (T_question # ts) [] = None"
| "rx_items (T_question # ts) (((a, q), lz) # acc) =
     (if q = One then rx_items ts (((a, Opt), False) # acc)
      else if \<not> lz then rx_items ts (((a, q), True) # acc)
      else None)"

function rx_match :: "item list \<Rightarrow> string \<Rightarrow> bool" where
  "rx_match [] s \<longleftrightarrow> s = []"
| "rx_match ((a, One) # is) s \<longleftrightarrow> (case s of [] \<Rightarrow> False | c # t \<Rightarrow> accepts a c \<and> rx_match is t)"
| "rx_match ((a, Opt) # is) s \<longleftrightarrow> rx_match is s \<or> (case s of [] \<Rightarrow> False | c # t \<Rightarrow> accepts a c \<and> rx_match is t)"
| "rx_match ((a, Star) # is) s \<longleftrightarrow>
     rx_match is s \<or> (case s of [] \<Rightarrow> False | c # t \<Rightarrow> accepts a c \<and> rx_match ((a, Star) # is) t)"
  by pat_completeness auto
termination by (relation "measure (\<lambda>(is, s). length is + length s)") auto

definition shell_tokens :: "string \<Rightarrow> token list" where
  "shell_tokens pattern =
     map (\<lambda>c. if c = CHR ''*'' then T_star Dot else if c = CHR ''?'' then T_question else T_lit c) pattern"

definition matchesShellPattern :: "string \<Rightarrow> string \<Rightarrow> bool option" where
  "matchesShellPattern command pattern =
     (if CHR ''*'' \<notin> set pattern then Some (command = pattern)
      else map_option (\<lambda>is. rx_match is command) (rx_items (shell_tokens pattern) []))"

text \<open>Two asterisks go through a placeholder, the character 0, so that a character 0 of the pattern counts as two asterisks.\<close>

fun glob_tokens :: "string \<Rightarrow> token list" where
  "glob_tokens [] = []"
| "glob_tokens [c] = [if c = CHR ''*'' then T_star Not_slash else if c = CHR 0x00 then T_star Dot else if c = CHR ''?'' then T_question else T_lit c]"
| "glob_tokens (c # d # s) =
     (if c = CHR ''*'' \<and> d = CHR ''*'' then T_star Dot # glob_tokens s
      else (if c = CHR ''*'' then T_star Not_slash else if c = CHR 0x00 then T_star Dot else if c = CHR ''?'' then T_question else T_lit c)
           # glob_tokens (d # s))"

definition matchesGlob :: "string \<Rightarrow> string \<Rightarrow> bool option" where
  "matchesGlob v pattern =
     (if CHR ''*'' \<notin> set pattern then Some (v = pattern)
      else map_option (\<lambda>is. rx_match is v) (rx_items (glob_tokens pattern) []))"

section \<open>Policies\<close>

text \<open>\<open>patterns.some(p => matches(p))\<close>: stops at the first match; \<open>None\<close> when a pattern throws before.\<close>

fun some_match :: "('a \<Rightarrow> bool option) \<Rightarrow> 'a list \<Rightarrow> bool option" where
  "some_match f [] = Some False"
| "some_match f (p # ps) = (case f p of None \<Rightarrow> None | Some True \<Rightarrow> Some True | Some False \<Rightarrow> some_match f ps)"

datatype shell_decision =
    Shell_allowed
  | Shell_denied string

fun first_denied :: "string \<Rightarrow> string list \<Rightarrow> string option option" where
  "first_denied command [] = Some None"
| "first_denied command (p # ps) =
     (case matchesShellPattern command p of
        None \<Rightarrow> None
      | Some True \<Rightarrow> Some (Some p)
      | Some False \<Rightarrow> first_denied command ps)"

definition checkShellPolicy :: "string \<Rightarrow> string list \<Rightarrow> string list \<Rightarrow> shell_decision option" where
  "checkShellPolicy command allowed denied =
     (case first_denied command denied of
        None \<Rightarrow> None
      | Some (Some p) \<Rightarrow> Some (Shell_denied (''Command blocked by shell policy: matches denied pattern '' @ [CHR 0x27] @ p @ [CHR 0x27]))
      | Some None \<Rightarrow>
          if allowed \<noteq> [] then
            map_option (\<lambda>m. if m then Shell_allowed else Shell_denied ''Command not in shell policy allowed list'')
              (some_match (matchesShellPattern command) allowed)
          else Some Shell_allowed)"

definition branchIsRestricted :: "string \<Rightarrow> string list option \<Rightarrow> bool option" where
  "branchIsRestricted branch restricted =
     (case restricted of None \<Rightarrow> Some False | Some ps \<Rightarrow> some_match (matchesGlob branch) ps)"

fun restricted_paths :: "string list \<Rightarrow> string list \<Rightarrow> string list option" where
  "restricted_paths ps [] = Some []"
| "restricted_paths ps (x # xs) =
     (case some_match (matchesGlob x) ps of
        None \<Rightarrow> None
      | Some b \<Rightarrow> map_option (\<lambda>r. if b then x # r else r) (restricted_paths ps xs))"

definition restrictedPathsTouched :: "string list \<Rightarrow> string list option \<Rightarrow> string list option" where
  "restrictedPathsTouched changedPaths restricted =
     (case restricted of
        None \<Rightarrow> Some []
      | Some ps \<Rightarrow> if ps = [] then Some [] else restricted_paths ps changedPaths)"

section \<open>What the patterns mean\<close>

text \<open>The documented meaning of a shell pattern: an asterisk stands for any text.\<close>

fun wildcard :: "string \<Rightarrow> string \<Rightarrow> bool" where
  "wildcard [] s \<longleftrightarrow> s = []"
| "wildcard (c # p) s \<longleftrightarrow>
     (if c = CHR ''*'' then (\<exists>k \<in> {0..length s}. wildcard p (drop k s))
      else (case s of [] \<Rightarrow> False | d # t \<Rightarrow> d = c \<and> wildcard p t))"

lemma rx_star:
  "rx_match ((a, Star) # is) s \<longleftrightarrow> (\<exists>k \<in> {0..length s}. (\<forall>c \<in> set (take k s). accepts a c) \<and> rx_match is (drop k s))"
proof (induction s)
  case (Cons c s)
  have "(\<exists>k \<in> {0..length (c # s)}. (\<forall>d \<in> set (take k (c # s)). accepts a d) \<and> rx_match is (drop k (c # s)))
      \<longleftrightarrow> rx_match is (c # s) \<or> (\<exists>k \<in> {0..length s}. (\<forall>d \<in> set (take (Suc k) (c # s)). accepts a d) \<and> rx_match is (drop (Suc k) (c # s)))"
    (is "?L \<longleftrightarrow> ?R")
  proof
    assume ?L
    then obtain k where "k \<le> length (c # s)" "\<forall>d \<in> set (take k (c # s)). accepts a d" "rx_match is (drop k (c # s))" by auto
    then show ?R by (cases k) auto
  next
    assume ?R
    then consider "rx_match is (c # s)"
      | k where "k \<le> length s" "\<forall>d \<in> set (take (Suc k) (c # s)). accepts a d" "rx_match is (drop (Suc k) (c # s))" by auto
    then show ?L
    proof cases
      case 1
      then show ?thesis by (intro bexI [of _ 0]) auto
    next
      case (2 k)
      then show ?thesis by (intro bexI [of _ "Suc k"]) auto
    qed
  qed
  then show ?case using Cons.IH by auto
qed simp

definition shell_items :: "string \<Rightarrow> item list" where
  "shell_items pattern = map (\<lambda>c. if c = CHR ''*'' then (Dot, Star) else (Lit c, One)) pattern"

lemma rx_items_plain: "CHR ''?'' \<notin> set p \<Longrightarrow> rx_items (shell_tokens p) acc = Some (rev (map fst acc) @ shell_items p)"
  by (induction p arbitrary: acc) (auto simp: shell_tokens_def shell_items_def)

lemma rx_shell: "\<forall>c \<in> set s. \<not> line_break c \<Longrightarrow> rx_match (shell_items p) s \<longleftrightarrow> wildcard p s"
proof (induction p arbitrary: s)
  case (Cons c p)
  show ?case
  proof (cases "c = CHR ''*''")
    case True
    have "\<forall>d \<in> set (drop k s). \<not> line_break d" "\<forall>d \<in> set (take k s). accepts Dot d" for k
      using Cons.prems in_set_dropD [of _ k s] in_set_takeD [of _ k s] by fastforce+
    moreover have "shell_items (c # p) = (Dot, Star) # shell_items p" by (simp add: shell_items_def True)
    ultimately show ?thesis using Cons.IH by (simp add: rx_star True del: rx_match.simps)
  next
    case False
    then show ?thesis using Cons by (auto simp: shell_items_def split: list.splits)
  qed
qed (simp add: shell_items_def)

lemma matches_wildcard:
  assumes "CHR ''?'' \<notin> set pattern" and "\<forall>c \<in> set command. \<not> line_break c"
  shows "matchesShellPattern command pattern = Some (wildcard pattern command)"
proof (cases "CHR ''*'' \<in> set pattern")
  case False
  then have "wildcard pattern command \<longleftrightarrow> command = pattern"
    by (induction pattern arbitrary: command) (auto split: list.splits)
  with False show ?thesis by (simp add: matchesShellPattern_def)
qed (simp add: matchesShellPattern_def rx_items_plain [OF assms(1)] rx_shell [OF assms(2)])

text \<open>C32: a shell pattern means what its documentation says, for commands of one line. Where the pattern has no question mark
  and the command no line break, the translated regular expression matches exactly when the command is the pattern with
  every asterisk replaced by some text.\<close>

theorem shell_pattern_meaning:
  assumes "CHR ''?'' \<notin> set pattern" and "\<forall>c \<in> set command. \<not> line_break c"
  shows "matchesShellPattern command pattern = Some (wildcard pattern command)"
  using assms by (rule matches_wildcard)

theorem shell_pattern_meaning_witness: "matchesShellPattern ''rm -rf /tmp/x'' ''rm -rf *'' = Some (wildcard ''rm -rf *'' ''rm -rf /tmp/x'')"
  by (rule shell_pattern_meaning) (simp_all add: line_break_def)

lemma rx_items_atoms:
  "rx_items ts acc = Some is \<Longrightarrow> (a, q) \<in> set is \<Longrightarrow>
   (\<exists>c. a = Lit c \<and> T_lit c \<in> set ts) \<or> T_star a \<in> set ts \<or> a \<in> fst ` fst ` set acc"
proof (induction ts acc rule: rx_items.induct)
  case (1 acc)
  then show ?case by force
next
  case (2 c ts acc)
  then show ?case by fastforce
next
  case (3 b ts acc)
  then show ?case by fastforce
next
  case (5 ts b q' lz acc)
  then show ?case by (cases "q' = One"; cases lz) auto
qed simp

lemma rx_match_accepts: "rx_match is s \<Longrightarrow> c \<in> set s \<Longrightarrow> \<exists>a q. (a, q) \<in> set is \<and> accepts a c"
proof (induction "is" s rule: rx_match.induct)
  case (2 a "is" s)
  then show ?case by (cases s) fastforce+
next
  case (3 a "is" s)
  then show ?case by (cases s) fastforce+
next
  case (4 a "is" s)
  then show ?case by (cases s) fastforce+
qed simp

text \<open>A line break in the command that the pattern does not have makes the pattern fail.\<close>

lemma line_break_no_match:
  assumes "b \<in> set command" and "line_break b" and "b \<notin> set pattern"
  shows "matchesShellPattern command pattern \<noteq> Some True"
proof
  assume m: "matchesShellPattern command pattern = Some True"
  show False
  proof (cases "CHR ''*'' \<in> set pattern")
    case True
    then obtain "is" where "is": "rx_items (shell_tokens pattern) [] = Some is" "rx_match is command"
      using m by (auto simp: matchesShellPattern_def)
    obtain a q where a: "(a, q) \<in> set is" "accepts a b" using rx_match_accepts [OF "is"(2) assms(1)] by blast
    have "T_star a \<in> set (shell_tokens pattern) \<Longrightarrow> a = Dot" "T_lit d \<in> set (shell_tokens pattern) \<Longrightarrow> d \<in> set pattern" for d
      by (auto simp: shell_tokens_def split: if_splits)
    with rx_items_atoms [OF "is"(1) a(1)] a(2) assms(2,3) show False by auto
  next
    case False
    then show False using m assms(1,3) by (auto simp: matchesShellPattern_def)
  qed
qed

lemma line_break_passes_denied:
  assumes "b \<in> set command" and "line_break b" and "\<forall>p \<in> set denied. b \<notin> set p \<and> CHR ''?'' \<notin> set p"
  shows "first_denied command denied = Some None"
  using assms(3)
proof (induction denied)
  case (Cons p ps)
  then have "matchesShellPattern command p \<noteq> None" "matchesShellPattern command p \<noteq> Some True"
    using line_break_no_match [OF assms(1,2), of p] by (auto simp: matchesShellPattern_def rx_items_plain)
  then have "matchesShellPattern command p = Some False" by auto
  then show ?case using Cons by simp
qed simp

text \<open>C18: a line break evades every denied pattern. The documentation says that an asterisk matches any run of characters, but the
  dot of the regular expression does not match line breaks: a command with a line break passes any list of denied
  patterns without line breaks and question marks, whatever the command does.\<close>

theorem line_break_evades_denied:
  assumes "b \<in> set command" and "line_break b" and "\<forall>p \<in> set denied. b \<notin> set p \<and> CHR ''?'' \<notin> set p"
  shows "checkShellPolicy command [] denied = Some Shell_allowed"
  by (simp add: checkShellPolicy_def line_break_passes_denied [OF assms])

theorem line_break_evades_denied_witness:
  "checkShellPolicy (''true'' @ [CHR 0x0A] @ ''rm -rf /'') [] [''rm -rf *'', ''*rm*''] = Some Shell_allowed"
  by (rule line_break_evades_denied [of "CHR 0x0A"]) (simp_all add: line_break_def)

end
