(* ===== verification/Workflow_Authority.thy ===== *)
theory Workflow_Authority
  imports Policy_Patterns Workflow_Types
begin

text \<open>
  The authority contract of a run (\<open>workflows/workflow-authority-contract.ts\<close>): which provider actions, repositories,
  context sources and shell commands it allows. A contract is the JSON object that the run carries; a run without
  one is not restricted. The regular expressions of the code search fixed words, and are written out as searches.
\<close>

section \<open>Reading the contract\<close>

definition authority_string :: "json option \<Rightarrow> string option" where
  "authority_string v = (case v of Some (JStr s) \<Rightarrow> non_empty (trim s) | _ \<Rightarrow> None)"

definition arrayValue :: "json option \<Rightarrow> json list" where
  "arrayValue v = (case v of Some (JArr xs) \<Rightarrow> xs | _ \<Rightarrow> [])"

definition string_entries :: "json list \<Rightarrow> string list" where
  "string_entries xs = List.map_filter (\<lambda>x. as_str (Some x)) xs"

definition stringArray :: "json option \<Rightarrow> string list" where
  "stringArray v = string_entries (arrayValue v)"

fun readPath :: "json option \<Rightarrow> string list \<Rightarrow> json option" where
  "readPath v [] = v"
| "readPath v (k # ks) = (case v of Some (JObj m) \<Rightarrow> readPath (field m k) ks | _ \<Rightarrow> None)"

definition contractDigest :: "run \<Rightarrow> string option" where
  "contractDigest r =
     (case r_workflowAuthorityContract r of
        None \<Rightarrow> None
      | Some c \<Rightarrow> (case authority_string (field c ''digest'') of
                     Some d \<Rightarrow> Some d | None \<Rightarrow> authority_string (field c ''contract_digest'')))"

section \<open>Names\<close>

definition drop_prefix :: "string \<Rightarrow> string \<Rightarrow> string" where
  "drop_prefix p s = (if startsWith (toLowerCase s) p then drop (length p) s else s)"

definition drop_git :: "string \<Rightarrow> string" where
  "drop_git s = (if endsWith (toLowerCase s) ''.git'' then take (length s - 4) s else s)"

definition normalizeRepository :: "string \<Rightarrow> string" where
  "normalizeRepository v =
     toLowerCase (drop_git (drop_prefix ''github.com/'' (drop_prefix ''git@github.com:'' (drop_prefix ''https://github.com/'' (trim v)))))"

definition normalizeContextRef :: "string \<Rightarrow> string" where
  "normalizeContextRef v = toLowerCase (drop_git (trim v))"

definition normalizeToken :: "string \<Rightarrow> string" where
  "normalizeToken v = map (\<lambda>c. if c = CHR ''_'' then CHR ''-'' else c) (toLowerCase (trim v))"

definition normalizeAction :: "string \<Rightarrow> string" where
  "normalizeAction v = (let t = normalizeToken v in if startsWith t ''chat.'' then ''chat-'' @ drop 5 t else t)"

section \<open>What the contract allows\<close>

definition contract_of :: "run \<Rightarrow> json option" where
  "contract_of r = map_option JObj (r_workflowAuthorityContract r)"

definition allowedRepositories :: "run \<Rightarrow> string list" where
  "allowedRepositories r =
     filter (\<lambda>s. s \<noteq> []) (map normalizeRepository (stringArray (readPath (contract_of r) [''repos'', ''allowed''])))"

record side_effect =
  se_provider :: string
  se_actions :: "string list"

definition side_effect_of :: "json \<Rightarrow> side_effect option" where
  "side_effect_of j =
     (case j of
        JStr s \<Rightarrow>
          (let parts = splitOn (CHR ''.'') s; provider = hd parts; action = (if length parts > 1 then parts ! 1 else [])
           in if provider = [] then None
              else Some \<lparr>se_provider = normalizeToken provider, se_actions = (if action = [] then [] else [normalizeAction action])\<rparr>)
      | JObj m \<Rightarrow>
          (let provider = normalizeToken (case authority_string (field m ''provider'') of
                 Some p \<Rightarrow> p
               | None \<Rightarrow> (case authority_string (field m ''adapter'') of Some p \<Rightarrow> p | None \<Rightarrow> []))
           in if provider = [] then None
              else Some \<lparr>se_provider = provider,
                se_actions = filter (\<lambda>s. s \<noteq> []) (map normalizeAction
                  ((case authority_string (field m ''action'') of Some a \<Rightarrow> [a] | None \<Rightarrow> []) @ stringArray (field m ''actions'')))\<rparr>)
      | _ \<Rightarrow> None)"

definition allowedSideEffects :: "json option \<Rightarrow> side_effect list" where
  "allowedSideEffects c = List.map_filter side_effect_of (arrayValue (readPath c [''side_effects'', ''allowed'']))"

definition effect_allowed :: "side_effect list \<Rightarrow> string \<Rightarrow> string \<Rightarrow> bool" where
  "effect_allowed ses provider action \<longleftrightarrow>
     (\<exists>e \<in> set ses. se_provider e = provider \<and> (se_actions e = [] \<or> action \<in> set (se_actions e)))"

definition effect_names :: "side_effect list \<Rightarrow> string list" where
  "effect_names ses =
     concat (map (\<lambda>e. if se_actions e \<noteq> [] then map (\<lambda>a. se_provider e @ ''.'' @ a) (se_actions e) else [se_provider e]) ses)"

datatype denial_reason =
    Provider_action_not_allowed | Repository_not_allowed | Context_source_not_allowed
  | Shell_policy_required | Shell_disabled_by_policy | Shell_command_not_allowed | Shell_legacy_command_not_allowed
  | Shell_cwd_outside_worktree | Shell_repository_not_allowed | Shell_provider_side_effect_not_allowed

record denial =
  dn_reason :: denial_reason
  dn_runId :: string
  dn_nodeId :: string
  dn_detail :: string
  dn_contractDigest :: "string option"
  dn_provider :: "string option"
  dn_action :: "string option"
  dn_repository :: "string option"
  dn_contextSource :: "string option"
  dn_command :: "string option"
  dn_allowed :: "string list option"

definition denial_for :: "run \<Rightarrow> string \<Rightarrow> denial_reason \<Rightarrow> string \<Rightarrow> denial" where
  "denial_for r nodeId reason detail =
     \<lparr>dn_reason = reason, dn_runId = r_id r, dn_nodeId = nodeId, dn_detail = detail, dn_contractDigest = contractDigest r,
      dn_provider = None, dn_action = None, dn_repository = None, dn_contextSource = None, dn_command = None, dn_allowed = None\<rparr>"

text \<open>The repository of a GitHub action.\<close>

definition first_string :: "obj \<Rightarrow> string list \<Rightarrow> string option" where
  "first_string m ks = (case List.map_filter (\<lambda>k. authority_string (field m k)) ks of [] \<Rightarrow> None | s # _ \<Rightarrow> Some s)"

definition actionRepository :: "string \<Rightarrow> obj \<Rightarrow> string option" where
  "actionRepository adapter input =
     (if adapter \<noteq> ''github'' then None
      else case first_string input [''repository'', ''repo_full_name'', ''repoFullName'', ''repo_name''] of
             Some repository \<Rightarrow> Some (normalizeRepository repository)
           | None \<Rightarrow>
               (case (authority_string (field input ''owner''), authority_string (field input ''repo'')) of
                  (Some owner, Some repo) \<Rightarrow> Some (normalizeRepository (owner @ ''/'' @ repo))
                | _ \<Rightarrow> None))"

definition workflowActionAuthorityDenial :: "run \<Rightarrow> string \<Rightarrow> string \<Rightarrow> string \<Rightarrow> obj \<Rightarrow> denial option" where
  "workflowActionAuthorityDenial r nodeId adapter action input =
     (case contract_of r of
        None \<Rightarrow> None
      | Some contract \<Rightarrow>
          let sideEffects = allowedSideEffects (Some contract); repository = actionRepository adapter input;
              repositories = allowedRepositories r
          in if sideEffects \<noteq> [] \<and> \<not> effect_allowed sideEffects (normalizeToken adapter) (normalizeAction action) then
               Some ((denial_for r nodeId Provider_action_not_allowed
                        (''Workflow authority contract does not allow '' @ adapter @ ''.'' @ action @ ''.''))
                     \<lparr>dn_provider := Some adapter, dn_action := Some action, dn_allowed := Some (effect_names sideEffects)\<rparr>)
             else if truthy repository \<and> repositories \<noteq> [] \<and> the repository \<notin> set repositories then
               Some ((denial_for r nodeId Repository_not_allowed
                        (''Workflow authority contract does not allow repository '' @ the repository @ ''.''))
                     \<lparr>dn_provider := Some adapter, dn_action := Some action, dn_repository := repository, dn_allowed := Some repositories\<rparr>)
             else None)"

section \<open>Context sources\<close>

record context_provider =
  cp_id :: string
  cp_vault :: "string option"
  cp_ref :: "string option"
  cp_repo :: "string option"
  cp_remote :: "string option"
  cp_sourceConfigPath :: string

definition context_ref_keys :: "string list" where
  "context_ref_keys =
     [''id'', ''ref'', ''source_ref'', ''sourceRef'', ''external_ref'', ''externalRef'', ''context_source_id'', ''contextSourceId'',
      ''provider_id'', ''providerId'', ''url'', ''source_url'', ''sourceUrl'']"

definition contextRefCandidates :: "json \<Rightarrow> string list" where
  "contextRefCandidates j =
     (case j of JStr s \<Rightarrow> [s] | JObj m \<Rightarrow> List.map_filter (\<lambda>k. as_str (field m k)) context_ref_keys | _ \<Rightarrow> [])"

datatype context_mode = Read_context | Update_target

definition mode_name :: "context_mode \<Rightarrow> string" where
  "mode_name m = (case m of Read_context \<Rightarrow> ''read'' | Update_target \<Rightarrow> ''update_target'')"

definition allowedContextRefs :: "json option \<Rightarrow> context_mode \<Rightarrow> string list" where
  "allowedContextRefs c mode =
     filter (\<lambda>s. s \<noteq> []) (map normalizeContextRef (concat (map contextRefCandidates
       (arrayValue (readPath c [''context_sources'', (case mode of Read_context \<Rightarrow> ''read'' | Update_target \<Rightarrow> ''update_targets'')])))))"

text \<open>\<open>entry.replace(/\.git$/, '')\<close>, here with the case as it is.\<close>

definition without_git :: "string \<Rightarrow> string" where
  "without_git s = (if endsWith s ''.git'' then take (length s - 4) s else s)"

definition contextProviderRefs :: "context_provider \<Rightarrow> string list" where
  "contextProviderRefs p =
     (let named = (\<lambda>prefix v. if truthy v then [prefix @ the v] else []); opt = (\<lambda>v. case v of Some s \<Rightarrow> [s] | None \<Rightarrow> []);
          refs = [cp_id p] @ opt (cp_vault p) @ opt (cp_ref p) @ opt (cp_repo p) @ opt (cp_remote p) @ [cp_sourceConfigPath p]
            @ [''context://'' @ cp_id p] @ named ''context://'' (cp_vault p) @ named ''context://vault/'' (cp_vault p)
            @ [''context_vault:'' @ cp_id p] @ named ''context_vault:'' (cp_vault p)
            @ [''provider://'' @ cp_id p] @ named ''provider://'' (cp_vault p)
            @ (if truthy (cp_repo p) then [''git://'' @ normalizeRepository (the (cp_repo p))] else [])
      in filter (\<lambda>s. s \<noteq> []) (map normalizeContextRef (concat (map (\<lambda>e. [e, without_git e]) (filter (\<lambda>e. trim e \<noteq> []) refs)))))"

definition contextAuthorityDenial :: "run \<Rightarrow> string \<Rightarrow> context_provider \<Rightarrow> context_mode \<Rightarrow> denial option" where
  "contextAuthorityDenial r nodeId p mode =
     (case contract_of r of
        None \<Rightarrow> None
      | Some contract \<Rightarrow>
          let allowed = allowedContextRefs (Some contract) mode
          in if allowed = [] \<or> (\<exists>x \<in> set (contextProviderRefs p). x \<in> set allowed) then None
             else Some ((denial_for r nodeId Context_source_not_allowed
                           (''Workflow authority contract does not allow context source '' @ cp_id p @ '' for '' @ mode_name mode @ ''.''))
                        \<lparr>dn_contextSource := Some (cp_id p), dn_allowed := Some allowed\<rparr>))"

section \<open>Searching commands\<close>

definition word_char :: "char \<Rightarrow> bool" where
  "word_char c \<longleftrightarrow> (let n = of_char c :: nat in (48 \<le> n \<and> n \<le> 57) \<or> (65 \<le> n \<and> n \<le> 90) \<or> (97 \<le> n \<and> n \<le> 122) \<or> n = 95)"

definition repo_char :: "char \<Rightarrow> bool" where
  "repo_char c \<longleftrightarrow> word_char c \<or> c = CHR ''.'' \<or> c = CHR ''-''"

text \<open>The rest after words with white space between them.\<close>

fun after_words :: "string list \<Rightarrow> string \<Rightarrow> string option" where
  "after_words [] s = Some s"
| "after_words (w # ws) s =
     (if \<not> startsWith s w then None
      else let t = drop (length w) s
           in if ws = [] then Some t
              else if takeWhile js_space t = [] then None
              else after_words ws (dropWhile js_space t))"

definition boundary :: "char option \<Rightarrow> bool" where
  "boundary c \<longleftrightarrow> (case c of None \<Rightarrow> True | Some x \<Rightarrow> \<not> word_char x)"

definition head_char :: "string \<Rightarrow> char option" where
  "head_char s = (case s of [] \<Rightarrow> None | c # _ \<Rightarrow> Some c)"

text \<open>A search for \<open>\bword\s+...\s+word\b\<close>; \<open>prev\<close> is the character before.\<close>

fun has_words :: "char option \<Rightarrow> string list \<Rightarrow> string \<Rightarrow> bool" where
  "has_words prev ws [] = False"
| "has_words prev ws (c # s) =
     (boundary prev \<and> (case after_words ws (c # s) of Some t \<Rightarrow> boundary (head_char t) | None \<Rightarrow> False) \<or> has_words (Some c) ws s)"

definition shellProviderSideEffects :: "string \<Rightarrow> (string \<times> string) list" where
  "shellProviderSideEffects command =
     (let n = toLowerCase command; curl = has_words None [''curl''] n
      in (if has_words None [''gh'', ''pr'', ''create''] n then [(''github'', ''create-pr'')] else [])
         @ (if has_words None [''git'', ''push''] n then [(''github'', ''push-branch'')] else [])
         @ (if curl \<and> str_includes n ''api.github.com/repos/'' then [(''github'', ''api-request'')] else [])
         @ (if curl \<and> str_includes n ''slack.com/api/chat.postmessage'' then [(''slack'', ''post-message'')] else [])
         @ (if (curl \<or> has_words None [''wget''] n) \<and> (str_includes n ''http://'' \<or> str_includes n ''https://'')
            then [(''external-api'', ''request'')] else []))"

text \<open>\<open>[A-Za-z0-9_.-]+/[A-Za-z0-9_.-]+\<close> at the start of a text.\<close>

definition repo_ref :: "string \<Rightarrow> string option" where
  "repo_ref s =
     (let a = takeWhile repo_char s; t = drop (length a) s
      in if a = [] \<or> head_char t \<noteq> Some (CHR ''/'') then None
         else let b = takeWhile repo_char (tl t) in if b = [] then None else Some (a @ ''/'' @ b))"

text \<open>What the five expressions match at a position: the rest of the text in which the repository is looked for.\<close>

definition after_literal :: "string \<Rightarrow> string \<Rightarrow> string option" where
  "after_literal lit s = (if startsWith (toLowerCase s) lit then Some (drop (length lit) s) else None)"

definition after_spaces :: "string option \<Rightarrow> string option" where
  "after_spaces t = (case t of None \<Rightarrow> None | Some u \<Rightarrow> if takeWhile js_space u = [] then None else Some (dropWhile js_space u))"

definition lower_words :: "string list \<Rightarrow> string \<Rightarrow> string option" where
  "lower_words ws s = map_option (\<lambda>t. drop (length s - length t) s) (after_words ws (toLowerCase s))"

definition repo_positions :: "(char option \<Rightarrow> string \<Rightarrow> string option) list" where
  "repo_positions =
     [\<lambda>_. after_literal ''git@github.com:'', \<lambda>_. after_literal ''https://github.com/'', \<lambda>_. after_literal ''api.github.com/repos/'',
      \<lambda>_ s. after_spaces (case after_literal ''--repo'' s of Some t \<Rightarrow> Some t | None \<Rightarrow> after_literal ''-r'' s),
      \<lambda>prev s. if boundary prev then after_spaces (lower_words [''gh'', ''repo'', ''clone''] s) else None]"

text \<open>\<open>matchAll\<close>: the search goes on after each match.\<close>

function all_refs :: "(char option \<Rightarrow> string \<Rightarrow> string option) \<Rightarrow> char option \<Rightarrow> string \<Rightarrow> string list" where
  "all_refs f prev s =
     (if s = [] then []
      else case Option.bind (f prev s) repo_ref of
             None \<Rightarrow> all_refs f (Some (hd s)) (tl s)
           | Some ref \<Rightarrow>
               let n = max 1 (length s - length (the (f prev s)) + length ref)
               in ref # all_refs f (Some (s ! (min (n - 1) (length s - 1)))) (drop n s))"
  by pat_completeness auto
termination by (relation "measure (\<lambda>(f, prev, s). length s)") auto

definition shellRepositoryRefs :: "string \<Rightarrow> string list" where
  "shellRepositoryRefs command =
     unique (filter (\<lambda>s. s \<noteq> []) (map normalizeRepository (concat (map (\<lambda>f. all_refs f None command) repo_positions))))"

definition token_length :: "string list \<Rightarrow> (char \<Rightarrow> bool) \<Rightarrow> string \<Rightarrow> nat" where
  "token_length prefixes ok s =
     (case filter (startsWith s) prefixes of
        [] \<Rightarrow> 0
      | p # _ \<Rightarrow> let run = takeWhile ok (drop (length p) s) in if run = [] then 0 else length p + length run)"

function redact :: "(string \<Rightarrow> nat) \<Rightarrow> string \<Rightarrow> string" where
  "redact len s =
     (if s = [] then []
      else if len s = 0 then hd s # redact len (tl s)
      else ''[redacted-token]'' @ redact len (drop (len s) s))"
  by pat_completeness auto
termination by (relation "measure (\<lambda>(len, s). length s)") auto

definition redactedCommand :: "string \<Rightarrow> string" where
  "redactedCommand command =
     take 500 (redact (token_length [''xoxb-'', ''xoxa-'', ''xoxp-'', ''xoxr-'', ''xoxs-''] (\<lambda>c. word_char c \<and> c \<noteq> CHR ''_'' \<or> c = CHR ''-''))
       (redact (token_length [''ghp_'', ''ghs_''] word_char) command))"

section \<open>Paths\<close>

fun path_step :: "string \<Rightarrow> string list \<Rightarrow> string list" where
  "path_step seg acc = (if seg = [] \<or> seg = ''.'' then acc else if seg = ''..'' then butlast acc else acc @ [seg])"

text \<open>\<open>path.resolve(p)\<close> in the working directory \<open>wd\<close>, as its segments.\<close>

definition resolve_path :: "string \<Rightarrow> string \<Rightarrow> string list" where
  "resolve_path wd p = fold path_step (splitOn (CHR ''/'') (if startsWith p ''/'' then p else wd @ ''/'' @ p)) []"

fun relative_path :: "string list \<Rightarrow> string list \<Rightarrow> string list" where
  "relative_path [] ts = ts"
| "relative_path (f # fs) [] = replicate (length (f # fs)) ''..''"
| "relative_path (f # fs) (t # ts) =
     (if f = t then relative_path fs ts else replicate (length (f # fs)) ''..'' @ t # ts)"

definition isPathWithin :: "string \<Rightarrow> string \<Rightarrow> string \<Rightarrow> bool" where
  "isPathWithin wd candidate base =
     (let relative = join ''/'' (relative_path (resolve_path wd base) (resolve_path wd candidate))
      in relative = [] \<or> \<not> startsWith relative ''..'' \<and> \<not> startsWith relative ''/'')"

section \<open>Shell commands\<close>

definition token_value :: "json option \<Rightarrow> string option" where
  "token_value v = (case as_str v of Some s \<Rightarrow> if trim s = [] then None else Some (normalizeToken s) | None \<Rightarrow> None)"

definition shellExecutionPolicy :: "json option \<Rightarrow> string option" where
  "shellExecutionPolicy c =
     (case token_value (readPath c [''shell'', ''policy'']) of Some p \<Rightarrow> Some p | None \<Rightarrow> token_value (readPath c [''shell_policy'']))"

definition legacyShellCommandAllowed :: "json option \<Rightarrow> bool" where
  "legacyShellCommandAllowed c =
     (case readPath c [''shell'', ''allow_legacy_command''] of
        Some (JBool b) \<Rightarrow> b
      | _ \<Rightarrow> (case readPath c [''shell_allow_legacy_command''] of Some (JBool b) \<Rightarrow> b | _ \<Rightarrow> False))"

definition side_effect_policy_present :: "json option \<Rightarrow> bool" where
  "side_effect_policy_present c = (case readPath c [''side_effects'', ''allowed''] of Some (JArr _) \<Rightarrow> True | _ \<Rightarrow> False)"

definition forbidden_effects :: "json option \<Rightarrow> string \<Rightarrow> (string \<times> string) list" where
  "forbidden_effects c command =
     filter (\<lambda>(p, a). side_effect_policy_present c \<and> \<not> effect_allowed (allowedSideEffects c) p a) (shellProviderSideEffects command)"

text \<open>\<open>None\<close> is the exception of a pattern that is no regular expression; \<open>Some None\<close> lets the command run.\<close>

definition shellAuthorityDenial :: "string \<Rightarrow> run \<Rightarrow> string \<Rightarrow> string \<Rightarrow> string \<Rightarrow> string option \<Rightarrow> denial option option" where
  "shellAuthorityDenial wd r nodeId command cwd executorKind =
     (case contract_of r of
        None \<Rightarrow> Some None
      | Some contract \<Rightarrow>
          let c = Some contract; policy = shellExecutionPolicy c;
              denied = (\<lambda>reason detail. (denial_for r nodeId reason detail)\<lparr>dn_command := Some (redactedCommand command)\<rparr>)
          in if policy \<noteq> Some ''constrained'' then
               Some (Some (if policy = Some ''disabled''
                           then denied Shell_disabled_by_policy ''Shell execution is disabled by the workflow authority contract.''
                           else denied Shell_policy_required
                             ''Shell execution under a workflow authority contract requires an explicit constrained shell policy.''))
             else if executorKind = Some ''shell'' \<and> \<not> legacyShellCommandAllowed c then
               Some (Some (denied Shell_legacy_command_not_allowed
                 ''Legacy shell command execution uses sh -lc and must be explicitly allowed by shell.allow_legacy_command. Prefer argv for worker-managed shell/test primitives.''))
             else
               (case checkShellPolicy command (stringArray (readPath c [''shell'', ''allowed''])) (stringArray (readPath c [''shell'', ''denied''])) of
                  None \<Rightarrow> None
                | Some (Shell_denied reason) \<Rightarrow> Some (Some (denied Shell_command_not_allowed reason))
                | Some Shell_allowed \<Rightarrow>
                    if \<not> isPathWithin wd cwd (r_directoryPath r) then
                      Some (Some (denied Shell_cwd_outside_worktree
                        ''Shell node cwd is outside the run worktree. Use an in-worktree cwd or an explicit first-class checkout/worktree step.''))
                    else (case forbidden_effects c command of
                        (p, a) # _ \<Rightarrow>
                          Some (Some ((denied Shell_provider_side_effect_not_allowed
                              (''Shell command attempts '' @ p @ ''.'' @ a @ '', which is outside workflow side-effect authority.''))
                            \<lparr>dn_provider := Some p, dn_action := Some a, dn_allowed := Some (effect_names (allowedSideEffects c))\<rparr>))
                      | [] \<Rightarrow>
                          let repositories = allowedRepositories r
                          in if repositories = [] then Some None
                             else (case find (\<lambda>repo. repo \<notin> set repositories) (shellRepositoryRefs command) of
                                 None \<Rightarrow> Some None
                               | Some repo \<Rightarrow>
                                   Some (Some ((denied Shell_repository_not_allowed
                                       (''Shell command references repository '' @ repo @ '', which is outside workflow repo authority.''))
                                     \<lparr>dn_repository := Some repo, dn_allowed := Some repositories\<rparr>))))))"

section \<open>What the checks guarantee\<close>

lemma relative_cases: "(\<exists>rest. ts = fs @ rest \<and> relative_path fs ts = rest) \<or> (\<exists>xs. relative_path fs ts = ''..'' # xs)"
  by (induction fs ts rule: relative_path.induct) auto

lemma within_prefix: "isPathWithin wd p base \<Longrightarrow> \<exists>rest. resolve_path wd p = resolve_path wd base @ rest"
  using relative_cases [of "resolve_path wd p" "resolve_path wd base"]
  by (auto simp: isPathWithin_def Let_def join_Cons startsWith_def)

text \<open>A list without entries, or with entries that cannot be read, does not restrict provider actions at all, while for shell
  commands it forbids every side effect that is recognised.\<close>

lemma empty_list_restricts_shell_only:
  assumes "r_workflowAuthorityContract r = Some c" and "readPath (Some (JObj c)) [''side_effects'', ''allowed''] = Some (JArr [])"
  shows "allowedRepositories r = [] \<Longrightarrow> workflowActionAuthorityDenial r nodeId adapter action input = None"
    and "forbidden_effects (Some (JObj c)) command = shellProviderSideEffects command"
proof -
  have a: "allowedSideEffects (Some (JObj c)) = []" using assms(2) by (simp add: allowedSideEffects_def arrayValue_def List.map_filter_def)
  show "workflowActionAuthorityDenial r nodeId adapter action input = None" if "allowedRepositories r = []"
    using that a assms(1) by (simp add: workflowActionAuthorityDenial_def contract_of_def Let_def)
  show "forbidden_effects (Some (JObj c)) command = shellProviderSideEffects command"
    using assms(2) by (auto simp: forbidden_effects_def side_effect_policy_present_def a effect_allowed_def filter_id_conv)
qed

text \<open>The short form of an action whose name has a dot allows another action.\<close>

lemma dotted_action_misread: "side_effect_of (JStr ''slack.chat.postMessage'') = Some \<lparr>se_provider = ''slack'', se_actions = [''chat'']\<rparr>"
  by code_simp

lemma some_match_True: "some_match f ps = Some True \<Longrightarrow> \<exists>p \<in> set ps. f p = Some True"
  by (induction ps) (auto split: option.splits bool.splits)

lemma first_denied_none: "first_denied command ps = Some None \<Longrightarrow> \<forall>p \<in> set ps. matchesShellPattern command p = Some False"
  by (induction ps) (auto split: option.splits bool.splits)

lemma shell_allowed:
  assumes "checkShellPolicy command allowed denied = Some Shell_allowed"
  shows "\<forall>p \<in> set denied. matchesShellPattern command p = Some False"
    and "allowed = [] \<or> (\<exists>p \<in> set allowed. matchesShellPattern command p = Some True)"
  using assms first_denied_none [of command denied] some_match_True [of "matchesShellPattern command" allowed]
  by (auto simp: checkShellPolicy_def split: option.splits if_splits)

text \<open>C17: a shell command runs under an authority contract only within it. When the check lets a command of a run with a contract
  pass, the contract has the policy "constrained"; a legacy command is allowed as such; no denied pattern matches and,
  if there are allowed patterns, one does; the working directory lies in the directory of the run; every side effect
  that is recognised in the command is allowed, if the contract lists side effects; and every repository the command
  names is allowed, if the contract lists repositories.\<close>

theorem shell_within_authority:
  assumes "r_workflowAuthorityContract r = Some c" and "shellAuthorityDenial wd r nodeId command cwd kind = Some None"
  shows "shellExecutionPolicy (Some (JObj c)) = Some ''constrained''
    \<and> (kind = Some ''shell'' \<longrightarrow> legacyShellCommandAllowed (Some (JObj c)))
    \<and> (\<forall>p \<in> set (stringArray (readPath (Some (JObj c)) [''shell'', ''denied''])). matchesShellPattern command p = Some False)
    \<and> (let allowed = stringArray (readPath (Some (JObj c)) [''shell'', ''allowed''])
       in allowed = [] \<or> (\<exists>p \<in> set allowed. matchesShellPattern command p = Some True))
    \<and> (\<exists>rest. resolve_path wd cwd = resolve_path wd (r_directoryPath r) @ rest)
    \<and> (side_effect_policy_present (Some (JObj c)) \<longrightarrow>
        (\<forall>(p, a) \<in> set (shellProviderSideEffects command). effect_allowed (allowedSideEffects (Some (JObj c))) p a))
    \<and> (allowedRepositories r \<noteq> [] \<longrightarrow> set (shellRepositoryRefs command) \<subseteq> set (allowedRepositories r))"
proof -
  let ?c = "Some (JObj c)"
  let ?al = "stringArray (readPath ?c [''shell'', ''allowed''])" and ?de = "stringArray (readPath ?c [''shell'', ''denied''])"
  note e = assms(2) [unfolded shellAuthorityDenial_def contract_of_def assms(1) option.map option.case Let_def]
  have policy: "shellExecutionPolicy ?c = Some ''constrained''" "kind = Some ''shell'' \<longrightarrow> legacyShellCommandAllowed ?c"
    using e by (simp_all split: if_splits)
  then have e2: "(case checkShellPolicy command ?al ?de of None \<Rightarrow> None
      | Some (Shell_denied reason) \<Rightarrow> Some (Some reason)
      | Some Shell_allowed \<Rightarrow> if isPathWithin wd cwd (r_directoryPath r) \<and> forbidden_effects ?c command = []
          \<and> (allowedRepositories r = [] \<or> find (\<lambda>repo. repo \<notin> set (allowedRepositories r)) (shellRepositoryRefs command) = None)
          then Some None else Some (Some [])) = Some None"
    using e by (auto split: option.splits shell_decision.splits if_splits list.splits prod.splits)
  then have p: "checkShellPolicy command ?al ?de = Some Shell_allowed" by (auto split: option.splits shell_decision.splits)
  with e2 have q: "isPathWithin wd cwd (r_directoryPath r)" "forbidden_effects ?c command = []"
      "allowedRepositories r = [] \<or> find (\<lambda>repo. repo \<notin> set (allowedRepositories r)) (shellRepositoryRefs command) = None"
    by (auto split: if_splits)
  have "\<forall>(p, a) \<in> set (shellProviderSideEffects command). effect_allowed (allowedSideEffects ?c) p a" if "side_effect_policy_present ?c"
    using q(2) that by (auto simp: forbidden_effects_def filter_empty_conv)
  moreover have "allowedRepositories r \<noteq> [] \<longrightarrow> set (shellRepositoryRefs command) \<subseteq> set (allowedRepositories r)"
    using q(3) by (auto simp: find_None_iff)
  ultimately show ?thesis using policy shell_allowed [OF p] within_prefix [OF q(1)] by (simp add: Let_def)
qed

definition demo_contract :: obj where
  "demo_contract =
     [(''shell'', JObj [(''policy'', JStr ''constrained''), (''denied'', JArr [JStr ''rm *''])]),
      (''side_effects'', JObj [(''allowed'', JArr [JStr ''github.push_branch''])])]"

definition authority_demo :: run where
  "authority_demo =
     \<lparr>r_id = ''r'', r_directoryPath = ''/w'', r_resourceId = None, r_platformRunId = None, r_machineId = None,
      r_workflowAuthorityContract = Some demo_contract, r_status = RQueued, r_inputs = [], r_nodes = [], r_artifacts = [],
      r_events = [], r_startedAt = None, r_updatedAt = 0, r_completedAt = None, r_error = None\<rparr>"

lemma demo_allowed: "shellAuthorityDenial ''/'' authority_demo ''n'' ''git push'' ''/w/src'' None = Some None"
  by code_simp

theorem shell_within_authority_witness:
  "effect_allowed (allowedSideEffects (Some (JObj demo_contract))) ''github'' ''push-branch''"
proof -
  have "r_workflowAuthorityContract authority_demo = Some demo_contract" by (simp add: authority_demo_def)
  note a = shell_within_authority [OF this demo_allowed]
  have "side_effect_policy_present (Some (JObj demo_contract))"
    "(''github'', ''push-branch'') \<in> set (shellProviderSideEffects ''git push'')" by code_simp+
  with a show ?thesis by auto
qed

end
