(* ===== verification/Action_Requests.thy ===== *)
theory Action_Requests
  imports Workflow_Executor Workflow_Authority
begin

text \<open>
  What the actions of workflows are made of: the digest of a proposal and the redaction of its input
  (\<open>action-digest.ts\<close>), the reason of a policy (\<open>action-policy.ts\<close>), headers, credentials and fields of answers
  (\<open>action-provider-utils.ts\<close>), and the reading back of what a provider did (\<open>provider-reconciliation.ts\<close>).

  An action is a tree of requests: it ends with a result, or sends a request and goes on with the answer and with the
  run and the ledger as they are then. What the code takes from the machine (environment variables, the home
  directory, files of secrets, SHA-256, the collation of \<open>localeCompare\<close>, the parsing of URLs) is the record \<open>host\<close>.
\<close>

section \<open>The machine, the nodes and the requests\<close>

record host =
  h_sha256 :: "string \<Rightarrow> string"
  h_before :: "string \<Rightarrow> string \<Rightarrow> bool" \<comment> \<open>\<open>left.localeCompare(right) <= 0\<close>\<close>
  h_env :: "string \<Rightarrow> string option"
  h_home :: string
  h_file :: "string \<Rightarrow> string option"
  h_url :: "string \<Rightarrow> (string \<times> (string \<Rightarrow> string)) option"
    \<comment> \<open>\<open>new URL(s)\<close>: the host name, and the text of the URL with another host name and nothing after the host; \<open>None\<close> when it throws\<close>

record action_node =
  an_adapter :: string
  an_action :: string
  an_with :: "obj option"
  an_proposalKey :: "string option"
  an_idempotencyKey :: "string option"
  an_requiresApproval :: "bool option"
  an_reason :: "string option" \<comment> \<open>of \<open>policy\<close>\<close>
  an_approvalRequired :: "bool option" \<comment> \<open>of \<open>policy\<close>\<close>

definition requires_approval :: "action_node \<Rightarrow> bool" where
  "requires_approval n \<longleftrightarrow> an_requiresApproval n = Some True"

definition action_name :: "action_node \<Rightarrow> string" where
  "action_name n = an_adapter n @ ''.'' @ an_action n"

record ledger_entry =
  le_nodeId :: string
  le_adapter :: string
  le_action :: string
  le_idempotencyKey :: string
  le_digest :: string
  le_output :: string
  le_executedAt :: int
  le_response :: "obj option"

text \<open>The run with its ledger of executed actions, and the execution grants of the approvals of its nodes.\<close>

record world =
  w_run :: run
  w_ledger :: "(string, ledger_entry) js_map"
  w_grants :: "(string, json) js_map"

type_synonym headers = "(string, string) js_map"

record http_request =
  rq_method :: string
  rq_url :: string
  rq_headers :: headers
  rq_body :: "string option"

text \<open>The answer: its status and its text, which is empty where it cannot be read; or the rejection of \<open>fetch\<close>.\<close>

datatype http_result =
    Response int string
  | Fetch_error string

definition response_ok :: "int \<Rightarrow> bool" where
  "response_ok status \<longleftrightarrow> 200 \<le> status \<and> status \<le> 299"

datatype act =
    Finish world adapter_result
  | Fetch http_request "env \<times> world \<times> http_result \<Rightarrow> act"

section \<open>Digests and policies\<close>

definition secret_words :: "string list" where
  "secret_words =
     [''authorization'', ''token'', ''secret'', ''password'', ''apikey'', ''api_key'', ''api-key'', ''privatekey'',
      ''private_key'', ''private-key'']"

definition secret_key :: "string \<Rightarrow> bool" where
  "secret_key k \<longleftrightarrow> list_ex (str_includes (toLowerCase k)) secret_words"

fun sanitizeActionInput :: "json \<Rightarrow> json" where
  "sanitizeActionInput (JArr vs) = JArr (map sanitizeActionInput vs)"
| "sanitizeActionInput (JObj fs) =
     JObj (map (\<lambda>(k, v). (k, if secret_key k then JStr ''[redacted]'' else sanitizeActionInput v)) fs)"
| "sanitizeActionInput v = v"

text \<open>The fields of a value at any depth: those with secret names are redacted.\<close>

fun fields_of :: "json \<Rightarrow> (string \<times> json) set" where
  "fields_of (JArr vs) = (\<Union>v \<in> set vs. fields_of v)"
| "fields_of (JObj fs) = set fs \<union> (\<Union>(k, v) \<in> set fs. fields_of v)"
| "fields_of v = {}"

lemma secrets_redacted: "(k, v) \<in> fields_of (sanitizeActionInput j) \<Longrightarrow> secret_key k \<Longrightarrow> v = JStr ''[redacted]''"
proof (induction j rule: sanitizeActionInput.induct)
  case (2 fs)
  from 2(2) obtain k' v' where f: "(k', v') \<in> set fs"
    and "(k, v) = (k', if secret_key k' then JStr ''[redacted]'' else sanitizeActionInput v')
      \<or> (k, v) \<in> fields_of (if secret_key k' then JStr ''[redacted]'' else sanitizeActionInput v')"
    by auto
  then show ?case using 2(1) [OF f] 2(3) by (auto split: if_split_asm)
qed auto

text \<open>\<open>sort\<close> with a comparison function, which is stable.\<close>

fun place :: "('a \<Rightarrow> 'a \<Rightarrow> bool) \<Rightarrow> 'a \<Rightarrow> 'a list \<Rightarrow> 'a list" where
  "place before x [] = [x]"
| "place before x (y # ys) = (if before x y then x # y # ys else y # place before x ys)"

definition sort_with :: "('a \<Rightarrow> 'a \<Rightarrow> bool) \<Rightarrow> 'a list \<Rightarrow> 'a list" where
  "sort_with before xs = foldr (place before) xs []"

fun sortKeys :: "(string \<Rightarrow> string \<Rightarrow> bool) \<Rightarrow> json \<Rightarrow> json" where
  "sortKeys before (JArr vs) = JArr (map (sortKeys before) vs)"
| "sortKeys before (JObj fs) =
     JObj (sort_with (\<lambda>a b. before (fst a) (fst b)) (map (\<lambda>(k, v). (k, sortKeys before v)) fs))"
| "sortKeys before v = v"

definition stableJson :: "host \<Rightarrow> json \<Rightarrow> string" where
  "stableJson h v = JSON_stringify (sortKeys (h_before h) v)"

definition workflowActionProposalDigest :: "host \<Rightarrow> action_node \<Rightarrow> string option \<Rightarrow> obj \<Rightarrow> string" where
  "workflowActionProposalDigest h n idempotencyKey input =
     ''sha256:'' @ h_sha256 h (stableJson h (JObj
       [(''adapter'', JStr (an_adapter n)), (''action'', JStr (an_action n)), (''idempotencyKey'', str_or_null idempotencyKey),
        (''requiresApproval'', JBool (requires_approval n)), (''input'', sanitizeActionInput (JObj input))]))"

definition actionPolicyReason :: "action_node \<Rightarrow> string option" where
  "actionPolicyReason n =
     (let reason = map_option trim (an_reason n)
      in if truthy reason then reason
         else if requires_approval n then
           Some ''This side effect is configured to require human approval before execution.''
         else if an_approvalRequired n = Some True then
           Some ''Workflow policy requires human approval before this side effect executes.''
         else None)"

section \<open>Headers and fields\<close>

definition with_headers :: "headers \<Rightarrow> headers \<Rightarrow> headers" where
  "with_headers base extra = fold (\<lambda>(k, v) m. jm_set k v m) extra base"

definition has_idempotency_key :: "headers \<Rightarrow> bool" where
  "has_idempotency_key hs \<longleftrightarrow> list_ex (\<lambda>(k, _). toLowerCase k = ''idempotency-key'') hs"

definition withIdempotencyHeader :: "headers \<Rightarrow> string option \<Rightarrow> headers" where
  "withIdempotencyHeader hs key =
     (if \<not> truthy key \<or> has_idempotency_key hs then hs else with_headers hs [(''Idempotency-Key'', the key)])"

definition idempotencyKeyFromHeaders :: "headers \<Rightarrow> string option" where
  "idempotencyKeyFromHeaders hs = map_option snd (find (\<lambda>(k, _). toLowerCase k = ''idempotency-key'') hs)"

definition githubHeaders :: "string \<Rightarrow> headers" where
  "githubHeaders token = [(''Authorization'', ''Bearer '' @ token), (''X-GitHub-Api-Version'', ''2022-11-28'')]"

text \<open>\<open>Buffer.from(s).toString('base64')\<close>.\<close>

definition base64_char :: "nat \<Rightarrow> char" where
  "base64_char n =
     (if n < 26 then char_of (65 + n) else if n < 52 then char_of (71 + n) else if n < 62 then char_of (n - 4)
      else if n = 62 then CHR ''+'' else CHR ''/'')"

fun base64 :: "nat list \<Rightarrow> string" where
  "base64 [] = []"
| "base64 [a] = [base64_char (a div 4), base64_char (a mod 4 * 16), CHR ''='', CHR ''='']"
| "base64 [a, b] = [base64_char (a div 4), base64_char (a mod 4 * 16 + b div 16), base64_char (b mod 16 * 4), CHR ''='']"
| "base64 (a # b # c # bs) =
     [base64_char (a div 4), base64_char (a mod 4 * 16 + b div 16), base64_char (b mod 16 * 4 + c div 64), base64_char (c mod 64)]
     @ base64 bs"

definition jiraHeaders :: "string \<Rightarrow> string option \<Rightarrow> headers" where
  "jiraHeaders token email =
     (if truthy email then [(''Authorization'', ''Basic '' @ base64 (utf8 (the email @ '':'' @ token)))]
      else [(''Authorization'', ''Bearer '' @ token)])"

definition jiraDocument :: "string \<Rightarrow> obj" where
  "jiraDocument txt =
     [(''type'', JStr ''doc''), (''version'', JNum 1),
      (''content'', JArr [JObj [(''type'', JStr ''paragraph''),
         (''content'', JArr [JObj [(''type'', JStr ''text''), (''text'', JStr txt)]])]])]"

definition without_slashes :: "string \<Rightarrow> string" where
  "without_slashes s = rev (dropWhile (\<lambda>c. c = CHR ''/'') (rev s))"

definition normalizedBaseUrl :: "string option \<Rightarrow> string option" where
  "normalizedBaseUrl v = (if truthy v then Some (without_slashes (the v)) else None)"

text \<open>A body is a list of fields whose value may be \<open>undefined\<close>.\<close>

definition compactObject :: "(string \<times> json option) list \<Rightarrow> obj" where
  "compactObject fs = concat (map (\<lambda>(k, v). opt_field k v) fs)"

definition parseJson :: "string \<Rightarrow> json" where
  "parseJson s = (case JSON_parse s of Some v \<Rightarrow> v | None \<Rightarrow> JNull)"

definition property :: "json \<Rightarrow> string \<Rightarrow> json option" where
  "property v k = (case v of JObj m \<Rightarrow> field m k | _ \<Rightarrow> None)"

definition objectString :: "json \<Rightarrow> string \<Rightarrow> string option" where
  "objectString v k = as_str (property v k)"

definition objectNumber :: "json \<Rightarrow> string \<Rightarrow> json" where
  "objectNumber v k = (case property v k of Some (JNum q) \<Rightarrow> JNum q | _ \<Rightarrow> JNull)"

definition objectBoolean :: "json \<Rightarrow> string \<Rightarrow> bool option" where
  "objectBoolean v k = (case property v k of Some (JBool b) \<Rightarrow> Some b | _ \<Rightarrow> None)"

definition input_string :: "obj \<Rightarrow> string \<Rightarrow> string option" where
  "input_string m k = stringValue (as_str (field m k))"

section \<open>Credentials\<close>

definition explicitCredentialRefValue :: "obj \<Rightarrow> string option" where
  "explicitCredentialRefValue input = first_some [input_string input ''credential_ref'', input_string input ''credentialRef'']"

definition char_upper :: "char \<Rightarrow> char" where
  "char_upper c = (let n = of_char c :: nat in if 97 \<le> n \<and> n \<le> 122 then char_of (n - 32) else c)"

definition envNameForCredentialRef :: "host \<Rightarrow> string \<Rightarrow> string" where
  "envNameForCredentialRef h ref =
     (let trimmed = trim ref
      in if trimmed \<noteq> [] \<and> list_all word_char trimmed then ''VIEWPORT_CREDENTIAL_'' @ map char_upper trimmed
         else ''VIEWPORT_CREDENTIAL_REF_'' @ map char_upper (take 24 (h_sha256 h trimmed)))"

text \<open>\<open>path.join\<close>.\<close>

definition join_step :: "bool \<Rightarrow> string \<Rightarrow> string list \<Rightarrow> string list" where
  "join_step absolute seg acc =
     (if seg = [] \<or> seg = ''.'' then acc
      else if seg \<noteq> ''..'' then acc @ [seg]
      else if acc \<noteq> [] \<and> last acc \<noteq> ''..'' then butlast acc
      else if absolute then acc else acc @ [seg])"

definition path_join :: "string list \<Rightarrow> string" where
  "path_join parts =
     (let s = join ''/'' (filter (\<lambda>p. p \<noteq> []) parts); absolute = startsWith s ''/'';
          p = join ''/'' (fold (join_step absolute) (splitOn (CHR ''/'') s) []);
          body = (if p \<noteq> [] \<and> endsWith s ''/'' then p @ ''/'' else p)
      in if absolute then ''/'' @ body else if p = [] then (if endsWith s ''/'' then ''./'' else ''.'') else body)"

definition secret_home :: "host \<Rightarrow> string" where
  "secret_home h = (case h_env h ''VIEWPORT_HOME'' of Some d \<Rightarrow> d | None \<Rightarrow> path_join [h_home h, ''.viewport''])"

definition providerCredentialValue ::
    "host \<Rightarrow> obj \<Rightarrow> (string, string) js_map \<Rightarrow> (string, string) js_map \<Rightarrow> string \<Rightarrow> string option" where
  "providerCredentialValue h input secretEnv secretFiles runId =
     (case explicitCredentialRefValue input of
        None \<Rightarrow> None
      | Some ref \<Rightarrow>
          let envName = envNameForCredentialRef h ref;
              v = (case jm_get secretEnv envName of Some s \<Rightarrow> Some s | None \<Rightarrow> h_env h envName);
              conventional = (if runId = [] then [] else [path_join [secret_home h, ''run-secrets'', runId, envName]]);
              candidates = (case jm_get secretFiles envName of Some f \<Rightarrow> [f] | None \<Rightarrow> []) @ conventional
          in if truthy v then v
             else first_some (map (\<lambda>f. if f = [] then None else Option.bind (h_file h f) (\<lambda>s. non_empty (trim s))) candidates))"

section \<open>Reading back\<close>

definition form_char :: "char \<Rightarrow> string" where
  "form_char c =
     (if c = CHR '' '' then ''+'' else if word_char c \<or> c \<in> set ''*-.'' then [c]
      else concat (map percent (utf8_char c)))"

text \<open>\<open>new URLSearchParams({...}).toString()\<close>.\<close>

definition search_params :: "(string \<times> string) list \<Rightarrow> string" where
  "search_params ps = join ''&'' (map (\<lambda>(k, v). concat (map form_char k) @ ''='' @ concat (map form_char v)) ps)"

record reconciliation_request =
  rr_url :: string
  rr_headers :: headers
  rr_expected :: "json \<Rightarrow> obj option"
  rr_actual :: "json \<Rightarrow> obj option"
  rr_reference :: "json \<Rightarrow> string option"
  rr_providerUrl :: "json \<Rightarrow> string option"

definition githubIdentity :: "string \<Rightarrow> json \<Rightarrow> obj option" where
  "githubIdentity kind v =
     (let apiUrl = objectString v ''url''; htmlUrl = objectString v ''html_url''
      in if \<not> truthy apiUrl \<and> \<not> truthy htmlUrl then None
         else Some [(''provider'', JStr ''github''), (''kind'', JStr kind), (''apiUrl'', str_or_null apiUrl),
           (''htmlUrl'', str_or_null htmlUrl), (''number'', objectNumber v ''number''), (''id'', objectNumber v ''id'')])"

definition jiraCommentIdentity :: "json \<Rightarrow> obj option" where
  "jiraCommentIdentity v =
     (let i = objectString v ''id''
      in if \<not> truthy i then None
         else Some [(''provider'', JStr ''jira''), (''kind'', JStr ''issue_comment''), (''id'', str_or_null i),
           (''self'', str_or_null (objectString v ''self''))])"

definition slack_identity :: "string \<Rightarrow> string \<Rightarrow> obj" where
  "slack_identity channel ts =
     [(''provider'', JStr ''slack''), (''kind'', JStr ''message''), (''channel'', JStr channel), (''ts'', JStr ts)]"

definition slackMessageIdentity :: "json \<Rightarrow> obj option" where
  "slackMessageIdentity v =
     (let channel = objectString v ''channel''; ts = objectString v ''ts''
      in if truthy channel \<and> truthy ts then Some (slack_identity (the channel) (the ts)) else None)"

definition slackPermalinkIdentity :: "string \<Rightarrow> string \<Rightarrow> json \<Rightarrow> obj option" where
  "slackPermalinkIdentity channel ts v = (if objectBoolean v ''ok'' = Some False then None else Some (slack_identity channel ts))"

definition githubReconciliationRequest :: "headers \<Rightarrow> json \<Rightarrow> string \<Rightarrow> reconciliation_request option" where
  "githubReconciliationRequest hs parsed kind =
     (let apiUrl = objectString parsed ''url''; page = (\<lambda>v. first_some [objectString v ''html_url'', objectString v ''url''])
      in if \<not> truthy apiUrl then None
         else Some \<lparr>rr_url = the apiUrl, rr_headers = hs, rr_expected = githubIdentity kind, rr_actual = githubIdentity kind,
           rr_reference = page, rr_providerUrl = page\<rparr>)"

definition jiraCommentReconciliationRequest :: "string \<Rightarrow> headers \<Rightarrow> json \<Rightarrow> reconciliation_request option" where
  "jiraCommentReconciliationRequest baseUrl hs parsed =
     (let i = objectString parsed ''id'';
          url = (case objectString parsed ''self'' of
                   Some s \<Rightarrow> s | None \<Rightarrow> baseUrl @ ''/rest/api/3/comment/'' @ encodeURIComponent (the i))
      in if \<not> truthy i then None
         else Some \<lparr>rr_url = url, rr_headers = hs, rr_expected = jiraCommentIdentity, rr_actual = jiraCommentIdentity,
           rr_reference = (\<lambda>v. objectString v ''id''), rr_providerUrl = (\<lambda>_. Some url)\<rparr>)"

definition slackMessageReconciliationRequest :: "headers \<Rightarrow> json \<Rightarrow> reconciliation_request option" where
  "slackMessageReconciliationRequest hs parsed =
     (let channel = objectString parsed ''channel''; ts = objectString parsed ''ts''
      in if \<not> truthy channel \<or> \<not> truthy ts then None
         else Some \<lparr>rr_url = ''https://slack.com/api/chat.getPermalink?''
                       @ search_params [(''channel'', the channel), (''message_ts'', the ts)],
           rr_headers = hs, rr_expected = slackMessageIdentity, rr_actual = slackPermalinkIdentity (the channel) (the ts),
           rr_reference = (\<lambda>_. Some (the channel @ '':'' @ the ts)), rr_providerUrl = (\<lambda>v. objectString v ''permalink'')\<rparr>)"

definition accept_json :: headers where
  "accept_json = [(''Accept'', ''application/vnd.github+json, application/json;q=0.9, */*;q=0.8'')]"

definition digestJson :: "host \<Rightarrow> json \<Rightarrow> json" where
  "digestJson h v = JStr (''sha256:'' @ h_sha256 h (stableJson h v))"

definition max_response_chars :: nat where
  "max_response_chars = 4000"

definition iso_now :: "env \<Rightarrow> json" where
  "iso_now env = JStr (case toISOString (e_now env) of Some s \<Rightarrow> s | None \<Rightarrow> [])"

definition read_back :: "host \<Rightarrow> reconciliation_request \<Rightarrow> json \<Rightarrow> json \<Rightarrow> http_result \<Rightarrow> obj" where
  "read_back h rr initial checkedAt res =
     (let expected = rr_expected rr initial;
          reference = opt_field ''providerReference'' (map_option JStr (rr_reference rr initial));
          providerUrl = (case rr_providerUrl rr initial of Some u \<Rightarrow> u | None \<Rightarrow> rr_url rr);
          result = (\<lambda>status url extra.
            [(''status'', JStr status), (''method'', JStr ''read_after_write''), (''checkedAt'', checkedAt),
             (''checkedBy'', JStr ''vpd.provider_adapter'')] @ reference @ [(''providerUrl'', JStr url)] @ extra)
      in case res of
           Fetch_error m \<Rightarrow> result ''failed'' providerUrl [(''error'', JStr m)]
         | Response status txt \<Rightarrow>
             let parsed = parseJson txt; actual = rr_actual rr parsed;
                 actualUrl = (case rr_providerUrl rr parsed of Some u \<Rightarrow> u | None \<Rightarrow> providerUrl)
             in if \<not> response_ok status then
                  result ''unavailable'' providerUrl
                    [(''error'', JStr (''HTTP '' @ int_string status @ '': '' @ take max_response_chars txt))]
                else (case (expected, actual) of
                    (Some e, Some a) \<Rightarrow>
                      let matched = (stableJson h (JObj e) = stableJson h (JObj a))
                      in result (if matched then ''verified'' else ''mismatch'') actualUrl
                           [(''targetDigest'', digestJson h (JObj e)), (''payloadDigest'', digestJson h parsed),
                            (''payload'', if matched then JObj a else JObj [(''expected'', JObj e), (''actual'', JObj a)])]
                  | _ \<Rightarrow> result ''unavailable'' actualUrl
                           [(''payloadDigest'', digestJson h parsed),
                            (''error'', JStr ''Provider read-back response did not include a comparable identity.'')]))"

text \<open>\<open>k\<close> is what the caller does with the reconciliation.\<close>

definition reconcileProviderAction ::
    "host \<Rightarrow> env \<Rightarrow> world \<Rightarrow> reconciliation_request option \<Rightarrow> string option \<Rightarrow> json
     \<Rightarrow> (env \<times> world \<times> obj option \<Rightarrow> act) \<Rightarrow> act" where
  "reconcileProviderAction h env w request unsupportedReason initial k =
     (let checkedAt = iso_now env
      in case request of
           None \<Rightarrow>
             k (env, w, if truthy unsupportedReason then
                  Some [(''status'', JStr ''not_checked''), (''method'', JStr ''not_supported''), (''checkedAt'', checkedAt),
                    (''checkedBy'', JStr ''vpd.provider_adapter''),
                    (''payload'', JObj [(''reason'', JStr (the unsupportedReason))])]
                else None)
         | Some rr \<Rightarrow>
             Fetch \<lparr>rq_method = ''GET'', rq_url = rr_url rr, rq_headers = with_headers accept_json (rr_headers rr), rq_body = None\<rparr>
               (\<lambda>(env', w', res). k (env', w', Some (read_back h rr initial checkedAt res))))"

end
