(* ===== verification/Action_Providers.thy ===== *)
theory Action_Providers
  imports Action_Requests "HOL-Library.Char_ord"
begin

text \<open>
  The ledger of executed actions (\<open>action-execution-ledger.ts\<close>) and the actions on GitHub, Jira and Slack
  (\<open>action-provider-adapters.ts\<close>). The waiting time between two attempts is not modelled, only that there are several.
\<close>

section \<open>Results and the ledger\<close>

text \<open>\<open>addEvent\<close> on the run of the world.\<close>

definition report :: "env \<Rightarrow> string \<Rightarrow> string \<Rightarrow> obj \<Rightarrow> string \<Rightarrow> world \<Rightarrow> world" where
  "report env type message data nodeId w = w\<lparr>w_run := emit env type message (Some data) (Some nodeId) (w_run w)\<rparr>"

definition approvedExecutionGrant :: "world \<Rightarrow> string \<Rightarrow> bool \<Rightarrow> obj" where
  "approvedExecutionGrant w nodeId requiresApproval =
     (case (if requiresApproval \<and> Option.bind (jm_get (r_nodes (w_run w)) nodeId) ns_approval \<noteq> None
            then jm_get (w_grants w) nodeId else None) of
        Some grant \<Rightarrow> [(''executionGrant'', grant), (''execution_grant'', grant)]
      | None \<Rightarrow> [])"

definition actionLedgerKey :: "string option \<Rightarrow> string option" where
  "actionLedgerKey key = (if truthy key then Some (''idempotency:'' @ the key) else None)"

definition action_fields :: "action_node \<Rightarrow> string option \<Rightarrow> obj" where
  "action_fields n key =
     [(''adapter'', JStr (an_adapter n)), (''action'', JStr (an_action n)), (''proposalKey'', str_or_null (an_proposalKey n)),
      (''idempotencyKey'', str_or_null key), (''requiresApproval'', JBool (requires_approval n))]"

definition suppressDuplicateAction ::
    "host \<Rightarrow> env \<Rightarrow> world \<Rightarrow> string \<Rightarrow> action_node \<Rightarrow> string option \<Rightarrow> obj \<Rightarrow> (world \<times> adapter_result) option" where
  "suppressDuplicateAction h env w nodeId n idempotencyKey input =
     (case Option.bind (actionLedgerKey idempotencyKey) (jm_get (w_ledger w)) of
        None \<Rightarrow> None
      | Some existing \<Rightarrow>
          let key = the idempotencyKey; digest = workflowActionProposalDigest h n idempotencyKey input
          in if le_digest existing \<noteq> digest then
               Some (w, Adapter_error (''Action idempotency key '' @ [CHR 0x27] @ key @ [CHR 0x27]
                 @ '' was already used with a different proposed action in this run.'') None)
             else
               let metadata = [(''action'', JObj
                     ([(''adapter'', JStr (an_adapter n)), (''action'', JStr (an_action n)), (''idempotencyKey'', JStr key),
                       (''requiresApproval'', JBool (requires_approval n)), (''policyReason'', str_or_null (actionPolicyReason n)),
                       (''status'', JStr ''already_executed''), (''digest'', JStr digest),
                       (''input'', sanitizeActionInput (JObj input)), (''duplicateOfNodeId'', JStr (le_nodeId existing)),
                       (''executedAt'', JNum (of_int (le_executedAt existing)))]
                      @ opt_field ''response'' (map_option JObj (le_response existing))
                      @ approvedExecutionGrant w nodeId (requires_approval n)))]
               in Some (report env ''action-duplicate-suppressed''
                          (''Action node '' @ nodeId @ '' reused idempotency key '' @ key @ ''; prior side effect kept.'')
                          metadata nodeId w,
                        Adapted (le_output existing) metadata))"

definition rememberExecutedAction ::
    "host \<Rightarrow> env \<Rightarrow> string \<Rightarrow> action_node \<Rightarrow> string option \<Rightarrow> obj \<Rightarrow> string \<Rightarrow> obj option \<Rightarrow> world \<Rightarrow> world" where
  "rememberExecutedAction h env nodeId n idempotencyKey input output response w =
     (case actionLedgerKey idempotencyKey of
        None \<Rightarrow> w
      | Some key \<Rightarrow>
          w\<lparr>w_ledger := jm_set key
              \<lparr>le_nodeId = nodeId, le_adapter = an_adapter n, le_action = an_action n, le_idempotencyKey = the idempotencyKey,
               le_digest = workflowActionProposalDigest h n idempotencyKey input, le_output = output,
               le_executedAt = e_now env, le_response = response\<rparr> (w_ledger w)\<rparr>)"

text \<open>\<open>declaredAction\<close> and \<open>declaredProviderAction\<close>, which have the same body.\<close>

definition declaredAction :: "host \<Rightarrow> action_node \<Rightarrow> string \<Rightarrow> string option \<Rightarrow> obj \<Rightarrow> adapter_result" where
  "declaredAction h n status key input =
     Adapted (action_name n) [(''action'', JObj (action_fields n key @
       [(''policyReason'', str_or_null (actionPolicyReason n)), (''status'', JStr status),
        (''digest'', JStr (workflowActionProposalDigest h n key input)), (''input'', sanitizeActionInput (JObj input))]))]"

section \<open>Requests to JSON APIs\<close>

record api_request =
  ap_url :: string
  ap_headers :: headers
  ap_proposalInput :: obj
  ap_body :: obj
  ap_okFromBody :: bool
  ap_reconcile :: "json \<Rightarrow> reconciliation_request option"
  ap_reconciliationUnsupported :: "string option"
  ap_retry :: "(int list \<times> nat) option" \<comment> \<open>the statuses and the number of attempts\<close>

definition api_http_request :: "api_request \<Rightarrow> http_request" where
  "api_http_request a =
     \<lparr>rq_method = ''POST'', rq_url = ap_url a,
      rq_headers = with_headers (accept_json @ [(''Content-Type'', ''application/json'')]) (ap_headers a),
      rq_body = Some (JSON_stringify (JObj (ap_body a)))\<rparr>"

text \<open>The request, and up to \<open>left\<close> repetitions of it; \<open>k\<close> gets the last answer and the number of attempts.\<close>

primrec send_attempts ::
    "http_request \<Rightarrow> int list \<Rightarrow> nat \<Rightarrow> nat \<Rightarrow> (nat \<Rightarrow> env \<times> world \<times> http_result \<Rightarrow> act) \<Rightarrow> act" where
  "send_attempts rq statuses attempts 0 k = Fetch rq (k attempts)"
| "send_attempts rq statuses attempts (Suc left) k =
     Fetch rq (\<lambda>(env, w, res).
       case res of
         Response status _ \<Rightarrow>
           if status \<in> set statuses then send_attempts rq statuses (Suc attempts) left k else k attempts (env, w, res)
       | Fetch_error _ \<Rightarrow> k attempts (env, w, res))"

definition api_metadata ::
    "host \<Rightarrow> string \<Rightarrow> action_node \<Rightarrow> api_request \<Rightarrow> nat \<Rightarrow> int \<Rightarrow> string \<Rightarrow> bool \<Rightarrow> obj option \<Rightarrow> world \<Rightarrow> obj \<times> obj" where
  "api_metadata h nodeId n a attempts status txt ok recon w =
     (let key = idempotencyKeyFromHeaders (ap_headers a); parsed = parseJson txt;
          response = [(''status'', JNum (of_int status)), (''ok'', JBool ok), (''attempts'', JNum (of_nat attempts)),
            (''bodyExcerpt'', JStr (take max_response_chars txt)), (''htmlUrl'', str_or_null (objectString parsed ''html_url'')),
            (''apiUrl'', str_or_null (objectString parsed ''url'')), (''number'', objectNumber parsed ''number''),
            (''channel'', str_or_null (objectString parsed ''channel'')), (''ts'', str_or_null (objectString parsed ''ts'')),
            (''error'', str_or_null (objectString parsed ''error''))]
      in (response, [(''action'', JObj (action_fields n key
           @ [(''policyReason'', str_or_null (actionPolicyReason n)), (''status'', JStr (if ok then ''executed'' else ''failed'')),
              (''digest'', JStr (workflowActionProposalDigest h n key (ap_proposalInput a))),
              (''input'', sanitizeActionInput (JObj (ap_proposalInput a))),
              (''request'', JObj [(''method'', JStr ''POST''), (''url'', JStr (ap_url a))]), (''response'', JObj response)]
           @ (case recon of Some r \<Rightarrow> [(''providerReconciliation'', JObj r), (''provider_reconciliation'', JObj r)] | None \<Rightarrow> [])
           @ approvedExecutionGrant w nodeId (requires_approval n)))]))"

definition api_end ::
    "host \<Rightarrow> string \<Rightarrow> action_node \<Rightarrow> api_request \<Rightarrow> nat \<Rightarrow> int \<Rightarrow> string \<Rightarrow> bool \<Rightarrow> env \<times> world \<times> obj option \<Rightarrow> act" where
  "api_end h nodeId n a attempts status txt ok = (\<lambda>(env, w, recon).
     let (response, metadata) = api_metadata h nodeId n a attempts status txt ok recon w;
         output = action_name n @ '' '' @ int_string status;
         w1 = report env (if ok then ''action-executed'' else ''action-failed'')
                (''Action node '' @ nodeId @ (if ok then '' executed '' else '' failed '') @ action_name n) metadata nodeId w
     in if ok then
          Finish (rememberExecutedAction h env nodeId n (idempotencyKeyFromHeaders (ap_headers a)) (ap_proposalInput a)
                    output (Some response) w1) (Adapted output metadata)
        else
          Finish w1 (Adapter_error (''Action '' @ nodeId @ '' failed with HTTP '' @ int_string status @ '': '' @ txt)
            (Some (output, metadata))))"

definition api_answered :: "host \<Rightarrow> string \<Rightarrow> action_node \<Rightarrow> api_request \<Rightarrow> nat \<Rightarrow> env \<times> world \<times> http_result \<Rightarrow> act" where
  "api_answered h nodeId n a attempts = (\<lambda>(env, w, res).
     case res of
       Fetch_error m \<Rightarrow> Finish w (Adapter_error m None)
     | Response status txt \<Rightarrow>
         let parsed = parseJson txt;
             appOk = (if ap_okFromBody a then objectBoolean parsed ''ok'' \<noteq> Some False else True);
             ok = (response_ok status \<and> appOk)
         in if ok then
              reconcileProviderAction h env w (ap_reconcile a parsed) (ap_reconciliationUnsupported a) parsed
                (api_end h nodeId n a attempts status txt ok)
            else api_end h nodeId n a attempts status txt ok (env, w, None))"

definition executeJsonApiAction :: "host \<Rightarrow> string \<Rightarrow> action_node \<Rightarrow> api_request \<Rightarrow> act" where
  "executeJsonApiAction h nodeId n a =
     (let (statuses, left) = (case ap_retry a of None \<Rightarrow> ([], 0) | Some (ss, m) \<Rightarrow> (ss, m - 1))
      in send_attempts (api_http_request a) statuses 1 left (api_answered h nodeId n a))"

section \<open>GitHub\<close>

definition splitRepository :: "string option \<Rightarrow> (string \<times> string) option" where
  "splitRepository repository =
     (if \<not> truthy repository then None
      else case splitOn (CHR ''/'') (the repository) of
             [owner, repo] \<Rightarrow> if owner \<noteq> [] \<and> repo \<noteq> [] then Some (owner, repo) else None
           | owner # repo # extra # _ \<Rightarrow> if owner \<noteq> [] \<and> repo \<noteq> [] \<and> extra = [] then Some (owner, repo) else None
           | _ \<Rightarrow> None)"

definition pull_request_actions :: "string list" where
  "pull_request_actions =
     [''create_pr'', ''create_pull_request'', ''pull_request.create'', ''pull-request.create'', ''pr.create'', ''open_pr'']"

definition comment_actions :: "string list" where
  "comment_actions = [''comment'', ''comment_issue'', ''issue.comment'', ''pull_request.comment'']"

definition string_at :: "obj \<Rightarrow> string list \<Rightarrow> string option" where
  "string_at m path = stringValue (as_str (readPath (Some (JObj m)) path))"

definition scalarStringAt :: "obj \<Rightarrow> string list \<Rightarrow> string option" where
  "scalarStringAt m path =
     (case string_at m path of
        Some s \<Rightarrow> Some s
      | None \<Rightarrow> (case as_int (readPath (Some (JObj m)) path) of
                  Some i \<Rightarrow> if i > 0 then Some (int_string i) else None | None \<Rightarrow> None))"

definition sourceGitHubPullRequestNumber :: "obj \<Rightarrow> string option" where
  "sourceGitHubPullRequestNumber inputs =
     first_some (map (scalarStringAt inputs)
       [[''integration_event'', ''payload'', ''pull_request'', ''number''],
        [''integration_event'', ''payload'', ''issue'', ''number''],
        [''integration_event'', ''payload'', ''number''],
        [''integration_event'', ''pull_request'', ''number''],
        [''integration_event'', ''issue'', ''number''],
        [''integration_event'', ''number'']])"

definition runtimeSecretFilesForRun :: "obj \<Rightarrow> (string, string) js_map" where
  "runtimeSecretFilesForRun inputs =
     fold (\<lambda>file m.
         case (as_str (property file ''envName''), as_str (property file ''path'')) of
           (Some envName, Some path) \<Rightarrow> jm_set envName path m
         | _ \<Rightarrow> m)
       (arrayValue (readPath (Some (JObj inputs)) [''viewport'', ''credentialSecretFiles''])) []"

definition localGitHubProofTokensAllowed :: "host \<Rightarrow> bool" where
  "localGitHubProofTokensAllowed h \<longleftrightarrow> h_env h ''VIEWPORT_ALLOW_LOCAL_GITHUB_TOKEN_FOR_PROOF'' = Some ''1''"

definition isGitHubUserToken :: "string \<Rightarrow> bool" where
  "isGitHubUserToken token \<longleftrightarrow> startsWith token ''ghp_'' \<or> startsWith token ''github_pat_'' \<or> startsWith token ''gho_''"

definition credential_ref :: "obj \<Rightarrow> string option" where
  "credential_ref input = first_some [as_str (field input ''credential_ref''), as_str (field input ''credentialRef'')]"

text \<open>A search for \<open>/(^|\/)local-dev($|\/|-)/\<close>.\<close>

fun local_dev_at :: "bool \<Rightarrow> string \<Rightarrow> bool" where
  "local_dev_at start [] \<longleftrightarrow> False"
| "local_dev_at start (c # s) \<longleftrightarrow>
     (start \<and> startsWith (c # s) ''local-dev''
      \<and> (let t = drop 9 (c # s) in t = [] \<or> hd t = CHR ''/'' \<or> hd t = CHR ''-''))
     \<or> local_dev_at (c = CHR ''/'') s"

definition isLocalDevelopmentGitHubCredentialRef :: "obj \<Rightarrow> bool" where
  "isLocalDevelopmentGitHubCredentialRef input =
     local_dev_at True (trim (case credential_ref input of Some s \<Rightarrow> s | None \<Rightarrow> []))"

definition github_credential_accepted :: "host \<Rightarrow> obj \<Rightarrow> string option \<Rightarrow> string list \<Rightarrow> bool" where
  "github_credential_accepted h input token secretEnvKeys \<longleftrightarrow>
     truthy token \<and>
     (startsWith (the token) ''ghs_''
      \<or> localGitHubProofTokensAllowed h \<and>
        (isGitHubUserToken (the token) \<or> isLocalDevelopmentGitHubCredentialRef input
         \<or> envNameForCredentialRef h ''github/installation/local-dev'' \<in> set secretEnvKeys))"

definition assertGitHubBrokeredCredential ::
    "host \<Rightarrow> env \<Rightarrow> world \<Rightarrow> string \<Rightarrow> action_node \<Rightarrow> obj \<Rightarrow> string option \<Rightarrow> string option \<Rightarrow> string list \<Rightarrow> act option" where
  "assertGitHubBrokeredCredential h env w nodeId n input token key secretEnvKeys =
     (if github_credential_accepted h input token secretEnvKeys then None
      else
        let reason = (if truthy token then ''github_credential_must_be_installation_token'' else ''github_brokered_credential_missing'');
            ref = credential_ref input;
            metadata = [(''action'', JObj (action_fields n key @
              [(''policyReason'', str_or_null (actionPolicyReason n)), (''status'', JStr ''blocked''),
               (''digest'', JStr (workflowActionProposalDigest h n key input)), (''input'', sanitizeActionInput (JObj input)),
               (''credential'', JObj
                  [(''reason'', JStr reason), (''required'', JStr ''github_app_installation_token''), (''acceptedPrefix'', JStr ''ghs_''),
                   (''localDevelopmentUserTokenAllowed'', JBool (localGitHubProofTokensAllowed h)),
                   (''credentialRef'', str_or_null ref),
                   (''expectedEnvName'', if truthy ref then JStr (envNameForCredentialRef h (the ref)) else JNull),
                   (''runtimeSecretEnvKeys'', JArr (map JStr secretEnvKeys))]),
               (''workflow_authority_denial'', JObj
                  [(''reason'', JStr reason), (''provider'', JStr ''github''),
                   (''requiredCredential'', JStr ''github_app_installation_token'')])]))]
        in Some (Finish (report env ''action-blocked''
                    (''Action node '' @ nodeId @ '' blocked '' @ action_name n @ '': '' @ reason) metadata nodeId w)
             (Adapter_error (''GitHub action '' @ nodeId @ '' blocked: '' @ reason) (Some (action_name n @ '' blocked'', metadata)))))"

definition github_repository_url :: "string \<Rightarrow> string \<Rightarrow> string" where
  "github_repository_url owner repo =
     ''https://api.github.com/repos/'' @ encodeURIComponent owner @ ''/'' @ encodeURIComponent repo"

definition reused_pull_request ::
    "host \<Rightarrow> string \<Rightarrow> action_node \<Rightarrow> obj \<Rightarrow> string option \<Rightarrow> string \<Rightarrow> json \<Rightarrow> env \<times> world \<times> obj option \<Rightarrow> act" where
  "reused_pull_request h nodeId n input key url pull = (\<lambda>(env, w, recon).
     let response = [(''status'', JNum 200), (''ok'', JBool True),
           (''bodyExcerpt'', JStr ''Existing open pull request matched by head/base.''),
           (''htmlUrl'', str_or_null (objectString pull ''html_url'')), (''apiUrl'', str_or_null (objectString pull ''url'')),
           (''number'', objectNumber pull ''number'')];
         metadata = [(''action'', JObj (action_fields n key
           @ [(''policyReason'', str_or_null (actionPolicyReason n)), (''status'', JStr ''executed''),
              (''idempotentReplay'', JBool True), (''idempotent_replay'', JBool True),
              (''digest'', JStr (workflowActionProposalDigest h n key input)), (''input'', sanitizeActionInput (JObj input)),
              (''request'', JObj [(''method'', JStr ''GET''), (''url'', JStr url)]), (''response'', JObj response)]
           @ (case recon of Some r \<Rightarrow> [(''providerReconciliation'', JObj r), (''provider_reconciliation'', JObj r)] | None \<Rightarrow> [])
           @ approvedExecutionGrant w nodeId (requires_approval n)))];
         output = action_name n @ '' 200'';
         w1 = report env ''action-executed'' (''Action node '' @ nodeId @ '' reused existing '' @ action_name n) metadata nodeId w
     in Finish (rememberExecutedAction h env nodeId n key input output (Some response) w1) (Adapted output metadata))"

text \<open>The first element of the answer, which is an object or an array.\<close>

definition listed_pull :: "json \<Rightarrow> json option" where
  "listed_pull v =
     (case v of JArr (JObj m # _) \<Rightarrow> Some (JObj m) | JArr (JArr vs # _) \<Rightarrow> Some (JArr vs) | _ \<Rightarrow> None)"

text \<open>\<open>otherwise\<close> is what the caller does when there is no such pull request.\<close>

definition existingGitHubPullRequest ::
    "host \<Rightarrow> string \<Rightarrow> action_node \<Rightarrow> obj \<Rightarrow> string \<Rightarrow> string \<Rightarrow> string \<Rightarrow> string option \<Rightarrow> string \<Rightarrow> string option \<Rightarrow> act \<Rightarrow> act" where
  "existingGitHubPullRequest h nodeId n input owner repo token head base key otherwise =
     (case head of
        None \<Rightarrow> otherwise
      | Some hd_ref \<Rightarrow>
          let url = github_repository_url owner repo @ ''/pulls'';
              params = search_params [(''state'', ''open''),
                (''head'', if CHR '':'' \<in> set hd_ref then hd_ref else owner @ '':'' @ hd_ref), (''base'', base), (''per_page'', ''1'')]
          in Fetch \<lparr>rq_method = ''GET'', rq_url = url @ ''?'' @ params, rq_headers = githubHeaders token, rq_body = None\<rparr>
               (\<lambda>(env, w, res).
                  case res of
                    Fetch_error m \<Rightarrow> Finish w (Adapter_error m None)
                  | Response status txt \<Rightarrow>
                      if \<not> response_ok status then otherwise
                      else (case listed_pull (parseJson txt) of
                          None \<Rightarrow> otherwise
                        | Some pull \<Rightarrow>
                            reconcileProviderAction h env w
                              (githubReconciliationRequest (githubHeaders token) pull ''pull_request'') None pull
                              (reused_pull_request h nodeId n input key url pull))))"

definition github_api_request :: "string \<Rightarrow> string \<Rightarrow> string option \<Rightarrow> obj \<Rightarrow> obj \<Rightarrow> string \<Rightarrow> (int list \<times> nat) option \<Rightarrow> api_request" where
  "github_api_request url token key input body kind retry =
     \<lparr>ap_url = url, ap_headers = withIdempotencyHeader (githubHeaders token) key, ap_proposalInput = input, ap_body = body,
      ap_okFromBody = False, ap_reconcile = (\<lambda>parsed. githubReconciliationRequest (githubHeaders token) parsed kind),
      ap_reconciliationUnsupported = None, ap_retry = retry\<rparr>"

definition pull_request_body :: "obj \<Rightarrow> string option \<Rightarrow> string \<Rightarrow> obj" where
  "pull_request_body input head base =
     compactObject
       [(''title'', Some (JStr (case input_string input ''title'' of Some t \<Rightarrow> t | None \<Rightarrow> ''Viewport workflow change''))),
        (''head'', map_option JStr head), (''base'', Some (JStr base)), (''body'', map_option JStr (input_string input ''body'')),
        (''draft'', case field input ''draft'' of Some (JBool b) \<Rightarrow> Some (JBool b) | _ \<Rightarrow> None)]"

definition pull_request_action :: "host \<Rightarrow> string \<Rightarrow> action_node \<Rightarrow> obj \<Rightarrow> string option \<Rightarrow> string \<Rightarrow> string \<Rightarrow> string \<Rightarrow> act" where
  "pull_request_action h nodeId n input key token owner repo =
     (let head = first_some [input_string input ''head'', input_string input ''branch''];
          base = (case input_string input ''base'' of Some b \<Rightarrow> b | None \<Rightarrow> ''main'')
      in existingGitHubPullRequest h nodeId n input owner repo token head base key
           (executeJsonApiAction h nodeId n
             (github_api_request (github_repository_url owner repo @ ''/pulls'') token key input
               (pull_request_body input head base) ''pull_request'' (Some ([404, 422], 3)))))"

definition comment_action ::
    "host \<Rightarrow> world \<Rightarrow> string \<Rightarrow> action_node \<Rightarrow> obj \<Rightarrow> string option \<Rightarrow> string \<Rightarrow> string \<Rightarrow> string \<Rightarrow> act" where
  "comment_action h w nodeId n input key token owner repo =
     (case (first_some [input_string input ''issue_number'', input_string input ''issueNumber'',
                        sourceGitHubPullRequestNumber (r_inputs (w_run w))], input_string input ''body'') of
        (Some issue, Some body) \<Rightarrow>
          executeJsonApiAction h nodeId n
            (github_api_request (github_repository_url owner repo @ ''/issues/'' @ encodeURIComponent issue @ ''/comments'')
               token key input [(''body'', JStr body)] ''issue_comment'' None)
      | _ \<Rightarrow> Finish w (declaredAction h n ''missing_url'' key input))"

text \<open>The credential that the input names, for the run.\<close>

definition run_credential :: "host \<Rightarrow> world \<Rightarrow> obj \<Rightarrow> (string, string) js_map \<Rightarrow> (string, string) js_map \<Rightarrow> string option" where
  "run_credential h w input secretEnv secretFiles =
     providerCredentialValue h input secretEnv (with_headers (runtimeSecretFilesForRun (r_inputs (w_run w))) secretFiles)
       (case r_platformRunId (w_run w) of Some i \<Rightarrow> i | None \<Rightarrow> r_id (w_run w))"

text \<open>The repository to which the requests go.\<close>

definition github_target :: "obj \<Rightarrow> (string \<times> string) option" where
  "github_target input =
     (let named = splitRepository (input_string input ''repository'')
      in case (first_some [input_string input ''owner'', map_option fst named], first_some [input_string input ''repo'', map_option snd named]) of
           (Some owner, Some repo) \<Rightarrow> Some (owner, repo)
         | _ \<Rightarrow> None)"

definition executeGitHubAction ::
    "host \<Rightarrow> env \<Rightarrow> world \<Rightarrow> string \<Rightarrow> action_node \<Rightarrow> obj \<Rightarrow> string option \<Rightarrow> (string, string) js_map \<Rightarrow> (string, string) js_map \<Rightarrow> act" where
  "executeGitHubAction h env w nodeId n input key secretEnv secretFiles =
     (let token = run_credential h w input secretEnv secretFiles
      in case github_target input of
           None \<Rightarrow> Finish w (declaredAction h n ''missing_url'' key input)
         | Some (owner, repo) \<Rightarrow>
             (case assertGitHubBrokeredCredential h env w nodeId n input token key (sort (map fst secretEnv)) of
                Some blocked \<Rightarrow> blocked
              | None \<Rightarrow>
                  if an_action n \<in> set pull_request_actions then pull_request_action h nodeId n input key (the token) owner repo
                  else if an_action n \<in> set comment_actions then comment_action h w nodeId n input key (the token) owner repo
                  else Finish w (declaredAction h n ''declared'' key input)))"

section \<open>Jira\<close>

definition jira_api_request :: "string \<Rightarrow> headers \<Rightarrow> obj \<Rightarrow> obj \<Rightarrow> (json \<Rightarrow> reconciliation_request option) \<Rightarrow> string option \<Rightarrow> api_request" where
  "jira_api_request url hs input body reconcile unsupported =
     \<lparr>ap_url = url, ap_headers = hs, ap_proposalInput = input, ap_body = body, ap_okFromBody = False,
      ap_reconcile = reconcile, ap_reconciliationUnsupported = unsupported, ap_retry = None\<rparr>"

definition executeJiraAction ::
    "host \<Rightarrow> world \<Rightarrow> string \<Rightarrow> action_node \<Rightarrow> obj \<Rightarrow> string option \<Rightarrow> (string, string) js_map \<Rightarrow> (string, string) js_map \<Rightarrow> act" where
  "executeJiraAction h w nodeId n input key secretEnv secretFiles =
     (let baseUrl = normalizedBaseUrl (first_some [input_string input ''base_url'', input_string input ''baseUrl'', h_env h ''JIRA_BASE_URL'']);
          token = run_credential h w input secretEnv secretFiles;
          email = first_some [input_string input ''email'', h_env h ''JIRA_EMAIL''];
          issueKey = first_some [input_string input ''issue_key'', input_string input ''issueKey'', input_string input ''key''];
          declared = (\<lambda>status. Finish w (declaredAction h n status key input))
      in if \<not> truthy baseUrl \<or> \<not> truthy token \<or> \<not> truthy issueKey then declared ''missing_url''
         else
           let hs = jiraHeaders (the token) email;
               url = the baseUrl @ ''/rest/api/3/issue/'' @ encodeURIComponent (the issueKey)
           in if an_action n \<in> {''comment'', ''comment_issue'', ''issue.comment''} then
                (case input_string input ''body'' of
                   None \<Rightarrow> declared ''missing_url''
                 | Some body \<Rightarrow>
                     executeJsonApiAction h nodeId n (jira_api_request (url @ ''/comment'') (withIdempotencyHeader hs key) input
                       [(''body'', JObj (jiraDocument body))]
                       (\<lambda>parsed. jiraCommentReconciliationRequest (the baseUrl) hs parsed) None))
              else if an_action n \<in> {''transition'', ''issue.transition''} then
                (case first_some [input_string input ''transition_id'', input_string input ''transitionId''] of
                   None \<Rightarrow> declared ''missing_url''
                 | Some transitionId \<Rightarrow>
                     executeJsonApiAction h nodeId n (jira_api_request (url @ ''/transitions'') (withIdempotencyHeader hs key) input
                       [(''transition'', JObj [(''id'', JStr transitionId)])] (\<lambda>_. None)
                       (Some ''Jira transition actions need an expected target status before generic read-after-write verification can prove the transition.'')))
              else declared ''declared'')"

section \<open>Slack\<close>

text \<open>\<open>s.replace(/old/g, new)\<close> with fixed texts.\<close>

function replace_all :: "string \<Rightarrow> string \<Rightarrow> string \<Rightarrow> string" where
  "replace_all old new s =
     (if old = [] \<or> s = [] then s
      else if startsWith s old then new @ replace_all old new (drop (length old) s)
      else hd s # replace_all old new (tl s))"
  by pat_completeness auto
termination by (relation "measure (\<lambda>(old, new, s). length s)") auto

text \<open>A name within \<open>n\<close> braces at the start of a text, and the rest.\<close>

definition braces :: "nat \<Rightarrow> string \<Rightarrow> (string \<times> string) option" where
  "braces n s =
     (let t = dropWhile js_space (drop n s); key = takeWhile repo_char t; u = dropWhile js_space (drop (length key) t)
      in if startsWith s (replicate n (CHR ''{'')) \<and> key \<noteq> [] \<and> startsWith u (replicate n (CHR ''}''))
         then Some (key, drop n u) else None)"

lemma braces_length: "braces n s = Some (key, rest) \<Longrightarrow> length rest < length s"
proof -
  assume a: "braces n s = Some (key, rest)"
  define t where "t = dropWhile js_space (drop n s)"
  have key: "key = takeWhile repo_char t" "key \<noteq> []" and rest: "rest = drop n (dropWhile js_space (drop (length key) t))"
    using a by (auto simp: braces_def t_def Let_def split: if_splits)
  have "length rest \<le> length t - length key"
    using rest length_dropWhile_le [of js_space "drop (length key) t"] by simp
  moreover have "length key \<le> length t" using key(1) by (metis length_takeWhile_le)
  moreover have "length t \<le> length s" using length_dropWhile_le [of js_space "drop n s"] by (simp add: t_def)
  ultimately show ?thesis using key(2) by (cases key) auto
qed

text \<open>\<open>variables[key] ?? match\<close>; \<open>prev\<close> is the character before. A match in single braces neither follows an opening
  brace nor precedes a closing one.\<close>

function fill_braces :: "nat \<Rightarrow> (string \<Rightarrow> string option) \<Rightarrow> char option \<Rightarrow> string \<Rightarrow> string" where
  "fill_braces n vars prev s =
     (if s = [] then []
      else case (if n = 1 \<and> prev = Some (CHR ''{'') then None else braces n s) of
             Some (key, rest) \<Rightarrow>
               if n = 1 \<and> head_char rest = Some (CHR ''}'') then hd s # fill_braces n vars (Some (hd s)) (tl s)
               else (case vars key of Some v \<Rightarrow> v | None \<Rightarrow> take (length s - length rest) s)
                    @ fill_braces n vars (Some (CHR ''}'')) rest
           | None \<Rightarrow> hd s # fill_braces n vars (Some (hd s)) (tl s))"
  by pat_completeness auto
termination
  by (relation "measure (\<lambda>(n, vars, prev, s). length s)") (auto dest: braces_length split: if_splits)

definition newline :: string where
  "newline = [CHR 0x0A]"

definition normalizeSlackMessageText :: "string \<Rightarrow> string" where
  "normalizeSlackMessageText s =
     replace_all [CHR 0x0D] newline (replace_all [CHR 0x0D, CHR 0x0A] newline
       (replace_all (CHR 0x5C # ''r'') newline (replace_all (CHR 0x5C # ''n'') newline
         (replace_all (CHR 0x5C # ''r'' @ CHR 0x5C # ''n'') newline s))))"

text \<open>\<open>nestedString\<close>: a number is written out.\<close>

definition nestedString :: "json option \<Rightarrow> string list \<Rightarrow> string option" where
  "nestedString v path =
     (case readPath v path of
        Some (JNum q) \<Rightarrow> Some (number_string q)
      | x \<Rightarrow> stringValue (as_str x))"

definition inferAppUrlFromServer :: "host \<Rightarrow> string option \<Rightarrow> string" where
  "inferAppUrlFromServer h serverUrl =
     (case (if truthy serverUrl then h_url h (the serverUrl) else None) of
        None \<Rightarrow> ''https://app.getviewport.com''
      | Some (hostname, with_hostname) \<Rightarrow>
          if startsWith hostname ''api.'' then without_slashes (with_hostname (''app.'' @ drop 4 hostname))
          else if hostname = ''getviewport.com'' then without_slashes (with_hostname ''app.getviewport.com'')
          else if hostname = ''getviewport.test'' then without_slashes (with_hostname ''app.getviewport.test'')
          else ''https://app.getviewport.com'')"

definition runtimeAppUrl :: "host \<Rightarrow> run \<Rightarrow> string" where
  "runtimeAppUrl h r =
     (let inputs = Some (JObj (r_inputs r));
          configured = first_some [nestedString inputs [''viewport'', ''appUrl''], nestedString inputs [''viewport'', ''app_url''],
            h_env h ''VIEWPORT_APP_URL'', h_env h ''VPD_APP_URL''];
          serverUrl = first_some [nestedString inputs [''viewport'', ''serverUrl''], nestedString inputs [''viewport'', ''server_url''],
            h_env h ''VIEWPORT_SERVER_URL'', h_env h ''VPD_SERVER_URL'']
      in if truthy configured then without_slashes (the configured)
         else without_slashes (inferAppUrlFromServer h serverUrl))"

definition runtimeRunUrl :: "host \<Rightarrow> run \<Rightarrow> string" where
  "runtimeRunUrl h r =
     (let runId = encodeURIComponent (case r_platformRunId r of Some i \<Rightarrow> i | None \<Rightarrow> r_id r)
      in runtimeAppUrl h r @ ''/workflows/runs/'' @ runId
         @ (if truthy (r_platformRunId r) \<and> truthy (r_resourceId r)
            then ''?resource='' @ encodeURIComponent (the (r_resourceId r)) @ ''&platformRun='' @ runId else []))"

definition latestGithubAction :: "run \<Rightarrow> json option" where
  "latestGithubAction r =
     (let actions = List.map_filter (\<lambda>(_, st).
            case Option.bind (ns_metadata st) (\<lambda>m. field m ''action'') of
              Some (JObj a) \<Rightarrow>
                if stringValue (as_str (field a ''adapter'')) = Some ''github''
                   \<and> as_str (field a ''status'') \<in> Some ` {''executed'', ''completed'', ''success'', ''succeeded''}
                then Some (JObj a) else None
            | _ \<Rightarrow> None) (r_nodes r)
      in if actions = [] then None else Some (last actions))"

definition github_url_paths :: "string list list" where
  "github_url_paths =
     [[''providerReconciliation'', ''providerUrl''], [''provider_reconciliation'', ''providerUrl''],
      [''provider_reconciliation'', ''provider_url''], [''response'', ''htmlUrl''], [''response'', ''html_url'']]"

text \<open>\<open>/\/pull\/([0-9]+)/\<close>.\<close>

fun pull_number :: "string \<Rightarrow> string option" where
  "pull_number [] = None"
| "pull_number (c # s) =
     (let ds = takeWhile is_digit (drop 6 (c # s))
      in if startsWith (c # s) ''/pull/'' \<and> ds \<noteq> [] then Some ds else pull_number s)"

definition githubReceiptLabel :: "json option \<Rightarrow> string" where
  "githubReceiptLabel action =
     (let reference = first_some (map (nestedString action)
            [[''response'', ''number''], [''providerReconciliation'', ''providerReference''],
             [''provider_reconciliation'', ''providerReference''], [''provider_reconciliation'', ''provider_reference'']]);
          url = first_some (map (nestedString action)
            [[''response'', ''htmlUrl''], [''response'', ''html_url''], [''providerReconciliation'', ''providerUrl''],
             [''provider_reconciliation'', ''providerUrl''], [''provider_reconciliation'', ''provider_url'']])
      in if truthy reference then
           (let s = the reference
            in if startsWith (toLowerCase s) ''pr'' \<and> startsWith (dropWhile js_space (drop 2 s)) ''#'' then s else ''PR #'' @ s)
         else (case Option.bind url pull_number of Some ds \<Rightarrow> ''PR #'' @ ds | None \<Rightarrow> ''GitHub PR''))"

text \<open>What an object has besides its own properties, as text.\<close>

definition object_prototype :: "string \<Rightarrow> string option" where
  "object_prototype key =
     (if key = ''__proto__'' then Some ''[object Object]''
      else if key = ''constructor'' then Some ''function Object() { [native code] }''
      else if key \<in> {''__defineGetter__'', ''__defineSetter__'', ''hasOwnProperty'', ''__lookupGetter__'', ''__lookupSetter__'',
                     ''isPrototypeOf'', ''propertyIsEnumerable'', ''toString'', ''valueOf'', ''toLocaleString''}
      then Some (''function '' @ key @ ''() { [native code] }'') else None)"

definition message_variables :: "host \<Rightarrow> run \<Rightarrow> string \<Rightarrow> string option" where
  "message_variables h r key =
     (let runUrl = runtimeRunUrl h r; githubAction = latestGithubAction r;
          githubUrl = (case first_some (map (nestedString githubAction) github_url_paths) of Some u \<Rightarrow> u | None \<Rightarrow> runUrl)
      in case map_of
           [(''run.id'', case r_platformRunId r of Some i \<Rightarrow> i | None \<Rightarrow> r_id r), (''run.url'', runUrl),
            (''audit.url'', runUrl @ ''#audit''), (''audit_packet.url'', runUrl @ ''#audit''), (''github.url'', githubUrl),
            (''github_pr.url'', githubUrl), (''github_pr.label'', githubReceiptLabel githubAction)] key of
           Some v \<Rightarrow> Some v
         | None \<Rightarrow> object_prototype key)"

definition renderRuntimeMessage :: "host \<Rightarrow> run \<Rightarrow> string \<Rightarrow> string" where
  "renderRuntimeMessage h r template =
     normalizeSlackMessageText
       (fill_braces 1 (message_variables h r) None (fill_braces 2 (message_variables h r) None template))"

definition sourceSlackChannel :: "obj \<Rightarrow> string option" where
  "sourceSlackChannel inputs =
     first_some (map (string_at inputs)
       [[''integration_event'', ''payload'', ''event'', ''channel''], [''integration_event'', ''event'', ''channel''],
        [''issue'', ''payload'', ''event'', ''channel''], [''issue'', ''event'', ''channel'']])"

definition sourceSlackThreadTs :: "obj \<Rightarrow> string option" where
  "sourceSlackThreadTs inputs =
     first_some (map (string_at inputs)
       [[''integration_event'', ''payload'', ''event'', ''thread_ts''], [''integration_event'', ''payload'', ''event'', ''threadTs''],
        [''integration_event'', ''payload'', ''event'', ''ts''], [''integration_event'', ''event'', ''thread_ts''],
        [''integration_event'', ''event'', ''threadTs''], [''integration_event'', ''event'', ''ts''],
        [''issue'', ''payload'', ''event'', ''thread_ts''], [''issue'', ''payload'', ''event'', ''threadTs''],
        [''issue'', ''payload'', ''event'', ''ts''], [''issue'', ''event'', ''thread_ts''],
        [''issue'', ''event'', ''threadTs''], [''issue'', ''event'', ''ts'']])"

definition slack_api_request :: "run \<Rightarrow> obj \<Rightarrow> string option \<Rightarrow> string \<Rightarrow> string \<Rightarrow> string \<Rightarrow> api_request" where
  "slack_api_request r input key token channel txt =
     (let hs = [(''Authorization'', ''Bearer '' @ token)];
          thread = first_some [input_string input ''thread_ts'', input_string input ''threadTs'', sourceSlackThreadTs (r_inputs r)]
      in \<lparr>ap_url = ''https://slack.com/api/chat.postMessage'', ap_headers = withIdempotencyHeader hs key,
          ap_proposalInput = jm_set ''text'' (JStr txt) input,
          ap_body = compactObject [(''channel'', Some (JStr channel)), (''text'', Some (JStr txt)),
            (''client_msg_id'', map_option JStr key), (''thread_ts'', map_option JStr thread)],
          ap_okFromBody = True, ap_reconcile = slackMessageReconciliationRequest hs, ap_reconciliationUnsupported = None,
          ap_retry = None\<rparr>)"

definition executeSlackAction ::
    "host \<Rightarrow> world \<Rightarrow> string \<Rightarrow> action_node \<Rightarrow> obj \<Rightarrow> string option \<Rightarrow> (string, string) js_map \<Rightarrow> (string, string) js_map \<Rightarrow> act" where
  "executeSlackAction h w nodeId n input key secretEnv secretFiles =
     (let r = w_run w;
          token = run_credential h w input secretEnv secretFiles;
          channel = first_some [input_string input ''channel'', sourceSlackChannel (r_inputs r)];
          txt = map_option (renderRuntimeMessage h r) (first_some [input_string input ''text'', input_string input ''body'']);
          declared = (\<lambda>status. Finish w (declaredAction h n status key input))
      in if \<not> truthy token \<or> \<not> truthy channel \<or> \<not> truthy txt then declared ''missing_url''
         else if an_action n \<in> {''post_message'', ''message'', ''chat.postMessage''} then
           executeJsonApiAction h nodeId n (slack_api_request r input key (the token) (the channel) (the txt))
         else declared ''declared'')"

section \<open>All providers\<close>

definition executeProviderAction ::
    "host \<Rightarrow> env \<Rightarrow> world \<Rightarrow> string \<Rightarrow> action_node \<Rightarrow> obj \<Rightarrow> string option \<Rightarrow> (string, string) js_map \<Rightarrow> (string, string) js_map
     \<Rightarrow> act option" where
  "executeProviderAction h env w nodeId n input key secretEnv secretFiles =
     (if an_adapter n = ''github'' then Some (executeGitHubAction h env w nodeId n input key secretEnv secretFiles)
      else if an_adapter n = ''jira'' then Some (executeJiraAction h w nodeId n input key secretEnv secretFiles)
      else if an_adapter n = ''slack'' then Some (executeSlackAction h w nodeId n input key secretEnv secretFiles)
      else None)"

end
