(* ===== verification/Workflow_Actions.thy ===== *)
theory Workflow_Actions
  imports Action_Providers
begin

text \<open>
  Executing an action node (\<open>action-adapters.ts\<close>): rendering its input, the checks before anything is sent, webhooks
  and providers. The properties are about every request that an action may send, whatever the answers are and
  whatever happens to the run while it waits for them.
\<close>

section \<open>Rendering\<close>

fun sequence :: "('e + 'a) list \<Rightarrow> 'e + 'a list" where
  "sequence [] = Inr []"
| "sequence (x # xs) =
     (case x of Inl e \<Rightarrow> Inl e | Inr v \<Rightarrow> (case sequence xs of Inl e \<Rightarrow> Inl e | Inr vs \<Rightarrow> Inr (v # vs)))"

fun renderActionValue :: "(string \<Rightarrow> string + string) \<Rightarrow> json \<Rightarrow> string + json" where
  "renderActionValue f (JStr s) = map_sum id JStr (f s)"
| "renderActionValue f (JArr vs) = map_sum id JArr (sequence (map (renderActionValue f) vs))"
| "renderActionValue f (JObj fs) =
     map_sum id JObj (sequence (map (\<lambda>(k, v). map_sum id (Pair k) (renderActionValue f v)) fs))"
| "renderActionValue f v = Inr v"

definition renderActionInput :: "jsonata \<Rightarrow> run \<Rightarrow> obj \<Rightarrow> string + obj" where
  "renderActionInput jsonata r input =
     (case renderActionValue (\<lambda>s. renderTemplate jsonata s r []) (JObj input) of
        Inl e \<Rightarrow> Inl e
      | Inr (JObj m) \<Rightarrow> Inr m
      | Inr _ \<Rightarrow> Inr [])"

text \<open>\<open>renderOptionalTemplate\<close> of this file, for the key.\<close>

definition rendered_key :: "jsonata \<Rightarrow> run \<Rightarrow> string option \<Rightarrow> string + string option" where
  "rendered_key jsonata r v =
     (if \<not> truthy v then Inr None
      else map_sum id (\<lambda>s. if trim s = [] then None else Some s) (renderTemplate jsonata (the v) r []))"

section \<open>Webhooks\<close>

definition actionMethod :: "string \<Rightarrow> string" where
  "actionMethod action =
     (if action = ''get'' then ''GET'' else if action = ''put'' then ''PUT'' else if action = ''patch'' then ''PATCH''
      else if action = ''delete'' then ''DELETE'' else ''POST'')"

definition idempotencyHeader :: "headers \<Rightarrow> string option \<Rightarrow> headers" where
  "idempotencyHeader hs key = (if \<not> truthy key \<or> has_idempotency_key hs then [] else [(''Idempotency-Key'', the key)])"

definition headerRecord :: "json option \<Rightarrow> headers" where
  "headerRecord v =
     (case v of
        Some (JObj fs) \<Rightarrow> List.map_filter (\<lambda>(k, x). map_option (Pair k) (as_str (Some x))) fs
      | _ \<Rightarrow> [])"

definition webhook_metadata ::
    "host \<Rightarrow> world \<Rightarrow> string \<Rightarrow> action_node \<Rightarrow> string option \<Rightarrow> obj \<Rightarrow> string \<Rightarrow> string \<Rightarrow> int \<Rightarrow> string \<Rightarrow> obj \<times> obj" where
  "webhook_metadata h w nodeId n key input meth url status txt =
     (let response = [(''status'', JNum (of_int status)), (''ok'', JBool (response_ok status)),
            (''bodyExcerpt'', JStr (take max_response_chars txt))]
      in (response, [(''action'', JObj (action_fields n key @
           [(''status'', JStr (if response_ok status then ''executed'' else ''failed'')),
            (''digest'', JStr (workflowActionProposalDigest h n key input)), (''input'', sanitizeActionInput (JObj input)),
            (''request'', JObj [(''method'', JStr meth), (''url'', JStr url)]), (''response'', JObj response)]
           @ approvedExecutionGrant w nodeId (requires_approval n)))]))"

definition executeWebhookAction :: "host \<Rightarrow> world \<Rightarrow> string \<Rightarrow> action_node \<Rightarrow> string option \<Rightarrow> obj \<Rightarrow> act" where
  "executeWebhookAction h w nodeId n key input =
     (case input_string input ''url'' of
        None \<Rightarrow> Finish w (declaredAction h n ''missing_url'' key input)
      | Some url \<Rightarrow>
          let meth = (case input_string input ''method'' of Some m \<Rightarrow> m | None \<Rightarrow> actionMethod (an_action n));
              hs = headerRecord (field input ''headers''); body = field input ''body'';
              base = [(''Accept'', ''application/json, text/plain;q=0.9, */*;q=0.8'')]
                @ (if body \<noteq> None then [(''Content-Type'', ''application/json'')] else [])
          in Fetch \<lparr>rq_method = meth, rq_url = url,
                rq_headers = with_headers (with_headers base hs) (idempotencyHeader hs key), rq_body = map_option JSON_stringify body\<rparr>
               (\<lambda>(env, w, res).
                  case res of
                    Fetch_error m \<Rightarrow> Finish w (Adapter_error m None)
                  | Response status txt \<Rightarrow>
                      let (response, metadata) = webhook_metadata h w nodeId n key input meth url status txt;
                          output = action_name n @ '' '' @ int_string status;
                          ok = response_ok status;
                          w1 = report env (if ok then ''action-executed'' else ''action-failed'')
                            (''Action node '' @ nodeId @ (if ok then '' executed '' else '' failed '') @ action_name n) metadata nodeId w
                      in if \<not> ok then
                           Finish w1 (Adapter_error (''Action '' @ nodeId @ '' failed with HTTP '' @ int_string status @ '': '' @ txt) None)
                         else
                           Finish (rememberExecutedAction h env nodeId n key input output (Some response) w1) (Adapted output metadata)))"

section \<open>Executing an action\<close>

text \<open>An action that the platform has executed after its approval.\<close>

definition brokeredApprovedAction :: "world \<Rightarrow> string \<Rightarrow> action_node \<Rightarrow> adapter_result option" where
  "brokeredApprovedAction w nodeId n =
     (let st = jm_get (r_nodes (w_run w)) nodeId
      in if requires_approval n \<and> action_approved st \<and> jm_get (w_grants w) nodeId \<noteq> None then
           (case Option.bind (Option.bind st ns_metadata) (\<lambda>m. field m ''action'') of
              Some (JObj existing) \<Rightarrow>
                Some (Adapted (action_name n) [(''action'', JObj (spread existing (approvedExecutionGrant w nodeId True)))])
            | _ \<Rightarrow> None)
         else None)"

text \<open>A denial as JSON, for the event.\<close>

definition reason_name :: "denial_reason \<Rightarrow> string" where
  "reason_name d =
     (case d of
        Provider_action_not_allowed \<Rightarrow> ''provider_action_not_allowed'' | Repository_not_allowed \<Rightarrow> ''repository_not_allowed''
      | Context_source_not_allowed \<Rightarrow> ''context_source_not_allowed'' | Shell_policy_required \<Rightarrow> ''shell_policy_required''
      | Shell_disabled_by_policy \<Rightarrow> ''shell_disabled_by_policy'' | Shell_command_not_allowed \<Rightarrow> ''shell_command_not_allowed''
      | Shell_legacy_command_not_allowed \<Rightarrow> ''shell_legacy_command_not_allowed''
      | Shell_cwd_outside_worktree \<Rightarrow> ''shell_cwd_outside_worktree''
      | Shell_repository_not_allowed \<Rightarrow> ''shell_repository_not_allowed''
      | Shell_provider_side_effect_not_allowed \<Rightarrow> ''shell_provider_side_effect_not_allowed'')"

definition denial_json :: "denial \<Rightarrow> obj" where
  "denial_json d =
     [(''schema'', JStr ''viewport.workflow_authority_denial/v1''), (''reason'', JStr (reason_name (dn_reason d))),
      (''runId'', JStr (dn_runId d)), (''nodeId'', JStr (dn_nodeId d)), (''detail'', JStr (dn_detail d)),
      (''contractDigest'', str_or_null (dn_contractDigest d))]
     @ opt_field ''provider'' (map_option JStr (dn_provider d)) @ opt_field ''action'' (map_option JStr (dn_action d))
     @ opt_field ''repository'' (map_option JStr (dn_repository d))
     @ opt_field ''contextSource'' (map_option JStr (dn_contextSource d)) @ opt_field ''command'' (map_option JStr (dn_command d))
     @ opt_field ''allowed'' (map_option (\<lambda>xs. JArr (map JStr xs)) (dn_allowed d))"

definition blocked_metadata :: "action_node \<Rightarrow> string option \<Rightarrow> obj \<Rightarrow> denial \<Rightarrow> obj" where
  "blocked_metadata n key input d =
     [(''workflow_authority_denial'', JObj (denial_json d)),
      (''action'', JObj (action_fields n key @
        [(''status'', JStr ''blocked_by_workflow_authority''), (''input'', sanitizeActionInput (JObj input))]))]"

definition executeActionAdapter ::
    "host \<Rightarrow> jsonata \<Rightarrow> env \<Rightarrow> string \<Rightarrow> action_node \<Rightarrow> bool \<Rightarrow> (string, string) js_map \<Rightarrow> (string, string) js_map \<Rightarrow> world \<Rightarrow> act" where
  "executeActionAdapter h jsonata env nodeId n approved secretEnv secretFiles w =
     (let r = w_run w
      in case (rendered_key jsonata r (an_idempotencyKey n),
               renderActionInput jsonata r (case an_with n of Some m \<Rightarrow> m | None \<Rightarrow> [])) of
           (Inl e, _) \<Rightarrow> Finish w (Adapter_error e None)
         | (Inr _, Inl e) \<Rightarrow> Finish w (Adapter_error e None)
         | (Inr key, Inr input) \<Rightarrow>
             (case workflowActionAuthorityDenial r nodeId (an_adapter n) (an_action n) input of
                Some d \<Rightarrow>
                  Finish (report env ''action-blocked'' (dn_detail d) (blocked_metadata n key input d) nodeId w)
                    (Adapter_error (dn_detail d) None)
              | None \<Rightarrow>
                  (case suppressDuplicateAction h env w nodeId n key input of
                     Some (w', res) \<Rightarrow> Finish w' res
                   | None \<Rightarrow>
                       if requires_approval n \<and> \<not> approved then Finish w (declaredAction h n ''awaiting_approval'' key input)
                       else (case brokeredApprovedAction w nodeId n of
                           Some res \<Rightarrow> Finish w res
                         | None \<Rightarrow>
                             if an_adapter n \<in> {''webhook'', ''http''} then executeWebhookAction h w nodeId n key input
                             else (case executeProviderAction h env w nodeId n input key secretEnv secretFiles of
                                 Some a \<Rightarrow> a
                               | None \<Rightarrow> Finish w (declaredAction h n ''declared'' key input))))))"

section \<open>What an action may send\<close>

text \<open>A request that an action sends for some answers, in some runs that it meets on the way.\<close>

inductive may_send :: "act \<Rightarrow> http_request \<Rightarrow> bool" where
  now: "may_send (Fetch q k) q"
| later: "may_send (k x) q \<Longrightarrow> may_send (Fetch q' k) q"

inductive_simps may_send_Finish [simp]: "may_send (Finish w res) q"
inductive_simps may_send_Fetch [simp]: "may_send (Fetch q' k) q"

text \<open>One course of an action: the requests with their answers, and the end.\<close>

inductive plays :: "act \<Rightarrow> (http_request \<times> http_result) list \<Rightarrow> world \<Rightarrow> adapter_result \<Rightarrow> bool" where
  ends: "plays (Finish w res) [] w res"
| sends: "plays (k (env, w, answer)) tr w' res \<Longrightarrow> plays (Fetch q k) ((q, answer) # tr) w' res"

inductive_simps plays_Finish [simp]: "plays (Finish w res) tr w' res'"
inductive_cases plays_Fetch [elim!]: "plays (Fetch q k) tr w res"

lemma attempts_send:
  "may_send (send_attempts rq statuses attempts left k) q \<Longrightarrow> q = rq \<or> (\<exists>m x. may_send (k m x) q)"
proof (induction left arbitrary: attempts)
  case (Suc left)
  from Suc.prems consider "q = rq"
    | env w res where "may_send (case res of
         Response status _ \<Rightarrow>
           if status \<in> set statuses then send_attempts rq statuses (Suc attempts) left k else k attempts (env, w, res)
       | Fetch_error _ \<Rightarrow> k attempts (env, w, res)) q"
    by auto
  then show ?case
  proof cases
    case 2
    then have "may_send (send_attempts rq statuses (Suc attempts) left k) q \<or> may_send (k attempts (env, w, res)) q"
      by (simp split: http_result.splits if_splits)
    then show ?thesis using Suc.IH by blast
  qed simp
qed auto

lemma api_end_sends: "\<not> may_send (api_end h nodeId n a attempts status txt ok x) q"
  by (cases x) (simp add: api_end_def Let_def split: prod.splits)

definition read_back_request :: "reconciliation_request \<Rightarrow> http_request" where
  "read_back_request rr =
     \<lparr>rq_method = ''GET'', rq_url = rr_url rr, rq_headers = with_headers accept_json (rr_headers rr), rq_body = None\<rparr>"

lemma reconcile_sends:
  "may_send (reconcileProviderAction h env w request unsupported initial k) q \<Longrightarrow>
   (\<exists>rr. request = Some rr \<and> q = read_back_request rr) \<or> (\<exists>x. may_send (k x) q)"
  by (auto simp: reconcileProviderAction_def Let_def read_back_request_def split: option.splits)

lemma answered_sends:
  "may_send (api_answered h nodeId n a attempts x) q \<Longrightarrow> \<exists>parsed rr. ap_reconcile a parsed = Some rr \<and> q = read_back_request rr"
  by (cases x) (auto simp: api_answered_def Let_def api_end_sends split: http_result.splits if_splits dest!: reconcile_sends)

lemma api_sends:
  "may_send (executeJsonApiAction h nodeId n a) q \<Longrightarrow>
   q = api_http_request a \<or> (\<exists>parsed rr. ap_reconcile a parsed = Some rr \<and> q = read_back_request rr)"
  by (auto simp: executeJsonApiAction_def split: prod.splits dest!: attempts_send dest: answered_sends)

section \<open>Checks come before requests\<close>

lemma sending_checks:
  assumes "may_send (executeActionAdapter h jsonata env nodeId n approved secretEnv secretFiles w) q"
  shows "\<exists>key input. rendered_key jsonata (w_run w) (an_idempotencyKey n) = Inr key
    \<and> renderActionInput jsonata (w_run w) (case an_with n of Some m \<Rightarrow> m | None \<Rightarrow> []) = Inr input
    \<and> workflowActionAuthorityDenial (w_run w) nodeId (an_adapter n) (an_action n) input = None
    \<and> (truthy key \<longrightarrow> jm_get (w_ledger w) (''idempotency:'' @ the key) = None)
    \<and> (requires_approval n \<longrightarrow> approved) \<and> brokeredApprovedAction w nodeId n = None"
  using assms
  by (auto simp: executeActionAdapter_def suppressDuplicateAction_def actionLedgerKey_def Let_def
      split: sum.splits option.splits if_splits)

text \<open>C15: an action sends nothing before its checks. Whatever request an executing action may send, its templates were rendered,
  the authority contract does not deny it, its key has no entry in the ledger, and it is approved if it requires an
  approval.\<close>

theorem checked_before_sending:
  assumes "may_send (executeActionAdapter h jsonata env nodeId n approved secretEnv secretFiles w) q"
  shows "\<exists>key input. rendered_key jsonata (w_run w) (an_idempotencyKey n) = Inr key
    \<and> renderActionInput jsonata (w_run w) (case an_with n of Some m \<Rightarrow> m | None \<Rightarrow> []) = Inr input
    \<and> workflowActionAuthorityDenial (w_run w) nodeId (an_adapter n) (an_action n) input = None
    \<and> (truthy key \<longrightarrow> jm_get (w_ledger w) (''idempotency:'' @ the key) = None)
    \<and> (requires_approval n \<longrightarrow> approved) \<and> brokeredApprovedAction w nodeId n = None"
  using assms by (rule sending_checks)

section \<open>The course of an action\<close>

abbreviation recorded :: "string option \<Rightarrow> world \<Rightarrow> bool" where
  "recorded key w \<equiv> (case actionLedgerKey key of Some k \<Rightarrow> jm_get (w_ledger w) k \<noteq> None | None \<Rightarrow> True)"

lemma remember_records: "recorded key (rememberExecutedAction h env nodeId n key input output response w)"
  by (auto simp: rememberExecutedAction_def split: option.splits)

text \<open>The requests of a course, but for the last one, are repeated only after certain answers.\<close>

definition repeated_after :: "int set \<Rightarrow> http_result list \<Rightarrow> bool" where
  "repeated_after statuses answers \<longleftrightarrow> (\<forall>a \<in> set (butlast answers). \<exists>status txt. a = Response status txt \<and> status \<in> statuses)"

lemma repeated_Cons: "repeated_after S (a # as) \<longleftrightarrow> as = [] \<or> (\<exists>status txt. a = Response status txt \<and> status \<in> S) \<and> repeated_after S as"
  by (auto simp: repeated_after_def)

lemma attempts_play:
  assumes "plays (send_attempts rq statuses m left k) tr w res"
  shows "\<exists>answers tr' m' x. tr = map (Pair rq) answers @ tr' \<and> answers \<noteq> [] \<and> length answers \<le> Suc left
    \<and> repeated_after (set statuses) answers \<and> plays (k m' x) tr' w res"
  using assms
proof (induction left arbitrary: m tr)
  case 0
  then obtain x answer tr' where "tr = (rq, answer) # tr'" "plays (k m x) tr' w res" by auto
  then show ?case
    by (intro exI [of _ "[answer]"] exI [of _ tr'] exI [of _ m] exI [of _ x]) (simp add: repeated_after_def)
next
  case (Suc left)
  then obtain env w0 answer tr' where tr: "tr = (rq, answer) # tr'"
    and p: "plays (case answer of
         Response status _ \<Rightarrow>
           if status \<in> set statuses then send_attempts rq statuses (Suc m) left k else k m (env, w0, answer)
       | Fetch_error _ \<Rightarrow> k m (env, w0, answer)) tr' w res" by auto
  from p consider (stop) "plays (k m (env, w0, answer)) tr' w res"
    | (again) status msg where "answer = Response status msg" "status \<in> set statuses" "plays (send_attempts rq statuses (Suc m) left k) tr' w res"
    by (simp split: http_result.split_asm if_split_asm)
  then show ?case
  proof cases
    case stop
    then show ?thesis using tr
      by (intro exI [of _ "[answer]"] exI [of _ tr'] exI [of _ m] exI [of _ "(env, w0, answer)"]) (simp add: repeated_after_def)
  next
    case again
    from Suc.IH [OF again(3)] obtain answers tr'' m' x where "tr' = map (Pair rq) answers @ tr''" "length answers \<le> Suc left"
        "repeated_after (set statuses) answers" "plays (k m' x) tr'' w res" by blast
    then show ?thesis using tr again(1,2)
      by (intro exI [of _ "answer # answers"] exI [of _ tr''] exI [of _ m'] exI [of _ x]) (simp add: repeated_Cons)
  qed
qed

definition read_back_only :: "(http_request \<times> http_result) list \<Rightarrow> bool" where
  "read_back_only tr \<longleftrightarrow> (\<forall>(q, _) \<in> set tr. rq_method q = ''GET'') \<and> length tr \<le> 1"

lemma reconcile_plays:
  assumes "plays (reconcileProviderAction h env w0 request unsupported initial k) tr w res"
    and "\<And>x tr'. plays (k x) tr' w res \<Longrightarrow> tr' = [] \<and> P w res"
  shows "read_back_only tr \<and> P w res"
proof (cases request)
  case None
  with assms(1) obtain x where "plays (k x) tr w res" by (auto simp: reconcileProviderAction_def Let_def)
  from assms(2) [OF this] show ?thesis by (simp add: read_back_only_def)
next
  case (Some rr)
  with assms(1) obtain q answer x tr' where "tr = (q, answer) # tr'" "rq_method q = ''GET''" "plays (k x) tr' w res"
    by (auto simp: reconcileProviderAction_def Let_def)
  with assms(2) [OF this(3)] show ?thesis by (simp add: read_back_only_def)
qed

definition adapted_recorded :: "string option \<Rightarrow> world \<Rightarrow> adapter_result \<Rightarrow> bool" where
  "adapted_recorded key w res \<longleftrightarrow> (\<forall>out md. res = Adapted out md \<longrightarrow> recorded key w)"

lemma api_end_plays:
  "plays (api_end h nodeId n a m status txt ok x) tr w res \<Longrightarrow>
   tr = [] \<and> adapted_recorded (idempotencyKeyFromHeaders (ap_headers a)) w res"
  by (cases x) (auto simp: api_end_def adapted_recorded_def remember_records Let_def split: prod.split_asm if_split_asm)

lemma answered_plays:
  assumes "plays (api_answered h nodeId n a m x) tr w res"
  shows "read_back_only tr \<and> adapted_recorded (idempotencyKeyFromHeaders (ap_headers a)) w res"
proof -
  obtain env w0 answer where x: "x = (env, w0, answer)" by (cases x)
  show ?thesis
  proof (cases answer)
    case (Fetch_error e)
    then show ?thesis using assms by (auto simp: api_answered_def x read_back_only_def adapted_recorded_def)
  next
    case (Response status msg)
    from assms consider k where "plays (reconcileProviderAction h env w0 k (ap_reconciliationUnsupported a) (parseJson msg)
          (api_end h nodeId n a m status msg True)) tr w res"
      | "plays (api_end h nodeId n a m status msg False (env, w0, None)) tr w res"
      by (auto simp: api_answered_def x Response Let_def split: if_split_asm)
    then show ?thesis
    proof cases
      case 1
      then show ?thesis by (rule reconcile_plays) (rule api_end_plays)
    next
      case 2
      from api_end_plays [OF this] show ?thesis by (simp add: read_back_only_def)
    qed
  qed
qed

text \<open>What holds of every course: few requests, POST again only after certain answers, and a success after a request is recorded.\<close>

definition posts :: "(http_request \<times> http_result) list \<Rightarrow> http_result list" where
  "posts tr = map snd (filter (\<lambda>(q, _). rq_method q = ''POST'') tr)"

definition course :: "nat \<Rightarrow> string option \<Rightarrow> (http_request \<times> http_result) list \<Rightarrow> world \<Rightarrow> adapter_result \<Rightarrow> bool" where
  "course m key tr w res \<longleftrightarrow>
     length tr \<le> m \<and> length (posts tr) \<le> 3 \<and> repeated_after {404, 422} (posts tr) \<and> adapted_recorded key w res"

lemma read_back_posts: "read_back_only tr \<Longrightarrow> posts tr = []"
  by (auto simp: read_back_only_def posts_def filter_empty_conv)

lemma posts_append [simp]: "posts (xs @ ys) = posts xs @ posts ys"
  by (simp add: posts_def)

lemma posts_map: "rq_method q = ''POST'' \<Longrightarrow> posts (map (Pair q) answers) = answers"
  by (induction answers) (auto simp: posts_def)

lemma course_read_back: "read_back_only tr \<Longrightarrow> adapted_recorded key w res \<Longrightarrow> course 1 key tr w res"
  by (simp add: course_def read_back_posts repeated_after_def) (simp add: read_back_only_def)

lemma course_get: "rq_method q = ''GET'' \<Longrightarrow> course m key tr w res \<Longrightarrow> course (Suc m) key ((q, answer) # tr) w res"
  by (simp add: course_def posts_def)

lemma course_mono: "course m key tr w res \<Longrightarrow> m \<le> m' \<Longrightarrow> course m' key tr w res"
  by (simp add: course_def)

lemma idempotency_name: "toLowerCase ''Idempotency-Key'' = ''idempotency-key''"
  by code_simp

lemma key_of_headers:
  assumes "\<not> has_idempotency_key hs"
  shows "actionLedgerKey (idempotencyKeyFromHeaders (withIdempotencyHeader hs key)) = actionLedgerKey key"
proof -
  have new: "jm_set ''Idempotency-Key'' v m = m @ [(''Idempotency-Key'', v)]" if "\<not> has_idempotency_key m" for m :: headers and v
    using that by (induction m) (auto simp: has_idempotency_key_def idempotency_name)
  have none: "find (\<lambda>(k, _). toLowerCase k = ''idempotency-key'') hs = None"
    using assms by (auto simp: has_idempotency_key_def find_None_iff list_ex_iff)
  have some: "find P (m @ [x]) = Some x" if "find P m = None" "P x" for P :: "string \<times> string \<Rightarrow> bool" and m x
    using that by (induction m) (auto split: if_splits)
  show ?thesis
  proof (cases "truthy key")
    case True
    have "idempotencyKeyFromHeaders (hs @ [(''Idempotency-Key'', the key)]) = Some (the key)"
      unfolding idempotencyKeyFromHeaders_def by (subst some [OF none]) (simp_all add: idempotency_name)
    then show ?thesis using True assms
      by (cases key) (simp_all add: withIdempotencyHeader_def with_headers_def new truthy_def)
  next
    case False
    then show ?thesis using none by (simp add: withIdempotencyHeader_def idempotencyKeyFromHeaders_def actionLedgerKey_def truthy_def)
  qed
qed

lemma api_plays:
  assumes "plays (executeJsonApiAction h nodeId n a) tr w res"
    and "ap_retry a \<in> {None, Some ([404, 422], 3)}" and "ap_headers a = withIdempotencyHeader hs key" and "\<not> has_idempotency_key hs"
  shows "course 4 key tr w res"
proof -
  obtain statuses left where sl: "(case ap_retry a of None \<Rightarrow> ([], 0) | Some (ss, m) \<Rightarrow> (ss, m - 1)) = (statuses, left)"
    and bounds: "set statuses \<subseteq> {404, 422}" "left \<le> 2"
    using assms(2) by auto
  from attempts_play [OF assms(1) [unfolded executeJsonApiAction_def sl Let_def prod.case]] obtain answers tr' m x where
    tr: "tr = map (Pair (api_http_request a)) answers @ tr'" and n: "length answers \<le> Suc left"
    and r: "repeated_after (set statuses) answers" and p: "plays (api_answered h nodeId n a m x) tr' w res" by blast
  from answered_plays [OF p] assms(3) key_of_headers [OF assms(4)]
  have e: "read_back_only tr'" "adapted_recorded key w res" by (auto simp: adapted_recorded_def)
  have "posts tr = answers" using tr e(1) by (simp add: posts_map read_back_posts api_http_request_def)
  moreover have "repeated_after {404, 422} answers" using r bounds(1) by (fastforce simp: repeated_after_def)
  ultimately show ?thesis using e tr n bounds(2) by (simp add: course_def read_back_only_def)
qed

abbreviation on_course :: "nat \<Rightarrow> string option \<Rightarrow> act \<Rightarrow> bool" where
  "on_course m key a \<equiv> (\<forall>tr w res. plays a tr w res \<longrightarrow> tr = [] \<or> course m key tr w res)"

lemma api_on_course:
  assumes "ap_retry a \<in> {None, Some ([404, 422], 3)}" and "ap_headers a = withIdempotencyHeader hs key" and "\<not> has_idempotency_key hs"
  shows "on_course 4 key (executeJsonApiAction h nodeId n a)"
  using api_plays [OF _ assms] by blast

lemma on_course_mono: "on_course m key a \<Longrightarrow> m \<le> m' \<Longrightarrow> on_course m' key a"
  using course_mono by blast

lemma reused_plays:
  "plays (reused_pull_request h nodeId n input key url pull x) tr w res \<Longrightarrow> tr = [] \<and> adapted_recorded key w res"
  by (cases x) (auto simp: reused_pull_request_def adapted_recorded_def remember_records Let_def)

lemma existing_plays:
  assumes other: "\<And>tr w res. plays otherwise tr w res \<Longrightarrow> course 4 key tr w res"
  shows "on_course 5 key (existingGitHubPullRequest h nodeId n input owner repo token head base key otherwise)"
proof (intro allI impI)
  fix tr w res assume p: "plays (existingGitHubPullRequest h nodeId n input owner repo token head base key otherwise) tr w res"
  show "tr = [] \<or> course 5 key tr w res"
  proof (cases head)
    case None
    then have "course 4 key tr w res" using p other by (simp add: existingGitHubPullRequest_def)
    then show ?thesis using course_mono [of 4 key tr w res 5] by simp
  next
    case (Some ref)
    let ?url = "github_repository_url owner repo @ ''/pulls''"
    from p obtain q answer tr' env w0 where tr: "tr = (q, answer) # tr'" and q: "rq_method q = ''GET''"
      and p': "plays (case answer of
          Fetch_error m \<Rightarrow> Finish w0 (Adapter_error m None)
        | Response status txt \<Rightarrow>
            if \<not> response_ok status then otherwise
            else (case listed_pull (parseJson txt) of
                None \<Rightarrow> otherwise
              | Some pull \<Rightarrow>
                  reconcileProviderAction h env w0 (githubReconciliationRequest (githubHeaders token) pull ''pull_request'') None pull
                    (reused_pull_request h nodeId n input key ?url pull))) tr' w res"
      unfolding existingGitHubPullRequest_def Some option.case Let_def by fastforce
    from p' consider "plays otherwise tr' w res" | m where "tr' = []" "res = Adapter_error m None"
      | r pull where "plays (reconcileProviderAction h env w0 r None pull (reused_pull_request h nodeId n input key ?url pull)) tr' w res"
      by (auto split: http_result.split_asm if_split_asm option.split_asm)
    then have "course 4 key tr' w res"
    proof cases
      case 2
      then show ?thesis by (simp add: course_def posts_def repeated_after_def adapted_recorded_def)
    next
      case 3
      then have "read_back_only tr' \<and> adapted_recorded key w res" by (rule reconcile_plays) (rule reused_plays)
      then have "course 1 key tr' w res" using course_read_back by blast
      then show ?thesis using course_mono [of 1 key tr' w res 4] by simp
    qed (rule other)
    from course_get [OF q this] show ?thesis by (simp add: tr)
  qed
qed

lemma github_no_key: "\<not> has_idempotency_key (githubHeaders token)"
  by (simp add: has_idempotency_key_def githubHeaders_def toLowerCase_def char_lower_def)

lemma bearer_no_key: "\<not> has_idempotency_key [(''Authorization'', v)]"
  by (simp add: has_idempotency_key_def toLowerCase_def char_lower_def)

lemma api_request_fields:
  "ap_retry (github_api_request url token key input body kind retry) = retry"
  "ap_headers (github_api_request url token key input body kind retry) = withIdempotencyHeader (githubHeaders token) key"
  by (simp_all add: github_api_request_def)

lemma github_on_course: "on_course 5 key (executeGitHubAction h env w0 nodeId n input key secretEnv secretFiles)"
proof -
  have api: "plays (executeJsonApiAction h nodeId n (github_api_request url token key input body kind retry)) tr w res \<Longrightarrow>
      course 4 key tr w res" if "retry \<in> {None, Some ([404, 422], 3)}" for url token body kind retry tr w res
    using that by (auto intro: api_plays [where hs = "githubHeaders token"] simp: api_request_fields github_no_key)
  have "on_course 5 key (pull_request_action h nodeId n input key token owner repo)" for token owner repo
    unfolding pull_request_action_def Let_def by (rule existing_plays) (rule api, simp_all)
  moreover have "on_course 5 key (comment_action h w0 nodeId n input key token owner repo)" for token owner repo
    using api [of None] course_mono [of 4 key _ _ _ 5] by (auto simp: comment_action_def split: option.split)
  ultimately show ?thesis
    by (auto simp: executeGitHubAction_def Let_def assertGitHubBrokeredCredential_def split: option.split)
qed

lemma jira_on_course: "on_course 5 key (executeJiraAction h w0 nodeId n input key secretEnv secretFiles)"
proof -
  have "on_course 5 key (executeJsonApiAction h nodeId n
      (jira_api_request url (withIdempotencyHeader (jiraHeaders token email) key) input body reconcile unsupported))"
    for url token email body reconcile unsupported
    by (rule on_course_mono [OF api_on_course [where hs = "jiraHeaders token email"]])
      (simp_all add: jira_api_request_def jiraHeaders_def bearer_no_key)
  then show ?thesis by (auto simp: executeJiraAction_def Let_def split: option.split)
qed

lemma slack_on_course: "on_course 5 key (executeSlackAction h w0 nodeId n input key secretEnv secretFiles)"
proof -
  have "on_course 5 key (executeJsonApiAction h nodeId n (slack_api_request r input key token channel body))" for r token channel body
    by (rule on_course_mono [OF api_on_course [where hs = "[(''Authorization'', ''Bearer '' @ token)]"]])
      (simp_all add: slack_api_request_def Let_def bearer_no_key)
  then show ?thesis by (auto simp: executeSlackAction_def Let_def)
qed

lemma webhook_on_course: "on_course 5 key (executeWebhookAction h w0 nodeId n key input)"
proof (intro allI impI)
  fix tr w res assume p: "plays (executeWebhookAction h w0 nodeId n key input) tr w res"
  show "tr = [] \<or> course 5 key tr w res"
  proof (cases "input_string input ''url''")
    case (Some url)
    with p obtain q answer where tr: "tr = [(q, answer)]" and r: "adapted_recorded key w res"
      by (auto simp: executeWebhookAction_def Let_def adapted_recorded_def remember_records
          split: http_result.split_asm if_split_asm prod.split_asm)
    have "length (posts tr) \<le> 1" by (simp add: tr posts_def)
    then show ?thesis using r by (cases "posts tr") (auto simp: course_def tr repeated_after_def)
  qed (use p in \<open>simp add: executeWebhookAction_def\<close>)
qed

lemma action_plays:
  assumes "plays (executeActionAdapter h jsonata env nodeId n approved secretEnv secretFiles w0) tr w res" and "tr \<noteq> []"
  obtains key where "rendered_key jsonata (w_run w0) (an_idempotencyKey n) = Inr key" and "course 5 key tr w res"
proof -
  from assms obtain key input a where k: "rendered_key jsonata (w_run w0) (an_idempotencyKey n) = Inr key"
    and a: "a = executeWebhookAction h w0 nodeId n key input
      \<or> executeProviderAction h env w0 nodeId n input key secretEnv secretFiles = Some a" and p: "plays a tr w res"
    by (auto simp: executeActionAdapter_def Let_def split: sum.split_asm option.split_asm if_split_asm prod.split_asm)
  from a consider "a = executeWebhookAction h w0 nodeId n key input"
    | "a = executeGitHubAction h env w0 nodeId n input key secretEnv secretFiles"
    | "a = executeJiraAction h w0 nodeId n input key secretEnv secretFiles"
    | "a = executeSlackAction h w0 nodeId n input key secretEnv secretFiles"
    by (auto simp: executeProviderAction_def split: if_split_asm)
  then have "on_course 5 key a"
    by cases (hypsubst, rule webhook_on_course github_on_course jira_on_course slack_on_course)+
  with p assms(2) that [OF k] show thesis by blast
qed

text \<open>C14: an action with an idempotency key that succeeded after sending something is never sent again. Its key is in the ledger, and
  as long as it is, no action with this key, of whatever node, sends a request.\<close>

theorem executed_key_sends_nothing:
  assumes "plays (executeActionAdapter h jsonata env nodeId n approved secretEnv secretFiles w0) tr w (Adapted output metadata)"
    and "tr \<noteq> []" and "rendered_key jsonata (w_run w0) (an_idempotencyKey n) = Inr (Some key)"
    and "rendered_key jsonata (w_run w2) (an_idempotencyKey n2) = Inr (Some key)"
    and "jm_get (w_ledger w2) (''idempotency:'' @ key) = jm_get (w_ledger w) (''idempotency:'' @ key)"
  shows "\<not> may_send (executeActionAdapter h2 jsonata env2 nodeId2 n2 approved2 secretEnv2 secretFiles2 w2) q"
proof
  assume s: "may_send (executeActionAdapter h2 jsonata env2 nodeId2 n2 approved2 secretEnv2 secretFiles2 w2) q"
  from action_plays [OF assms(1,2)] assms(3) have "course 5 (Some key) tr w (Adapted output metadata)" by auto
  then have "recorded (Some key) w" by (simp add: course_def adapted_recorded_def)
  moreover have "key \<noteq> []" using assms(3) by (cases "renderTemplate jsonata (the (an_idempotencyKey n)) (w_run w0) []")
      (auto simp: rendered_key_def split: if_split_asm)
  ultimately have "jm_get (w_ledger w) (''idempotency:'' @ key) \<noteq> None" by (auto simp: actionLedgerKey_def truthy_def)
  with sending_checks [OF s] assms(4,5) \<open>key \<noteq> []\<close> show False by (auto simp: truthy_def)
qed

text \<open>An action sends few requests. Whatever the answers are, it sends at most five requests and at most three with POST, and
  sends a POST again only when the answer was 404 or 422.\<close>

theorem action_requests_bounded:
  assumes "plays (executeActionAdapter h jsonata env nodeId n approved secretEnv secretFiles w0) tr w res"
  shows "length tr \<le> 5 \<and> length (posts tr) \<le> 3 \<and> repeated_after {404, 422} (posts tr)"
proof (cases "tr = []")
  case True
  then show ?thesis by (simp add: posts_def repeated_after_def)
next
  case False
  from action_plays [OF assms this] show ?thesis by (metis course_def)
qed

section \<open>Requests to GitHub\<close>

lemma github_header_names:
  "\<not> has_idempotency_key (githubHeaders token)" "jm_get (githubHeaders token) ''Authorization'' = Some (''Bearer '' @ token)"
  by (simp_all add: has_idempotency_key_def githubHeaders_def toLowerCase_def char_lower_def jm_get_def)

lemma github_authorization:
  "jm_get (with_headers (accept_json @ more_headers) (githubHeaders token)) ''Authorization'' = Some (''Bearer '' @ token)"
  "jm_get (with_headers (accept_json @ more_headers) (withIdempotencyHeader (githubHeaders token) key)) ''Authorization''
     = Some (''Bearer '' @ token)"
  by (simp_all add: with_headers_def withIdempotencyHeader_def github_header_names)
     (simp_all add: githubHeaders_def)

text \<open>The requests for a repository: with the credential, and to the repository unless it is a read-back of what GitHub
  named.\<close>

definition github_request :: "string \<Rightarrow> string \<Rightarrow> string \<Rightarrow> http_request \<Rightarrow> bool" where
  "github_request token owner repo q \<longleftrightarrow>
     jm_get (rq_headers q) ''Authorization'' = Some (''Bearer '' @ token)
     \<and> (rq_method q = ''GET'' \<or> rq_method q = ''POST'')
     \<and> (rq_method q = ''POST'' \<longrightarrow> startsWith (rq_url q) (github_repository_url owner repo @ ''/''))"

lemma github_read_back: "githubReconciliationRequest (githubHeaders token) parsed kind = Some rr \<Longrightarrow> github_request token owner repo (read_back_request rr)"
  using github_authorization(1) [of "[]" token]
  by (auto simp: githubReconciliationRequest_def github_request_def read_back_request_def Let_def split: if_splits)

lemma github_api_sends:
  assumes "may_send (executeJsonApiAction h nodeId n (github_api_request url token key input body kind retry)) q"
    and "startsWith url (github_repository_url owner repo @ ''/'')"
  shows "github_request token owner repo q"
proof -
  have "github_request token owner repo (api_http_request (github_api_request url token key input body kind retry))"
    using github_authorization(2) [of "[(''Content-Type'', ''application/json'')]" token key] assms(2)
    by (simp add: github_request_def api_http_request_def github_api_request_def)
  then show ?thesis using api_sends [OF assms(1)] github_read_back by (auto simp: github_api_request_def)
qed

lemma reused_sends: "\<not> may_send (reused_pull_request h nodeId n input key url pull x) q"
  by (cases x) (simp add: reused_pull_request_def Let_def)

lemma existing_sends:
  assumes "may_send (existingGitHubPullRequest h nodeId n input owner repo token head base key otherwise) q"
  shows "github_request token owner repo q \<or> may_send otherwise q"
proof (cases head)
  case (Some ref)
  let ?url = "github_repository_url owner repo @ ''/pulls''"
  from assms consider (get) u where "q = \<lparr>rq_method = ''GET'', rq_url = u, rq_headers = githubHeaders token, rq_body = None\<rparr>"
    | (answer) env w res where "may_send (case res of
          Fetch_error m \<Rightarrow> Finish w (Adapter_error m None)
        | Response status txt \<Rightarrow>
            if \<not> response_ok status then otherwise
            else (case listed_pull (parseJson txt) of
                None \<Rightarrow> otherwise
              | Some pull \<Rightarrow>
                  reconcileProviderAction h env w (githubReconciliationRequest (githubHeaders token) pull ''pull_request'') None pull
                    (reused_pull_request h nodeId n input key ?url pull))) q"
    unfolding existingGitHubPullRequest_def Some option.case Let_def may_send_Fetch by fast
  then show ?thesis
  proof cases
    case get
    then show ?thesis by (simp add: github_request_def github_header_names)
  next
    case answer
    then show ?thesis
      by (auto simp: reused_sends split: http_result.split_asm if_split_asm option.split_asm
          dest!: reconcile_sends dest: github_read_back)
  qed
qed (use assms in \<open>simp add: existingGitHubPullRequest_def\<close>)

lemma starts_append: "startsWith (a @ b) (a @ c) = startsWith b c"
  by (simp add: startsWith_def)

lemma github_sends:
  assumes "may_send (executeGitHubAction h env w nodeId n input key secretEnv secretFiles) q"
  shows "\<exists>owner repo token. github_target input = Some (owner, repo)
    \<and> run_credential h w input secretEnv secretFiles = Some token
    \<and> github_credential_accepted h input (Some token) (sort (map fst secretEnv)) \<and> github_request token owner repo q"
proof -
  let ?token = "run_credential h w input secretEnv secretFiles"
  obtain owner repo where t: "github_target input = Some (owner, repo)"
    using assms by (auto simp: executeGitHubAction_def Let_def split: option.splits)
  have "assertGitHubBrokeredCredential h env w nodeId n input ?token key (sort (map fst secretEnv)) = None"
    using assms by (auto simp: executeGitHubAction_def Let_def t assertGitHubBrokeredCredential_def split: if_splits)
  then have acc: "github_credential_accepted h input ?token (sort (map fst secretEnv))"
    by (simp add: assertGitHubBrokeredCredential_def Let_def split: if_splits)
  then obtain token where token: "?token = Some token" by (auto simp: github_credential_accepted_def truthy_def split: option.splits)
  have "github_request token owner repo q"
    using assms acc
    by (auto simp: executeGitHubAction_def Let_def t token assertGitHubBrokeredCredential_def pull_request_action_def comment_action_def
        starts_append startsWith_def split: if_splits option.splits prod.splits dest!: existing_sends github_api_sends)
  then show ?thesis using t token acc by auto
qed

text \<open>C16: every request of a GitHub action has the credential that the input names, and goes to the repository the input names. The
  credential is that of an installation of the app, unless the machine is set up for local proofs. What GitHub
  answers, and what happens to the run meanwhile, cannot change this; only the address of a read-back, a GET, is taken
  from the answer.\<close>

theorem github_requests_authorised:
  assumes "an_adapter n = ''github''"
    and "may_send (executeActionAdapter h jsonata env nodeId n approved secretEnv secretFiles w) q"
  shows "\<exists>input owner repo token.
    renderActionInput jsonata (w_run w) (case an_with n of Some m \<Rightarrow> m | None \<Rightarrow> []) = Inr input
    \<and> github_target input = Some (owner, repo)
    \<and> run_credential h w input secretEnv secretFiles = Some token
    \<and> (startsWith token ''ghs_'' \<or> localGitHubProofTokensAllowed h)
    \<and> jm_get (rq_headers q) ''Authorization'' = Some (''Bearer '' @ token)
    \<and> (rq_method q = ''GET'' \<or> rq_method q = ''POST'' \<and> startsWith (rq_url q) (github_repository_url owner repo @ ''/''))"
proof -
  obtain key input where i: "renderActionInput jsonata (w_run w) (case an_with n of Some m \<Rightarrow> m | None \<Rightarrow> []) = Inr input"
    and s: "may_send (executeGitHubAction h env w nodeId n input key secretEnv secretFiles) q"
    using assms by (auto simp: executeActionAdapter_def executeProviderAction_def Let_def split: sum.splits option.splits if_splits)
  from github_sends [OF s] obtain owner repo token where "github_target input = Some (owner, repo)"
      "run_credential h w input secretEnv secretFiles = Some token"
      "github_credential_accepted h input (Some token) (sort (map fst secretEnv))" "github_request token owner repo q" by auto
  with i show ?thesis by (auto simp: github_credential_accepted_def github_request_def)
qed

text \<open>A GitHub action with its run, for the witnesses. Its contract allows one repository.\<close>

definition host_demo :: host where
  "host_demo = \<lparr>h_sha256 = (\<lambda>s. s), h_before = (\<lambda>a b. True), h_env = (\<lambda>_. None), h_home = ''/h'', h_file = (\<lambda>_. None),
     h_url = (\<lambda>_. None)\<rparr>"

definition jsonata_demo :: jsonata where
  "jsonata_demo = (\<lambda>_ _. Result None)"

definition env_demo :: env where
  "env_demo = \<lparr>e_now = 0, e_uuid = (\<lambda>_. ''e'')\<rparr>"

definition comment_input :: "(string \<times> string) list \<Rightarrow> obj" where
  "comment_input fs = map (\<lambda>(k, v). (k, JStr v)) ([(''credential_ref'', ''gh''), (''issue_number'', ''1''), (''body'', ''hi'')] @ fs)"

definition comment_node :: "(string \<times> string) list \<Rightarrow> action_node" where
  "comment_node fs =
     \<lparr>an_adapter = ''github'', an_action = ''comment'', an_with = Some (comment_input fs), an_proposalKey = None,
      an_idempotencyKey = None, an_requiresApproval = None, an_reason = None, an_approvalRequired = None\<rparr>"

definition repository_contract :: obj where
  "repository_contract = [(''repos'', JObj [(''allowed'', JArr [JStr ''a/b''])])]"

definition world_demo :: world where
  "world_demo =
     \<lparr>w_run = authority_demo\<lparr>r_workflowAuthorityContract := Some repository_contract\<rparr>, w_ledger = [], w_grants = []\<rparr>"

definition comment_act :: "(string \<times> string) list \<Rightarrow> act" where
  "comment_act fs =
     executeActionAdapter host_demo jsonata_demo env_demo ''n'' (comment_node fs) False [(''VIEWPORT_CREDENTIAL_GH'', ''ghs_1'')] [] world_demo"

definition comment_request :: "string \<Rightarrow> http_request" where
  "comment_request repository =
     \<lparr>rq_method = ''POST'', rq_url = ''https://api.github.com/repos/'' @ repository @ ''/issues/1/comments'',
      rq_headers = accept_json @ [(''Content-Type'', ''application/json'')] @ githubHeaders ''ghs_1'',
      rq_body = Some (JSON_stringify (JObj [(''body'', JStr ''hi'')]))\<rparr>"

definition first_request :: "act \<Rightarrow> http_request option" where
  "first_request a = (case a of Fetch q _ \<Rightarrow> Some q | Finish _ _ \<Rightarrow> None)"

lemma first_request_sent: "first_request a = Some q \<Longrightarrow> may_send a q"
  by (cases a) (auto simp: first_request_def)

lemma comment_sent: "first_request (comment_act [(''repository'', ''a/b'')]) = Some (comment_request ''a/b'')"
  by code_simp

lemma other_comment_sent:
  "first_request (comment_act [(''repository'', ''a/b''), (''owner'', ''x''), (''repo'', ''y'')]) = Some (comment_request ''x/y'')"
  by code_simp

theorem github_requests_authorised_witness:
  "\<exists>input owner repo token.
    renderActionInput jsonata_demo (w_run world_demo) (case an_with (comment_node [(''repository'', ''a/b'')]) of Some m \<Rightarrow> m | None \<Rightarrow> []) = Inr input
    \<and> github_target input = Some (owner, repo)
    \<and> run_credential host_demo world_demo input [(''VIEWPORT_CREDENTIAL_GH'', ''ghs_1'')] [] = Some token
    \<and> (startsWith token ''ghs_'' \<or> localGitHubProofTokensAllowed host_demo)
    \<and> jm_get (rq_headers (comment_request ''a/b'')) ''Authorization'' = Some (''Bearer '' @ token)
    \<and> (rq_method (comment_request ''a/b'') = ''GET''
         \<or> rq_method (comment_request ''a/b'') = ''POST'' \<and> startsWith (rq_url (comment_request ''a/b'')) (github_repository_url owner repo @ ''/''))"
  by (rule github_requests_authorised [OF _ first_request_sent [OF comment_sent [unfolded comment_act_def]]])
     (simp add: comment_node_def)

theorem checked_before_sending_witness:
  "\<exists>key input. rendered_key jsonata_demo (w_run world_demo) (an_idempotencyKey (comment_node [(''repository'', ''a/b'')])) = Inr key
    \<and> renderActionInput jsonata_demo (w_run world_demo)
        (case an_with (comment_node [(''repository'', ''a/b'')]) of Some m \<Rightarrow> m | None \<Rightarrow> []) = Inr input
    \<and> workflowActionAuthorityDenial (w_run world_demo) ''n'' (an_adapter (comment_node [(''repository'', ''a/b'')]))
        (an_action (comment_node [(''repository'', ''a/b'')])) input = None
    \<and> (truthy key \<longrightarrow> jm_get (w_ledger world_demo) (''idempotency:'' @ the key) = None)
    \<and> (requires_approval (comment_node [(''repository'', ''a/b'')]) \<longrightarrow> False)
    \<and> brokeredApprovedAction world_demo ''n'' (comment_node [(''repository'', ''a/b'')]) = None"
  by (rule checked_before_sending [OF first_request_sent [OF comment_sent [unfolded comment_act_def]]])

section \<open>Where the checks and the requests differ\<close>

text \<open>The check of the repository reads \<open>repository\<close> first, the request \<open>owner\<close> and \<open>repo\<close>.\<close>

lemma checked_and_requested_repository:
  assumes "input_string input ''repository'' = Some named" and "input_string input ''owner'' = Some owner"
    and "input_string input ''repo'' = Some repo"
  shows "actionRepository ''github'' input = Some (normalizeRepository (trim named))" and "github_target input = Some (owner, repo)"
proof -
  have "authority_string (field input ''repository'') = Some (trim named)"
    using assms(1) by (auto simp: input_string_def stringValue_def authority_string_def non_empty_def as_str_def
        split: option.split_asm json.split_asm if_split_asm)
  then show "actionRepository ''github'' input = Some (normalizeRepository (trim named))"
    by (simp add: actionRepository_def first_string_def List.map_filter_def)
  show "github_target input = Some (owner, repo)"
    using assms by (simp add: github_target_def first_some_def List.map_filter_def)
qed


text \<open>A course computed for given answers.\<close>

fun run_with :: "(env \<times> world \<times> http_result) list \<Rightarrow> act \<Rightarrow> ((http_request \<times> http_result) list \<times> world \<times> adapter_result) option" where
  "run_with xs (Finish w res) = Some ([], w, res)"
| "run_with [] (Fetch q k) = None"
| "run_with (x # xs) (Fetch q k) = map_option (apfst ((#) (q, snd (snd x)))) (run_with xs (k x))"

lemma run_with_plays: "run_with xs a = Some (tr, w, res) \<Longrightarrow> plays a tr w res"
proof (induction xs a arbitrary: tr rule: run_with.induct)
  case (3 x xs q k)
  obtain env w0 answer where x: "x = (env, w0, answer)" by (cases x)
  with 3 show ?case by (auto intro!: sends)
qed (auto intro: ends)

definition hook_node :: "string \<Rightarrow> string \<Rightarrow> (string \<times> string) list \<Rightarrow> action_node" where
  "hook_node adapter action fs =
     \<lparr>an_adapter = adapter, an_action = action, an_with = Some (map (\<lambda>(k, v). (k, JStr v)) fs), an_proposalKey = None,
      an_idempotencyKey = Some ''k'', an_requiresApproval = None, an_reason = None, an_approvalRequired = None\<rparr>"

definition hook_act :: "string \<Rightarrow> world \<Rightarrow> act" where
  "hook_act nodeId w =
     executeActionAdapter host_demo jsonata_demo env_demo nodeId (hook_node ''webhook'' ''post'' [(''url'', ''u'')]) False [] [] w"

definition hook_course :: "((http_request \<times> http_result) list \<times> world \<times> adapter_result) option" where
  "hook_course = run_with [(env_demo, world_demo, Response 200 [])] (hook_act ''n'' world_demo)"

lemma hook_played: "\<exists>q w md. hook_course = Some ([(q, Response 200 [])], w, Adapted ''webhook.post 200'' md)"
proof -
  have "map_option (\<lambda>(tr, w, res). (map snd tr, case res of Adapted out md \<Rightarrow> Some out | _ \<Rightarrow> None)) hook_course
      = Some ([Response 200 []], Some ''webhook.post 200'')"
    by code_simp
  then obtain tr w res where c: "hook_course = Some (tr, w, res)" and tr: "map snd tr = [Response 200 []]"
      and res: "(case res of Adapted out md \<Rightarrow> Some out | _ \<Rightarrow> None) = Some ''webhook.post 200''" by auto
  from res obtain md where "res = Adapted ''webhook.post 200'' md" by (cases res) auto
  moreover from tr obtain q where "tr = [(q, Response 200 [])]" by auto
  ultimately show ?thesis using c by blast
qed

lemma hook_key: "rendered_key jsonata_demo (w_run world_demo) (Some ''k'') = Inr (Some ''k'')"
  by code_simp

theorem executed_key_sends_nothing_witness:
  "\<exists>w tr res. plays (hook_act ''n'' world_demo) tr w res \<and> tr \<noteq> []
     \<and> \<not> may_send (hook_act ''m'' (world_demo\<lparr>w_ledger := w_ledger w\<rparr>)) (comment_request ''a/b'')"
proof -
  obtain q w md where c: "hook_course = Some ([(q, Response 200 [])], w, Adapted ''webhook.post 200'' md)" using hook_played by blast
  have p: "plays (hook_act ''n'' world_demo) [(q, Response 200 [])] w (Adapted ''webhook.post 200'' md)"
    using run_with_plays c by (simp add: hook_course_def)
  have "\<not> may_send (hook_act ''m'' (world_demo\<lparr>w_ledger := w_ledger w\<rparr>)) (comment_request ''a/b'')"
    unfolding hook_act_def
    by (rule executed_key_sends_nothing [OF p [unfolded hook_act_def], where key = "''k''"]) (simp_all add: hook_node_def hook_key)
  with p show ?thesis by blast
qed

theorem action_requests_bounded_witness:
  "\<exists>tr w res. plays (hook_act ''n'' world_demo) tr w res \<and> tr \<noteq> [] \<and> length tr \<le> 5"
proof -
  obtain q w md where c: "hook_course = Some ([(q, Response 200 [])], w, Adapted ''webhook.post 200'' md)" using hook_played by blast
  have p: "plays (hook_act ''n'' world_demo) [(q, Response 200 [])] w (Adapted ''webhook.post 200'' md)"
    using run_with_plays c by (simp add: hook_course_def)
  from action_requests_bounded [OF this [unfolded hook_act_def]] p show ?thesis by blast
qed

text \<open>Two nodes with the same key that start before either has its answer both send their request: the ledger is written only
  when an answer is there.\<close>

lemma same_key_in_flight: "first_request (hook_act ''n'' world_demo) \<noteq> None \<and> first_request (hook_act ''m'' world_demo) \<noteq> None"
  by code_simp

text \<open>A Slack message that is executed once more with the same input and key is refused as a different action, because the
  ledger has the digest of the input with the final text.\<close>

definition slack_act :: "world \<Rightarrow> act" where
  "slack_act w =
     executeActionAdapter host_demo jsonata_demo env_demo ''n''
       (hook_node ''slack'' ''message'' [(''credential_ref'', ''gh''), (''channel'', ''C''), (''body'', ''hi'')]) False
       [(''VIEWPORT_CREDENTIAL_GH'', ''t'')] [] w"

lemma repeated_slack_message_refused:
  "(case run_with [(env_demo, world_demo, Response 200 [])] (slack_act world_demo) of
      Some (_, w, Adapted _ _) \<Rightarrow> (case slack_act w of Finish _ (Adapter_error _ None) \<Rightarrow> True | _ \<Rightarrow> False)
    | _ \<Rightarrow> False)"
  by code_simp

end
