(* ===== verification/Bridge_Crypto.thy ===== *)
theory Bridge_Crypto
  imports Json_Text
begin

text \<open>
  What the daemon's relay bridge encrypts and how (\<open>relay/bridge-crypto.ts\<close>, \<open>relay/bridge-handshake-profile.ts\<close>): byte strings
  and their base64url text, the profiles of handshakes, and the envelopes of encrypted frames.

  A buffer is a list of bytes. The primitives of node's crypto module are the record \<open>crypto\<close>; \<open>crypto_laws\<close> is what is
  documented of them. Random bytes and key pairs are arguments.
\<close>

section \<open>Primitives\<close>

type_synonym bytes = "nat list"

definition is_bytes :: "bytes \<Rightarrow> bool" where
  "is_bytes bs \<longleftrightarrow> list_all (\<lambda>b. b < 256) bs"

record crypto =
  c_sha256 :: "bytes \<Rightarrow> bytes"
  c_hmac :: "bytes \<Rightarrow> bytes \<Rightarrow> bytes" \<comment> \<open>key, data\<close>
  c_hkdf :: "bytes \<Rightarrow> bytes \<Rightarrow> bytes \<Rightarrow> bytes" \<comment> \<open>\<open>hkdfSync('sha256', ikm, salt, info, 32)\<close>\<close>
  c_seal :: "bytes \<Rightarrow> bytes \<Rightarrow> bytes \<Rightarrow> bytes \<Rightarrow> bytes \<times> bytes" \<comment> \<open>AES-256-GCM: key, iv, additional data, text to ciphertext, tag\<close>
  c_open :: "bytes \<Rightarrow> bytes \<Rightarrow> bytes \<Rightarrow> bytes \<Rightarrow> bytes \<Rightarrow> bytes option" \<comment> \<open>key, iv, additional data, tag, ciphertext; \<open>None\<close> when it throws\<close>
  c_public :: "bytes \<Rightarrow> bytes" \<comment> \<open>the public key of a private one on P-256\<close>
  c_dh :: "bytes \<Rightarrow> bytes \<Rightarrow> bytes option" \<comment> \<open>\<open>computeSecret\<close>: private key, public key\<close>
  c_text :: "bytes \<Rightarrow> string" \<comment> \<open>\<open>toString('utf8')\<close>\<close>

text \<open>What is sealed can be opened, the two sides of an exchange get the same secret, and outputs are bytes.\<close>

definition crypto_laws :: "crypto \<Rightarrow> bool" where
  "crypto_laws c \<longleftrightarrow>
     (\<forall>k iv ad t. c_open c k iv ad (snd (c_seal c k iv ad t)) (fst (c_seal c k iv ad t)) = Some t)
     \<and> (\<forall>k iv ad t. length (snd (c_seal c k iv ad t)) = 16)
     \<and> (\<forall>k iv ad t. is_bytes t \<longrightarrow> is_bytes (fst (c_seal c k iv ad t)) \<and> is_bytes (snd (c_seal c k iv ad t)))
     \<and> (\<forall>a b. c_dh c a (c_public c b) = c_dh c b (c_public c a))
     \<and> (\<forall>a. is_bytes (c_public c a)) \<and> (\<forall>x. is_bytes (c_sha256 c x)) \<and> (\<forall>k x. is_bytes (c_hmac c k x) \<and> length (c_hmac c k x) = 32)
     \<and> (\<forall>s. c_text c (utf8 s) = s)"

lemma utf8_bytes [simp]: "is_bytes (utf8 s)"
proof -
  have "is_bytes (utf8_char ch)" for ch
  proof -
    have "(of_char ch :: nat) < 256" by (metis of_char_mod_256 mod_less_divisor zero_less_numeral)
    then have "of_char ch div 64 < (64 :: nat)" by (intro less_mult_imp_div_less) linarith
    moreover have "of_char ch mod 64 < (128 :: nat)" by (rule less_trans [of _ 64]) simp_all
    ultimately show ?thesis by (simp add: is_bytes_def utf8_char_def Let_def)
  qed
  then show ?thesis by (induction s) (auto simp: utf8_def is_bytes_def)
qed

section \<open>Base64url\<close>

definition b64_char :: "nat \<Rightarrow> char" where
  "b64_char n =
     (if n < 26 then char_of (65 + n) else if n < 52 then char_of (71 + n) else if n < 62 then char_of (n - 4)
      else if n = 62 then CHR ''-'' else CHR ''_'')"

definition b64_value :: "char \<Rightarrow> nat option" where
  "b64_value ch =
     (let n = of_char ch :: nat
      in if 65 \<le> n \<and> n \<le> 90 then Some (n - 65) else if 97 \<le> n \<and> n \<le> 122 then Some (n - 71)
         else if 48 \<le> n \<and> n \<le> 57 then Some (n + 4)
         else if ch = CHR ''-'' \<or> ch = CHR ''+'' then Some 62 else if ch = CHR ''_'' \<or> ch = CHR ''/'' then Some 63 else None)"

fun sextets :: "bytes \<Rightarrow> nat list" where
  "sextets [] = []"
| "sextets [a] = [a div 4, a mod 4 * 16]"
| "sextets [a, b] = [a div 4, a mod 4 * 16 + b div 16, b mod 16 * 4]"
| "sextets (a # b # c # bs) = [a div 4, a mod 4 * 16 + b div 16, b mod 16 * 4 + c div 64, c mod 64] @ sextets bs"

definition toBase64Url :: "bytes \<Rightarrow> string" where
  "toBase64Url bs = map b64_char (sextets bs)"

fun octets :: "nat list \<Rightarrow> bytes" where
  "octets (x # y # z # w # vs) = [x * 4 + y div 16, y mod 16 * 16 + z div 4, z mod 4 * 64 + w] @ octets vs"
| "octets [x, y, z] = [x * 4 + y div 16, y mod 16 * 16 + z div 4]"
| "octets [x, y] = [x * 4 + y div 16]"
| "octets _ = []"

text \<open>Node skips the characters that do not belong to the alphabet.\<close>

definition fromBase64Url :: "string \<Rightarrow> bytes" where
  "fromBase64Url s = octets (List.map_filter b64_value s)"

lemma b64_value_char: "n < 64 \<Longrightarrow> b64_value (b64_char n) = Some n"
  by (auto simp: b64_value_def b64_char_def Let_def)

lemma sextets_small: "is_bytes bs \<Longrightarrow> n \<in> set (sextets bs) \<Longrightarrow> n < 64"
  by (induction bs rule: sextets.induct) (auto simp: is_bytes_def)

lemma two_digits: "y < m \<Longrightarrow> (x * m + y) div m = x" "y < m \<Longrightarrow> (x * m + y) mod m = y" for x y m :: nat
  by simp_all

lemma sextet_parts:
  "b < 256 \<Longrightarrow> (a mod 4 * 16 + b div 16) div 16 = a mod 4" "b < 256 \<Longrightarrow> (a mod 4 * 16 + b div 16) mod 16 = b div 16"
  "c < 256 \<Longrightarrow> (b mod 16 * 4 + c div 64) div 4 = b mod 16" "c < 256 \<Longrightarrow> (b mod 16 * 4 + c div 64) mod 4 = c div 64" for a b c :: nat
  by (rule two_digits, simp)+

lemma octets_sextets: "is_bytes bs \<Longrightarrow> octets (sextets bs) = bs"
proof (induction bs rule: sextets.induct)
  case (3 a b)
  then have "b div 16 < 16" by (simp add: is_bytes_def div_less_iff_less_mult)
  with 3 show ?case by (simp add: is_bytes_def sextet_parts)
next
  case (4 a b c bs)
  then have "b div 16 < 16" "c div 64 < 4" by (simp_all add: is_bytes_def div_less_iff_less_mult)
  with 4 show ?case by (simp add: is_bytes_def sextet_parts)
qed (simp_all add: is_bytes_def sextet_parts)

lemma base64_roundtrip [simp]: "is_bytes bs \<Longrightarrow> fromBase64Url (toBase64Url bs) = bs"
proof -
  assume b: "is_bytes bs"
  have "List.map_filter b64_value (map b64_char ns) = ns" if "\<forall>n \<in> set ns. n < 64" for ns
    using that by (induction ns) (simp_all add: List.map_filter_simps b64_value_char)
  then show ?thesis using sextets_small [OF b] octets_sextets [OF b] by (simp add: fromBase64Url_def toBase64Url_def)
qed

definition normalizeP256PrivateKey :: "bytes \<Rightarrow> bytes option" where
  "normalizeP256PrivateKey raw =
     (if length raw = 0 \<or> length raw > 32 then None else Some (replicate (32 - length raw) 0 @ raw))"

section \<open>Profiles and envelopes\<close>

datatype profile = Noise_ik | Noise_ikpsk2

definition profile_name :: "profile \<Rightarrow> string" where
  "profile_name p = (case p of Noise_ik \<Rightarrow> ''noise-ik'' | Noise_ikpsk2 \<Rightarrow> ''noise-ikpsk2'')"

definition parseRelayHandshakeProfile :: "json option \<Rightarrow> profile option" where
  "parseRelayHandshakeProfile v =
     (if eq_str v ''noise-ik'' then Some Noise_ik else if eq_str v ''noise-ikpsk2'' then Some Noise_ikpsk2 else None)"

definition profileStrength :: "profile \<Rightarrow> nat" where
  "profileStrength p = (if p = Noise_ikpsk2 then 2 else 1)"

definition isCompatibleProfile :: "profile \<Rightarrow> profile \<Rightarrow> bool" where
  "isCompatibleProfile required requested \<longleftrightarrow> profileStrength requested \<ge> profileStrength required"

record envelope =
  en_profile :: profile
  en_sessionId :: string
  en_epoch :: int
  en_seq :: int
  en_iv :: string
  en_tag :: string
  en_ciphertext :: string

definition toEnvelopeAad :: "profile \<Rightarrow> string \<Rightarrow> int \<Rightarrow> int \<Rightarrow> bytes" where
  "toEnvelopeAad p sessionId epoch seq =
     utf8 (''viewport-relay-envelope-v2|'' @ profile_name p @ ''|'' @ sessionId @ ''|'' @ int_string epoch @ ''|'' @ int_string seq)"

text \<open>\<open>None\<close> is the exception of \<open>parseRelayEnvelope\<close>.\<close>

definition envelope_of :: "json \<Rightarrow> envelope option" where
  "envelope_of v =
     (case v of
        JObj m \<Rightarrow>
          (case (parseRelayHandshakeProfile (field m ''profile''), as_str (field m ''sessionId''), as_int (field m ''epoch''),
                 as_int (field m ''seq''), as_str (field m ''iv''), as_str (field m ''tag''), as_str (field m ''ciphertext'')) of
             (Some p, Some i, Some epoch, Some seq, Some iv, Some tag, Some ct) \<Rightarrow>
               if eq_str (field m ''type'') ''e2ee'' \<and> as_int (field m ''version'') = Some 2 \<and> trim i \<noteq> [] \<and> epoch \<ge> 1 \<and> seq \<ge> 1
               then Some \<lparr>en_profile = p, en_sessionId = i, en_epoch = epoch, en_seq = seq, en_iv = iv, en_tag = tag,
                 en_ciphertext = ct\<rparr>
               else None
           | _ \<Rightarrow> None)
      | _ \<Rightarrow> None)"

definition parseRelayEnvelope :: "string \<Rightarrow> envelope option" where
  "parseRelayEnvelope raw = Option.bind (JSON_parse raw) envelope_of"

definition envelope_json :: "envelope \<Rightarrow> json" where
  "envelope_json e = JObj
     [(''type'', JStr ''e2ee''), (''version'', JNum 2), (''profile'', JStr (profile_name (en_profile e))),
      (''sessionId'', JStr (en_sessionId e)), (''epoch'', JNum (of_int (en_epoch e))), (''seq'', JNum (of_int (en_seq e))),
      (''iv'', JStr (en_iv e)), (''tag'', JStr (en_tag e)), (''ciphertext'', JStr (en_ciphertext e))]"

definition encryptEnvelope :: "crypto \<Rightarrow> bytes \<Rightarrow> bytes \<Rightarrow> string \<Rightarrow> profile \<Rightarrow> string \<Rightarrow> int \<Rightarrow> int \<Rightarrow> string" where
  "encryptEnvelope c iv key plaintext p sessionId epoch seq =
     (let (ct, tag) = c_seal c key iv (toEnvelopeAad p sessionId epoch seq) (utf8 plaintext)
      in JSON_stringify (envelope_json
           \<lparr>en_profile = p, en_sessionId = sessionId, en_epoch = epoch, en_seq = seq, en_iv = toBase64Url iv,
            en_tag = toBase64Url tag, en_ciphertext = toBase64Url ct\<rparr>))"

definition decryptEnvelope :: "crypto \<Rightarrow> bytes \<Rightarrow> envelope \<Rightarrow> string option" where
  "decryptEnvelope c key e =
     map_option (c_text c)
       (c_open c key (fromBase64Url (en_iv e)) (toEnvelopeAad (en_profile e) (en_sessionId e) (en_epoch e) (en_seq e))
          (fromBase64Url (en_tag e)) (fromBase64Url (en_ciphertext e)))"

lemma as_int_of_int [simp]: "as_int (Some (JNum (of_int i))) = Some i"
  by (simp add: as_int_def)

lemma envelope_json_roundtrip:
  assumes "trim (en_sessionId e) \<noteq> []" and "en_epoch e \<ge> 1" and "en_seq e \<ge> 1"
  shows "parseRelayEnvelope (JSON_stringify (envelope_json e)) = Some e"
proof -
  have two: "as_int (Some (JNum 2)) = Some 2" using as_int_of_int [of 2] by simp
  have "exact (envelope_json e)" by (simp add: envelope_json_def)
  from JSON_roundtrip [OF this] show ?thesis
    using assms two
    by (cases "en_profile e")
       (simp_all add: parseRelayEnvelope_def envelope_of_def envelope_json_def field_def parseRelayHandshakeProfile_def eq_str_def
         profile_name_def as_str_def)
qed

lemma envelope_roundtrip:
  assumes "crypto_laws c" and "is_bytes iv" and "trim sessionId \<noteq> []" and "epoch \<ge> 1" and "seq \<ge> 1"
  shows "\<exists>e. parseRelayEnvelope (encryptEnvelope c iv key plaintext p sessionId epoch seq) = Some e
    \<and> en_profile e = p \<and> en_sessionId e = sessionId \<and> en_epoch e = epoch \<and> en_seq e = seq \<and> decryptEnvelope c key e = Some plaintext"
proof -
  obtain ct tag where s: "c_seal c key iv (toEnvelopeAad p sessionId epoch seq) (utf8 plaintext) = (ct, tag)" by force
  have b: "is_bytes ct" "is_bytes tag" using assms(1) s unfolding crypto_laws_def by (metis fst_conv snd_conv utf8_bytes)+
  have o: "c_open c key iv (toEnvelopeAad p sessionId epoch seq) tag ct = Some (utf8 plaintext)"
    using assms(1) s unfolding crypto_laws_def by (metis fst_conv snd_conv)
  have "c_text c (utf8 plaintext) = plaintext" using assms(1) by (simp add: crypto_laws_def)
  then show ?thesis using assms(2-) b o s
    by (simp add: encryptEnvelope_def envelope_json_roundtrip decryptEnvelope_def)
qed

section \<open>The laws can hold\<close>

text \<open>Primitives that keep the laws, for the witnesses: not secret at all, but with the functional behaviour that is relied on.\<close>

definition fold_bytes :: "bytes \<Rightarrow> bytes" where
  "fold_bytes bs = replicate 16 (sum_list bs mod 256)"

fun latin_text :: "bytes \<Rightarrow> string" where
  "latin_text (a # b # bs) = (if a < 128 then char_of a # latin_text (b # bs) else char_of ((a - 192) * 64 + (b - 128)) # latin_text bs)"
| "latin_text [a] = [char_of a]"
| "latin_text [] = []"

definition open_crypto :: crypto where
  "open_crypto =
     \<lparr>c_sha256 = (\<lambda>x. fold_bytes x @ fold_bytes x), c_hmac = (\<lambda>k x. fold_bytes (k @ x) @ fold_bytes x),
      c_hkdf = (\<lambda>ikm salt info. fold_bytes (ikm @ salt) @ fold_bytes info),
      c_seal = (\<lambda>k iv ad t. (t, fold_bytes (k @ iv @ ad @ t))),
      c_open = (\<lambda>k iv ad tag ct. if tag = fold_bytes (k @ iv @ ad @ ct) then Some ct else None),
      c_public = (\<lambda>a. 4 # map (\<lambda>b. b mod 256) (padded 64 a)),
      c_dh = (\<lambda>a p. Some (map2 (\<lambda>x y. (x + y) mod 256) (padded 64 a) (tl p))), c_text = latin_text\<rparr>"

lemma fold_bytes_bytes [simp]: "is_bytes (fold_bytes bs)" "length (fold_bytes bs) = 16"
  by (simp_all add: fold_bytes_def is_bytes_def list_all_iff)

lemma latin_text_char: "latin_text (utf8_char ch @ bs) = ch # latin_text bs"
proof (cases "of_char ch < (128 :: nat)")
  case True
  then show ?thesis by (cases bs) (simp_all add: utf8_char_def Let_def)
next
  case False
  have "of_char ch div 64 * 64 + of_char ch mod (64 :: nat) = of_char ch" by simp
  with False show ?thesis by (simp add: utf8_char_def Let_def)
qed

lemma latin_text_utf8: "latin_text (utf8 s) = s"
  by (induction s) (simp_all add: utf8_def latin_text_char)

lemma open_crypto_dh:
  "map2 (\<lambda>x y. (x + y) mod 256) as (map (\<lambda>b. b mod 256) bs) = map2 (\<lambda>x y. (x + y) mod 256) bs (map (\<lambda>b. b mod 256) as)"
  for as bs :: bytes
  by (rule nth_equalityI) (simp_all add: min.commute mod_add_right_eq mod_add_left_eq add.commute)

lemma is_bytes_simps [simp]:
  "is_bytes (a @ b) \<longleftrightarrow> is_bytes a \<and> is_bytes b" "is_bytes (map (\<lambda>b. b mod 256) a)" "is_bytes (n # a) \<longleftrightarrow> n < 256 \<and> is_bytes a"
  by (auto simp: is_bytes_def list_all_iff)

lemma open_crypto_laws: "crypto_laws open_crypto"
  by (simp add: crypto_laws_def open_crypto_def latin_text_utf8 open_crypto_dh)

end
