(* ===== verification/Bridge_Noise.thy ===== *)
theory Bridge_Noise
  imports Bridge_Crypto
begin

text \<open>
  The key exchange of the relay bridge in version 3, Noise IK and IKpsk2 on P-256 (\<open>relay/bridge-noise-v3.ts\<close>): frames,
  the symmetric state, both sides of the handshake.

  An exception is \<open>Inl\<close> with its message; for exceptions of the platform the message is \<open>platform_error\<close>. Key pairs,
  nonces and ids that the code draws at random, or takes as overrides in tests, are arguments.
\<close>

section \<open>Results\<close>

definition and_then :: "'e + 'a \<Rightarrow> ('a \<Rightarrow> 'e + 'b) \<Rightarrow> 'e + 'b" where
  "and_then x f = (case x of Inl e \<Rightarrow> Inl e | Inr v \<Rightarrow> f v)"

lemma and_then_simps [simp]: "and_then (Inl e) f = Inl e" "and_then (Inr v) f = f v"
  by (simp_all add: and_then_def)

lemma and_then_Inr: "and_then x f = Inr y \<longleftrightarrow> (\<exists>v. x = Inr v \<and> f v = Inr y)"
  by (cases x) auto

definition check :: "bool \<Rightarrow> 'e \<Rightarrow> 'e + unit" where
  "check b message = (if b then Inr () else Inl message)"

lemma check_Inr [simp]: "check b message = Inr u \<longleftrightarrow> b"
  by (simp add: check_def)

definition platform_error :: string where
  "platform_error = ''platform error''"

definition or_throw :: "'a option \<Rightarrow> 'e \<Rightarrow> 'e + 'a" where
  "or_throw v message = (case v of Some x \<Rightarrow> Inr x | None \<Rightarrow> Inl message)"

lemma or_throw_Inr [simp]: "or_throw v message = Inr x \<longleftrightarrow> v = Some x"
  by (cases v) (auto simp: or_throw_def)

section \<open>Frames\<close>

record relay_identity =
  di_publicKey :: string
  di_privateKey :: string

record init_v3 =
  i3_profile :: profile
  i3_requestId :: string
  i3_clientEphemeralPublicKey :: string
  i3_encryptedClientStatic :: string
  i3_pairingPeerId :: "string option"
  i3_previousSessionId :: "string option"

record response_v3 =
  r3_profile :: profile
  r3_requestId :: string
  r3_daemonPublicKey :: string
  r3_daemonEphemeralPublicKey :: string
  r3_encryptedMetadata :: string
  r3_sessionId :: string
  r3_epoch :: int
  r3_proof :: string

record derived_session =
  ds_key :: bytes
  ds_profile :: profile
  ds_sessionId :: string
  ds_epoch :: int

text \<open>The frames of a handshake need the peer where the profile is with a shared secret.\<close>

definition peer_missing :: "profile \<Rightarrow> string option \<Rightarrow> bool" where
  "peer_missing p peer \<longleftrightarrow> p = Noise_ikpsk2 \<and> (case peer of Some s \<Rightarrow> trim s = [] | None \<Rightarrow> True)"

definition parseRelayKeyExchangeInitFrameV3 :: "json \<Rightarrow> init_v3 option" where
  "parseRelayKeyExchangeInitFrameV3 v =
     (case v of
        JObj m \<Rightarrow>
          (case (parseRelayHandshakeProfile (field m ''profile''), as_str (field m ''requestId''),
                 as_str (field m ''clientEphemeralPublicKey''), as_str (field m ''encryptedClientStatic'')) of
             (Some p, Some requestId, Some eph, Some static) \<Rightarrow>
               if eq_str (field m ''type'') ''relay_key_exchange_init'' \<and> as_int (field m ''version'') = Some 3
                  \<and> \<not> peer_missing p (as_str (field m ''pairingPeerId''))
               then Some \<lparr>i3_profile = p, i3_requestId = requestId, i3_clientEphemeralPublicKey = eph,
                 i3_encryptedClientStatic = static, i3_pairingPeerId = as_str (field m ''pairingPeerId''),
                 i3_previousSessionId = as_str (field m ''previousSessionId'')\<rparr>
               else None
           | _ \<Rightarrow> None)
      | _ \<Rightarrow> None)"

definition isRelayKeyExchangeResponseFrameV3 :: "json \<Rightarrow> bool" where
  "isRelayKeyExchangeResponseFrameV3 v =
     (case v of
        JObj m \<Rightarrow>
          eq_str (field m ''type'') ''relay_key_exchange_response'' \<and> as_int (field m ''version'') = Some 3
          \<and> parseRelayHandshakeProfile (field m ''profile'') \<noteq> None
          \<and> list_all (\<lambda>k. is_str (field m k))
              [''requestId'', ''daemonPublicKey'', ''daemonEphemeralPublicKey'', ''encryptedMetadata'', ''sessionId'', ''proof'']
          \<and> is_int_from 1 (field m ''epoch'')
      | _ \<Rightarrow> False)"

section \<open>The symmetric state of Noise\<close>

record noise =
  nz_ck :: bytes
  nz_h :: bytes
  nz_k :: "bytes option"
  nz_nonce :: nat

definition protocolNameFor :: "profile \<Rightarrow> string" where
  "protocolNameFor p = (if p = Noise_ikpsk2 then ''Noise_IKpsk2_P256_AESGCM_SHA256'' else ''Noise_IK_P256_AESGCM_SHA256'')"

definition hkdf_two :: "crypto \<Rightarrow> bytes \<Rightarrow> bytes \<Rightarrow> bytes \<times> bytes" where
  "hkdf_two c chainingKey ikm =
     (let temp = c_hmac c chainingKey ikm; out1 = c_hmac c temp [1]; out2 = c_hmac c temp (out1 @ [2]) in (out1, out2))"

definition hkdf_three :: "crypto \<Rightarrow> bytes \<Rightarrow> bytes \<Rightarrow> bytes \<times> bytes \<times> bytes" where
  "hkdf_three c chainingKey ikm =
     (let temp = c_hmac c chainingKey ikm; out1 = c_hmac c temp [1]; out2 = c_hmac c temp (out1 @ [2]);
          out3 = c_hmac c temp (out2 @ [3]) in (out1, out2, out3))"

definition initializeSymmetric :: "crypto \<Rightarrow> profile \<Rightarrow> noise" where
  "initializeSymmetric c p =
     (let name = utf8 (protocolNameFor p);
          h = (if length name \<le> 32 then name @ replicate (32 - length name) 0 else c_sha256 c name)
      in \<lparr>nz_ck = h, nz_h = h, nz_k = None, nz_nonce = 0\<rparr>)"

definition mixHash :: "crypto \<Rightarrow> bytes \<Rightarrow> noise \<Rightarrow> noise" where
  "mixHash c data st = st\<lparr>nz_h := c_sha256 c (nz_h st @ data)\<rparr>"

definition mixKey :: "crypto \<Rightarrow> bytes \<Rightarrow> noise \<Rightarrow> noise" where
  "mixKey c ikm st = (let (ck, key) = hkdf_two c (nz_ck st) ikm in st\<lparr>nz_ck := ck, nz_k := Some key, nz_nonce := 0\<rparr>)"

definition mixKeyAndHash :: "crypto \<Rightarrow> bytes \<Rightarrow> noise \<Rightarrow> noise" where
  "mixKeyAndHash c ikm st =
     (let (ck, temp, key) = hkdf_three c (nz_ck st) ikm in (mixHash c temp (st\<lparr>nz_ck := ck\<rparr>))\<lparr>nz_k := Some key, nz_nonce := 0\<rparr>)"

text \<open>Four zero bytes and the counter, its low byte first.\<close>

fun little_endian :: "nat \<Rightarrow> nat \<Rightarrow> bytes" where
  "little_endian 0 n = []"
| "little_endian (Suc k) n = n mod 256 # little_endian k (n div 256)"

definition nonceToIv :: "nat \<Rightarrow> string + bytes" where
  "nonceToIv nonce = and_then (check (nonce < 2 ^ 64) ''noise nonce out of range'') (\<lambda>_. Inr ([0, 0, 0, 0] @ little_endian 8 nonce))"

definition encryptWithAd :: "crypto \<Rightarrow> bytes \<Rightarrow> nat \<Rightarrow> bytes \<Rightarrow> bytes \<Rightarrow> string + bytes" where
  "encryptWithAd c key nonce ad plaintext =
     and_then (nonceToIv nonce) (\<lambda>iv. let (body, tag) = c_seal c key iv ad plaintext in Inr (body @ tag))"

definition decryptWithAd :: "crypto \<Rightarrow> bytes \<Rightarrow> nat \<Rightarrow> bytes \<Rightarrow> bytes \<Rightarrow> string + bytes" where
  "decryptWithAd c key nonce ad ciphertext =
     and_then (check (16 \<le> length ciphertext) ''noise ciphertext too short'') (\<lambda>_.
     and_then (nonceToIv nonce) (\<lambda>iv.
       let n = length ciphertext - 16
       in or_throw (c_open c key iv ad (drop n ciphertext) (take n ciphertext)) platform_error))"

definition encryptAndHash :: "crypto \<Rightarrow> bytes \<Rightarrow> noise \<Rightarrow> string + bytes \<times> noise" where
  "encryptAndHash c plaintext st =
     (case nz_k st of
        None \<Rightarrow> Inr (plaintext, mixHash c plaintext st)
      | Some k \<Rightarrow>
          and_then (encryptWithAd c k (nz_nonce st) (nz_h st) plaintext) (\<lambda>ciphertext.
            Inr (ciphertext, (mixHash c ciphertext st)\<lparr>nz_nonce := nz_nonce st + 1\<rparr>)))"

definition decryptAndHash :: "crypto \<Rightarrow> bytes \<Rightarrow> noise \<Rightarrow> string + bytes \<times> noise" where
  "decryptAndHash c ciphertext st =
     (case nz_k st of
        None \<Rightarrow> Inr (ciphertext, mixHash c ciphertext st)
      | Some k \<Rightarrow>
          and_then (decryptWithAd c k (nz_nonce st) (nz_h st) ciphertext) (\<lambda>plaintext.
            Inr (plaintext, (mixHash c ciphertext st)\<lparr>nz_nonce := nz_nonce st + 1\<rparr>)))"

definition split_keys :: "crypto \<Rightarrow> noise \<Rightarrow> bytes \<times> bytes" where
  "split_keys c st = hkdf_two c (nz_ck st) []"

text \<open>The session key at the end, for both sides.\<close>

definition deriveSessionKey :: "crypto \<Rightarrow> noise \<Rightarrow> profile \<Rightarrow> string \<Rightarrow> int \<Rightarrow> bytes" where
  "deriveSessionKey c st p sessionId epoch =
     (let (k1, k2) = split_keys c st
      in c_hkdf c (k1 @ k2) (nz_h st)
           (utf8 (''viewport-relay-session-v3|'' @ profile_name p @ ''|'' @ sessionId @ ''|'' @ int_string epoch)))"

definition timingSafeEqualBase64Url :: "string \<Rightarrow> string \<Rightarrow> bool" where
  "timingSafeEqualBase64Url left right =
     (let l = fromBase64Url left; r = fromBase64Url right; n = max (max (length l) (length r)) 1
      in padded n l = padded n r \<and> length l = length r)"

definition validatePublicKey :: "bytes \<Rightarrow> string \<Rightarrow> string + unit" where
  "validatePublicKey raw label =
     check (length raw = 65 \<and> hd raw = 4) (''invalid '' @ label @ '' public key'')"

definition ecdhSecret :: "crypto \<Rightarrow> bytes \<Rightarrow> bytes \<Rightarrow> string + bytes" where
  "ecdhSecret c privateKey publicKey = or_throw (c_dh c privateKey publicKey) platform_error"

definition initializeHandshakeState :: "crypto \<Rightarrow> profile \<Rightarrow> bytes \<Rightarrow> noise" where
  "initializeHandshakeState c p daemonPublicKeyRaw =
     mixHash c daemonPublicKeyRaw (mixHash c (utf8 ''viewport-relay-noise-v3'') (initializeSymmetric c p))"

definition parseMetadata :: "crypto \<Rightarrow> bytes \<Rightarrow> string + string \<times> int" where
  "parseMetadata c value =
     and_then (or_throw (JSON_parse (c_text c value)) platform_error) (\<lambda>parsed.
       case parsed of
         JObj m \<Rightarrow>
           (case (as_str (field m ''sessionId''), as_int (field m ''epoch'')) of
              (Some sessionId, Some epoch) \<Rightarrow>
                if epoch \<ge> 1 then Inr (sessionId, epoch) else Inl ''invalid noise metadata payload''
            | _ \<Rightarrow> Inl ''invalid noise metadata payload'')
       | _ \<Rightarrow> Inl ''invalid noise metadata payload'')"

section \<open>The handshake of version 3\<close>

definition secret_of_length :: "bytes option \<Rightarrow> bool" where
  "secret_of_length s \<longleftrightarrow> (case s of Some b \<Rightarrow> length b = 32 | None \<Rightarrow> False)"

definition psk_mixed :: "crypto \<Rightarrow> profile \<Rightarrow> bytes option \<Rightarrow> noise \<Rightarrow> noise" where
  "psk_mixed c p s st = (case s of Some b \<Rightarrow> if p = Noise_ikpsk2 then mixKeyAndHash c b st else st | None \<Rightarrow> st)"

record init_state =
  is_profile :: profile
  is_requestId :: string
  is_daemonPublicKey :: string
  is_static :: bytes
  is_ephemeral :: bytes
  is_noise :: noise

text \<open>The client's first message. \<open>static\<close> and \<open>ephemeral\<close> are private keys.\<close>

definition createNoiseV3Init ::
    "crypto \<Rightarrow> profile \<Rightarrow> string \<Rightarrow> string option \<Rightarrow> string \<Rightarrow> string option \<Rightarrow> bytes option \<Rightarrow> bytes \<Rightarrow> bytes
     \<Rightarrow> string + init_v3 \<times> init_state" where
  "createNoiseV3Init c p daemonPublicKey pairingPeerId requestId previousSessionId pairingSecret static ephemeral =
     (let daemonRaw = fromBase64Url daemonPublicKey in
      and_then (check (p = Noise_ikpsk2 \<longrightarrow> pairingSecret \<noteq> None) ''pairing secret required for noise-ikpsk2'') (\<lambda>_.
      and_then (validatePublicKey daemonRaw ''daemon'') (\<lambda>_.
      and_then (validatePublicKey (c_public c static) ''client static'') (\<lambda>_.
      and_then (validatePublicKey (c_public c ephemeral) ''client ephemeral'') (\<lambda>_.
      and_then (ecdhSecret c ephemeral daemonRaw) (\<lambda>es.
      let st1 = mixKey c es (mixHash c (c_public c ephemeral) (initializeHandshakeState c p daemonRaw)) in
      and_then (encryptAndHash c (c_public c static) st1) (\<lambda>(encryptedStatic, st2).
      and_then (ecdhSecret c static daemonRaw) (\<lambda>ss.
      let st3 = mixKey c ss st2 in
      and_then (check (p = Noise_ikpsk2 \<longrightarrow> secret_of_length pairingSecret) ''pairing secret must be 32 bytes'') (\<lambda>_.
      Inr (\<lparr>i3_profile = p, i3_requestId = requestId, i3_clientEphemeralPublicKey = toBase64Url (c_public c ephemeral),
            i3_encryptedClientStatic = toBase64Url encryptedStatic, i3_pairingPeerId = pairingPeerId,
            i3_previousSessionId = previousSessionId\<rparr>,
           \<lparr>is_profile = p, is_requestId = requestId, is_daemonPublicKey = daemonPublicKey, is_static = static,
            is_ephemeral = ephemeral, is_noise = st3\<rparr>))))))))))"

text \<open>The daemon's answer. \<open>ephemeral\<close> is its private key of this handshake.\<close>

definition deriveNoiseV3SessionFromInit ::
    "crypto \<Rightarrow> init_v3 \<Rightarrow> relay_identity \<Rightarrow> int \<Rightarrow> bytes option \<Rightarrow> bytes \<Rightarrow> string \<Rightarrow> string + derived_session \<times> response_v3" where
  "deriveNoiseV3SessionFromInit c init identity nextEpoch pairingSecret ephemeral sessionId =
     (let daemonRaw = fromBase64Url (di_publicKey identity); p = i3_profile init;
          clientEphemeral = fromBase64Url (i3_clientEphemeralPublicKey init);
          encryptedStatic = fromBase64Url (i3_encryptedClientStatic init); epoch = max 1 nextEpoch in
      and_then (validatePublicKey daemonRaw ''daemon static'') (\<lambda>_.
      and_then (or_throw (normalizeP256PrivateKey (fromBase64Url (di_privateKey identity))) ''invalid daemon private key'') (\<lambda>priv.
      and_then (check (p = Noise_ikpsk2 \<longrightarrow> secret_of_length pairingSecret) ''pairing secret required for noise-ikpsk2'') (\<lambda>_.
      and_then (validatePublicKey clientEphemeral ''client ephemeral'') (\<lambda>_.
      and_then (ecdhSecret c priv clientEphemeral) (\<lambda>es.
      let st1 = mixKey c es (mixHash c clientEphemeral (initializeHandshakeState c p daemonRaw)) in
      and_then (decryptAndHash c encryptedStatic st1) (\<lambda>(clientStatic, st2).
      and_then (validatePublicKey clientStatic ''client static'') (\<lambda>_.
      and_then (ecdhSecret c priv clientStatic) (\<lambda>ss.
      let st3 = mixKey c ss st2 in
      and_then (validatePublicKey (c_public c ephemeral) ''daemon ephemeral'') (\<lambda>_.
      and_then (ecdhSecret c ephemeral clientEphemeral) (\<lambda>ee.
      and_then (ecdhSecret c ephemeral clientStatic) (\<lambda>se.
      let st4 = psk_mixed c p pairingSecret (mixKey c se (mixKey c ee (mixHash c (c_public c ephemeral) st3)));
          metadata = utf8 (JSON_stringify (JObj [(''sessionId'', JStr sessionId), (''epoch'', JNum (of_int epoch))])) in
      and_then (encryptAndHash c metadata st4) (\<lambda>(encryptedMetadata, st5).
      Inr (\<lparr>ds_key = deriveSessionKey c st5 p sessionId epoch, ds_profile = p, ds_sessionId = sessionId, ds_epoch = epoch\<rparr>,
           \<lparr>r3_profile = p, r3_requestId = i3_requestId init, r3_daemonPublicKey = di_publicKey identity,
            r3_daemonEphemeralPublicKey = toBase64Url (c_public c ephemeral), r3_encryptedMetadata = toBase64Url encryptedMetadata,
            r3_sessionId = sessionId, r3_epoch = epoch, r3_proof = toBase64Url (nz_h st5)\<rparr>))))))))))))))"

text \<open>What the client makes of the answer.\<close>

definition finalizeNoiseV3Response :: "crypto \<Rightarrow> init_state \<Rightarrow> response_v3 \<Rightarrow> bytes option \<Rightarrow> string + derived_session" where
  "finalizeNoiseV3Response c ist response pairingSecret =
     (let daemonRaw = fromBase64Url (is_daemonPublicKey ist); p = is_profile ist;
          daemonEphemeral = fromBase64Url (r3_daemonEphemeralPublicKey response) in
      and_then (check (r3_requestId response = is_requestId ist) ''key exchange response requestId mismatch'') (\<lambda>_.
      and_then (check (r3_profile response = p) ''key exchange response profile mismatch'') (\<lambda>_.
      and_then (check (p = Noise_ikpsk2 \<longrightarrow> secret_of_length pairingSecret) ''pairing secret required for noise-ikpsk2'') (\<lambda>_.
      and_then (validatePublicKey daemonRaw ''daemon static'') (\<lambda>_.
      and_then (validatePublicKey daemonEphemeral ''daemon ephemeral'') (\<lambda>_.
      and_then (ecdhSecret c (is_ephemeral ist) daemonEphemeral) (\<lambda>ee.
      and_then (ecdhSecret c (is_static ist) daemonEphemeral) (\<lambda>se.
      let st4 = psk_mixed c p pairingSecret (mixKey c se (mixKey c ee (mixHash c daemonEphemeral (is_noise ist)))) in
      and_then (decryptAndHash c (fromBase64Url (r3_encryptedMetadata response)) st4) (\<lambda>(metadataRaw, st5).
      and_then (parseMetadata c metadataRaw) (\<lambda>(sessionId, epoch).
      and_then (check (sessionId = r3_sessionId response \<and> epoch = r3_epoch response) ''relay metadata mismatch'') (\<lambda>_.
      and_then (check (timingSafeEqualBase64Url (toBase64Url (nz_h st5)) (r3_proof response)) ''noise handshake proof mismatch'') (\<lambda>_.
      Inr \<lparr>ds_key = deriveSessionKey c st5 (r3_profile response) (r3_sessionId response) (r3_epoch response),
           ds_profile = r3_profile response, ds_sessionId = r3_sessionId response, ds_epoch = r3_epoch response\<rparr>))))))))))))"

section \<open>Both sides agree\<close>

lemma decrypt_encrypt:
  assumes "crypto_laws c" and "encryptAndHash c plaintext st = Inr (ct, st')"
  shows "decryptAndHash c ct st = Inr (plaintext, st')" and "is_bytes plaintext \<Longrightarrow> is_bytes ct"
proof -
  have "decryptAndHash c ct st = Inr (plaintext, st') \<and> (is_bytes plaintext \<longrightarrow> is_bytes ct)"
  proof (cases "nz_k st")
    case (Some k)
    obtain iv where iv: "nonceToIv (nz_nonce st) = Inr iv"
      using assms(2) by (auto simp: encryptAndHash_def Some encryptWithAd_def and_then_Inr)
    obtain body tag where b: "c_seal c k iv (nz_h st) plaintext = (body, tag)" by force
    have laws: "c_open c k iv (nz_h st) tag body = Some plaintext" "length tag = 16" "is_bytes plaintext \<longrightarrow> is_bytes body \<and> is_bytes tag"
      using assms(1) b unfolding crypto_laws_def by (metis fst_conv snd_conv)+
    have ct: "ct = body @ tag" and st': "st' = (mixHash c ct st)\<lparr>nz_nonce := nz_nonce st + 1\<rparr>"
      using assms(2) iv b by (auto simp: encryptAndHash_def Some encryptWithAd_def)
    show ?thesis
      using laws iv by (simp add: decryptAndHash_def Some decryptWithAd_def ct st' check_def or_throw_def Let_def is_bytes_def)
  qed (use assms(2) in \<open>auto simp: encryptAndHash_def decryptAndHash_def\<close>)
  then show "decryptAndHash c ct st = Inr (plaintext, st')" "is_bytes plaintext \<Longrightarrow> is_bytes ct" by simp_all
qed

lemma metadata_read:
  assumes "crypto_laws c" and "epoch \<ge> 1"
  shows "parseMetadata c (utf8 (JSON_stringify (JObj [(''sessionId'', JStr sessionId), (''epoch'', JNum (of_int epoch))]))) = Inr (sessionId, epoch)"
proof -
  have "c_text c (utf8 s) = s" for s using assms(1) by (simp add: crypto_laws_def)
  then show ?thesis
    using JSON_roundtrip [of "JObj [(''sessionId'', JStr sessionId), (''epoch'', JNum (of_int epoch))]"] assms(2)
    by (simp add: parseMetadata_def or_throw_def field_def as_str_def)
qed

text \<open>C11: the two sides of the key exchange agree. When a client's first message reaches the daemon as it was sent, and the daemon
  accepts it and its answer reaches the client as it was sent, the client accepts the answer and ends with the very
  session of the daemon: key, profile, id and epoch.\<close>

theorem handshake_agreement:
  assumes laws: "crypto_laws c"
    and identity: "normalizeP256PrivateKey (fromBase64Url (di_privateKey identity)) = Some priv"
      "di_publicKey identity = toBase64Url (c_public c priv)"
    and client: "createNoiseV3Init c p (di_publicKey identity) peer requestId previous secret static ephemeral = Inr (init, ist)"
    and daemon: "deriveNoiseV3SessionFromInit c init identity nextEpoch secret daemonEphemeral sessionId = Inr (session, response)"
  shows "finalizeNoiseV3Response c ist response secret = Inr session"
proof -
  have pub [simp]: "fromBase64Url (toBase64Url (c_public c a)) = c_public c a" for a using laws by (simp add: crypto_laws_def)
  have dh: "c_dh c a (c_public c b) = c_dh c b (c_public c a)" for a b using laws by (simp add: crypto_laws_def)
  from client obtain es ss encryptedStatic st2 where
    c: "validatePublicKey (c_public c priv) ''daemon'' = Inr ()" "c_dh c ephemeral (c_public c priv) = Some es"
      "encryptAndHash c (c_public c static) (mixKey c es (mixHash c (c_public c ephemeral) (initializeHandshakeState c p (c_public c priv))))
        = Inr (encryptedStatic, st2)"
      "c_dh c static (c_public c priv) = Some ss" "p = Noise_ikpsk2 \<longrightarrow> secret_of_length secret"
    and init: "init = \<lparr>i3_profile = p, i3_requestId = requestId, i3_clientEphemeralPublicKey = toBase64Url (c_public c ephemeral),
        i3_encryptedClientStatic = toBase64Url encryptedStatic, i3_pairingPeerId = peer, i3_previousSessionId = previous\<rparr>"
    and ist: "ist = \<lparr>is_profile = p, is_requestId = requestId, is_daemonPublicKey = di_publicKey identity, is_static = static,
        is_ephemeral = ephemeral, is_noise = mixKey c ss st2\<rparr>"
    by (auto simp: createNoiseV3Init_def Let_def and_then_Inr identity(2) ecdhSecret_def)
  have enc: "fromBase64Url (toBase64Url encryptedStatic) = encryptedStatic"
    using decrypt_encrypt(2) [OF laws c(3)] laws by (simp add: crypto_laws_def)
  note dec = decrypt_encrypt(1) [OF laws c(3)]
  let ?epoch = "max 1 nextEpoch"
  let ?metadata = "utf8 (JSON_stringify (JObj [(''sessionId'', JStr sessionId), (''epoch'', JNum (of_int ?epoch))]))"
  from daemon obtain ee se encryptedMetadata st5 where
    d: "validatePublicKey (c_public c daemonEphemeral) ''daemon ephemeral'' = Inr ()"
      "c_dh c daemonEphemeral (c_public c ephemeral) = Some ee" "c_dh c daemonEphemeral (c_public c static) = Some se"
      "encryptAndHash c ?metadata (psk_mixed c p secret (mixKey c se (mixKey c ee (mixHash c (c_public c daemonEphemeral) (mixKey c ss st2)))))
        = Inr (encryptedMetadata, st5)"
    and session: "session = \<lparr>ds_key = deriveSessionKey c st5 p sessionId ?epoch, ds_profile = p, ds_sessionId = sessionId, ds_epoch = ?epoch\<rparr>"
    and response: "response = \<lparr>r3_profile = p, r3_requestId = requestId, r3_daemonPublicKey = di_publicKey identity,
        r3_daemonEphemeralPublicKey = toBase64Url (c_public c daemonEphemeral), r3_encryptedMetadata = toBase64Url encryptedMetadata,
        r3_sessionId = sessionId, r3_epoch = ?epoch, r3_proof = toBase64Url (nz_h st5)\<rparr>"
    using c(2,4) dh [of priv ephemeral] dh [of priv static]
    by (auto simp: deriveNoiseV3SessionFromInit_def Let_def and_then_Inr init identity ecdhSecret_def enc dec)
  have "fromBase64Url (toBase64Url encryptedMetadata) = encryptedMetadata" using decrypt_encrypt(2) [OF laws d(4)] by simp
  moreover have "validatePublicKey (c_public c priv) ''daemon static'' = Inr ()" using c(1) by (simp add: validatePublicKey_def check_def split: if_splits)
  ultimately show ?thesis
    using d c(5) dh [of ephemeral daemonEphemeral] dh [of static daemonEphemeral] decrypt_encrypt(1) [OF laws d(4)]
      metadata_read [OF laws, of ?epoch sessionId]
    by (simp add: finalizeNoiseV3Response_def ist response session identity(2) ecdhSecret_def check_def or_throw_def timingSafeEqualBase64Url_def Let_def)
qed

lemma open_crypto_steps:
  "validatePublicKey (c_public open_crypto a) label = Inr ()" "\<exists>s. c_dh open_crypto a b = Some s"
  "nz_k st \<noteq> None \<Longrightarrow> nz_nonce st = 0 \<Longrightarrow> \<exists>ct st'. encryptAndHash open_crypto plaintext st = Inr (ct, st')"
  by (auto simp: validatePublicKey_def open_crypto_def padded_def check_def encryptAndHash_def encryptWithAd_def nonceToIv_def)

lemma mixed_key: "nz_k (mixKey c ikm st) \<noteq> None" "nz_nonce (mixKey c ikm st) = 0"
  by (simp_all add: mixKey_def split_beta)

theorem handshake_agreement_witness:
  "\<exists>init ist session response.
     createNoiseV3Init open_crypto Noise_ik (toBase64Url (c_public open_crypto (replicate 32 7))) None ''q'' None None [2] [3] = Inr (init, ist)
     \<and> deriveNoiseV3SessionFromInit open_crypto init \<lparr>di_publicKey = toBase64Url (c_public open_crypto (replicate 32 7)),
         di_privateKey = toBase64Url (replicate 32 7)\<rparr> 1 None [5] ''rs_1'' = Inr (session, response)
     \<and> finalizeNoiseV3Response open_crypto ist response None = Inr session"
proof -
  let ?c = open_crypto and ?priv = "replicate 32 (7 :: nat)"
  let ?identity = "\<lparr>di_publicKey = toBase64Url (c_public ?c ?priv), di_privateKey = toBase64Url ?priv\<rparr>"
  have bytes [simp]: "is_bytes (c_public ?c a)" "is_bytes ?priv" for a
    using open_crypto_laws by (simp add: crypto_laws_def) (simp add: is_bytes_def list_all_iff)
  have priv: "normalizeP256PrivateKey ?priv = Some ?priv" by (simp add: normalizeP256PrivateKey_def)
  obtain es where es: "c_dh ?c [3] (c_public ?c ?priv) = Some es" using open_crypto_steps(2) by blast
  obtain ss where ss: "c_dh ?c [2] (c_public ?c ?priv) = Some ss" using open_crypto_steps(2) by blast
  have dh: "c_dh ?c ?priv (c_public ?c [3]) = Some es" "c_dh ?c ?priv (c_public ?c [2]) = Some ss"
    using open_crypto_laws es ss by (metis crypto_laws_def)+
  let ?st = "mixKey ?c es (mixHash ?c (c_public ?c [3]) (initializeHandshakeState ?c Noise_ik (c_public ?c ?priv)))"
  obtain ct st2 where ct: "encryptAndHash ?c (c_public ?c [2]) ?st = Inr (ct, st2)" using open_crypto_steps(3) [OF mixed_key] by blast
  note sent = decrypt_encrypt [OF open_crypto_laws ct]
  obtain init ist where client: "createNoiseV3Init ?c Noise_ik (di_publicKey ?identity) None ''q'' None None [2] [3] = Inr (init, ist)"
    and init: "init = \<lparr>i3_profile = Noise_ik, i3_requestId = ''q'', i3_clientEphemeralPublicKey = toBase64Url (c_public ?c [3]),
      i3_encryptedClientStatic = toBase64Url ct, i3_pairingPeerId = None, i3_previousSessionId = None\<rparr>"
    by (simp add: createNoiseV3Init_def Let_def open_crypto_steps(1) ecdhSecret_def or_throw_def es ss ct check_def)
  obtain ee where ee: "c_dh ?c [5] (c_public ?c [3]) = Some ee" using open_crypto_steps(2) by blast
  obtain se where se: "c_dh ?c [5] (c_public ?c [2]) = Some se" using open_crypto_steps(2) by blast
  let ?st' = "mixKey ?c se (mixKey ?c ee (mixHash ?c (c_public ?c [5]) (mixKey ?c ss st2)))"
  obtain md st5 where md: "encryptAndHash ?c (utf8 (JSON_stringify (JObj [(''sessionId'', JStr ''rs_1''), (''epoch'', JNum (of_int 1))]))) ?st'
      = Inr (md, st5)" using open_crypto_steps(3) [OF mixed_key] by blast
  obtain session response where daemon: "deriveNoiseV3SessionFromInit ?c init ?identity 1 None [5] ''rs_1'' = Inr (session, response)"
    using md sent by (simp add: deriveNoiseV3SessionFromInit_def Let_def init open_crypto_steps(1) ecdhSecret_def or_throw_def dh priv check_def
      ee se psk_mixed_def)
  have "finalizeNoiseV3Response ?c ist response None = Inr session"
    by (rule handshake_agreement [OF open_crypto_laws _ _ client daemon]) (simp_all add: priv)
  with client daemon show ?thesis by fastforce
qed

end
