(* ===== verification/Bridge_Keys.thy ===== *)
theory Bridge_Keys
  imports Bridge_Noise
begin

text \<open>
  The key exchange of the relay bridge in version 2 (\<open>relay/bridge-key-exchange.ts\<close>): its frames and the daemon's side. A client
  proves that it knows the shared secret before a session exists; the proof covers the session that it replaces, which
  version 3 leaves open.
\<close>

section \<open>Frames\<close>

record init_v2 =
  i2_profile :: profile
  i2_requestId :: string
  i2_clientPublicKey :: string
  i2_clientNonce :: string
  i2_clientProof :: string
  i2_pairingPeerId :: "string option"
  i2_previousSessionId :: "string option"

record response_v2 =
  r2_profile :: profile
  r2_requestId :: string
  r2_daemonPublicKey :: string
  r2_daemonNonce :: string
  r2_sessionId :: string
  r2_epoch :: int
  r2_proof :: string

definition parseRelayKeyExchangeInitFrame :: "json \<Rightarrow> init_v2 option" where
  "parseRelayKeyExchangeInitFrame v =
     (case v of
        JObj m \<Rightarrow>
          (case (parseRelayHandshakeProfile (field m ''profile''), as_str (field m ''requestId''), as_str (field m ''clientPublicKey''),
                 as_str (field m ''clientNonce''), as_str (field m ''clientProof'')) of
             (Some p, Some requestId, Some key, Some nonce, Some proof) \<Rightarrow>
               if eq_str (field m ''type'') ''relay_key_exchange_init'' \<and> as_int (field m ''version'') = Some 2
                  \<and> \<not> peer_missing p (as_str (field m ''pairingPeerId''))
               then Some \<lparr>i2_profile = p, i2_requestId = requestId, i2_clientPublicKey = key, i2_clientNonce = nonce,
                 i2_clientProof = proof, i2_pairingPeerId = as_str (field m ''pairingPeerId''),
                 i2_previousSessionId = as_str (field m ''previousSessionId'')\<rparr>
               else None
           | _ \<Rightarrow> None)
      | _ \<Rightarrow> None)"

section \<open>Keys and proofs\<close>

definition toSessionInfo :: "profile \<Rightarrow> string \<Rightarrow> int \<Rightarrow> bytes" where
  "toSessionInfo p sessionId epoch =
     utf8 (''viewport-relay-session-v2|'' @ profile_name p @ ''|'' @ sessionId @ ''|'' @ int_string epoch)"

definition toTranscript :: "string \<Rightarrow> profile \<Rightarrow> string \<Rightarrow> string \<Rightarrow> string \<Rightarrow> string \<Rightarrow> string \<Rightarrow> int \<Rightarrow> bytes" where
  "toTranscript requestId p clientPublicKey daemonPublicKey clientNonce daemonNonce sessionId epoch =
     utf8 (join ''|'' [''viewport-relay-transcript-v2'', requestId, profile_name p, clientPublicKey, daemonPublicKey, clientNonce,
       daemonNonce, sessionId, int_string epoch])"

definition input_key :: "profile \<Rightarrow> bytes \<Rightarrow> bytes option \<Rightarrow> bytes" where
  "input_key p sharedSecret pairingSecret =
     (case pairingSecret of Some s \<Rightarrow> if p = Noise_ikpsk2 then sharedSecret @ s else sharedSecret | None \<Rightarrow> sharedSecret)"

definition deriveSessionKeyV2 :: "crypto \<Rightarrow> bytes \<Rightarrow> bytes \<Rightarrow> bytes \<Rightarrow> profile \<Rightarrow> string \<Rightarrow> int \<Rightarrow> bytes option \<Rightarrow> bytes" where
  "deriveSessionKeyV2 c sharedSecret clientNonce daemonNonce p sessionId epoch pairingSecret =
     c_hkdf c (input_key p sharedSecret pairingSecret) (clientNonce @ daemonNonce) (toSessionInfo p sessionId epoch)"

definition computeProof :: "crypto \<Rightarrow> bytes \<Rightarrow> bytes \<Rightarrow> bytes" where
  "computeProof c sessionKey transcript = take 16 (c_hmac c sessionKey transcript)"

definition toInitInfo :: "string \<Rightarrow> profile \<Rightarrow> string \<Rightarrow> string \<Rightarrow> string \<Rightarrow> string option \<Rightarrow> bytes" where
  "toInitInfo requestId p clientPublicKey daemonPublicKey clientNonce previousSessionId =
     utf8 (join ''|'' [''viewport-relay-kex-init-v1'', requestId, profile_name p, clientPublicKey, daemonPublicKey, clientNonce,
       case previousSessionId of Some s \<Rightarrow> s | None \<Rightarrow> []])"

definition computeClientInitProof ::
    "crypto \<Rightarrow> bytes \<Rightarrow> bytes \<Rightarrow> profile \<Rightarrow> string \<Rightarrow> string \<Rightarrow> string \<Rightarrow> string \<Rightarrow> string option \<Rightarrow> bytes option \<Rightarrow> bytes" where
  "computeClientInitProof c sharedSecret clientNonce p requestId clientPublicKey daemonPublicKey clientNonceEncoded previousSessionId
     pairingSecret =
     (let initKey = c_hkdf c (input_key p sharedSecret pairingSecret) clientNonce
            (toInitInfo requestId p clientPublicKey daemonPublicKey clientNonceEncoded previousSessionId)
      in take 16 (c_hmac c initKey (utf8 ''client-proof'')))"

definition expected_proof :: "crypto \<Rightarrow> init_v2 \<Rightarrow> relay_identity \<Rightarrow> bytes option \<Rightarrow> bytes \<Rightarrow> bytes" where
  "expected_proof c init identity pairingSecret sharedSecret =
     computeClientInitProof c sharedSecret (fromBase64Url (i2_clientNonce init)) (i2_profile init) (i2_requestId init)
       (i2_clientPublicKey init) (di_publicKey identity) (i2_clientNonce init) (i2_previousSessionId init) pairingSecret"

text \<open>\<open>daemonNonce\<close> and \<open>sessionId\<close> are drawn at random, or given by a test.\<close>

definition deriveSessionFromKeyExchange ::
    "crypto \<Rightarrow> init_v2 \<Rightarrow> relay_identity \<Rightarrow> int \<Rightarrow> bytes option \<Rightarrow> bytes \<Rightarrow> string \<Rightarrow> string + derived_session \<times> response_v2" where
  "deriveSessionFromKeyExchange c init identity nextEpoch pairingSecret daemonNonce sessionId =
     (let clientPublic = fromBase64Url (i2_clientPublicKey init); clientNonce = fromBase64Url (i2_clientNonce init);
          p = i2_profile init; epoch = max 1 nextEpoch; daemonNonceEncoded = toBase64Url daemonNonce in
      and_then (check (length clientPublic = 65 \<and> hd clientPublic = 4) ''invalid client public key'') (\<lambda>_.
      and_then (check (12 \<le> length clientNonce \<and> length clientNonce \<le> 32) ''invalid client nonce'') (\<lambda>_.
      and_then (or_throw (normalizeP256PrivateKey (fromBase64Url (di_privateKey identity))) ''invalid daemon private key'') (\<lambda>priv.
      and_then (check (p = Noise_ikpsk2 \<longrightarrow> pairingSecret \<noteq> None) ''pairing secret required for noise-ikpsk2'') (\<lambda>_.
      and_then (check (length daemonNonce = 16) ''invalid daemon nonce override'') (\<lambda>_.
      and_then (check (trim sessionId \<noteq> []) ''invalid session id override'') (\<lambda>_.
      and_then (or_throw (c_dh c priv clientPublic) platform_error) (\<lambda>sharedSecret.
      and_then (check (fromBase64Url (i2_clientProof init) = expected_proof c init identity pairingSecret sharedSecret)
        ''invalid client key exchange proof'') (\<lambda>_.
      let sessionKey = deriveSessionKeyV2 c sharedSecret clientNonce daemonNonce p sessionId epoch pairingSecret;
          transcript = toTranscript (i2_requestId init) p (i2_clientPublicKey init) (di_publicKey identity) (i2_clientNonce init)
            daemonNonceEncoded sessionId epoch
      in Inr (\<lparr>ds_key = sessionKey, ds_profile = p, ds_sessionId = sessionId, ds_epoch = epoch\<rparr>,
              \<lparr>r2_profile = p, r2_requestId = i2_requestId init, r2_daemonPublicKey = di_publicKey identity,
               r2_daemonNonce = daemonNonceEncoded, r2_sessionId = sessionId, r2_epoch = epoch,
               r2_proof = toBase64Url (computeProof c sessionKey transcript)\<rparr>))))))))))"

text \<open>What an accepted exchange has shown.\<close>

lemma key_exchange_checked:
  assumes "deriveSessionFromKeyExchange c init identity nextEpoch pairingSecret daemonNonce sessionId = Inr (session, response)"
  shows "\<exists>priv shared. normalizeP256PrivateKey (fromBase64Url (di_privateKey identity)) = Some priv
      \<and> c_dh c priv (fromBase64Url (i2_clientPublicKey init)) = Some shared
      \<and> fromBase64Url (i2_clientProof init) = expected_proof c init identity pairingSecret shared
      \<and> (i2_profile init = Noise_ikpsk2 \<longrightarrow> pairingSecret \<noteq> None)
      \<and> session = \<lparr>ds_key = deriveSessionKeyV2 c shared (fromBase64Url (i2_clientNonce init)) daemonNonce (i2_profile init) sessionId
          (max 1 nextEpoch) pairingSecret, ds_profile = i2_profile init, ds_sessionId = sessionId, ds_epoch = max 1 nextEpoch\<rparr>"
  using assms by (auto simp: deriveSessionFromKeyExchange_def Let_def and_then_Inr)

text \<open>Version 2 notices when the frame names another session to replace, unless the proofs collide; version 3 does not.\<close>

lemma previous_bound_v2:
  assumes "deriveSessionFromKeyExchange c init identity n secret nonce i = Inr (x, r)"
    and "deriveSessionFromKeyExchange c (init\<lparr>i2_previousSessionId := previous\<rparr>) identity n secret nonce i = Inr (x', r')"
    and "normalizeP256PrivateKey (fromBase64Url (di_privateKey identity)) = Some priv"
    and "c_dh c priv (fromBase64Url (i2_clientPublicKey init)) = Some shared"
  shows "expected_proof c (init\<lparr>i2_previousSessionId := previous\<rparr>) identity secret shared = expected_proof c init identity secret shared"
  using key_exchange_checked [OF assms(1)] key_exchange_checked [OF assms(2)] assms(3,4) by simp

lemma previous_unbound_v3:
  "deriveNoiseV3SessionFromInit c (init\<lparr>i3_previousSessionId := previous\<rparr>) identity n secret ephemeral i
     = deriveNoiseV3SessionFromInit c init identity n secret ephemeral i"
  by (simp add: deriveNoiseV3SessionFromInit_def)

end
