(* ===== verification/Bridge_Sessions.thy ===== *)
theory Bridge_Sessions
  imports Bridge_Keys
begin

text \<open>
  The sessions of the relay bridge (\<open>relay/bridge-relay-sessions.ts\<close>): the window that recognises repeated frames, sending with
  key rotation, the limits of the table, and the control frames of the relay (\<open>relay/relay-control-frames.ts\<close>). The window is
  refined against a receiver that remembers every number it ever accepted.
\<close>

section \<open>Sessions\<close>

definition RELAY_REPLAY_WINDOW :: int where
  "RELAY_REPLAY_WINDOW = 1024"

definition RELAY_SESSION_IDLE_TTL_MS :: int where
  "RELAY_SESSION_IDLE_TTL_MS = 15 * 60000"

record relay_session =
  rs_key :: bytes
  rs_profile :: profile
  rs_sessionId :: string
  rs_epoch :: int
  rs_txSeq :: int
  rs_rxHighestSeq :: int
  rs_rxSeenSeq :: "int list" \<comment> \<open>a \<open>Set\<close>: in order of insertion, no number twice\<close>
  rs_lastActivityAt :: int
  rs_keyRotationRequested :: bool

type_synonym sessions = "(string, relay_session) js_map"

definition createRelaySessionState :: "derived_session \<Rightarrow> int \<Rightarrow> relay_session" where
  "createRelaySessionState seed now =
     \<lparr>rs_key = ds_key seed, rs_profile = ds_profile seed, rs_sessionId = ds_sessionId seed, rs_epoch = ds_epoch seed, rs_txSeq = 0,
      rs_rxHighestSeq = 0, rs_rxSeenSeq = [], rs_lastActivityAt = now, rs_keyRotationRequested = False\<rparr>"

definition acceptInboundRelaySeq :: "relay_session \<Rightarrow> int \<Rightarrow> bool \<times> relay_session" where
  "acceptInboundRelaySeq s seq =
     (if seq < 1 then (False, s)
      else if seq \<in> set (rs_rxSeenSeq s) then (False, s)
      else if seq > rs_rxHighestSeq s + RELAY_REPLAY_WINDOW then (False, s)
      else if seq < max 1 (rs_rxHighestSeq s - RELAY_REPLAY_WINDOW + 1) then (False, s)
      else
        let highest = (if seq > rs_rxHighestSeq s then seq else rs_rxHighestSeq s);
            pruneBelow = max 1 (highest - RELAY_REPLAY_WINDOW + 1)
        in (True, s\<lparr>rs_rxHighestSeq := highest, rs_rxSeenSeq := filter (\<lambda>seen. \<not> seen < pruneBelow) (rs_rxSeenSeq s @ [seq])\<rparr>))"

definition pruneIdleRelaySessions :: "sessions \<Rightarrow> int \<Rightarrow> int \<Rightarrow> sessions \<times> string list" where
  "pruneIdleRelaySessions ss now idleTtlMs =
     (jm_filter (\<lambda>_ s. \<not> now - rs_lastActivityAt s > idleTtlMs) ss,
      jm_keys (jm_filter (\<lambda>_ s. now - rs_lastActivityAt s > idleTtlMs) ss))"

text \<open>The loop ends at an empty id, which is a falsy key.\<close>

function evict_sessions :: "nat \<Rightarrow> sessions \<Rightarrow> sessions \<times> string list" where
  "evict_sessions maxEntries ss =
     (if jm_size ss \<le> maxEntries then (ss, [])
      else case ss of
        [] \<Rightarrow> (ss, [])
      | (k, _) # _ \<Rightarrow>
          if k = [] then (ss, []) else let (ss', evicted) = evict_sessions maxEntries (jm_delete k ss) in (ss', k # evicted))"
  by pat_completeness auto
termination
  by (relation "measure (\<lambda>(_, m). length m)") (auto simp: jm_delete_def less_Suc_eq_le)

declare evict_sessions.simps [simp del]

definition enforceRelaySessionCapacity :: "sessions \<Rightarrow> nat \<Rightarrow> int \<Rightarrow> int \<Rightarrow> sessions \<times> string list" where
  "enforceRelaySessionCapacity ss maxEntries now idleTtlMs =
     evict_sessions maxEntries (fst (pruneIdleRelaySessions ss now idleTtlMs))"

text \<open>\<open>ivs\<close> gives the random bytes drawn for a message of a session.\<close>

definition sendToRelaySession :: "crypto \<Rightarrow> (string \<Rightarrow> int \<Rightarrow> bytes) \<Rightarrow> relay_session \<Rightarrow> string \<Rightarrow> int \<Rightarrow> string \<times> relay_session" where
  "sendToRelaySession c ivs s payload now =
     (let seq = rs_txSeq s + 1 in
      (encryptEnvelope c (ivs (rs_sessionId s) seq) (rs_key s) payload (rs_profile s) (rs_sessionId s) (rs_epoch s) seq,
       s\<lparr>rs_txSeq := seq, rs_lastActivityAt := now\<rparr>))"

definition rotate_notice :: "relay_session \<Rightarrow> json" where
  "rotate_notice s = JObj [(''type'', JStr ''relay_key_update_required''), (''sessionId'', JStr (rs_sessionId s)),
     (''nextEpoch'', JNum (of_int (rs_epoch s + 1))), (''reason'', JStr ''message_threshold'')]"

definition send_one :: "crypto \<Rightarrow> (string \<Rightarrow> int \<Rightarrow> bytes) \<Rightarrow> int \<Rightarrow> string \<Rightarrow> int \<Rightarrow> relay_session \<Rightarrow> string list \<times> relay_session" where
  "send_one c ivs keyRotateAfterMessages payload now s =
     (let (frame, s') = sendToRelaySession c ivs s payload now in
      if \<not> rs_keyRotationRequested s' \<and> rs_txSeq s' \<ge> keyRotateAfterMessages
      then ([frame, JSON_stringify (rotate_notice s')], s'\<lparr>rs_keyRotationRequested := True\<rparr>)
      else ([frame], s'))"

definition sendToAllRelaySessions ::
    "crypto \<Rightarrow> (string \<Rightarrow> int \<Rightarrow> bytes) \<Rightarrow> int \<Rightarrow> int \<Rightarrow> int \<Rightarrow> string \<Rightarrow> sessions \<Rightarrow> string list \<times> sessions" where
  "sendToAllRelaySessions c ivs keyRotateAfterMessages idleTtlMs now payload ss =
     (let kept = fst (pruneIdleRelaySessions ss now idleTtlMs);
          sent = map (\<lambda>(k, s). (k, send_one c ivs keyRotateAfterMessages payload now s)) kept
      in (concat (map (fst \<circ> snd) sent), map (\<lambda>(k, r). (k, snd r)) sent))"

section \<open>Control frames\<close>

definition isRelayControlFrame :: "json \<Rightarrow> bool" where
  "isRelayControlFrame v =
     (case v of
        JObj m \<Rightarrow> eq_str (field m ''type'') ''relay_status''
          \<or> (eq_str (field m ''type'') ''relay_key_update_required'' \<and> is_str (field m ''sessionId'') \<and> is_num (field m ''nextEpoch''))
      | _ \<Rightarrow> False)"

record offer_frame =
  oq_requestId :: string
  oq_ttlSeconds :: "int option"
  oq_clientChannelPublicKey :: string

definition parsePairingOfferRequestFrame :: "json \<Rightarrow> offer_frame option" where
  "parsePairingOfferRequestFrame v =
     (case v of
        JObj m \<Rightarrow>
          (case (as_str (field m ''requestId''), as_str (field m ''clientChannelPublicKey'')) of
             (Some requestId, Some key) \<Rightarrow>
               if eq_str (field m ''type'') ''relay_pairing_offer_request'' \<and> trim requestId \<noteq> []
                  \<and> (field m ''ttlSeconds'' = None
                     \<or> (case as_int (field m ''ttlSeconds'') of Some ttl \<Rightarrow> 30 \<le> ttl \<and> ttl \<le> 3600 | None \<Rightarrow> False))
                  \<and> trim key \<noteq> []
               then Some \<lparr>oq_requestId = requestId, oq_ttlSeconds = as_int (field m ''ttlSeconds''), oq_clientChannelPublicKey = key\<rparr>
               else None
           | _ \<Rightarrow> None)
      | _ \<Rightarrow> None)"

record redeem_frame =
  rq_requestId :: string
  rq_offerId :: string
  rq_encIv :: string
  rq_encTag :: string
  rq_encCiphertext :: string

definition parsePairingRedeemRequestFrame :: "json \<Rightarrow> redeem_frame option" where
  "parsePairingRedeemRequestFrame v =
     (case v of
        JObj m \<Rightarrow>
          (case (as_str (field m ''requestId''), as_str (field m ''offerId''), as_str (field m ''encIv''), as_str (field m ''encTag''),
                 as_str (field m ''encCiphertext'')) of
             (Some requestId, Some offerId, Some iv, Some tag, Some ct) \<Rightarrow>
               if eq_str (field m ''type'') ''relay_pairing_redeem_request'' \<and> list_all (\<lambda>s. trim s \<noteq> []) [requestId, offerId, iv, tag, ct]
               then Some \<lparr>rq_requestId = requestId, rq_offerId = offerId, rq_encIv = iv, rq_encTag = tag, rq_encCiphertext = ct\<rparr>
               else None
           | _ \<Rightarrow> None)
      | _ \<Rightarrow> None)"

section \<open>The window against a receiver that forgets nothing\<close>

text \<open>The specification keeps all numbers it accepted; the window lies around the highest of them.\<close>

definition highest_of :: "int set \<Rightarrow> int" where
  "highest_of seen = Max (insert 0 seen)"

definition in_window :: "int set \<Rightarrow> int \<Rightarrow> bool" where
  "in_window seen seq \<longleftrightarrow> 1 \<le> seq \<and> seq \<notin> seen \<and> seq \<le> highest_of seen + RELAY_REPLAY_WINDOW \<and> highest_of seen - RELAY_REPLAY_WINDOW < seq"

fun remembered :: "int set \<Rightarrow> int list \<Rightarrow> bool list" where
  "remembered seen [] = []"
| "remembered seen (n # ns) = in_window seen n # remembered (if in_window seen n then insert n seen else seen) ns"

fun accept_all :: "relay_session \<Rightarrow> int list \<Rightarrow> bool list \<times> relay_session" where
  "accept_all s [] = ([], s)"
| "accept_all s (n # ns) =
     (let (b, s') = acceptInboundRelaySeq s n; (bs, s'') = accept_all s' ns in (b # bs, s''))"

text \<open>The pruned set is the part of the whole memory that lies in the window.\<close>

definition remembers :: "int set \<Rightarrow> relay_session \<Rightarrow> bool" where
  "remembers seen s \<longleftrightarrow> finite seen \<and> (\<forall>n \<in> seen. 1 \<le> n) \<and> rs_rxHighestSeq s = highest_of seen
     \<and> distinct (rs_rxSeenSeq s) \<and> set (rs_rxSeenSeq s) = {n \<in> seen. highest_of seen - RELAY_REPLAY_WINDOW < n}"

lemma highest_of_bounds: "finite seen \<Longrightarrow> 0 \<le> highest_of seen" "finite seen \<Longrightarrow> n \<in> seen \<Longrightarrow> n \<le> highest_of seen"
  by (simp_all add: highest_of_def)

lemma highest_of_insert: "finite seen \<Longrightarrow> highest_of (insert n seen) = max n (highest_of seen)"
  unfolding highest_of_def insert_commute [of 0 n] by (rule Max_insert) simp_all

lemma remembers_create: "remembers {} (createRelaySessionState seed now)"
  by (simp add: remembers_def createRelaySessionState_def highest_of_def)

lemma accept_refines:
  assumes "remembers seen s" and "acceptInboundRelaySeq s n = (b, s')"
  shows "b \<longleftrightarrow> in_window seen n" and "remembers (if b then insert n seen else seen) s'"
proof -
  have f: "finite seen" "\<forall>n \<in> seen. 1 \<le> n" and h: "rs_rxHighestSeq s = highest_of seen" and d: "distinct (rs_rxSeenSeq s)"
    and seen: "set (rs_rxSeenSeq s) = {n \<in> seen. highest_of seen - RELAY_REPLAY_WINDOW < n}"
    using assms(1) by (simp_all add: remembers_def)
  have b: "b \<longleftrightarrow> in_window seen n"
    using assms(2) by (auto simp: acceptInboundRelaySeq_def Let_def h seen in_window_def split: if_splits)
  then show "b \<longleftrightarrow> in_window seen n" .
  show "remembers (if b then insert n seen else seen) s'"
  proof (cases b)
    case False
    then show ?thesis using assms by (auto simp: acceptInboundRelaySeq_def Let_def split: if_splits)
  next
    case True
    with b have w: "1 \<le> n" "n \<notin> seen" "n \<le> highest_of seen + RELAY_REPLAY_WINDOW" "highest_of seen - RELAY_REPLAY_WINDOW < n"
      by (simp_all add: in_window_def)
    have s': "s' = s\<lparr>rs_rxHighestSeq := highest_of (insert n seen), rs_rxSeenSeq :=
        filter (\<lambda>m. \<not> m < max 1 (highest_of (insert n seen) - RELAY_REPLAY_WINDOW + 1)) (rs_rxSeenSeq s @ [n])\<rparr>"
      using assms(2) True w by (auto simp: acceptInboundRelaySeq_def Let_def h seen highest_of_insert [OF f(1)] max_def split: if_splits)
    have "highest_of seen \<le> highest_of (insert n seen)" by (simp add: highest_of_insert [OF f(1)])
    with True show ?thesis using f w d by (auto simp: remembers_def s' seen)
  qed
qed

lemma window_refines: "remembers seen s \<Longrightarrow> fst (accept_all s ns) = remembered seen ns"
proof (induction ns arbitrary: seen s)
  case (Cons n ns)
  obtain b s' where b: "acceptInboundRelaySeq s n = (b, s')" by force
  show ?case using Cons.IH [OF accept_refines(2) [OF Cons.prems b]] accept_refines(1) [OF Cons.prems b] b by (auto simp: split_beta)
qed simp

text \<open>C30: the window forgets without consequence. A session that keeps only the numbers of its window decides every sequence of
  frames as a receiver would that keeps all the numbers it ever accepted.\<close>

theorem replay_window_refines:
  "fst (accept_all (createRelaySessionState seed now) ns) = remembered {} ns"
  by (rule window_refines [OF remembers_create])

lemma remembered_distinct:
  "distinct (map fst (filter snd (zip ns (remembered seen ns)))) \<and> set (map fst (filter snd (zip ns (remembered seen ns)))) \<inter> seen = {}"
proof (induction ns arbitrary: seen)
  case (Cons n ns)
  show ?case
  proof (cases "in_window seen n")
    case True
    with Cons.IH [of "insert n seen"] show ?thesis by (auto simp: in_window_def)
  next
    case False
    with Cons.IH [of seen] show ?thesis by simp
  qed
qed simp

lemma accepted_once:
  "distinct (map fst (filter snd (zip ns (fst (accept_all (createRelaySessionState seed now) ns)))))"
  using remembered_distinct by (simp add: window_refines [OF remembers_create])

lemma window_size: "remembers seen s \<Longrightarrow> length (rs_rxSeenSeq s) \<le> 1024"
proof -
  assume r: "remembers seen s"
  then have "set (rs_rxSeenSeq s) \<subseteq> {highest_of seen - 1023 .. highest_of seen}"
    using highest_of_bounds(2) by (auto simp: remembers_def RELAY_REPLAY_WINDOW_def)
  then have "card (set (rs_rxSeenSeq s)) \<le> card {highest_of seen - 1023 .. highest_of seen}" by (intro card_mono) simp_all
  moreover have "distinct (rs_rxSeenSeq s)" using r by (simp add: remembers_def)
  ultimately show ?thesis by (simp add: distinct_card)
qed

text \<open>A receiver that misses more than the window accepts nothing any more.\<close>

lemma gap_blocks:
  "\<forall>n \<in> set ns. n > rs_rxHighestSeq s + RELAY_REPLAY_WINDOW \<Longrightarrow> accept_all s ns = (replicate (length ns) False, s)"
  by (induction ns) (auto simp: acceptInboundRelaySeq_def)

lemma in_order_accepted:
  "0 \<le> k \<Longrightarrow> seen = {1..k} \<Longrightarrow> remembered seen (map (\<lambda>i. k + 1 + int i) [0..<n]) = replicate n True"
proof (induction n arbitrary: k seen)
  case (Suc n)
  have h: "highest_of {1..k} = k"
    unfolding highest_of_def by (rule Max_eqI) (use Suc.prems in auto)
  have i: "insert (k + 1) {1..k} = {1..k + 1}" using Suc.prems(1) by auto
  have m: "map (\<lambda>i. k + 1 + int i) [0..<Suc n] = (k + 1) # map (\<lambda>i. (k + 1) + 1 + int i) [0..<n]"
    by (subst map_upt_Suc) simp
  have w: "in_window {1..k} (k + 1)" using Suc.prems(1) by (simp add: in_window_def h RELAY_REPLAY_WINDOW_def)
  have "remembered {1..k + 1} (map (\<lambda>i. (k + 1) + 1 + int i) [0..<n]) = replicate n True"
    by (rule Suc.IH) (use Suc.prems(1) in simp_all)
  then show ?case by (simp only: m Suc.prems(2) remembered.simps w i if_True replicate_Suc)
qed simp

section \<open>Sending\<close>

lemma sent_frame_opens:
  assumes "crypto_laws c" and "is_bytes (ivs (rs_sessionId s) (rs_txSeq s + 1))" and "trim (rs_sessionId s) \<noteq> []"
    and "rs_epoch s \<ge> 1" and "rs_txSeq s \<ge> 0"
  shows "\<exists>e. parseRelayEnvelope (fst (sendToRelaySession c ivs s payload now)) = Some e \<and> en_profile e = rs_profile s
    \<and> en_sessionId e = rs_sessionId s \<and> en_epoch e = rs_epoch s \<and> en_seq e = rs_txSeq s + 1
    \<and> decryptEnvelope c (rs_key s) e = Some payload"
  using envelope_roundtrip [OF assms(1,2,3,4), of "rs_txSeq s + 1"] assms(5) by (simp add: sendToRelaySession_def Let_def)

lemma evict_sessions_size:
  "jm_get ss [] = None \<Longrightarrow> jm_size (fst (evict_sessions n ss)) \<le> n"
proof (induction n ss rule: evict_sessions.induct)
  case (1 n ss)
  show ?case
  proof (cases "jm_size ss \<le> n")
    case False
    then obtain k v m where ss: "ss = (k, v) # m" by (cases ss) auto
    have k: "k \<noteq> []" using 1(2) by (auto simp: ss js_map_simps)
    then have "jm_size (fst (evict_sessions n (jm_delete k ss))) \<le> n" using 1 False by (auto simp: ss)
    with False k show ?thesis by (subst evict_sessions.simps) (simp add: ss split_beta)
  qed (simp add: evict_sessions.simps)
qed

lemma evict_sessions_subset: "set (fst (evict_sessions n ss)) \<subseteq> set ss"
proof (induction n ss rule: evict_sessions.induct)
  case (1 n ss)
  show ?case
  proof (cases "jm_size ss \<le> n")
    case False
    then obtain k v m where ss: "ss = (k, v) # m" by (cases ss) auto
    show ?thesis
    proof (cases "k = []")
      case k: False
      have "set (fst (evict_sessions n (jm_delete k ss))) \<subseteq> set (jm_delete k ss)" using 1 False k ss by blast
      also have "\<dots> \<subseteq> set ss" by auto
      finally show ?thesis using False k by (subst evict_sessions.simps) (simp add: ss split_beta)
    qed (simp add: evict_sessions.simps [of n "([], v) # m"] ss)
  qed (simp add: evict_sessions.simps)
qed

end
