(* ===== verification/Bridge_Network.thy ===== *)
theory Bridge_Network
  imports Bridge_Noise
begin

text \<open>
  How the daemon's connections trust the other side: the TLS options of the relay bridge's sockets (\<open>relay/bridge-network.ts\<close>,
  \<open>relay/bridge-connections.ts\<close>) and of the daemon's HTTP requests (\<open>cli/network.ts\<close>), and what node's TLS client makes of them;
  the codes and the backoff of the bridge's errors (\<open>relay/bridge-errors.ts\<close>, \<open>relay/bridge-backoff.ts\<close>).

  The result of \<open>new URL\<close>, protocol and host name, and the content of a certificate file are arguments.
\<close>

section \<open>Options\<close>

datatype tls_mode = Tls_auto | Tls_off | Tls_on

definition parseTlsVerifyMode :: "string option \<Rightarrow> string + tls_mode option" where
  "parseTlsVerifyMode raw =
     (case Option.bind raw non_empty of
        None \<Rightarrow> Inr None
      | Some r \<Rightarrow>
          let normalized = toLowerCase (trim r) in
          if normalized = ''auto'' then Inr (Some Tls_auto)
          else if normalized \<in> set [''1'', ''true'', ''yes'', ''on''] then Inr (Some Tls_on)
          else if normalized \<in> set [''0'', ''false'', ''no'', ''off''] then Inr (Some Tls_off)
          else Inl (''Invalid TLS verify value: '' @ r @ ''. Expected auto|0|1.''))"

definition parseCsvList :: "string option \<Rightarrow> string list option" where
  "parseCsvList raw =
     (case Option.bind raw non_empty of
        None \<Rightarrow> None
      | Some r \<Rightarrow> let entries = filter (\<lambda>e. e \<noteq> []) (map trim (splitOn (CHR '','') r)) in if entries = [] then None else Some entries)"

definition normalizeFingerprint :: "string \<Rightarrow> string" where
  "normalizeFingerprint input = toLowerCase (trim (filter (\<lambda>ch. ch \<noteq> CHR '':'') input))"

definition normalizePins :: "string list \<Rightarrow> string list" where
  "normalizePins pins = filter (\<lambda>p. p \<noteq> []) (map normalizeFingerprint pins)"

definition isLocalHostname :: "string \<Rightarrow> bool" where
  "isLocalHostname hostname =
     (let n = toLowerCase (trim hostname) in n \<in> set [''localhost'', ''127.0.0.1'', ''::1'', ''[::1]''] \<or> endsWith n ''.test'')"

text \<open>A certificate as the client sees it: whether its chain is trusted, whether it names the host, and its fingerprint.\<close>

record peer_cert =
  pc_trusted :: bool
  pc_names_host :: bool
  pc_fingerprint :: "string option"

text \<open>What an identity check returns.\<close>

datatype check_answer = Undefined | An_error string | A_boolean bool

definition truthy_answer :: "check_answer \<Rightarrow> bool" where
  "truthy_answer a = (case a of Undefined \<Rightarrow> False | An_error _ \<Rightarrow> True | A_boolean b \<Rightarrow> b)"

record tls_options =
  to_rejectUnauthorized :: "bool option"
  to_ca :: "string option"
  to_checkServerIdentity :: "(peer_cert \<Rightarrow> check_answer) option"

definition no_options :: tls_options where
  "no_options = \<lparr>to_rejectUnauthorized = None, to_ca = None, to_checkServerIdentity = None\<rparr>"

text \<open>\<open>tls.checkServerIdentity\<close>: an error when the certificate does not name the host.\<close>

definition default_check :: "peer_cert \<Rightarrow> check_answer" where
  "default_check cert = (if pc_names_host cert then Undefined else An_error ''ERR_TLS_CERT_ALTNAME_INVALID'')"

text \<open>The check of the sockets of the bridge and the check of HTTP requests.\<close>

definition relay_pin_check :: "string list \<Rightarrow> peer_cert \<Rightarrow> check_answer" where
  "relay_pin_check normalizedPins cert =
     (if truthy_answer (default_check cert) then A_boolean False
      else
        let actual = normalizeFingerprint (case pc_fingerprint cert of Some f \<Rightarrow> f | None \<Rightarrow> [])
        in if actual = [] \<or> actual \<notin> set normalizedPins then A_boolean False else A_boolean True)"

definition https_pin_check :: "string list \<Rightarrow> peer_cert \<Rightarrow> check_answer" where
  "https_pin_check normalizedPins cert =
     (if truthy_answer (default_check cert) then default_check cert
      else
        let actual = normalizeFingerprint (case pc_fingerprint cert of Some f \<Rightarrow> f | None \<Rightarrow> [])
        in if actual = [] \<or> actual \<notin> set normalizedPins then An_error ''TLS pin mismatch'' else Undefined)"

definition resolveRelayTlsOptions :: "(string \<times> string) option \<Rightarrow> tls_mode \<Rightarrow> string option \<Rightarrow> string list \<Rightarrow> tls_options" where
  "resolveRelayTlsOptions url mode caCert relayTlsPins =
     (case url of
        None \<Rightarrow> no_options
      | Some (protocol, hostname) \<Rightarrow>
          if protocol \<noteq> ''wss:'' then no_options
          else
            let rejectUnauthorized = (case mode of Tls_on \<Rightarrow> True | Tls_off \<Rightarrow> False
                  | Tls_auto \<Rightarrow> \<not> (endsWith hostname ''.test'' \<or> hostname = ''localhost''));
                pins = normalizePins relayTlsPins
            in \<lparr>to_rejectUnauthorized = Some rejectUnauthorized, to_ca = caCert,
                to_checkServerIdentity = (if pins = [] then None else Some (relay_pin_check pins))\<rparr>)"

definition resolveHttpsTrustOptions :: "string \<times> string \<Rightarrow> tls_mode option \<Rightarrow> string option \<Rightarrow> string list \<Rightarrow> tls_options" where
  "resolveHttpsTrustOptions url mode caCert tlsPins =
     (if fst url \<noteq> ''https:'' then no_options
      else
        let pins = normalizePins tlsPins;
            rejectUnauthorized = (if mode = Some Tls_on then True else if mode = Some Tls_off then False
              else \<not> (isLocalHostname (snd url) \<and> caCert = None \<and> pins = []))
        in \<lparr>to_rejectUnauthorized = Some rejectUnauthorized, to_ca = caCert,
            to_checkServerIdentity = (if pins = [] then None else Some (https_pin_check pins))\<rparr>)"

definition shouldUseNativeFetch :: "string \<times> string \<Rightarrow> tls_mode option \<Rightarrow> string option \<Rightarrow> string list \<Rightarrow> bool" where
  "shouldUseNativeFetch url mode caCert tlsPins =
     (if caCert \<noteq> None then False
      else if normalizePins tlsPins \<noteq> [] then False
      else if fst url = ''http:'' then True
      else if fst url \<noteq> ''https:'' then False
      else if mode = Some Tls_off then False
      else if mode = None \<or> mode = Some Tls_auto then \<not> isLocalHostname (snd url)
      else True)"

text \<open>
  Node's TLS client at the end of a first handshake: the identity is checked when the chain is trusted, by the option or by
  default; whatever is truthy is an error, and an error closes the connection unless \<open>rejectUnauthorized\<close> is \<open>false\<close>.
\<close>

definition tls_connects :: "tls_options \<Rightarrow> peer_cert \<Rightarrow> bool" where
  "tls_connects opts cert =
     (let failed = (if pc_trusted cert
            then truthy_answer ((case to_checkServerIdentity opts of Some f \<Rightarrow> f | None \<Rightarrow> default_check) cert) else True)
      in \<not> failed \<or> to_rejectUnauthorized opts = Some False)"

section \<open>Opening sockets\<close>

definition daemonAuthHeaders :: "string option \<Rightarrow> (string \<times> string) list option" where
  "daemonAuthHeaders token = map_option (\<lambda>t. [(''authorization'', ''Bearer '' @ t)]) (Option.bind token non_empty)"

definition relayDaemonUrl :: "string \<Rightarrow> string \<Rightarrow> string option \<Rightarrow> string" where
  "relayDaemonUrl relayEndpoint workspaceId runtimeTargetId =
     relayEndpoint @ ''?role=workspace-daemon'' @ ''&workspaceId='' @ encodeURIComponent workspaceId
     @ (case Option.bind runtimeTargetId non_empty of Some t \<Rightarrow> ''&runtimeTargetId='' @ encodeURIComponent t | None \<Rightarrow> [])"

section \<open>Errors and waiting\<close>

datatype bridge_code =
  TOKEN_ISSUE_FAILED | TOKEN_RESPONSE_INVALID | DAEMON_KEY_REGISTER_FAILED | KEY_EXCHANGE_FAILED
| WEBSOCKET_CONNECT_TIMEOUT | ENVELOPE_DECRYPT_FAILED | CIRCUIT_OPEN | WEBSOCKET_ERROR | UNKNOWN

type_synonym bridge_error = "bridge_code \<times> string"

text \<open>An exception that is no \<open>BridgeError\<close> has its message only.\<close>

datatype thrown = Bridge_thrown bridge_error | Other_thrown string

definition normalizeBridgeError :: "thrown \<Rightarrow> bridge_error" where
  "normalizeBridgeError e = (case e of Bridge_thrown b \<Rightarrow> b | Other_thrown m \<Rightarrow> (UNKNOWN, m))"

definition isControlPlaneBridgeError :: "bridge_code \<Rightarrow> bool" where
  "isControlPlaneBridgeError code \<longleftrightarrow> code = TOKEN_ISSUE_FAILED \<or> code = TOKEN_RESPONSE_INVALID \<or> code = DAEMON_KEY_REGISTER_FAILED"

text \<open>The random \<open>jitter\<close> lies below 250.\<close>

definition computeBackoffMs :: "nat \<Rightarrow> nat \<Rightarrow> nat" where
  "computeBackoffMs attempt jitter = min 30000 (min 30000 (1000 * 2 ^ (attempt - 1)) + jitter)"

lemma computeBackoffMs_bounds: "1000 \<le> computeBackoffMs attempt jitter" "computeBackoffMs attempt jitter \<le> 30000"
proof -
  have "1000 * 1 \<le> 1000 * 2 ^ (attempt - 1) + jitter" by (intro trans_le_add1 mult_le_mono2) simp
  then show "1000 \<le> computeBackoffMs attempt jitter" by (simp add: computeBackoffMs_def)
qed (simp add: computeBackoffMs_def)

lemma computeBackoffMs_cap: "6 \<le> attempt \<Longrightarrow> computeBackoffMs attempt jitter = 30000"
proof -
  assume "6 \<le> attempt"
  then have "(2 :: nat) ^ 5 \<le> 2 ^ (attempt - 1)" by (intro power_increasing) simp_all
  then show ?thesis by (simp add: computeBackoffMs_def)
qed

section \<open>What pins do\<close>

definition is_pinned :: "string list \<Rightarrow> peer_cert \<Rightarrow> bool" where
  "is_pinned pins cert \<longleftrightarrow> (case pc_fingerprint cert of Some f \<Rightarrow> normalizeFingerprint f \<noteq> [] \<and> normalizeFingerprint f \<in> set (normalizePins pins)
     | None \<Rightarrow> False)"

lemma normalize_nil [simp]: "normalizeFingerprint [] = []"
  by (simp add: normalizeFingerprint_def toLowerCase_def)

lemma relay_pin_answer:
  "relay_pin_check (normalizePins pins) cert = A_boolean (pc_names_host cert \<and> is_pinned pins cert)"
  by (auto simp: relay_pin_check_def default_check_def truthy_answer_def is_pinned_def Let_def split: option.splits)

lemma https_pin_answer:
  "truthy_answer (https_pin_check (normalizePins pins) cert) \<longleftrightarrow> \<not> (pc_names_host cert \<and> is_pinned pins cert)"
  by (auto simp: https_pin_check_def default_check_def truthy_answer_def is_pinned_def Let_def split: option.splits)

text \<open>C37: pins turn the check of the relay's certificate around. With pins configured and verification on, an HTTP request
  connects to a server of a trusted chain just when the certificate names the host and is pinned; the bridge's socket to the relay
  connects just when it does not name the host or is not pinned, because node takes the boolean answer as an error.\<close>

theorem relay_pins_inverted:
  assumes "normalizePins pins \<noteq> []"
  shows "(tls_connects (resolveHttpsTrustOptions (''https:'', host) (Some Tls_on) ca pins) cert
        \<longleftrightarrow> pc_trusted cert \<and> pc_names_host cert \<and> is_pinned pins cert)
    \<and> (tls_connects (resolveRelayTlsOptions (Some (''wss:'', host)) Tls_on ca pins) cert
        \<longleftrightarrow> pc_trusted cert \<and> \<not> (pc_names_host cert \<and> is_pinned pins cert))"
  using assms
  by (auto simp: tls_connects_def resolveHttpsTrustOptions_def resolveRelayTlsOptions_def Let_def https_pin_answer relay_pin_answer)
     (simp_all add: truthy_answer_def)

theorem relay_pins_inverted_witness:
  "tls_connects (resolveRelayTlsOptions (Some (''wss:'', ''relay.example'')) Tls_on None [''AA:BB'']) \<lparr>pc_trusted = True, pc_names_host = False,
     pc_fingerprint = Some ''CC:DD''\<rparr>
   \<and> \<not> tls_connects (resolveRelayTlsOptions (Some (''wss:'', ''relay.example'')) Tls_on None [''AA:BB'']) \<lparr>pc_trusted = True,
     pc_names_host = True, pc_fingerprint = Some ''aa:bb''\<rparr>"
proof -
  have pins: "normalizePins [''AA:BB''] = [''aabb'']" "normalizeFingerprint ''aa:bb'' = ''aabb''" by code_simp+
  then have "normalizePins [''AA:BB''] \<noteq> []" by simp
  from relay_pins_inverted [OF this] pins show ?thesis by (simp add: is_pinned_def)
qed

text \<open>Without pins, requests and sockets to a public host agree and accept no certificate that node would not accept.\<close>

lemma unpinned_agree:
  assumes "normalizePins pins = []" and "\<not> isLocalHostname host" and "mode \<noteq> Tls_off"
  shows "tls_connects (resolveHttpsTrustOptions (''https:'', host) (Some mode) ca pins) cert \<longleftrightarrow> pc_trusted cert \<and> pc_names_host cert"
  using assms by (cases mode) (auto simp: tls_connects_def resolveHttpsTrustOptions_def Let_def truthy_answer_def default_check_def)

end
