(* ===== verification/Bridge_Tokens.thy ===== *)
theory Bridge_Tokens
  imports Bridge_Network
begin

text \<open>
  The credentials of the relay bridge: verification of the relay token (\<open>relay/bridge-jwt.ts\<close>), the client that has it issued
  (\<open>relay/bridge-token-issuer.ts\<close>) and the registration of the daemon's key (\<open>relay/bridge-daemon-key-registration.ts\<close>).

  Verification of RSA signatures and the import of RSA keys are arguments, answers of servers too. The texts of the errors leave out what
  a thrown value would print.
\<close>

section \<open>Verification of a token\<close>

type_synonym key_table = "(string, string) js_map"

record token_options =
  tk_issuer :: "string option"
  tk_audience :: "string option"
  tk_signingKeys :: key_table
  tk_clockSkewSec :: int

definition invalid :: "string \<Rightarrow> thrown" where
  "invalid message = Bridge_thrown (TOKEN_RESPONSE_INVALID, message)"

definition platform :: thrown where
  "platform = Other_thrown platform_error"

definition parseBase64UrlJson :: "crypto \<Rightarrow> string \<Rightarrow> string \<Rightarrow> thrown + json" where
  "parseBase64UrlJson c segment label =
     or_throw (JSON_parse (c_text c (fromBase64Url segment))) (invalid (''relay token '' @ label @ '' JSON invalid''))"

definition secureCompare :: "string \<Rightarrow> string \<Rightarrow> bool" where
  "secureCompare aRaw bRaw =
     (let a = utf8 aRaw; b = utf8 bRaw; n = max (max (length a) (length b)) 1 in padded n a = padded n b \<and> length a = length b)"

definition ensureNumericClaim :: "obj \<Rightarrow> string \<Rightarrow> thrown + rat option" where
  "ensureNumericClaim payload name =
     (case field payload name of
        None \<Rightarrow> Inr None
      | Some (JNum q) \<Rightarrow> Inr (Some q)
      | Some _ \<Rightarrow> Inl (invalid (''relay token '' @ name @ '' claim must be numeric'')))"

definition ensureAudience :: "obj \<Rightarrow> string option \<Rightarrow> thrown + unit" where
  "ensureAudience payload expectedAudience =
     (case Option.bind expectedAudience non_empty of
        None \<Rightarrow> Inr ()
      | Some expected \<Rightarrow>
          (case field payload ''aud'' of
             Some (JStr aud) \<Rightarrow> check (aud = expected) (invalid (''relay token audience mismatch (expected '' @ expected @ '')''))
           | Some (JArr auds) \<Rightarrow>
               if list_all (\<lambda>v. is_str (Some v)) auds
               then check (JStr expected \<in> set auds) (invalid (''relay token audience mismatch (expected '' @ expected @ '')''))
               else Inl (invalid ''relay token aud claim is missing/invalid'')
           | _ \<Rightarrow> Inl (invalid ''relay token aud claim is missing/invalid'')))"

text \<open>A look-up in an object finds the properties that every object inherits; \<open>trim\<close> of one of them throws.\<close>

definition inherited_names :: "string list" where
  "inherited_names = [''constructor'', ''__proto__'', ''hasOwnProperty'', ''isPrototypeOf'', ''propertyIsEnumerable'', ''toLocaleString'',
     ''toString'', ''valueOf'', ''__defineGetter__'', ''__defineSetter__'', ''__lookupGetter__'', ''__lookupSetter__'']"

definition trusted_key :: "key_table \<Rightarrow> string \<Rightarrow> thrown + string" where
  "trusted_key keys kid =
     (case jm_get keys kid of
        Some k \<Rightarrow> if trim k = [] then Inl (invalid (''relay token key id '' @ kid @ '' is not trusted'')) else Inr k
      | None \<Rightarrow> if kid \<in> set inherited_names then Inl platform
          else Inl (invalid (''relay token key id '' @ kid @ '' is not trusted'')))"

text \<open>\<open>rsa\<close> is \<open>crypto.verify('RSA-SHA256', data, key, signature)\<close>; \<open>None\<close> when it throws.\<close>

type_synonym rsa_verifier = "bytes \<Rightarrow> string \<Rightarrow> bytes \<Rightarrow> bool option"

definition check_signature :: "crypto \<Rightarrow> rsa_verifier \<Rightarrow> string \<Rightarrow> string \<Rightarrow> string \<Rightarrow> string \<Rightarrow> thrown + unit" where
  "check_signature c rsa alg signingKey signed signaturePart =
     (if alg = ''HS256''
      then check (secureCompare (toBase64Url (c_hmac c (utf8 signingKey) (utf8 signed))) signaturePart) (invalid ''relay token signature invalid'')
      else and_then (or_throw (rsa (utf8 signed) signingKey (fromBase64Url signaturePart)) platform) (\<lambda>valid.
        check valid (invalid ''relay token signature invalid'')))"

definition check_claims :: "token_options \<Rightarrow> int \<Rightarrow> obj \<Rightarrow> thrown + unit" where
  "check_claims opts nowSec payload =
     (let skew = max 0 (tk_clockSkewSec opts) in
      and_then (case Option.bind (tk_issuer opts) non_empty of
          Some iss \<Rightarrow> check (eq_str (field payload ''iss'') iss) (invalid (''relay token issuer mismatch (expected '' @ iss @ '')''))
        | None \<Rightarrow> Inr ()) (\<lambda>_.
      and_then (ensureAudience payload (tk_audience opts)) (\<lambda>_.
      and_then (ensureNumericClaim payload ''exp'') (\<lambda>exp.
      and_then (ensureNumericClaim payload ''iat'') (\<lambda>iat.
      and_then (ensureNumericClaim payload ''nbf'') (\<lambda>nbf.
      and_then (or_throw exp (invalid ''relay token exp claim is required'')) (\<lambda>e.
      and_then (check (\<not> e \<le> of_int (nowSec - skew)) (invalid ''relay token is expired'')) (\<lambda>_.
      and_then (check (case iat of Some i \<Rightarrow> \<not> i > of_int (nowSec + skew) | None \<Rightarrow> True) (invalid ''relay token iat is in the future'')) (\<lambda>_.
      and_then (check (case nbf of Some n \<Rightarrow> \<not> n > of_int (nowSec + skew) | None \<Rightarrow> True) (invalid ''relay token is not active yet'')) (\<lambda>_.
      check (is_nonblank (field payload ''jti'')) (invalid ''relay token jti claim is required'')))))))))))"

definition as_object :: "json \<Rightarrow> thrown \<Rightarrow> thrown + obj" where
  "as_object v e = (case v of JObj m \<Rightarrow> Inr m | _ \<Rightarrow> Inl e)"

lemma as_object_Inr [simp]: "as_object v e = Inr m \<longleftrightarrow> v = JObj m"
  by (cases v) (simp_all add: as_object_def)

definition token_parts :: "string \<Rightarrow> thrown + string \<times> string \<times> string" where
  "token_parts relayToken =
     (case splitOn (CHR ''.'') relayToken of
        [h, p, s] \<Rightarrow> if h = [] \<or> p = [] \<or> s = [] then Inl (invalid ''relay token is malformed'') else Inr (h, p, s)
      | _ \<Rightarrow> Inl (invalid ''relay token is malformed''))"

definition token_kid :: "obj \<Rightarrow> string" where
  "token_kid header = (case as_str (field header ''kid'') of Some k \<Rightarrow> if trim k = [] then ''v1'' else k | None \<Rightarrow> ''v1'')"

definition verifyRelayTokenClaims :: "crypto \<Rightarrow> rsa_verifier \<Rightarrow> token_options \<Rightarrow> int \<Rightarrow> string \<Rightarrow> thrown + obj" where
  "verifyRelayTokenClaims c rsa opts nowSec relayToken =
     and_then (token_parts relayToken) (\<lambda>(headerPart, payloadPart, signaturePart).
     and_then (parseBase64UrlJson c headerPart ''header'') (\<lambda>h.
     and_then (as_object h (invalid ''relay token header is invalid'')) (\<lambda>header.
     and_then (check (eq_str (field header ''alg'') ''HS256'' \<or> eq_str (field header ''alg'') ''RS256'') (invalid ''unsupported relay token alg'')) (\<lambda>_.
     and_then (trusted_key (tk_signingKeys opts) (token_kid header)) (\<lambda>signingKey.
     and_then (check_signature c rsa (if eq_str (field header ''alg'') ''HS256'' then ''HS256'' else ''RS256'') signingKey
       (headerPart @ ''.'' @ payloadPart) signaturePart) (\<lambda>_.
     and_then (parseBase64UrlJson c payloadPart ''payload'') (\<lambda>p.
     and_then (as_object p (invalid ''relay token payload is not an object'')) (\<lambda>payload.
     and_then (check_claims opts nowSec payload) (\<lambda>_. Inr payload)))))))))"

section \<open>Keys of the issuer\<close>

text \<open>\<open>import_key\<close> makes the PEM text of an RSA key from its modulus and exponent; \<open>None\<close> when it throws. Setting \<open>__proto__\<close> to
  a string does nothing.\<close>

fun jwks_keys :: "(string \<Rightarrow> string \<Rightarrow> string option) \<Rightarrow> json list \<Rightarrow> key_table \<Rightarrow> key_table" where
  "jwks_keys import_key [] keys = keys"
| "jwks_keys import_key (JObj entry # es) keys =
     (let txt_of = (\<lambda>k. case as_str (field entry k) of Some s \<Rightarrow> s | None \<Rightarrow> []);
          kid = trim (txt_of ''kid''); alg = txt_of ''alg''; n = txt_of ''n''; e = txt_of ''e'' in
      if kid = [] \<or> txt_of ''kty'' \<noteq> ''RSA'' \<or> n = [] \<or> e = [] then jwks_keys import_key es keys
      else if alg \<noteq> [] \<and> alg \<noteq> ''RS256'' then jwks_keys import_key es keys
      else case import_key n e of
          None \<Rightarrow> jwks_keys import_key es keys
        | Some pem \<Rightarrow> jwks_keys import_key es (if kid = ''__proto__'' then keys else jm_set kid pem keys))"
| "jwks_keys import_key (_ # es) keys = jwks_keys import_key es keys"

definition parseJwksSigningKeys :: "(string \<Rightarrow> string \<Rightarrow> string option) \<Rightarrow> json list \<Rightarrow> thrown + key_table" where
  "parseJwksSigningKeys import_key entries =
     (let keys = jwks_keys import_key entries []
      in and_then (check (keys \<noteq> []) (invalid ''JWKS contained no usable signing keys'')) (\<lambda>_. Inr keys))"

text \<open>An answer of a server: the request throws, or a status and the body, \<open>None\<close> when it is not JSON.\<close>

datatype answer = Unreachable string | Answered int "json option"

definition status_ok :: "int \<Rightarrow> bool" where
  "status_ok status \<longleftrightarrow> 200 \<le> status \<and> status \<le> 299"

record token_issuer =
  ti_jwksUrl :: "string option"
  ti_signingKeys :: key_table
  ti_cacheExpiresAt :: int
  ti_cacheKeys :: key_table
  ti_issueToken :: "string option"
  ti_issuer :: "string option"
  ti_audience :: "string option"
  ti_clockSkewSec :: "int option"

text \<open>\<open>now\<close> is the time before the request, \<open>later\<close> the time after it.\<close>

definition resolveRelayTokenVerificationKeys ::
    "(string \<Rightarrow> string \<Rightarrow> string option) \<Rightarrow> answer \<Rightarrow> int \<Rightarrow> int \<Rightarrow> bool \<Rightarrow> token_issuer \<Rightarrow> (thrown + key_table) \<times> token_issuer" where
  "resolveRelayTokenVerificationKeys import_key jwks now later forceRefresh ti =
     (if Option.bind (ti_jwksUrl ti) non_empty = None then (Inr (ti_signingKeys ti), ti)
      else if \<not> forceRefresh \<and> now < ti_cacheExpiresAt ti \<and> ti_cacheKeys ti \<noteq> [] then (Inr (ti_cacheKeys ti), ti)
      else case jwks of
          Unreachable m \<Rightarrow> (Inl (invalid (''failed to fetch JWKS: '' @ m)), ti)
        | Answered status body \<Rightarrow>
            if \<not> status_ok status then (Inl (invalid (''JWKS endpoint returned HTTP '' @ int_string status)), ti)
            else case (case body of Some (JObj m) \<Rightarrow> field m ''keys'' | _ \<Rightarrow> None) of
                Some (JArr entries) \<Rightarrow>
                  if length entries > 64
                  then (Inl (invalid (''JWKS response contains too many keys ('' @ nat_string (length entries) @ '' > 64)'')), ti)
                  else (case parseJwksSigningKeys import_key entries of
                      Inl e \<Rightarrow> (Inl e, ti)
                    | Inr keys \<Rightarrow> (Inr keys, ti\<lparr>ti_cacheKeys := keys, ti_cacheExpiresAt := later + 5 * 60000\<rparr>))
              | _ \<Rightarrow> (Inl (invalid ''JWKS response missing keys array''), ti))"

definition verifyTokenClaims :: "crypto \<Rightarrow> rsa_verifier \<Rightarrow> token_issuer \<Rightarrow> int \<Rightarrow> key_table \<Rightarrow> string \<Rightarrow> thrown + obj" where
  "verifyTokenClaims c rsa ti nowSec keys relayToken =
     verifyRelayTokenClaims c rsa
       \<lparr>tk_issuer = Some (case ti_issuer ti of Some s \<Rightarrow> s | None \<Rightarrow> ''viewport-server''),
        tk_audience = Some (case ti_audience ti of Some s \<Rightarrow> s | None \<Rightarrow> ''viewport-relay''), tk_signingKeys = keys,
        tk_clockSkewSec = (case ti_clockSkewSec ti of Some n \<Rightarrow> n | None \<Rightarrow> 30)\<rparr> nowSec relayToken"

text \<open>\<open>error.message.includes('is not trusted')\<close>.\<close>

definition untrusted_key_error :: "thrown \<Rightarrow> bool" where
  "untrusted_key_error e =
     (case e of Bridge_thrown (code, m) \<Rightarrow> code = TOKEN_RESPONSE_INVALID \<and> str_includes m ''is not trusted'' | _ \<Rightarrow> False)"

definition verifyIssueResponseToken ::
    "crypto \<Rightarrow> rsa_verifier \<Rightarrow> (string \<Rightarrow> string \<Rightarrow> string option) \<Rightarrow> answer \<Rightarrow> answer \<Rightarrow> int \<Rightarrow> token_issuer \<Rightarrow> string
     \<Rightarrow> (thrown + obj) \<times> token_issuer" where
  "verifyIssueResponseToken c rsa import_key jwks again now ti relayToken =
     (case resolveRelayTokenVerificationKeys import_key jwks now now False ti of
        (Inl e, ti1) \<Rightarrow> (Inl e, ti1)
      | (Inr keys, ti1) \<Rightarrow>
          (case verifyTokenClaims c rsa ti1 (now div 1000) keys relayToken of
             Inr payload \<Rightarrow> (Inr payload, ti1)
           | Inl e \<Rightarrow>
               if Option.bind (ti_jwksUrl ti1) non_empty \<noteq> None \<and> untrusted_key_error e
               then (case resolveRelayTokenVerificationKeys import_key again now now True ti1 of
                       (Inl e', ti2) \<Rightarrow> (Inl e', ti2)
                     | (Inr keys', ti2) \<Rightarrow> (verifyTokenClaims c rsa ti2 (now div 1000) keys' relayToken, ti2))
               else (Inl e, ti1)))"

text \<open>The text of a failed answer: \<open>parsed.reason ?? parsed.error ?? `HTTP ${status}`\<close>, where these are strings.\<close>

definition failure_reason :: "obj \<Rightarrow> int \<Rightarrow> string" where
  "failure_reason m status =
     (case as_str (field m ''reason'') of
        Some r \<Rightarrow> r
      | None \<Rightarrow> (case as_str (field m ''error'') of Some r \<Rightarrow> r | None \<Rightarrow> ''HTTP '' @ int_string status))"

definition js_truthy :: "json option \<Rightarrow> bool" where
  "js_truthy v = (case v of None \<Rightarrow> False | Some JNull \<Rightarrow> False | Some (JBool b) \<Rightarrow> b | Some (JNum q) \<Rightarrow> q \<noteq> 0 | Some (JStr s) \<Rightarrow> s \<noteq> [] | Some _ \<Rightarrow> True)"

definition parseRelayIssueResponse :: "int \<Rightarrow> json option \<Rightarrow> obj" where
  "parseRelayIssueResponse status body =
     (if \<not> js_truthy body
      then [(''ok'', JBool False), (''reason'', JStr (''relay token endpoint returned non-JSON ('' @ int_string status @ '')''))]
      else case body of Some (JObj m) \<Rightarrow> m | _ \<Rightarrow> [])"

definition issue ::
    "crypto \<Rightarrow> rsa_verifier \<Rightarrow> (string \<Rightarrow> string \<Rightarrow> string option) \<Rightarrow> answer \<Rightarrow> answer \<Rightarrow> answer \<Rightarrow> int \<Rightarrow> token_issuer
     \<Rightarrow> (thrown + string \<times> profile) \<times> token_issuer" where
  "issue c rsa import_key response jwks again now ti =
     (if Option.bind (ti_issueToken ti) non_empty = None
      then (Inl (Bridge_thrown (TOKEN_ISSUE_FAILED, ''missing daemon issue token'')), ti)
      else case response of
          Unreachable m \<Rightarrow> (Inl (Bridge_thrown (TOKEN_ISSUE_FAILED, m)), ti)
        | Answered status body \<Rightarrow>
            let parsed = parseRelayIssueResponse status body in
            if \<not> (status_ok status \<and> js_truthy (field parsed ''ok'') \<and> js_truthy (field parsed ''relayToken''))
            then (Inl (Bridge_thrown (TOKEN_ISSUE_FAILED, ''issue relay token failed: '' @ failure_reason parsed status)), ti)
            else case field parsed ''relayToken'' of
                Some (JStr relayToken) \<Rightarrow>
                  (case verifyIssueResponseToken c rsa import_key jwks again now ti relayToken of
                     (Inl e, ti') \<Rightarrow> (Inl e, ti')
                   | (Inr claims, ti') \<Rightarrow>
                       let named = (case field claims ''e2eeProfile'' of None \<Rightarrow> Some (JStr ''noise-ik'') | Some JNull \<Rightarrow> Some (JStr ''noise-ik'') | v \<Rightarrow> v) in
                       (case parseRelayHandshakeProfile named of
                          None \<Rightarrow> (Inl (invalid ''missing/invalid e2eeProfile claim''), ti')
                        | Some p \<Rightarrow> (Inr (relayToken, p), ti')))
              | _ \<Rightarrow> \<comment> \<open>\<open>split\<close> of no string\<close>
                  (case resolveRelayTokenVerificationKeys import_key jwks now now False ti of
                     (Inl e, ti') \<Rightarrow> (Inl e, ti')
                   | (Inr _, ti') \<Rightarrow> (Inl platform, ti')))"

section \<open>Registration of the daemon's key\<close>

definition trimmed_text :: "obj \<Rightarrow> string \<Rightarrow> string option" where
  "trimmed_text m k = map_option trim (as_str (field m k))"

text \<open>\<open>trim\<close> of a value that is neither a string nor absent throws.\<close>

definition trims :: "obj \<Rightarrow> string \<Rightarrow> bool" where
  "trims m k \<longleftrightarrow> field m k \<in> {None, Some JNull} \<or> is_str (field m k)"

text \<open>The body that is sent, and what the answer gives: the issue token to use, and what is kept in the configuration.\<close>

definition registration_body :: "string option \<Rightarrow> string \<Rightarrow> string option \<Rightarrow> json" where
  "registration_body issueToken publicKey runtimeTargetId = JObj
     ((case issueToken of Some t \<Rightarrow> [(''credential'', JStr t)] | None \<Rightarrow> []) @ [(''daemonPublicKey'', JStr publicKey)]
      @ (case runtimeTargetId of Some t \<Rightarrow> [(''runtimeTargetId'', JStr t)] | None \<Rightarrow> []))"

record registered =
  rg_issueToken :: "string option"
  rg_runtimeTargetId :: "string option"
  rg_installId :: "string option"

definition registerDaemonPublicKeyWithControlPlane ::
    "answer \<Rightarrow> bool \<Rightarrow> string option \<Rightarrow> string option \<Rightarrow> (thrown + string) \<times> registered option" where
  "registerDaemonPublicKeyWithControlPlane response has_identity issueToken runtimeTargetId =
     (let failed = (\<lambda>m. Inl (Bridge_thrown (DAEMON_KEY_REGISTER_FAILED, m))) in
      if \<not> has_identity then (failed ''daemon identity unavailable'', None)
      else case response of
          Unreachable m \<Rightarrow> (failed m, None)
        | Answered status body \<Rightarrow>
            let m = (case body of Some (JObj m) \<Rightarrow> m | _ \<Rightarrow> []) in
            if \<not> (status_ok status \<and> js_truthy (field m ''ok''))
            then (failed (''daemon key registration failed: '' @ failure_reason m status), None)
            else if \<not> list_all (trims m) [''daemonIssueToken'', ''runtimeTargetId'', ''installId''] then (Inl platform, None)
            else
              let issued = (case trimmed_text m ''daemonIssueToken'' of Some t \<Rightarrow> t | None \<Rightarrow> []);
                  kept = \<lparr>rg_issueToken = (if issued \<noteq> [] then Some issued else issueToken),
                    rg_runtimeTargetId = (case trimmed_text m ''runtimeTargetId'' of Some t \<Rightarrow> Some t | None \<Rightarrow> runtimeTargetId),
                    rg_installId = trimmed_text m ''installId''\<rparr>
              in if issued \<noteq> [] then (Inr issued, Some kept)
                 else case issueToken of
                     Some t \<Rightarrow> if trim t \<noteq> [] then (Inr t, Some kept)
                       else (failed ''daemon key registration succeeded but daemon issue token was missing'', Some kept)
                   | None \<Rightarrow> (failed ''daemon key registration succeeded but daemon issue token was missing'', Some kept))"

section \<open>What is accepted\<close>

text \<open>What an accepted token has shown: a known key verified it, its claims hold now.\<close>

lemma token_parts_Inr: "token_parts t = Inr (h, p, s) \<longleftrightarrow> splitOn (CHR ''.'') t = [h, p, s] \<and> h \<noteq> [] \<and> p \<noteq> [] \<and> s \<noteq> []"
  by (auto simp: token_parts_def split: list.splits)

lemma accepted_token:
  assumes "verifyRelayTokenClaims c rsa opts nowSec relayToken = Inr payload"
  shows "\<exists>h p s header key alg. splitOn (CHR ''.'') relayToken = [h, p, s] \<and> parseBase64UrlJson c h ''header'' = Inr (JObj header)
    \<and> trusted_key (tk_signingKeys opts) (token_kid header) = Inr key \<and> check_signature c rsa alg key (h @ ''.'' @ p) s = Inr ()
    \<and> parseBase64UrlJson c p ''payload'' = Inr (JObj payload) \<and> check_claims opts nowSec payload = Inr ()"
  using assms unfolding verifyRelayTokenClaims_def and_then_Inr by (auto simp: token_parts_Inr and_then_Inr)

lemma numeric_claim: "ensureNumericClaim payload name = Inr (Some q) \<Longrightarrow> field payload name = Some (JNum q)"
  by (auto simp: ensureNumericClaim_def split: option.split_asm json.split_asm)

lemma claims_in_time:
  assumes "check_claims opts nowSec payload = Inr ()"
  shows "\<exists>e. field payload ''exp'' = Some (JNum e) \<and> of_int (nowSec - max 0 (tk_clockSkewSec opts)) < e"
proof -
  obtain e where "ensureNumericClaim payload ''exp'' = Inr (Some e)" "\<not> e \<le> of_int (nowSec - max 0 (tk_clockSkewSec opts))"
    using assms unfolding check_claims_def Let_def and_then_Inr by (auto simp del: of_int_diff)
  then show ?thesis using numeric_claim by force
qed

section \<open>A forged token\<close>

text \<open>What anybody can make who knows the text of a key.\<close>

definition forged_token :: "crypto \<Rightarrow> string \<Rightarrow> string \<Rightarrow> obj \<Rightarrow> string" where
  "forged_token c kid key payload =
     (let h = toBase64Url (utf8 (JSON_stringify (JObj [(''alg'', JStr ''HS256''), (''kid'', JStr kid)])));
          p = toBase64Url (utf8 (JSON_stringify (JObj payload)))
      in h @ ''.'' @ p @ ''.'' @ toBase64Url (c_hmac c (utf8 key) (utf8 (h @ ''.'' @ p))))"

lemma b64_char_no_dot: "n < 64 \<Longrightarrow> b64_char n \<noteq> CHR ''.''"
proof
  assume "n < 64" "b64_char n = CHR ''.''"
  with b64_value_char [of n] have "b64_value (CHR ''.'') = Some n" by simp
  then show False by (simp add: b64_value_def)
qed

lemma base64_no_dot: "is_bytes bs \<Longrightarrow> CHR ''.'' \<notin> set (toBase64Url bs)"
  using sextets_small b64_char_no_dot by (fastforce simp: toBase64Url_def)

lemma base64_empty: "toBase64Url bs = [] \<longleftrightarrow> bs = []"
  by (cases bs rule: sextets.cases) (simp_all add: toBase64Url_def)

lemma splitOn_none: "ch \<notin> set s \<Longrightarrow> splitOn ch s = [s]"
  by (induction s) auto

lemma splitOn_first: "ch \<notin> set s \<Longrightarrow> splitOn ch (s @ ch # t) = s # splitOn ch t"
  by (induction s) auto

lemma parse_written:
  assumes "crypto_laws c" and "exact v"
  shows "parseBase64UrlJson c (toBase64Url (utf8 (JSON_stringify v))) label = Inr v"
proof -
  have "c_text c (utf8 s) = s" for s using assms(1) by (simp add: crypto_laws_def)
  then show ?thesis using JSON_roundtrip [OF assms(2)] by (simp add: parseBase64UrlJson_def or_throw_def)
qed

text \<open>C36: a public key signs tokens. When the keys of the issuer are RSA keys, their texts are public; whoever takes such a text for
  the secret of an HS256 signature makes tokens that the daemon accepts, with any claims that are due.\<close>

theorem public_key_forges_token:
  assumes laws: "crypto_laws c" and key: "jm_get (tk_signingKeys opts) kid = Some pem" "trim pem \<noteq> []" "trim kid \<noteq> []"
    and claims: "exact (JObj payload)" "check_claims opts nowSec payload = Inr ()"
  shows "verifyRelayTokenClaims c rsa opts nowSec (forged_token c kid pem payload) = Inr payload"
proof -
  let ?header = "[(''alg'', JStr ''HS256''), (''kid'', JStr kid)]"
  let ?h = "toBase64Url (utf8 (JSON_stringify (JObj ?header)))" and ?p = "toBase64Url (utf8 (JSON_stringify (JObj payload)))"
  let ?s = "toBase64Url (c_hmac c (utf8 pem) (utf8 (?h @ ''.'' @ ?p)))"
  have hm: "is_bytes (c_hmac c k x)" "length (c_hmac c k x) = 32" for k x using laws by (simp_all add: crypto_laws_def)
  have hm_ne: "c_hmac c k x \<noteq> []" for k x using hm(2) [of k x] by auto
  have ne: "utf8 t = [] \<longleftrightarrow> t = []" for t using utf8_inj [of t "[]"] by (auto simp: utf8_def)
  have parts: "token_parts (forged_token c kid pem payload) = Inr (?h, ?p, ?s)"
    by (simp add: token_parts_Inr forged_token_def Let_def splitOn_first splitOn_none base64_no_dot hm hm_ne base64_empty ne)
  have "exact (JObj ?header)" by simp
  note read = parse_written [OF laws this] parse_written [OF laws claims(1)]
  have "trusted_key (tk_signingKeys opts) (token_kid ?header) = Inr pem"
    using key by (simp add: trusted_key_def token_kid_def field_def as_str_def)
  moreover have "check_signature c rsa ''HS256'' pem (?h @ ''.'' @ ?p) ?s = Inr ()"
    by (simp add: check_signature_def secureCompare_def Let_def)
  ultimately show ?thesis
    using claims(2) by (simp add: verifyRelayTokenClaims_def parts read as_object_def field_def eq_str_def check_def del: JSON_stringify.simps)
qed

theorem public_key_forges_token_witness:
  "let opts = \<lparr>tk_issuer = Some ''viewport-server'', tk_audience = Some ''viewport-relay'',
       tk_signingKeys = [(''k1'', ''-----BEGIN PUBLIC KEY-----'')], tk_clockSkewSec = 30\<rparr>;
       claims = [(''iss'', JStr ''viewport-server''), (''aud'', JStr ''viewport-relay''), (''exp'', JNum 2000), (''jti'', JStr ''j'')]
   in verifyRelayTokenClaims open_crypto (\<lambda>_ _ _. None) opts 1000 (forged_token open_crypto ''k1'' ''-----BEGIN PUBLIC KEY-----'' claims) = Inr claims"
  unfolding Let_def
  by (rule public_key_forges_token [OF open_crypto_laws])
     (simp_all add: js_map_simps trim_def js_space_def check_claims_def ensureAudience_def ensureNumericClaim_def field_def eq_str_def check_def
       or_throw_def is_nonblank_def as_str_def non_empty_def)

end
