(* ===== verification/Daemon_Bridge.thy ===== *)
theory Daemon_Bridge
  imports Bridge_Sessions Bridge_Tokens
begin

text \<open>
  The relay bridge of the daemon (\<open>relay/daemon-relay-bridge.ts\<close>): the loop that connects, the handlers of its two sockets, the control
  frames, the key exchanges and the queue of messages that wait for the relay.

  A socket is a number; \<open>opened\<close> tells which ones are in state OPEN. Every piece of code between two awaits is one step. What an await
  returns, the time and random values are arguments of the step that goes on with them. A coroutine that waits is a \<open>task\<close>.
\<close>

section \<open>State\<close>

datatype bridge_status = Stopped | Connecting | Connected | Waiting_retry | Circuit_open

record bridge_config =
  bc_maxPendingOutbound :: nat
  bc_maxPendingOutboundBytes :: nat
  bc_keyRotateAfterMessages :: int
  bc_relaySessionMaxEntries :: nat
  bc_filterDaemonPayload :: "string \<Rightarrow> string option"

text \<open>The constructor keeps an option when it is an integer from \<open>lo\<close> on.\<close>

definition option_from :: "int \<Rightarrow> int \<Rightarrow> rat option \<Rightarrow> int" where
  "option_from lo preset v =
     (case v of Some q \<Rightarrow> if snd (quotient_of q) = 1 \<and> fst (quotient_of q) \<ge> lo then fst (quotient_of q) else preset | None \<Rightarrow> preset)"

definition bridge_config_of :: "nat option \<Rightarrow> nat option \<Rightarrow> rat option \<Rightarrow> rat option \<Rightarrow> (string \<Rightarrow> string option) option \<Rightarrow> bridge_config" where
  "bridge_config_of maxPending maxPendingBytes keyRotate sessionMax filterPayload =
     \<lparr>bc_maxPendingOutbound = (case maxPending of Some n \<Rightarrow> n | None \<Rightarrow> 500),
      bc_maxPendingOutboundBytes = (case maxPendingBytes of Some n \<Rightarrow> n | None \<Rightarrow> 4 * 1048576),
      bc_keyRotateAfterMessages = option_from 1 250 keyRotate, bc_relaySessionMaxEntries = nat (option_from 1 4096 sessionMax),
      bc_filterDaemonPayload = (case filterPayload of Some f \<Rightarrow> f | None \<Rightarrow> Some)\<rparr>"

record bridge =
  br_relayWs :: "nat option"
  br_daemonWs :: "nat option"
  br_running :: bool
  br_reconnecting :: bool
  br_reconnectAttempt :: nat
  br_pendingOutbound :: "string list"
  br_pendingOutboundBytes :: int
  br_identity :: "relay_identity option"
  br_issueToken :: "string option"
  br_requiredProfile :: profile
  br_relaySessions :: sessions
  br_pairingChannelKeys :: "(string, bytes \<times> int) js_map"
  br_issueFailures :: nat
  br_circuitOpenUntilMs :: int
  br_lastError :: "(bridge_code \<times> string \<times> int) option"
  br_state :: bridge_status
  br_relayEndpoint :: string

definition new_bridge :: "string \<Rightarrow> string option \<Rightarrow> bridge" where
  "new_bridge relayEndpoint issueToken =
     \<lparr>br_relayWs = None, br_daemonWs = None, br_running = False, br_reconnecting = False, br_reconnectAttempt = 0, br_pendingOutbound = [],
      br_pendingOutboundBytes = 0, br_identity = None, br_issueToken = issueToken, br_requiredProfile = Noise_ik, br_relaySessions = [],
      br_pairingChannelKeys = [], br_issueFailures = 0, br_circuitOpenUntilMs = 0, br_lastError = None, br_state = Stopped,
      br_relayEndpoint = relayEndpoint\<rparr>"

text \<open>What a step does to the sockets.\<close>

datatype effect = Close nat | Send_relay nat string | Send_daemon nat string

text \<open>\<open>closeQuietly\<close>.\<close>

definition closing :: "nat option \<Rightarrow> effect list" where
  "closing ws = (case ws of Some n \<Rightarrow> [Close n] | None \<Rightarrow> [])"

definition recordError :: "bridge_code \<Rightarrow> string \<Rightarrow> int \<Rightarrow> bridge \<Rightarrow> bridge" where
  "recordError code message now b = b\<lparr>br_lastError := Some (code, message, now)\<rparr>"

section \<open>The loop that connects\<close>

text \<open>Where the loop waits.\<close>

datatype loop_phase =
  In_circuit | Loading_identity | Registering | Issuing | Opening_daemon string | Opening_relay nat string | In_backoff

datatype returned =
  Slept
| Loaded "thrown + relay_identity"
| Registered "thrown + string"
| Issued "thrown + string \<times> profile"
| Opened "thrown + nat"

definition ISSUE_FAILURE_THRESHOLD :: nat where "ISSUE_FAILURE_THRESHOLD = 5"
definition CIRCUIT_BREAKER_MS :: int where "CIRCUIT_BREAKER_MS = 60000"

definition loop_attempt :: "bridge \<Rightarrow> bridge \<times> loop_phase" where
  "loop_attempt b =
     (b\<lparr>br_reconnectAttempt := br_reconnectAttempt b + 1\<rparr>, if br_identity b = None then Loading_identity else Registering)"

definition connectLoop :: "int \<Rightarrow> bridge \<Rightarrow> bridge \<times> loop_phase option" where
  "connectLoop now b =
     (if \<not> br_running b then (b, None)
      else if br_reconnecting b then (b, None)
      else
        let b1 = b\<lparr>br_reconnecting := True, br_state := Connecting\<rparr> in
        if br_circuitOpenUntilMs b1 > now then (b1\<lparr>br_state := Circuit_open\<rparr>, Some In_circuit)
        else map_prod id Some (loop_attempt b1))"

definition loop_failed :: "int \<Rightarrow> thrown \<Rightarrow> bridge \<Rightarrow> bridge \<times> effect list \<times> loop_phase option" where
  "loop_failed now error b =
     (let effects = closing (br_relayWs b) @ closing (br_daemonWs b);
          (code, message) = normalizeBridgeError error;
          b1 = recordError code message now (b\<lparr>br_relayWs := None, br_daemonWs := None, br_relaySessions := []\<rparr>);
          b2 = (if isControlPlaneBridgeError code
            then let b' = b1\<lparr>br_issueFailures := br_issueFailures b1 + 1\<rparr>
                 in if br_issueFailures b' \<ge> ISSUE_FAILURE_THRESHOLD then b'\<lparr>br_circuitOpenUntilMs := now + CIRCUIT_BREAKER_MS\<rparr> else b'
            else b1)
      in if br_running b2 then (b2\<lparr>br_state := Waiting_retry\<rparr>, effects, Some In_backoff)
         else (b2\<lparr>br_reconnecting := False\<rparr>, effects, None))"

text \<open>A socket and the random bytes of the messages that go out.\<close>

definition sendToAll :: "crypto \<Rightarrow> bridge_config \<Rightarrow> (string \<Rightarrow> int \<Rightarrow> bytes) \<Rightarrow> int \<Rightarrow> nat \<Rightarrow> string \<Rightarrow> bridge \<Rightarrow> bridge \<times> effect list" where
  "sendToAll c cfg ivs now relayWs payload b =
     (let (frames, ss) = sendToAllRelaySessions c ivs (bc_keyRotateAfterMessages cfg) RELAY_SESSION_IDLE_TTL_MS now payload (br_relaySessions b)
      in (b\<lparr>br_relaySessions := ss\<rparr>, map (Send_relay relayWs) frames))"

text \<open>No message in the queue is empty, so the guard against an empty one never ends the loop early; it is here all the same.\<close>

fun flush_queue :: "crypto \<Rightarrow> bridge_config \<Rightarrow> (string \<Rightarrow> int \<Rightarrow> bytes) \<Rightarrow> int \<Rightarrow> nat \<Rightarrow> string list \<Rightarrow> bridge \<Rightarrow> bridge \<times> effect list" where
  "flush_queue c cfg ivs now relayWs [] b = (b, [])"
| "flush_queue c cfg ivs now relayWs (next # rest) b =
     (let b1 = b\<lparr>br_pendingOutbound := rest\<rparr> in
      if next = [] then (b1, [])
      else
        let (b2, sent) = sendToAll c cfg ivs now relayWs next
              (b1\<lparr>br_pendingOutboundBytes := br_pendingOutboundBytes b1 - int (byteLength next)\<rparr>);
            (b3, more_sent) = flush_queue c cfg ivs now relayWs rest b2
        in (b3, sent @ more_sent))"

definition flushPendingOutbound ::
    "crypto \<Rightarrow> bridge_config \<Rightarrow> (string \<Rightarrow> int \<Rightarrow> bytes) \<Rightarrow> (nat \<Rightarrow> bool) \<Rightarrow> int \<Rightarrow> bridge \<Rightarrow> bridge \<times> effect list" where
  "flushPendingOutbound c cfg ivs opened now b =
     (case br_relayWs b of
        None \<Rightarrow> (b, [])
      | Some relayWs \<Rightarrow>
          if \<not> opened relayWs then (b, [])
          else
            let (b1, sent) = flush_queue c cfg ivs now relayWs (br_pendingOutbound b) b
            in (if br_pendingOutboundBytes b1 < 0 then b1\<lparr>br_pendingOutboundBytes := 0\<rparr> else b1, sent))"

text \<open>
  One resumption of the loop. The last component is the pair of sockets whose handlers are installed.
\<close>

definition loop_resumes ::
    "crypto \<Rightarrow> bridge_config \<Rightarrow> (string \<Rightarrow> int \<Rightarrow> bytes) \<Rightarrow> (nat \<Rightarrow> bool) \<Rightarrow> int \<Rightarrow> loop_phase \<Rightarrow> returned \<Rightarrow> bridge
     \<Rightarrow> bridge \<times> effect list \<times> loop_phase option \<times> (nat \<times> nat) option" where
  "loop_resumes c cfg ivs opened now p r b =
     (let go = (\<lambda>(b', next). (b', [], Some next, None)); fail = (\<lambda>e. let (b', effects, next) = loop_failed now e b in (b', effects, next, None)) in
      case (p, r) of
        (In_circuit, Slept) \<Rightarrow> go (loop_attempt b)
      | (In_backoff, Slept) \<Rightarrow> (let (b', next) = connectLoop now (b\<lparr>br_reconnecting := False\<rparr>) in (b', [], next, None))
      | (Loading_identity, Loaded (Inr identity)) \<Rightarrow> go (b\<lparr>br_identity := Some identity\<rparr>, Registering)
      | (Loading_identity, Loaded (Inl e)) \<Rightarrow> fail e
      | (Registering, Registered (Inr token)) \<Rightarrow> go (if token = [] then b else b\<lparr>br_issueToken := Some token\<rparr>, Issuing)
      | (Registering, Registered (Inl e)) \<Rightarrow> fail e
      | (Issuing, Issued (Inr (token, required))) \<Rightarrow>
          if token = [] then fail (Bridge_thrown (TOKEN_RESPONSE_INVALID, ''relay token response missing relayToken''))
          else go (b\<lparr>br_requiredProfile := required, br_relaySessions := [], br_issueFailures := 0, br_circuitOpenUntilMs := 0\<rparr>, Opening_daemon token)
      | (Issuing, Issued (Inl e)) \<Rightarrow> fail e
      | (Opening_daemon token, Opened (Inr daemonWs)) \<Rightarrow> go (b\<lparr>br_daemonWs := Some daemonWs\<rparr>, Opening_relay daemonWs token)
      | (Opening_daemon token, Opened (Inl e)) \<Rightarrow> fail e
      | (Opening_relay daemonWs token, Opened (Inr relayWs)) \<Rightarrow>
          (let (b', sent) = flushPendingOutbound c cfg ivs opened now
                 (b\<lparr>br_relayWs := Some relayWs, br_state := Connected, br_reconnectAttempt := 0\<rparr>)
           in (b'\<lparr>br_reconnecting := False\<rparr>, sent, None, Some (daemonWs, relayWs)))
      | (Opening_relay daemonWs token, Opened (Inl e)) \<Rightarrow> fail e
      | _ \<Rightarrow> (b, [], Some p, None))"

definition start :: "int \<Rightarrow> bridge \<Rightarrow> bridge \<times> loop_phase option" where
  "start now b =
     (if br_running b then (b, None)
      else connectLoop now (b\<lparr>br_running := True, br_reconnectAttempt := 0, br_state := Connecting\<rparr>))"

definition stop :: "bridge \<Rightarrow> bridge \<times> effect list" where
  "stop b =
     (b\<lparr>br_running := False, br_reconnecting := False, br_relayWs := None, br_daemonWs := None, br_pendingOutbound := [],
        br_pendingOutboundBytes := 0, br_relaySessions := [], br_pairingChannelKeys := [], br_state := Stopped\<rparr>,
      closing (br_relayWs b) @ closing (br_daemonWs b))"

text \<open>The handler of \<open>close\<close> on the sockets of a pair.\<close>

definition socket_closed :: "int \<Rightarrow> nat \<times> nat \<Rightarrow> string \<Rightarrow> bridge \<Rightarrow> bridge \<times> effect list \<times> loop_phase option" where
  "socket_closed now link source b =
     (if \<not> br_running b then (b, [], None)
      else if br_reconnecting b then (b, [], None)
      else
        let b1 = (recordError WEBSOCKET_ERROR (source @ '' disconnected'') now b)\<lparr>br_relayWs := None, br_daemonWs := None,
              br_relaySessions := [], br_state := Waiting_retry\<rparr>;
            (b2, next) = connectLoop now b1
        in (b2, [Close (snd link), Close (fst link)], next))"

section \<open>Messages of the daemon\<close>

text \<open>The loop that drops the oldest messages.\<close>

fun trim_queue :: "bridge_config \<Rightarrow> string list \<Rightarrow> int \<Rightarrow> string list \<times> int" where
  "trim_queue cfg q bytes =
     (if length q > bc_maxPendingOutbound cfg \<or> bytes > int (bc_maxPendingOutboundBytes cfg)
      then case q of
          [] \<Rightarrow> (q, bytes)
        | dropped # rest \<Rightarrow> if dropped = [] then (rest, bytes) else trim_queue cfg rest (bytes - int (byteLength dropped))
      else (q, bytes))"

declare trim_queue.simps [simp del]

definition daemon_message ::
    "crypto \<Rightarrow> bridge_config \<Rightarrow> (string \<Rightarrow> int \<Rightarrow> bytes) \<Rightarrow> (nat \<Rightarrow> bool) \<Rightarrow> int \<Rightarrow> nat \<times> nat \<Rightarrow> string \<Rightarrow> bridge \<Rightarrow> bridge \<times> effect list" where
  "daemon_message c cfg ivs opened now link payload b =
     (case Option.bind (bc_filterDaemonPayload cfg payload) non_empty of
        None \<Rightarrow> (b, [])
      | Some filtered \<Rightarrow>
          if opened (snd link) then sendToAll c cfg ivs now (snd link) filtered b
          else
            let (q, bytes) = trim_queue cfg (br_pendingOutbound b @ [filtered]) (br_pendingOutboundBytes b + int (byteLength filtered))
            in (b\<lparr>br_pendingOutbound := q, br_pendingOutboundBytes := bytes\<rparr>, []))"

section \<open>Key exchanges\<close>

text \<open>What a step draws at random.\<close>

record draws =
  dr_nonce :: bytes
  dr_private :: bytes
  dr_sessionId :: string

text \<open>Coroutines that wait: the loop, an exchange that looks up the secret of a pairing, a pairing request.\<close>

datatype task =
  Loop loop_phase
| Exchange_v2 init_v2 nat int
| Exchange_v3 init_v3 nat int
| Offer offer_frame nat
| Redeem redeem_frame nat

text \<open>The epoch of the next session; \<open>None\<close> when the exchange is rejected.\<close>

definition next_epoch :: "bridge \<Rightarrow> profile \<Rightarrow> string option \<Rightarrow> int option" where
  "next_epoch b p previousSessionId =
     (case Option.bind previousSessionId non_empty of
        None \<Rightarrow> Some 1
      | Some i \<Rightarrow>
          (case jm_get (br_relaySessions b) i of
             None \<Rightarrow> None
           | Some previous \<Rightarrow>
               if rs_profile previous \<noteq> p then None
               else if \<not> rs_keyRotationRequested previous then None else Some (rs_epoch previous + 1)))"

definition exchange_epoch :: "bridge \<Rightarrow> profile \<Rightarrow> string option \<Rightarrow> int option" where
  "exchange_epoch b p previousSessionId =
     (if br_identity b = None then None
      else if \<not> isCompatibleProfile (br_requiredProfile b) p then None else next_epoch b p previousSessionId)"

definition resolvePolicyCPairingSecret :: "(string \<Rightarrow> bytes option) \<Rightarrow> string option \<Rightarrow> bytes option" where
  "resolvePolicyCPairingSecret resolve peerId =
     (case peerId of
        None \<Rightarrow> None
      | Some i \<Rightarrow> if trim i = [] then None else (case resolve i of Some s \<Rightarrow> if length s = 32 then Some s else None | None \<Rightarrow> None))"

definition enforce_capacity :: "bridge_config \<Rightarrow> int \<Rightarrow> sessions \<Rightarrow> sessions" where
  "enforce_capacity cfg now ss = fst (enforceRelaySessionCapacity ss (bc_relaySessionMaxEntries cfg) now RELAY_SESSION_IDLE_TTL_MS)"

text \<open>The end of an exchange, after the session is derived.\<close>

definition install_session ::
    "bridge_config \<Rightarrow> (nat \<Rightarrow> bool) \<Rightarrow> int \<Rightarrow> nat \<Rightarrow> string option \<Rightarrow> string + derived_session \<times> json \<Rightarrow> bridge \<Rightarrow> bridge \<times> effect list" where
  "install_session cfg opened now relayWs previousSessionId derived b =
     (case derived of
        Inl message \<Rightarrow> (recordError KEY_EXCHANGE_FAILED message now b, [])
      | Inr (session, response) \<Rightarrow>
          let kept = (case Option.bind previousSessionId non_empty of Some i \<Rightarrow> jm_delete i (br_relaySessions b) | None \<Rightarrow> br_relaySessions b);
              ss = jm_set (ds_sessionId session) (createRelaySessionState session now) kept
          in (b\<lparr>br_relaySessions := enforce_capacity cfg now ss\<rparr>,
              if opened relayWs then [Send_relay relayWs (JSON_stringify response)] else []))"

definition response_v2_json :: "response_v2 \<Rightarrow> json" where
  "response_v2_json r = JObj
     [(''type'', JStr ''relay_key_exchange_response''), (''version'', JNum 2), (''profile'', JStr (profile_name (r2_profile r))),
      (''requestId'', JStr (r2_requestId r)), (''daemonPublicKey'', JStr (r2_daemonPublicKey r)), (''daemonNonce'', JStr (r2_daemonNonce r)),
      (''sessionId'', JStr (r2_sessionId r)), (''epoch'', JNum (of_int (r2_epoch r))), (''proof'', JStr (r2_proof r))]"

definition response_v3_json :: "response_v3 \<Rightarrow> json" where
  "response_v3_json r = JObj
     [(''type'', JStr ''relay_key_exchange_response''), (''version'', JNum 3), (''profile'', JStr (profile_name (r3_profile r))),
      (''requestId'', JStr (r3_requestId r)), (''daemonPublicKey'', JStr (r3_daemonPublicKey r)),
      (''daemonEphemeralPublicKey'', JStr (r3_daemonEphemeralPublicKey r)), (''encryptedMetadata'', JStr (r3_encryptedMetadata r)),
      (''sessionId'', JStr (r3_sessionId r)), (''epoch'', JNum (of_int (r3_epoch r))), (''proof'', JStr (r3_proof r))]"

definition derived_v2 :: "crypto \<Rightarrow> draws \<Rightarrow> init_v2 \<Rightarrow> int \<Rightarrow> bytes option \<Rightarrow> bridge \<Rightarrow> string + derived_session \<times> json" where
  "derived_v2 c d init nextEpoch secret b =
     and_then (or_throw (br_identity b) platform_error) (\<lambda>identity.
     and_then (deriveSessionFromKeyExchange c init identity nextEpoch secret (dr_nonce d) (dr_sessionId d)) (\<lambda>(session, response).
     Inr (session, response_v2_json response)))"

definition derived_v3 :: "crypto \<Rightarrow> draws \<Rightarrow> init_v3 \<Rightarrow> int \<Rightarrow> bytes option \<Rightarrow> bridge \<Rightarrow> string + derived_session \<times> json" where
  "derived_v3 c d init nextEpoch secret b =
     and_then (or_throw (br_identity b) platform_error) (\<lambda>identity.
     and_then (deriveNoiseV3SessionFromInit c init identity nextEpoch secret (dr_private d) (dr_sessionId d)) (\<lambda>(session, response).
     Inr (session, response_v3_json response)))"

text \<open>Up to the first await: without a shared secret the exchange ends at once, otherwise it waits for the look-up.\<close>

definition handleKeyExchangeInit ::
    "crypto \<Rightarrow> bridge_config \<Rightarrow> draws \<Rightarrow> (nat \<Rightarrow> bool) \<Rightarrow> int \<Rightarrow> init_v2 \<Rightarrow> nat \<Rightarrow> bridge \<Rightarrow> bridge \<times> effect list \<times> task option" where
  "handleKeyExchangeInit c cfg d opened now init relayWs b =
     (case exchange_epoch b (i2_profile init) (i2_previousSessionId init) of
        None \<Rightarrow> (b, [], None)
      | Some n \<Rightarrow>
          if i2_profile init = Noise_ikpsk2 then (b, [], Some (Exchange_v2 init relayWs n))
          else let (b', effects) = install_session cfg opened now relayWs (i2_previousSessionId init) (derived_v2 c d init n None b) b
               in (b', effects, None))"

definition handleKeyExchangeInitV3 ::
    "crypto \<Rightarrow> bridge_config \<Rightarrow> draws \<Rightarrow> (nat \<Rightarrow> bool) \<Rightarrow> int \<Rightarrow> init_v3 \<Rightarrow> nat \<Rightarrow> bridge \<Rightarrow> bridge \<times> effect list \<times> task option" where
  "handleKeyExchangeInitV3 c cfg d opened now init relayWs b =
     (case exchange_epoch b (i3_profile init) (i3_previousSessionId init) of
        None \<Rightarrow> (b, [], None)
      | Some n \<Rightarrow>
          if i3_profile init = Noise_ikpsk2 then (b, [], Some (Exchange_v3 init relayWs n))
          else let (b', effects) = install_session cfg opened now relayWs (i3_previousSessionId init) (derived_v3 c d init n None b) b
               in (b', effects, None))"

text \<open>After the look-up.\<close>

definition exchange_v2_resumes ::
    "crypto \<Rightarrow> bridge_config \<Rightarrow> draws \<Rightarrow> (nat \<Rightarrow> bool) \<Rightarrow> int \<Rightarrow> (string \<Rightarrow> bytes option) \<Rightarrow> init_v2 \<Rightarrow> nat \<Rightarrow> int \<Rightarrow> bridge \<Rightarrow> bridge \<times> effect list" where
  "exchange_v2_resumes c cfg d opened now resolve init relayWs nextEpoch b =
     (case resolvePolicyCPairingSecret resolve (i2_pairingPeerId init) of
        None \<Rightarrow> (b, [])
      | Some secret \<Rightarrow> install_session cfg opened now relayWs (i2_previousSessionId init) (derived_v2 c d init nextEpoch (Some secret) b) b)"

definition exchange_v3_resumes ::
    "crypto \<Rightarrow> bridge_config \<Rightarrow> draws \<Rightarrow> (nat \<Rightarrow> bool) \<Rightarrow> int \<Rightarrow> (string \<Rightarrow> bytes option) \<Rightarrow> init_v3 \<Rightarrow> nat \<Rightarrow> int \<Rightarrow> bridge \<Rightarrow> bridge \<times> effect list" where
  "exchange_v3_resumes c cfg d opened now resolve init relayWs nextEpoch b =
     (case resolvePolicyCPairingSecret resolve (i3_pairingPeerId init) of
        None \<Rightarrow> (b, [])
      | Some secret \<Rightarrow> install_session cfg opened now relayWs (i3_previousSessionId init) (derived_v3 c d init nextEpoch (Some secret) b) b)"

section \<open>Messages of the relay\<close>

definition relay_status :: "int \<Rightarrow> nat \<times> nat \<Rightarrow> obj \<Rightarrow> bridge \<Rightarrow> bridge \<times> effect list" where
  "relay_status now link m b =
     (case as_str (field m ''relayWsBaseUrl'') of
        Some url \<Rightarrow>
          if eq_str (field m ''code'') ''RELAY_REDIRECT'' \<and> trim url \<noteq> [] \<and> url \<noteq> br_relayEndpoint b
          then (recordError WEBSOCKET_ERROR (''relay redirect requested: '' @ url) now (b\<lparr>br_relayEndpoint := url\<rparr>),
                [Close (snd link), Close (fst link)])
          else (b, [])
      | None \<Rightarrow> (b, []))"

definition key_update_required :: "obj \<Rightarrow> bridge \<Rightarrow> bridge" where
  "key_update_required m b =
     (case as_str (field m ''sessionId'') of
        None \<Rightarrow> b
      | Some i \<Rightarrow>
          (case jm_get (br_relaySessions b) i of
             None \<Rightarrow> b
           | Some s \<Rightarrow>
               if as_int (field m ''nextEpoch'') \<noteq> Some (rs_epoch s + 1) then b
               else b\<lparr>br_relaySessions := jm_set i (s\<lparr>rs_keyRotationRequested := True\<rparr>) (br_relaySessions b)\<rparr>))"

text \<open>\<open>None\<close> when the frame is no control frame.\<close>

definition handleRelayControlFrame ::
    "crypto \<Rightarrow> bridge_config \<Rightarrow> draws \<Rightarrow> (nat \<Rightarrow> bool) \<Rightarrow> int \<Rightarrow> nat \<times> nat \<Rightarrow> string \<Rightarrow> bridge
     \<Rightarrow> (bridge \<times> effect list \<times> task option) option" where
  "handleRelayControlFrame c cfg d opened now link frame b =
     (case JSON_parse frame of
        None \<Rightarrow> None
      | Some v \<Rightarrow>
          (case parsePairingOfferRequestFrame v of
             Some q \<Rightarrow> Some (b, [], Some (Offer q (snd link)))
           | None \<Rightarrow>
          (case parsePairingRedeemRequestFrame v of
             Some q \<Rightarrow> Some (b, [], Some (Redeem q (snd link)))
           | None \<Rightarrow>
          (case parseRelayKeyExchangeInitFrameV3 v of
             Some init \<Rightarrow> Some (handleKeyExchangeInitV3 c cfg d opened now init (snd link) b)
           | None \<Rightarrow>
          (case parseRelayKeyExchangeInitFrame v of
             Some init \<Rightarrow> Some (handleKeyExchangeInit c cfg d opened now init (snd link) b)
           | None \<Rightarrow>
               if \<not> isRelayControlFrame v then None
               else case v of
                   JObj m \<Rightarrow>
                     if eq_str (field m ''type'') ''relay_status''
                     then let (b', effects) = relay_status now link m b in Some (b', effects, None)
                     else Some (key_update_required m b, [], None)
                 | _ \<Rightarrow> None)))))"

definition envelope_message :: "crypto \<Rightarrow> (nat \<Rightarrow> bool) \<Rightarrow> int \<Rightarrow> nat \<times> nat \<Rightarrow> string \<Rightarrow> bridge \<Rightarrow> bridge \<times> effect list" where
  "envelope_message c opened now link frame b =
     (case parseRelayEnvelope frame of
        None \<Rightarrow> (recordError ENVELOPE_DECRYPT_FAILED platform_error now b, [])
      | Some e \<Rightarrow>
          (case jm_get (br_relaySessions b) (en_sessionId e) of
             None \<Rightarrow> (b, [])
           | Some s \<Rightarrow>
               if rs_profile s \<noteq> en_profile e \<or> rs_epoch s \<noteq> en_epoch e then (b, [])
               else
                 let (accepted, s') = acceptInboundRelaySeq s (en_seq e);
                     keep = (\<lambda>t. b\<lparr>br_relaySessions := jm_set (en_sessionId e) t (br_relaySessions b)\<rparr>) in
                 if \<not> accepted then (keep s', [])
                 else case decryptEnvelope c (rs_key s') e of
                     None \<Rightarrow> (recordError ENVELOPE_DECRYPT_FAILED platform_error now (keep s'), [])
                   | Some plaintext \<Rightarrow>
                       (keep (s'\<lparr>rs_lastActivityAt := now\<rparr>), if opened (fst link) then [Send_daemon (fst link) plaintext] else [])))"

definition relay_message ::
    "crypto \<Rightarrow> bridge_config \<Rightarrow> draws \<Rightarrow> (nat \<Rightarrow> bool) \<Rightarrow> int \<Rightarrow> nat \<times> nat \<Rightarrow> string \<Rightarrow> bridge \<Rightarrow> bridge \<times> effect list \<times> task option" where
  "relay_message c cfg d opened now link frame b =
     (case handleRelayControlFrame c cfg d opened now link frame b of
        Some r \<Rightarrow> r
      | None \<Rightarrow> let (b', effects) = envelope_message c opened now link frame b in (b', effects, None))"

end
