(* ===== verification/Bridge_Safety.thy ===== *)
theory Bridge_Safety
  imports Daemon_Bridge
begin

text \<open>
  The relay bridge as a transition system: its tasks, its sockets and the pairs of sockets whose handlers are installed. What holds
  in every reachable state, and what its interleavings make possible.
\<close>

section \<open>The system\<close>

record system =
  sy_bridge :: bridge
  sy_tasks :: "task list"
  sy_opened :: "nat list" \<comment> \<open>the sockets in state OPEN\<close>
  sy_links :: "(nat \<times> nat) list" \<comment> \<open>daemon's socket, relay's socket\<close>

record env =
  ev_now :: int
  ev_draws :: draws
  ev_ivs :: "string \<Rightarrow> int \<Rightarrow> bytes"

text \<open>Ids of sessions are \<open>rs_\<close> and random digits.\<close>

definition env_ok :: "env \<Rightarrow> bool" where
  "env_ok ev \<longleftrightarrow> trim (dr_sessionId (ev_draws ev)) \<noteq> []"

text \<open>What a task waited for.\<close>

datatype reply =
  Loop_reply returned
| Secret_reply "string \<Rightarrow> bytes option"
| Pairing_reply "(string, bytes \<times> int) js_map" json

datatype bridge_event =
  Start
| Stop
| Resume nat reply
| Closing nat
| From_daemon "nat \<times> nat" string
| From_relay "nat \<times> nat" string
| Closed "nat \<times> nat" string

definition sys_init :: "string \<Rightarrow> string option \<Rightarrow> system" where
  "sys_init relayEndpoint issueToken =
     \<lparr>sy_bridge = new_bridge relayEndpoint issueToken, sy_tasks = [], sy_opened = [], sy_links = []\<rparr>"

definition is_open :: "system \<Rightarrow> nat \<Rightarrow> bool" where
  "is_open sys n \<longleftrightarrow> n \<in> set (sy_opened sys)"

definition closed_by :: "effect list \<Rightarrow> nat \<Rightarrow> bool" where
  "closed_by effects n \<longleftrightarrow> Close n \<in> set effects"

definition tasks_of :: "task option \<Rightarrow> task list" where
  "tasks_of t = (case t of Some x \<Rightarrow> [x] | None \<Rightarrow> [])"

text \<open>A step of the bridge in the system: new state, effects, tasks that begin to wait.\<close>

definition stepped :: "system \<Rightarrow> task list \<Rightarrow> bridge \<times> effect list \<times> task list \<Rightarrow> system \<times> effect list" where
  "stepped sys waiting r =
     (case r of (b, effects, new_tasks) \<Rightarrow>
       (sys\<lparr>sy_bridge := b, sy_tasks := waiting @ new_tasks, sy_opened := filter (\<lambda>n. \<not> closed_by effects n) (sy_opened sys)\<rparr>, effects))"

definition without :: "nat \<Rightarrow> 'a list \<Rightarrow> 'a list" where
  "without i xs = take i xs @ drop (Suc i) xs"

definition opened_by :: "reply \<Rightarrow> nat list" where
  "opened_by r = (case r of Loop_reply (Opened (Inr n)) \<Rightarrow> [n] | _ \<Rightarrow> [])"

definition paired :: "(nat \<Rightarrow> bool) \<Rightarrow> nat \<Rightarrow> (string, bytes \<times> int) js_map \<Rightarrow> json \<Rightarrow> bridge \<Rightarrow> bridge \<times> effect list" where
  "paired opened relayWs keys reply b =
     (b\<lparr>br_pairingChannelKeys := keys\<rparr>, if opened relayWs then [Send_relay relayWs (JSON_stringify reply)] else [])"

text \<open>\<open>None\<close> when the task does not wait for such a reply.\<close>

definition task_resumes ::
    "crypto \<Rightarrow> bridge_config \<Rightarrow> env \<Rightarrow> (nat \<Rightarrow> bool) \<Rightarrow> task \<Rightarrow> reply \<Rightarrow> bridge
     \<Rightarrow> (bridge \<times> effect list \<times> loop_phase option \<times> (nat \<times> nat) option) option" where
  "task_resumes c cfg ev opened t r b =
     (let ends = (\<lambda>(b', effects). Some (b', effects, None, None)) in
      case t of
        Loop p \<Rightarrow> (case r of Loop_reply a \<Rightarrow> Some (loop_resumes c cfg (ev_ivs ev) opened (ev_now ev) p a b) | _ \<Rightarrow> None)
      | Exchange_v2 init ws n \<Rightarrow>
          (case r of Secret_reply resolve \<Rightarrow> ends (exchange_v2_resumes c cfg (ev_draws ev) opened (ev_now ev) resolve init ws n b) | _ \<Rightarrow> None)
      | Exchange_v3 init ws n \<Rightarrow>
          (case r of Secret_reply resolve \<Rightarrow> ends (exchange_v3_resumes c cfg (ev_draws ev) opened (ev_now ev) resolve init ws n b) | _ \<Rightarrow> None)
      | Offer q ws \<Rightarrow> (case r of Pairing_reply keys reply \<Rightarrow> ends (paired opened ws keys reply b) | _ \<Rightarrow> None)
      | Redeem q ws \<Rightarrow> (case r of Pairing_reply keys reply \<Rightarrow> ends (paired opened ws keys reply b) | _ \<Rightarrow> None))"

definition resume_task :: "crypto \<Rightarrow> bridge_config \<Rightarrow> env \<Rightarrow> system \<Rightarrow> nat \<Rightarrow> reply \<Rightarrow> system \<times> effect list" where
  "resume_task c cfg ev sys i r =
     (if \<not> i < length (sy_tasks sys) then (sys, [])
      else
        let sys1 = sys\<lparr>sy_opened := opened_by r @ sy_opened sys\<rparr> in
        case task_resumes c cfg ev (is_open sys1) (sy_tasks sys ! i) r (sy_bridge sys) of
          None \<Rightarrow> (sys, [])
        | Some (b', effects, next, link) \<Rightarrow>
            let (sys2, effects) = stepped sys1 (without i (sy_tasks sys)) (b', effects, tasks_of (map_option Loop next))
            in (sys2\<lparr>sy_links := sy_links sys2 @ (case link of Some l \<Rightarrow> [l] | None \<Rightarrow> [])\<rparr>, effects))"

definition handle_event :: "crypto \<Rightarrow> bridge_config \<Rightarrow> env \<Rightarrow> bridge_event \<Rightarrow> system \<Rightarrow> system \<times> effect list" where
  "handle_event c cfg ev e sys =
     (let b = sy_bridge sys; now = ev_now ev; waiting = sy_tasks sys in
      case e of
        Start \<Rightarrow> (case start now b of (b', next) \<Rightarrow> stepped sys waiting (b', [], tasks_of (map_option Loop next)))
      | Stop \<Rightarrow> (case stop b of (b', effects) \<Rightarrow> stepped sys waiting (b', effects, []))
      | Resume i r \<Rightarrow> resume_task c cfg ev sys i r
      | Closing n \<Rightarrow> (sys\<lparr>sy_opened := filter (\<lambda>m. m \<noteq> n) (sy_opened sys)\<rparr>, [])
      | From_daemon link payload \<Rightarrow>
          if link \<notin> set (sy_links sys) then (sys, [])
          else (case daemon_message c cfg (ev_ivs ev) (is_open sys) now link payload b of (b', effects) \<Rightarrow> stepped sys waiting (b', effects, []))
      | From_relay link frame \<Rightarrow>
          if link \<notin> set (sy_links sys) then (sys, [])
          else (case relay_message c cfg (ev_draws ev) (is_open sys) now link frame b of
                  (b', effects, next) \<Rightarrow> stepped sys waiting (b', effects, tasks_of next))
      | Closed link source \<Rightarrow>
          if link \<notin> set (sy_links sys) then (sys, [])
          else (case socket_closed now link source b of
                  (b', effects, next) \<Rightarrow> stepped sys waiting (b', effects, tasks_of (map_option Loop next))))"

inductive bridge_step :: "crypto \<Rightarrow> bridge_config \<Rightarrow> system \<Rightarrow> system \<Rightarrow> bool" for c cfg where
  "env_ok ev \<Longrightarrow> bridge_step c cfg sys (fst (handle_event c cfg ev e sys))"

inductive_cases bridge_stepE: "bridge_step c cfg sys sys'"

definition bridge_reachable :: "crypto \<Rightarrow> bridge_config \<Rightarrow> system \<Rightarrow> bool" where
  "bridge_reachable c cfg sys \<longleftrightarrow> (\<exists>endpoint token. (bridge_step c cfg)\<^sup>*\<^sup>* (sys_init endpoint token) sys)"

section \<open>The queue\<close>

definition queue_ok :: "bridge_config \<Rightarrow> bridge \<Rightarrow> bool" where
  "queue_ok cfg b \<longleftrightarrow> length (br_pendingOutbound b) \<le> bc_maxPendingOutbound cfg
     \<and> br_pendingOutboundBytes b = int (sum_list (map byteLength (br_pendingOutbound b)))
     \<and> br_pendingOutboundBytes b \<le> int (bc_maxPendingOutboundBytes cfg) \<and> [] \<notin> set (br_pendingOutbound b)"

text \<open>The parts of the state that the queue's invariant reads.\<close>

definition same_queue :: "bridge \<Rightarrow> bridge \<Rightarrow> bool" where
  "same_queue b b' \<longleftrightarrow> br_pendingOutbound b' = br_pendingOutbound b \<and> br_pendingOutboundBytes b' = br_pendingOutboundBytes b"

lemma queue_ok_same: "queue_ok cfg b \<Longrightarrow> same_queue b b' \<Longrightarrow> queue_ok cfg b'"
  by (simp add: queue_ok_def same_queue_def)

lemma connectLoop_queue: "same_queue b (fst (connectLoop now b))"
  by (simp add: connectLoop_def loop_attempt_def same_queue_def Let_def)

lemma loop_failed_queue: "same_queue b (fst (loop_failed now e b))"
  by (simp add: loop_failed_def recordError_def same_queue_def Let_def split_beta)

lemma sendToAll_queue: "same_queue b (fst (sendToAll c cfg ivs now r p b))"
  by (simp add: sendToAll_def same_queue_def split_beta)

lemma install_session_queue: "same_queue b (fst (install_session cfg opn now r previous derived b))"
  by (auto simp: install_session_def recordError_def same_queue_def Let_def split: sum.split)

text \<open>The shapes of a handled control frame.\<close>

lemma control_cases:
  assumes "handleRelayControlFrame c cfg d opn now link frame b = Some r"
  obtains (waits) t where "r = (b, [], Some t)"
  | (exchange_v3) i where "r = handleKeyExchangeInitV3 c cfg d opn now i (snd link) b"
  | (exchange_v2) i where "r = handleKeyExchangeInit c cfg d opn now i (snd link) b"
  | (status) m where "r = (fst (relay_status now link m b), snd (relay_status now link m b), None)"
  | (update) m where "r = (key_update_required m b, [], None)"
  using assms
  by (auto simp: handleRelayControlFrame_def isRelayControlFrame_def split_beta split: option.split_asm json.split_asm if_split_asm)

lemma envelope_message_queue: "same_queue b (fst (envelope_message c opn now link frame b))"
  by (auto simp: envelope_message_def recordError_def same_queue_def Let_def split_beta split: option.split)

lemma relay_message_queue: "same_queue b (fst (relay_message c cfg d opn now link frame b))"
proof (cases "handleRelayControlFrame c cfg d opn now link frame b")
  case None
  then show ?thesis using envelope_message_queue by (simp add: relay_message_def split_beta)
next
  case (Some r)
  have refl: "same_queue b b" by (simp add: same_queue_def)
  from Some show ?thesis
  proof (cases rule: control_cases)
    case waits
    then show ?thesis using Some refl by (simp add: relay_message_def)
  next
    case (exchange_v3 i)
    then show ?thesis using Some refl install_session_queue by (simp add: relay_message_def handleKeyExchangeInitV3_def split_beta split: option.split)
  next
    case (exchange_v2 i)
    then show ?thesis using Some refl install_session_queue by (simp add: relay_message_def handleKeyExchangeInit_def split_beta split: option.split)
  next
    case (status m)
    then show ?thesis using Some by (simp add: relay_message_def relay_status_def recordError_def same_queue_def split: option.split)
  next
    case (update m)
    then show ?thesis using Some by (simp add: relay_message_def key_update_required_def same_queue_def split: option.split)
  qed
qed

lemma trim_queue_ok:
  "[] \<notin> set q \<Longrightarrow> bytes = int (sum_list (map byteLength q)) \<Longrightarrow> trim_queue cfg q bytes = (q', bytes')
    \<Longrightarrow> length q' \<le> bc_maxPendingOutbound cfg \<and> bytes' = int (sum_list (map byteLength q')) \<and> bytes' \<le> int (bc_maxPendingOutboundBytes cfg)
      \<and> [] \<notin> set q'"
proof (induction cfg q bytes rule: trim_queue.induct)
  case (1 cfg q bytes)
  show ?case
  proof (cases "length q > bc_maxPendingOutbound cfg \<or> bytes > int (bc_maxPendingOutboundBytes cfg)")
    case True
    with 1(3) obtain d rest where q: "q = d # rest" by (cases q) auto
    then have "d \<noteq> []" using 1(2) by auto
    with 1(4) True q have "trim_queue cfg rest (bytes - int (byteLength d)) = (q', bytes')" by (auto simp: trim_queue.simps [of cfg "d # rest"])
    then show ?thesis using 1(1) [OF True q \<open>d \<noteq> []\<close>] 1(2,3) q by simp
  qed (use 1 in \<open>auto simp: trim_queue.simps\<close>)
qed

lemma daemon_message_queue:
  assumes "queue_ok cfg b"
  shows "queue_ok cfg (fst (daemon_message c cfg ivs opn now link payload b))"
proof (cases "Option.bind (bc_filterDaemonPayload cfg payload) non_empty")
  case (Some filtered)
  then have "filtered \<noteq> []" by (auto simp: bind_eq_Some_conv non_empty_def split: if_split_asm)
  obtain q bytes where t: "trim_queue cfg (br_pendingOutbound b @ [filtered]) (br_pendingOutboundBytes b + int (byteLength filtered)) = (q, bytes)" by force
  show ?thesis
  proof (cases "opn (snd link)")
    case True
    then show ?thesis using Some queue_ok_same [OF assms sendToAll_queue] by (simp add: daemon_message_def)
  next
    case False
    then show ?thesis using Some trim_queue_ok [OF _ _ t] assms \<open>filtered \<noteq> []\<close> t by (auto simp: daemon_message_def queue_ok_def)
  qed
qed (use assms in \<open>simp add: daemon_message_def\<close>)

lemma flush_queue_empties:
  "[] \<notin> set q \<Longrightarrow> br_pendingOutbound b = q \<Longrightarrow> br_pendingOutboundBytes b = int (sum_list (map byteLength q))
    \<Longrightarrow> br_pendingOutbound (fst (flush_queue c cfg ivs now r q b)) = [] \<and> br_pendingOutboundBytes (fst (flush_queue c cfg ivs now r q b)) = 0"
proof (induction q arbitrary: b)
  case (Cons p q)
  let ?b = "b\<lparr>br_pendingOutbound := q, br_pendingOutboundBytes := br_pendingOutboundBytes b - int (byteLength p)\<rparr>"
  have "same_queue ?b (fst (sendToAll c cfg ivs now r p ?b))" by (rule sendToAll_queue)
  then show ?case using Cons.prems Cons.IH [of "fst (sendToAll c cfg ivs now r p ?b)"] by (auto simp: same_queue_def split_beta Let_def)
qed simp

lemma flush_queue_ok:
  assumes "queue_ok cfg b"
  shows "queue_ok cfg (fst (flushPendingOutbound c cfg ivs opn now b))"
  using assms flush_queue_empties [of "br_pendingOutbound b" b c cfg ivs now]
  by (auto simp: flushPendingOutbound_def queue_ok_def split_beta split: option.split)

lemma loop_resumes_queue:
  assumes "queue_ok cfg b"
  shows "queue_ok cfg (fst (loop_resumes c cfg ivs opn now p r b))"
proof -
  have f: "queue_ok cfg (fst (loop_failed now e b))" for e using queue_ok_same [OF assms loop_failed_queue] .
  have l: "queue_ok cfg (fst (connectLoop now (b\<lparr>br_reconnecting := False\<rparr>)))"
    by (rule queue_ok_same [OF _ connectLoop_queue]) (use assms in \<open>simp add: queue_ok_def\<close>)
  have o: "queue_ok cfg (fst (flushPendingOutbound c cfg ivs opn now (b\<lparr>br_relayWs := Some ws, br_state := Connected, br_reconnectAttempt := 0\<rparr>)))" for ws
    by (rule flush_queue_ok) (use assms in \<open>simp add: queue_ok_def\<close>)
  have u: "queue_ok cfg (b'\<lparr>br_reconnecting := v\<rparr>) = queue_ok cfg b'" for b' v by (simp add: queue_ok_def)
  have s: "queue_ok cfg (fst (loop_attempt b))" "queue_ok cfg (b\<lparr>br_identity := i\<rparr>)" "queue_ok cfg (b\<lparr>br_issueToken := t\<rparr>)"
    "queue_ok cfg (b\<lparr>br_requiredProfile := rp, br_relaySessions := [], br_issueFailures := 0, br_circuitOpenUntilMs := 0\<rparr>)"
    "queue_ok cfg (b\<lparr>br_daemonWs := ws\<rparr>)" for i t rp ws
    using assms by (simp_all add: queue_ok_def loop_attempt_def)
  show ?thesis using assms f l o s
    by (simp add: loop_resumes_def Let_def split_beta u split: loop_phase.split returned.split sum.split prod.split)
qed

section \<open>What an event does to the bridge\<close>

lemma stepped_bridge [simp]: "sy_bridge (fst (stepped sys waiting r)) = fst r"
  by (simp add: stepped_def split_beta)

lemma task_resumes_bridge:
  assumes "task_resumes c cfg ev opn t r b = Some (b', rest)"
  shows "(\<exists>opn p r. b' = fst (loop_resumes c cfg (ev_ivs ev) opn (ev_now ev) p r b))
    \<or> (\<exists>opn resolve i r n. b' = fst (exchange_v2_resumes c cfg (ev_draws ev) opn (ev_now ev) resolve i r n b))
    \<or> (\<exists>opn resolve i r n. b' = fst (exchange_v3_resumes c cfg (ev_draws ev) opn (ev_now ev) resolve i r n b))
    \<or> (\<exists>keys. b' = b\<lparr>br_pairingChannelKeys := keys\<rparr>)"
proof (cases t)
  case (Loop p)
  then show ?thesis using assms by (cases r) (simp_all add: task_resumes_def, metis fst_conv)
next
  case (Exchange_v2 i ws n)
  then show ?thesis using assms by (cases r) (simp_all add: task_resumes_def split_beta, metis)
next
  case (Exchange_v3 i ws n)
  then show ?thesis using assms by (cases r) (simp_all add: task_resumes_def split_beta, metis)
qed (use assms in \<open>cases r; auto simp: task_resumes_def paired_def\<close>)+

lemma resume_bridge:
  "sy_bridge (fst (resume_task c cfg ev sys i r)) = sy_bridge sys
    \<or> (\<exists>opn t r' rest. task_resumes c cfg ev opn t r' (sy_bridge sys) = Some (sy_bridge (fst (resume_task c cfg ev sys i r)), rest))"
proof (cases "i < length (sy_tasks sys)")
  case True
  let ?opn = "is_open (sys\<lparr>sy_opened := opened_by r @ sy_opened sys\<rparr>)"
  show ?thesis
  proof (cases "task_resumes c cfg ev ?opn (sy_tasks sys ! i) r (sy_bridge sys)")
    case (Some q)
    then have "sy_bridge (fst (resume_task c cfg ev sys i r)) = fst q" using True by (cases q) (simp add: resume_task_def split_beta Let_def)
    then have "task_resumes c cfg ev ?opn (sy_tasks sys ! i) r (sy_bridge sys) = Some (sy_bridge (fst (resume_task c cfg ev sys i r)), snd q)"
      using Some by simp
    then show ?thesis by blast
  qed (use True in \<open>simp add: resume_task_def\<close>)
qed (simp add: resume_task_def)

lemma handle_event_bridge:
  fixes c cfg ev e sys
  defines "b \<equiv> sy_bridge sys" and "b' \<equiv> sy_bridge (fst (handle_event c cfg ev e sys))"
  obtains (same) "b' = b"
  | (start) "b' = fst (start (ev_now ev) b)"
  | (stop) "b' = fst (stop b)"
  | (loop) opn p r where "b' = fst (loop_resumes c cfg (ev_ivs ev) opn (ev_now ev) p r b)"
  | (exchange_v2) opn resolve i r n where "b' = fst (exchange_v2_resumes c cfg (ev_draws ev) opn (ev_now ev) resolve i r n b)"
  | (exchange_v3) opn resolve i r n where "b' = fst (exchange_v3_resumes c cfg (ev_draws ev) opn (ev_now ev) resolve i r n b)"
  | (pairing) keys where "b' = b\<lparr>br_pairingChannelKeys := keys\<rparr>"
  | (daemon) opn link payload where "b' = fst (daemon_message c cfg (ev_ivs ev) opn (ev_now ev) link payload b)"
  | (relay) opn link frame where "b' = fst (relay_message c cfg (ev_draws ev) opn (ev_now ev) link frame b)"
  | (closed) link source where "b' = fst (socket_closed (ev_now ev) link source b)"
proof (cases e)
  case (Resume i r)
  then have eq: "b' = sy_bridge (fst (resume_task c cfg ev sys i r))" by (simp add: b'_def handle_event_def)
  show ?thesis
  proof (cases "b' = b")
    case False
    then obtain opn t r' rest where "task_resumes c cfg ev opn t r' b = Some (b', rest)"
      using resume_bridge [of c cfg ev sys i r] unfolding eq b_def by blast
    from task_resumes_bridge [OF this] show ?thesis using loop exchange_v2 exchange_v3 pairing by blast
  qed (rule same)
next
  case Start
  then show ?thesis using start by (simp add: b_def b'_def handle_event_def Let_def split_beta)
next
  case Stop
  then show ?thesis using stop by (simp add: b_def b'_def handle_event_def Let_def split_beta)
next
  case (Closing n)
  then show ?thesis using same by (simp add: b_def b'_def handle_event_def Let_def)
next
  case (From_daemon link payload)
  then show ?thesis using same daemon by (cases "link \<in> set (sy_links sys)") (simp_all add: b_def b'_def handle_event_def Let_def split_beta)
next
  case (From_relay link frame)
  then show ?thesis using same relay by (cases "link \<in> set (sy_links sys)") (simp_all add: b_def b'_def handle_event_def Let_def split_beta)
next
  case (Closed link source)
  then show ?thesis using same closed by (cases "link \<in> set (sy_links sys)") (simp_all add: b_def b'_def handle_event_def Let_def split_beta)
qed

lemma queue_ok_event:
  assumes "queue_ok cfg (sy_bridge sys)"
  shows "queue_ok cfg (sy_bridge (fst (handle_event c cfg ev e sys)))"
proof (cases rule: handle_event_bridge [of c cfg ev e sys])
  case start
  then show ?thesis using assms queue_ok_same [OF _ connectLoop_queue] by (auto simp: start_def queue_ok_def)
next
  case stop
  then show ?thesis by (simp add: stop_def queue_ok_def)
next
  case (loop opn p r)
  then show ?thesis using loop_resumes_queue [OF assms] by simp
next
  case (exchange_v2 opn resolve i r n)
  then show ?thesis using assms queue_ok_same [OF assms install_session_queue] by (simp add: exchange_v2_resumes_def split: option.split)
next
  case (exchange_v3 opn resolve i r n)
  then show ?thesis using assms queue_ok_same [OF assms install_session_queue] by (simp add: exchange_v3_resumes_def split: option.split)
next
  case (daemon opn link payload)
  then show ?thesis using daemon_message_queue [OF assms] by simp
next
  case (relay opn link frame)
  then show ?thesis using queue_ok_same [OF assms relay_message_queue] by simp
next
  case (closed link source)
  let ?b = "(recordError WEBSOCKET_ERROR (source @ '' disconnected'') (ev_now ev) (sy_bridge sys))\<lparr>br_relayWs := None, br_daemonWs := None,
    br_relaySessions := [], br_state := Waiting_retry\<rparr>"
  have "queue_ok cfg ?b" using assms by (simp add: queue_ok_def recordError_def)
  then show ?thesis using closed assms queue_ok_same [OF _ connectLoop_queue] by (simp add: socket_closed_def Let_def split_beta)
qed (use assms in \<open>simp_all add: queue_ok_def\<close>)

section \<open>The table of sessions\<close>

definition session_ok :: "string \<Rightarrow> relay_session \<Rightarrow> bool" where
  "session_ok k s \<longleftrightarrow> k = rs_sessionId s \<and> trim k \<noteq> [] \<and> 1 \<le> rs_epoch s \<and> 0 \<le> rs_txSeq s \<and> (\<exists>seen. remembers seen s)"

definition sessions_ok :: "bridge_config \<Rightarrow> sessions \<Rightarrow> bool" where
  "sessions_ok cfg ss \<longleftrightarrow> jm_wf ss \<and> jm_size ss \<le> bc_relaySessionMaxEntries cfg \<and> (\<forall>(k, s) \<in> set ss. session_ok k s)"

lemma sessions_ok_get: "sessions_ok cfg ss \<Longrightarrow> jm_get ss k = Some s \<Longrightarrow> session_ok k s"
  using jm_get_mem by (fastforce simp: sessions_ok_def)

lemma sessions_ok_update:
  assumes "sessions_ok cfg ss" and "jm_get ss k = Some s" and "session_ok k s'"
  shows "sessions_ok cfg (jm_set k s' ss)"
  using assms set_jm_set [of k s' ss] by (fastforce simp: sessions_ok_def jm_size_set)

lemma sessions_ok_filter: "sessions_ok cfg ss \<Longrightarrow> sessions_ok cfg (jm_filter P ss)"
  by (auto simp: sessions_ok_def jm_filter_def intro: jm_wf_filter [unfolded jm_filter_def] order_trans [OF length_filter_le])

lemma send_one_ok: "session_ok k s \<Longrightarrow> session_ok k (snd (send_one c ivs every payload now s))"
  by (auto simp: session_ok_def send_one_def sendToRelaySession_def remembers_def Let_def)

lemma sendToAll_ok:
  assumes "sessions_ok cfg ss"
  shows "sessions_ok cfg (snd (sendToAllRelaySessions c ivs every ttl now payload ss))"
proof -
  let ?kept = "fst (pruneIdleRelaySessions ss now ttl)"
  let ?f = "\<lambda>(k, s). (k, snd (send_one c ivs every payload now s))"
  have kept: "sessions_ok cfg ?kept" using sessions_ok_filter [OF assms] by (simp add: pruneIdleRelaySessions_def)
  have keys: "jm_keys (map ?f m) = jm_keys m" for m by (induction m) (auto simp: jm_keys_def)
  have "\<forall>(k, s) \<in> set (map ?f ?kept). session_ok k s" using kept send_one_ok by (fastforce simp: sessions_ok_def)
  moreover have "jm_wf (map ?f ?kept)" using kept by (simp only: jm_wf_def keys) (simp add: sessions_ok_def jm_wf_def)
  ultimately have "sessions_ok cfg (map ?f ?kept)" using kept by (simp add: sessions_ok_def)
  then show ?thesis by (simp add: sendToAllRelaySessions_def Let_def split_def comp_def)
qed

lemma evict_sessions_wf: "jm_wf ss \<Longrightarrow> jm_wf (fst (evict_sessions n ss))"
proof (induction n ss rule: evict_sessions.induct)
  case (1 n ss)
  show ?case
  proof (cases "jm_size ss \<le> n")
    case False
    then obtain k v m where ss: "ss = (k, v) # m" by (cases ss) auto
    show ?thesis
    proof (cases "k = []")
      case k: False
      have "jm_wf (fst (evict_sessions n (jm_delete k ss)))" using 1(1) [OF False ss refl k] jm_wf_delete [OF 1(2)] by simp
      with False k show ?thesis by (subst evict_sessions.simps) (simp add: ss split_beta)
    qed (use 1(2) in \<open>simp add: evict_sessions.simps [of n "([], v) # m"] ss\<close>)
  qed (use 1 in \<open>simp add: evict_sessions.simps\<close>)
qed

lemma enforce_capacity_ok:
  assumes "jm_wf ss" and "\<forall>(k, s) \<in> set ss. session_ok k s"
  shows "sessions_ok cfg (enforce_capacity cfg now ss)"
proof -
  let ?kept = "fst (pruneIdleRelaySessions ss now RELAY_SESSION_IDLE_TTL_MS)"
  have kept: "jm_wf ?kept" "\<forall>(k, s) \<in> set ?kept. session_ok k s" using assms by (auto simp: pruneIdleRelaySessions_def)
  have "jm_get ?kept [] = None"
  proof (cases "jm_get ?kept []")
    case (Some s)
    then show ?thesis using kept(2) jm_get_mem [OF Some] by (auto simp: session_ok_def)
  qed
  then show ?thesis
    using kept evict_sessions_wf [OF kept(1)] evict_sessions_size evict_sessions_subset
    by (fastforce simp: sessions_ok_def enforce_capacity_def enforceRelaySessionCapacity_def)
qed

lemma derived_session_id:
  "derived_v2 c d init n secret b = Inr (session, response) \<Longrightarrow> ds_sessionId session = dr_sessionId d \<and> 1 \<le> ds_epoch session"
  "derived_v3 c d init3 n secret b = Inr (session, response) \<Longrightarrow> ds_sessionId session = dr_sessionId d \<and> 1 \<le> ds_epoch session"
  subgoal by (auto simp: derived_v2_def and_then_Inr dest!: key_exchange_checked)
  subgoal by (auto simp: derived_v3_def and_then_Inr deriveNoiseV3SessionFromInit_def Let_def)
  done

lemma install_session_ok:
  assumes "sessions_ok cfg (br_relaySessions b)" and "trim i \<noteq> []"
    and "\<And>session response. derived = Inr (session, response) \<Longrightarrow> ds_sessionId session = i \<and> 1 \<le> ds_epoch session"
  shows "sessions_ok cfg (br_relaySessions (fst (install_session cfg opn now ws previous derived b)))"
proof (cases derived)
  case (Inr r)
  obtain session response where r: "r = (session, response)" by force
  let ?kept = "case Option.bind previous non_empty of Some i \<Rightarrow> jm_delete i (br_relaySessions b) | None \<Rightarrow> br_relaySessions b"
  let ?ss = "jm_set (ds_sessionId session) (createRelaySessionState session now) ?kept"
  have kept: "jm_wf ?kept" "\<forall>(k, s) \<in> set ?kept. session_ok k s" using assms(1) by (auto simp: sessions_ok_def split: option.split)
  have new: "session_ok (ds_sessionId session) (createRelaySessionState session now)"
    using assms(2) assms(3) [OF Inr [unfolded r]] remembers_create by (auto simp: session_ok_def createRelaySessionState_def)
  have "jm_wf ?ss" "\<forall>(k, s) \<in> set ?ss. session_ok k s"
    using kept new set_jm_set [of "ds_sessionId session" "createRelaySessionState session now" ?kept] by (auto simp del: set_jm_delete)
  from enforce_capacity_ok [OF this] show ?thesis using Inr r by (simp add: install_session_def Let_def)
qed (use assms(1) in \<open>simp add: install_session_def recordError_def\<close>)

abbreviation bridge_ok :: "bridge_config \<Rightarrow> bridge \<Rightarrow> bool" where
  "bridge_ok cfg b \<equiv> sessions_ok cfg (br_relaySessions b)"

lemma envelope_message_ok:
  assumes "bridge_ok cfg b"
  shows "bridge_ok cfg (fst (envelope_message c opn now link frame b))"
proof (cases "parseRelayEnvelope frame")
  case (Some e)
  show ?thesis
  proof (cases "jm_get (br_relaySessions b) (en_sessionId e)")
    case s: (Some s)
    obtain a s' where a: "acceptInboundRelaySeq s (en_seq e) = (a, s')" by force
    have ok: "session_ok (en_sessionId e) s" using sessions_ok_get [OF assms s] .
    then obtain seen where "remembers seen s" by (auto simp: session_ok_def)
    from accept_refines(2) [OF this a] have "\<exists>seen. remembers seen s'" by blast
    moreover have "rs_sessionId s' = rs_sessionId s" "rs_epoch s' = rs_epoch s" "rs_txSeq s' = rs_txSeq s"
      using a by (auto simp: acceptInboundRelaySeq_def Let_def split: if_split_asm)
    ultimately have "session_ok (en_sessionId e) s'" "session_ok (en_sessionId e) (s'\<lparr>rs_lastActivityAt := now\<rparr>)"
      using ok by (auto simp: session_ok_def remembers_def)
    then show ?thesis using Some s a assms sessions_ok_update [OF assms s]
      by (auto simp: envelope_message_def recordError_def Let_def split: option.split)
  qed (use Some assms in \<open>simp add: envelope_message_def\<close>)
qed (use assms in \<open>simp add: envelope_message_def recordError_def\<close>)

lemma relay_message_ok:
  assumes "bridge_ok cfg b" and "trim (dr_sessionId d) \<noteq> []"
  shows "bridge_ok cfg (fst (relay_message c cfg d opn now link frame b))"
proof (cases "handleRelayControlFrame c cfg d opn now link frame b")
  case None
  then show ?thesis using envelope_message_ok [OF assms(1)] by (simp add: relay_message_def split_beta)
next
  case (Some r)
  from Some show ?thesis
  proof (cases rule: control_cases)
    case waits
    then show ?thesis using Some assms by (simp add: relay_message_def)
  next
    case (exchange_v3 i)
    have "bridge_ok cfg (fst (install_session cfg opn now ws previous (derived_v3 c d i n secret b) b))" for ws previous n secret
      by (rule install_session_ok [OF assms]) (rule derived_session_id(2))
    then show ?thesis using Some exchange_v3 assms by (simp add: relay_message_def handleKeyExchangeInitV3_def split_beta split: option.split)
  next
    case (exchange_v2 i)
    have "bridge_ok cfg (fst (install_session cfg opn now ws previous (derived_v2 c d i n secret b) b))" for ws previous n secret
      by (rule install_session_ok [OF assms]) (rule derived_session_id(1))
    then show ?thesis using Some exchange_v2 assms by (simp add: relay_message_def handleKeyExchangeInit_def split_beta split: option.split)
  next
    case (status m)
    then show ?thesis using Some assms by (simp add: relay_message_def relay_status_def recordError_def split: option.split)
  next
    case (update m)
    have "bridge_ok cfg (key_update_required m b)"
    proof (cases "Option.bind (as_str (field m ''sessionId'')) (jm_get (br_relaySessions b))")
      case (Some s)
      then obtain i where i: "as_str (field m ''sessionId'') = Some i" "jm_get (br_relaySessions b) i = Some s" by (auto simp: bind_eq_Some_conv)
      have "session_ok i (s\<lparr>rs_keyRotationRequested := True\<rparr>)"
        using sessions_ok_get [OF assms(1) i(2)] by (auto simp: session_ok_def remembers_def)
      then show ?thesis using i assms(1) sessions_ok_update [OF assms(1) i(2)] by (simp add: key_update_required_def)
    qed (use assms in \<open>auto simp: key_update_required_def split: option.split\<close>)
    then show ?thesis using Some update by (simp add: relay_message_def)
  qed
qed

lemma sendToAll_bridge_ok: "bridge_ok cfg b \<Longrightarrow> bridge_ok cfg (fst (sendToAll c cfg ivs now ws payload b))"
  using sendToAll_ok by (simp add: sendToAll_def split_beta)

lemma flush_bridge_ok: "bridge_ok cfg b \<Longrightarrow> bridge_ok cfg (fst (flush_queue c cfg ivs now ws q b))"
proof (induction q arbitrary: b)
  case (Cons p q)
  have "bridge_ok cfg (fst (sendToAll c cfg ivs now ws p (b\<lparr>br_pendingOutbound := q, br_pendingOutboundBytes := n\<rparr>)))" for n
    by (rule sendToAll_bridge_ok) (use Cons.prems in simp)
  from Cons.IH [OF this] show ?case using Cons.prems by (simp add: split_beta Let_def)
qed simp

lemma connectLoop_sessions [simp]: "br_relaySessions (fst (connectLoop now b)) = br_relaySessions b"
  by (simp add: connectLoop_def loop_attempt_def Let_def)

lemma loop_failed_sessions [simp]: "br_relaySessions (fst (loop_failed now e b)) = []"
  by (simp add: loop_failed_def recordError_def Let_def split_beta)

lemma no_sessions_ok [simp]: "sessions_ok cfg []"
  by (simp add: sessions_ok_def)

lemma loop_resumes_ok:
  assumes "bridge_ok cfg b"
  shows "bridge_ok cfg (fst (loop_resumes c cfg ivs opn now p r b))"
proof -
  have "bridge_ok cfg (fst (flushPendingOutbound c cfg ivs opn now (b\<lparr>br_relayWs := ws, br_state := Connected, br_reconnectAttempt := 0\<rparr>)))" for ws
    using assms flush_bridge_ok by (auto simp: flushPendingOutbound_def split_beta split: option.split)
  then show ?thesis using assms
    by (simp add: loop_resumes_def Let_def split_beta loop_attempt_def split: loop_phase.split returned.split sum.split prod.split)
qed

lemma sessions_ok_event:
  assumes "bridge_ok cfg (sy_bridge sys)" and "env_ok ev"
  shows "bridge_ok cfg (sy_bridge (fst (handle_event c cfg ev e sys)))"
proof -
  note install = install_session_ok [OF assms(1) assms(2) [unfolded env_ok_def]]
  show ?thesis
  proof (cases rule: handle_event_bridge [of c cfg ev e sys])
    case start
    then show ?thesis using assms by (simp add: start_def)
  next
    case stop
    then show ?thesis by (simp add: stop_def)
  next
    case (loop opn p r)
    then show ?thesis using loop_resumes_ok [OF assms(1)] by simp
  next
    case (exchange_v2 opn resolve i r n)
    then show ?thesis using assms install [OF derived_session_id(1)] by (simp add: exchange_v2_resumes_def split: option.split)
  next
    case (exchange_v3 opn resolve i r n)
    then show ?thesis using assms install [OF derived_session_id(2)] by (simp add: exchange_v3_resumes_def split: option.split)
  next
    case (daemon opn link payload)
    then show ?thesis using assms sendToAll_bridge_ok by (simp add: daemon_message_def Let_def split_beta split: option.split)
  next
    case (relay opn link frame)
    then show ?thesis using relay_message_ok [OF assms(1) assms(2) [unfolded env_ok_def]] by simp
  next
    case (closed link source)
    then show ?thesis using assms by (simp add: socket_closed_def Let_def split_beta)
  qed (use assms in simp_all)
qed

lemma bridge_invariant:
  assumes "bridge_reachable c cfg sys"
  shows "queue_ok cfg (sy_bridge sys) \<and> bridge_ok cfg (sy_bridge sys)"
proof -
  obtain endpoint token where "(bridge_step c cfg)\<^sup>*\<^sup>* (sys_init endpoint token) sys" using assms by (auto simp: bridge_reachable_def)
  then show ?thesis
  proof (induction rule: rtranclp_induct)
    case base
    then show ?case by (simp add: sys_init_def new_bridge_def queue_ok_def)
  next
    case (step y z)
    then show ?case using queue_ok_event sessions_ok_event by (auto elim!: bridge_stepE)
  qed
qed

end
