(* ===== verification/Bridge_Guarantees.thy ===== *)
theory Bridge_Guarantees
  imports Bridge_Safety
begin

text \<open>
  What the relay bridge guarantees, and four behaviours that its interleavings show: what reaches the daemon, the bounds of its
  state, the queue at a reconnection, a stop in the middle of a connection, frames that nobody authenticated, a late close.
\<close>

section \<open>Runs\<close>

fun run_events :: "crypto \<Rightarrow> bridge_config \<Rightarrow> env \<Rightarrow> bridge_event list \<Rightarrow> system \<Rightarrow> system" where
  "run_events c cfg ev [] sys = sys"
| "run_events c cfg ev (e # es) sys = run_events c cfg ev es (fst (handle_event c cfg ev e sys))"

lemma run_reachable:
  assumes "env_ok ev"
  shows "bridge_reachable c cfg (run_events c cfg ev es (sys_init endpoint token))"
proof -
  have "(bridge_step c cfg)\<^sup>*\<^sup>* sys (run_events c cfg ev es sys)" for sys
    by (induction es arbitrary: sys) (auto intro: converse_rtranclp_into_rtranclp bridge_step.intros [OF assms])
  then show ?thesis unfolding bridge_reachable_def by blast
qed

text \<open>A bridge with default options that has connected by its sockets 0 and 1.\<close>

definition sample_config :: bridge_config where
  "sample_config = bridge_config_of None None None None None"

definition sample_env :: env where
  "sample_env = \<lparr>ev_now = 1000, ev_draws = \<lparr>dr_nonce = replicate 16 1, dr_private = [5], dr_sessionId = ''rs_1''\<rparr>, ev_ivs = (\<lambda>_ _. replicate 12 0)\<rparr>"

definition connecting :: "bridge_event list" where
  "connecting = [Start, Resume 0 (Loop_reply (Loaded (Inr \<lparr>di_publicKey = ''k'', di_privateKey = ''p''\<rparr>))),
     Resume 0 (Loop_reply (Registered (Inr ''t''))), Resume 0 (Loop_reply (Issued (Inr (''jwt'', Noise_ik)))),
     Resume 0 (Loop_reply (Opened (Inr 0)))]"

definition reconnecting :: "bridge_event list" where
  "reconnecting = connecting @ [Resume 0 (Loop_reply (Opened (Inr 1))), Closing 1, From_daemon (0, 1) ''hi'', Closed (0, 1) ''relay'',
     Resume 0 (Loop_reply (Registered (Inr ''t''))), Resume 0 (Loop_reply (Issued (Inr (''jwt'', Noise_ik)))),
     Resume 0 (Loop_reply (Opened (Inr 2)))]"

lemma sample_ok: "env_ok sample_env"
  by (simp add: env_ok_def sample_env_def trim_def js_space_def)

section \<open>Bounds\<close>

text \<open>C31: the state of the bridge stays bounded, whatever the relay and the daemon send and however its tasks interleave: the queue
  keeps to its two limits and its byte counter is exact, the table of sessions keeps to its limit, and each session remembers at most
  1024 numbers.\<close>

theorem bridge_bounded:
  assumes "bridge_reachable c cfg sys"
  shows "length (br_pendingOutbound (sy_bridge sys)) \<le> bc_maxPendingOutbound cfg
    \<and> br_pendingOutboundBytes (sy_bridge sys) = int (sum_list (map byteLength (br_pendingOutbound (sy_bridge sys))))
    \<and> br_pendingOutboundBytes (sy_bridge sys) \<le> int (bc_maxPendingOutboundBytes cfg)
    \<and> jm_size (br_relaySessions (sy_bridge sys)) \<le> bc_relaySessionMaxEntries cfg
    \<and> (\<forall>(i, s) \<in> set (br_relaySessions (sy_bridge sys)). rs_sessionId s = i \<and> length (rs_rxSeenSeq s) \<le> 1024)"
  using bridge_invariant [OF assms] window_size by (fastforce simp: queue_ok_def sessions_ok_def session_ok_def)

theorem bridge_bounded_witness:
  "br_pendingOutboundBytes (sy_bridge (run_events open_crypto sample_config sample_env reconnecting (sys_init ''wss://relay'' None)))
     = int (sum_list (map byteLength (br_pendingOutbound (sy_bridge (run_events open_crypto sample_config sample_env reconnecting
         (sys_init ''wss://relay'' None))))))"
  using bridge_bounded [OF run_reachable [OF sample_ok]] by blast

lemma connecting_state:
  "run_events open_crypto sample_config sample_env connecting (sys_init ''wss://relay'' None) =
    \<lparr>sy_bridge = new_bridge ''wss://relay'' (Some ''t'') \<lparr>br_daemonWs := Some 0, br_running := True, br_reconnecting := True, br_reconnectAttempt := 1,
       br_identity := Some \<lparr>di_publicKey = ''k'', di_privateKey = ''p''\<rparr>, br_state := Connecting\<rparr>,
     sy_tasks = [Loop (Opening_relay 0 ''jwt'')], sy_opened = [0], sy_links = []\<rparr>"
  by (simp add: connecting_def sys_init_def new_bridge_def handle_event_def resume_task_def task_resumes_def start_def connectLoop_def loop_attempt_def
      stepped_def tasks_of_def sample_env_def loop_resumes_def without_def opened_by_def closed_by_def)

section \<open>What reaches the daemon\<close>

lemma envelope_no_control:
  assumes "parseRelayEnvelope frame = Some e"
  shows "handleRelayControlFrame c cfg d opn now link frame b = None"
proof -
  obtain v where v: "JSON_parse frame = Some v" "envelope_of v = Some e" using assms by (auto simp: parseRelayEnvelope_def bind_eq_Some_conv)
  then obtain m where "v = JObj m" and m: "eq_str (field m ''type'') ''e2ee''"
    by (cases v) (auto simp: envelope_of_def split: option.split_asm if_split_asm)
  then have t: "field m ''type'' = Some (JStr ''e2ee'')" by (simp add: eq_str_def)
  have "parsePairingOfferRequestFrame (JObj m) = None" by (simp add: parsePairingOfferRequestFrame_def eq_str_def t split: option.split)
  moreover have "parsePairingRedeemRequestFrame (JObj m) = None" by (simp add: parsePairingRedeemRequestFrame_def eq_str_def t split: option.split)
  moreover have "parseRelayKeyExchangeInitFrameV3 (JObj m) = None" by (simp add: parseRelayKeyExchangeInitFrameV3_def eq_str_def t split: option.split)
  moreover have "parseRelayKeyExchangeInitFrame (JObj m) = None" by (simp add: parseRelayKeyExchangeInitFrame_def eq_str_def t split: option.split)
  moreover have "\<not> isRelayControlFrame (JObj m)" by (simp add: isRelayControlFrame_def eq_str_def t)
  ultimately show ?thesis using v(1) \<open>v = JObj m\<close> by (simp add: handleRelayControlFrame_def)
qed

lemma relay_message_envelope:
  "parseRelayEnvelope frame = Some e \<Longrightarrow> relay_message c cfg d opn now link frame b
     = (fst (envelope_message c opn now link frame b), snd (envelope_message c opn now link frame b), None)"
  by (simp add: relay_message_def envelope_no_control split_beta)

lemma envelope_sends:
  assumes "Send_daemon n plaintext \<in> set (snd (envelope_message c opn now link frame b))"
  shows "n = fst link \<and> (\<exists>e s. parseRelayEnvelope frame = Some e \<and> jm_get (br_relaySessions b) (en_sessionId e) = Some s
    \<and> rs_profile s = en_profile e \<and> rs_epoch s = en_epoch e \<and> fst (acceptInboundRelaySeq s (en_seq e))
    \<and> decryptEnvelope c (rs_key s) e = Some plaintext)"
proof -
  have key: "rs_key (snd (acceptInboundRelaySeq s n)) = rs_key s" for s n by (simp add: acceptInboundRelaySeq_def Let_def)
  show ?thesis using assms
    by (auto simp: envelope_message_def Let_def split_beta key split: option.split_asm if_split_asm)
qed

text \<open>Nothing else sends to the daemon.\<close>

definition silent :: "effect list \<Rightarrow> bool" where
  "silent effects \<longleftrightarrow> (\<forall>n t. Send_daemon n t \<notin> set effects)"

lemma silent_simps [simp]: "silent []" "silent (Close n # es) = silent es" "silent (Send_relay n t # es) = silent es"
  "silent (es @ es') \<longleftrightarrow> silent es \<and> silent es'" "silent (closing ws)" "silent (map (Send_relay n) ts)"
  by (auto simp: silent_def closing_def split: option.splits)

lemma silent_sendToAll [simp]: "silent (snd (sendToAll c cfg ivs now ws payload b))"
  by (simp add: sendToAll_def split_beta)

lemma silent_flush [simp]: "silent (snd (flush_queue c cfg ivs now ws q b))"
  by (induction q arbitrary: b) (simp_all add: split_beta Let_def)

lemma silent_install [simp]: "silent (snd (install_session cfg opn now ws previous derived b))"
  by (simp add: install_session_def Let_def split: sum.split)

lemma silent_failed [simp]: "silent (fst (snd (loop_failed now e b)))"
  by (simp add: loop_failed_def Let_def split_beta)

lemma silent_flushed [simp]: "silent (snd (flushPendingOutbound c cfg ivs opn now b))"
  by (simp add: flushPendingOutbound_def split_beta split: option.split)

lemma silent_loop: "silent (fst (snd (loop_resumes c cfg ivs opn now p r b)))"
  by (simp add: loop_resumes_def Let_def split_beta split: loop_phase.split returned.split sum.split prod.split)

lemma silent_resumes [simp]:
  "silent (snd (exchange_v2_resumes c cfg d opn now resolve i ws n b))" "silent (snd (exchange_v3_resumes c cfg d opn now resolve j ws n b))"
  "silent (snd (paired opn ws keys reply b))"
  by (simp_all add: exchange_v2_resumes_def exchange_v3_resumes_def paired_def split: option.split)

lemma silent_task:
  assumes "task_resumes c cfg ev opn t r b = Some (b', effects, rest)"
  shows "silent effects"
proof (cases t)
  case (Loop p)
  then show ?thesis using assms silent_loop [of c cfg "ev_ivs ev" opn "ev_now ev" p _ b] by (cases r) (simp_all add: task_resumes_def, metis fst_conv snd_conv)
next
  case (Exchange_v2 i ws n)
  then show ?thesis using assms by (cases r) (auto simp: task_resumes_def split_beta)
next
  case (Exchange_v3 i ws n)
  then show ?thesis using assms by (cases r) (auto simp: task_resumes_def split_beta)
next
  case (Offer q ws)
  then show ?thesis using assms by (cases r) (auto simp: task_resumes_def split_beta)
next
  case (Redeem q ws)
  then show ?thesis using assms by (cases r) (auto simp: task_resumes_def split_beta)
qed

lemma silent_control:
  assumes "handleRelayControlFrame c cfg d opn now link frame b = Some r"
  shows "silent (fst (snd r))"
  using assms
  by (cases rule: control_cases)
     (auto simp: handleKeyExchangeInit_def handleKeyExchangeInitV3_def relay_status_def split_beta split: option.split)

text \<open>C10: the daemon gets what its clients sealed. Whatever the bridge sends to the daemon is the decryption of a frame that came from the
  relay, under the key of a session the bridge knows, with the profile and the epoch of that session and a number that its window
  accepts.\<close>

theorem only_decrypted_reaches_daemon:
  assumes "Send_daemon n plaintext \<in> set (snd (handle_event c cfg ev e sys))"
  shows "\<exists>ws frame en s. e = From_relay (n, ws) frame \<and> (n, ws) \<in> set (sy_links sys) \<and> parseRelayEnvelope frame = Some en
    \<and> jm_get (br_relaySessions (sy_bridge sys)) (en_sessionId en) = Some s \<and> rs_profile s = en_profile en \<and> rs_epoch s = en_epoch en
    \<and> fst (acceptInboundRelaySeq s (en_seq en)) \<and> decryptEnvelope c (rs_key s) en = Some plaintext"
proof -
  have quiet: "\<not> silent (snd (handle_event c cfg ev e sys))" using assms by (auto simp: silent_def)
  show ?thesis
  proof (cases e)
    case (From_relay link frame)
    then have link: "link \<in> set (sy_links sys)" using assms by (auto simp: handle_event_def Let_def split: if_split_asm)
    let ?r = "relay_message c cfg (ev_draws ev) (is_open sys) (ev_now ev) link frame (sy_bridge sys)"
    have sent: "Send_daemon n plaintext \<in> set (fst (snd ?r))"
      using assms link From_relay by (auto simp: handle_event_def stepped_def Let_def split_beta)
    have "handleRelayControlFrame c cfg (ev_draws ev) (is_open sys) (ev_now ev) link frame (sy_bridge sys) = None"
      using sent silent_control by (cases "handleRelayControlFrame c cfg (ev_draws ev) (is_open sys) (ev_now ev) link frame (sy_bridge sys)")
        (auto simp: relay_message_def silent_def)
    with sent have "Send_daemon n plaintext \<in> set (snd (envelope_message c (is_open sys) (ev_now ev) link frame (sy_bridge sys)))"
      by (simp add: relay_message_def split_beta)
    from envelope_sends [OF this] link From_relay show ?thesis by (cases link) auto
  next
    case (Resume i r)
    have "silent (snd (resume_task c cfg ev sys i r))"
      using silent_task by (auto simp: resume_task_def stepped_def Let_def split_beta split: option.split)
    then show ?thesis using quiet Resume by (simp add: handle_event_def)
  qed (use quiet in \<open>auto simp: handle_event_def stepped_def stop_def daemon_message_def socket_closed_def Let_def split_beta
      split: option.split_asm if_split_asm\<close>)
qed

text \<open>A session and a frame that was sealed under its key.\<close>

definition sample_session :: relay_session where
  "sample_session = createRelaySessionState \<lparr>ds_key = [1], ds_profile = Noise_ik, ds_sessionId = ''rs_1'', ds_epoch = 1\<rparr> 0"

definition sample_system :: system where
  "sample_system = sys_init ''wss://relay'' None \<lparr>sy_links := [(0, 1)], sy_opened := [0, 1],
     sy_bridge := (new_bridge ''wss://relay'' None) \<lparr>br_running := True, br_state := Connected, br_relaySessions := [(''rs_1'', sample_session)]\<rparr>\<rparr>"

definition sample_frame :: string where
  "sample_frame = fst (sendToRelaySession open_crypto (\<lambda>_ _. replicate 12 0) sample_session ''hello'' 0)"

lemma sample_frame_opens:
  "\<exists>e. parseRelayEnvelope sample_frame = Some e \<and> en_profile e = Noise_ik \<and> en_sessionId e = ''rs_1'' \<and> en_epoch e = 1 \<and> en_seq e = 1
    \<and> decryptEnvelope open_crypto [1] e = Some ''hello''"
  using sent_frame_opens [OF open_crypto_laws, of "\<lambda>_ _. replicate 12 0" sample_session "''hello''" 0]
  by (simp add: sample_frame_def sample_session_def createRelaySessionState_def is_bytes_def list_all_iff trim_def js_space_def)

theorem only_decrypted_reaches_daemon_witness:
  "Send_daemon 0 ''hello'' \<in> set (snd (handle_event open_crypto sample_config sample_env (From_relay (0, 1) sample_frame) sample_system))
   \<and> (\<exists>en s. jm_get (br_relaySessions (sy_bridge sample_system)) (en_sessionId en) = Some s
     \<and> decryptEnvelope open_crypto (rs_key s) en = Some ''hello'')"
proof -
  obtain e where e: "parseRelayEnvelope sample_frame = Some e" "en_profile e = Noise_ik" "en_sessionId e = ''rs_1''" "en_epoch e = 1" "en_seq e = 1"
    "decryptEnvelope open_crypto [1] e = Some ''hello''" using sample_frame_opens by blast
  then have sent: "Send_daemon 0 ''hello'' \<in> set (snd (handle_event open_crypto sample_config sample_env (From_relay (0, 1) sample_frame) sample_system))"
    by (simp add: handle_event_def relay_message_envelope envelope_message_def sample_system_def sys_init_def stepped_def is_open_def new_bridge_def
        sample_session_def createRelaySessionState_def acceptInboundRelaySeq_def RELAY_REPLAY_WINDOW_def js_map_simps Let_def)
  from only_decrypted_reaches_daemon [OF this] sent show ?thesis by blast
qed

section \<open>A reconnection and the queue\<close>

lemma flush_without_sessions:
  "br_relaySessions b = [] \<Longrightarrow> snd (flush_queue c cfg ivs now ws q b) = [] \<and> br_relaySessions (fst (flush_queue c cfg ivs now ws q b)) = []"
proof (induction q arbitrary: b)
  case (Cons p q)
  have "snd (sendToAll c cfg ivs now ws p b') = [] \<and> br_relaySessions (fst (sendToAll c cfg ivs now ws p b')) = []"
    if "br_relaySessions b' = []" for b'
    using that by (simp add: sendToAll_def sendToAllRelaySessions_def pruneIdleRelaySessions_def jm_filter_def Let_def)
  then show ?case using Cons by (simp add: split_beta Let_def)
qed simp

text \<open>A reconnection loses the messages that waited for it. The loop clears the sessions before it connects, and the queue is
  flushed to the sessions; when the connection is there without sessions, everything in the queue is gone and nothing was sent.\<close>

theorem reconnect_drops_queue:
  assumes "bridge_reachable c cfg sys" and "i < length (sy_tasks sys)" and "sy_tasks sys ! i = Loop (Opening_relay daemonWs token)"
    and "br_relaySessions (sy_bridge sys) = []"
  shows "snd (handle_event c cfg ev (Resume i (Loop_reply (Opened (Inr ws)))) sys) = []
    \<and> br_pendingOutbound (sy_bridge (fst (handle_event c cfg ev (Resume i (Loop_reply (Opened (Inr ws)))) sys))) = []"
proof -
  let ?b = "(sy_bridge sys)\<lparr>br_relayWs := Some ws, br_state := Connected, br_reconnectAttempt := 0\<rparr>"
  let ?opn = "is_open (sys\<lparr>sy_opened := ws # sy_opened sys\<rparr>)"
  have q: "queue_ok cfg (sy_bridge sys)" using bridge_invariant [OF assms(1)] by simp
  have "?opn ws" by (simp add: is_open_def)
  then have "snd (flushPendingOutbound c cfg (ev_ivs ev) ?opn (ev_now ev) ?b) = []
      \<and> br_pendingOutbound (fst (flushPendingOutbound c cfg (ev_ivs ev) ?opn (ev_now ev) ?b)) = []"
    using q flush_without_sessions [of ?b c cfg "ev_ivs ev" "ev_now ev" ws "br_pendingOutbound (sy_bridge sys)"] assms(4)
      flush_queue_empties [of "br_pendingOutbound (sy_bridge sys)" ?b c cfg "ev_ivs ev" "ev_now ev" ws]
    by (simp add: flushPendingOutbound_def queue_ok_def split_beta)
  then show ?thesis using assms(2,3)
    by (simp add: handle_event_def resume_task_def task_resumes_def opened_by_def loop_resumes_def stepped_def split_beta Let_def)
qed

lemma run_append: "run_events c cfg ev (es @ es') sys = run_events c cfg ev es' (run_events c cfg ev es sys)"
  by (induction es arbitrary: sys) simp_all

lemma queued_hi: "trim_queue sample_config [''hi''] 2 = ([''hi''], 2)" "byteLength ''hi'' = 2"
  by (simp_all add: trim_queue.simps sample_config_def bridge_config_of_def byteLength_def)

lemma reconnecting_state:
  "sy_tasks (run_events open_crypto sample_config sample_env reconnecting (sys_init ''wss://relay'' None)) = [Loop (Opening_relay 2 ''jwt'')]
   \<and> br_relaySessions (sy_bridge (run_events open_crypto sample_config sample_env reconnecting (sys_init ''wss://relay'' None))) = []
   \<and> br_pendingOutbound (sy_bridge (run_events open_crypto sample_config sample_env reconnecting (sys_init ''wss://relay'' None))) = [''hi'']"
proof -
  have filter: "bc_filterDaemonPayload sample_config = Some" by (simp add: sample_config_def bridge_config_of_def)
  show ?thesis
    unfolding reconnecting_def run_append connecting_state
    by (simp add: handle_event_def resume_task_def task_resumes_def connectLoop_def loop_attempt_def stepped_def tasks_of_def sample_env_def
        loop_resumes_def without_def opened_by_def closed_by_def flushPendingOutbound_def is_open_def new_bridge_def daemon_message_def
        filter non_empty_def queued_hi socket_closed_def recordError_def Let_def)
qed

theorem reconnect_drops_queue_witness:
  "let sys = run_events open_crypto sample_config sample_env reconnecting (sys_init ''wss://relay'' None)
   in br_pendingOutbound (sy_bridge sys) = [''hi'']
     \<and> snd (handle_event open_crypto sample_config sample_env (Resume 0 (Loop_reply (Opened (Inr 3)))) sys) = []
     \<and> br_pendingOutbound (sy_bridge (fst (handle_event open_crypto sample_config sample_env (Resume 0 (Loop_reply (Opened (Inr 3)))) sys))) = []"
  using reconnecting_state reconnect_drops_queue [OF run_reachable [OF sample_ok], where i = 0 and daemonWs = 2 and token = "''jwt''"]
  by (simp add: Let_def)

section \<open>A stop in the middle of a connection\<close>

text \<open>C39: a stop does not stop a bridge that is about to connect. The loop does not look at the stop after it waited: when the relay's
  socket opens, the stopped bridge is connected, its handlers are installed and its socket stays open, with nothing left that closes it.\<close>

theorem stopped_bridge_connects:
  assumes "i < length (sy_tasks sys)" and "sy_tasks sys ! i = Loop (Opening_relay daemonWs token)"
  shows "let sys' = fst (handle_event c cfg ev (Resume i (Loop_reply (Opened (Inr ws)))) (fst (handle_event c cfg ev Stop sys)))
    in \<not> br_running (sy_bridge sys') \<and> br_state (sy_bridge sys') = Connected \<and> br_relayWs (sy_bridge sys') = Some ws
      \<and> (daemonWs, ws) \<in> set (sy_links sys') \<and> is_open sys' ws \<and> br_daemonWs (sy_bridge sys') = None"
  using assms
  by (simp add: handle_event_def resume_task_def task_resumes_def opened_by_def loop_resumes_def stepped_def tasks_of_def stop_def is_open_def
      closed_by_def flushPendingOutbound_def Let_def)

theorem stopped_bridge_connects_witness:
  "let sys = run_events open_crypto sample_config sample_env (connecting @ [Stop, Resume 0 (Loop_reply (Opened (Inr 1)))]) (sys_init ''wss://relay'' None)
   in \<not> br_running (sy_bridge sys) \<and> br_state (sy_bridge sys) = Connected"
  using stopped_bridge_connects [where sys = "run_events open_crypto sample_config sample_env connecting (sys_init ''wss://relay'' None)"
      and i = 0 and daemonWs = 0 and token = "''jwt''" and ws = 1 and c = open_crypto and cfg = sample_config and ev = sample_env]
  by (simp add: run_append connecting_state Let_def del: run_events.simps(1)) (simp add: Let_def)

section \<open>A late close\<close>

text \<open>When a socket of an old pair closes after the bridge connected again, the new pair is forgotten but stays open, and a second loop
  connects.\<close>

lemma late_close_reconnects:
  assumes "link \<in> set (sy_links sys)" and "br_running (sy_bridge sys)" and "\<not> br_reconnecting (sy_bridge sys)"
    and "br_circuitOpenUntilMs (sy_bridge sys) \<le> ev_now ev" and "is_open sys ws" and "ws \<noteq> fst link" and "ws \<noteq> snd link"
  shows "let sys' = fst (handle_event c cfg ev (Closed link source) sys)
    in is_open sys' ws \<and> br_relayWs (sy_bridge sys') = None \<and> br_relaySessions (sy_bridge sys') = []
      \<and> (\<exists>p. sy_tasks sys' = sy_tasks sys @ [Loop p])"
  using assms
  by (auto simp: handle_event_def socket_closed_def connectLoop_def loop_attempt_def recordError_def stepped_def tasks_of_def is_open_def
      closed_by_def Let_def)

section \<open>Frames that nobody authenticated\<close>

text \<open>The state of a session's window after a frame, whether or not it opens.\<close>

lemma envelope_window:
  assumes "parseRelayEnvelope frame = Some e" and "jm_get (br_relaySessions b) (en_sessionId e) = Some s" and "rs_profile s = en_profile e"
    and "rs_epoch s = en_epoch e"
  shows "\<exists>s'. jm_get (br_relaySessions (fst (envelope_message c opn now link frame b))) (en_sessionId e) = Some s'
    \<and> rs_rxHighestSeq s' = rs_rxHighestSeq (snd (acceptInboundRelaySeq s (en_seq e)))
    \<and> rs_rxSeenSeq s' = rs_rxSeenSeq (snd (acceptInboundRelaySeq s (en_seq e))) \<and> rs_profile s' = rs_profile s \<and> rs_epoch s' = rs_epoch s"
proof -
  have "rs_profile (snd (acceptInboundRelaySeq s n)) = rs_profile s" "rs_epoch (snd (acceptInboundRelaySeq s n)) = rs_epoch s" for n
    by (simp_all add: acceptInboundRelaySeq_def Let_def)
  then show ?thesis using assms
    by (auto simp: envelope_message_def recordError_def Let_def split_beta split: option.split)
qed

lemma jump_accepted:
  assumes "\<forall>n \<in> set (rs_rxSeenSeq s). n \<le> rs_rxHighestSeq s" and "0 \<le> rs_rxHighestSeq s" and "n = rs_rxHighestSeq s + 1024"
  shows "rs_rxHighestSeq (snd (acceptInboundRelaySeq s n)) = n" and "\<forall>m \<in> set (rs_rxSeenSeq (snd (acceptInboundRelaySeq s n))). m \<le> n"
proof -
  have new: "n \<notin> set (rs_rxSeenSeq s)" using assms(1,3) by auto
  then show "rs_rxHighestSeq (snd (acceptInboundRelaySeq s n)) = n"
    using assms by (simp add: acceptInboundRelaySeq_def RELAY_REPLAY_WINDOW_def Let_def)
  have "set (rs_rxSeenSeq (snd (acceptInboundRelaySeq s n))) \<subseteq> insert n (set (rs_rxSeenSeq s))"
    by (auto simp: acceptInboundRelaySeq_def Let_def)
  then show "\<forall>m \<in> set (rs_rxSeenSeq (snd (acceptInboundRelaySeq s n))). m \<le> n" using assms(1,3) by fastforce
qed

text \<open>C38: two forged frames silence a session. The number of a frame is taken into the window before the frame is decrypted; after two
  frames at the far end of the window, with whatever content, the bridge drops the next 1024 frames of the true client.\<close>

theorem forged_frames_silence_session:
  assumes "jm_get (br_relaySessions b) i = Some s" and "\<forall>n \<in> set (rs_rxSeenSeq s). n \<le> rs_rxHighestSeq s" and "0 \<le> rs_rxHighestSeq s"
    and "parseRelayEnvelope forged1 = Some e1" and "en_sessionId e1 = i" and "en_profile e1 = rs_profile s" and "en_epoch e1 = rs_epoch s"
    and "en_seq e1 = rs_rxHighestSeq s + 1024"
    and "parseRelayEnvelope forged2 = Some e2" and "en_sessionId e2 = i" and "en_profile e2 = rs_profile s" and "en_epoch e2 = rs_epoch s"
    and "en_seq e2 = rs_rxHighestSeq s + 2048"
    and "parseRelayEnvelope genuine = Some e3" and "en_sessionId e3 = i" and "en_seq e3 \<le> rs_rxHighestSeq s + 1024"
  shows "let after = (\<lambda>frame b. fst (relay_message c cfg d opn now link frame b))
    in fst (snd (relay_message c cfg d opn now link genuine (after forged2 (after forged1 b)))) = []"
proof -
  let ?after = "\<lambda>frame b. fst (envelope_message c opn now link frame b)"
  obtain s1 where s1: "jm_get (br_relaySessions (?after forged1 b)) i = Some s1" "rs_rxHighestSeq s1 = rs_rxHighestSeq s + 1024"
      "\<forall>n \<in> set (rs_rxSeenSeq s1). n \<le> rs_rxHighestSeq s1" "rs_profile s1 = rs_profile s" "rs_epoch s1 = rs_epoch s"
    using envelope_window [OF assms(4), of b s c opn now link] jump_accepted [OF assms(2,3,8)] assms(1,5-8) by auto
  obtain s2 where s2: "jm_get (br_relaySessions (?after forged2 (?after forged1 b))) i = Some s2" "rs_rxHighestSeq s2 = rs_rxHighestSeq s + 2048"
    using envelope_window [OF assms(9), of "?after forged1 b" s1 c opn now link] jump_accepted(1) [of s1 "en_seq e2"] assms(3,10-13) s1 by auto
  have "\<not> fst (acceptInboundRelaySeq s2 (en_seq e3))"
    using s2(2) assms(3,16) by (auto simp: acceptInboundRelaySeq_def RELAY_REPLAY_WINDOW_def Let_def)
  then show ?thesis using s2(1) assms(4,9,14,15)
    by (auto simp: relay_message_envelope envelope_message_def [of c opn now link genuine] Let_def split_beta)
qed

text \<open>A frame without any ciphertext, with a chosen number.\<close>

definition forged_frame :: "int \<Rightarrow> string" where
  "forged_frame n = JSON_stringify (envelope_json \<lparr>en_profile = Noise_ik, en_sessionId = ''rs_1'', en_epoch = 1, en_seq = n, en_iv = [],
     en_tag = [], en_ciphertext = []\<rparr>)"

theorem forged_frames_silence_session_witness:
  "let after = (\<lambda>frame b. fst (relay_message open_crypto sample_config (ev_draws sample_env) (\<lambda>_. True) 0 (0, 1) frame b))
   in fst (snd (relay_message open_crypto sample_config (ev_draws sample_env) (\<lambda>_. True) 0 (0, 1) sample_frame
       (after (forged_frame 2048) (after (forged_frame 1024) (sy_bridge sample_system))))) = []"
proof -
  obtain e where e: "parseRelayEnvelope sample_frame = Some e" "en_sessionId e = ''rs_1''" "en_seq e = 1" using sample_frame_opens by blast
  have f: "parseRelayEnvelope (forged_frame n) = Some \<lparr>en_profile = Noise_ik, en_sessionId = ''rs_1'', en_epoch = 1, en_seq = n, en_iv = [],
     en_tag = [], en_ciphertext = []\<rparr>" if "1 \<le> n" for n
    unfolding forged_frame_def by (rule envelope_json_roundtrip) (use that in \<open>simp_all add: trim_def js_space_def\<close>)
  show ?thesis
    by (rule forged_frames_silence_session [where i = "''rs_1''" and s = sample_session, OF _ _ _ f _ _ _ _ f _ _ _ _ e(1,2)])
       (simp_all add: sample_system_def sample_session_def createRelaySessionState_def js_map_simps e(3))
qed

end
