(* ===== verification/Spec2Isabelle.thy ===== *)
theory Spec2Isabelle
  imports Relay_Guarantees Relay_Liveness Relay_Bus Workflow_Shell Workflow_Guarantees Session_Restart Session_Permissions
    Daemon_Pairing_Safety Workflow_Actions Bridge_Guarantees
begin

text \<open>
  \<^bold>\<open>Viewport: the relay, and the workflow engine, sessions and relay bridge of the daemon.\<close>

  Viewport runs coding agents on the machines of its users. A daemon on each machine starts agent sessions and executes
  workflows; clients reach it through a relay, which connects the sockets of daemons, clients and workers and passes
  on (mostly encrypted) frames. A control plane, not part of the repository, admits connections, receives reports and
  sends decisions. This development covers the relay (\<open>services/relay/src\<close>) and, of the daemon, the workflow engine
  (\<open>packages/daemon/src/workflows\<close>), the replay of session updates, the permissions of agents, pairing, and the bridge
  to the relay (\<open>packages/daemon/src/relay\<close>).

  \<^bold>\<open>Foundations.\<close> \<open>Prelude\<close> holds insertion-ordered maps (\<open>js_map\<close>, the JavaScript \<open>Map\<close> and plain object) with their
  laws, strings and numbers; \<open>Json\<close> is the datatype of JSON values with a parser and the field accessors that the code
  applies to \<open>unknown\<close> values. \<open>JSON.parse\<close>, string trimming and case mapping are modelled, not assumed. \<open>Json_Text\<close> writes
  JSON and shows that reading gives back what was written.

  \<^bold>\<open>The relay.\<close>
    \<^item> \<open>Relay_Registry\<close> (registry.ts, relay-status-payloads.ts, types.ts): the record of a scope, the tables of the owners
      of pairing requests, key exchanges and sessions with their eviction, and the operations of \<open>ConnectionRegistry\<close>.
    \<^item> \<open>Relay_Frames\<close> (relay-frame-validation.ts): what may be sent in which direction.
    \<^item> \<open>Relay_Admission\<close> (upgrade-auth.ts, admission.ts, relay-connection-admission.ts): tokens, claims, admission.
    \<^item> \<open>Rate_Limiters\<close> (security.ts): the fixed window and the token bucket.
    \<^item> \<open>Relay_Context\<close> (logger.ts, metrics.ts and the state of index.ts): the state of a relay and its effects.
    \<^item> \<open>Relay_Routing\<close>, \<open>Relay_Connections\<close> (relay-routing.ts, relay-runtime-routing.ts): every handler of the three
      roles, session events, worker transport and the bus.
    \<^item> \<open>Relay_Server\<close> (index.ts): the upgrade handler, the timers and shutdown. \<open>Relay_Bus\<close> (bus.ts, bus-signing.ts): the
      signed frames between relays and the pull loop.
    \<^item> \<open>Relay_System\<close>: the relay as a transition system over all events; \<open>Relay_Footprint\<close>, \<open>Relay_Safety\<close>,
      \<open>Relay_Generations\<close>: what each handler may change, and the invariants; \<open>Relay_Guarantees\<close> and \<open>Relay_Liveness\<close>: the
      properties. \<open>Relay_Demo\<close> has the small configurations of the witnesses.

  A relay is a record; a handler is a function from it to it, with the clock, random values and answers of the control
  plane as arguments; the outgoing frames, closes and log entries are a list in the record.

  \<^bold>\<open>The workflow engine.\<close>
    \<^item> \<open>Workflow_Types\<close> (types.ts, run-types.ts, event-types.ts): definitions, runs, node states and events.
    \<^item> \<open>Workflow_Graph\<close> (parser.ts): the execution order, the reachability of dependencies, and the validation of the
      graph and of the references in templates.
    \<^item> \<open>Workflow_Templates\<close> (expression.ts, runtime-helpers.ts): expressions, templates, and the quoting of values in shell
      commands; \<open>Workflow_Shell\<close> relates the quoting to a model of how a POSIX shell reads quotes.
    \<^item> \<open>Workflow_Rules\<close> (trigger-rule.ts, retry-classifier.ts, runner-shared.ts), \<open>Workflow_Outputs\<close>
      (structured-outputs.ts).
    \<^item> \<open>Workflow_Store\<close> (store.ts, runner-canceler.ts): the merge that every save performs with the stored run, and the
      cancellation. The locale \<open>sticky\<close> is the contract of facts that no save takes away; it is interpreted for terminal
      and canceled runs and nodes.
    \<^item> \<open>Workflow_Executor\<close> (node-executor.ts, node-registry.ts): the life of a node and the executors that decide the course of
      a run.
    \<^item> \<open>Workflow_Recovery\<close> (runner-reconciler.ts, runner-resumer.ts), \<open>Workflow_Scheduler\<close> (runner-scheduler.ts),
      \<open>Workflow_Approvals\<close> (runner.ts, platform-runtime-command.ts, platform-command-applier.ts).
    \<^item> \<open>Policy_Patterns\<close> (policy-enforcement.ts), \<open>Workflow_Authority\<close> (workflow-authority-contract.ts): the patterns of
      policies as regular expressions, and what the authority contract of a run allows.
    \<^item> \<open>Action_Requests\<close> (action-digest.ts, action-policy.ts, action-provider-utils.ts, provider-reconciliation.ts),
      \<open>Action_Providers\<close> (action-execution-ledger.ts, action-provider-adapters.ts), \<open>Workflow_Actions\<close> (action-adapters.ts):
      an action is a tree of requests, whose branches are the answers and the run as it is then; the properties are about
      every request of the tree and every course through it.
    \<^item> \<open>Workflow_System\<close>: a run with its schedulers, decisions, cancellations, reports and restarts as a transition
      system; \<open>Workflow_Footprint\<close> and \<open>Workflow_Status\<close>: what the operations may change; \<open>Workflow_Termination\<close>: a scheduler
      that is alone; \<open>Workflow_Guarantees\<close>: the properties.

  An operation takes the copy of the run that its caller holds and returns it changed, together with the copies it
  saves on the way; the system keeps the stored run and merges every saved copy into it, so that the interleaving of
  stale copies is explicit. Clock and random ids are arguments (\<open>env\<close>).

  \<^bold>\<open>Sessions and pairing.\<close>
    \<^item> \<open>Session_Replay\<close> (ring-buffer.ts, replay-events.ts, replay-persistence.ts): the numbered updates of a session in a ring
      and a journal, and the window for a client that reconnects. The locale \<open>recent_log\<close> is the contract of a log of the
      last entries; the ring interprets it. \<open>Session_Restart\<close>: what is on disk, and the properties.
    \<^item> \<open>Session_Permissions\<close> (engine.ts, permission-coordinator.ts and their callers): questions of agents before they use a
      tool, as a transition system over tool uses, answers, timers, aborts and the ends of sessions.
    \<^item> \<open>Daemon_Pairing\<close>, \<open>Daemon_Pairing_Safety\<close> (pairing-offers.ts, pairing-peer-bindings.ts, pairing-identity-store.ts):
      offers, their redemption, and the peers.

  \<^bold>\<open>The relay bridge.\<close>
    \<^item> \<open>Bridge_Crypto\<close> (bridge-crypto.ts, bridge-handshake-profile.ts): bytes, base64url, envelopes. The primitives of
      node's crypto module are the record \<open>crypto\<close>, \<open>crypto_laws\<close> what is documented of them, \<open>open_crypto\<close> an instance.
    \<^item> \<open>Bridge_Noise\<close> (bridge-noise-v3.ts), \<open>Bridge_Keys\<close> (bridge-key-exchange.ts): the key exchanges of versions 3 and 2.
    \<^item> \<open>Bridge_Network\<close> (bridge-network.ts, bridge-connections.ts, bridge-errors.ts, bridge-backoff.ts, cli/network.ts): trust in
      the other side of a TLS connection. \<open>Bridge_Tokens\<close> (bridge-jwt.ts, bridge-token-issuer.ts,
      bridge-daemon-key-registration.ts): relay tokens and how they are obtained.
    \<^item> \<open>Bridge_Sessions\<close> (bridge-relay-sessions.ts, relay-control-frames.ts): sessions and their replay window, refined against
      a receiver that forgets nothing.
    \<^item> \<open>Daemon_Bridge\<close> (daemon-relay-bridge.ts): the loop that connects and the handlers, every piece between two awaits a
      function; \<open>Bridge_Safety\<close>: the bridge with its waiting tasks and sockets as a transition system, and its invariants;
      \<open>Bridge_Guarantees\<close>: the properties.

  \<^bold>\<open>What is shown.\<close> For the relay: frames stay within the scope of their sender, subscriptions within the claims, workers
  below their executor's prefix (as texts), tables within their bounds, counts per address exact, daemon generations
  monotone, bus frames authentic and not replayed, the rate limits as numbers, silent peers terminated, logs redacted.
  For workflows: the order is a topological order and exists exactly without cycles; nodes are attempted only after
  their needs; outcomes and cancellations are final under every interleaving; a scheduler that is alone terminates and
  leaves the run completed, failed at a halting node or blocked at a blocked node; approvals bind to the digest and the
  request that were approved; captured outputs have their types; shell values stay literal; shell commands stay within the authority contract;
  actions send nothing before their checks, and nothing again that was recorded.
  For sessions: a reconnecting client gets every kept update it has not seen, in order; numbers and durable updates
  survive a restart; a tool is used only with an approval, and every question is answered once; an offer is redeemed once,
  with its secret and a verified signature, and resists guessing. For the relay bridge: both sides of a key exchange end with the
  same session; only what was sealed for a known session reaches the daemon; the replay window decides as an unbounded memory would;
  queue and tables stay bounded. A few theorems state what
  the code does not do: scope keys that collide, worker paths that escape, replies that are dropped, heartbeats that
  miss silence, approvals that get lost, actions on other repositories
  than the checked one, certificate pins that are turned around, tokens signed with a public key, sessions silenced by forged
  frames, a bridge that connects after its stop.

  \<^bold>\<open>Bounds.\<close> No definition uses fuel. The scheduling loop is a step relation; its bound of 10,000 rounds is part of the
  model, and is shown to be out of reach. The JSON parser recurses on the text.

  \<^bold>\<open>Parameters.\<close> HMAC, signatures, key derivation, ciphers and P-256, the control plane's answers, URL resolution by \<open>fetch\<close>, the jsonata library, the parsing of
  free-form dates, the environment, files of secrets, collation and URL parsing of actions, agent sessions and the display metadata of nodes are arguments. Executors that run agents,
  processes or git may do anything that keeps all statuses (\<open>works\<close>).

  \<^bold>\<open>Not modelled.\<close> Sockets, HTTP servers and files as such; YAML and the zod schema; the Redis backplane, presence and
  the configuration of the relay; loops, subflows and context resolution of workflows; the daemon's
  HTTP and WebSocket server, adapters, discovery, hooks and command line; the pairing frames over the relay and the filter of an
  organization; the cryptography of epochs and of the context engine.
\<close>

end
